(* ===== verification/Laso_Prelude.thy ===== *)
theory Laso_Prelude
  imports Complex_Main "HOL-Library.Char_ord" "HOL-Library.List_Lexorder" "HOL-Library.Word"
begin

text \<open>
  Shared ground of the development: the collections of rewrite rules, the machine integer types,
  the exceptions of the program as values of a sum type, and ordered maps with the behaviour the
  C++ code relies on when it uses \<^verbatim>\<open>std::map\<close>: unique keys kept in ascending order, emplace
  that never overwrites, assignment that does, and iteration in key order. The ordered map is
  stated as an interface (locale \<open>ordered_map\<close>) whose laws are discharged here for sorted
  association lists.
\<close>

named_theorems omap_simps \<open>equations of the ordered map operations\<close>
named_theorems res_simps \<open>elimination of the result type's plumbing\<close>

type_synonym u8 = "8 word"
type_synonym u32 = "32 word"
type_synonym u64 = "64 word"

section \<open>Exceptions as values\<close>

datatype error_code =
    Configuration | Validation | Plugin | Storage | Provider | Tool | Policy | Execution
  | Timeout | Cancellation | NotFound | Conflict | Capacity | Unavailable

text \<open>
  \<open>Error\<close> is \<^verbatim>\<open>laso::Error\<close> with its code and its safe message. \<open>JsonTypeError\<close> and
  \<open>JsonOutOfRange\<close> are the two exceptions of the JSON library that field access raises,
  \<open>SignedOverflow\<close> marks a computation whose result does not fit the signed machine type the
  code uses (undefined behaviour in C++, never a value the code could rely on). \<open>InvalidArgument\<close> is
  \<^verbatim>\<open>std::invalid_argument\<close>, which the worker codecs raise.
\<close>

datatype exn =
    Error (exn_code: error_code) string | JsonTypeError | JsonOutOfRange | SignedOverflow | InvalidArgument

type_synonym 'a result = "exn + 'a"

abbreviation throw :: "error_code \<Rightarrow> string \<Rightarrow> 'a result" where
  "throw c m \<equiv> Inl (Error c m)"

definition rbind :: "'a result \<Rightarrow> ('a \<Rightarrow> 'b result) \<Rightarrow> 'b result" where
  "rbind r f = (case r of Inl e \<Rightarrow> Inl e | Inr x \<Rightarrow> f x)"

fun mapM :: "('a \<Rightarrow> 'b result) \<Rightarrow> 'a list \<Rightarrow> 'b list result" where
  "mapM f [] = Inr []"
| "mapM f (x # xs) = rbind (f x) (\<lambda>y. rbind (mapM f xs) (\<lambda>ys. Inr (y # ys)))"

fun forM :: "'a list \<Rightarrow> ('a \<Rightarrow> unit result) \<Rightarrow> unit result" where
  "forM [] f = Inr ()"
| "forM (x # xs) f = rbind (f x) (\<lambda>_. forM xs f)"

fun foldM :: "('a \<Rightarrow> 's \<Rightarrow> 's result) \<Rightarrow> 'a list \<Rightarrow> 's \<Rightarrow> 's result" where
  "foldM f [] s = Inr s"
| "foldM f (x # xs) s = rbind (f x s) (\<lambda>s'. foldM f xs s')"

lemma rbind_Inr [simp, res_simps]: "rbind (Inr x) f = f x"
  by (simp add: rbind_def)

lemma rbind_Inl [simp, res_simps]: "rbind (Inl e) f = Inl e"
  by (simp add: rbind_def)

lemma rbind_eq_Inr [res_simps]: "rbind r f = Inr y \<longleftrightarrow> (\<exists>x. r = Inr x \<and> f x = Inr y)"
  by (cases r) simp_all

lemma rbind_eq_Inl: "rbind r f = Inl e \<longleftrightarrow> r = Inl e \<or> (\<exists>x. r = Inr x \<and> f x = Inl e)"
  by (cases r) simp_all

text \<open>Evaluate a chain from its head: the continuation waits until the first result is known.\<close>

lemma rbind_weak_cong: "r = r' \<Longrightarrow> rbind r f = rbind r' f"
  by simp

lemma rbindE:
  assumes "rbind r f = Inr y"
  obtains x where "r = Inr x" and "f x = Inr y"
  using assms by (auto simp: rbind_eq_Inr)

lemma rbind_assoc: "rbind (rbind r f) g = rbind r (\<lambda>x. rbind (f x) g)"
  by (cases r) simp_all

lemma forM_Inr [res_simps]: "forM xs f = Inr u \<longleftrightarrow> (\<forall>x \<in> set xs. f x = Inr ())"
  by (induction xs) (auto simp: rbind_eq_Inr)

lemma mapM_roundtrip: "(\<And>x. x \<in> set xs \<Longrightarrow> f (g x) = Inr x) \<Longrightarrow> mapM f (map g xs) = Inr xs"
  by (induction xs) simp_all

lemma mapM_Inr_length: "mapM f xs = Inr ys \<Longrightarrow> length ys = length xs"
  by (induction xs arbitrary: ys) (auto simp: rbind_eq_Inr)

lemma foldM_append: "foldM f (xs @ ys) s = rbind (foldM f xs s) (foldM f ys)"
  by (induction xs arbitrary: s) (simp_all add: rbind_def split: sum.split)

text \<open>An invariant that every step of a fold keeps holds of the fold's result.\<close>

lemma foldM_invariant:
  assumes "foldM f xs s = Inr t" and "P s"
    and "\<And>x s s'. x \<in> set xs \<Longrightarrow> P s \<Longrightarrow> f x s = Inr s' \<Longrightarrow> P s'"
  shows "P t"
  using assms by (induction xs arbitrary: s) (auto simp: rbind_eq_Inr)

section \<open>Ordered maps\<close>

type_synonym ('k, 'v) omap = "('k \<times> 'v) list"

definition omap_inv :: "('k::linorder, 'v) omap \<Rightarrow> bool" where
  "omap_inv m \<longleftrightarrow> sorted_wrt (<) (map fst m)"

fun omap_put :: "'k::linorder \<Rightarrow> 'v \<Rightarrow> ('k, 'v) omap \<Rightarrow> ('k, 'v) omap" where
  "omap_put k v [] = [(k, v)]"
| "omap_put k v ((k', v') # m) =
     (if k < k' then (k, v) # (k', v') # m
      else if k = k' then (k, v) # m
      else (k', v') # omap_put k v m)"

definition omap_emplace :: "'k::linorder \<Rightarrow> 'v \<Rightarrow> ('k, 'v) omap \<Rightarrow> bool \<times> ('k, 'v) omap" where
  "omap_emplace k v m = (case map_of m k of None \<Rightarrow> (True, omap_put k v m) | Some _ \<Rightarrow> (False, m))"

definition omap_erase :: "'k \<Rightarrow> ('k, 'v) omap \<Rightarrow> ('k, 'v) omap" where
  "omap_erase k m = filter (\<lambda>e. fst e \<noteq> k) m"

definition omap_contains :: "('k, 'v) omap \<Rightarrow> 'k \<Rightarrow> bool" where
  "omap_contains m k \<longleftrightarrow> map_of m k \<noteq> None"

text \<open>Building a map from an initializer list: each pair is emplaced, so the first one wins.\<close>

fun omap_of_list :: "('k::linorder \<times> 'v) list \<Rightarrow> ('k, 'v) omap" where
  "omap_of_list [] = []"
| "omap_of_list ((k, v) # xs) = omap_put k v (omap_of_list xs)"

lemma map_of_omap_put_same: "map_of (omap_put k v m) k = Some v"
  by (induction k v m rule: omap_put.induct) auto

lemma map_of_omap_put_other: "k' \<noteq> k \<Longrightarrow> map_of (omap_put k v m) k' = map_of m k'"
  by (induction k v m rule: omap_put.induct) auto

lemma map_of_omap_put [simp, omap_simps]: "map_of (omap_put k v m) = (map_of m)(k \<mapsto> v)"
  by (rule ext) (simp add: map_of_omap_put_same map_of_omap_put_other)

lemma set_keys_omap_put [omap_simps]: "set (map fst (omap_put k v m)) = insert k (set (map fst m))"
  by (induction k v m rule: omap_put.induct) auto

lemma omap_inv_Nil [simp]: "omap_inv []"
  by (simp add: omap_inv_def)

lemma omap_inv_put [simp]: "omap_inv m \<Longrightarrow> omap_inv (omap_put k v m)"
proof (induction k v m rule: omap_put.induct)
  case (1 k v)
  then show ?case by (simp add: omap_inv_def)
next
  case (2 k v k' v' m)
  from "2.prems" have tail: "omap_inv m" and first: "\<forall>x \<in> set (map fst m). k' < x"
    by (simp_all add: omap_inv_def)
  show ?case
  proof (cases "k' < k")
    case True
    with "2.IH" tail have "omap_inv (omap_put k v m)" by simp
    moreover have "\<forall>x \<in> set (map fst (omap_put k v m)). k' < x"
      using True first by (simp only: set_keys_omap_put) simp
    ultimately show ?thesis using True by (auto simp: omap_inv_def)
  next
    case False
    with "2.prems" show ?thesis by (auto simp: omap_inv_def)
  qed
qed

lemma omap_inv_of_list [simp]: "omap_inv (omap_of_list xs)"
  by (induction xs rule: omap_of_list.induct) simp_all

lemma map_of_omap_of_list [simp, omap_simps]: "map_of (omap_of_list xs) = map_of xs"
  by (induction xs rule: omap_of_list.induct) simp_all

lemma omap_inv_distinct: "omap_inv m \<Longrightarrow> distinct (map fst m)"
  unfolding omap_inv_def using strict_sorted_iff by blast

lemma map_of_omap_erase [simp, omap_simps]: "map_of (omap_erase k m) = (map_of m)(k := None)"
  by (rule ext, induction m) (auto simp: omap_erase_def)

lemma omap_inv_erase [simp]: "omap_inv m \<Longrightarrow> omap_inv (omap_erase k m)"
  unfolding omap_inv_def omap_erase_def by (induction m) auto

lemma omap_contains_iff: "omap_contains m k \<longleftrightarrow> k \<in> fst ` set m"
  by (induction m) (auto simp: omap_contains_def)

lemma omap_emplace_if:
  "omap_emplace k v m = (if k \<in> fst ` set m then (False, m) else (True, omap_put k v m))"
  using map_of_eq_None_iff [of m k] by (cases "map_of m k") (simp_all add: omap_emplace_def)

lemma length_omap_put_new: "k \<notin> fst ` set m \<Longrightarrow> length (omap_put k v m) = Suc (length m)"
  by (induction k v m rule: omap_put.induct) auto

lemma length_omap_put_old:
  "omap_inv m \<Longrightarrow> k \<in> fst ` set m \<Longrightarrow> length (omap_put k v m) = length m"
  by (induction k v m rule: omap_put.induct) (auto simp: omap_inv_def)

text \<open>Two ordered maps with the same contents are the same list: iteration order is determined.\<close>

lemma omap_ext:
  assumes "omap_inv m" and "omap_inv m'" and "map_of m = map_of m'"
  shows "m = m'"
proof -
  have d: "distinct (map fst m)" "distinct (map fst m')"
    using assms(1,2) by (simp_all add: omap_inv_distinct)
  have "set m = set m'"
    using d assms(3) by (simp add: map_of_inject_set)
  moreover have "sorted (map fst m)" "sorted (map fst m')"
    using assms(1,2) by (simp_all add: omap_inv_def strict_sorted_iff)
  ultimately show ?thesis
    using d by (auto intro: map_sorted_distinct_set_unique simp: distinct_map)
qed

lemma omap_of_list_id: "omap_inv m \<Longrightarrow> omap_of_list m = m"
  by (rule omap_ext) simp_all

section \<open>The ordered map as an interface\<close>

locale ordered_map =
  fixes empty :: "'m"
    and find :: "'m \<Rightarrow> 'k \<Rightarrow> 'v option"
    and put :: "'k \<Rightarrow> 'v \<Rightarrow> 'm \<Rightarrow> 'm"
    and erase :: "'k \<Rightarrow> 'm \<Rightarrow> 'm"
    and inv :: "'m \<Rightarrow> bool"
  assumes find_empty: "find empty k = None"
    and find_put: "find (put k v m) = (find m)(k \<mapsto> v)"
    and find_erase: "find (erase k m) = (find m)(k := None)"
    and inv_empty: "inv empty"
    and inv_put: "inv m \<Longrightarrow> inv (put k v m)"
    and inv_erase: "inv m \<Longrightarrow> inv (erase k m)"
    and extensional: "inv m \<Longrightarrow> inv m' \<Longrightarrow> find m = find m' \<Longrightarrow> m = m'"
begin

lemma put_put_same: "inv m \<Longrightarrow> put k v (put k w m) = put k v m"
  by (rule extensional) (simp_all add: inv_put find_put)

lemma put_commute: "inv m \<Longrightarrow> k \<noteq> k' \<Longrightarrow> put k v (put k' w m) = put k' w (put k v m)"
  by (rule extensional) (simp_all add: inv_put find_put fun_upd_twist)

lemma erase_put: "inv m \<Longrightarrow> find m k = None \<Longrightarrow> erase k (put k v m) = m"
  by (rule extensional) (auto simp: inv_put inv_erase find_put find_erase)

lemma put_find: "inv m \<Longrightarrow> find m k = Some v \<Longrightarrow> put k v m = m"
  by (rule extensional) (auto simp: inv_put find_put)

end

interpretation omap: ordered_map "[]" map_of omap_put omap_erase omap_inv
  by unfold_locales (auto intro: omap_ext)

end
