(* ===== verification/Laso_Json.thy ===== *)
theory Laso_Json
  imports Laso_Prelude
begin

text \<open>
  JSON values as the program sees them: the tagged union of the JSON library with its three
  number kinds and with objects as ordered maps, and the structural access the code uses
  (\<^verbatim>\<open>is_object\<close>, \<^verbatim>\<open>contains\<close>, \<^verbatim>\<open>at\<close>, \<^verbatim>\<open>value\<close>, building an object from an initializer list).
  What the library computes beyond structure, the conversions \<^verbatim>\<open>get<T>()\<close> and the serializer
  \<^verbatim>\<open>dump()\<close>, is not part of the repository: it is the record \<open>json_ops\<close>, an argument of every
  definition that uses it, and \<open>json_ops_ok\<close> names the documented behaviour the program
  relies on: a value converts back to the type it was built from. \<open>dump_ok\<close> says whether the
  serializer accepts a value (it throws on text that is not UTF-8), \<open>same\<close> is the library's
  comparison, which identifies numbers across their kinds.
\<close>

datatype dbl = Finite rat | PosInf | NegInf | NaN

datatype json =
    JNull
  | JBool bool
  | JInt int
  | JUInt nat
  | JFloat dbl
  | JStr string
  | JArr "json list"
  | JObj "(string \<times> json) list"

record json_ops =
  get_string :: "json \<Rightarrow> string result"
  get_bool :: "json \<Rightarrow> bool result"
  get_unsigned :: "json \<Rightarrow> u32 result"
  get_uint64 :: "json \<Rightarrow> u64 result"
  get_int64 :: "json \<Rightarrow> int result"
  get_double :: "json \<Rightarrow> dbl result"
  dump_ok :: "json \<Rightarrow> bool"
  dump :: "json \<Rightarrow> string"
  same :: "json \<Rightarrow> json \<Rightarrow> bool"

definition json_ops_ok :: "json_ops \<Rightarrow> bool" where
  "json_ops_ok J \<longleftrightarrow>
     (\<forall>s. get_string J (JStr s) = Inr s) \<and>
     (\<forall>b. get_bool J (JBool b) = Inr b) \<and>
     (\<forall>w. get_unsigned J (JUInt (unat w)) = Inr w) \<and>
     (\<forall>w. get_uint64 J (JUInt (unat w)) = Inr w) \<and>
     (\<forall>i. get_int64 J (JInt i) = Inr i) \<and>
     (\<forall>d. get_double J (JFloat d) = Inr d)"

section \<open>Building and reading\<close>

definition jobject :: "(string \<times> json) list \<Rightarrow> json" where
  "jobject kvs = JObj (omap_of_list kvs)"

definition jfields :: "json \<Rightarrow> (string \<times> json) list" where
  "jfields j = (case j of JObj m \<Rightarrow> m | _ \<Rightarrow> [])"

definition is_object :: "json \<Rightarrow> bool" where
  "is_object j \<longleftrightarrow> (case j of JObj _ \<Rightarrow> True | _ \<Rightarrow> False)"

definition is_array :: "json \<Rightarrow> bool" where
  "is_array j \<longleftrightarrow> (case j of JArr _ \<Rightarrow> True | _ \<Rightarrow> False)"

definition jcontains :: "json \<Rightarrow> string \<Rightarrow> bool" where
  "jcontains j k \<longleftrightarrow> (case j of JObj m \<Rightarrow> omap_contains m k | _ \<Rightarrow> False)"

definition jat :: "json \<Rightarrow> string \<Rightarrow> json result" where
  "jat j k =
     (case j of
        JObj m \<Rightarrow> (case map_of m k of None \<Rightarrow> Inl JsonOutOfRange | Some v \<Rightarrow> Inr v)
      | _ \<Rightarrow> Inl JsonTypeError)"

definition jvalue :: "(json \<Rightarrow> 'a result) \<Rightarrow> json \<Rightarrow> string \<Rightarrow> 'a \<Rightarrow> 'a result" where
  "jvalue get j k d =
     (case j of
        JObj m \<Rightarrow> (case map_of m k of None \<Rightarrow> Inr d | Some v \<Rightarrow> get v)
      | _ \<Rightarrow> Inl JsonTypeError)"

definition jput :: "string \<Rightarrow> json \<Rightarrow> json \<Rightarrow> json" where
  "jput k v j = (case j of JObj m \<Rightarrow> JObj (omap_put k v m) | _ \<Rightarrow> jobject [(k, v)])"

definition jget_at :: "(json \<Rightarrow> 'a result) \<Rightarrow> json \<Rightarrow> string \<Rightarrow> 'a result" where
  "jget_at get j k = rbind (jat j k) get"

text \<open>Strings, string vectors and string maps, as the library converts the standard containers.\<close>

definition get_list :: "(json \<Rightarrow> 'a result) \<Rightarrow> json \<Rightarrow> 'a list result" where
  "get_list get j = (case j of JArr xs \<Rightarrow> mapM get xs | _ \<Rightarrow> Inl JsonTypeError)"

definition get_smap :: "(json \<Rightarrow> 'a result) \<Rightarrow> json \<Rightarrow> (string, 'a) omap result" where
  "get_smap get j =
     (case j of
        JObj m \<Rightarrow> mapM (\<lambda>(k, v). rbind (get v) (\<lambda>x. Inr (k, x))) m
      | _ \<Rightarrow> Inl JsonTypeError)"

definition smap_json :: "('a \<Rightarrow> json) \<Rightarrow> (string, 'a) omap \<Rightarrow> json" where
  "smap_json f m = JObj (map (\<lambda>(k, v). (k, f v)) m)"

text \<open>A map whose keys are not strings is an array of key-value pairs; reading emplaces each.\<close>

definition get_umap :: "json_ops \<Rightarrow> (json \<Rightarrow> 'a result) \<Rightarrow> json \<Rightarrow> (u32, 'a) omap result" where
  "get_umap J get j =
     rbind (get_list (\<lambda>p. case p of
         JArr (k # v # _) \<Rightarrow> rbind (get_unsigned J k) (\<lambda>k'. rbind (get v) (\<lambda>v'. Inr (k', v')))
       | JArr _ \<Rightarrow> Inl JsonOutOfRange
       | _ \<Rightarrow> Inl JsonTypeError) j) (\<lambda>m. Inr (omap_of_list m))"

definition umap_json :: "('a \<Rightarrow> json) \<Rightarrow> (u32, 'a) omap \<Rightarrow> json" where
  "umap_json f m = JArr (map (\<lambda>(k, v). JArr [JUInt (unat k), f v]) m)"

section \<open>Lemmas\<close>

lemma jat_jobject [simp]:
  "jat (jobject kvs) k = (case map_of kvs k of None \<Rightarrow> Inl JsonOutOfRange | Some v \<Rightarrow> Inr v)"
  by (simp add: jat_def jobject_def)

lemma jvalue_jobject [simp]:
  "jvalue get (jobject kvs) k d = (case map_of kvs k of None \<Rightarrow> Inr d | Some v \<Rightarrow> get v)"
  by (simp add: jvalue_def jobject_def)

lemma jcontains_jobject [simp]: "jcontains (jobject kvs) k \<longleftrightarrow> map_of kvs k \<noteq> None"
  by (simp add: jcontains_def jobject_def omap_contains_def)

lemma jat_jput_same [simp]: "jat (jput k v (JObj m)) k = Inr v"
  by (simp add: jat_def jput_def)

lemma jat_jput_other: "k \<noteq> k' \<Longrightarrow> jat (jput k v (JObj m)) k' = jat (JObj m) k'"
  by (simp add: jat_def jput_def)

lemma jget_at_jat: "jat j k = Inr v \<Longrightarrow> jget_at get j k = get v"
  by (simp add: jget_at_def)

lemma jvalue_jat: "jat j k = Inr v \<Longrightarrow> jvalue get j k d = get v"
  by (auto simp: jvalue_def jat_def split: json.splits option.splits)

lemma json_ops_okD [simp]:
  assumes "json_ops_ok J"
  shows "get_string J (JStr s) = Inr s" and "get_bool J (JBool b) = Inr b"
    and "get_unsigned J (JUInt (unat w)) = Inr w" and "get_uint64 J (JUInt (unat x)) = Inr x"
    and "get_int64 J (JInt i) = Inr i" and "get_double J (JFloat d) = Inr d"
  using assms by (simp_all add: json_ops_ok_def)

lemma get_list_roundtrip:
  "(\<And>x. x \<in> set xs \<Longrightarrow> get (f x) = Inr x) \<Longrightarrow> get_list get (JArr (map f xs)) = Inr xs"
  by (simp add: get_list_def mapM_roundtrip)

lemma get_smap_roundtrip:
  assumes "\<And>k v. (k, v) \<in> set m \<Longrightarrow> get (f v) = Inr v"
  shows "get_smap get (smap_json f m) = Inr m"
  unfolding get_smap_def smap_json_def using assms
  by (auto intro!: mapM_roundtrip)

lemma get_umap_roundtrip:
  assumes "json_ops_ok J" and "omap_inv m" and "\<And>k v. (k, v) \<in> set m \<Longrightarrow> get (f v) = Inr v"
  shows "get_umap J get (umap_json f m) = Inr m"
proof -
  have "get_list (\<lambda>p. case p of
         JArr (k # v # _) \<Rightarrow> rbind (get_unsigned J k) (\<lambda>k'. rbind (get v) (\<lambda>v'. Inr (k', v')))
       | JArr _ \<Rightarrow> Inl JsonOutOfRange
       | _ \<Rightarrow> Inl JsonTypeError) (umap_json f m) = Inr m"
    unfolding umap_json_def using assms(1,3) by (auto intro!: get_list_roundtrip)
  with assms(2) show ?thesis by (simp add: get_umap_def omap_of_list_id)
qed

text \<open>\<^verbatim>\<open>dump().size()\<close>: the serializer throws on text that is not UTF-8.\<close>

definition json_size :: "json_ops \<Rightarrow> json \<Rightarrow> nat result" where
  "json_size J v = (if dump_ok J v then Inr (length (dump J v)) else Inl JsonTypeError)"

section \<open>A concrete conversion table\<close>

text \<open>
  One table of conversions with the documented behaviour: exact kinds convert, everything else is
  a type error. It shows that \<open>json_ops_ok\<close> can hold and serves the closed evaluations. Its
  serializer writes only enough to have a length that grows with the value.
\<close>

fun plain_dump :: "json \<Rightarrow> string" where
  "plain_dump JNull = ''null''"
| "plain_dump (JBool b) = (if b then ''true'' else ''false'')"
| "plain_dump (JInt i) = ''i''"
| "plain_dump (JUInt n) = ''n''"
| "plain_dump (JFloat d) = ''d''"
| "plain_dump (JStr s) = CHR 0x22 # s @ [CHR 0x22]"
| "plain_dump (JArr xs) = CHR 0x5B # concat (map (\<lambda>x. plain_dump x @ '','') xs) @ [CHR 0x5D]"
| "plain_dump (JObj m) =
     CHR 0x7B # concat (map (\<lambda>e. fst e @ '':'' @ plain_dump (snd e) @ '','') m) @ [CHR 0x7D]"

definition plain_ops :: json_ops where
  "plain_ops =
     \<lparr>get_string = (\<lambda>j. case j of JStr s \<Rightarrow> Inr s | _ \<Rightarrow> Inl JsonTypeError),
      get_bool = (\<lambda>j. case j of JBool b \<Rightarrow> Inr b | _ \<Rightarrow> Inl JsonTypeError),
      get_unsigned = (\<lambda>j. case j of JUInt n \<Rightarrow> Inr (of_nat n) | _ \<Rightarrow> Inl JsonTypeError),
      get_uint64 = (\<lambda>j. case j of JUInt n \<Rightarrow> Inr (of_nat n) | _ \<Rightarrow> Inl JsonTypeError),
      get_int64 = (\<lambda>j. case j of JInt i \<Rightarrow> Inr i | JUInt n \<Rightarrow> Inr (int n) | _ \<Rightarrow> Inl JsonTypeError),
      get_double = (\<lambda>j. case j of JFloat d \<Rightarrow> Inr d | _ \<Rightarrow> Inl JsonTypeError),
      dump_ok = (\<lambda>_. True), dump = plain_dump, same = (=)\<rparr>"

lemma plain_ops_ok: "json_ops_ok plain_ops"
  by (simp add: json_ops_ok_def plain_ops_def)

end
