(* ===== verification/Laso_Types.thy ===== *)
theory Laso_Types
  imports Laso_Json
begin

text \<open>
  The domain types of \<^verbatim>\<open>include/laso/core/types.hpp\<close> and \<^verbatim>\<open>src/core/types.cpp\<close>: the state machines
  of runs and of distributed node work, the records that travel between the components, and the
  identifier generator. Unsigned fields keep their width as words, durations are integers in
  milliseconds, every \<^verbatim>\<open>std::map\<close> is an ordered map of the prelude.
\<close>

section \<open>Run states\<close>

datatype run_state =
    RQueued | RStarting | RRunning | RWaitingTool | RWaitingModel | RWaitingWorker
  | RWaitingApproval | RRetrying | RPaused | RCompleted | RFailed | RCancelled | RTimedOut

definition terminal :: "run_state \<Rightarrow> bool" where
  "terminal s \<longleftrightarrow> s = RCompleted \<or> s = RFailed \<or> s = RCancelled \<or> s = RTimedOut"

definition valid_transition :: "run_state \<Rightarrow> run_state \<Rightarrow> bool" where
  "valid_transition from to \<longleftrightarrow>
     (if terminal from then False
      else case from of
        RQueued \<Rightarrow> to = RStarting \<or> to = RCancelled \<or> to = RFailed
      | RStarting \<Rightarrow> to = RRunning \<or> to = RFailed \<or> to = RCancelled \<or> to = RTimedOut
      | RRunning \<Rightarrow> to = RCompleted \<or> to = RWaitingModel \<or> to = RWaitingTool \<or> to = RWaitingWorker
          \<or> to = RWaitingApproval \<or> to = RRetrying \<or> to = RPaused \<or> to = RFailed
          \<or> to = RCancelled \<or> to = RTimedOut
      | RWaitingApproval \<Rightarrow> to = RQueued \<or> to = RFailed \<or> to = RCancelled
      | RPaused \<Rightarrow> to = RQueued \<or> to = RFailed \<or> to = RCancelled
      | RWaitingTool \<Rightarrow> to = RRunning \<or> to = RFailed \<or> to = RCancelled \<or> to = RTimedOut
      | RWaitingModel \<Rightarrow> to = RRunning \<or> to = RFailed \<or> to = RCancelled \<or> to = RTimedOut
      | RWaitingWorker \<Rightarrow> to = RRunning \<or> to = RFailed \<or> to = RCancelled \<or> to = RTimedOut
      | RRetrying \<Rightarrow> to = RRunning \<or> to = RFailed \<or> to = RCancelled \<or> to = RTimedOut
      | _ \<Rightarrow> False)"

datatype node_state = NRunning | NCompleted | NFailed | NWaitingApproval | NCancelled | NTimedOut

datatype node_work_state = WQueued | WRunning | WCompleted | WFailed | WCancelled

definition node_work_terminal :: "node_work_state \<Rightarrow> bool" where
  "node_work_terminal s \<longleftrightarrow> s = WCompleted \<or> s = WFailed \<or> s = WCancelled"

definition valid_node_work_transition :: "node_work_state \<Rightarrow> node_work_state \<Rightarrow> bool" where
  "valid_node_work_transition from to \<longleftrightarrow>
     (if from = to then True
      else if from = WQueued \<and> to = WRunning then True
      else if from = WQueued \<and> to = WCancelled then True
      else if from = WRunning \<and> to = WQueued then True
      else if from = WRunning \<and> (to = WCompleted \<or> to = WFailed \<or> to = WCancelled) then True
      else False)"

section \<open>Records\<close>

record provenance_record =
  p_node :: string
  p_tool :: string
  p_model :: string
  p_provider :: string
  p_artifact :: string
  p_parent_message :: string
  p_validation :: string
  p_time :: string
  p_worker :: string

record message =
  m_id :: string
  m_run_id :: string
  m_pipeline_id :: string
  m_node_id :: string
  m_type :: string
  m_time :: string
  m_payload :: json
  m_metadata :: json
  m_provenance :: "provenance_record list"
  m_confidence :: "dbl option"

record retry_policy =
  rp_max_attempts :: u32
  rp_delay :: int

record node_definition =
  n_id :: string
  n_type :: string
  n_binding :: string
  n_prompt :: string
  n_field :: string
  n_condition :: string
  n_reason :: string
  n_join :: string
  n_input_schema :: string
  n_output_schema :: string
  n_schema :: string
  n_task_type :: string
  n_capability :: string
  n_instructions :: string
  n_required_tool :: string
  n_value :: json
  n_retry :: retry_policy
  n_timeout :: int
  n_max_iterations :: u32

record edge_definition =
  e_from :: string
  e_to :: string
  e_condition :: string
  e_max_iterations :: u32

record pipeline_definition =
  pl_name :: string
  pl_source :: string
  pl_input_schema :: string
  pl_output_schema :: string
  pl_resolved_subpipelines :: "(string, string) omap"
  pl_schema_version :: u32
  pl_version :: u32
  pl_max_steps :: u32
  pl_timeout :: int
  pl_nodes :: "(string, node_definition) omap"
  pl_edges :: "edge_definition list"

record branch_frame =
  bf_group :: string
  bf_join :: string
  bf_width :: u32
  bf_index :: u32

record execution_token =
  tk_node_id :: string
  tk_message :: message
  tk_frames :: "branch_frame list"

record join_checkpoint =
  jc_messages :: "(u32, message) omap"

record run =
  r_id :: string
  r_pipeline_id :: string
  r_definition :: string
  r_active_node :: string
  r_created_at :: string
  r_updated_at :: string
  r_actor :: string
  r_error :: string
  r_parent_id :: string
  r_parent_node_id :: string
  r_parent_message_id :: string
  r_child_id :: string
  r_child_pipeline_id :: string
  r_initiation_type :: string
  r_session_id :: string
  r_session_turn_id :: string
  r_schedule_id :: string
  r_schedule_occurrence_id :: string
  r_due_at :: string
  r_trigger_id :: string
  r_event_id :: string
  r_root_event_id :: string
  r_owner_instance_id :: string
  r_lease_expires_at :: string
  r_claimed_at :: string
  r_last_renewed_at :: string
  r_pending_parallel_group :: string
  r_pending_parallel_join :: string
  r_pipeline_version :: u32
  r_child_pipeline_version :: u32
  r_subpipeline_depth :: u32
  r_trigger_depth :: u32
  r_fencing_token :: u64
  r_state :: run_state
  r_cancellation_requested :: bool
  r_message :: message
  r_edge_visits :: "(string, u32) omap"
  r_node_visits :: "(string, u32) omap"
  r_frames :: "branch_frame list"
  r_ready :: "execution_token list"
  r_joins :: "(string, join_checkpoint) omap"
  r_child_runs :: "string list"
  r_resolved_subpipelines :: "(string, string) omap"
  r_prepared_join :: string
  r_provider :: string
  r_model :: string
  r_tool :: string
  r_plugin :: string
  r_worker :: string
  r_worker_job_id :: string
  r_steps :: u32

record node_execution =
  x_id :: string
  x_run_id :: string
  x_node_id :: string
  x_started_at :: string
  x_finished_at :: string
  x_error :: string
  x_child_run_id :: string
  x_child_pipeline_id :: string
  x_worker_job_id :: string
  x_worker_id :: string
  x_external_job_id :: string
  x_child_pipeline_version :: u32
  x_attempt :: u32
  x_state :: node_state
  x_duration_ms :: dbl

record node_work =
  w_id :: string
  w_run_id :: string
  w_group_id :: string
  w_node_id :: string
  w_join :: string
  w_created_at :: string
  w_updated_at :: string
  w_owner_instance_id :: string
  w_lease_expires_at :: string
  w_claimed_at :: string
  w_last_renewed_at :: string
  w_attempt_id :: string
  w_error :: string
  w_required_worker_id :: string
  w_required_capability :: string
  w_index :: u32
  w_attempt :: u32
  w_steps :: u32
  w_fencing_token :: u64
  w_state :: node_work_state
  w_token :: execution_token
  w_result :: "message option"

record approval =
  ap_id :: string
  ap_run_id :: string
  ap_node_id :: string
  ap_reason :: string
  ap_action :: string
  ap_created_at :: string
  ap_decision :: string
  ap_decided_at :: string
  ap_actor :: string
  ap_comment :: string
  ap_visit :: u32

record event =
  ev_id :: string
  ev_run_id :: string
  ev_pipeline_id :: string
  ev_node_id :: string
  ev_type :: string
  ev_time :: string
  ev_causation_id :: string
  ev_root_event_id :: string
  ev_trigger_depth :: u32
  ev_source_id :: string
  ev_source_plugin :: string
  ev_source_component :: string
  ev_external_event_id :: string
  ev_occurred_at :: string
  ev_ingested_at :: string
  ev_payload :: json
  ev_metadata :: json

record agent_session =
  as_id :: string
  as_pipeline_id :: string
  as_state :: string
  as_created_at :: string
  as_updated_at :: string
  as_active_turn_id :: string
  as_active_run_id :: string
  as_dispatch_generation :: u64
  as_next_sequence :: u64

record session_context_generation =
  cg_id :: string
  cg_session_id :: string
  cg_predecessor_id :: string
  cg_created_at :: string
  cg_generation :: u64
  cg_through_turn_sequence :: u64
  cg_representation_kind :: string
  cg_representation_version :: string
  cg_idempotency_key :: string
  cg_payload :: json

record session_context =
  sx_generation_id :: string
  sx_representation_kind :: string
  sx_representation_version :: string
  sx_generation :: u64
  sx_through_turn_sequence :: u64
  sx_payload :: json
  sx_recent_turns :: json

record run_context_snapshot =
  cs_run_id :: string
  cs_session_id :: string
  cs_session_turn_id :: string
  cs_created_at :: string
  cs_context_generation_id :: string
  cs_context_generation_predecessor_id :: string
  cs_turn_sequence :: u64
  cs_history_through_turn_sequence :: u64
  cs_context_generation :: u64
  cs_context_through_turn_sequence :: u64
  cs_representation_kind :: string
  cs_representation_version :: string
  cs_provider_continuations :: json

record artifact =
  ar_id :: string
  ar_run_id :: string
  ar_node_id :: string
  ar_name :: string
  ar_media_type :: string
  ar_location :: string
  ar_object_id :: string
  ar_sha256 :: string
  ar_created_at :: string
  ar_size :: u64
  ar_metadata :: json

section \<open>Default construction\<close>

definition new_message :: "string \<Rightarrow> string \<Rightarrow> message" where
  "new_message fresh now =
     \<lparr>m_id = fresh, m_run_id = [], m_pipeline_id = [], m_node_id = [], m_type = ''laso.data'',
      m_time = now, m_payload = jobject [], m_metadata = jobject [], m_provenance = [],
      m_confidence = None\<rparr>"

definition new_run :: "string \<Rightarrow> string \<Rightarrow> message \<Rightarrow> run" where
  "new_run fresh now msg =
     \<lparr>r_id = fresh, r_pipeline_id = [], r_definition = [], r_active_node = ''input'',
      r_created_at = now, r_updated_at = now, r_actor = ''local'', r_error = [], r_parent_id = [],
      r_parent_node_id = [], r_parent_message_id = [], r_child_id = [], r_child_pipeline_id = [],
      r_initiation_type = ''manual'', r_session_id = [], r_session_turn_id = [], r_schedule_id = [],
      r_schedule_occurrence_id = [], r_due_at = [], r_trigger_id = [], r_event_id = [],
      r_root_event_id = [], r_owner_instance_id = [], r_lease_expires_at = [], r_claimed_at = [],
      r_last_renewed_at = [], r_pending_parallel_group = [], r_pending_parallel_join = [],
      r_pipeline_version = 1, r_child_pipeline_version = 0, r_subpipeline_depth = 0,
      r_trigger_depth = 0, r_fencing_token = 0, r_state = RQueued, r_cancellation_requested = False,
      r_message = msg, r_edge_visits = [], r_node_visits = [], r_frames = [], r_ready = [],
      r_joins = [], r_child_runs = [], r_resolved_subpipelines = [], r_prepared_join = [],
      r_provider = [], r_model = [], r_tool = [], r_plugin = [], r_worker = [], r_worker_job_id = [],
      r_steps = 0\<rparr>"

definition new_event :: "string \<Rightarrow> string \<Rightarrow> event" where
  "new_event fresh now =
     \<lparr>ev_id = fresh, ev_run_id = [], ev_pipeline_id = [], ev_node_id = [], ev_type = [], ev_time = now,
      ev_causation_id = [], ev_root_event_id = [], ev_trigger_depth = 0, ev_source_id = [],
      ev_source_plugin = [], ev_source_component = [], ev_external_event_id = [], ev_occurred_at = [],
      ev_ingested_at = [], ev_payload = jobject [], ev_metadata = jobject []\<rparr>"

definition new_node_work :: "string \<Rightarrow> string \<Rightarrow> execution_token \<Rightarrow> node_work" where
  "new_node_work fresh now tok =
     \<lparr>w_id = fresh, w_run_id = [], w_group_id = [], w_node_id = [], w_join = [], w_created_at = now,
      w_updated_at = now, w_owner_instance_id = [], w_lease_expires_at = [], w_claimed_at = [],
      w_last_renewed_at = [], w_attempt_id = [], w_error = [], w_required_worker_id = [],
      w_required_capability = [], w_index = 0, w_attempt = 0, w_steps = 0, w_fencing_token = 0,
      w_state = WQueued, w_token = tok, w_result = None\<rparr>"

section \<open>Identifiers\<close>

text \<open>
  One answer of the kernel's random source: interrupted by a signal, an error, or some bytes. The
  reading loop runs until sixteen bytes have arrived; \<open>None\<close> means that it is still waiting for
  an answer beyond the given ones.
\<close>

datatype random_read = Interrupted | Failed_read | Chunk "u8 list"

fun uuid_fill :: "random_read list \<Rightarrow> u8 list \<Rightarrow> u8 list result option" where
  "uuid_fill answers bytes =
     (if length bytes < 16 then
        (case answers of
           [] \<Rightarrow> None
         | Interrupted # rest \<Rightarrow> uuid_fill rest bytes
         | Failed_read # rest \<Rightarrow> Some (throw Execution ''System random source unavailable'')
         | Chunk c # rest \<Rightarrow>
             if c = [] then Some (throw Execution ''System random source unavailable'')
             else uuid_fill rest (bytes @ take (16 - length bytes) c))
      else Some (Inr bytes))"

definition hex_digit :: "nat \<Rightarrow> char" where
  "hex_digit n = ''0123456789abcdef'' ! n"

definition hex_byte :: "u8 \<Rightarrow> string" where
  "hex_byte b = [hex_digit (unat b div 16), hex_digit (unat b mod 16)]"

definition uuid_stamp :: "u8 list \<Rightarrow> u8 list" where
  "uuid_stamp bytes =
     (let bytes' = bytes[6 := or (and (bytes ! 6) 0x0f) 0x40]
      in bytes'[8 := or (and (bytes' ! 8) 0x3f) 0x80])"

fun uuid_print :: "nat \<Rightarrow> u8 list \<Rightarrow> string" where
  "uuid_print i [] = []"
| "uuid_print i (b # bs) =
     (if i = 4 \<or> i = 6 \<or> i = 8 \<or> i = 10 then ''-'' else []) @ hex_byte b @ uuid_print (Suc i) bs"

definition uuid :: "random_read list \<Rightarrow> string result option" where
  "uuid answers =
     map_option (\<lambda>r. rbind r (\<lambda>bytes. Inr (uuid_print 0 (uuid_stamp bytes)))) (uuid_fill answers [])"

section \<open>Lemmas on the state machines\<close>

lemmas transition_defs = valid_transition_def terminal_def
lemmas node_work_defs = valid_node_work_transition_def node_work_terminal_def

lemma terminal_iff_final: "terminal s \<longleftrightarrow> (\<forall>t. \<not> valid_transition s t)"
  by (cases s) (auto simp: transition_defs)

lemma no_self_transition: "\<not> valid_transition s s"
  by (cases s) (simp_all add: transition_defs)

text \<open>The sequences of states a run can go through.\<close>

inductive run_trace :: "run_state list \<Rightarrow> bool" where
  start: "run_trace [s]"
| step: "run_trace (t # ts) \<Longrightarrow> valid_transition s t \<Longrightarrow> run_trace (s # t # ts)"

inductive_cases run_traceE: "run_trace (s # t # ts)"
inductive_simps run_trace_simps: "run_trace (s # t # ts)" "run_trace [s]" "run_trace []"

lemma run_trace_append:
  "run_trace (xs @ s # t # ys) \<Longrightarrow> valid_transition s t"
proof (induction xs)
  case Nil
  then show ?case by (auto elim: run_traceE)
next
  case (Cons x xs)
  then show ?case by (cases xs) (auto simp: run_trace_simps)
qed

lemma run_trace_suffix: "run_trace (xs @ s # ys) \<Longrightarrow> run_trace (s # ys)"
proof (induction xs)
  case Nil
  then show ?case by simp
next
  case (Cons x xs)
  then show ?case by (cases xs) (auto simp: run_trace_simps)
qed

lemma into_running: "valid_transition s RRunning \<Longrightarrow>
    s = RStarting \<or> s = RWaitingTool \<or> s = RWaitingModel \<or> s = RWaitingWorker \<or> s = RRetrying"
  by (cases s) (simp_all add: transition_defs)

lemma into_completed: "valid_transition s RCompleted \<Longrightarrow> s = RRunning"
  by (cases s) (simp_all add: transition_defs)

text \<open>
  Every state other than the initial ones is entered from a running run: a trace that reaches one
  of the execution states from the queue has passed through \<open>RStarting\<close> and then \<open>RRunning\<close>.
\<close>

definition executing :: "run_state \<Rightarrow> bool" where
  "executing s \<longleftrightarrow> s \<in> {RRunning, RWaitingTool, RWaitingModel, RWaitingWorker, RRetrying,
     RWaitingApproval, RPaused, RCompleted}"

lemma into_executing:
  "valid_transition s t \<Longrightarrow> executing t \<Longrightarrow> executing s \<or> (s = RStarting \<and> t = RRunning)"
  by (cases s; cases t) (simp_all add: transition_defs executing_def)

lemma trace_through_start:
  assumes "run_trace (s # ts)" and "\<not> executing s" and "executing t" and "t \<in> set ts"
  shows "\<exists>us vs. s # ts = us @ RStarting # RRunning # vs"
  using assms
proof (induction ts arbitrary: s)
  case Nil
  then show ?case by simp
next
  case (Cons x xs)
  from Cons.prems(1) have tail: "run_trace (x # xs)" and step: "valid_transition s x"
    by (auto elim: run_traceE)
  show ?case
  proof (cases "executing x")
    case True
    with into_executing [OF step True] Cons.prems(2) have "s = RStarting" "x = RRunning" by auto
    then show ?thesis by (metis append_Nil)
  next
    case False
    with Cons.prems have "t \<in> set xs" by auto
    from Cons.IH [OF tail False Cons.prems(3) this]
    obtain us vs where "x # xs = us @ RStarting # RRunning # vs" by blast
    then show ?thesis by (metis append_Cons)
  qed
qed

lemma node_work_terminal_stable:
  "node_work_terminal s \<Longrightarrow> valid_node_work_transition s t \<Longrightarrow> t = s"
  by (cases s; cases t) (simp_all add: node_work_defs)

section \<open>Lemmas on identifiers\<close>

declare uuid_fill.simps [simp del]

lemma uuid_fill_length:
  "uuid_fill answers bytes = Some (Inr bs) \<Longrightarrow> length bytes \<le> 16 \<Longrightarrow> length bs = 16"
proof (induction answers bytes rule: uuid_fill.induct)
  case (1 answers bytes)
  show ?case
  proof (cases "length bytes < 16")
    case False
    with "1.prems" show ?thesis by (simp add: uuid_fill.simps [of answers bytes])
  next
    case True
    then show ?thesis
      using "1.prems" "1.IH"
      by (auto simp: uuid_fill.simps [of answers bytes] split: list.splits random_read.splits
          if_splits)
  qed
qed

lemma length_uuid_stamp [simp]: "length (uuid_stamp bs) = length bs"
  by (simp add: uuid_stamp_def Let_def)

lemma uuid_stamp_nth6: "8 < length bs \<Longrightarrow> uuid_stamp bs ! 6 = or (and (bs ! 6) 0x0f) 0x40"
  by (simp add: uuid_stamp_def Let_def)

lemma uuid_stamp_nth8: "8 < length bs \<Longrightarrow> uuid_stamp bs ! 8 = or (and (bs ! 8) 0x3f) 0x80"
  by (simp add: uuid_stamp_def Let_def)

lemma length16E:
  assumes "length xs = 16"
  obtains a b c d e f g h i j k l m n p q where "xs = [a, b, c, d, e, f, g, h, i, j, k, l, m, n, p, q]"
  using assms by (auto simp: numeral_eq_Suc length_Suc_conv)

lemma uuid_print_16:
  "uuid_print 0 [a, b, c, d, e, f, g, h, i, j, k, l, m, n, p, q] =
     hex_byte a @ hex_byte b @ hex_byte c @ hex_byte d @ ''-'' @ hex_byte e @ hex_byte f @ ''-'' @
     hex_byte g @ hex_byte h @ ''-'' @ hex_byte i @ hex_byte j @ ''-'' @
     hex_byte k @ hex_byte l @ hex_byte m @ hex_byte n @ hex_byte p @ hex_byte q"
  by simp

lemma hex_digit_hex: "n < 16 \<Longrightarrow> hex_digit n \<in> set ''0123456789abcdef''"
  unfolding hex_digit_def by (rule nth_mem) simp

lemma hex_byte_hex: "set (hex_byte b) \<subseteq> set ''0123456789abcdef''"
proof -
  have "unat b < 256" using unsigned_less [of b] by simp
  then have "hex_digit (unat b div 16) \<in> set ''0123456789abcdef''"
    "hex_digit (unat b mod 16) \<in> set ''0123456789abcdef''"
    by (auto intro!: hex_digit_hex simp del: set_simps)
  then show ?thesis unfolding hex_byte_def by (metis empty_subsetI insert_subset list.set(1,2))
qed

lemma version_nibble: "unat (or (and b 0x0f) 0x40 :: u8) div 16 = 4"
proof -
  have "and b 0x0f = take_bit 4 b"
    by (simp add: take_bit_eq_mask mask_eq_exp_minus_1)
  moreover have "and (take_bit 4 b) (0x40 :: u8) = 0"
    by (rule bit_word_eqI) (auto simp: bit_simps bit_numeral_rec numeral_eq_Suc less_Suc_eq)
  ultimately have "or (and b 0x0f) 0x40 = take_bit 4 b + 0x40"
    by (simp add: disjunctive_add_eq_or)
  moreover have "unat (take_bit 4 b) = unat b mod 16"
    by (simp add: take_bit_eq_mod unat_mod)
  ultimately show ?thesis by (simp add: unat_word_ariths)
qed

lemma variant_nibble: "unat (or (and b 0x3f) 0x80 :: u8) div 16 \<in> {8, 9, 10, 11}"
proof -
  have "and b 0x3f = take_bit 6 b"
    by (simp add: take_bit_eq_mask mask_eq_exp_minus_1)
  moreover have "and (take_bit 6 b) (0x80 :: u8) = 0"
    by (rule bit_word_eqI) (auto simp: bit_simps bit_numeral_rec numeral_eq_Suc less_Suc_eq)
  ultimately have "or (and b 0x3f) 0x80 = take_bit 6 b + 0x80"
    by (simp add: disjunctive_add_eq_or)
  moreover have "unat (take_bit 6 b) = unat b mod 64"
    by (simp add: take_bit_eq_mod unat_mod)
  ultimately have eq: "unat (or (and b 0x3f) 0x80 :: u8) = unat b mod 64 + 128"
    by (simp add: unat_word_ariths)
  have "unat b mod 64 < 64" by simp
  then show ?thesis unfolding eq by auto
qed

section \<open>Properties\<close>

text \<open>
  A run state is terminal exactly when no transition leaves it; every other state can be failed
  and can be cancelled; and no state can repeat itself as a transition.
\<close>

lemma run_state_machine_shape:
  "(terminal s \<longleftrightarrow> (\<forall>t. \<not> valid_transition s t)) \<and>
   (\<not> terminal s \<longleftrightarrow> valid_transition s RFailed \<and> valid_transition s RCancelled) \<and>
   \<not> valid_transition s s"
  using terminal_iff_final [of s] no_self_transition [of s]
  by (cases s) (simp_all add: transition_defs)

text \<open>
  A queued run that ends as completed was started and then running: its trace contains the
  step from \<open>RStarting\<close> to \<open>RRunning\<close>, and the state right before completion is \<open>RRunning\<close>.
\<close>

lemma completed_run_was_running:
  assumes "run_trace (RQueued # ts @ [RCompleted])"
  shows "(\<exists>us vs. RQueued # ts = us @ RStarting # RRunning # vs) \<and> ts \<noteq> [] \<and> last ts = RRunning"
proof -
  have ne: "ts \<noteq> []"
  proof
    assume "ts = []"
    with assms have "valid_transition RQueued RCompleted" by (auto elim: run_traceE)
    then show False by (simp add: transition_defs)
  qed
  from ne obtain us l where ts: "ts = us @ [l]" by (metis rev_exhaust)
  with assms have "run_trace ((RQueued # us) @ l # RCompleted # [])" by simp
  then have last: "l = RRunning" by (rule into_completed [OF run_trace_append])
  have "\<not> executing RQueued" "executing RRunning" by (simp_all add: executing_def)
  moreover have "RRunning \<in> set (ts @ [RCompleted])" using ts last by simp
  ultimately obtain us' vs where eq: "RQueued # ts @ [RCompleted] = us' @ RStarting # RRunning # vs"
    using trace_through_start [OF assms] by blast
  then have "vs \<noteq> []" using ts last by (cases vs rule: rev_cases) auto
  with eq obtain vs' where "RQueued # ts = us' @ RStarting # RRunning # vs'"
    by (cases vs rule: rev_cases) auto
  with ne ts last show ?thesis by auto
qed

lemma completed_run_was_running_example:
  "\<exists>us vs. RQueued # [RStarting, RRunning, RWaitingTool, RRunning] = us @ RStarting # RRunning # vs"
proof -
  have "run_trace (RQueued # [RStarting, RRunning, RWaitingTool, RRunning] @ [RCompleted])"
    by (simp add: run_trace_simps transition_defs)
  from completed_run_was_running [OF this] show ?thesis by blast
qed

text \<open>
  A generated identifier has the canonical version 4 layout: 36 characters, dashes at the four
  fixed positions, version digit 4, variant digit 8, 9, a or b, and nothing but lower-case
  hexadecimal digits elsewhere.
\<close>

lemma uuid_format:
  assumes "uuid answers = Some (Inr s)"
  shows "length s = 36 \<and> s ! 8 = CHR ''-'' \<and> s ! 13 = CHR ''-'' \<and> s ! 18 = CHR ''-'' \<and>
    s ! 23 = CHR ''-'' \<and> s ! 14 = CHR ''4'' \<and> s ! 19 \<in> set ''89ab'' \<and>
    set s \<subseteq> set ''0123456789abcdef-''"
proof -
  from assms obtain bs where bs: "uuid_fill answers [] = Some (Inr bs)"
    and s: "s = uuid_print 0 (uuid_stamp bs)"
    by (auto simp: uuid_def rbind_eq_Inr)
  from uuid_fill_length [OF bs] have len: "length bs = 16" by simp
  define st where "st = uuid_stamp bs"
  have len': "length st = 16" using len by (simp add: st_def)
  have v: "unat (st ! 6) div 16 = 4" and w: "unat (st ! 8) div 16 \<in> {8, 9, 10, 11}"
    using len version_nibble variant_nibble by (simp_all add: st_def uuid_stamp_nth6 uuid_stamp_nth8)
  obtain a b c d e f g h i j k l m n p q
    where st: "st = [a, b, c, d, e, f, g, h, i, j, k, l, m, n, p, q]"
    using len' by (rule length16E)
  have g: "hex_digit (unat g div 16) = CHR ''4''" and i: "hex_digit (unat i div 16) \<in> set ''89ab''"
    using v w by (auto simp: st hex_digit_def)
  have hex: "set (hex_byte x) \<subseteq> set ''0123456789abcdef-''" for x
    by (rule order_trans [OF hex_byte_hex]) simp
  have eq: "s = uuid_print 0 [a, b, c, d, e, f, g, h, i, j, k, l, m, n, p, q]"
    using s st by (simp add: st_def)
  have "set s \<subseteq> set ''0123456789abcdef-''"
    unfolding eq uuid_print_16 set_append using hex by (intro Un_least) simp_all
  moreover have "length s = 36 \<and> s ! 8 = CHR ''-'' \<and> s ! 13 = CHR ''-'' \<and> s ! 18 = CHR ''-'' \<and>
    s ! 23 = CHR ''-'' \<and> s ! 14 = CHR ''4'' \<and> s ! 19 \<in> set ''89ab''"
    unfolding eq uuid_print_16 hex_byte_def using g i by simp
  ultimately show ?thesis by blast
qed

lemma uuid_format_example:
  "length ''00010203-0405-4607-8809-0a0b0c0d0e0f'' = 36"
proof -
  have "uuid_fill [Interrupted, Chunk [0, 1, 2, 3, 4, 5, 6, 7, 8, 9], Chunk [10, 11, 12, 13, 14, 15]] []
    = Some (Inr [0, 1, 2, 3, 4, 5, 6, 7, 8, 9, 10, 11, 12, 13, 14, 15])"
    by (simp add: uuid_fill.simps)
  moreover have "uuid_stamp [0, 1, 2, 3, 4, 5, 6, 7, 8, 9, 10, 11, 12, 13, 14, 15]
    = [0, 1, 2, 3, 4, 5, 0x46, 7, 0x88, 9, 10, 11, 12, 13, 14, 15]"
    by (simp add: uuid_stamp_def)
  moreover have "uuid_print 0 [0, 1, 2, 3, 4, 5, 0x46, 7, 0x88, 9, 10, 11, 12, 13, 14, 15]
    = ''00010203-0405-4607-8809-0a0b0c0d0e0f''"
    unfolding uuid_print_16 by (simp add: hex_byte_def hex_digit_def)
  ultimately have "uuid [Interrupted, Chunk [0, 1, 2, 3, 4, 5, 6, 7, 8, 9],
      Chunk [10, 11, 12, 13, 14, 15]] = Some (Inr ''00010203-0405-4607-8809-0a0b0c0d0e0f'')"
    by (simp only: uuid_def option.map rbind_Inr)
  from uuid_format [OF this] show ?thesis by blast
qed

end
