(* ===== verification/Laso_Codec.thy ===== *)
theory Laso_Codec
  imports Laso_Types
begin

text \<open>
  The durable JSON form of the domain records: one \<open>_to_json\<close> and one \<open>_from_json\<close> per overload
  of \<^verbatim>\<open>include/laso/core/types.hpp\<close> and \<^verbatim>\<open>src/core/types.cpp\<close>, key by key and in the order of the
  source. \<^verbatim>\<open>j.at(k).get_to(x)\<close> is \<open>jget_at\<close>, which fails on a missing key; \<^verbatim>\<open>j.value(k, d)\<close> is
  \<open>jvalue\<close>, which takes the default. A default computed by \<^verbatim>\<open>uuid()\<close> or \<^verbatim>\<open>timestamp()\<close> is an
  argument (\<open>fresh\<close>, \<open>now\<close>). The lemmas show that what is written is read back unchanged, and
  that no decoded message carries a confidence outside the unit interval.
\<close>

named_theorems codec_simps \<open>unfolding rules of the record codecs\<close>

section \<open>Enumerations\<close>

text \<open>
  The serialization macro looks a pair up in its table in both directions; a value without a pair
  takes the first pair of the table.
\<close>

definition enum_to_json :: "('a \<times> string) list \<Rightarrow> 'a \<Rightarrow> json" where
  "enum_to_json table e =
     (case find (\<lambda>p. fst p = e) table of Some p \<Rightarrow> JStr (snd p) | None \<Rightarrow> JStr (snd (hd table)))"

definition enum_from_json :: "('a \<times> string) list \<Rightarrow> json \<Rightarrow> 'a result" where
  "enum_from_json table j =
     Inr (case find (\<lambda>p. JStr (snd p) = j) table of Some p \<Rightarrow> fst p | None \<Rightarrow> fst (hd table))"

definition run_state_names :: "(run_state \<times> string) list" where
  "run_state_names =
     [(RQueued, ''Queued''), (RStarting, ''Starting''), (RRunning, ''Running''),
      (RWaitingTool, ''WaitingTool''), (RWaitingModel, ''WaitingModel''),
      (RWaitingWorker, ''WaitingWorker''), (RWaitingApproval, ''WaitingApproval''),
      (RRetrying, ''Retrying''), (RPaused, ''Paused''), (RCompleted, ''Completed''),
      (RFailed, ''Failed''), (RCancelled, ''Cancelled''), (RTimedOut, ''TimedOut'')]"

definition node_state_names :: "(node_state \<times> string) list" where
  "node_state_names =
     [(NRunning, ''Running''), (NCompleted, ''Completed''), (NFailed, ''Failed''),
      (NWaitingApproval, ''WaitingApproval''), (NCancelled, ''Cancelled''), (NTimedOut, ''TimedOut'')]"

definition node_work_state_names :: "(node_work_state \<times> string) list" where
  "node_work_state_names =
     [(WQueued, ''Queued''), (WRunning, ''Running''), (WCompleted, ''Completed''),
      (WFailed, ''Failed''), (WCancelled, ''Cancelled'')]"

definition run_state_to_json :: "run_state \<Rightarrow> json" where
  "run_state_to_json = enum_to_json run_state_names"

definition run_state_from_json :: "json \<Rightarrow> run_state result" where
  "run_state_from_json = enum_from_json run_state_names"

definition node_state_to_json :: "node_state \<Rightarrow> json" where
  "node_state_to_json = enum_to_json node_state_names"

definition node_state_from_json :: "json \<Rightarrow> node_state result" where
  "node_state_from_json = enum_from_json node_state_names"

definition node_work_state_to_json :: "node_work_state \<Rightarrow> json" where
  "node_work_state_to_json = enum_to_json node_work_state_names"

definition node_work_state_from_json :: "json \<Rightarrow> node_work_state result" where
  "node_work_state_from_json = enum_from_json node_work_state_names"

section \<open>Messages\<close>

definition provenance_to_json :: "provenance_record \<Rightarrow> json" where
  "provenance_to_json p =
     jobject
        [(''node'', JStr (p_node p)),
         (''tool'', JStr (p_tool p)),
         (''model'', JStr (p_model p)),
         (''provider'', JStr (p_provider p)),
         (''artifact'', JStr (p_artifact p)),
         (''parent_message'', JStr (p_parent_message p)),
         (''validation'', JStr (p_validation p)),
         (''time'', JStr (p_time p)),
         (''worker'', JStr (p_worker p))]"

definition provenance_from_json :: "json_ops \<Rightarrow> json \<Rightarrow> provenance_record result" where
  "provenance_from_json J j =
     rbind (jvalue (get_string J) j ''node'' []) (\<lambda>v_node.
     rbind (jvalue (get_string J) j ''tool'' []) (\<lambda>v_tool.
     rbind (jvalue (get_string J) j ''model'' []) (\<lambda>v_model.
     rbind (jvalue (get_string J) j ''provider'' []) (\<lambda>v_provider.
     rbind (jvalue (get_string J) j ''artifact'' []) (\<lambda>v_artifact.
     rbind (jvalue (get_string J) j ''parent_message'' []) (\<lambda>v_parent_message.
     rbind (jvalue (get_string J) j ''validation'' []) (\<lambda>v_validation.
     rbind (jvalue (get_string J) j ''time'' []) (\<lambda>v_time.
     rbind (jvalue (get_string J) j ''worker'' []) (\<lambda>v_worker.
     Inr \<lparr>p_node = v_node, p_tool = v_tool, p_model = v_model, p_provider = v_provider,
      p_artifact = v_artifact, p_parent_message = v_parent_message, p_validation =
      v_validation, p_time = v_time, p_worker = v_worker\<rparr>)))))))))"

definition message_to_json :: "message \<Rightarrow> json" where
  "message_to_json m =
     jobject
        [(''id'', JStr (m_id m)),
         (''run_id'', JStr (m_run_id m)),
         (''pipeline_id'', JStr (m_pipeline_id m)),
         (''node_id'', JStr (m_node_id m)),
         (''type'', JStr (m_type m)),
         (''timestamp'', JStr (m_time m)),
         (''payload'', m_payload m),
         (''metadata'', m_metadata m),
         (''provenance'', JArr (map provenance_to_json (m_provenance m))),
         (''confidence'', case m_confidence m of Some d \<Rightarrow> JFloat d | None \<Rightarrow> JNull)]"

definition confidence_ok :: "dbl \<Rightarrow> bool" where
  "confidence_ok d \<longleftrightarrow> (case d of Finite q \<Rightarrow> \<not> q < 0 \<and> \<not> q > 1 | _ \<Rightarrow> False)"

definition message_from_json :: "json_ops \<Rightarrow> json \<Rightarrow> message result" where
  "message_from_json J j =
     rbind (jget_at (get_string J) j ''id'') (\<lambda>v_id.
     rbind (jget_at (get_string J) j ''run_id'') (\<lambda>v_run_id.
     rbind (jget_at (get_string J) j ''pipeline_id'') (\<lambda>v_pipeline_id.
     rbind (jget_at (get_string J) j ''node_id'') (\<lambda>v_node_id.
     rbind (jget_at (get_string J) j ''type'') (\<lambda>v_type.
     rbind (jget_at (get_string J) j ''timestamp'') (\<lambda>v_time.
     rbind (jat j ''payload'') (\<lambda>v_payload.
     rbind (jat j ''metadata'') (\<lambda>v_metadata.
     rbind (jget_at (get_list (provenance_from_json J)) j ''provenance'') (\<lambda>v_provenance.
     rbind (jat j ''confidence'') (\<lambda>c.
     rbind (if c = JNull then Inr None
            else rbind (get_double J c) (\<lambda>d.
                   if confidence_ok d then Inr (Some d)
                   else throw Validation ''Confidence outside [0,1]'')) (\<lambda>v_confidence.
     Inr \<lparr>m_id = v_id, m_run_id = v_run_id, m_pipeline_id = v_pipeline_id, m_node_id = v_node_id,
      m_type = v_type, m_time = v_time, m_payload = v_payload, m_metadata = v_metadata,
      m_provenance = v_provenance, m_confidence = v_confidence\<rparr>)))))))))))"

section \<open>Execution records\<close>

definition branch_frame_to_json :: "branch_frame \<Rightarrow> json" where
  "branch_frame_to_json b =
     jobject
        [(''group'', JStr (bf_group b)),
         (''join'', JStr (bf_join b)),
         (''width'', JUInt (unat (bf_width b))),
         (''index'', JUInt (unat (bf_index b)))]"

definition branch_frame_from_json :: "json_ops \<Rightarrow> json \<Rightarrow> branch_frame result" where
  "branch_frame_from_json J j =
     rbind (jget_at (get_string J) j ''group'') (\<lambda>v_group.
     rbind (jget_at (get_string J) j ''join'') (\<lambda>v_join.
     rbind (jget_at (get_unsigned J) j ''width'') (\<lambda>v_width.
     rbind (jget_at (get_unsigned J) j ''index'') (\<lambda>v_index.
     Inr \<lparr>bf_group = v_group, bf_join = v_join, bf_width = v_width, bf_index =
      v_index\<rparr>))))"

definition execution_token_to_json :: "execution_token \<Rightarrow> json" where
  "execution_token_to_json t =
     jobject
        [(''node_id'', JStr (tk_node_id t)),
         (''message'', message_to_json (tk_message t)),
         (''frames'', JArr (map branch_frame_to_json (tk_frames t)))]"

definition execution_token_from_json :: "json_ops \<Rightarrow> json \<Rightarrow> execution_token result" where
  "execution_token_from_json J j =
     rbind (jget_at (get_string J) j ''node_id'') (\<lambda>v_node_id.
     rbind (jget_at (message_from_json J) j ''message'') (\<lambda>v_message.
     rbind (jget_at (get_list (branch_frame_from_json J)) j ''frames'') (\<lambda>v_frames.
     Inr \<lparr>tk_node_id = v_node_id, tk_message = v_message, tk_frames = v_frames\<rparr>)))"

definition join_checkpoint_to_json :: "join_checkpoint \<Rightarrow> json" where
  "join_checkpoint_to_json c =
     jobject
        [(''messages'', umap_json message_to_json (jc_messages c))]"

definition join_checkpoint_from_json :: "json_ops \<Rightarrow> json \<Rightarrow> join_checkpoint result" where
  "join_checkpoint_from_json J j =
     rbind (jget_at (get_umap J (message_from_json J)) j ''messages'') (\<lambda>v_messages.
     Inr \<lparr>jc_messages = v_messages\<rparr>)"

definition run_to_json :: "run \<Rightarrow> json" where
  "run_to_json r =
     jobject
        [(''id'', JStr (r_id r)),
         (''pipeline_id'', JStr (r_pipeline_id r)),
         (''pipeline_version'', JUInt (unat (r_pipeline_version r))),
         (''definition'', JStr (r_definition r)),
         (''active_node'', JStr (r_active_node r)),
         (''created_at'', JStr (r_created_at r)),
         (''updated_at'', JStr (r_updated_at r)),
         (''actor'', JStr (r_actor r)),
         (''error'', JStr (r_error r)),
         (''parent_id'', JStr (r_parent_id r)),
         (''parent_node_id'', JStr (r_parent_node_id r)),
         (''parent_message_id'', JStr (r_parent_message_id r)),
         (''session_id'', JStr (r_session_id r)),
         (''session_turn_id'', JStr (r_session_turn_id r)),
         (''child_id'', JStr (r_child_id r)),
         (''child_pipeline_id'', JStr (r_child_pipeline_id r)),
         (''child_pipeline_version'', JUInt (unat (r_child_pipeline_version r))),
         (''subpipeline_depth'', JUInt (unat (r_subpipeline_depth r))),
         (''initiation_type'', JStr (r_initiation_type r)),
         (''schedule_id'', JStr (r_schedule_id r)),
         (''schedule_occurrence_id'', JStr (r_schedule_occurrence_id r)),
         (''due_at'', JStr (r_due_at r)),
         (''trigger_id'', JStr (r_trigger_id r)),
         (''event_id'', JStr (r_event_id r)),
         (''root_event_id'', JStr (r_root_event_id r)),
         (''owner_instance_id'', JStr (r_owner_instance_id r)),
         (''fencing_token'', JUInt (unat (r_fencing_token r))),
         (''lease_expires_at'', JStr (r_lease_expires_at r)),
         (''claimed_at'', JStr (r_claimed_at r)),
         (''last_renewed_at'', JStr (r_last_renewed_at r)),
         (''pending_parallel_group'', JStr (r_pending_parallel_group r)),
         (''pending_parallel_join'', JStr (r_pending_parallel_join r)),
         (''trigger_depth'', JUInt (unat (r_trigger_depth r))),
         (''child_runs'', JArr (map JStr (r_child_runs r))),
         (''resolved_subpipelines'', smap_json JStr (r_resolved_subpipelines r)),
         (''state'', run_state_to_json (r_state r)),
         (''cancellation_requested'', JBool (r_cancellation_requested r)),
         (''message'', message_to_json (r_message r)),
         (''edge_visits'', smap_json (\<lambda>w. JUInt (unat w)) (r_edge_visits r)),
         (''node_visits'', smap_json (\<lambda>w. JUInt (unat w)) (r_node_visits r)),
         (''frames'', JArr (map branch_frame_to_json (r_frames r))),
         (''ready'', JArr (map execution_token_to_json (r_ready r))),
         (''joins'', smap_json join_checkpoint_to_json (r_joins r)),
         (''prepared_join'', JStr (r_prepared_join r)),
         (''provider'', JStr (r_provider r)),
         (''model'', JStr (r_model r)),
         (''tool'', JStr (r_tool r)),
         (''plugin'', JStr (r_plugin r)),
         (''worker'', JStr (r_worker r)),
         (''worker_job_id'', JStr (r_worker_job_id r)),
         (''steps'', JUInt (unat (r_steps r)))]"

definition run_from_json :: "json_ops \<Rightarrow> json \<Rightarrow> run result" where
  "run_from_json J j =
     rbind (jget_at (get_string J) j ''id'') (\<lambda>v_id.
     rbind (jget_at (get_string J) j ''pipeline_id'') (\<lambda>v_pipeline_id.
     rbind (jvalue (get_unsigned J) j ''pipeline_version'' 1) (\<lambda>v_pipeline_version.
     rbind (jget_at (get_string J) j ''definition'') (\<lambda>v_definition.
     rbind (jget_at (get_string J) j ''active_node'') (\<lambda>v_active_node.
     rbind (jget_at (get_string J) j ''created_at'') (\<lambda>v_created_at.
     rbind (jget_at (get_string J) j ''updated_at'') (\<lambda>v_updated_at.
     rbind (jget_at (get_string J) j ''actor'') (\<lambda>v_actor.
     rbind (jget_at (get_string J) j ''error'') (\<lambda>v_error.
     rbind (jget_at (get_string J) j ''parent_id'') (\<lambda>v_parent_id.
     rbind (jvalue (get_string J) j ''parent_node_id'' []) (\<lambda>v_parent_node_id.
     rbind (jvalue (get_string J) j ''parent_message_id'' []) (\<lambda>v_parent_message_id.
     rbind (jvalue (get_string J) j ''session_id'' []) (\<lambda>v_session_id.
     rbind (jvalue (get_string J) j ''session_turn_id'' []) (\<lambda>v_session_turn_id.
     rbind (jget_at (get_string J) j ''child_id'') (\<lambda>v_child_id.
     rbind (jvalue (get_string J) j ''child_pipeline_id'' []) (\<lambda>v_child_pipeline_id.
     rbind (jvalue (get_unsigned J) j ''child_pipeline_version'' 0) (\<lambda>v_child_pipeline_version.
     rbind (jvalue (get_unsigned J) j ''subpipeline_depth'' 0) (\<lambda>v_subpipeline_depth.
     rbind (jvalue (get_string J) j ''initiation_type'' ''manual'') (\<lambda>v_initiation_type.
     rbind (jvalue (get_string J) j ''schedule_id'' []) (\<lambda>v_schedule_id.
     rbind (jvalue (get_string J) j ''schedule_occurrence_id'' []) (\<lambda>v_schedule_occurrence_id.
     rbind (jvalue (get_string J) j ''due_at'' []) (\<lambda>v_due_at.
     rbind (jvalue (get_string J) j ''trigger_id'' []) (\<lambda>v_trigger_id.
     rbind (jvalue (get_string J) j ''event_id'' []) (\<lambda>v_event_id.
     rbind (jvalue (get_string J) j ''root_event_id'' []) (\<lambda>v_root_event_id.
     rbind (jvalue (get_string J) j ''owner_instance_id'' []) (\<lambda>v_owner_instance_id.
     rbind (jvalue (get_uint64 J) j ''fencing_token'' 0) (\<lambda>v_fencing_token.
     rbind (jvalue (get_string J) j ''lease_expires_at'' []) (\<lambda>v_lease_expires_at.
     rbind (jvalue (get_string J) j ''claimed_at'' []) (\<lambda>v_claimed_at.
     rbind (jvalue (get_string J) j ''last_renewed_at'' []) (\<lambda>v_last_renewed_at.
     rbind (jvalue (get_string J) j ''pending_parallel_group'' []) (\<lambda>v_pending_parallel_group.
     rbind (jvalue (get_string J) j ''pending_parallel_join'' []) (\<lambda>v_pending_parallel_join.
     rbind (jvalue (get_unsigned J) j ''trigger_depth'' 0) (\<lambda>v_trigger_depth.
     rbind (jvalue (get_list (get_string J)) j ''child_runs'' []) (\<lambda>v_child_runs.
     rbind (jvalue (get_smap (get_string J)) j ''resolved_subpipelines'' []) (\<lambda>v_resolved_subpipelines.
     rbind (jget_at run_state_from_json j ''state'') (\<lambda>v_state.
     rbind (jget_at (get_bool J) j ''cancellation_requested'') (\<lambda>v_cancellation_requested.
     rbind (jget_at (message_from_json J) j ''message'') (\<lambda>v_message.
     rbind (jget_at (get_smap (get_unsigned J)) j ''edge_visits'') (\<lambda>v_edge_visits.
     rbind (jget_at (get_smap (get_unsigned J)) j ''node_visits'') (\<lambda>v_node_visits.
     rbind (jget_at (get_list (branch_frame_from_json J)) j ''frames'') (\<lambda>v_frames.
     rbind (jget_at (get_list (execution_token_from_json J)) j ''ready'') (\<lambda>v_ready.
     rbind (jget_at (get_smap (join_checkpoint_from_json J)) j ''joins'') (\<lambda>v_joins.
     rbind (jget_at (get_string J) j ''prepared_join'') (\<lambda>v_prepared_join.
     rbind (jget_at (get_string J) j ''provider'') (\<lambda>v_provider.
     rbind (jget_at (get_string J) j ''model'') (\<lambda>v_model.
     rbind (jget_at (get_string J) j ''tool'') (\<lambda>v_tool.
     rbind (jget_at (get_string J) j ''plugin'') (\<lambda>v_plugin.
     rbind (jvalue (get_string J) j ''worker'' []) (\<lambda>v_worker.
     rbind (jvalue (get_string J) j ''worker_job_id'' []) (\<lambda>v_worker_job_id.
     rbind (jget_at (get_unsigned J) j ''steps'') (\<lambda>v_steps.
     Inr \<lparr>r_id = v_id, r_pipeline_id = v_pipeline_id, r_definition = v_definition,
      r_active_node = v_active_node, r_created_at = v_created_at, r_updated_at =
      v_updated_at, r_actor = v_actor, r_error = v_error, r_parent_id = v_parent_id,
      r_parent_node_id = v_parent_node_id, r_parent_message_id = v_parent_message_id,
      r_child_id = v_child_id, r_child_pipeline_id = v_child_pipeline_id, r_initiation_type
      = v_initiation_type, r_session_id = v_session_id, r_session_turn_id =
      v_session_turn_id, r_schedule_id = v_schedule_id, r_schedule_occurrence_id =
      v_schedule_occurrence_id, r_due_at = v_due_at, r_trigger_id = v_trigger_id, r_event_id
      = v_event_id, r_root_event_id = v_root_event_id, r_owner_instance_id =
      v_owner_instance_id, r_lease_expires_at = v_lease_expires_at, r_claimed_at =
      v_claimed_at, r_last_renewed_at = v_last_renewed_at, r_pending_parallel_group =
      v_pending_parallel_group, r_pending_parallel_join = v_pending_parallel_join,
      r_pipeline_version = v_pipeline_version, r_child_pipeline_version =
      v_child_pipeline_version, r_subpipeline_depth = v_subpipeline_depth, r_trigger_depth =
      v_trigger_depth, r_fencing_token = v_fencing_token, r_state = v_state,
      r_cancellation_requested = v_cancellation_requested, r_message = v_message,
      r_edge_visits = v_edge_visits, r_node_visits = v_node_visits, r_frames = v_frames,
      r_ready = v_ready, r_joins = v_joins, r_child_runs = v_child_runs,
      r_resolved_subpipelines = v_resolved_subpipelines, r_prepared_join = v_prepared_join,
      r_provider = v_provider, r_model = v_model, r_tool = v_tool, r_plugin = v_plugin,
      r_worker = v_worker, r_worker_job_id = v_worker_job_id, r_steps = v_steps\<rparr>)))))))))))))))))))))))))))))))))))))))))))))))))))"

definition node_execution_to_json :: "node_execution \<Rightarrow> json" where
  "node_execution_to_json a =
     jobject
        [(''id'', JStr (x_id a)),
         (''run_id'', JStr (x_run_id a)),
         (''node_id'', JStr (x_node_id a)),
         (''started_at'', JStr (x_started_at a)),
         (''finished_at'', JStr (x_finished_at a)),
         (''error'', JStr (x_error a)),
         (''child_run_id'', JStr (x_child_run_id a)),
         (''child_pipeline_id'', JStr (x_child_pipeline_id a)),
         (''child_pipeline_version'', JUInt (unat (x_child_pipeline_version a))),
         (''worker_job_id'', JStr (x_worker_job_id a)),
         (''worker_id'', JStr (x_worker_id a)),
         (''external_job_id'', JStr (x_external_job_id a)),
         (''attempt'', JUInt (unat (x_attempt a))),
         (''state'', node_state_to_json (x_state a)),
         (''duration_ms'', JFloat (x_duration_ms a))]"

definition node_execution_from_json :: "json_ops \<Rightarrow> json \<Rightarrow> node_execution result" where
  "node_execution_from_json J j =
     rbind (jget_at (get_string J) j ''id'') (\<lambda>v_id.
     rbind (jget_at (get_string J) j ''run_id'') (\<lambda>v_run_id.
     rbind (jget_at (get_string J) j ''node_id'') (\<lambda>v_node_id.
     rbind (jget_at (get_string J) j ''started_at'') (\<lambda>v_started_at.
     rbind (jget_at (get_string J) j ''finished_at'') (\<lambda>v_finished_at.
     rbind (jget_at (get_string J) j ''error'') (\<lambda>v_error.
     rbind (jvalue (get_string J) j ''child_run_id'' []) (\<lambda>v_child_run_id.
     rbind (jvalue (get_string J) j ''child_pipeline_id'' []) (\<lambda>v_child_pipeline_id.
     rbind (jvalue (get_unsigned J) j ''child_pipeline_version'' 0) (\<lambda>v_child_pipeline_version.
     rbind (jvalue (get_string J) j ''worker_job_id'' []) (\<lambda>v_worker_job_id.
     rbind (jvalue (get_string J) j ''worker_id'' []) (\<lambda>v_worker_id.
     rbind (jvalue (get_string J) j ''external_job_id'' []) (\<lambda>v_external_job_id.
     rbind (jget_at (get_unsigned J) j ''attempt'') (\<lambda>v_attempt.
     rbind (jget_at node_state_from_json j ''state'') (\<lambda>v_state.
     rbind (jget_at (get_double J) j ''duration_ms'') (\<lambda>v_duration_ms.
     Inr \<lparr>x_id = v_id, x_run_id = v_run_id, x_node_id = v_node_id, x_started_at =
      v_started_at, x_finished_at = v_finished_at, x_error = v_error, x_child_run_id =
      v_child_run_id, x_child_pipeline_id = v_child_pipeline_id, x_worker_job_id =
      v_worker_job_id, x_worker_id = v_worker_id, x_external_job_id = v_external_job_id,
      x_child_pipeline_version = v_child_pipeline_version, x_attempt = v_attempt, x_state =
      v_state, x_duration_ms = v_duration_ms\<rparr>)))))))))))))))"

definition node_work_to_json :: "node_work \<Rightarrow> json" where
  "node_work_to_json w =
     (let j = jobject
        [(''id'', JStr (w_id w)),
         (''run_id'', JStr (w_run_id w)),
         (''group_id'', JStr (w_group_id w)),
         (''node_id'', JStr (w_node_id w)),
         (''join'', JStr (w_join w)),
         (''created_at'', JStr (w_created_at w)),
         (''updated_at'', JStr (w_updated_at w)),
         (''owner_instance_id'', JStr (w_owner_instance_id w)),
         (''lease_expires_at'', JStr (w_lease_expires_at w)),
         (''claimed_at'', JStr (w_claimed_at w)),
         (''last_renewed_at'', JStr (w_last_renewed_at w)),
         (''attempt_id'', JStr (w_attempt_id w)),
         (''error'', JStr (w_error w)),
         (''index'', JUInt (unat (w_index w))),
         (''attempt'', JUInt (unat (w_attempt w))),
         (''steps'', JUInt (unat (w_steps w))),
         (''fencing_token'', JUInt (unat (w_fencing_token w))),
         (''state'', node_work_state_to_json (w_state w)),
         (''token'', execution_token_to_json (w_token w)),
         (''required_worker_id'', JStr (w_required_worker_id w)),
         (''required_capability'', JStr (w_required_capability w))]
      in case w_result w of None \<Rightarrow> j | Some m \<Rightarrow> jput ''result'' (message_to_json m) j)"

definition node_work_from_json :: "json_ops \<Rightarrow> string \<Rightarrow> string \<Rightarrow> string \<Rightarrow> json \<Rightarrow> node_work result" where
  "node_work_from_json J fresh now now2 j =
     rbind (jvalue (get_string J) j ''id'' fresh) (\<lambda>v_id.
     rbind (jvalue (get_string J) j ''run_id'' []) (\<lambda>v_run_id.
     rbind (jvalue (get_string J) j ''group_id'' []) (\<lambda>v_group_id.
     rbind (jvalue (get_string J) j ''node_id'' []) (\<lambda>v_node_id.
     rbind (jvalue (get_string J) j ''join'' []) (\<lambda>v_join.
     rbind (jvalue (get_string J) j ''created_at'' now) (\<lambda>v_created_at.
     rbind (jvalue (get_string J) j ''updated_at'' now2) (\<lambda>v_updated_at.
     rbind (jvalue (get_string J) j ''owner_instance_id'' []) (\<lambda>v_owner_instance_id.
     rbind (jvalue (get_string J) j ''lease_expires_at'' []) (\<lambda>v_lease_expires_at.
     rbind (jvalue (get_string J) j ''claimed_at'' []) (\<lambda>v_claimed_at.
     rbind (jvalue (get_string J) j ''last_renewed_at'' []) (\<lambda>v_last_renewed_at.
     rbind (jvalue (get_string J) j ''attempt_id'' []) (\<lambda>v_attempt_id.
     rbind (jvalue (get_string J) j ''error'' []) (\<lambda>v_error.
     rbind (jvalue (get_unsigned J) j ''index'' 0) (\<lambda>v_index.
     rbind (jvalue (get_unsigned J) j ''attempt'' 0) (\<lambda>v_attempt.
     rbind (jvalue (get_unsigned J) j ''steps'' 0) (\<lambda>v_steps.
     rbind (jvalue (get_uint64 J) j ''fencing_token'' 0) (\<lambda>v_fencing_token.
     rbind (jvalue node_work_state_from_json j ''state'' WQueued) (\<lambda>v_state.
     rbind (jvalue (get_string J) j ''required_worker_id'' []) (\<lambda>v_required_worker_id.
     rbind (jvalue (get_string J) j ''required_capability'' []) (\<lambda>v_required_capability.
     rbind (jget_at (execution_token_from_json J) j ''token'') (\<lambda>v_token.
     rbind (if jcontains j ''result'' \<and> jat j ''result'' \<noteq> Inr JNull
            then rbind (jget_at (message_from_json J) j ''result'') (\<lambda>m. Inr (Some m))
            else Inr None) (\<lambda>v_result.
     Inr \<lparr>w_id = v_id, w_run_id = v_run_id, w_group_id = v_group_id, w_node_id =
      v_node_id, w_join = v_join, w_created_at = v_created_at, w_updated_at = v_updated_at,
      w_owner_instance_id = v_owner_instance_id, w_lease_expires_at = v_lease_expires_at,
      w_claimed_at = v_claimed_at, w_last_renewed_at = v_last_renewed_at, w_attempt_id =
      v_attempt_id, w_error = v_error, w_required_worker_id = v_required_worker_id,
      w_required_capability = v_required_capability, w_index = v_index, w_attempt =
      v_attempt, w_steps = v_steps, w_fencing_token = v_fencing_token, w_state = v_state,
      w_token = v_token, w_result = v_result\<rparr>))))))))))))))))))))))"

definition approval_to_json :: "approval \<Rightarrow> json" where
  "approval_to_json a =
     jobject
        [(''id'', JStr (ap_id a)),
         (''run_id'', JStr (ap_run_id a)),
         (''node_id'', JStr (ap_node_id a)),
         (''reason'', JStr (ap_reason a)),
         (''action'', JStr (ap_action a)),
         (''created_at'', JStr (ap_created_at a)),
         (''decision'', JStr (ap_decision a)),
         (''decided_at'', JStr (ap_decided_at a)),
         (''actor'', JStr (ap_actor a)),
         (''comment'', JStr (ap_comment a)),
         (''visit'', JUInt (unat (ap_visit a)))]"

definition approval_from_json :: "json_ops \<Rightarrow> json \<Rightarrow> approval result" where
  "approval_from_json J j =
     rbind (jget_at (get_string J) j ''id'') (\<lambda>v_id.
     rbind (jget_at (get_string J) j ''run_id'') (\<lambda>v_run_id.
     rbind (jget_at (get_string J) j ''node_id'') (\<lambda>v_node_id.
     rbind (jget_at (get_string J) j ''reason'') (\<lambda>v_reason.
     rbind (jget_at (get_string J) j ''action'') (\<lambda>v_action.
     rbind (jget_at (get_string J) j ''created_at'') (\<lambda>v_created_at.
     rbind (jget_at (get_string J) j ''decision'') (\<lambda>v_decision.
     rbind (jget_at (get_string J) j ''decided_at'') (\<lambda>v_decided_at.
     rbind (jget_at (get_string J) j ''actor'') (\<lambda>v_actor.
     rbind (jget_at (get_string J) j ''comment'') (\<lambda>v_comment.
     rbind (jget_at (get_unsigned J) j ''visit'') (\<lambda>v_visit.
     Inr \<lparr>ap_id = v_id, ap_run_id = v_run_id, ap_node_id = v_node_id, ap_reason =
      v_reason, ap_action = v_action, ap_created_at = v_created_at, ap_decision =
      v_decision, ap_decided_at = v_decided_at, ap_actor = v_actor, ap_comment = v_comment,
      ap_visit = v_visit\<rparr>)))))))))))"

definition context_generation_to_json :: "session_context_generation \<Rightarrow> json" where
  "context_generation_to_json g =
     jobject
        [(''id'', JStr (cg_id g)),
         (''session_id'', JStr (cg_session_id g)),
         (''generation'', JUInt (unat (cg_generation g))),
         (''predecessor_id'', JStr (cg_predecessor_id g)),
         (''through_turn_sequence'', JUInt (unat (cg_through_turn_sequence g))),
         (''created_at'', JStr (cg_created_at g)),
         (''representation_kind'', JStr (cg_representation_kind g)),
         (''representation_version'', JStr (cg_representation_version g)),
         (''idempotency_key'', JStr (cg_idempotency_key g)),
         (''payload'', cg_payload g)]"

definition context_generation_from_json :: "json_ops \<Rightarrow> string \<Rightarrow> string \<Rightarrow> json \<Rightarrow> session_context_generation result" where
  "context_generation_from_json J fresh now j =
     rbind (jvalue (get_string J) j ''id'' fresh) (\<lambda>v_id.
     rbind (jvalue (get_string J) j ''session_id'' []) (\<lambda>v_session_id.
     rbind (jvalue (get_uint64 J) j ''generation'' 0) (\<lambda>v_generation.
     rbind (jvalue (get_string J) j ''predecessor_id'' []) (\<lambda>v_predecessor_id.
     rbind (jvalue (get_uint64 J) j ''through_turn_sequence'' 0) (\<lambda>v_through_turn_sequence.
     rbind (jvalue (get_string J) j ''created_at'' now) (\<lambda>v_created_at.
     rbind (jvalue (get_string J) j ''representation_kind'' []) (\<lambda>v_representation_kind.
     rbind (jvalue (get_string J) j ''representation_version'' []) (\<lambda>v_representation_version.
     rbind (jvalue (get_string J) j ''idempotency_key'' []) (\<lambda>v_idempotency_key.
     rbind (jvalue Inr j ''payload'' (jobject [])) (\<lambda>v_payload.
     Inr \<lparr>cg_id = v_id, cg_session_id = v_session_id, cg_predecessor_id =
      v_predecessor_id, cg_created_at = v_created_at, cg_generation = v_generation,
      cg_through_turn_sequence = v_through_turn_sequence, cg_representation_kind =
      v_representation_kind, cg_representation_version = v_representation_version,
      cg_idempotency_key = v_idempotency_key, cg_payload = v_payload\<rparr>))))))))))"

definition context_snapshot_to_json :: "run_context_snapshot \<Rightarrow> json" where
  "context_snapshot_to_json s =
     jobject
        [(''run_id'', JStr (cs_run_id s)),
         (''session_id'', JStr (cs_session_id s)),
         (''session_turn_id'', JStr (cs_session_turn_id s)),
         (''turn_sequence'', JUInt (unat (cs_turn_sequence s))),
         (''history_through_turn_sequence'', JUInt (unat (cs_history_through_turn_sequence s))),
         (''context_generation_id'', JStr (cs_context_generation_id s)),
         (''context_generation'', JUInt (unat (cs_context_generation s))),
         (''context_generation_predecessor_id'', JStr (cs_context_generation_predecessor_id s)),
         (''context_through_turn_sequence'', JUInt (unat (cs_context_through_turn_sequence s))),
         (''representation_kind'', JStr (cs_representation_kind s)),
         (''representation_version'', JStr (cs_representation_version s)),
         (''created_at'', JStr (cs_created_at s)),
         (''provider_continuations'', cs_provider_continuations s)]"

definition context_snapshot_from_json :: "json_ops \<Rightarrow> string \<Rightarrow> json \<Rightarrow> run_context_snapshot result" where
  "context_snapshot_from_json J now j =
     rbind (jvalue (get_string J) j ''run_id'' []) (\<lambda>v_run_id.
     rbind (jvalue (get_string J) j ''session_id'' []) (\<lambda>v_session_id.
     rbind (jvalue (get_string J) j ''session_turn_id'' []) (\<lambda>v_session_turn_id.
     rbind (jvalue (get_uint64 J) j ''turn_sequence'' 0) (\<lambda>v_turn_sequence.
     rbind (jvalue (get_uint64 J) j ''history_through_turn_sequence'' 0) (\<lambda>v_history_through_turn_sequence.
     rbind (jvalue (get_string J) j ''context_generation_id'' []) (\<lambda>v_context_generation_id.
     rbind (jvalue (get_uint64 J) j ''context_generation'' 0) (\<lambda>v_context_generation.
     rbind (jvalue (get_string J) j ''context_generation_predecessor_id'' []) (\<lambda>v_context_generation_predecessor_id.
     rbind (jvalue (get_uint64 J) j ''context_through_turn_sequence'' 0) (\<lambda>v_context_through_turn_sequence.
     rbind (jvalue (get_string J) j ''representation_kind'' []) (\<lambda>v_representation_kind.
     rbind (jvalue (get_string J) j ''representation_version'' []) (\<lambda>v_representation_version.
     rbind (jvalue (get_string J) j ''created_at'' now) (\<lambda>v_created_at.
     rbind (jvalue Inr j ''provider_continuations'' (JArr [])) (\<lambda>v_provider_continuations.
     Inr \<lparr>cs_run_id = v_run_id, cs_session_id = v_session_id, cs_session_turn_id =
      v_session_turn_id, cs_created_at = v_created_at, cs_context_generation_id =
      v_context_generation_id, cs_context_generation_predecessor_id =
      v_context_generation_predecessor_id, cs_turn_sequence = v_turn_sequence,
      cs_history_through_turn_sequence = v_history_through_turn_sequence,
      cs_context_generation = v_context_generation, cs_context_through_turn_sequence =
      v_context_through_turn_sequence, cs_representation_kind = v_representation_kind,
      cs_representation_version = v_representation_version, cs_provider_continuations =
      v_provider_continuations\<rparr>)))))))))))))"

definition agent_session_to_json :: "agent_session \<Rightarrow> json" where
  "agent_session_to_json s =
     jobject
        [(''id'', JStr (as_id s)),
         (''pipeline_id'', JStr (as_pipeline_id s)),
         (''state'', JStr (as_state s)),
         (''created_at'', JStr (as_created_at s)),
         (''updated_at'', JStr (as_updated_at s)),
         (''next_sequence'', JUInt (unat (as_next_sequence s))),
         (''active_turn_id'', JStr (as_active_turn_id s)),
         (''active_run_id'', JStr (as_active_run_id s)),
         (''dispatch_generation'', JUInt (unat (as_dispatch_generation s)))]"

definition agent_session_from_json :: "json_ops \<Rightarrow> string \<Rightarrow> string \<Rightarrow> json \<Rightarrow> agent_session result" where
  "agent_session_from_json J fresh now j =
     rbind (jvalue (get_string J) j ''id'' fresh) (\<lambda>v_id.
     rbind (jvalue (get_string J) j ''pipeline_id'' []) (\<lambda>v_pipeline_id.
     rbind (jvalue (get_string J) j ''state'' ''open'') (\<lambda>v_state.
     rbind (jvalue (get_string J) j ''created_at'' now) (\<lambda>v_created_at.
     rbind (jvalue (get_string J) j ''updated_at'' v_created_at) (\<lambda>v_updated_at.
     rbind (jvalue (get_uint64 J) j ''next_sequence'' 1) (\<lambda>v_next_sequence.
     rbind (jvalue (get_string J) j ''active_turn_id'' []) (\<lambda>v_active_turn_id.
     rbind (jvalue (get_string J) j ''active_run_id'' []) (\<lambda>v_active_run_id.
     rbind (jvalue (get_uint64 J) j ''dispatch_generation'' 0) (\<lambda>v_dispatch_generation.
     Inr \<lparr>as_id = v_id, as_pipeline_id = v_pipeline_id, as_state = v_state, as_created_at
      = v_created_at, as_updated_at = v_updated_at, as_active_turn_id = v_active_turn_id,
      as_active_run_id = v_active_run_id, as_dispatch_generation = v_dispatch_generation,
      as_next_sequence = v_next_sequence\<rparr>)))))))))"

definition event_to_json :: "event \<Rightarrow> json" where
  "event_to_json e =
     jobject
        [(''id'', JStr (ev_id e)),
         (''run_id'', JStr (ev_run_id e)),
         (''pipeline_id'', JStr (ev_pipeline_id e)),
         (''node_id'', JStr (ev_node_id e)),
         (''type'', JStr (ev_type e)),
         (''time'', JStr (ev_time e)),
         (''causation_id'', JStr (ev_causation_id e)),
         (''root_event_id'', JStr (ev_root_event_id e)),
         (''trigger_depth'', JUInt (unat (ev_trigger_depth e))),
         (''source_id'', JStr (ev_source_id e)),
         (''source_plugin'', JStr (ev_source_plugin e)),
         (''source_component'', JStr (ev_source_component e)),
         (''external_event_id'', JStr (ev_external_event_id e)),
         (''occurred_at'', JStr (ev_occurred_at e)),
         (''ingested_at'', JStr (ev_ingested_at e)),
         (''payload'', ev_payload e),
         (''metadata'', ev_metadata e)]"

definition event_from_json :: "json_ops \<Rightarrow> string \<Rightarrow> string \<Rightarrow> json \<Rightarrow> event result" where
  "event_from_json J fresh now j =
     rbind (jvalue (get_string J) j ''id'' fresh) (\<lambda>v_id.
     rbind (jvalue (get_string J) j ''run_id'' []) (\<lambda>v_run_id.
     rbind (jvalue (get_string J) j ''pipeline_id'' []) (\<lambda>v_pipeline_id.
     rbind (jvalue (get_string J) j ''node_id'' []) (\<lambda>v_node_id.
     rbind (jvalue (get_string J) j ''type'' []) (\<lambda>v_type.
     rbind (jvalue (get_string J) j ''time'' now) (\<lambda>v_time.
     rbind (jvalue (get_string J) j ''causation_id'' []) (\<lambda>v_causation_id.
     rbind (jvalue (get_string J) j ''root_event_id'' []) (\<lambda>v_root_event_id.
     rbind (jvalue (get_unsigned J) j ''trigger_depth'' 0) (\<lambda>v_trigger_depth.
     rbind (jvalue (get_string J) j ''source_id'' []) (\<lambda>v_source_id.
     rbind (jvalue (get_string J) j ''source_plugin'' []) (\<lambda>v_source_plugin.
     rbind (jvalue (get_string J) j ''source_component'' []) (\<lambda>v_source_component.
     rbind (jvalue (get_string J) j ''external_event_id'' []) (\<lambda>v_external_event_id.
     rbind (jvalue (get_string J) j ''occurred_at'' []) (\<lambda>v_occurred_at.
     rbind (jvalue (get_string J) j ''ingested_at'' []) (\<lambda>v_ingested_at.
     rbind (jvalue Inr j ''payload'' (jobject [])) (\<lambda>v_payload.
     rbind (jvalue Inr j ''metadata'' (jobject [])) (\<lambda>v_metadata.
     Inr \<lparr>ev_id = v_id, ev_run_id = v_run_id, ev_pipeline_id = v_pipeline_id, ev_node_id
      = v_node_id, ev_type = v_type, ev_time = v_time, ev_causation_id = v_causation_id,
      ev_root_event_id = v_root_event_id, ev_trigger_depth = v_trigger_depth, ev_source_id =
      v_source_id, ev_source_plugin = v_source_plugin, ev_source_component =
      v_source_component, ev_external_event_id = v_external_event_id, ev_occurred_at =
      v_occurred_at, ev_ingested_at = v_ingested_at, ev_payload = v_payload, ev_metadata =
      v_metadata\<rparr>)))))))))))))))))"

definition artifact_to_json :: "artifact \<Rightarrow> json" where
  "artifact_to_json a =
     jobject
        [(''id'', JStr (ar_id a)),
         (''run_id'', JStr (ar_run_id a)),
         (''node_id'', JStr (ar_node_id a)),
         (''name'', JStr (ar_name a)),
         (''media_type'', JStr (ar_media_type a)),
         (''location'', JStr (ar_location a)),
         (''object_id'', JStr (ar_object_id a)),
         (''sha256'', JStr (ar_sha256 a)),
         (''size'', JUInt (unat (ar_size a))),
         (''created_at'', JStr (ar_created_at a)),
         (''metadata'', ar_metadata a)]"

definition artifact_from_json :: "json_ops \<Rightarrow> string \<Rightarrow> string \<Rightarrow> json \<Rightarrow> artifact result" where
  "artifact_from_json J fresh now j =
     rbind (jvalue (get_string J) j ''id'' fresh) (\<lambda>v_id.
     rbind (jvalue (get_string J) j ''run_id'' []) (\<lambda>v_run_id.
     rbind (jvalue (get_string J) j ''node_id'' []) (\<lambda>v_node_id.
     rbind (jvalue (get_string J) j ''name'' []) (\<lambda>v_name.
     rbind (jvalue (get_string J) j ''media_type'' []) (\<lambda>v_media_type.
     rbind (jvalue (get_string J) j ''location'' []) (\<lambda>v_location.
     rbind (jvalue (get_string J) j ''object_id'' []) (\<lambda>v_object_id.
     rbind (jvalue (get_string J) j ''sha256'' []) (\<lambda>v_sha256.
     rbind (jvalue (get_uint64 J) j ''size'' 0) (\<lambda>v_size.
     rbind (jvalue (get_string J) j ''created_at'' now) (\<lambda>v_created_at.
     rbind (jvalue Inr j ''metadata'' (jobject [])) (\<lambda>v_metadata.
     Inr \<lparr>ar_id = v_id, ar_run_id = v_run_id, ar_node_id = v_node_id, ar_name = v_name,
      ar_media_type = v_media_type, ar_location = v_location, ar_object_id = v_object_id,
      ar_sha256 = v_sha256, ar_created_at = v_created_at, ar_size = v_size, ar_metadata =
      v_metadata\<rparr>)))))))))))"

section \<open>Idempotent publication of node work\<close>

definition equivalent_terminal_node_work :: "node_work \<Rightarrow> node_work \<Rightarrow> bool" where
  "equivalent_terminal_node_work l r \<longleftrightarrow>
     (let same_result =
        (w_result l = None \<and> w_result r = None) \<or>
        (w_result l \<noteq> None \<and> w_result r \<noteq> None \<and>
         map_option message_to_json (w_result l) = map_option message_to_json (w_result r))
      in if w_id l \<noteq> w_id r \<or> w_run_id l \<noteq> w_run_id r \<or> w_group_id l \<noteq> w_group_id r \<or>
            w_node_id l \<noteq> w_node_id r \<or> w_join l \<noteq> w_join r \<or>
            w_required_worker_id l \<noteq> w_required_worker_id r \<or>
            w_required_capability l \<noteq> w_required_capability r \<or>
            w_owner_instance_id l \<noteq> w_owner_instance_id r \<or> w_state l \<noteq> w_state r \<or>
            w_attempt l \<noteq> w_attempt r \<or> w_attempt_id l \<noteq> w_attempt_id r \<or>
            w_fencing_token l \<noteq> w_fencing_token r \<or> w_error l \<noteq> w_error r \<or>
            w_steps l \<noteq> w_steps r \<or>
            execution_token_to_json (w_token l) \<noteq> execution_token_to_json (w_token r) \<or>
            \<not> same_result
         then False
         else w_state l = WCompleted \<or> w_state l = WFailed \<or> w_state l = WCancelled)"

section \<open>Lemmas\<close>

text \<open>Well-formed values: what the round trip needs of a message, a token, a checkpoint, a run.\<close>

definition message_ok :: "message \<Rightarrow> bool" where
  "message_ok m \<longleftrightarrow> (case m_confidence m of None \<Rightarrow> True | Some d \<Rightarrow> confidence_ok d)"

definition token_ok :: "execution_token \<Rightarrow> bool" where
  "token_ok t \<longleftrightarrow> message_ok (tk_message t)"

definition checkpoint_ok :: "join_checkpoint \<Rightarrow> bool" where
  "checkpoint_ok c \<longleftrightarrow> omap_inv (jc_messages c) \<and> (\<forall>m \<in> snd ` set (jc_messages c). message_ok m)"

definition run_ok :: "run \<Rightarrow> bool" where
  "run_ok r \<longleftrightarrow> message_ok (r_message r) \<and> (\<forall>t \<in> set (r_ready r). token_ok t) \<and>
     (\<forall>c \<in> snd ` set (r_joins r). checkpoint_ok c)"

lemma run_state_codec [simp]: "run_state_from_json (run_state_to_json s) = Inr s"
  by (cases s) (simp_all add: run_state_from_json_def run_state_to_json_def enum_from_json_def
      enum_to_json_def run_state_names_def)

lemma node_state_codec [simp]: "node_state_from_json (node_state_to_json s) = Inr s"
  by (cases s) (simp_all add: node_state_from_json_def node_state_to_json_def enum_from_json_def
      enum_to_json_def node_state_names_def)

lemma node_work_state_codec [simp]: "node_work_state_from_json (node_work_state_to_json s) = Inr s"
  by (cases s) (simp_all add: node_work_state_from_json_def node_work_state_to_json_def
      enum_from_json_def enum_to_json_def node_work_state_names_def)

lemma provenance_codec [simp]:
  "json_ops_ok J \<Longrightarrow> provenance_from_json J (provenance_to_json p) = Inr p"
  by (simp add: provenance_from_json_def provenance_to_json_def)

lemma message_codec:
  "json_ops_ok J \<Longrightarrow> message_ok m \<Longrightarrow> message_from_json J (message_to_json m) = Inr m"
  by (cases "m_confidence m") (simp_all add: message_from_json_def message_to_json_def jget_at_def
      message_ok_def get_list_roundtrip)

lemma branch_frame_codec [simp]:
  "json_ops_ok J \<Longrightarrow> branch_frame_from_json J (branch_frame_to_json b) = Inr b"
  by (simp add: branch_frame_from_json_def branch_frame_to_json_def jget_at_def)

lemma execution_token_codec:
  "json_ops_ok J \<Longrightarrow> token_ok t \<Longrightarrow> execution_token_from_json J (execution_token_to_json t) = Inr t"
  by (simp add: execution_token_from_json_def execution_token_to_json_def jget_at_def token_ok_def
      get_list_roundtrip message_codec)

lemma join_checkpoint_codec:
  "json_ops_ok J \<Longrightarrow> checkpoint_ok c \<Longrightarrow> join_checkpoint_from_json J (join_checkpoint_to_json c) = Inr c"
proof -
  assume J: "json_ops_ok J" and c: "checkpoint_ok c"
  have "get_umap J (message_from_json J) (umap_json message_to_json (jc_messages c))
      = Inr (jc_messages c)"
    using J c by (auto simp: checkpoint_ok_def intro!: get_umap_roundtrip message_codec)
  then show ?thesis
    by (simp add: join_checkpoint_from_json_def join_checkpoint_to_json_def jget_at_def)
qed

text \<open>Each key of an encoded run, looked up once, so that decoding never unfolds the object again.\<close>

lemma run_lookup:
  shows "jat (run_to_json r) ''id'' = Inr (JStr (r_id r))"
    and "jat (run_to_json r) ''pipeline_id'' = Inr (JStr (r_pipeline_id r))"
    and "jat (run_to_json r) ''pipeline_version'' = Inr (JUInt (unat (r_pipeline_version r)))"
    and "jat (run_to_json r) ''definition'' = Inr (JStr (r_definition r))"
    and "jat (run_to_json r) ''active_node'' = Inr (JStr (r_active_node r))"
    and "jat (run_to_json r) ''created_at'' = Inr (JStr (r_created_at r))"
    and "jat (run_to_json r) ''updated_at'' = Inr (JStr (r_updated_at r))"
    and "jat (run_to_json r) ''actor'' = Inr (JStr (r_actor r))"
    and "jat (run_to_json r) ''error'' = Inr (JStr (r_error r))"
    and "jat (run_to_json r) ''parent_id'' = Inr (JStr (r_parent_id r))"
    and "jat (run_to_json r) ''parent_node_id'' = Inr (JStr (r_parent_node_id r))"
    and "jat (run_to_json r) ''parent_message_id'' = Inr (JStr (r_parent_message_id r))"
    and "jat (run_to_json r) ''session_id'' = Inr (JStr (r_session_id r))"
    and "jat (run_to_json r) ''session_turn_id'' = Inr (JStr (r_session_turn_id r))"
    and "jat (run_to_json r) ''child_id'' = Inr (JStr (r_child_id r))"
    and "jat (run_to_json r) ''child_pipeline_id'' = Inr (JStr (r_child_pipeline_id r))"
    and "jat (run_to_json r) ''child_pipeline_version'' = Inr (JUInt (unat (r_child_pipeline_version r)))"
    and "jat (run_to_json r) ''subpipeline_depth'' = Inr (JUInt (unat (r_subpipeline_depth r)))"
    and "jat (run_to_json r) ''initiation_type'' = Inr (JStr (r_initiation_type r))"
    and "jat (run_to_json r) ''schedule_id'' = Inr (JStr (r_schedule_id r))"
    and "jat (run_to_json r) ''schedule_occurrence_id'' = Inr (JStr (r_schedule_occurrence_id r))"
    and "jat (run_to_json r) ''due_at'' = Inr (JStr (r_due_at r))"
    and "jat (run_to_json r) ''trigger_id'' = Inr (JStr (r_trigger_id r))"
    and "jat (run_to_json r) ''event_id'' = Inr (JStr (r_event_id r))"
    and "jat (run_to_json r) ''root_event_id'' = Inr (JStr (r_root_event_id r))"
    and "jat (run_to_json r) ''owner_instance_id'' = Inr (JStr (r_owner_instance_id r))"
    and "jat (run_to_json r) ''fencing_token'' = Inr (JUInt (unat (r_fencing_token r)))"
    and "jat (run_to_json r) ''lease_expires_at'' = Inr (JStr (r_lease_expires_at r))"
    and "jat (run_to_json r) ''claimed_at'' = Inr (JStr (r_claimed_at r))"
    and "jat (run_to_json r) ''last_renewed_at'' = Inr (JStr (r_last_renewed_at r))"
    and "jat (run_to_json r) ''pending_parallel_group'' = Inr (JStr (r_pending_parallel_group r))"
    and "jat (run_to_json r) ''pending_parallel_join'' = Inr (JStr (r_pending_parallel_join r))"
    and "jat (run_to_json r) ''trigger_depth'' = Inr (JUInt (unat (r_trigger_depth r)))"
    and "jat (run_to_json r) ''child_runs'' = Inr (JArr (map JStr (r_child_runs r)))"
    and "jat (run_to_json r) ''resolved_subpipelines'' = Inr (smap_json JStr (r_resolved_subpipelines r))"
    and "jat (run_to_json r) ''state'' = Inr (run_state_to_json (r_state r))"
    and "jat (run_to_json r) ''cancellation_requested'' = Inr (JBool (r_cancellation_requested r))"
    and "jat (run_to_json r) ''message'' = Inr (message_to_json (r_message r))"
    and "jat (run_to_json r) ''edge_visits'' = Inr (smap_json (\<lambda>w. JUInt (unat w)) (r_edge_visits r))"
    and "jat (run_to_json r) ''node_visits'' = Inr (smap_json (\<lambda>w. JUInt (unat w)) (r_node_visits r))"
    and "jat (run_to_json r) ''frames'' = Inr (JArr (map branch_frame_to_json (r_frames r)))"
    and "jat (run_to_json r) ''ready'' = Inr (JArr (map execution_token_to_json (r_ready r)))"
    and "jat (run_to_json r) ''joins'' = Inr (smap_json join_checkpoint_to_json (r_joins r))"
    and "jat (run_to_json r) ''prepared_join'' = Inr (JStr (r_prepared_join r))"
    and "jat (run_to_json r) ''provider'' = Inr (JStr (r_provider r))"
    and "jat (run_to_json r) ''model'' = Inr (JStr (r_model r))"
    and "jat (run_to_json r) ''tool'' = Inr (JStr (r_tool r))"
    and "jat (run_to_json r) ''plugin'' = Inr (JStr (r_plugin r))"
    and "jat (run_to_json r) ''worker'' = Inr (JStr (r_worker r))"
    and "jat (run_to_json r) ''worker_job_id'' = Inr (JStr (r_worker_job_id r))"
    and "jat (run_to_json r) ''steps'' = Inr (JUInt (unat (r_steps r)))"
  by (simp_all add: run_to_json_def)

lemma run_codec:
  assumes "json_ops_ok J" and "run_ok r"
  shows "run_from_json J (run_to_json r) = Inr r"
proof -
  have "get_list (execution_token_from_json J) (JArr (map execution_token_to_json (r_ready r)))
      = Inr (r_ready r)"
    using assms by (intro get_list_roundtrip execution_token_codec) (auto simp: run_ok_def)
  moreover have "get_smap (join_checkpoint_from_json J)
      (smap_json join_checkpoint_to_json (r_joins r)) = Inr (r_joins r)"
    using assms by (intro get_smap_roundtrip join_checkpoint_codec) (auto simp: run_ok_def)
  moreover have "message_from_json J (message_to_json (r_message r)) = Inr (r_message r)"
    using assms by (auto intro: message_codec simp: run_ok_def)
  ultimately show ?thesis
    using assms(1)
    by (simp add: run_from_json_def run_lookup [THEN jget_at_jat] run_lookup [THEN jvalue_jat]
        get_list_roundtrip get_smap_roundtrip cong: rbind_weak_cong)
qed

lemma node_execution_codec:
  "json_ops_ok J \<Longrightarrow> node_execution_from_json J (node_execution_to_json a) = Inr a"
  by (simp add: node_execution_from_json_def node_execution_to_json_def jget_at_def)

text \<open>
  The optional result is a key written only when it is present, and a JSON object is never the
  null value, so reading it back distinguishes the two cases.
\<close>

lemma jobject_not_null [simp]: "jobject kvs \<noteq> JNull"
  by (simp add: jobject_def)

lemma jput_jobject [simp]: "jput k v (jobject kvs) = jobject ((k, v) # kvs)"
  by (simp add: jput_def jobject_def)

definition node_work_ok :: "node_work \<Rightarrow> bool" where
  "node_work_ok w \<longleftrightarrow> token_ok (w_token w) \<and>
     (case w_result w of None \<Rightarrow> True | Some m \<Rightarrow> message_ok m)"

lemma node_work_codec:
  assumes "json_ops_ok J" and "node_work_ok w"
  shows "node_work_from_json J fresh now now2 (node_work_to_json w) = Inr w"
proof (cases "w_result w")
  case None
  with assms show ?thesis
    by (simp add: node_work_from_json_def node_work_to_json_def jget_at_def node_work_ok_def
        execution_token_codec Let_def)
next
  case (Some m)
  then have not_null: "message_to_json m \<noteq> JNull" by (simp add: message_to_json_def)
  from Some assms not_null show ?thesis
    by (simp add: node_work_from_json_def node_work_to_json_def jget_at_def node_work_ok_def
        execution_token_codec message_codec Let_def)
qed

lemma approval_codec: "json_ops_ok J \<Longrightarrow> approval_from_json J (approval_to_json a) = Inr a"
  by (simp add: approval_from_json_def approval_to_json_def jget_at_def)

lemma context_generation_codec:
  "json_ops_ok J \<Longrightarrow> context_generation_from_json J fresh now (context_generation_to_json g) = Inr g"
  by (simp add: context_generation_from_json_def context_generation_to_json_def)

lemma context_snapshot_codec:
  "json_ops_ok J \<Longrightarrow> context_snapshot_from_json J now (context_snapshot_to_json s) = Inr s"
  by (simp add: context_snapshot_from_json_def context_snapshot_to_json_def)

lemma agent_session_codec:
  "json_ops_ok J \<Longrightarrow> agent_session_from_json J fresh now (agent_session_to_json s) = Inr s"
  by (simp add: agent_session_from_json_def agent_session_to_json_def)

lemma event_codec: "json_ops_ok J \<Longrightarrow> event_from_json J fresh now (event_to_json e) = Inr e"
  by (simp add: event_from_json_def event_to_json_def)

lemma artifact_codec: "json_ops_ok J \<Longrightarrow> artifact_from_json J fresh now (artifact_to_json a) = Inr a"
  by (simp add: artifact_from_json_def artifact_to_json_def)

text \<open>Injectivity of the encoders, by the round trip through one conversion table.\<close>

lemma message_to_json_inject:
  assumes "message_ok m" and "message_ok m'" and "message_to_json m = message_to_json m'"
  shows "m = m'"
  using assms message_codec [OF plain_ops_ok] by (metis sum.inject(2))

lemma execution_token_to_json_inject:
  assumes "token_ok t" and "token_ok t'" and "execution_token_to_json t = execution_token_to_json t'"
  shows "t = t'"
  using assms execution_token_codec [OF plain_ops_ok] by (metis sum.inject(2))

text \<open>No message is decoded with a confidence outside the unit interval.\<close>

lemma message_from_json_ok: "message_from_json J j = Inr m \<Longrightarrow> message_ok m"
  unfolding message_from_json_def
  by (elim rbindE) (auto simp: message_ok_def elim!: rbindE split: if_splits option.splits)

lemma new_message_ok [simp]: "message_ok (new_message fresh now)"
  by (simp add: new_message_def message_ok_def)

lemma new_run_ok [simp]: "message_ok m \<Longrightarrow> run_ok (new_run fresh now m)"
  by (simp add: new_run_def run_ok_def)

section \<open>Properties\<close>

text \<open>
  C38: a stored run is read back exactly as it was written: all of its fields, its ready tokens and
  its join checkpoints survive the JSON round trip.
\<close>

theorem run_json_roundtrip:
  assumes "json_ops_ok J" and "run_ok r"
  shows "run_from_json J (run_to_json r) = Inr r"
  using assms by (rule run_codec)

lemma run_json_roundtrip_witness:
  "run_from_json plain_ops (run_to_json (new_run ''r1'' ''now'' (new_message ''m1'' ''now''))) =
     Inr (new_run ''r1'' ''now'' (new_message ''m1'' ''now''))"
  by (rule run_json_roundtrip [OF plain_ops_ok]) simp

text \<open>
  Decoding a message never yields a confidence outside the unit interval: the result carries
  none, or a finite value between 0 and 1.
\<close>

lemma decoded_confidence_in_unit_interval:
  assumes "message_from_json J j = Inr m" and "m_confidence m = Some d"
  shows "\<exists>q. d = Finite q \<and> 0 \<le> q \<and> q \<le> 1"
  using message_from_json_ok [OF assms(1)] assms(2)
  by (auto simp: message_ok_def confidence_ok_def split: dbl.splits)

lemma decoded_confidence_in_unit_interval_example:
  "\<exists>q. Finite (1/2) = Finite q \<and> 0 \<le> q \<and> q \<le> 1"
proof -
  let ?m = "(new_message ''m1'' ''now'')\<lparr>m_confidence := Some (Finite (1/2))\<rparr>"
  have "message_from_json plain_ops (message_to_json ?m) = Inr ?m"
    by (rule message_codec [OF plain_ops_ok]) (simp add: message_ok_def confidence_ok_def)
  then show ?thesis by (rule decoded_confidence_in_unit_interval) simp
qed

text \<open>
  A second publication of a node-work result counts as equivalent exactly when the work is
  terminal and the two records agree on everything but the branch index and the timestamps of
  creation, update, claim, lease and renewal.
\<close>

lemma equivalent_terminal_node_work_iff:
  assumes "node_work_ok l" and "node_work_ok r"
  shows "equivalent_terminal_node_work l r \<longleftrightarrow>
    node_work_terminal (w_state l) \<and>
    r = l\<lparr>w_created_at := w_created_at r, w_updated_at := w_updated_at r,
          w_lease_expires_at := w_lease_expires_at r, w_claimed_at := w_claimed_at r,
          w_last_renewed_at := w_last_renewed_at r, w_index := w_index r\<rparr>"
proof -
  have tok: "execution_token_to_json (w_token l) = execution_token_to_json (w_token r) \<longleftrightarrow>
      w_token l = w_token r"
    using assms execution_token_to_json_inject by (auto simp: node_work_ok_def)
  have res: "(w_result l = None \<and> w_result r = None) \<or> (w_result l \<noteq> None \<and> w_result r \<noteq> None \<and>
      map_option message_to_json (w_result l) = map_option message_to_json (w_result r)) \<longleftrightarrow>
      w_result l = w_result r"
    using assms message_to_json_inject
    by (cases "w_result l"; cases "w_result r") (auto simp: node_work_ok_def)
  show ?thesis
    unfolding equivalent_terminal_node_work_def Let_def tok res node_work_terminal_def
    by (cases l; cases r) auto
qed

lemma equivalent_terminal_node_work_iff_example:
  "equivalent_terminal_node_work
     ((new_node_work ''w'' ''t'' \<lparr>tk_node_id = ''n'', tk_message = new_message ''m'' ''t'', tk_frames = []\<rparr>)
        \<lparr>w_state := WCompleted\<rparr>)
     ((new_node_work ''w'' ''t'' \<lparr>tk_node_id = ''n'', tk_message = new_message ''m'' ''t'', tk_frames = []\<rparr>)
        \<lparr>w_state := WCompleted, w_updated_at := ''later''\<rparr>)"
  by (subst equivalent_terminal_node_work_iff)
     (simp_all add: new_node_work_def node_work_ok_def token_ok_def node_work_terminal_def)

end
