(* ===== verification/Laso_Registry.thy ===== *)
theory Laso_Registry
  imports Laso_Prelude
begin

text \<open>
  \<^verbatim>\<open>include/laso/core/registry.hpp\<close>: the named registries (functions, tools, providers, nodes, worker
  adapters, context reducers) that plugins fill and nodes resolve their bindings in. The entries
  are an ordered map; a shared pointer that may be null is an \<open>option\<close>. Every operation is
  one critical section, so it is a function from the entries to the new entries.
\<close>

record 'a registry =
  entries :: "(string, 'a) omap"

definition empty_registry :: "'a registry" where
  "empty_registry = \<lparr>entries = []\<rparr>"

fun add_batch_step :: "string \<times> 'a option \<Rightarrow> (string, 'a) omap \<Rightarrow> (string, 'a) omap result" where
  "add_batch_step (name, value) candidate =
     (case value of
        None \<Rightarrow> throw Conflict ''Invalid or duplicate registration''
      | Some v \<Rightarrow>
          if name = [] then throw Conflict ''Invalid or duplicate registration''
          else (case omap_emplace name v candidate of
                  (inserted, candidate') \<Rightarrow>
                    if inserted then Inr candidate'
                    else throw Conflict ''Invalid or duplicate registration''))"

definition add_batch :: "(string, 'a option) omap \<Rightarrow> 'a registry \<Rightarrow> 'a registry result" where
  "add_batch batch reg =
     rbind (foldM add_batch_step batch (entries reg)) (\<lambda>candidate. Inr (reg\<lparr>entries := candidate\<rparr>))"

definition add :: "string \<Rightarrow> 'a option \<Rightarrow> 'a registry \<Rightarrow> 'a registry result" where
  "add name value reg =
     (case value of
        None \<Rightarrow> throw Configuration ''Invalid registration''
      | Some v \<Rightarrow>
          if name = [] then throw Configuration ''Invalid registration''
          else (case omap_emplace name v (entries reg) of
                  (inserted, m) \<Rightarrow>
                    if inserted then Inr (reg\<lparr>entries := m\<rparr>)
                    else throw Conflict ''Duplicate registration''))"

definition get :: "string \<Rightarrow> 'a registry \<Rightarrow> 'a result" where
  "get name reg =
     (case map_of (entries reg) name of
        None \<Rightarrow> throw NotFound ''Registration not found''
      | Some v \<Rightarrow> Inr v)"

definition names :: "'a registry \<Rightarrow> string list" where
  "names reg = map fst (entries reg)"

definition registry_ok :: "'a registry \<Rightarrow> bool" where
  "registry_ok reg \<longleftrightarrow> omap_inv (entries reg) \<and> [] \<notin> set (names reg)"

section \<open>Lemmas\<close>

lemma add_batch_step_Inr:
  "add_batch_step (name, value) m = Inr m' \<longleftrightarrow>
     name \<noteq> [] \<and> map_of m name = None \<and> (\<exists>v. value = Some v \<and> m' = omap_put name v m)"
  by (auto simp: omap_emplace_def split: option.splits if_splits)

lemma add_batch_step_Inl:
  "add_batch_step (name, value) m = Inl e \<Longrightarrow> e = Error Conflict ''Invalid or duplicate registration''"
  by (auto split: option.splits if_splits prod.splits)

lemma add_batch_fold_Inr:
  assumes "distinct (map fst batch)"
  shows "(\<exists>m'. foldM add_batch_step batch m = Inr m') \<longleftrightarrow>
    (\<forall>(name, value) \<in> set batch. name \<noteq> [] \<and> value \<noteq> None \<and> map_of m name = None)"
  using assms
proof (induction batch arbitrary: m)
  case Nil
  then show ?case by simp
next
  case (Cons b batch)
  obtain name val where b: "b = (name, val)" by (cases b)
  show ?case
  proof (cases "\<exists>m'. add_batch_step b m = Inr m'")
    case True
    then obtain m' where m': "add_batch_step (name, val) m = Inr m'" using b by blast
    then obtain v where v: "val = Some v" "name \<noteq> []" "map_of m name = None"
      and "m' = omap_put name v m"
      unfolding add_batch_step_Inr by blast
    with m' b have step: "add_batch_step b m = Inr (omap_put name v m)" by simp
    have fresh: "(n, w) \<in> set batch \<Longrightarrow> n \<noteq> name" for n w
      using Cons.prems b by (auto simp: rev_image_eqI)
    have "(\<exists>m'. foldM add_batch_step (b # batch) m = Inr m') \<longleftrightarrow>
        (\<exists>m'. foldM add_batch_step batch (omap_put name v m) = Inr m')"
      by (simp only: foldM.simps step rbind_Inr)
    also have "\<dots> \<longleftrightarrow> (\<forall>(n, w) \<in> set batch. n \<noteq> [] \<and> w \<noteq> None \<and> map_of m n = None)"
      using Cons.IH [of "omap_put name v m"] Cons.prems fresh by (auto simp: case_prod_beta)
    finally show ?thesis using v b by auto
  next
    case False
    then have "\<not> (name \<noteq> [] \<and> val \<noteq> None \<and> map_of m name = None)"
      unfolding b add_batch_step_Inr by blast
    moreover have "\<nexists>m'. foldM add_batch_step (b # batch) m = Inr m'"
      using False by (auto simp: rbind_eq_Inr simp del: add_batch_step.simps)
    ultimately show ?thesis using b by auto
  qed
qed

lemma add_batch_fold_Inl:
  "foldM add_batch_step batch m = Inl e \<Longrightarrow> e = Error Conflict ''Invalid or duplicate registration''"
  by (induction batch arbitrary: m)
     (auto simp: rbind_eq_Inl dest: add_batch_step_Inl simp del: add_batch_step.simps)

lemma add_batch_fold_lookup:
  assumes "foldM add_batch_step batch m = Inr m'" and "distinct (map fst batch)"
  shows "map_of m' name = (case map_of batch name of Some value \<Rightarrow> value | None \<Rightarrow> map_of m name)"
  using assms
proof (induction batch arbitrary: m)
  case Nil
  then show ?case by simp
next
  case (Cons b batch)
  obtain n val where b: "b = (n, val)" by (cases b)
  from Cons.prems(1) obtain v where v: "val = Some v"
    and rest: "foldM add_batch_step batch (omap_put n v m) = Inr m'"
    by (auto simp: b rbind_eq_Inr add_batch_step_Inr simp del: add_batch_step.simps)
  from Cons.prems(2) b have "map_of batch n = None" by (auto simp: map_of_eq_None_iff)
  with Cons.IH [OF rest] Cons.prems(2) b v show ?case by (auto split: option.splits)
qed

lemma add_batch_fold_inv:
  "foldM add_batch_step batch m = Inr m' \<Longrightarrow> omap_inv m \<Longrightarrow> omap_inv m'"
  by (erule foldM_invariant) (auto simp: add_batch_step_Inr simp del: add_batch_step.simps)

section \<open>The registry as an interface\<close>

text \<open>What the components that resolve a binding rely on.\<close>

locale registry_api =
  fixes lookup :: "string \<Rightarrow> 'r \<Rightarrow> 'a result"
    and insert_one :: "string \<Rightarrow> 'a option \<Rightarrow> 'r \<Rightarrow> 'r result"
    and ok :: "'r \<Rightarrow> bool"
  assumes lookup_inserted: "insert_one n (Some v) r = Inr r' \<Longrightarrow> lookup n r' = Inr v"
    and lookup_other: "insert_one n (Some v) r = Inr r' \<Longrightarrow> k \<noteq> n \<Longrightarrow> lookup k r' = lookup k r"
    and insert_fresh: "insert_one n (Some v) r = Inr r' \<Longrightarrow> lookup n r = throw NotFound ''Registration not found''"
    and insert_non_null: "insert_one n None r \<noteq> Inr r'"
    and insert_ok: "ok r \<Longrightarrow> insert_one n w r = Inr r' \<Longrightarrow> ok r'"
begin

text \<open>A resolved binding stays resolved to the same value, whatever is registered later.\<close>

lemma resolved_stays:
  assumes "lookup k r = Inr v" and "insert_one n w r = Inr r'"
  shows "lookup k r' = Inr v"
proof (cases w)
  case None
  with assms(2) insert_non_null show ?thesis by blast
next
  case (Some u)
  with assms insert_fresh have "k \<noteq> n" by auto
  with Some assms lookup_other show ?thesis by metis
qed

lemma resolved_stays_all:
  assumes "lookup k r = Inr v" and "foldM (\<lambda>(n, w). insert_one n w) xs r = Inr r'"
  shows "lookup k r' = Inr v"
  using assms(2,1) by (rule foldM_invariant) (auto intro: resolved_stays)

end

interpretation reg: registry_api get add registry_ok
proof unfold_locales
  fix n :: string and v :: 'a and r r' :: "'a registry" and w :: "'a option" and k :: string
  show "add n (Some v) r = Inr r' \<Longrightarrow> get n r' = Inr v"
    by (auto simp: add_def get_def omap_emplace_def split: if_splits option.splits)
  show "add n (Some v) r = Inr r' \<Longrightarrow> k \<noteq> n \<Longrightarrow> get k r' = get k r"
    by (auto simp: add_def get_def omap_emplace_def split: if_splits option.splits)
  show "add n (Some v) r = Inr r' \<Longrightarrow> get n r = throw NotFound ''Registration not found''"
    by (auto simp: add_def get_def omap_emplace_def split: if_splits option.splits)
  show "add n None r \<noteq> Inr r'"
    by (simp add: add_def)
  show "registry_ok r \<Longrightarrow> add n w r = Inr r' \<Longrightarrow> registry_ok r'"
    using set_keys_omap_put [of n _ "entries r"]
    by (simp add: add_def omap_emplace_def registry_ok_def names_def
        split: if_splits option.splits) (metis insertE omap_inv_put select_convs(1) surjective update_convs(1))
qed

section \<open>Properties\<close>

text \<open>
  Registering a batch is all or nothing. It succeeds exactly when every entry has a name and a
  value and no name is taken; then the batch's names resolve to the batch's values and every
  other name as before; otherwise it fails with a conflict and no new registry.
\<close>

lemma add_batch_all_or_nothing:
  assumes "omap_inv batch"
  shows "case add_batch batch reg of
      Inr reg' \<Rightarrow>
        (\<forall>(name, val) \<in> set batch. name \<noteq> [] \<and> val \<noteq> None \<and> map_of (entries reg) name = None) \<and>
        (\<forall>name. map_of (entries reg') name =
           (case map_of batch name of Some val \<Rightarrow> val | None \<Rightarrow> map_of (entries reg) name))
    | Inl e \<Rightarrow>
        e = Error Conflict ''Invalid or duplicate registration'' \<and>
        (\<exists>(name, val) \<in> set batch. name = [] \<or> val = None \<or> map_of (entries reg) name \<noteq> None)"
proof (cases "foldM add_batch_step batch (entries reg)")
  case (Inl e)
  have "e = Error Conflict ''Invalid or duplicate registration''"
    using Inl by (rule add_batch_fold_Inl)
  moreover have "\<not> (\<exists>m'. foldM add_batch_step batch (entries reg) = Inr m')" using Inl by simp
  then have "\<exists>(name, val) \<in> set batch. name = [] \<or> val = None \<or> map_of (entries reg) name \<noteq> None"
    unfolding add_batch_fold_Inr [OF omap_inv_distinct [OF assms]] by (fastforce simp: case_prod_beta)
  ultimately show ?thesis using Inl by (simp add: add_batch_def)
next
  case (Inr m')
  then have "\<exists>m'. foldM add_batch_step batch (entries reg) = Inr m'" by blast
  then have "\<forall>(name, val) \<in> set batch. name \<noteq> [] \<and> val \<noteq> None \<and> map_of (entries reg) name = None"
    unfolding add_batch_fold_Inr [OF omap_inv_distinct [OF assms]] .
  moreover have "map_of m' name =
      (case map_of batch name of Some val \<Rightarrow> val | None \<Rightarrow> map_of (entries reg) name)" for name
    using Inr omap_inv_distinct [OF assms] by (rule add_batch_fold_lookup)
  ultimately show ?thesis using Inr by (simp add: add_batch_def)
qed

lemma add_batch_all_or_nothing_example:
  "\<exists>e. add_batch [(''echo'', Some (1::nat)), (''hello'', None)] empty_registry = Inl e \<and>
     e = Error Conflict ''Invalid or duplicate registration''"
proof -
  have "omap_inv [(''echo'', Some (1::nat)), (''hello'', None)]"
    by (simp add: omap_inv_def less_char_def)
  from add_batch_all_or_nothing [OF this, of empty_registry] show ?thesis
    by (simp split: sum.splits)
qed

text \<open>
  A binding that resolves keeps resolving to the same value through any sequence of later
  registrations, so a node never changes its implementation under a running pipeline.
\<close>

lemma resolved_binding_is_stable:
  assumes "get k reg = Inr v" and "foldM (\<lambda>(n, w). add n w) xs reg = Inr reg'"
  shows "get k reg' = Inr v"
  using assms by (rule reg.resolved_stays_all)

lemma resolved_binding_is_stable_example:
  "get ''echo'' \<lparr>entries = [(''echo'', 1::nat), (''hello'', 2)]\<rparr> = Inr 1"
proof -
  have "get ''echo'' \<lparr>entries = [(''echo'', 1::nat)]\<rparr> = Inr 1" by (simp add: get_def)
  moreover have "foldM (\<lambda>(n, w). add n w) [(''hello'', Some 2)] \<lparr>entries = [(''echo'', 1::nat)]\<rparr>
      = Inr \<lparr>entries = [(''echo'', 1::nat), (''hello'', 2)]\<rparr>"
    by (simp add: add_def omap_emplace_def less_char_def)
  ultimately show ?thesis by (rule resolved_binding_is_stable)
qed

end
