(* ===== verification/Laso_Policy.thy ===== *)
theory Laso_Policy
  imports Laso_Prelude "HOL-Library.Multiset"
begin

text \<open>
  \<^verbatim>\<open>include/laso/policies/policy.hpp\<close>: the deployment policy that decides, before a node runs, whether
  it is allowed, denied, or needs a human approval. The rules are scanned in order and a denial
  returns at once; the lemmas show that the decision nevertheless does not depend on the order.
\<close>

datatype policy_decision = Allow | Deny | RequireApproval

record policy_context =
  pc_pipeline_id :: string
  pc_node_id :: string
  pc_resource :: string
  pc_classification :: string
  pc_network :: bool
  pc_remote :: bool
  pc_worker_node :: bool
  pc_approval_required :: bool

record policy_rule =
  pr_resource :: string
  pr_decision :: policy_decision

record policy_engine =
  rules :: "policy_rule list"
  allow_network :: bool
  allow_remote_workers :: "string list"

fun scan_rules :: "policy_rule list \<Rightarrow> string \<Rightarrow> policy_decision \<Rightarrow> policy_decision \<times> string" where
  "scan_rules [] res d =
     (d, if d = RequireApproval then ''Human approval required'' else ''Allowed local operation'')"
| "scan_rules (r # rs) res d =
     (if pr_resource r = res \<or> pr_resource r = ''*'' then
        if pr_decision r = Deny then (Deny, ''Denied by deployment policy'')
        else scan_rules rs res (if pr_decision r = RequireApproval then RequireApproval else d)
      else scan_rules rs res d)"

definition evaluate :: "policy_engine \<Rightarrow> policy_context \<Rightarrow> policy_decision \<times> string" where
  "evaluate p c =
     (let trusted_remote_worker =
        pc_remote c \<and> pc_worker_node c \<and> pc_resource c \<in> set (allow_remote_workers p)
      in if (pc_network c \<or> pc_remote c) \<and> \<not> allow_network p \<and> \<not> trusted_remote_worker
         then (Deny, ''Network access is disabled'')
         else if pc_remote c \<and> \<not> pc_worker_node c \<and> pc_classification c \<noteq> ''public''
         then (Deny, ''Non-public data cannot leave the process through remote models'')
         else scan_rules (rules p) (pc_resource c)
                (if pc_approval_required c then RequireApproval else Allow))"

section \<open>Lemmas\<close>

definition applies :: "policy_rule \<Rightarrow> string \<Rightarrow> bool" where
  "applies r res \<longleftrightarrow> pr_resource r = res \<or> pr_resource r = ''*''"

lemma scan_rules_Deny:
  "d \<noteq> Deny \<Longrightarrow> fst (scan_rules rs res d) = Deny \<longleftrightarrow> (\<exists>r \<in> set rs. applies r res \<and> pr_decision r = Deny)"
  by (induction rs arbitrary: d) (auto simp: applies_def)

lemma scan_rules_RequireApproval:
  "d \<noteq> Deny \<Longrightarrow> fst (scan_rules rs res d) = RequireApproval \<longleftrightarrow>
     (\<forall>r \<in> set rs. applies r res \<longrightarrow> pr_decision r \<noteq> Deny) \<and>
     (d = RequireApproval \<or> (\<exists>r \<in> set rs. applies r res \<and> pr_decision r = RequireApproval))"
  by (induction rs arbitrary: d) (auto simp: applies_def)

lemma scan_rules_reason:
  "d \<noteq> Deny \<Longrightarrow> snd (scan_rules rs res d) =
     (case fst (scan_rules rs res d) of Deny \<Rightarrow> ''Denied by deployment policy''
      | RequireApproval \<Rightarrow> ''Human approval required'' | Allow \<Rightarrow> ''Allowed local operation'')"
  by (induction rs arbitrary: d) (auto split: policy_decision.split)

lemma scan_rules_set_cong:
  assumes "set rs = set rs'" and "d \<noteq> Deny"
  shows "scan_rules rs res d = scan_rules rs' res d"
proof -
  have "fst (scan_rules rs res d) = Deny \<longleftrightarrow> fst (scan_rules rs' res d) = Deny"
    "fst (scan_rules rs res d) = RequireApproval \<longleftrightarrow> fst (scan_rules rs' res d) = RequireApproval"
    using assms by (simp_all add: scan_rules_Deny scan_rules_RequireApproval)
  then have "fst (scan_rules rs res d) = fst (scan_rules rs' res d)"
    by (cases "fst (scan_rules rs res d)"; cases "fst (scan_rules rs' res d)") simp_all
  with scan_rules_reason [OF assms(2)] show ?thesis by (metis prod.collapse)
qed

section \<open>Properties\<close>

text \<open>
  C33: the decision in full. Access is denied exactly when it needs a network that is disabled and
  is not a trusted remote worker, or non-public data would go to a remote model, or an applicable
  rule denies it; approval is required exactly when it is not denied and either the resource or
  an applicable rule asks for it.
\<close>

theorem evaluate_decision:
  "(fst (evaluate p c) = Deny \<longleftrightarrow>
     ((pc_network c \<or> pc_remote c) \<and> \<not> allow_network p \<and>
        \<not> (pc_remote c \<and> pc_worker_node c \<and> pc_resource c \<in> set (allow_remote_workers p))) \<or>
     (pc_remote c \<and> \<not> pc_worker_node c \<and> pc_classification c \<noteq> ''public'') \<or>
     (\<exists>r \<in> set (rules p). applies r (pc_resource c) \<and> pr_decision r = Deny)) \<and>
   (fst (evaluate p c) = RequireApproval \<longleftrightarrow>
     fst (evaluate p c) \<noteq> Deny \<and>
     (pc_approval_required c \<or>
      (\<exists>r \<in> set (rules p). applies r (pc_resource c) \<and> pr_decision r = RequireApproval)))"
proof -
  let ?d = "if pc_approval_required c then RequireApproval else Allow"
  have d: "?d \<noteq> Deny" by simp
  show ?thesis
    unfolding evaluate_def Let_def
    using scan_rules_Deny [OF d, of "rules p" "pc_resource c"]
      scan_rules_RequireApproval [OF d, of "rules p" "pc_resource c"]
    by auto
qed

text \<open>
  The decision and its reason do not depend on the order or on repetitions of the rules,
  although the scan stops at the first denial.
\<close>

lemma evaluate_rule_order_irrelevant:
  assumes "set (rules p) = set (rules p')" and "allow_network p = allow_network p'"
    and "set (allow_remote_workers p) = set (allow_remote_workers p')"
  shows "evaluate p c = evaluate p' c"
proof -
  have "scan_rules (rules p) (pc_resource c) d = scan_rules (rules p') (pc_resource c) d"
    if "d \<noteq> Deny" for d
    using assms(1) that by (rule scan_rules_set_cong)
  then show ?thesis
    using assms(2,3) by (simp add: evaluate_def)
qed

lemma evaluate_rule_order_irrelevant_example:
  "evaluate \<lparr>rules = [\<lparr>pr_resource = ''*'', pr_decision = RequireApproval\<rparr>,
                     \<lparr>pr_resource = ''shell'', pr_decision = Deny\<rparr>],
            allow_network = False, allow_remote_workers = []\<rparr>
     \<lparr>pc_pipeline_id = ''p'', pc_node_id = ''n'', pc_resource = ''shell'', pc_classification = ''public'',
      pc_network = False, pc_remote = False, pc_worker_node = False, pc_approval_required = False\<rparr> =
   evaluate \<lparr>rules = [\<lparr>pr_resource = ''shell'', pr_decision = Deny\<rparr>,
                     \<lparr>pr_resource = ''*'', pr_decision = RequireApproval\<rparr>],
            allow_network = False, allow_remote_workers = []\<rparr>
     \<lparr>pc_pipeline_id = ''p'', pc_node_id = ''n'', pc_resource = ''shell'', pc_classification = ''public'',
      pc_network = False, pc_remote = False, pc_worker_node = False, pc_approval_required = False\<rparr>"
  by (rule evaluate_rule_order_irrelevant) auto

end
