(* ===== verification/Laso_Pipeline.thy ===== *)
theory Laso_Pipeline
  imports Laso_Types
begin

text \<open>
  \<^verbatim>\<open>src/pipeline/parser.cpp\<close>, the part that decides which pipeline graphs are accepted: identifiers,
  versioned references, and \<^verbatim>\<open>validate_pipeline\<close> with its two depth-first searches. The searches
  are recursive closures over a shared map in C++; here the map is threaded through the calls and
  the recursion carries fuel, with \<open>None\<close> for fuel running out. One unit more than the number of
  nodes is enough: \<open>validate_pipeline_returns\<close> below. The lemmas relate the
  searches to the graph: the colour search succeeds exactly on graphs whose unbounded edges have
  no cycle, the reachability search computes the nodes reachable from the input.
\<close>

section \<open>Identifiers and references\<close>

definition is_alnum :: "char \<Rightarrow> bool" where
  "is_alnum c \<longleftrightarrow> (CHR ''A'' \<le> c \<and> c \<le> CHR ''Z'') \<or> (CHR ''a'' \<le> c \<and> c \<le> CHR ''z'') \<or>
     (CHR ''0'' \<le> c \<and> c \<le> CHR ''9'')"

definition is_identifier :: "string \<Rightarrow> bool" where
  "is_identifier s \<longleftrightarrow>
     (case s of
        [] \<Rightarrow> False
      | c # cs \<Rightarrow> is_alnum c \<and> length cs \<le> 127 \<and>
          list_all (\<lambda>d. is_alnum d \<or> d = CHR ''_'' \<or> d = CHR ''.'' \<or> d = CHR ''-'') cs)"

definition is_digit :: "char \<Rightarrow> bool" where
  "is_digit c \<longleftrightarrow> CHR ''0'' \<le> c \<and> c \<le> CHR ''9''"

definition digit_value :: "char \<Rightarrow> nat" where
  "digit_value c = of_char c - 48"

fun digits_value :: "nat \<Rightarrow> string \<Rightarrow> nat" where
  "digits_value acc [] = acc"
| "digits_value acc (c # cs) = digits_value (10 * acc + digit_value c) cs"

definition is_space :: "char \<Rightarrow> bool" where
  "is_space c \<longleftrightarrow> c = CHR '' '' \<or> (9 \<le> (of_char c :: nat) \<and> (of_char c :: nat) \<le> 13)"

text \<open>
  \<^verbatim>\<open>std::stoul\<close>: leading blanks, an optional sign, decimal digits; the value and the number of
  characters consumed, or no result where the function throws. A negated value wraps.
\<close>

definition stoul :: "string \<Rightarrow> (nat \<times> nat) option" where
  "stoul s =
     (let blanks = length (takeWhile is_space s);
          s1 = dropWhile is_space s;
          negative = (case s1 of [] \<Rightarrow> False | c # _ \<Rightarrow> c = CHR ''-'');
          signed = (case s1 of [] \<Rightarrow> False | c # _ \<Rightarrow> c = CHR ''-'' \<or> c = CHR ''+'');
          s2 = (if signed then tl s1 else s1);
          digits = takeWhile is_digit s2;
          v = digits_value 0 digits
      in if digits = [] \<or> v \<ge> 2 ^ 64 then None
         else Some (if negative then (2 ^ 64 - v) mod 2 ^ 64 else v,
                    blanks + (if signed then 1 else 0) + length digits))"

record pipeline_ref =
  ref_name :: string
  ref_version :: u32
  ref_versioned :: bool

definition parse_pipeline_reference :: "string \<Rightarrow> pipeline_ref result" where
  "parse_pipeline_reference text =
     (let before = takeWhile (\<lambda>c. c \<noteq> CHR ''@'') text;
          after = dropWhile (\<lambda>c. c \<noteq> CHR ''@'') text
      in case after of
           [] \<Rightarrow>
             if \<not> is_identifier text then throw Validation ''Invalid pipeline reference''
             else Inr \<lparr>ref_name = text, ref_version = 0, ref_versioned = False\<rparr>
         | _ # digits \<Rightarrow>
             if before = [] \<or> digits = [] \<or> CHR ''@'' \<in> set digits \<or> \<not> is_identifier before
             then throw Validation ''Invalid versioned pipeline reference''
             else (case stoul digits of
                 None \<Rightarrow> throw Validation ''Invalid pipeline reference version''
               | Some (parsed, end) \<Rightarrow>
                   if end \<noteq> length digits \<or> parsed = 0 \<or> parsed > 1000000
                   then throw Validation ''Invalid pipeline reference version''
                   else Inr \<lparr>ref_name = before, ref_version = of_nat parsed, ref_versioned = True\<rparr>))"

fun decimal :: "nat \<Rightarrow> string" where
  "decimal n = (if n < 10 then [char_of (48 + n)] else decimal (n div 10) @ [char_of (48 + n mod 10)])"

declare decimal.simps [simp del]

definition pipeline_reference :: "string \<Rightarrow> u32 \<Rightarrow> string" where
  "pipeline_reference name version = name @ ''@'' @ decimal (unat version)"

section \<open>Validation of one pipeline\<close>

definition node_types :: "string list" where
  "node_types = [''input'', ''output'', ''function'', ''agent'', ''tool'', ''router'', ''validator'',
     ''approval'', ''parallel'', ''join'', ''loop'', ''subpipeline'', ''worker'']"

definition check_shape :: "pipeline_definition \<Rightarrow> unit result" where
  "check_shape p =
     (if pl_schema_version p \<noteq> 1 \<or> pl_version p = 0 \<or> pl_max_steps p = 0 \<or> pl_max_steps p > 100000 \<or>
         \<not> omap_contains (pl_nodes p) ''input'' \<or> \<not> omap_contains (pl_nodes p) ''output'' \<or>
         \<not> is_identifier (pl_name p) \<or> length (pl_nodes p) > 256 \<or> length (pl_edges p) > 1024
      then throw Validation ''Invalid pipeline name or graph size''
      else if map_option n_type (map_of (pl_nodes p) ''input'') \<noteq> Some ''input'' \<or>
              map_option n_type (map_of (pl_nodes p) ''output'') \<noteq> Some ''output''
      then throw Validation ''Reserved boundary nodes have incorrect types''
      else Inr ())"

definition check_node :: "pipeline_definition \<Rightarrow> string list \<Rightarrow> string \<times> node_definition \<Rightarrow> unit result" where
  "check_node p extensions entry =
     (let nid = fst entry; n = snd entry
      in if (n_type n = ''input'' \<and> nid \<noteq> ''input'') \<or> (n_type n = ''output'' \<and> nid \<noteq> ''output'')
         then throw Validation ''Input/output types are reserved for boundary nodes''
         else if \<not> is_identifier nid \<or> (n_type n \<notin> set node_types \<and> n_type n \<notin> set extensions)
         then throw Validation ''Invalid node ID or unknown type''
         else if (n_type n = ''tool'' \<or> n_type n = ''function'' \<or> n_type n = ''agent'') \<and>
                 \<not> is_identifier (n_binding n)
         then throw Validation ''A logical binding is required''
         else if n_type n = ''worker'' \<and> n_binding n = [] \<and> n_capability n = []
         then throw Validation ''Worker requires a binding or capability''
         else if n_type n = ''worker'' \<and> (n_binding n \<noteq> [] \<and> \<not> is_identifier (n_binding n))
         then throw Validation ''Invalid worker binding''
         else if n_type n = ''worker'' \<and> length (n_capability n) > 128
         then throw Validation ''Invalid worker capability''
         else if n_required_tool n \<noteq> [] \<and> (n_required_tool n \<noteq> ''laso.browser_status'' \<or>
                 n_type n \<noteq> ''worker'' \<or> n_capability n \<noteq> ''coding-agent'')
         then throw Validation ''Unsupported required worker tool''
         else rbind (if n_type n = ''subpipeline''
                     then rbind (parse_pipeline_reference (n_binding n)) (\<lambda>_. Inr ())
                     else Inr ()) (\<lambda>_.
           if n_type n = ''loop'' \<and> n_max_iterations n = 0
           then throw Validation ''Loop requires max_iterations''
           else if n_type n = ''parallel'' \<and>
                   map_option n_type (map_of (pl_nodes p) (n_join n)) \<noteq> Some ''join''
           then throw Validation ''Parallel node requires an existing join node''
           else if (n_type n = ''router'' \<or> n_type n = ''validator'') \<and> n_field n = [] \<and>
                   (n_type n \<noteq> ''validator'' \<or> n_schema n = [])
           then throw Validation ''Router/validator requires a top-level field''
           else Inr ()))"

definition check_acceptance :: "pipeline_definition \<Rightarrow> unit result" where
  "check_acceptance p =
     (if pl_name p = ''codex-full-system'' \<and> pl_version p \<ge> 2 then
        (case map_of (pl_nodes p) ''agent_three'' of
           None \<Rightarrow> throw Validation ''Full-system acceptance requires agent_three browser status evidence''
         | Some agent \<Rightarrow>
             if n_type agent \<noteq> ''worker'' \<or> n_binding agent \<noteq> ''codex_agent_three'' \<or>
                n_required_tool agent \<noteq> ''laso.browser_status''
             then throw Validation ''Full-system acceptance requires agent_three browser status evidence''
             else Inr ())
      else Inr ())"

definition check_edge ::
  "pipeline_definition \<Rightarrow> edge_definition \<Rightarrow> (string \<times> string) list \<Rightarrow> (string \<times> string) list result" where
  "check_edge p e paths =
     (if \<not> is_identifier (e_from e) \<or> \<not> is_identifier (e_to e) \<or> \<not> omap_contains (pl_nodes p) (e_from e) \<or>
         \<not> omap_contains (pl_nodes p) (e_to e) \<or> e_to e = ''input'' \<or> e_from e = ''output''
      then throw Validation ''Invalid edge reference''
      else if e_condition e \<noteq> [] \<and> e_condition e \<noteq> ''accepted'' \<and> e_condition e \<noteq> ''rejected'' \<and>
              e_condition e \<noteq> ''repeat'' \<and> e_condition e \<noteq> ''done''
      then throw Validation ''Unsupported edge condition''
      else if (e_from e, e_to e) \<in> set paths
      then throw Validation ''Duplicate edge''
      else Inr ((e_from e, e_to e) # paths))"

text \<open>The map \<^verbatim>\<open>outgoing\<close> lists, for each node, its edges in the order of the definition.\<close>

definition outgoing :: "pipeline_definition \<Rightarrow> string \<Rightarrow> edge_definition list" where
  "outgoing p nid = filter (\<lambda>e. e_from e = nid) (pl_edges p)"

definition check_routing :: "pipeline_definition \<Rightarrow> string \<times> node_definition \<Rightarrow> unit result" where
  "check_routing p entry =
     (let nid = fst entry; n = snd entry; edges = outgoing p nid
      in if nid = ''output'' then Inr ()
         else if edges = [] then throw Validation ''Every non-output node needs an edge''
         else if n_type n = ''parallel'' then
           (if length edges < 2 \<or> length edges > 16
            then throw Validation ''Parallel requires 2..16 branches''
            else if \<exists>e \<in> set edges. e_condition e \<noteq> []
            then throw Validation ''Parallel edges must be unconditional''
            else Inr ())
         else if n_type n = ''router'' \<or> n_type n = ''validator'' \<or> n_type n = ''loop'' then
           (if set (map e_condition edges) \<noteq>
                 (if n_type n = ''loop'' then {''repeat'', ''done''} else {''accepted'', ''rejected''}) \<or>
               length edges \<noteq> 2
            then throw Validation ''Conditional nodes require exactly two named branches''
            else Inr ())
         else if length edges \<noteq> 1 \<or> e_condition (hd edges) \<noteq> []
         then throw Validation ''Ambiguous outgoing edges''
         else Inr ())"

section \<open>The two searches\<close>

datatype color = White | Gray | Black

text \<open>A fold whose steps may run out of fuel (\<open>None\<close>) or throw.\<close>

fun ofoldM :: "('a \<Rightarrow> 's \<Rightarrow> 's result option) \<Rightarrow> 'a list \<Rightarrow> 's \<Rightarrow> 's result option" where
  "ofoldM f [] s = Some (Inr s)"
| "ofoldM f (x # xs) s =
     (case f x s of
        None \<Rightarrow> None
      | Some (Inl e) \<Rightarrow> Some (Inl e)
      | Some (Inr s') \<Rightarrow> ofoldM f xs s')"

fun visit :: "nat \<Rightarrow> pipeline_definition \<Rightarrow> string \<Rightarrow> (string \<Rightarrow> color) \<Rightarrow> (string \<Rightarrow> color) result option" where
  "visit 0 p nid colors = None"
| "visit (Suc fuel) p nid colors =
     (if colors nid = Gray then Some (throw Validation ''Cycle has no bounded edge'')
      else if colors nid = Black then Some (Inr colors)
      else case ofoldM (\<lambda>e cs. if e_max_iterations e = 0 then visit fuel p (e_to e) cs else Some (Inr cs))
                  (outgoing p nid) (colors(nid := Gray)) of
             None \<Rightarrow> None
           | Some (Inl err) \<Rightarrow> Some (Inl err)
           | Some (Inr colors') \<Rightarrow> Some (Inr (colors'(nid := Black))))"

fun reach :: "nat \<Rightarrow> pipeline_definition \<Rightarrow> string \<Rightarrow> string list \<Rightarrow> string list result option" where
  "reach 0 p nid reachable = None"
| "reach (Suc fuel) p nid reachable =
     (if nid \<in> set reachable then Some (Inr reachable)
      else ofoldM (\<lambda>e r. reach fuel p (e_to e) r) (outgoing p nid) (nid # reachable))"

definition search_fuel :: "pipeline_definition \<Rightarrow> nat" where
  "search_fuel p = length (pl_nodes p) + 1"

definition check_cycles :: "pipeline_definition \<Rightarrow> unit result option" where
  "check_cycles p =
     (case ofoldM (\<lambda>entry cs. visit (search_fuel p) p (fst entry) cs) (pl_nodes p) (\<lambda>_. White) of
        None \<Rightarrow> None
      | Some (Inl e) \<Rightarrow> Some (Inl e)
      | Some (Inr _) \<Rightarrow> Some (Inr ()))"

definition check_reachable :: "pipeline_definition \<Rightarrow> unit result option" where
  "check_reachable p =
     (case reach (search_fuel p) p ''input'' [] of
        None \<Rightarrow> None
      | Some (Inl e) \<Rightarrow> Some (Inl e)
      | Some (Inr r) \<Rightarrow>
          if length r \<noteq> length (pl_nodes p) then Some (throw Validation ''Unreachable node'')
          else Some (Inr ()))"

definition check_static :: "pipeline_definition \<Rightarrow> string list \<Rightarrow> unit result" where
  "check_static p extensions =
     rbind (check_shape p) (\<lambda>_.
     rbind (forM (pl_nodes p) (check_node p extensions)) (\<lambda>_.
     rbind (check_acceptance p) (\<lambda>_.
     rbind (foldM (check_edge p) (pl_edges p) []) (\<lambda>_.
     forM (pl_nodes p) (check_routing p)))))"

definition validate_pipeline :: "pipeline_definition \<Rightarrow> string list \<Rightarrow> unit result option" where
  "validate_pipeline p extensions =
     (case check_static p extensions of
        Inl e \<Rightarrow> Some (Inl e)
      | Inr _ \<Rightarrow>
          (case check_cycles p of
             None \<Rightarrow> None
           | Some (Inl e) \<Rightarrow> Some (Inl e)
           | Some (Inr _) \<Rightarrow> check_reachable p))"

section \<open>The graph of a pipeline\<close>

definition node_ids :: "pipeline_definition \<Rightarrow> string set" where
  "node_ids p = fst ` set (pl_nodes p)"

definition edge_rel :: "pipeline_definition \<Rightarrow> (string \<times> string) set" where
  "edge_rel p = {(e_from e, e_to e) | e. e \<in> set (pl_edges p)}"

definition unbounded :: "pipeline_definition \<Rightarrow> (string \<times> string) set" where
  "unbounded p = {(e_from e, e_to e) | e. e \<in> set (pl_edges p) \<and> e_max_iterations e = 0}"

definition edges_closed :: "pipeline_definition \<Rightarrow> bool" where
  "edges_closed p \<longleftrightarrow> edge_rel p \<subseteq> node_ids p \<times> node_ids p"

lemma finite_node_ids [simp]: "finite (node_ids p)"
  by (simp add: node_ids_def)

lemma unbounded_edge: "unbounded p \<subseteq> edge_rel p"
  by (auto simp: unbounded_def edge_rel_def)

lemma finite_unbounded_succ: "finite {y. (x, y) \<in> unbounded p}"
proof -
  have "{y. (x, y) \<in> unbounded p} \<subseteq> e_to ` set (pl_edges p)" by (auto simp: unbounded_def)
  then show ?thesis by (rule finite_subset) simp
qed

lemma outgoing_edge: "e \<in> set (outgoing p x) \<Longrightarrow> (x, e_to e) \<in> edge_rel p"
  by (auto simp: outgoing_def edge_rel_def)

lemma edge_outgoing: "(x, y) \<in> edge_rel p \<Longrightarrow> \<exists>e \<in> set (outgoing p x). e_to e = y"
  by (auto simp: outgoing_def edge_rel_def)

lemma unbounded_outgoing:
  "(x, y) \<in> unbounded p \<longleftrightarrow> (\<exists>e \<in> set (outgoing p x). e_max_iterations e = 0 \<and> e_to e = y)"
  by (auto simp: outgoing_def unbounded_def)

section \<open>Rules for the fuelled fold\<close>

lemma ofoldM_ConsE:
  assumes "ofoldM f (x # xs) s = Some (Inr t)"
  obtains s' where "f x s = Some (Inr s')" and "ofoldM f xs s' = Some (Inr t)"
  using assms by (auto split: option.splits sum.splits)

lemma ofoldM_keeps:
  assumes "ofoldM f xs s = Some (Inr t)" and "P s"
    and step: "\<And>x s s'. x \<in> set xs \<Longrightarrow> P s \<Longrightarrow> f x s = Some (Inr s') \<Longrightarrow> P s'"
  shows "P t"
  using assms
proof (induction xs arbitrary: s)
  case Nil
  then show ?case by simp
next
  case (Cons x xs)
  from Cons.prems(1) obtain s' where s': "f x s = Some (Inr s')" "ofoldM f xs s' = Some (Inr t)"
    by (rule ofoldM_ConsE)
  have "P s'" using Cons.prems(3) [of x s s'] Cons.prems(2) s'(1) by simp
  with s'(2) show ?case
  proof (rule Cons.IH)
    fix y u u'
    assume "y \<in> set xs" and "P u" and "f y u = Some (Inr u')"
    then show "P u'" using Cons.prems(3) [of y u u'] by simp
  qed
qed

lemma ofoldM_rule:
  assumes "ofoldM f xs s = Some (Inr t)" and "P s"
    and "\<And>x s s'. x \<in> set xs \<Longrightarrow> P s \<Longrightarrow> f x s = Some (Inr s') \<Longrightarrow> P s' \<and> Q x s'"
    and "\<And>x y s s'. y \<in> set xs \<Longrightarrow> P s \<Longrightarrow> Q x s \<Longrightarrow> f y s = Some (Inr s') \<Longrightarrow> Q x s'"
  shows "P t \<and> (\<forall>x \<in> set xs. Q x t)"
  using assms
proof (induction xs arbitrary: s)
  case Nil
  from Nil.prems(1,2) show ?case by simp
next
  case (Cons x xs)
  from Cons.prems(1) obtain s' where s': "f x s = Some (Inr s')" "ofoldM f xs s' = Some (Inr t)"
    by (rule ofoldM_ConsE)
  have step: "P s'" "Q x s'" using Cons.prems(3) [OF _ Cons.prems(2) s'(1)] by simp_all
  have "P t \<and> (\<forall>x \<in> set xs. Q x t)"
  proof (rule Cons.IH [OF s'(2) step(1)])
    fix y u u'
    assume "y \<in> set xs" and "P u" and "f y u = Some (Inr u')"
    then show "P u' \<and> Q y u'" using Cons.prems(3) [of y u u'] by simp
  next
    fix z y u u'
    assume "y \<in> set xs" and "P u" and "Q z u" and "f y u = Some (Inr u')"
    then show "Q z u'" using Cons.prems(4) [of y u z u'] by simp
  qed
  moreover have "P t \<and> Q x t"
  proof (rule ofoldM_keeps [OF s'(2), where P = "\<lambda>s. P s \<and> Q x s"])
    show "P s' \<and> Q x s'" using step by simp
    fix y u u'
    assume y: "y \<in> set xs" and u: "P u \<and> Q x u" and "f y u = Some (Inr u')"
    then show "P u' \<and> Q x u'"
      using Cons.prems(3) [of y u u'] Cons.prems(4) [of y u x u'] by simp
  qed
  ultimately show ?case by simp
qed

lemma ofoldM_error:
  assumes "ofoldM f xs s = Some (Inl e)" and "P s"
    and "\<And>x s s'. x \<in> set xs \<Longrightarrow> P s \<Longrightarrow> f x s = Some (Inr s') \<Longrightarrow> P s'"
  shows "\<exists>x \<in> set xs. \<exists>s'. P s' \<and> f x s' = Some (Inl e)"
  using assms
proof (induction xs arbitrary: s)
  case Nil
  then show ?case by simp
next
  case (Cons x xs)
  show ?case
  proof (cases "f x s = Some (Inl e)")
    case True
    with Cons.prems(2) show ?thesis by auto
  next
    case False
    with Cons.prems(1) obtain s' where s': "f x s = Some (Inr s')" "ofoldM f xs s' = Some (Inl e)"
      by (auto split: option.splits sum.splits)
    have "P s'" using Cons.prems(3) [of x s s'] Cons.prems(2) s'(1) by simp
    with s'(2) have "\<exists>x \<in> set xs. \<exists>s'. P s' \<and> f x s' = Some (Inl e)"
      by (rule Cons.IH) (rule Cons.prems(3), simp_all)
    then show ?thesis by simp
  qed
qed

lemma ofoldM_returns:
  assumes "P s" and "\<And>x s. x \<in> set xs \<Longrightarrow> P s \<Longrightarrow> f x s \<noteq> None"
    and "\<And>x s s'. x \<in> set xs \<Longrightarrow> P s \<Longrightarrow> f x s = Some (Inr s') \<Longrightarrow> P s'"
  shows "ofoldM f xs s \<noteq> None"
  using assms
proof (induction xs arbitrary: s)
  case Nil
  then show ?case by simp
next
  case (Cons x xs)
  obtain r where r: "f x s = Some r" using Cons.prems(2) [of x s] Cons.prems(1) by auto
  show ?case
  proof (cases r)
    case (Inl e)
    with r show ?thesis by simp
  next
    case (Inr s')
    have "P s'" using Cons.prems(3) [of x s s'] Cons.prems(1) r Inr by simp
    then have "ofoldM f xs s' \<noteq> None"
    proof (rule Cons.IH)
      fix y u
      assume "y \<in> set xs" and "P u"
      then show "f y u \<noteq> None" using Cons.prems(2) [of y u] by simp
    next
      fix y u u'
      assume "y \<in> set xs" and "P u" and "f y u = Some (Inr u')"
      then show "P u'" using Cons.prems(3) [of y u u'] by simp
    qed
    with r Inr show ?thesis by simp
  qed
qed

section \<open>The cycle search\<close>

text \<open>
  The finished nodes are closed under unbounded edges and can be numbered so that every unbounded
  edge goes down. Colouring a node black keeps this when all of its successors are black.
\<close>

definition ranked :: "pipeline_definition \<Rightarrow> (string \<Rightarrow> color) \<Rightarrow> bool" where
  "ranked p c \<longleftrightarrow> (\<exists>rank :: string \<Rightarrow> nat. \<forall>x y. c x = Black \<longrightarrow> (x, y) \<in> unbounded p \<longrightarrow>
     c y = Black \<and> rank y < rank x)"

lemma ranked_finish:
  assumes "ranked p c" and "c x \<noteq> Black" and "\<And>y. (x, y) \<in> unbounded p \<Longrightarrow> c y = Black"
  shows "ranked p (c(x := Black))"
proof -
  from assms(1) obtain rank :: "string \<Rightarrow> nat"
    where rank: "\<And>u v. c u = Black \<Longrightarrow> (u, v) \<in> unbounded p \<Longrightarrow> c v = Black \<and> rank v < rank u"
    unfolding ranked_def by blast
  define top where "top = Suc (Max (insert 0 (rank ` {y. (x, y) \<in> unbounded p})))"
  have top: "(x, y) \<in> unbounded p \<Longrightarrow> rank y < top" for y
    unfolding top_def by (rule le_imp_less_Suc, rule Max_ge) (auto simp: finite_unbounded_succ)
  have "\<forall>u v. (c(x := Black)) u = Black \<longrightarrow> (u, v) \<in> unbounded p \<longrightarrow>
      (c(x := Black)) v = Black \<and> (rank(x := top)) v < (rank(x := top)) u"
  proof (intro allI impI)
    fix u v
    assume u: "(c(x := Black)) u = Black" and uv: "(u, v) \<in> unbounded p"
    have v: "c v = Black" using u uv rank assms(3) by (cases "u = x") auto
    then have "v \<noteq> x" using assms(2) by auto
    with v u uv rank top show "(c(x := Black)) v = Black \<and> (rank(x := top)) v < (rank(x := top)) u"
      by (cases "u = x") auto
  qed
  then show ?thesis unfolding ranked_def by blast
qed

definition extends :: "pipeline_definition \<Rightarrow> (string \<Rightarrow> color) \<Rightarrow> (string \<Rightarrow> color) \<Rightarrow> bool" where
  "extends p c c' \<longleftrightarrow> ranked p c' \<and> (\<forall>x. c x = Black \<longrightarrow> c' x = Black) \<and>
     (\<forall>x. c' x = Gray \<longleftrightarrow> c x = Gray)"

lemma extends_refl: "ranked p c \<Longrightarrow> extends p c c"
  by (simp add: extends_def)

lemma extends_trans: "extends p a b \<Longrightarrow> extends p b c \<Longrightarrow> extends p a c"
  by (simp add: extends_def)

lemma visit_extends:
  "visit fuel p x c = Some (Inr c') \<Longrightarrow> ranked p c \<Longrightarrow> extends p c c' \<and> c' x = Black"
proof (induction fuel arbitrary: x c c')
  case 0
  then show ?case by simp
next
  case (Suc fuel)
  let ?f = "\<lambda>e cs. if e_max_iterations e = 0 then visit fuel p (e_to e) cs else Some (Inr cs)"
  let ?c1 = "c(x := Gray)"
  show ?case
  proof (cases "c x")
    case White
    with Suc.prems(1) obtain c2 where fold: "ofoldM ?f (outgoing p x) ?c1 = Some (Inr c2)"
      and c': "c' = c2(x := Black)"
      by (auto split: option.splits sum.splits)
    have r1: "ranked p ?c1"
      using Suc.prems(2) White unfolding ranked_def by (metis color.distinct(3,5) fun_upd_apply)
    have "extends p ?c1 c2 \<and> (\<forall>e \<in> set (outgoing p x). e_max_iterations e = 0 \<longrightarrow> c2 (e_to e) = Black)"
    proof (rule ofoldM_rule [OF fold, where P = "extends p ?c1"
          and Q = "\<lambda>e cs. e_max_iterations e = 0 \<longrightarrow> cs (e_to e) = Black"])
      show "extends p ?c1 ?c1" using r1 by (rule extends_refl)
      fix e s s'
      assume "extends p ?c1 s" and "?f e s = Some (Inr s')"
      then show "extends p ?c1 s' \<and> (e_max_iterations e = 0 \<longrightarrow> s' (e_to e) = Black)"
        using Suc.IH [of "e_to e" s s'] extends_trans by (auto simp: extends_def split: if_splits)
    next
      fix e e' s s'
      assume "extends p ?c1 s" and "e_max_iterations e = 0 \<longrightarrow> s (e_to e) = Black"
        and "?f e' s = Some (Inr s')"
      then show "e_max_iterations e = 0 \<longrightarrow> s' (e_to e) = Black"
        using Suc.IH [of "e_to e'" s s'] by (auto simp: extends_def split: if_splits)
    qed
    then have ext: "extends p ?c1 c2" and succ: "\<And>y. (x, y) \<in> unbounded p \<Longrightarrow> c2 y = Black"
      by (auto simp: unbounded_outgoing)
    have gray: "c2 x = Gray" using ext by (simp add: extends_def)
    have "ranked p c'"
      unfolding c'
    proof (rule ranked_finish)
      show "ranked p c2" using ext by (simp add: extends_def)
      show "c2 x \<noteq> Black" using gray by simp
      show "\<And>y. (x, y) \<in> unbounded p \<Longrightarrow> c2 y = Black" by (rule succ)
    qed
    moreover have "(\<forall>y. c y = Black \<longrightarrow> c' y = Black) \<and> (\<forall>y. c' y = Gray \<longleftrightarrow> c y = Gray)"
      using ext White by (auto simp: c' extends_def)
    moreover have "c' x = Black" by (simp add: c')
    ultimately show ?thesis unfolding extends_def by blast
  next
    case Gray
    with Suc.prems show ?thesis by simp
  next
    case Black
    with Suc.prems show ?thesis by (simp add: extends_def)
  qed
qed

text \<open>A rejection has a reason: an unbounded cycle through the node that is still open.\<close>

lemma visit_rejects:
  "visit fuel p x c = Some (Inl e) \<Longrightarrow> ranked p c \<Longrightarrow>
     (\<And>g. c g = Gray \<Longrightarrow> (g, x) \<in> (unbounded p)\<^sup>+) \<Longrightarrow> \<exists>y. (y, y) \<in> (unbounded p)\<^sup>+"
proof (induction fuel arbitrary: x c)
  case 0
  then show ?case by simp
next
  case (Suc fuel)
  let ?f = "\<lambda>e cs. if e_max_iterations e = 0 then visit fuel p (e_to e) cs else Some (Inr cs)"
  let ?c1 = "c(x := Gray)"
  show ?case
  proof (cases "c x")
    case White
    with Suc.prems(1) have fold: "ofoldM ?f (outgoing p x) ?c1 = Some (Inl e)"
      by (auto split: option.splits sum.splits)
    have r1: "ranked p ?c1"
      using Suc.prems(2) White unfolding ranked_def by (metis color.distinct(3,5) fun_upd_apply)
    have "\<exists>d \<in> set (outgoing p x). \<exists>s. extends p ?c1 s \<and> ?f d s = Some (Inl e)"
    proof (rule ofoldM_error [OF fold])
      show "extends p ?c1 ?c1" using r1 by (rule extends_refl)
      fix d s s'
      assume "extends p ?c1 s" and "?f d s = Some (Inr s')"
      then show "extends p ?c1 s'"
        using visit_extends [of fuel p "e_to d" s s'] extends_trans
        by (auto simp: extends_def split: if_splits)
    qed
    then obtain d s where d: "d \<in> set (outgoing p x)" "e_max_iterations d = 0"
      and s: "extends p ?c1 s" "visit fuel p (e_to d) s = Some (Inl e)"
      by (auto split: if_splits)
    have edge: "(x, e_to d) \<in> unbounded p" using d unbounded_outgoing by blast
    have "(g, e_to d) \<in> (unbounded p)\<^sup>+" if "s g = Gray" for g
    proof (cases "g = x")
      case True
      with edge show ?thesis by auto
    next
      case False
      with that s(1) have "c g = Gray" by (auto simp: extends_def split: if_splits)
      with Suc.prems(3) edge show ?thesis by (meson trancl_into_trancl)
    qed
    with Suc.IH [OF s(2)] s(1) show ?thesis by (simp add: extends_def)
  next
    case Gray
    with Suc.prems show ?thesis by blast
  next
    case Black
    with Suc.prems show ?thesis by simp
  qed
qed

lemma visit_returns:
  assumes "edges_closed p"
  shows "x \<in> node_ids p \<Longrightarrow> ranked p c \<Longrightarrow> card {y \<in> node_ids p. c y \<noteq> Gray} < fuel \<Longrightarrow>
    visit fuel p x c \<noteq> None"
proof (induction fuel arbitrary: x c)
  case 0
  then show ?case by simp
next
  case (Suc fuel)
  let ?f = "\<lambda>e cs. if e_max_iterations e = 0 then visit fuel p (e_to e) cs else Some (Inr cs)"
  let ?c1 = "c(x := Gray)"
  show ?case
  proof (cases "c x = White")
    case False
    then show ?thesis by (cases "c x") simp_all
  next
    case True
    have sub: "{y \<in> node_ids p. ?c1 y \<noteq> Gray} = {y \<in> node_ids p. c y \<noteq> Gray} - {x}" by auto
    have "x \<in> {y \<in> node_ids p. c y \<noteq> Gray}" using Suc.prems(1) True by simp
    then have less: "card {y \<in> node_ids p. ?c1 y \<noteq> Gray} < fuel"
      unfolding sub using Suc.prems(3) card_Diff1_less [of "{y \<in> node_ids p. c y \<noteq> Gray}" x]
      by fastforce
    have r1: "ranked p ?c1"
      using Suc.prems(2) True unfolding ranked_def by (metis color.distinct(3,5) fun_upd_apply)
    have "ofoldM ?f (outgoing p x) ?c1 \<noteq> None"
    proof (rule ofoldM_returns [where P = "extends p ?c1"])
      show "extends p ?c1 ?c1" using r1 by (rule extends_refl)
      fix e s
      assume e: "e \<in> set (outgoing p x)" and s: "extends p ?c1 s"
      have "e_to e \<in> node_ids p"
        using outgoing_edge [OF e] assms by (auto simp: edges_closed_def)
      moreover have "{y \<in> node_ids p. s y \<noteq> Gray} = {y \<in> node_ids p. ?c1 y \<noteq> Gray}"
        using s by (auto simp: extends_def)
      ultimately show "?f e s \<noteq> None"
        using Suc.IH [of "e_to e" s] s less by (simp add: extends_def)
    next
      fix e s s'
      assume s: "extends p ?c1 s" and "?f e s = Some (Inr s')"
      then show "extends p ?c1 s'"
        using s visit_extends [of fuel p "e_to e" s s'] extends_trans
        by (auto simp: extends_def split: if_splits)
    qed
    with True show ?thesis by (auto split: option.splits sum.splits)
  qed
qed

section \<open>The reachability search\<close>

lemma reach_no_error: "reach fuel p x r \<noteq> Some (Inl e)"
proof (induction fuel arbitrary: x r)
  case 0
  then show ?case by simp
next
  case (Suc fuel)
  have "ofoldM (\<lambda>e r. reach fuel p (e_to e) r) es s \<noteq> Some (Inl e)" for es :: "edge_definition list" and s
    using ofoldM_error [where P = "\<lambda>_. True" and e = e and xs = es and s = s] Suc.IH by blast
  then show ?case by simp
qed

definition explored :: "pipeline_definition \<Rightarrow> string list \<Rightarrow> string list \<Rightarrow> bool" where
  "explored p r r' \<longleftrightarrow> set r \<subseteq> set r' \<and> (distinct r \<longrightarrow> distinct r') \<and>
     (\<forall>x \<in> set r' - set r. \<forall>y. (x, y) \<in> edge_rel p \<longrightarrow> y \<in> set r')"

lemma explored_trans: "explored p a b \<Longrightarrow> explored p b c \<Longrightarrow> explored p a c"
  unfolding explored_def by blast

lemma reach_explored:
  "reach fuel p x r = Some (Inr r') \<Longrightarrow>
     explored p r r' \<and> x \<in> set r' \<and> set r' \<subseteq> set r \<union> {y. (x, y) \<in> (edge_rel p)\<^sup>*}"
proof (induction fuel arbitrary: x r r')
  case 0
  then show ?case by simp
next
  case (Suc fuel)
  show ?case
  proof (cases "x \<in> set r")
    case True
    with Suc.prems show ?thesis by (auto simp: explored_def)
  next
    case False
    define P where "P s \<longleftrightarrow> set (x # r) \<subseteq> set s \<and> (distinct (x # r) \<longrightarrow> distinct s) \<and>
      (\<forall>u \<in> set s - set (x # r). \<forall>y. (u, y) \<in> edge_rel p \<longrightarrow> y \<in> set s) \<and>
      set s \<subseteq> set r \<union> {y. (x, y) \<in> (edge_rel p)\<^sup>*}" for s
    from Suc.prems False
    have fold: "ofoldM (\<lambda>e r. reach fuel p (e_to e) r) (outgoing p x) (x # r) = Some (Inr r')" by simp
    have "P r' \<and> (\<forall>e \<in> set (outgoing p x). e_to e \<in> set r')"
    proof (rule ofoldM_rule [OF fold, where Q = "\<lambda>e s. e_to e \<in> set s"])
      show "P (x # r)" by (auto simp: P_def)
    next
      fix e s s'
      assume e: "e \<in> set (outgoing p x)" and s: "P s" and step: "reach fuel p (e_to e) s = Some (Inr s')"
      from Suc.IH [OF step] have ih: "explored p s s'" "e_to e \<in> set s'"
        "set s' \<subseteq> set s \<union> {y. (e_to e, y) \<in> (edge_rel p)\<^sup>*}" by simp_all
      have "{y. (e_to e, y) \<in> (edge_rel p)\<^sup>*} \<subseteq> {y. (x, y) \<in> (edge_rel p)\<^sup>*}"
        using outgoing_edge [OF e] by (auto intro: converse_rtrancl_into_rtrancl)
      with ih(3) s have upper: "set s' \<subseteq> set r \<union> {y. (x, y) \<in> (edge_rel p)\<^sup>*}" unfolding P_def by blast
      have "y \<in> set s'" if "u \<in> set s' - set (x # r)" "(u, y) \<in> edge_rel p" for u y
      proof (cases "u \<in> set s")
        case True
        with that s have "y \<in> set s" unfolding P_def by blast
        with ih(1) show ?thesis unfolding explored_def by blast
      next
        case False
        with that ih(1) show ?thesis unfolding explored_def by blast
      qed
      moreover have "set (x # r) \<subseteq> set s'" "distinct (x # r) \<longrightarrow> distinct s'"
        using ih(1) s unfolding P_def explored_def by blast+
      ultimately show "P s' \<and> e_to e \<in> set s'" using upper ih(2) unfolding P_def by blast
    next
      fix e d s s'
      assume "e_to e \<in> set s" and step: "reach fuel p (e_to d) s = Some (Inr s')"
      then show "e_to e \<in> set s'" using Suc.IH [OF step] by (auto simp: explored_def)
    qed
    then have "P r'" and succ: "\<forall>e \<in> set (outgoing p x). e_to e \<in> set r'" by simp_all
    then have sub: "set (x # r) \<subseteq> set r'" and dist: "distinct (x # r) \<longrightarrow> distinct r'"
      and closed: "\<And>u y. u \<in> set r' - set (x # r) \<Longrightarrow> (u, y) \<in> edge_rel p \<Longrightarrow> y \<in> set r'"
      and upper: "set r' \<subseteq> set r \<union> {y. (x, y) \<in> (edge_rel p)\<^sup>*}"
      unfolding P_def by blast+
    have "y \<in> set r'" if "u \<in> set r' - set r" "(u, y) \<in> edge_rel p" for u y
    proof (cases "u = x")
      case True
      with that(2) have "(x, y) \<in> edge_rel p" by simp
      then obtain e where e: "e \<in> set (outgoing p x)" and y: "e_to e = y"
        by (auto dest: edge_outgoing)
      from succ e have "e_to e \<in> set r'" by (rule bspec)
      then show ?thesis unfolding y .
    next
      case False
      show ?thesis by (rule closed [of u y]) (use that False in simp_all)
    qed
    with sub dist False upper show ?thesis unfolding explored_def by simp
  qed
qed

lemma reach_returns:
  assumes "edges_closed p"
  shows "x \<in> node_ids p \<Longrightarrow> card (node_ids p - set r) < fuel \<Longrightarrow> reach fuel p x r \<noteq> None"
proof (induction fuel arbitrary: x r)
  case 0
  then show ?case by simp
next
  case (Suc fuel)
  show ?case
  proof (cases "x \<in> set r")
    case True
    then show ?thesis by simp
  next
    case False
    have "node_ids p - set (x # r) = (node_ids p - set r) - {x}" by auto
    then have less: "card (node_ids p - set (x # r)) < fuel"
      using Suc.prems False card_Diff1_less [of "node_ids p - set r" x] by fastforce
    have "ofoldM (\<lambda>e r. reach fuel p (e_to e) r) (outgoing p x) (x # r) \<noteq> None"
    proof (rule ofoldM_returns [where P = "\<lambda>s. set (x # r) \<subseteq> set s"])
      show "set (x # r) \<subseteq> set (x # r)" by simp
    next
      fix e s
      assume e: "e \<in> set (outgoing p x)" and s: "set (x # r) \<subseteq> set s"
      have "e_to e \<in> node_ids p" using outgoing_edge [OF e] assms by (auto simp: edges_closed_def)
      moreover have "card (node_ids p - set s) \<le> card (node_ids p - set (x # r))"
        using s by (intro card_mono) auto
      ultimately show "reach fuel p (e_to e) s \<noteq> None" using Suc.IH less by simp
    next
      fix e s s'
      assume "set (x # r) \<subseteq> set s" and "reach fuel p (e_to e) s = Some (Inr s')"
      then show "set (x # r) \<subseteq> set s'" using reach_explored unfolding explored_def by blast
    qed
    with False show ?thesis by simp
  qed
qed

lemma reach_input:
  assumes "reach fuel p x [] = Some (Inr r)"
  shows "set r = {y. (x, y) \<in> (edge_rel p)\<^sup>*}" and "distinct r"
proof -
  from reach_explored [OF assms] have ex: "explored p [] r" and x: "x \<in> set r"
    and sub: "set r \<subseteq> {y. (x, y) \<in> (edge_rel p)\<^sup>*}" by auto
  have "y \<in> set r" if "(x, y) \<in> (edge_rel p)\<^sup>*" for y
    using that by (induction rule: rtrancl_induct) (use ex x in \<open>auto simp: explored_def\<close>)
  with sub show "set r = {y. (x, y) \<in> (edge_rel p)\<^sup>*}" by blast
  from ex show "distinct r" by (simp add: explored_def)
qed

section \<open>What an accepted pipeline satisfies\<close>

lemma check_edges_Inr:
  "foldM (check_edge p) es paths = Inr paths' \<Longrightarrow>
     (\<forall>e \<in> set es. omap_contains (pl_nodes p) (e_from e) \<and> omap_contains (pl_nodes p) (e_to e) \<and>
        e_to e \<noteq> ''input'' \<and> e_from e \<noteq> ''output'') \<and>
     distinct (map (\<lambda>e. (e_from e, e_to e)) es) \<and>
     (\<forall>e \<in> set es. (e_from e, e_to e) \<notin> set paths)"
proof (induction es arbitrary: paths)
  case Nil
  then show ?case by simp
next
  case (Cons e es)
  from Cons.prems obtain ps where e: "check_edge p e paths = Inr ps"
    and rest: "foldM (check_edge p) es ps = Inr paths'"
    by (auto elim: rbindE)
  from e have "ps = (e_from e, e_to e) # paths" "(e_from e, e_to e) \<notin> set paths"
    "omap_contains (pl_nodes p) (e_from e)" "omap_contains (pl_nodes p) (e_to e)"
    "e_to e \<noteq> ''input''" "e_from e \<noteq> ''output''"
    by (auto simp: check_edge_def split: if_splits)
  with Cons.IH [OF rest] show ?case by (auto simp: image_iff)
qed

definition accepted :: "pipeline_definition \<Rightarrow> string list \<Rightarrow> bool" where
  "accepted p extensions \<longleftrightarrow> validate_pipeline p extensions = Some (Inr ())"

lemma check_staticD:
  assumes "check_static p extensions = Inr u"
  shows "check_shape p = Inr ()" and "\<forall>x \<in> set (pl_nodes p). check_node p extensions x = Inr ()"
    and "\<exists>ps. foldM (check_edge p) (pl_edges p) [] = Inr ps"
    and "\<forall>x \<in> set (pl_nodes p). check_routing p x = Inr ()"
  using assms unfolding check_static_def by (auto simp: forM_Inr elim!: rbindE)

lemma accepted_static:
  assumes "accepted p extensions"
  shows "check_static p extensions = Inr ()"
  using assms unfolding accepted_def validate_pipeline_def by (cases "check_static p extensions") simp_all

lemma accepted_searches:
  assumes "accepted p extensions"
  shows "check_cycles p = Some (Inr ())" and "check_reachable p = Some (Inr ())"
  using assms unfolding accepted_def validate_pipeline_def
  by (auto split: sum.splits option.splits)

lemmas acceptedD = check_staticD [OF accepted_static] accepted_searches

lemma edges_checked_closed:
  "foldM (check_edge p) (pl_edges p) [] = Inr ps \<Longrightarrow> edges_closed p"
  using check_edges_Inr [of p "pl_edges p" "[]" ps]
  by (auto simp: edges_closed_def edge_rel_def node_ids_def omap_contains_iff)

lemma node_ids_card: "card (node_ids p) \<le> length (pl_nodes p)"
  unfolding node_ids_def by (metis card_length length_map set_map)

lemma ranked_white: "ranked p (\<lambda>_. White)"
  by (simp add: ranked_def)

lemma check_cycles_acyclic:
  assumes "check_cycles p = Some (Inr ())" and "edges_closed p"
  shows "acyclic (unbounded p)"
proof -
  from assms(1) obtain c where fold: "ofoldM (\<lambda>entry cs. visit (search_fuel p) p (fst entry) cs)
      (pl_nodes p) (\<lambda>_. White) = Some (Inr c)"
    by (auto simp: check_cycles_def split: option.splits sum.splits)
  have "ranked p c \<and> (\<forall>entry \<in> set (pl_nodes p). c (fst entry) = Black)"
  proof (rule ofoldM_rule [OF fold, where Q = "\<lambda>entry cs. cs (fst entry) = Black"])
    show "ranked p (\<lambda>_. White)" by (rule ranked_white)
  next
    fix x and s s' :: "string \<Rightarrow> color"
    assume "ranked p s" and "visit (search_fuel p) p (fst x) s = Some (Inr s')"
    then show "ranked p s' \<and> s' (fst x) = Black" using visit_extends by (auto simp: extends_def)
  next
    fix x y and s s' :: "string \<Rightarrow> color"
    assume "ranked p s" and "s (fst x) = Black" and "visit (search_fuel p) p (fst y) s = Some (Inr s')"
    then show "s' (fst x) = Black" using visit_extends by (auto simp: extends_def)
  qed
  then obtain rank :: "string \<Rightarrow> nat"
    where rank: "\<And>x y. c x = Black \<Longrightarrow> (x, y) \<in> unbounded p \<Longrightarrow> rank y < rank x"
      and black: "\<forall>x \<in> node_ids p. c x = Black"
    by (auto simp: ranked_def node_ids_def)
  have "(unbounded p)\<inverse> \<subseteq> measure rank"
    using rank black assms(2) unbounded_edge [of p] by (auto simp: edges_closed_def)
  then have "wf ((unbounded p)\<inverse>)" by (rule wf_subset [OF wf_measure])
  then have "acyclic ((unbounded p)\<inverse>)" by (rule wf_acyclic)
  then show ?thesis by (simp only: acyclic_converse)
qed

lemma check_cycles_reject:
  assumes "check_cycles p = Some (Inl e)"
  shows "\<not> acyclic (unbounded p)"
proof -
  from assms have fold: "ofoldM (\<lambda>entry cs. visit (search_fuel p) p (fst entry) cs)
      (pl_nodes p) (\<lambda>_. White) = Some (Inl e)"
    by (auto simp: check_cycles_def split: option.splits sum.splits)
  have "\<exists>entry \<in> set (pl_nodes p). \<exists>cs. extends p (\<lambda>_. White) cs \<and>
      visit (search_fuel p) p (fst entry) cs = Some (Inl e)"
  proof (rule ofoldM_error [OF fold])
    show "extends p (\<lambda>_. White) (\<lambda>_. White)" by (rule extends_refl [OF ranked_white])
    fix x s s'
    assume "extends p (\<lambda>_. White) s" and "visit (search_fuel p) p (fst x) s = Some (Inr s')"
    then show "extends p (\<lambda>_. White) s'"
      using visit_extends extends_trans by (metis extends_def)
  qed
  then obtain x cs where x: "visit (search_fuel p) p x cs = Some (Inl e)"
    and cs: "extends p (\<lambda>_. White) cs" by auto
  then have "\<exists>y. (y, y) \<in> (unbounded p)\<^sup>+"
    using visit_rejects [OF x] by (simp add: extends_def)
  then show ?thesis by (auto simp: acyclic_def)
qed

lemma check_cycles_returns:
  assumes "edges_closed p"
  shows "check_cycles p \<noteq> None"
proof -
  have "ofoldM (\<lambda>entry cs. visit (search_fuel p) p (fst entry) cs) (pl_nodes p) (\<lambda>_. White) \<noteq> None"
  proof (rule ofoldM_returns [where P = "ranked p"])
    show "ranked p (\<lambda>_. White)" by (rule ranked_white)
  next
    fix x and s :: "string \<Rightarrow> color"
    assume x: "x \<in> set (pl_nodes p)" and "ranked p s"
    have "card {y \<in> node_ids p. s y \<noteq> Gray} \<le> card (node_ids p)" by (intro card_mono) auto
    then have "card {y \<in> node_ids p. s y \<noteq> Gray} < search_fuel p"
      using node_ids_card [of p] by (simp add: search_fuel_def)
    with visit_returns [OF assms] x \<open>ranked p s\<close> show "visit (search_fuel p) p (fst x) s \<noteq> None"
      by (simp add: node_ids_def)
  next
    fix x and s s' :: "string \<Rightarrow> color"
    assume "ranked p s" and "visit (search_fuel p) p (fst x) s = Some (Inr s')"
    then show "ranked p s'" using visit_extends by (auto simp: extends_def)
  qed
  then show ?thesis by (auto simp: check_cycles_def split: option.splits sum.splits)
qed

lemma check_shape_input: "check_shape p = Inr () \<Longrightarrow> ''input'' \<in> node_ids p"
  by (auto simp: check_shape_def omap_contains_iff node_ids_def split: if_splits)

lemma check_reachable_returns:
  assumes "edges_closed p" and "''input'' \<in> node_ids p"
  shows "check_reachable p \<noteq> None"
proof -
  have "card (node_ids p - set []) < search_fuel p"
    using node_ids_card [of p] by (simp add: search_fuel_def)
  with reach_returns [OF assms] show ?thesis
    by (auto simp: check_reachable_def split: option.splits sum.splits)
qed

lemma check_reachable_all:
  assumes "check_reachable p = Some (Inr ())" and "edges_closed p" and "''input'' \<in> node_ids p"
    and "omap_inv (pl_nodes p)"
  shows "node_ids p = {y. (''input'', y) \<in> (edge_rel p)\<^sup>*}"
proof -
  from assms(1) obtain r where r: "reach (search_fuel p) p ''input'' [] = Some (Inr r)"
    and len: "length r = length (pl_nodes p)"
    by (auto simp: check_reachable_def split: option.splits sum.splits if_splits)
  have sub: "set r \<subseteq> node_ids p"
    unfolding reach_input(1) [OF r]
  proof clarify
    fix y
    assume "(''input'', y) \<in> (edge_rel p)\<^sup>*"
    then show "y \<in> node_ids p"
      using assms(2,3) by (induction rule: rtrancl_induct) (auto simp: edges_closed_def)
  qed
  have "card (set r) = card (node_ids p)"
    using reach_input(2) [OF r] len omap_inv_distinct [OF assms(4)]
    by (simp add: distinct_card node_ids_def flip: set_map)
  with sub have "set r = node_ids p" by (simp add: card_subset_eq)
  with reach_input(1) [OF r] show ?thesis by simp
qed

section \<open>Walks through the graph\<close>

fun walk :: "pipeline_definition \<Rightarrow> string \<Rightarrow> edge_definition list \<Rightarrow> bool" where
  "walk p x [] = True"
| "walk p x (e # es) = (e \<in> set (pl_edges p) \<and> e_from e = x \<and> walk p (e_to e) es)"

definition bounded :: "edge_definition \<Rightarrow> bool" where
  "bounded e \<longleftrightarrow> e_max_iterations e \<noteq> 0"

definition edge_budget :: "pipeline_definition \<Rightarrow> nat" where
  "edge_budget p = (\<Sum>e \<in> set (pl_edges p). unat (e_max_iterations e))"

text \<open>The number of nodes below a node along unbounded edges decreases along each of them.\<close>

definition depth :: "pipeline_definition \<Rightarrow> string \<Rightarrow> nat" where
  "depth p x = card {y. (x, y) \<in> (unbounded p)\<^sup>+}"

lemma below_nodes: "edges_closed p \<Longrightarrow> {y. (x, y) \<in> (unbounded p)\<^sup>+} \<subseteq> node_ids p"
proof clarify
  fix y
  assume closed: "edges_closed p" and "(x, y) \<in> (unbounded p)\<^sup>+"
  then obtain z where "(z, y) \<in> unbounded p" by (meson tranclD2)
  with closed unbounded_edge show "y \<in> node_ids p" by (auto simp: edges_closed_def)
qed

lemma depth_decreases:
  assumes "edges_closed p" and "acyclic (unbounded p)" and "(x, y) \<in> unbounded p"
  shows "depth p y < depth p x"
  unfolding depth_def
proof (rule psubset_card_mono)
  show "finite {z. (x, z) \<in> (unbounded p)\<^sup>+}"
    using below_nodes [OF assms(1)] by (rule finite_subset) simp
  have "y \<in> {z. (x, z) \<in> (unbounded p)\<^sup>+}" "y \<notin> {z. (y, z) \<in> (unbounded p)\<^sup>+}"
    using assms(2,3) by (auto simp: acyclic_def)
  moreover have "{z. (y, z) \<in> (unbounded p)\<^sup>+} \<subseteq> {z. (x, z) \<in> (unbounded p)\<^sup>+}"
    using assms(3) by (auto intro: trancl_into_trancl2)
  ultimately show "{z. (y, z) \<in> (unbounded p)\<^sup>+} \<subset> {z. (x, z) \<in> (unbounded p)\<^sup>+}" by blast
qed

lemma depth_bound:
  assumes "edges_closed p" and "acyclic (unbounded p)" and "x \<in> node_ids p"
  shows "depth p x < card (node_ids p)"
  unfolding depth_def
proof (rule psubset_card_mono)
  have "x \<notin> {y. (x, y) \<in> (unbounded p)\<^sup>+}" using assms(2) by (auto simp: acyclic_def)
  with below_nodes [OF assms(1), of x] assms(3) show "{y. (x, y) \<in> (unbounded p)\<^sup>+} \<subset> node_ids p" by blast
qed simp

lemma walk_length:
  assumes "edges_closed p" and "acyclic (unbounded p)"
  shows "walk p x es \<Longrightarrow>
    length es \<le> length (filter bounded es) * card (node_ids p) + depth p x"
proof (induction es arbitrary: x)
  case Nil
  then show ?case by simp
next
  case (Cons e es)
  from Cons.prems have e: "e \<in> set (pl_edges p)" "e_from e = x" and rest: "walk p (e_to e) es" by simp_all
  have to: "e_to e \<in> node_ids p" using e assms(1) by (auto simp: edges_closed_def edge_rel_def)
  show ?case
  proof (cases "bounded e")
    case True
    with Cons.IH [OF rest] depth_bound [OF assms to] show ?thesis by simp
  next
    case False
    with e have "(x, e_to e) \<in> unbounded p" by (auto simp: unbounded_def bounded_def)
    with Cons.IH [OF rest] depth_decreases [OF assms] False show ?thesis by fastforce
  qed
qed

lemma filter_count_sum:
  assumes "finite A" and "\<And>x. x \<in> set xs \<Longrightarrow> P x \<Longrightarrow> x \<in> A"
  shows "length (filter P xs) \<le> (\<Sum>x \<in> {x \<in> A. P x}. count_list xs x)"
  using assms(2)
proof (induction xs)
  case Nil
  then show ?case by simp
next
  case (Cons y xs)
  have IH: "length (filter P xs) \<le> (\<Sum>x \<in> {x \<in> A. P x}. count_list xs x)"
    using Cons.prems by (intro Cons.IH) simp
  have "(\<Sum>x \<in> {x \<in> A. P x}. count_list (y # xs) x) =
      (\<Sum>x \<in> {x \<in> A. P x}. count_list xs x) + (\<Sum>x \<in> {x \<in> A. P x}. if y = x then 1 else 0)"
    unfolding sum.distrib [symmetric] by (rule sum.cong) auto
  also have "(\<Sum>x \<in> {x \<in> A. P x}. if y = x then 1 else 0) = (if y \<in> A \<and> P y then 1 else (0::nat))"
    using assms(1) by (subst sum.delta') auto
  finally show ?case using IH Cons.prems [of y] by auto
qed

lemma bounded_steps:
  assumes "walk p x es"
    and "\<And>e. e \<in> set (pl_edges p) \<Longrightarrow> bounded e \<Longrightarrow> count_list es e \<le> unat (e_max_iterations e)"
  shows "length (filter bounded es) \<le> edge_budget p"
proof -
  have in_edges: "e \<in> set (pl_edges p)" if "e \<in> set es" for e
    using assms(1) that by (induction es arbitrary: x) auto
  have "length (filter bounded es) \<le> (\<Sum>e \<in> {e \<in> set (pl_edges p). bounded e}. count_list es e)"
    using in_edges by (intro filter_count_sum) auto
  also have "\<dots> \<le> (\<Sum>e \<in> {e \<in> set (pl_edges p). bounded e}. unat (e_max_iterations e))"
    using assms(2) by (intro sum_mono) auto
  also have "\<dots> \<le> edge_budget p"
    unfolding edge_budget_def by (rule sum_mono2) auto
  finally show ?thesis .
qed

section \<open>Decimal notation\<close>

lemma char_digit:
  assumes "d < 10"
  shows "is_digit (char_of (48 + d :: nat))" and "digit_value (char_of (48 + d)) = d"
proof -
  have "of_char (char_of (48 + d :: nat) :: char) = 48 + d" using assms by simp
  then show "is_digit (char_of (48 + d :: nat))" "digit_value (char_of (48 + d)) = d"
    using assms by (simp_all add: is_digit_def digit_value_def less_eq_char_def)
qed

lemma decimal_digits: "list_all is_digit (decimal n) \<and> decimal n \<noteq> []"
proof (induction n rule: decimal.induct)
  case (1 n)
  show ?case
  proof (cases "n < 10")
    case True
    then show ?thesis by (subst decimal.simps, subst decimal.simps) (simp add: char_digit)
  next
    case False
    have "n mod 10 < 10" by simp
    with 1 False show ?thesis
      by (subst decimal.simps, subst decimal.simps) (simp add: char_digit)
  qed
qed

lemma digits_value_append:
  "digits_value acc (xs @ ys) = digits_value (digits_value acc xs) ys"
  by (induction acc xs rule: digits_value.induct) simp_all

lemma digits_value_decimal: "digits_value 0 (decimal n) = n"
proof (induction n rule: decimal.induct)
  case (1 n)
  have "n mod 10 < 10" by simp
  with 1 show ?case
    by (subst decimal.simps) (simp add: char_digit digits_value_append)
qed

lemma digit_not_sign:
  assumes "is_digit c"
  shows "\<not> is_space c" and "c \<noteq> CHR ''-''" and "c \<noteq> CHR ''+''" and "c \<noteq> CHR ''@''"
  using assms by (auto simp: is_digit_def is_space_def less_eq_char_def)

lemma stoul_decimal: "n < 2 ^ 64 \<Longrightarrow> stoul (decimal n) = Some (n, length (decimal n))"
proof -
  assume n: "n < 2 ^ 64"
  obtain c cs where c: "decimal n = c # cs" using decimal_digits [of n] by (cases "decimal n") auto
  have all: "list_all is_digit (decimal n)" using decimal_digits by simp
  with c have "is_digit c" by simp
  note sign = digit_not_sign [OF this]
  have "takeWhile is_digit (decimal n) = decimal n"
    using all by (simp add: list_all_iff takeWhile_eq_all_conv)
  then show ?thesis
    using sign c n digits_value_decimal [of n] by (simp add: stoul_def Let_def)
qed

lemma is_identifier_no_at: "is_identifier s \<Longrightarrow> CHR ''@'' \<notin> set s \<and> s \<noteq> []"
  by (auto simp: is_identifier_def is_alnum_def list_all_iff less_eq_char_def split: list.splits)

section \<open>Examples\<close>

definition new_node :: "string \<Rightarrow> string \<Rightarrow> string \<Rightarrow> node_definition" where
  "new_node nid ty binding =
     \<lparr>n_id = nid, n_type = ty, n_binding = binding, n_prompt = [], n_field = [], n_condition = [],
      n_reason = [], n_join = [], n_input_schema = [], n_output_schema = [], n_schema = [],
      n_task_type = [], n_capability = [], n_instructions = [], n_required_tool = [],
      n_value = JNull, n_retry = \<lparr>rp_max_attempts = 1, rp_delay = 0\<rparr>, n_timeout = 30000,
      n_max_iterations = 0\<rparr>"

text \<open>A loop that may repeat a function at most three times before the output.\<close>

definition loop_pipeline :: pipeline_definition where
  "loop_pipeline =
     \<lparr>pl_name = ''looping'', pl_source = [], pl_input_schema = [], pl_output_schema = [],
      pl_resolved_subpipelines = [], pl_schema_version = 1, pl_version = 1, pl_max_steps = 1000,
      pl_timeout = 300000,
      pl_nodes = [(''input'', new_node ''input'' ''input'' []),
                  (''output'', new_node ''output'' ''output'' []),
                  (''task'', new_node ''task'' ''function'' ''hello''),
                  (''turn'', (new_node ''turn'' ''loop'' [])\<lparr>n_max_iterations := 3\<rparr>)],
      pl_edges = [\<lparr>e_from = ''input'', e_to = ''task'', e_condition = [], e_max_iterations = 0\<rparr>,
                  \<lparr>e_from = ''task'', e_to = ''turn'', e_condition = [], e_max_iterations = 0\<rparr>,
                  \<lparr>e_from = ''turn'', e_to = ''task'', e_condition = ''repeat'', e_max_iterations = 3\<rparr>,
                  \<lparr>e_from = ''turn'', e_to = ''output'', e_condition = ''done'', e_max_iterations = 0\<rparr>]\<rparr>"

lemmas validate_defs = check_shape_def check_node_def check_acceptance_def check_edge_def
  check_routing_def outgoing_def omap_contains_def is_identifier_def is_alnum_def node_types_def
  less_eq_char_def new_node_def

lemma loop_pipeline_static: "check_static loop_pipeline [] = Inr ()"
  by (simp add: check_static_def validate_defs loop_pipeline_def insert_commute cong: rbind_weak_cong)

lemma loop_pipeline_cycles: "check_cycles loop_pipeline = Some (Inr ())"
  by (simp add: check_cycles_def search_fuel_def loop_pipeline_def outgoing_def)

lemma loop_pipeline_reachable: "check_reachable loop_pipeline = Some (Inr ())"
  by (simp add: check_reachable_def search_fuel_def loop_pipeline_def outgoing_def)

lemma loop_pipeline_accepted: "accepted loop_pipeline []"
  by (simp add: accepted_def validate_pipeline_def loop_pipeline_static loop_pipeline_cycles
      loop_pipeline_reachable)

lemma loop_pipeline_nodes: "omap_inv (pl_nodes loop_pipeline)"
  by (simp add: omap_inv_def loop_pipeline_def less_char_def)

section \<open>Properties\<close>

text \<open>
  C37: validation always returns a verdict. The two recursive searches end on every definition,
  however its edges are drawn: the fuel of one unit more than the number of nodes is enough.
\<close>

theorem validate_pipeline_returns: "validate_pipeline p extensions \<noteq> None"
proof (cases "check_static p extensions")
  case (Inl e)
  then show ?thesis by (simp add: validate_pipeline_def)
next
  case (Inr u)
  then have "edges_closed p" "''input'' \<in> node_ids p"
    using check_staticD [OF Inr] edges_checked_closed check_shape_input by auto
  with check_cycles_returns [of p] check_reachable_returns [of p] show ?thesis
    by (auto simp: validate_pipeline_def split: sum.splits option.splits)
qed

text \<open>
  C30: the colour search is exact. On a definition that passed the checks before it, it succeeds
  if and only if the edges without an iteration bound form no cycle, so every cycle of an
  accepted pipeline contains a bounded edge and no acyclic pipeline is rejected for a cycle.
\<close>

theorem cycle_check_exact:
  assumes "check_static p extensions = Inr ()"
  shows "check_cycles p = Some (Inr ()) \<longleftrightarrow> acyclic (unbounded p)"
proof -
  from check_staticD(3) [OF assms] have closed: "edges_closed p" using edges_checked_closed by auto
  obtain r where r: "check_cycles p = Some r" using check_cycles_returns [OF closed] by auto
  show ?thesis
    using check_cycles_acyclic [OF _ closed] check_cycles_reject r by (cases r) auto
qed

lemma cycle_check_exact_witness: "acyclic (unbounded loop_pipeline)"
  using cycle_check_exact [OF loop_pipeline_static] loop_pipeline_cycles by simp

text \<open>
  In an accepted pipeline the nodes are exactly what can be reached from the input node, and
  every edge connects declared nodes without entering the input or leaving the output.
\<close>

lemma accepted_nodes_reachable:
  assumes "accepted p extensions" and "omap_inv (pl_nodes p)"
  shows "node_ids p = {y. (''input'', y) \<in> (edge_rel p)\<^sup>*} \<and> edge_rel p \<subseteq> node_ids p \<times> node_ids p \<and>
    (\<forall>e \<in> set (pl_edges p). e_to e \<noteq> ''input'' \<and> e_from e \<noteq> ''output'')"
proof -
  from acceptedD(3) [OF assms(1)] obtain ps where ps: "foldM (check_edge p) (pl_edges p) [] = Inr ps" ..
  have closed: "edges_closed p" using ps by (rule edges_checked_closed)
  have "''input'' \<in> node_ids p" using acceptedD(1) [OF assms(1)] by (rule check_shape_input)
  with closed acceptedD(6) [OF assms(1)] assms(2)
  have "node_ids p = {y. (''input'', y) \<in> (edge_rel p)\<^sup>*}" by (intro check_reachable_all)
  with closed check_edges_Inr [OF ps] show ?thesis by (auto simp: edges_closed_def)
qed

lemma accepted_nodes_reachable_example:
  "(''input'', ''output'') \<in> (edge_rel loop_pipeline)\<^sup>*"
proof -
  have "''output'' \<in> node_ids loop_pipeline" by (simp add: node_ids_def loop_pipeline_def)
  with accepted_nodes_reachable [OF loop_pipeline_accepted loop_pipeline_nodes] show ?thesis by simp
qed

text \<open>
  Every cycle spends a finite budget. A walk through an accepted pipeline that uses no bounded
  edge more often than its limit has fewer steps than the number of nodes times one more than the
  sum of the limits, whatever routing decisions are taken.
\<close>

lemma accepted_walk_bounded:
  assumes "accepted p extensions" and "walk p x es" and "x \<in> node_ids p"
    and "\<forall>e \<in> set (pl_edges p). e_max_iterations e \<noteq> 0 \<longrightarrow> count_list es e \<le> unat (e_max_iterations e)"
  shows "length es < (edge_budget p + 1) * length (pl_nodes p)"
proof -
  have closed: "edges_closed p" using acceptedD(3) [OF assms(1)] edges_checked_closed by auto
  have acyclic: "acyclic (unbounded p)" using acceptedD(5) [OF assms(1)] closed by (rule check_cycles_acyclic)
  have "length es \<le> length (filter bounded es) * card (node_ids p) + depth p x"
    using closed acyclic assms(2) by (rule walk_length)
  also have "\<dots> < (length (filter bounded es) + 1) * card (node_ids p)"
    using depth_bound [OF closed acyclic assms(3)] by simp
  also have "\<dots> \<le> (edge_budget p + 1) * length (pl_nodes p)"
    using bounded_steps [OF assms(2)] assms(4) node_ids_card [of p]
    by (intro mult_le_mono) (auto simp: bounded_def)
  finally show ?thesis .
qed

lemma accepted_walk_bounded_example:
  "5 < (edge_budget loop_pipeline + 1) * length (pl_nodes loop_pipeline)"
proof -
  let ?es = "map ((!) (pl_edges loop_pipeline)) [0, 1, 2, 1, 3]"
  have "walk loop_pipeline ''input'' ?es" and "''input'' \<in> node_ids loop_pipeline"
    and "\<forall>e \<in> set (pl_edges loop_pipeline). e_max_iterations e \<noteq> 0 \<longrightarrow>
      count_list ?es e \<le> unat (e_max_iterations e)"
    by (simp_all add: loop_pipeline_def node_ids_def)
  from accepted_walk_bounded [OF loop_pipeline_accepted this] show ?thesis by simp
qed

text \<open>
  A printed reference is parsed back to the same name and version.
\<close>

lemma pipeline_reference_roundtrip:
  assumes "is_identifier name" and "0 < version" and "version \<le> 1000000"
  shows "parse_pipeline_reference (pipeline_reference name version) =
    Inr \<lparr>ref_name = name, ref_version = version, ref_versioned = True\<rparr>"
proof -
  have no_at: "CHR ''@'' \<notin> set name" "name \<noteq> []" using is_identifier_no_at [OF assms(1)] by auto
  have digits: "CHR ''@'' \<notin> set (decimal n)" "decimal n \<noteq> []" for n
    using decimal_digits [of n] digit_not_sign(4) by (auto simp: list_all_iff)
  have v: "unat version \<noteq> 0" "unat version \<le> 1000000"
    using assms(2,3) by (auto simp: word_le_nat_alt unat_eq_zero)
  have "stoul (decimal (unat version)) = Some (unat version, length (decimal (unat version)))"
    using v(2) by (intro stoul_decimal) simp
  moreover have "takeWhile (\<lambda>c. c \<noteq> CHR ''@'') (name @ CHR ''@'' # ds) = name"
    and "dropWhile (\<lambda>c. c \<noteq> CHR ''@'') (name @ CHR ''@'' # ds) = CHR ''@'' # ds" for ds
    using no_at(1) by (induction name) auto
  ultimately show ?thesis
    using assms(1) no_at digits v by (simp add: parse_pipeline_reference_def pipeline_reference_def)
qed

lemma pipeline_reference_roundtrip_example:
  "parse_pipeline_reference (pipeline_reference ''process'' 12) =
     Inr \<lparr>ref_name = ''process'', ref_version = 12, ref_versioned = True\<rparr>"
  by (rule pipeline_reference_roundtrip) (simp_all add: is_identifier_def is_alnum_def less_eq_char_def)

text \<open>
  The version suffix is read by \<^verbatim>\<open>std::stoul\<close>, which skips blanks and accepts a sign, so several
  different texts name the same version; a negative number wraps around into the accepted range.
\<close>

lemma pipeline_reference_not_canonical:
  "parse_pipeline_reference ''process@ 7'' = parse_pipeline_reference ''process@7'' \<and>
   parse_pipeline_reference ''process@+7'' = parse_pipeline_reference ''process@7'' \<and>
   parse_pipeline_reference ''process@-18446744073709551609'' = parse_pipeline_reference ''process@7'' \<and>
   parse_pipeline_reference ''process@7'' =
     Inr \<lparr>ref_name = ''process'', ref_version = 7, ref_versioned = True\<rparr>"
  by (simp add: parse_pipeline_reference_def stoul_def is_space_def is_digit_def digit_value_def
      is_identifier_def is_alnum_def less_eq_char_def Let_def)

end
