(* ===== verification/Laso_Worker.thy ===== *)
theory Laso_Worker
  imports Laso_Codec
begin

text \<open>
  \<^verbatim>\<open>include/laso/workers/worker.hpp\<close> and \<^verbatim>\<open>src/workers/worker.cpp\<close>: the life cycle of a job handed to an
  external worker, the usage a worker reports, and the JSON forms of jobs, worker metadata,
  interactions and tool calls. Numbers a worker did not report are absent, not zero.
\<close>

section \<open>Life cycle of a job\<close>

datatype worker_job_state =
    JCreated | JSubmitting | JQueued | JRunning | JWaiting | JCompleted | JFailed | JCancelled | JTimedOut | JUnknown

definition worker_job_terminal :: "worker_job_state \<Rightarrow> bool" where
  "worker_job_terminal s \<longleftrightarrow> s = JCompleted \<or> s = JFailed \<or> s = JCancelled \<or> s = JTimedOut"

definition valid_worker_job_transition :: "worker_job_state \<Rightarrow> worker_job_state \<Rightarrow> bool" where
  "valid_worker_job_transition a b =
     (if worker_job_terminal a then False
      else case a of
        JCreated \<Rightarrow> b = JSubmitting \<or> b = JFailed \<or> b = JCancelled \<or> b = JUnknown
      | JSubmitting \<Rightarrow> b = JQueued \<or> b = JRunning \<or> b = JCompleted \<or> b = JFailed \<or> b = JCancelled \<or>
          b = JTimedOut \<or> b = JUnknown
      | JQueued \<Rightarrow> b = JRunning \<or> b = JWaiting \<or> b = JCompleted \<or> b = JFailed \<or> b = JCancelled \<or>
          b = JTimedOut \<or> b = JUnknown
      | JRunning \<Rightarrow> b = JRunning \<or> b = JWaiting \<or> b = JCompleted \<or> b = JFailed \<or> b = JCancelled \<or>
          b = JTimedOut \<or> b = JUnknown
      | JWaiting \<Rightarrow> b = JRunning \<or> b = JWaiting \<or> b = JCompleted \<or> b = JFailed \<or> b = JCancelled \<or>
          b = JTimedOut \<or> b = JUnknown
      | JUnknown \<Rightarrow> b = JRunning \<or> b = JWaiting \<or> b = JCompleted \<or> b = JFailed \<or> b = JCancelled \<or>
          b = JTimedOut \<or> b = JUnknown
      | _ \<Rightarrow> False)"

datatype worker_failure_kind = FNone | FJob | FTransport | FBudget

datatype worker_interaction_type = IApproval | IPermission | IQuestion

datatype worker_interaction_state = IPending | IApproved | IDenied | IAnswered | ICancelled | IExpired

section \<open>Records\<close>

record opaque_continuation =
  oc_provider_id :: string
  oc_provider_version :: string
  oc_state :: string

record worker_usage =
  us_queue_duration_ms :: "u64 option"
  us_wall_duration_ms :: "u64 option"
  us_input_tokens :: "u64 option"
  us_output_tokens :: "u64 option"
  us_total_tokens :: "u64 option"
  us_tool_calls :: "u64 option"
  us_action_count :: "u64 option"
  us_cost_units :: "dbl option"
  us_provider :: string
  us_model :: string
  us_executor :: string
  us_metadata :: json

record worker_metadata =
  wm_id :: string
  wm_name :: string
  wm_version :: string
  wm_description :: string
  wm_plugin :: string
  wm_event_schema :: string
  wm_event_source_id :: string
  wm_status :: string
  wm_capabilities :: "string list"
  wm_local :: bool
  wm_remote :: bool
  wm_healthy :: bool
  wm_enabled :: bool
  wm_supports_status :: bool
  wm_supports_recovery :: bool
  wm_supports_cancellation :: bool

record worker_job =
  wj_id :: string
  wj_worker_id :: string
  wj_run_id :: string
  wj_node_id :: string
  wj_idempotency_key :: string
  wj_external_job_id :: string
  wj_submitted_at :: string
  wj_started_at :: string
  wj_completed_at :: string
  wj_error :: string
  wj_cancellation_error :: string
  wj_attempt :: u32
  wj_state :: worker_job_state
  wj_cancellation_target_state :: worker_job_state
  wj_failure_kind :: worker_failure_kind
  wj_cancellation_requested :: bool
  wj_cancellation_acknowledged :: bool
  wj_request_metadata :: json
  wj_result :: json
  wj_result_metadata :: json
  wj_artifacts :: "json list"
  wj_usage :: worker_usage
  wj_continuation :: "opaque_continuation option"

record worker_interaction_request =
  wq_request_id :: string
  wq_worker_job_id :: string
  wq_worker_id :: string
  wq_external_job_id :: string
  wq_session_id :: string
  wq_type :: worker_interaction_type
  wq_title :: string
  wq_summary :: string
  wq_created_at :: string
  wq_deadline :: string
  wq_risk :: string
  wq_category :: string
  wq_payload :: json

record worker_interaction_response =
  wr_request_id :: string
  wr_state :: worker_interaction_state
  wr_payload :: json
  wr_reason :: string

record worker_interaction =
  wi_id :: string
  wi_worker_job_id :: string
  wi_worker_id :: string
  wi_run_id :: string
  wi_external_job_id :: string
  wi_session_id :: string
  wi_type :: worker_interaction_type
  wi_state :: worker_interaction_state
  wi_title :: string
  wi_summary :: string
  wi_created_at :: string
  wi_deadline :: string
  wi_risk :: string
  wi_category :: string
  wi_payload :: json
  wi_response :: json
  wi_reason :: string
  wi_actor :: string
  wi_decided_at :: string

record worker_tool_call_request =
  tq_request_id :: string
  tq_worker_job_id :: string
  tq_worker_id :: string
  tq_external_job_id :: string
  tq_session_id :: string
  tq_turn_id :: string
  tq_deadline :: string
  tq_namespace_name :: string
  tq_tool :: string
  tq_arguments :: json

record worker_tool_call_response =
  tr_request_id :: string
  tr_success :: bool
  tr_result :: json
  tr_error :: string

section \<open>Enumerations\<close>

definition worker_job_state_names :: "(worker_job_state \<times> string) list" where
  "worker_job_state_names =
     [(JCreated, ''Created''), (JSubmitting, ''Submitting''), (JQueued, ''Queued''), (JRunning, ''Running''),
      (JWaiting, ''Waiting''), (JCompleted, ''Completed''), (JFailed, ''Failed''), (JCancelled, ''Cancelled''),
      (JTimedOut, ''TimedOut''), (JUnknown, ''Unknown'')]"

definition worker_job_state_to_json :: "worker_job_state \<Rightarrow> json" where
  "worker_job_state_to_json = enum_to_json worker_job_state_names"

definition worker_job_state_from_json :: "json \<Rightarrow> worker_job_state result" where
  "worker_job_state_from_json = enum_from_json worker_job_state_names"

definition worker_failure_kind_names :: "(worker_failure_kind \<times> string) list" where
  "worker_failure_kind_names =
     [(FNone, ''none''), (FJob, ''job''), (FTransport, ''transport''), (FBudget, ''budget'')]"

definition worker_failure_kind_to_json :: "worker_failure_kind \<Rightarrow> json" where
  "worker_failure_kind_to_json = enum_to_json worker_failure_kind_names"

definition worker_failure_kind_from_json :: "json \<Rightarrow> worker_failure_kind result" where
  "worker_failure_kind_from_json = enum_from_json worker_failure_kind_names"

definition worker_interaction_type_names :: "(worker_interaction_type \<times> string) list" where
  "worker_interaction_type_names =
     [(IApproval, ''approval''), (IPermission, ''permission''), (IQuestion, ''question'')]"

definition worker_interaction_type_to_json :: "worker_interaction_type \<Rightarrow> json" where
  "worker_interaction_type_to_json = enum_to_json worker_interaction_type_names"

definition worker_interaction_state_names :: "(worker_interaction_state \<times> string) list" where
  "worker_interaction_state_names =
     [(IPending, ''pending''), (IApproved, ''approved''), (IDenied, ''denied''), (IAnswered, ''answered''),
      (ICancelled, ''cancelled''), (IExpired, ''expired'')]"

definition worker_interaction_state_to_json :: "worker_interaction_state \<Rightarrow> json" where
  "worker_interaction_state_to_json = enum_to_json worker_interaction_state_names"

text \<open>Unlike the macro, the decoders of interactions refuse a word they do not know.\<close>

definition parse_interaction_type :: "string \<Rightarrow> worker_interaction_type result" where
  "parse_interaction_type s =
     (if s = ''approval'' then Inr IApproval
      else if s = ''permission'' then Inr IPermission
      else if s = ''question'' then Inr IQuestion
      else Inl InvalidArgument)"

definition parse_interaction_decision :: "string \<Rightarrow> worker_interaction_state result" where
  "parse_interaction_decision s =
     (if s = ''approved'' then Inr IApproved
      else if s = ''denied'' then Inr IDenied
      else if s = ''answered'' then Inr IAnswered
      else if s = ''cancelled'' then Inr ICancelled
      else if s = ''expired'' then Inr IExpired
      else Inl InvalidArgument)"

definition parse_interaction_state :: "string \<Rightarrow> worker_interaction_state result" where
  "parse_interaction_state s =
     (if s = ''pending'' then Inr IPending
      else if s = ''approved'' then Inr IApproved
      else if s = ''denied'' then Inr IDenied
      else if s = ''answered'' then Inr IAnswered
      else if s = ''cancelled'' then Inr ICancelled
      else if s = ''expired'' then Inr IExpired
      else Inl InvalidArgument)"

section \<open>Usage\<close>

definition no_usage :: worker_usage where
  "no_usage = \<lparr>us_queue_duration_ms = None, us_wall_duration_ms = None, us_input_tokens = None,
     us_output_tokens = None, us_total_tokens = None, us_tool_calls = None, us_action_count = None,
     us_cost_units = None, us_provider = [], us_model = [], us_executor = [], us_metadata = jobject []\<rparr>"

fun json_empty :: "json \<Rightarrow> bool" where
  "json_empty JNull = True"
| "json_empty (JArr xs) = (xs = [])"
| "json_empty (JObj m) = (m = [])"
| "json_empty _ = False"

definition put_uint :: "string \<Rightarrow> u64 option \<Rightarrow> json \<Rightarrow> json" where
  "put_uint k v j = (case v of None \<Rightarrow> j | Some w \<Rightarrow> jput k (JUInt (unat w)) j)"

definition put_text :: "string \<Rightarrow> string \<Rightarrow> json \<Rightarrow> json" where
  "put_text k s j = (if s = [] then j else jput k (JStr s) j)"

definition worker_usage_to_json :: "worker_usage \<Rightarrow> json" where
  "worker_usage_to_json u =
     (let j = jobject [];
          j = put_uint ''queue_duration_ms'' (us_queue_duration_ms u) j;
          j = put_uint ''wall_duration_ms'' (us_wall_duration_ms u) j;
          j = put_uint ''input_tokens'' (us_input_tokens u) j;
          j = put_uint ''output_tokens'' (us_output_tokens u) j;
          j = put_uint ''total_tokens'' (us_total_tokens u) j;
          j = put_uint ''tool_calls'' (us_tool_calls u) j;
          j = put_uint ''action_count'' (us_action_count u) j;
          j = (case us_cost_units u of None \<Rightarrow> j | Some d \<Rightarrow> jput ''cost_units'' (JFloat d) j);
          j = put_text ''provider'' (us_provider u) j;
          j = put_text ''model'' (us_model u) j;
          j = put_text ''executor'' (us_executor u) j
      in if json_empty (us_metadata u) then j else jput ''metadata'' (us_metadata u) j)"

definition cost_ok :: "dbl \<Rightarrow> bool" where
  "cost_ok d \<longleftrightarrow> (case d of Finite q \<Rightarrow> \<not> q < 0 | _ \<Rightarrow> False)"

definition optional_uint :: "json_ops \<Rightarrow> json \<Rightarrow> string \<Rightarrow> u64 option result" where
  "optional_uint J j k =
     (if \<not> jcontains j k \<or> jat j k = Inr JNull then Inr None
      else rbind (jget_at (get_uint64 J) j k) (\<lambda>w. Inr (Some w)))"

definition worker_usage_from_json :: "json_ops \<Rightarrow> json \<Rightarrow> worker_usage result" where
  "worker_usage_from_json J j =
     (if \<not> is_object j then throw Validation ''Worker usage must be an object''
      else
        rbind (optional_uint J j ''queue_duration_ms'') (\<lambda>v_queue_duration_ms.
        rbind (optional_uint J j ''wall_duration_ms'') (\<lambda>v_wall_duration_ms.
        rbind (optional_uint J j ''input_tokens'') (\<lambda>v_input_tokens.
        rbind (optional_uint J j ''output_tokens'') (\<lambda>v_output_tokens.
        rbind (optional_uint J j ''total_tokens'') (\<lambda>v_total_tokens.
        rbind (optional_uint J j ''tool_calls'') (\<lambda>v_tool_calls.
        rbind (optional_uint J j ''action_count'') (\<lambda>v_action_count.
        rbind (if jcontains j ''cost_units'' \<and> jat j ''cost_units'' \<noteq> Inr JNull
               then rbind (jget_at (get_double J) j ''cost_units'') (\<lambda>d.
                 if \<not> cost_ok d then throw Validation ''Worker cost_units must be finite and non-negative''
                 else Inr (Some d))
               else Inr None) (\<lambda>v_cost_units.
        rbind (jvalue (get_string J) j ''provider'' []) (\<lambda>v_provider.
        rbind (jvalue (get_string J) j ''model'' []) (\<lambda>v_model.
        rbind (jvalue (get_string J) j ''executor'' []) (\<lambda>v_executor.
        rbind (jvalue Inr j ''metadata'' (jobject [])) (\<lambda>v_metadata.
          if \<not> is_object v_metadata then throw Validation ''Worker usage metadata must be an object''
          else Inr \<lparr>us_queue_duration_ms = v_queue_duration_ms, us_wall_duration_ms = v_wall_duration_ms,
            us_input_tokens = v_input_tokens, us_output_tokens = v_output_tokens,
            us_total_tokens = v_total_tokens, us_tool_calls = v_tool_calls, us_action_count = v_action_count,
            us_cost_units = v_cost_units, us_provider = v_provider, us_model = v_model,
            us_executor = v_executor, us_metadata = v_metadata\<rparr>)))))))))))))"

section \<open>Jobs and worker metadata\<close>

definition continuation_fits :: "opaque_continuation \<Rightarrow> bool" where
  "continuation_fits c \<longleftrightarrow>
     oc_provider_id c \<noteq> [] \<and> length (oc_provider_id c) \<le> 256 \<and> oc_provider_version c \<noteq> [] \<and>
     length (oc_provider_version c) \<le> 128 \<and> oc_state c \<noteq> [] \<and> length (oc_state c) \<le> 64 * 1024"

definition stored_continuation :: "json_ops \<Rightarrow> json \<Rightarrow> opaque_continuation result" where
  "stored_continuation J candidate =
     (if \<not> is_object candidate then throw Storage ''Stored worker continuation candidate is invalid''
      else
        rbind (jvalue (get_string J) candidate ''provider_id'' []) (\<lambda>provider_id.
        rbind (jvalue (get_string J) candidate ''provider_version'' []) (\<lambda>provider_version.
        rbind (jvalue (get_string J) candidate ''state'' []) (\<lambda>state.
          let c = \<lparr>oc_provider_id = provider_id, oc_provider_version = provider_version, oc_state = state\<rparr>
          in if \<not> continuation_fits c then throw Storage ''Stored worker continuation candidate is invalid''
             else Inr c))))"

definition worker_metadata_to_json :: "worker_metadata \<Rightarrow> json" where
  "worker_metadata_to_json m =
     jobject
        [(''id'', JStr (wm_id m)),
         (''name'', JStr (wm_name m)),
         (''version'', JStr (wm_version m)),
         (''description'', JStr (wm_description m)),
         (''plugin'', JStr (wm_plugin m)),
         (''event_schema'', JStr (wm_event_schema m)),
         (''event_source_id'', JStr (wm_event_source_id m)),
         (''status'', JStr (wm_status m)),
         (''capabilities'', JArr (map JStr (wm_capabilities m))),
         (''local'', JBool (wm_local m)),
         (''remote'', JBool (wm_remote m)),
         (''healthy'', JBool (wm_healthy m)),
         (''enabled'', JBool (wm_enabled m)),
         (''supports_status'', JBool (wm_supports_status m)),
         (''supports_recovery'', JBool (wm_supports_recovery m)),
         (''supports_cancellation'', JBool (wm_supports_cancellation m))]"

definition worker_metadata_from_json :: "json_ops \<Rightarrow> json \<Rightarrow> worker_metadata result" where
  "worker_metadata_from_json J j =
     rbind (jvalue (get_string J) j ''id'' []) (\<lambda>v_id.
     rbind (jvalue (get_string J) j ''name'' []) (\<lambda>v_name.
     rbind (jvalue (get_string J) j ''version'' []) (\<lambda>v_version.
     rbind (jvalue (get_string J) j ''description'' []) (\<lambda>v_description.
     rbind (jvalue (get_string J) j ''plugin'' []) (\<lambda>v_plugin.
     rbind (jvalue (get_string J) j ''event_schema'' []) (\<lambda>v_event_schema.
     rbind (jvalue (get_string J) j ''event_source_id'' []) (\<lambda>v_event_source_id.
     rbind (jvalue (get_string J) j ''status'' ''disabled'') (\<lambda>v_status.
     rbind (jvalue (get_list (get_string J)) j ''capabilities'' []) (\<lambda>v_capabilities.
     rbind (jvalue (get_bool J) j ''local'' True) (\<lambda>v_local.
     rbind (jvalue (get_bool J) j ''remote'' False) (\<lambda>v_remote.
     rbind (jvalue (get_bool J) j ''healthy'' False) (\<lambda>v_healthy.
     rbind (jvalue (get_bool J) j ''enabled'' False) (\<lambda>v_enabled.
     rbind (jvalue (get_bool J) j ''supports_recovery'' False) (\<lambda>v_supports_recovery.
     rbind (jvalue (get_bool J) j ''supports_status'' v_supports_recovery) (\<lambda>v_supports_status.
     rbind (jvalue (get_bool J) j ''supports_cancellation'' False) (\<lambda>v_supports_cancellation.
     Inr \<lparr>wm_id = v_id, wm_name = v_name, wm_version = v_version, wm_description =
      v_description, wm_plugin = v_plugin, wm_event_schema = v_event_schema,
      wm_event_source_id = v_event_source_id, wm_status = v_status, wm_capabilities =
      v_capabilities, wm_local = v_local, wm_remote = v_remote, wm_healthy = v_healthy,
      wm_enabled = v_enabled, wm_supports_status = v_supports_status, wm_supports_recovery =
      v_supports_recovery, wm_supports_cancellation = v_supports_cancellation\<rparr>))))))))))))))))"

definition worker_job_to_json :: "worker_job \<Rightarrow> json" where
  "worker_job_to_json job =
     (let j = jobject
        [(''id'', JStr (wj_id job)),
         (''worker_id'', JStr (wj_worker_id job)),
         (''run_id'', JStr (wj_run_id job)),
         (''node_id'', JStr (wj_node_id job)),
         (''idempotency_key'', JStr (wj_idempotency_key job)),
         (''external_job_id'', JStr (wj_external_job_id job)),
         (''attempt'', JUInt (unat (wj_attempt job))),
         (''status'', worker_job_state_to_json (wj_state job)),
         (''cancellation_target_state'', worker_job_state_to_json (wj_cancellation_target_state job)),
         (''failure_kind'', worker_failure_kind_to_json (wj_failure_kind job)),
         (''submitted_at'', JStr (wj_submitted_at job)),
         (''started_at'', JStr (wj_started_at job)),
         (''completed_at'', JStr (wj_completed_at job)),
         (''error'', JStr (wj_error job)),
         (''cancellation_error'', JStr (wj_cancellation_error job)),
         (''cancellation_requested'', JBool (wj_cancellation_requested job)),
         (''cancellation_acknowledged'', JBool (wj_cancellation_acknowledged job)),
         (''request_metadata'', wj_request_metadata job),
         (''result'', wj_result job),
         (''result_metadata'', wj_result_metadata job),
         (''artifacts'', JArr (wj_artifacts job)),
         (''usage'', worker_usage_to_json (wj_usage job))]
      in case wj_continuation job of
           None \<Rightarrow> j
         | Some c \<Rightarrow> jput ''_continuation_candidate''
             (jobject [(''provider_id'', JStr (oc_provider_id c)), (''provider_version'', JStr (oc_provider_version c)),
                       (''state'', JStr (oc_state c))]) j)"

definition worker_job_from_json :: "json_ops \<Rightarrow> json \<Rightarrow> worker_job result" where
  "worker_job_from_json J j =
     rbind (jget_at (get_string J) j ''id'') (\<lambda>v_id.
     rbind (jget_at (get_string J) j ''worker_id'') (\<lambda>v_worker_id.
     rbind (jget_at (get_string J) j ''run_id'') (\<lambda>v_run_id.
     rbind (jget_at (get_string J) j ''node_id'') (\<lambda>v_node_id.
     rbind (jvalue (get_string J) j ''idempotency_key'' []) (\<lambda>v_idempotency_key.
     rbind (jvalue (get_string J) j ''external_job_id'' []) (\<lambda>v_external_job_id.
     rbind (jvalue (get_unsigned J) j ''attempt'' 1) (\<lambda>v_attempt.
     rbind (jget_at worker_job_state_from_json j ''status'') (\<lambda>v_state.
     rbind (jvalue worker_job_state_from_json j ''cancellation_target_state'' JCancelled) (\<lambda>v_cancellation_target_state.
     rbind (jvalue worker_failure_kind_from_json j ''failure_kind'' FNone) (\<lambda>v_failure_kind.
     rbind (jvalue (get_string J) j ''submitted_at'' []) (\<lambda>v_submitted_at.
     rbind (jvalue (get_string J) j ''started_at'' []) (\<lambda>v_started_at.
     rbind (jvalue (get_string J) j ''completed_at'' []) (\<lambda>v_completed_at.
     rbind (jvalue (get_string J) j ''error'' []) (\<lambda>v_error.
     rbind (jvalue (get_string J) j ''cancellation_error'' []) (\<lambda>v_cancellation_error.
     rbind (jvalue (get_bool J) j ''cancellation_requested'' False) (\<lambda>v_cancellation_requested.
     rbind (jvalue (get_bool J) j ''cancellation_acknowledged'' False) (\<lambda>v_cancellation_acknowledged.
     rbind (jvalue Inr j ''request_metadata'' (jobject [])) (\<lambda>v_request_metadata.
     rbind (jvalue Inr j ''result'' (jobject [])) (\<lambda>v_result.
     rbind (jvalue Inr j ''result_metadata'' (jobject [])) (\<lambda>v_result_metadata.
     rbind (jvalue (get_list Inr) j ''artifacts'' []) (\<lambda>v_artifacts.
     rbind (if jcontains j ''_continuation_candidate'' \<and> jat j ''_continuation_candidate'' \<noteq> Inr JNull
            then rbind (jat j ''_continuation_candidate'') (\<lambda>c. rbind (stored_continuation J c) (\<lambda>k. Inr (Some k)))
            else Inr None) (\<lambda>v_continuation.
     rbind (if jcontains j ''usage'' then jget_at (worker_usage_from_json J) j ''usage'' else Inr no_usage) (\<lambda>v_usage.
     Inr \<lparr>wj_id = v_id, wj_worker_id = v_worker_id, wj_run_id = v_run_id, wj_node_id =
      v_node_id, wj_idempotency_key = v_idempotency_key, wj_external_job_id =
      v_external_job_id, wj_submitted_at = v_submitted_at, wj_started_at = v_started_at,
      wj_completed_at = v_completed_at, wj_error = v_error, wj_cancellation_error =
      v_cancellation_error, wj_attempt = v_attempt, wj_state = v_state,
      wj_cancellation_target_state = v_cancellation_target_state, wj_failure_kind =
      v_failure_kind, wj_cancellation_requested = v_cancellation_requested,
      wj_cancellation_acknowledged = v_cancellation_acknowledged, wj_request_metadata =
      v_request_metadata, wj_result = v_result, wj_result_metadata = v_result_metadata,
      wj_artifacts = v_artifacts, wj_usage = v_usage, wj_continuation =
      v_continuation\<rparr>)))))))))))))))))))))))"

section \<open>Interactions and tool calls\<close>

definition protocol_version :: json where
  "protocol_version = JUInt 1"

definition worker_interaction_request_to_json :: "worker_interaction_request \<Rightarrow> json" where
  "worker_interaction_request_to_json request =
     jobject
        [(''protocol_version'', protocol_version),
         (''request_id'', JStr (wq_request_id request)),
         (''worker_job_id'', JStr (wq_worker_job_id request)),
         (''worker_id'', JStr (wq_worker_id request)),
         (''external_job_id'', JStr (wq_external_job_id request)),
         (''session_id'', JStr (wq_session_id request)),
         (''request_type'', worker_interaction_type_to_json (wq_type request)),
         (''title'', JStr (wq_title request)),
         (''summary'', JStr (wq_summary request)),
         (''payload'', wq_payload request),
         (''created_at'', JStr (wq_created_at request)),
         (''deadline'', JStr (wq_deadline request)),
         (''risk'', JStr (wq_risk request)),
         (''category'', JStr (wq_category request))]"

definition worker_interaction_request_from_json :: "json_ops \<Rightarrow> json \<Rightarrow> worker_interaction_request result" where
  "worker_interaction_request_from_json J j =
     rbind (jvalue (get_string J) j ''request_id'' []) (\<lambda>v_request_id.
     rbind (jvalue (get_string J) j ''worker_job_id'' []) (\<lambda>v_worker_job_id.
     rbind (jvalue (get_string J) j ''worker_id'' []) (\<lambda>v_worker_id.
     rbind (jvalue (get_string J) j ''external_job_id'' []) (\<lambda>v_external_job_id.
     rbind (jvalue (get_string J) j ''session_id'' []) (\<lambda>v_session_id.
     rbind (jvalue (get_string J) j ''request_type'' ''question'') (\<lambda>text_type.
     rbind (parse_interaction_type text_type) (\<lambda>v_type.
     rbind (jvalue (get_string J) j ''title'' []) (\<lambda>v_title.
     rbind (jvalue (get_string J) j ''summary'' []) (\<lambda>v_summary.
     rbind (jvalue Inr j ''payload'' (jobject [])) (\<lambda>v_payload.
     rbind (jvalue (get_string J) j ''created_at'' []) (\<lambda>v_created_at.
     rbind (jvalue (get_string J) j ''deadline'' []) (\<lambda>v_deadline.
     rbind (jvalue (get_string J) j ''risk'' []) (\<lambda>v_risk.
     rbind (jvalue (get_string J) j ''category'' []) (\<lambda>v_category.
     Inr \<lparr>wq_request_id = v_request_id, wq_worker_job_id = v_worker_job_id, wq_worker_id
      = v_worker_id, wq_external_job_id = v_external_job_id, wq_session_id = v_session_id,
      wq_type = v_type, wq_title = v_title, wq_summary = v_summary, wq_created_at =
      v_created_at, wq_deadline = v_deadline, wq_risk = v_risk, wq_category = v_category,
      wq_payload = v_payload\<rparr>))))))))))))))"

definition worker_interaction_response_to_json :: "worker_interaction_response \<Rightarrow> json" where
  "worker_interaction_response_to_json response =
     jobject
        [(''request_id'', JStr (wr_request_id response)),
         (''decision'', worker_interaction_state_to_json (wr_state response)),
         (''payload'', wr_payload response),
         (''reason'', JStr (wr_reason response))]"

definition worker_interaction_response_from_json :: "json_ops \<Rightarrow> json \<Rightarrow> worker_interaction_response result" where
  "worker_interaction_response_from_json J j =
     rbind (jvalue (get_string J) j ''request_id'' []) (\<lambda>v_request_id.
     rbind (jvalue (get_string J) j ''decision'' ''denied'') (\<lambda>text_state.
     rbind (parse_interaction_decision text_state) (\<lambda>v_state.
     rbind (jvalue Inr j ''payload'' (jobject [])) (\<lambda>v_payload.
     rbind (jvalue (get_string J) j ''reason'' []) (\<lambda>v_reason.
     Inr \<lparr>wr_request_id = v_request_id, wr_state = v_state, wr_payload = v_payload,
      wr_reason = v_reason\<rparr>)))))"

definition worker_tool_call_request_to_json :: "worker_tool_call_request \<Rightarrow> json" where
  "worker_tool_call_request_to_json request =
     jobject
        [(''request_id'', JStr (tq_request_id request)),
         (''worker_job_id'', JStr (tq_worker_job_id request)),
         (''worker_id'', JStr (tq_worker_id request)),
         (''external_job_id'', JStr (tq_external_job_id request)),
         (''session_id'', JStr (tq_session_id request)),
         (''turn_id'', JStr (tq_turn_id request)),
         (''deadline'', JStr (tq_deadline request)),
         (''namespace'', JStr (tq_namespace_name request)),
         (''tool'', JStr (tq_tool request)),
         (''arguments'', tq_arguments request)]"

definition worker_tool_call_request_from_json :: "json_ops \<Rightarrow> json \<Rightarrow> worker_tool_call_request result" where
  "worker_tool_call_request_from_json J j =
     rbind (jvalue (get_string J) j ''request_id'' []) (\<lambda>v_request_id.
     rbind (jvalue (get_string J) j ''worker_job_id'' []) (\<lambda>v_worker_job_id.
     rbind (jvalue (get_string J) j ''worker_id'' []) (\<lambda>v_worker_id.
     rbind (jvalue (get_string J) j ''external_job_id'' []) (\<lambda>v_external_job_id.
     rbind (jvalue (get_string J) j ''session_id'' []) (\<lambda>v_session_id.
     rbind (jvalue (get_string J) j ''turn_id'' []) (\<lambda>v_turn_id.
     rbind (jvalue (get_string J) j ''deadline'' []) (\<lambda>v_deadline.
     rbind (jvalue (get_string J) j ''namespace'' []) (\<lambda>v_namespace_name.
     rbind (jvalue (get_string J) j ''tool'' []) (\<lambda>v_tool.
     rbind (jvalue Inr j ''arguments'' (jobject [])) (\<lambda>v_arguments.
     Inr \<lparr>tq_request_id = v_request_id, tq_worker_job_id = v_worker_job_id, tq_worker_id
      = v_worker_id, tq_external_job_id = v_external_job_id, tq_session_id = v_session_id,
      tq_turn_id = v_turn_id, tq_deadline = v_deadline, tq_namespace_name =
      v_namespace_name, tq_tool = v_tool, tq_arguments = v_arguments\<rparr>))))))))))"

definition worker_tool_call_response_to_json :: "worker_tool_call_response \<Rightarrow> json" where
  "worker_tool_call_response_to_json response =
     jobject
        [(''request_id'', JStr (tr_request_id response)),
         (''success'', JBool (tr_success response)),
         (''result'', tr_result response),
         (''error'', JStr (tr_error response))]"

definition worker_tool_call_response_from_json :: "json_ops \<Rightarrow> json \<Rightarrow> worker_tool_call_response result" where
  "worker_tool_call_response_from_json J j =
     rbind (jvalue (get_string J) j ''request_id'' []) (\<lambda>v_request_id.
     rbind (jvalue (get_bool J) j ''success'' False) (\<lambda>v_success.
     rbind (jvalue Inr j ''result'' (jobject [])) (\<lambda>v_result.
     rbind (jvalue (get_string J) j ''error'' []) (\<lambda>v_error.
     Inr \<lparr>tr_request_id = v_request_id, tr_success = v_success, tr_result = v_result,
      tr_error = v_error\<rparr>))))"

definition worker_interaction_to_json :: "worker_interaction \<Rightarrow> json" where
  "worker_interaction_to_json interaction =
     jobject
        [(''id'', JStr (wi_id interaction)),
         (''worker_job_id'', JStr (wi_worker_job_id interaction)),
         (''worker_id'', JStr (wi_worker_id interaction)),
         (''run_id'', JStr (wi_run_id interaction)),
         (''external_job_id'', JStr (wi_external_job_id interaction)),
         (''session_id'', JStr (wi_session_id interaction)),
         (''request_type'', worker_interaction_type_to_json (wi_type interaction)),
         (''state'', worker_interaction_state_to_json (wi_state interaction)),
         (''title'', JStr (wi_title interaction)),
         (''summary'', JStr (wi_summary interaction)),
         (''payload'', wi_payload interaction),
         (''response'', wi_response interaction),
         (''created_at'', JStr (wi_created_at interaction)),
         (''deadline'', JStr (wi_deadline interaction)),
         (''risk'', JStr (wi_risk interaction)),
         (''category'', JStr (wi_category interaction)),
         (''reason'', JStr (wi_reason interaction)),
         (''actor'', JStr (wi_actor interaction)),
         (''decided_at'', JStr (wi_decided_at interaction))]"

definition worker_interaction_from_json :: "json_ops \<Rightarrow> json \<Rightarrow> worker_interaction result" where
  "worker_interaction_from_json J j =
     rbind (jget_at (get_string J) j ''id'') (\<lambda>v_id.
     rbind (jvalue (get_string J) j ''worker_job_id'' []) (\<lambda>v_worker_job_id.
     rbind (jvalue (get_string J) j ''worker_id'' []) (\<lambda>v_worker_id.
     rbind (jvalue (get_string J) j ''run_id'' []) (\<lambda>v_run_id.
     rbind (jvalue (get_string J) j ''external_job_id'' []) (\<lambda>v_external_job_id.
     rbind (jvalue (get_string J) j ''session_id'' []) (\<lambda>v_session_id.
     rbind (jvalue (get_string J) j ''request_type'' ''question'') (\<lambda>text_type.
     rbind (parse_interaction_type text_type) (\<lambda>v_type.
     rbind (jvalue (get_string J) j ''state'' ''pending'') (\<lambda>text_state.
     rbind (parse_interaction_state text_state) (\<lambda>v_state.
     rbind (jvalue (get_string J) j ''title'' []) (\<lambda>v_title.
     rbind (jvalue (get_string J) j ''summary'' []) (\<lambda>v_summary.
     rbind (jvalue Inr j ''payload'' (jobject [])) (\<lambda>v_payload.
     rbind (jvalue Inr j ''response'' (jobject [])) (\<lambda>v_response.
     rbind (jvalue (get_string J) j ''created_at'' []) (\<lambda>v_created_at.
     rbind (jvalue (get_string J) j ''deadline'' []) (\<lambda>v_deadline.
     rbind (jvalue (get_string J) j ''risk'' []) (\<lambda>v_risk.
     rbind (jvalue (get_string J) j ''category'' []) (\<lambda>v_category.
     rbind (jvalue (get_string J) j ''reason'' []) (\<lambda>v_reason.
     rbind (jvalue (get_string J) j ''actor'' []) (\<lambda>v_actor.
     rbind (jvalue (get_string J) j ''decided_at'' []) (\<lambda>v_decided_at.
     Inr \<lparr>wi_id = v_id, wi_worker_job_id = v_worker_job_id, wi_worker_id = v_worker_id,
      wi_run_id = v_run_id, wi_external_job_id = v_external_job_id, wi_session_id =
      v_session_id, wi_type = v_type, wi_state = v_state, wi_title = v_title, wi_summary =
      v_summary, wi_created_at = v_created_at, wi_deadline = v_deadline, wi_risk = v_risk,
      wi_category = v_category, wi_payload = v_payload, wi_response = v_response, wi_reason
      = v_reason, wi_actor = v_actor, wi_decided_at = v_decided_at\<rparr>)))))))))))))))))))))"

section \<open>Reading back\<close>

lemma is_object_jobject [simp]: "is_object (jobject kvs)"
  by (simp add: is_object_def jobject_def)

lemma is_object_jput [simp]: "is_object (jput k v j)"
  by (cases j) (simp_all add: is_object_def jput_def jobject_def)

lemma is_object_put [simp]: "is_object j \<Longrightarrow> is_object (put_uint k v j)" "is_object j \<Longrightarrow> is_object (put_text k t j)"
  by (simp_all add: put_uint_def put_text_def split: option.split)

lemma jat_jput: "is_object j \<Longrightarrow> jat (jput k v j) k' = (if k = k' then Inr v else jat j k')"
  by (cases j) (simp_all add: is_object_def jput_def jat_def)

lemma jcontains_jat: "jcontains j k \<longleftrightarrow> (\<exists>v. jat j k = Inr v)"
  by (auto simp: jcontains_def jat_def omap_contains_def split: json.split option.split)

lemma jat_put_uint:
  "is_object j \<Longrightarrow> jat (put_uint k v j) k' =
     (if k = k' then (case v of None \<Rightarrow> jat j k' | Some w \<Rightarrow> Inr (JUInt (unat w))) else jat j k')"
  by (simp add: put_uint_def jat_jput split: option.split)

lemma jat_put_text:
  "is_object j \<Longrightarrow> jat (put_text k t j) k' = (if t \<noteq> [] \<and> k = k' then Inr (JStr t) else jat j k')"
  by (simp add: put_text_def jat_jput)

lemma jvalue_by_jat:
  "is_object j \<Longrightarrow> jvalue get j k d = (case jat j k of Inl e \<Rightarrow> Inr d | Inr v \<Rightarrow> get v)"
  by (auto simp: is_object_def jvalue_def jat_def split: json.splits option.splits)

lemma jat_put_optional:
  "is_object j \<Longrightarrow> jat (case c of None \<Rightarrow> j | Some d \<Rightarrow> jput k (f d) j) k' =
     (if k = k' then (case c of None \<Rightarrow> jat j k' | Some d \<Rightarrow> Inr (f d)) else jat j k')"
  by (simp add: jat_jput split: option.split)

lemma jat_put_unless:
  "is_object j \<Longrightarrow> jat (if b then j else jput k v j) k' = (if \<not> b \<and> k = k' then Inr v else jat j k')"
  by (simp add: jat_jput)

lemma is_object_optional [simp]:
  "is_object j \<Longrightarrow> is_object (case c of None \<Rightarrow> j | Some d \<Rightarrow> jput k (f d) j)"
  "is_object j \<Longrightarrow> is_object (if b then j else jput k v j)"
  by (simp_all split: option.split)

lemmas jat_puts = jat_put_uint jat_put_text jat_jput jat_put_optional jat_put_unless

definition usage_ok :: "worker_usage \<Rightarrow> bool" where
  "usage_ok u \<longleftrightarrow> is_object (us_metadata u) \<and> (case us_cost_units u of None \<Rightarrow> True | Some d \<Rightarrow> cost_ok d)"

lemma json_empty_object: "is_object j \<Longrightarrow> json_empty j \<longleftrightarrow> j = jobject []"
  by (cases j) (simp_all add: is_object_def jobject_def)

text \<open>Each key of encoded usage, looked up once.\<close>

lemma usage_lookup:
  assumes "usage_ok u"
  defines "j \<equiv> worker_usage_to_json u"
  defines "opt \<equiv> \<lambda>v. case v of None \<Rightarrow> Inl JsonOutOfRange | Some w \<Rightarrow> Inr (JUInt (unat (w :: u64)))"
  defines "txt \<equiv> \<lambda>t. if t = [] then Inl JsonOutOfRange else Inr (JStr t)"
  shows "is_object j" and "jat j ''queue_duration_ms'' = opt (us_queue_duration_ms u)"
    and "jat j ''wall_duration_ms'' = opt (us_wall_duration_ms u)" and "jat j ''input_tokens'' = opt (us_input_tokens u)"
    and "jat j ''output_tokens'' = opt (us_output_tokens u)" and "jat j ''total_tokens'' = opt (us_total_tokens u)"
    and "jat j ''tool_calls'' = opt (us_tool_calls u)" and "jat j ''action_count'' = opt (us_action_count u)"
    and "jat j ''cost_units'' = (case us_cost_units u of None \<Rightarrow> Inl JsonOutOfRange | Some d \<Rightarrow> Inr (JFloat d))"
    and "jat j ''provider'' = txt (us_provider u)" and "jat j ''model'' = txt (us_model u)"
    and "jat j ''executor'' = txt (us_executor u)"
    and "jat j ''metadata'' = (if us_metadata u = jobject [] then Inl JsonOutOfRange else Inr (us_metadata u))"
  using assms(1) unfolding j_def opt_def txt_def worker_usage_to_json_def Let_def usage_ok_def
  by (simp_all add: jat_puts json_empty_object cong: option.case_cong)

lemma optional_uint_codec:
  assumes "json_ops_ok J"
    and "jat j k = (case v of None \<Rightarrow> Inl JsonOutOfRange | Some w \<Rightarrow> Inr (JUInt (unat w)))"
  shows "optional_uint J j k = Inr v"
  using assms by (cases v) (simp_all add: optional_uint_def jcontains_jat jget_at_def)

lemma worker_usage_codec:
  assumes "json_ops_ok J" and "usage_ok u"
  shows "worker_usage_from_json J (worker_usage_to_json u) = Inr u"
proof -
  note look = usage_lookup [OF assms(2)]
  note opts = look(2-8) [THEN optional_uint_codec [OF assms(1)]]
  have str_field: "jvalue (get_string J) (worker_usage_to_json u) k [] = Inr t"
    if "jat (worker_usage_to_json u) k = (if t = [] then Inl JsonOutOfRange else Inr (JStr t))" for k t
    using that look(1) assms(1) by (simp add: jvalue_by_jat)
  have meta: "jvalue Inr (worker_usage_to_json u) ''metadata'' (jobject []) = Inr (us_metadata u)"
    using look(1,13) by (simp add: jvalue_by_jat)
  have cost: "(if jcontains (worker_usage_to_json u) ''cost_units'' \<and> jat (worker_usage_to_json u) ''cost_units'' \<noteq> Inr JNull
      then rbind (jget_at (get_double J) (worker_usage_to_json u) ''cost_units'') (\<lambda>d.
        if \<not> cost_ok d then throw Validation ''Worker cost_units must be finite and non-negative''
        else Inr (Some d)) else Inr None) = Inr (us_cost_units u)"
    using look(9) assms by (cases "us_cost_units u") (simp_all add: jcontains_jat jget_at_def usage_ok_def)
  show ?thesis
    using assms(2) look(1)
    by (simp add: worker_usage_from_json_def opts cost str_field [OF look(10)] str_field [OF look(11)] str_field [OF look(12)]
        meta usage_ok_def cong: rbind_weak_cong)
qed

lemma worker_job_state_codec [simp]: "worker_job_state_from_json (worker_job_state_to_json s) = Inr s"
  by (cases s) (simp_all add: worker_job_state_from_json_def worker_job_state_to_json_def enum_from_json_def
      enum_to_json_def worker_job_state_names_def)

lemma worker_failure_kind_codec [simp]: "worker_failure_kind_from_json (worker_failure_kind_to_json s) = Inr s"
  by (cases s) (simp_all add: worker_failure_kind_from_json_def worker_failure_kind_to_json_def enum_from_json_def
      enum_to_json_def worker_failure_kind_names_def)

lemma worker_interaction_words:
  "worker_interaction_type_to_json t = JStr w \<Longrightarrow> parse_interaction_type w = Inr t"
  "worker_interaction_state_to_json s = JStr w \<Longrightarrow> parse_interaction_state w = Inr s"
  "worker_interaction_state_to_json s = JStr w \<Longrightarrow> s \<noteq> IPending \<Longrightarrow> parse_interaction_decision w = Inr s"
  by (cases t; cases s; simp add: worker_interaction_type_to_json_def worker_interaction_state_to_json_def
      enum_to_json_def worker_interaction_type_names_def worker_interaction_state_names_def
      parse_interaction_type_def parse_interaction_state_def parse_interaction_decision_def; hypsubst; simp)+

lemma worker_metadata_codec:
  "json_ops_ok J \<Longrightarrow> worker_metadata_from_json J (worker_metadata_to_json m) = Inr m"
  by (simp add: worker_metadata_from_json_def worker_metadata_to_json_def get_list_roundtrip)

definition job_ok :: "worker_job \<Rightarrow> bool" where
  "job_ok job \<longleftrightarrow> usage_ok (wj_usage job) \<and>
     (case wj_continuation job of None \<Rightarrow> True | Some c \<Rightarrow> continuation_fits c)"

lemma get_list_json [simp]: "get_list Inr (JArr xs) = Inr xs"
  using get_list_roundtrip [of xs Inr "\<lambda>x. x"] by simp

lemma worker_job_codec:
  assumes "json_ops_ok J" and "job_ok job"
  shows "worker_job_from_json J (worker_job_to_json job) = Inr job"
proof (cases "wj_continuation job")
  case None
  with assms show ?thesis
    by (simp add: worker_job_from_json_def worker_job_to_json_def jget_at_def worker_usage_codec job_ok_def
        Let_def)
next
  case (Some c)
  have "stored_continuation J (jobject [(''provider_id'', JStr (oc_provider_id c)),
      (''provider_version'', JStr (oc_provider_version c)), (''state'', JStr (oc_state c))]) = Inr c"
    using assms Some by (simp add: stored_continuation_def job_ok_def continuation_fits_def Let_def)
  with Some assms show ?thesis
    by (simp add: worker_job_from_json_def worker_job_to_json_def jget_at_def worker_usage_codec job_ok_def
        Let_def)
qed

section \<open>Progress of a job\<close>

text \<open>How far a job has come; nothing the transitions allow goes back.\<close>

fun stage :: "worker_job_state \<Rightarrow> nat" where
  "stage JCreated = 0"
| "stage JSubmitting = 1"
| "stage JQueued = 2"
| "stage JRunning = 3"
| "stage JWaiting = 3"
| "stage JUnknown = 3"
| "stage _ = 4"

inductive job_trace :: "worker_job_state \<Rightarrow> worker_job_state list \<Rightarrow> bool" where
  job_trace_Nil: "job_trace s []"
| job_trace_Cons: "valid_worker_job_transition s t \<Longrightarrow> job_trace t ts \<Longrightarrow> job_trace s (t # ts)"

inductive_simps job_trace_Cons_iff: "job_trace s (t # ts)"

lemma stage_transition:
  "valid_worker_job_transition s t \<Longrightarrow> stage s \<le> stage t \<and> (stage s = stage t \<longrightarrow> stage s = 3)"
  by (cases s; cases t) (simp_all add: valid_worker_job_transition_def worker_job_terminal_def)

lemma terminal_stage: "worker_job_terminal s \<longleftrightarrow> stage s = 4"
  by (cases s) (simp_all add: worker_job_terminal_def)

definition example_job :: worker_job where
  "example_job = \<lparr>wj_id = ''job'', wj_worker_id = ''codex'', wj_run_id = ''run'', wj_node_id = ''code'',
     wj_idempotency_key = ''key'', wj_external_job_id = [], wj_submitted_at = [], wj_started_at = [],
     wj_completed_at = [], wj_error = [], wj_cancellation_error = [], wj_attempt = 1, wj_state = JRunning,
     wj_cancellation_target_state = JCancelled, wj_failure_kind = FNone, wj_cancellation_requested = False,
     wj_cancellation_acknowledged = False, wj_request_metadata = jobject [], wj_result = jobject [],
     wj_result_metadata = jobject [], wj_artifacts = [], wj_usage = no_usage\<lparr>us_total_tokens := Some 12\<rparr>,
     wj_continuation = Some \<lparr>oc_provider_id = ''p'', oc_provider_version = ''1'', oc_state = ''s''\<rparr>\<rparr>"

section \<open>Properties\<close>

text \<open>
  A worker job survives its durable form. Whatever the optional parts, a job whose usage and
  continuation are within the limits the decoder enforces is read back unchanged.
\<close>

lemma worker_job_roundtrip:
  assumes "json_ops_ok J" and "job_ok job"
  shows "worker_job_from_json J (worker_job_to_json job) = Inr job"
  using assms by (rule worker_job_codec)

lemma worker_job_roundtrip_example:
  "worker_job_from_json plain_ops (worker_job_to_json example_job) = Inr example_job"
  by (rule worker_job_roundtrip [OF plain_ops_ok])
    (simp add: job_ok_def usage_ok_def continuation_fits_def example_job_def no_usage_def)

text \<open>
  A job only moves forward. In every course of legal transitions the stages created, submitting,
  queued, in progress, terminal come in this order; only the stage in progress may repeat, and a
  terminal state is the last.
\<close>

lemma worker_job_moves_forward:
  assumes "job_trace s ts"
  shows "sorted (map stage (s # ts)) \<and> (\<forall>n. n \<noteq> 3 \<longrightarrow> count_list (map stage (s # ts)) n \<le> 1) \<and>
    (worker_job_terminal s \<longrightarrow> ts = [])"
  using assms
proof induction
  case (job_trace_Nil s)
  then show ?case by simp
next
  case (job_trace_Cons s t ts)
  note step = stage_transition [OF job_trace_Cons.hyps(1)]
  have "stage s \<le> x" if "x \<in> set (map stage (t # ts))" for x
    using that step job_trace_Cons.IH by auto
  moreover have "count_list (map stage (t # ts)) (stage s) = 0" if "stage s \<noteq> 3"
    using that step job_trace_Cons.IH by (auto simp: count_list_0_iff)
  moreover have "\<not> worker_job_terminal s"
    using job_trace_Cons.hyps(1) by (simp add: valid_worker_job_transition_def split: if_splits)
  ultimately show ?case using job_trace_Cons.IH by auto
qed

lemma worker_job_moves_forward_example:
  "sorted (map stage [JCreated, JSubmitting, JRunning, JUnknown, JRunning, JCompleted])"
proof -
  have "job_trace JCreated [JSubmitting, JRunning, JUnknown, JRunning, JCompleted]"
    by (simp add: job_trace_Cons_iff job_trace_Nil valid_worker_job_transition_def worker_job_terminal_def)
  from worker_job_moves_forward [OF this] show ?thesis by blast
qed

end
