(* ===== verification/Laso_Graph.thy ===== *)
theory Laso_Graph
  imports Laso_Types Laso_Registry Laso_Policy Laso_Pipeline Laso_Worker
begin

text \<open>
  \<^verbatim>\<open>src/runtime/graph.cpp\<close>: how a run moves through its pipeline graph. A run holds one active token
  (node, message, branch frames) and a queue of ready tokens; \<^verbatim>\<open>advance\<close> turns the result of a node
  into tokens for its successors, \<^verbatim>\<open>prepare_join\<close> holds the branches of a parallel group back until
  all of them have arrived. Both change the run before they may throw, so an operation is a
  function from the run to an outcome and the run it leaves behind.
\<close>

section \<open>What the runtime resolves bindings in\<close>

record tool_metadata =
  tm_name :: string
  tm_plugin :: string
  tm_network :: bool
  tm_approval_required :: bool

datatype continuation_mode = Unsupported | Stateless | Opaque

record provider_metadata =
  pm_name :: string
  pm_version :: string
  pm_remote :: bool
  pm_network :: bool
  pm_capabilities :: "string list"
  pm_continuation_mode :: continuation_mode

record model_binding =
  mb_provider :: string
  mb_model :: string
  mb_options :: json

record runtime_deps =
  d_functions :: "unit registry"
  d_tools :: "tool_metadata registry"
  d_providers :: "provider_metadata registry"
  d_workers :: "worker_metadata registry option"
  d_nodes :: "unit registry"
  d_models :: "(string, model_binding) omap"
  d_policy :: policy_engine

fun resolve_capability ::
  "worker_metadata registry \<Rightarrow> string \<Rightarrow> string list \<Rightarrow> string \<Rightarrow> string result" where
  "resolve_capability reg capability [] res =
     (if res = [] then throw NotFound ''No worker provides the requested capability'' else Inr res)"
| "resolve_capability reg capability (candidate # rest) res =
     rbind (get candidate reg) (\<lambda>metadata.
       if capability \<notin> set (wm_capabilities metadata)
       then resolve_capability reg capability rest res
       else if res \<noteq> [] then throw Conflict ''Worker capability is ambiguous''
       else resolve_capability reg capability rest candidate)"

definition resolve_worker :: "worker_metadata registry \<Rightarrow> string \<Rightarrow> string \<Rightarrow> string result" where
  "resolve_worker reg worker_id capability =
     (if worker_id \<noteq> [] then rbind (get worker_id reg) (\<lambda>_. Inr worker_id)
      else if capability = [] then throw Validation ''Worker id or capability is required''
      else resolve_capability reg capability (names reg) [])"

definition permission ::
  "json_ops \<Rightarrow> runtime_deps \<Rightarrow> node_definition \<Rightarrow> run \<Rightarrow> (policy_decision \<times> string) result" where
  "permission J deps n r =
     rbind (jvalue (get_string J) (m_metadata (r_message r)) ''classification'' ''public'') (\<lambda>cls.
     let c = \<lparr>pc_pipeline_id = r_pipeline_id r, pc_node_id = n_id n, pc_resource = n_binding n,
              pc_classification = cls, pc_network = False, pc_remote = False, pc_worker_node = False,
              pc_approval_required = False\<rparr>
     in rbind
          (if n_type n = ''tool'' then
             rbind (get (n_binding n) (d_tools deps)) (\<lambda>m.
               Inr (c\<lparr>pc_network := tm_network m, pc_approval_required := tm_approval_required m\<rparr>))
           else if n_type n = ''agent'' then
             (case map_of (d_models deps) (n_binding n) of
                None \<Rightarrow> throw Provider ''Logical model not configured''
              | Some binding \<Rightarrow>
                  rbind (get (mb_provider binding) (d_providers deps)) (\<lambda>m.
                    Inr (c\<lparr>pc_remote := pm_remote m, pc_network := pm_network m \<or> pm_remote m\<rparr>)))
           else if n_type n = ''worker'' then
             (case d_workers deps of
                None \<Rightarrow> throw Execution ''Worker manager is unavailable''
              | Some workers \<Rightarrow>
                  rbind (resolve_worker workers (n_binding n) (n_capability n)) (\<lambda>worker_id.
                  rbind (get worker_id workers) (\<lambda>m.
                    Inr (c\<lparr>pc_worker_node := True, pc_resource := worker_id,
                           pc_remote := wm_remote m, pc_network := wm_remote m\<rparr>))))
           else Inr c)
          (\<lambda>ctx. Inr (evaluate (d_policy deps) ctx)))"

datatype node_object =
    InputNode | OutputNode | ApprovalNode | ParallelNode | JoinNode | SubpipelineNode
  | LoopNode u32 | RouterNode node_definition | ValidatorNode node_definition
  | FunctionNode string | ToolNode tool_metadata | WorkerNode string |
    AgentNode provider_metadata model_binding | ExtensionNode string

definition make_node :: "runtime_deps \<Rightarrow> node_definition \<Rightarrow> node_object result" where
  "make_node deps n =
     (if n_type n = ''input'' then Inr InputNode
      else if n_type n = ''output'' then Inr OutputNode
      else if n_type n = ''approval'' then Inr ApprovalNode
      else if n_type n = ''parallel'' then Inr ParallelNode
      else if n_type n = ''join'' then Inr JoinNode
      else if n_type n = ''subpipeline'' then Inr SubpipelineNode
      else if n_type n = ''loop'' then Inr (LoopNode (n_max_iterations n))
      else if n_type n = ''router'' then Inr (RouterNode n)
      else if n_type n = ''validator'' then Inr (ValidatorNode n)
      else if n_type n = ''function'' then
        rbind (get (n_binding n) (d_functions deps)) (\<lambda>_. Inr (FunctionNode (n_binding n)))
      else if n_type n = ''tool'' then
        rbind (get (n_binding n) (d_tools deps)) (\<lambda>m. Inr (ToolNode m))
      else if n_type n = ''worker'' then
        (case d_workers deps of
           None \<Rightarrow> throw Execution ''Worker manager is unavailable''
         | Some workers \<Rightarrow>
             rbind (resolve_worker workers (n_binding n) (n_capability n)) (\<lambda>w. Inr (WorkerNode w)))
      else if n_type n = ''agent'' then
        (case map_of (d_models deps) (n_binding n) of
           None \<Rightarrow> throw Provider ''Logical model not configured''
         | Some binding \<Rightarrow>
             rbind (get (mb_provider binding) (d_providers deps)) (\<lambda>m. Inr (AgentNode m binding)))
      else rbind (get (n_type n) (d_nodes deps)) (\<lambda>_. Inr (ExtensionNode (n_type n))))"

section \<open>Moving tokens\<close>

fun next_ready :: "run \<Rightarrow> bool \<times> run" where
  "next_ready r =
     (case r_ready r of
        [] \<Rightarrow> (False, r)
      | token # rest \<Rightarrow>
          (True, r\<lparr>r_ready := rest, r_active_node := tk_node_id token, r_message := tk_message token,
                   r_frames := tk_frames token, r_prepared_join := []\<rparr>))"

declare next_ready.simps [simp del]

text \<open>
  The outcome of \<^verbatim>\<open>prepare_join\<close> is whether the node may run; a waiting join also asks for a
  checkpoint, listed as the third component.
\<close>

definition prepare_join :: "run \<Rightarrow> node_definition \<Rightarrow> bool result \<times> run \<times> string list" where
  "prepare_join r n =
     (if n_type n \<noteq> ''join'' then (Inr True, r, [])
      else if r_prepared_join r = n_id n then (Inr True, r, [])
      else if r_frames r = [] \<or> bf_join (last (r_frames r)) \<noteq> n_id n
      then (throw Execution ''Join reached outside its matching parallel group'', r, [])
      else
        let frame = last (r_frames r);
            arrived = (case map_of (r_joins r) (bf_group frame) of
                         None \<Rightarrow> [] | Some c \<Rightarrow> jc_messages c);
            (inserted, arrived') = omap_emplace (bf_index frame) (r_message r) arrived;
            r1 = r\<lparr>r_joins := omap_put (bf_group frame) \<lparr>jc_messages = arrived'\<rparr> (r_joins r)\<rparr>
        in if \<not> inserted then (throw Execution ''Parallel branch arrived twice'', r1, [])
           else if length arrived' = unat (bf_width frame) then
             (Inr True,
              r1\<lparr>r_message := (r_message r1)\<lparr>m_payload := JArr (map (m_payload \<circ> snd) arrived')\<rparr>,
                 r_frames := butlast (r_frames r1),
                 r_joins := omap_erase (bf_group frame) (r_joins r1),
                 r_prepared_join := n_id n\<rparr>, [])
           else (case next_ready r1 of
                   (False, r2) \<Rightarrow> (throw Execution ''Join has missing branches'', r2, [])
                 | (True, r2) \<Rightarrow> (Inr False, r2, [''join.waiting''])))"

definition matching :: "pipeline_definition \<Rightarrow> node_definition \<Rightarrow> string \<Rightarrow> edge_definition list" where
  "matching p n condition =
     filter (\<lambda>e. e_from e = n_id n \<and> (e_condition e = [] \<or> e_condition e = condition)) (pl_edges p)"

definition edge_key :: "edge_definition \<Rightarrow> string" where
  "edge_key e = e_from e @ ''->'' @ e_to e"

fun push_edges ::
  "node_definition \<Rightarrow> string \<Rightarrow> nat \<Rightarrow> nat \<Rightarrow> edge_definition list \<Rightarrow> run \<Rightarrow> unit result \<times> run" where
  "push_edges n grp width i [] r = (Inr (), r)"
| "push_edges n grp width i (e # es) r =
     (let count = (case map_of (r_edge_visits r) (edge_key e) of None \<Rightarrow> 0 | Some c \<Rightarrow> c) + 1;
          r1 = (if e_max_iterations e \<noteq> 0
                then r\<lparr>r_edge_visits := omap_put (edge_key e) count (r_edge_visits r)\<rparr> else r)
      in if e_max_iterations e \<noteq> 0 \<and> count > e_max_iterations e
         then (throw Execution ''Edge iteration limit exceeded'', r1)
         else
           let frames = r_frames r1 @
                 (if n_type n = ''parallel''
                  then [\<lparr>bf_group = grp, bf_join = n_join n, bf_width = of_nat width, bf_index = of_nat i\<rparr>]
                  else []);
               token = \<lparr>tk_node_id = e_to e, tk_message = r_message r1, tk_frames = frames\<rparr>
           in push_edges n grp width (Suc i) es (r1\<lparr>r_ready := r_ready r1 @ [token]\<rparr>))"

definition advance ::
  "string \<Rightarrow> run \<Rightarrow> pipeline_definition \<Rightarrow> node_definition \<Rightarrow> string \<Rightarrow> bool result \<times> run" where
  "advance grp r p n condition =
     (if n_type n = ''output'' then
        (if r_frames r \<noteq> [] \<or> r_ready r \<noteq> [] \<or> r_joins r \<noteq> []
         then (throw Execution ''Parallel branches must converge before output'', r)
         else (Inr False, r))
      else
        let outgoing = matching p n condition
        in if outgoing = [] then (throw Execution ''No matching outgoing edge'', r)
           else if n_type n \<noteq> ''parallel'' \<and> length outgoing \<noteq> 1
           then (throw Execution ''Ambiguous routing result'', r)
           else (case push_edges n grp (length outgoing) 0 outgoing r of
                   (Inl e, r1) \<Rightarrow> (Inl e, r1)
                 | (Inr _, r1) \<Rightarrow>
                     if length (r_ready r1) > 256
                     then (throw Execution ''Ready branch limit exceeded'', r1)
                     else if n_type n = ''parallel'' then (Inr True, r1)
                     else (case next_ready r1 of (b, r2) \<Rightarrow> (Inr b, r2))))"

section \<open>Routing in a validated pipeline\<close>

text \<open>The conditions a node can report: the names its two branches carry, nothing for the others.\<close>

definition fits :: "node_definition \<Rightarrow> string \<Rightarrow> bool" where
  "fits n condition \<longleftrightarrow>
     (if n_type n = ''loop'' then condition \<in> {''repeat'', ''done''}
      else if n_type n = ''router'' \<or> n_type n = ''validator'' then condition \<in> {''accepted'', ''rejected''}
      else True)"

definition visits :: "run \<Rightarrow> edge_definition \<Rightarrow> u32" where
  "visits r e = (case map_of (r_edge_visits r) (edge_key e) of None \<Rightarrow> 0 | Some c \<Rightarrow> c)"

definition token_of :: "run \<Rightarrow> execution_token" where
  "token_of r = \<lparr>tk_node_id = r_active_node r, tk_message = r_message r, tk_frames = r_frames r\<rparr>"

lemma matching_outgoing:
  "matching p n c = filter (\<lambda>e. e_condition e = [] \<or> e_condition e = c) (outgoing p (n_id n))"
  by (simp add: matching_def outgoing_def conj_commute)

lemma two_conditions_unique:
  assumes "length es = 2" and "e_condition ` set es = {a, b}" and "a \<noteq> b" and "a \<noteq> []" and "b \<noteq> []"
    and "c = a \<or> c = b"
  shows "\<exists>e. filter (\<lambda>e. e_condition e = [] \<or> e_condition e = c) es = [e]"
proof -
  obtain x y where es: "es = [x, y]"
    using assms(1) by (auto simp: numeral_2_eq_2 length_Suc_conv)
  with assms(2,3) have "e_condition x = a \<and> e_condition y = b \<or> e_condition x = b \<and> e_condition y = a"
    by (auto simp: doubleton_eq_iff)
  with es assms(3-6) show ?thesis by auto
qed

lemma accepted_node:
  assumes "accepted p extensions" and "(nid, n) \<in> set (pl_nodes p)"
  shows "check_node p extensions (nid, n) = Inr ()" and "check_routing p (nid, n) = Inr ()"
  using acceptedD(2,4) [OF assms(1)] assms(2) by auto

lemma accepted_output_id:
  assumes "accepted p extensions" and "(nid, n) \<in> set (pl_nodes p)" and "omap_inv (pl_nodes p)"
  shows "n_type n = ''output'' \<longleftrightarrow> nid = ''output''"
proof -
  have "n_type n = ''output'' \<Longrightarrow> nid = ''output''"
    using accepted_node(1) [OF assms(1,2)] by (simp add: check_node_def split: if_splits)
  moreover have "map_of (pl_nodes p) nid = Some n"
    using assms(2) omap_inv_distinct [OF assms(3)] by simp
  then have "nid = ''output'' \<Longrightarrow> n_type n = ''output''"
    using acceptedD(1) [OF assms(1)] by (simp add: check_shape_def split: if_splits)
  ultimately show ?thesis by blast
qed

lemma accepted_matching:
  assumes "accepted p extensions" and "(n_id n, n) \<in> set (pl_nodes p)" and "omap_inv (pl_nodes p)"
    and "n_type n \<noteq> ''output''" and "n_type n \<noteq> ''parallel''" and "fits n c"
  shows "\<exists>e. matching p n c = [e]"
proof -
  have routing: "check_routing p (n_id n, n) = Inr ()" by (rule accepted_node(2) [OF assms(1,2)])
  have out: "n_id n \<noteq> ''output''" using accepted_output_id [OF assms(1-3)] assms(4) by simp
  show ?thesis
  proof (cases "n_type n = ''router'' \<or> n_type n = ''validator'' \<or> n_type n = ''loop''")
    case True
    let ?es = "outgoing p (n_id n)"
    have "length ?es = 2 \<and> e_condition ` set ?es =
        (if n_type n = ''loop'' then {''repeat'', ''done''} else {''accepted'', ''rejected''})"
      using routing out True assms(5) by (simp add: check_routing_def Let_def split: if_splits)
    then show ?thesis
      using True assms(6) unfolding matching_outgoing fits_def
      by (intro two_conditions_unique [where a = "if n_type n = ''loop'' then ''repeat'' else ''accepted''"
            and b = "if n_type n = ''loop'' then ''done'' else ''rejected''"])
        (auto split: if_splits)
  next
    case False
    then have "length (outgoing p (n_id n)) = 1 \<and> e_condition (hd (outgoing p (n_id n))) = []"
      using routing out assms(5) by (simp add: check_routing_def Let_def split: if_splits)
    then show ?thesis unfolding matching_outgoing by (auto simp: length_Suc_conv)
  qed
qed

lemma accepted_matching_parallel:
  assumes "accepted p extensions" and "(n_id n, n) \<in> set (pl_nodes p)" and "omap_inv (pl_nodes p)"
    and "n_type n = ''parallel''"
  shows "matching p n c = outgoing p (n_id n)" and "2 \<le> length (outgoing p (n_id n))"
    and "length (outgoing p (n_id n)) \<le> 16"
proof -
  have routing: "check_routing p (n_id n, n) = Inr ()" by (rule accepted_node(2) [OF assms(1,2)])
  have out: "n_id n \<noteq> ''output''" using accepted_output_id [OF assms(1-3)] assms(4) by simp
  show "matching p n c = outgoing p (n_id n)" and "2 \<le> length (outgoing p (n_id n))"
    and "length (outgoing p (n_id n)) \<le> 16"
    using routing out assms(4) by (auto simp: matching_outgoing check_routing_def Let_def split: if_splits)
qed

section \<open>What pushing edges leaves behind\<close>

definition branch_token :: "run \<Rightarrow> node_definition \<Rightarrow> string \<Rightarrow> nat \<Rightarrow> nat \<times> edge_definition \<Rightarrow> execution_token" where
  "branch_token r n grp width = (\<lambda>(i, e).
     \<lparr>tk_node_id = e_to e, tk_message = r_message r,
      tk_frames = r_frames r @
        (if n_type n = ''parallel''
         then [\<lparr>bf_group = grp, bf_join = n_join n, bf_width = of_nat width, bf_index = of_nat i\<rparr>]
         else [])\<rparr>)"

definition within_limits :: "edge_definition list \<Rightarrow> run \<Rightarrow> bool" where
  "within_limits es r \<longleftrightarrow> (\<forall>e \<in> set es. e_max_iterations e \<noteq> 0 \<longrightarrow> visits r e \<le> e_max_iterations e)"

lemma push_edges_Inr:
  assumes "push_edges n grp width i es r = (Inr u, r')"
  shows "r' = r\<lparr>r_ready := r_ready r @ map (branch_token r n grp width) (enumerate i es),
               r_edge_visits := r_edge_visits r'\<rparr>"
  using assms
proof (induction es arbitrary: i r)
  case Nil
  then show ?case by simp
next
  case (Cons e es)
  let ?c = "visits r e + 1"
  let ?r1 = "if e_max_iterations e \<noteq> 0
    then r\<lparr>r_edge_visits := omap_put (edge_key e) ?c (r_edge_visits r)\<rparr> else r"
  let ?r2 = "?r1\<lparr>r_ready := r_ready ?r1 @ [branch_token ?r1 n grp width (i, e)]\<rparr>"
  have "push_edges n grp width (Suc i) es ?r2 = (Inr u, r')"
    using Cons.prems by (auto simp: visits_def branch_token_def Let_def split: if_splits)
  from Cons.IH [OF this] show ?case
    by (simp add: branch_token_def split: if_splits)
qed

lemma push_edges_visits:
  assumes "push_edges n grp width i es r = (res, r')"
  shows "(\<forall>e. edge_key e \<notin> edge_key ` set es \<longrightarrow> visits r' e = visits r e) \<and> r_joins r' = r_joins r \<and>
    r_message r' = r_message r \<and> r_frames r' = r_frames r"
  using assms
proof (induction es arbitrary: i r)
  case Nil
  then show ?case by simp
next
  case (Cons e es)
  let ?r1 = "if e_max_iterations e \<noteq> 0
    then r\<lparr>r_edge_visits := omap_put (edge_key e) (visits r e + 1) (r_edge_visits r)\<rparr> else r"
  let ?r2 = "?r1\<lparr>r_ready := r_ready ?r1 @ [branch_token ?r1 n grp width (i, e)]\<rparr>"
  have step: "(\<forall>d. edge_key d \<noteq> edge_key e \<longrightarrow> visits ?r1 d = visits r d) \<and> r_joins ?r1 = r_joins r \<and>
      r_message ?r1 = r_message r \<and> r_frames ?r1 = r_frames r"
    by (simp add: visits_def)
  from Cons.prems consider "r' = ?r1" | "push_edges n grp width (Suc i) es ?r2 = (res, r')"
    by (auto simp: visits_def branch_token_def Let_def split: if_splits)
  then show ?case
  proof cases
    case 1
    with step show ?thesis by auto
  next
    case 2
    have "visits ?r2 d = visits ?r1 d" for d by (simp add: visits_def)
    with Cons.IH [OF 2] step show ?thesis by auto
  qed
qed

lemma push_edges_count:
  assumes "push_edges n grp width i es r = (Inr u, r')" and "distinct (map edge_key es)"
    and "e \<in> set es" and "e_max_iterations e \<noteq> 0"
  shows "visits r' e = visits r e + 1 \<and> visits r' e \<le> e_max_iterations e"
  using assms
proof (induction es arbitrary: i r)
  case Nil
  then show ?case by simp
next
  case (Cons d es)
  let ?r1 = "if e_max_iterations d \<noteq> 0
    then r\<lparr>r_edge_visits := omap_put (edge_key d) (visits r d + 1) (r_edge_visits r)\<rparr> else r"
  let ?r2 = "?r1\<lparr>r_ready := r_ready ?r1 @ [branch_token ?r1 n grp width (i, d)]\<rparr>"
  have rest: "push_edges n grp width (Suc i) es ?r2 = (Inr u, r')"
    and limit: "e_max_iterations d \<noteq> 0 \<Longrightarrow> visits r d + 1 \<le> e_max_iterations d"
    using Cons.prems(1) by (auto simp: visits_def branch_token_def Let_def split: if_splits)
  show ?case
  proof (cases "e \<in> set es")
    case True
    then have "edge_key e \<in> edge_key ` set es" by (rule imageI)
    with Cons.prems(2) have "edge_key e \<noteq> edge_key d" by auto
    then have "visits ?r2 e = visits r e" by (simp add: visits_def)
    with Cons.IH [OF rest _ True Cons.prems(4)] Cons.prems(2) show ?thesis by auto
  next
    case False
    with Cons.prems(3) have "e = d" by simp
    moreover from this have "visits r' e = visits ?r2 e"
      using push_edges_visits [OF rest] Cons.prems(2) by simp
    moreover have "visits ?r2 d = visits r d + 1"
      using Cons.prems(4) \<open>e = d\<close> by (simp add: visits_def)
    ultimately show ?thesis using limit Cons.prems(4) by simp
  qed
qed

lemma is_identifier_no_gt: "is_identifier s \<Longrightarrow> CHR ''>'' \<notin> set s"
  by (auto simp: is_identifier_def is_alnum_def less_eq_char_def list_all_iff split: list.splits)

lemma edge_key_inj:
  assumes "is_identifier (e_from a)" and "is_identifier (e_from b)" and "edge_key a = edge_key b"
  shows "e_from a = e_from b \<and> e_to a = e_to b"
proof -
  have split: "takeWhile (\<lambda>c. c \<noteq> CHR ''>'') (x @ ''->'' @ y) = x @ ''-''"
    if "CHR ''>'' \<notin> set x" for x y
    using that by (induction x) auto
  have "e_from a @ ''-'' = e_from b @ ''-''"
    using assms split [OF is_identifier_no_gt] unfolding edge_key_def by metis
  with assms(3) show ?thesis by (simp add: edge_key_def)
qed

lemma checked_edges:
  assumes "foldM (check_edge p) es ps = Inr qs"
  shows "(\<forall>e \<in> set es. is_identifier (e_from e) \<and> (e_from e, e_to e) \<notin> set ps) \<and> distinct (map edge_key es)"
  using assms
proof (induction es arbitrary: ps)
  case Nil
  then show ?case by simp
next
  case (Cons e es)
  from Cons.prems obtain ps' where step: "check_edge p e ps = Inr ps'" and fold: "foldM (check_edge p) es ps' = Inr qs"
    by (auto elim: rbindE)
  from step have ps': "ps' = (e_from e, e_to e) # ps"
    and here: "is_identifier (e_from e)" "(e_from e, e_to e) \<notin> set ps"
    by (auto simp: check_edge_def split: if_splits)
  note rest = fold [unfolded ps']
  have "edge_key e \<noteq> edge_key d" if "d \<in> set es" for d
    using Cons.IH [OF rest] edge_key_inj [OF here(1), of d] that by auto
  with Cons.IH [OF rest] here show ?case by auto
qed

lemma accepted_keys_distinct:
  assumes "accepted p extensions"
  shows "distinct (map edge_key (pl_edges p))"
  using acceptedD(3) [OF assms] checked_edges by blast

lemma matching_distinct:
  assumes "accepted p extensions"
  shows "distinct (map edge_key (matching p n c))"
  using distinct_filter accepted_keys_distinct [OF assms] unfolding matching_def
  by (simp add: distinct_map inj_on_def)

lemma advance_cases:
  assumes "advance grp r p n c = (Inr b, r')" and "n_type n \<noteq> ''output''"
  shows "\<exists>u r1. push_edges n grp (length (matching p n c)) 0 (matching p n c) r = (Inr u, r1) \<and>
    length (r_ready r1) \<le> 256 \<and> r' = (if n_type n = ''parallel'' then r1 else snd (next_ready r1))"
proof (cases "push_edges n grp (length (matching p n c)) 0 (matching p n c) r")
  case (Pair res r1)
  with assms show ?thesis
    by (cases res; cases "next_ready r1") (auto simp: advance_def Let_def split: if_splits)
qed

lemma advance_Inr_push:
  assumes "advance grp r p n c = (Inr b, r')" and "n_type n \<noteq> ''output''"
  obtains u r1 where "push_edges n grp (length (matching p n c)) 0 (matching p n c) r = (Inr u, r1)"
    and "r_edge_visits r' = r_edge_visits r1" and "r_joins r' = r_joins r"
    and "length (r_ready r1) \<le> 256" and "r' = (if n_type n = ''parallel'' then r1 else snd (next_ready r1))"
proof -
  obtain u r1 where push: "push_edges n grp (length (matching p n c)) 0 (matching p n c) r = (Inr u, r1)"
    and small: "length (r_ready r1) \<le> 256"
    and r': "r' = (if n_type n = ''parallel'' then r1 else snd (next_ready r1))"
    using advance_cases [OF assms] by blast
  have "r_edge_visits r' = r_edge_visits r1 \<and> r_joins r' = r_joins r1"
    unfolding r' by (simp add: next_ready.simps split: list.split)
  with push_edges_visits [OF push] have "r_edge_visits r' = r_edge_visits r1" and "r_joins r' = r_joins r"
    by simp_all
  then show thesis by (rule that [OF push _ _ small r'])
qed

section \<open>The whole course of a run\<close>

text \<open>
  The edges the routing of a run itself crosses: whatever else the executor does to the run between two
  advances leaves its edge counters alone. The branches of a parallel group are routed on runs of their
  own, with counters of their own.
\<close>

inductive crossing :: "pipeline_definition \<Rightarrow> run \<Rightarrow> edge_definition list \<Rightarrow> run \<Rightarrow> bool"
  for p :: pipeline_definition and r :: run where
  crossing_start: "crossing p r [] r"
| crossing_other: "crossing p r es r1 \<Longrightarrow> r_edge_visits r2 = r_edge_visits r1 \<Longrightarrow> crossing p r es r2"
| crossing_advance: "crossing p r es r1 \<Longrightarrow> n_type n \<noteq> ''output'' \<Longrightarrow>
    advance grp r1 p n c = (Inr b, r2) \<Longrightarrow> crossing p r (es @ matching p n c) r2"

lemma count_list_distinct_filter:
  "distinct (map edge_key es) \<Longrightarrow> e \<in> set es \<Longrightarrow>
   count_list (filter P es) e = (if P e then 1 else 0)"
  by (induction es) (auto simp: count_list_0_iff)

lemma crossing_counts:
  assumes "crossing p r es r'" and "accepted p extensions" and "r_edge_visits r = []"
    and "e \<in> set (pl_edges p)" and "e_max_iterations e \<noteq> 0" and "e_max_iterations e \<noteq> - 1"
  shows "unat (visits r' e) = count_list es e \<and> visits r' e \<le> e_max_iterations e"
  using assms(1)
proof induction
  case crossing_start
  then show ?case using assms(3) by (simp add: visits_def)
next
  case (crossing_other es r1 r2)
  then show ?case by (simp add: visits_def)
next
  case (crossing_advance es r1 n grp c b r2)
  let ?ms = "matching p n c"
  have dist: "distinct (map edge_key ?ms)" by (rule matching_distinct [OF assms(2)])
  have keys: "distinct (map edge_key (pl_edges p))" by (rule accepted_keys_distinct [OF assms(2)])
  obtain u r3 where push: "push_edges n grp (length ?ms) 0 ?ms r1 = (Inr u, r3)"
    and same: "r_edge_visits r2 = r_edge_visits r3"
    using advance_Inr_push [OF crossing_advance.hyps(3,2)] by blast
  have visits: "visits r2 e = visits r3 e" using same by (simp add: visits_def)
  show ?case
  proof (cases "e \<in> set ?ms")
    case True
    have "count_list ?ms e = 1"
      using count_list_distinct_filter [OF keys assms(4)] True unfolding matching_def by auto
    moreover have step: "visits r3 e = visits r1 e + 1" "visits r3 e \<le> e_max_iterations e"
      using push_edges_count [OF push dist True assms(5)] by auto
    moreover have "visits r1 e \<noteq> - 1"
      using crossing_advance.IH assms(6) by (auto simp: word_order.extremum_unique)
    then have "unat (visits r1 e + 1) = unat (visits r1 e) + 1"
      using unatSuc [of "visits r1 e"] by (auto simp: add.commute eq_neg_iff_add_eq_0)
    ultimately show ?thesis using crossing_advance.IH visits by simp
  next
    case False
    then have "edge_key e \<notin> edge_key ` set ?ms"
      using keys assms(4) by (auto simp: matching_def distinct_map inj_on_def)
    then have "visits r3 e = visits r1 e" using push_edges_visits [OF push] by blast
    with False crossing_advance.IH visits show ?thesis by (simp add: count_list_0_iff)
  qed
qed

section \<open>The barrier of a parallel group\<close>

text \<open>
  The branches of one group that have reached their join, in the order of arrival. Between two
  arrivals the runtime may do anything that leaves the group's entry alone.
\<close>

definition arrived :: "run \<Rightarrow> string \<Rightarrow> (u32, message) omap" where
  "arrived r grp = (case map_of (r_joins r) grp of None \<Rightarrow> [] | Some c \<Rightarrow> jc_messages c)"

definition at_join :: "run \<Rightarrow> node_definition \<Rightarrow> string \<Rightarrow> u32 \<Rightarrow> u32 \<Rightarrow> bool" where
  "at_join r n grp width i \<longleftrightarrow>
     n_type n = ''join'' \<and> r_prepared_join r \<noteq> n_id n \<and> r_frames r \<noteq> [] \<and>
     last (r_frames r) = \<lparr>bf_group = grp, bf_join = n_id n, bf_width = width, bf_index = i\<rparr>"

inductive waiting :: "node_definition \<Rightarrow> string \<Rightarrow> u32 \<Rightarrow> (u32 \<times> message) list \<Rightarrow> run \<Rightarrow> bool"
  for n :: node_definition and grp :: string and width :: u32 where
  waiting_start: "map_of (r_joins r) grp = None \<Longrightarrow> waiting n grp width [] r"
| waiting_other: "waiting n grp width ms r \<Longrightarrow> map_of (r_joins r') grp = map_of (r_joins r) grp \<Longrightarrow>
    waiting n grp width ms r'"
| waiting_arrive: "waiting n grp width ms r \<Longrightarrow> at_join r n grp width i \<Longrightarrow>
    prepare_join r n = (Inr False, r', cps) \<Longrightarrow> waiting n grp width (ms @ [(i, r_message r)]) r'"

text \<open>One arrival: rejected when the branch has been seen, released when the group is complete.\<close>

lemma prepare_join_step:
  assumes "at_join r n grp width i"
  shows "prepare_join r n =
    (let known = arrived r grp; now = omap_put i (r_message r) known;
         r1 = r\<lparr>r_joins := omap_put grp \<lparr>jc_messages = now\<rparr> (r_joins r)\<rparr>
     in if i \<in> fst ` set known
        then (throw Execution ''Parallel branch arrived twice'',
              r\<lparr>r_joins := omap_put grp \<lparr>jc_messages = known\<rparr> (r_joins r)\<rparr>, [])
        else if length now = unat width then
          (Inr True, r1\<lparr>r_message := (r_message r)\<lparr>m_payload := JArr (map (m_payload \<circ> snd) now)\<rparr>,
             r_frames := butlast (r_frames r), r_joins := omap_erase grp (r_joins r1),
             r_prepared_join := n_id n\<rparr>, [])
        else (case next_ready r1 of
                (False, r2) \<Rightarrow> (throw Execution ''Join has missing branches'', r2, [])
              | (True, r2) \<Rightarrow> (Inr False, r2, [''join.waiting''])))"
  using assms
  by (simp add: prepare_join_def at_join_def arrived_def omap_emplace_if Let_def split: option.split)

lemma next_ready_joins: "next_ready r = (b, r') \<Longrightarrow> r_joins r' = r_joins r"
  by (auto simp: next_ready.simps split: list.splits)

lemma prepare_join_waits:
  assumes "at_join r n grp width i" and "prepare_join r n = (Inr False, r', cps)"
  shows "i \<notin> fst ` set (arrived r grp)" and "arrived r' grp = omap_put i (r_message r) (arrived r grp)"
proof -
  let ?r1 = "r\<lparr>r_joins := omap_put grp \<lparr>jc_messages = omap_put i (r_message r) (arrived r grp)\<rparr> (r_joins r)\<rparr>"
  have "i \<notin> fst ` set (arrived r grp) \<and> next_ready ?r1 = (True, r')"
    using assms(2) unfolding prepare_join_step [OF assms(1)]
    by (cases "next_ready ?r1") (auto simp: Let_def split: if_splits bool.splits)
  then show "i \<notin> fst ` set (arrived r grp)"
    and "arrived r' grp = omap_put i (r_message r) (arrived r grp)"
    using next_ready_joins [of ?r1 True r'] by (simp_all add: arrived_def)
qed

lemma waiting_arrived:
  assumes "waiting n grp width ms r"
  shows "distinct (map fst ms) \<and> omap_inv (arrived r grp) \<and> map_of (arrived r grp) = map_of ms \<and>
    length (arrived r grp) = length ms \<and> fst ` set (arrived r grp) = fst ` set ms"
  using assms
proof induction
  case (waiting_start r)
  then show ?case by (simp add: arrived_def)
next
  case (waiting_other ms r r')
  then show ?case by (simp add: arrived_def)
next
  case (waiting_arrive ms r i r' cps)
  note step = prepare_join_waits [OF waiting_arrive.hyps(2,3)]
  have new: "i \<notin> fst ` set ms" using step(1) waiting_arrive.IH by simp
  have "map_of (ms @ [(i, r_message r)]) = (map_of ms)(i \<mapsto> r_message r)"
    using new by (auto simp: map_add_def dom_map_of_conv_image_fst fun_eq_iff
        split: option.split dest: map_of_SomeD) (metis fst_conv image_eqI map_of_SomeD)
  moreover have "fst ` set (omap_put i (r_message r) (arrived r grp)) = insert i (fst ` set ms)"
    using set_keys_omap_put [of i "r_message r" "arrived r grp"] waiting_arrive.IH by simp
  ultimately show ?case
    using waiting_arrive.IH step new by (simp add: length_omap_put_new)
qed

lemma full_indices:
  fixes m :: "(u32, 'v) omap"
  assumes "omap_inv m" and "\<forall>k \<in> fst ` set m. k < width" and "length m = unat width"
  shows "map fst m = map of_nat [0..<unat width]"
proof -
  let ?ks = "map unat (map fst m)"
  have strict: "sorted_wrt (<) ?ks"
    using assms(1) unfolding omap_inv_def sorted_wrt_map by (simp add: word_less_nat_alt)
  then have "sorted ?ks" and dist: "distinct ?ks" by (simp_all only: strict_sorted_iff)
  moreover have "set ?ks = set [0..<unat width]"
  proof (rule card_subset_eq)
    show "set ?ks \<subseteq> set [0..<unat width]" using assms(2) by (auto simp: word_less_nat_alt)
    show "card (set ?ks) = card (set [0..<unat width])"
      using distinct_card [OF dist] assms(3) by simp
  qed simp
  ultimately have "?ks = [0..<unat width]"
    by (intro sorted_distinct_set_unique) simp_all
  then have "map (of_nat :: nat \<Rightarrow> u32) ?ks = map of_nat [0..<unat width]" by simp
  then show ?thesis by (simp add: comp_def)
qed

lemma map_snd_by_key: "distinct (map fst m) \<Longrightarrow> map snd m = map (\<lambda>k. the (map_of m k)) (map fst m)"
  by (auto simp: comp_def)

lemma waiting_complete:
  assumes "waiting n grp width ms r" and "i \<notin> fst ` set ms" and "i < width"
    and "\<forall>k \<in> fst ` set ms. k < width" and "Suc (length ms) = unat width"
  shows "map (m_payload \<circ> snd) (omap_put i msg (arrived r grp)) =
    map (\<lambda>k. m_payload (the (map_of ((i, msg) # ms) (of_nat k)))) [0..<unat width]"
proof -
  let ?now = "omap_put i msg (arrived r grp)"
  note known = waiting_arrived [OF assms(1)]
  have inv: "omap_inv ?now" using known by simp
  have "length ?now = unat width" using known assms(2,5) by (simp add: length_omap_put_new)
  moreover have "fst ` set ?now = insert i (fst ` set ms)"
    using set_keys_omap_put [of i msg "arrived r grp"] known by simp
  ultimately have keys: "map fst ?now = map of_nat [0..<unat width]"
    using assms(3,4) by (intro full_indices inv) auto
  have "map_of ?now = map_of ((i, msg) # ms)" using known by simp
  then have "map snd ?now = map (\<lambda>k. the (map_of ((i, msg) # ms) k)) (map of_nat [0..<unat width])"
    using map_snd_by_key [OF omap_inv_distinct [OF inv]] keys by simp
  then have "map m_payload (map snd ?now) =
      map (\<lambda>k. m_payload (the (map_of ((i, msg) # ms) (of_nat k)))) [0..<unat width]"
    by (simp add: comp_def)
  then show ?thesis by simp
qed

section \<open>A pipeline with two branches\<close>

definition fork_pipeline :: pipeline_definition where
  "fork_pipeline =
     \<lparr>pl_name = ''forking'', pl_source = [], pl_input_schema = [], pl_output_schema = [],
      pl_resolved_subpipelines = [], pl_schema_version = 1, pl_version = 1, pl_max_steps = 1000,
      pl_timeout = 300000,
      pl_nodes = [(''fork'', (new_node ''fork'' ''parallel'' [])\<lparr>n_join := ''meet''\<rparr>),
                  (''input'', new_node ''input'' ''input'' []),
                  (''left'', new_node ''left'' ''function'' ''hello''),
                  (''meet'', new_node ''meet'' ''join'' []),
                  (''output'', new_node ''output'' ''output'' []),
                  (''right'', new_node ''right'' ''function'' ''hello'')],
      pl_edges = [\<lparr>e_from = ''input'', e_to = ''fork'', e_condition = [], e_max_iterations = 0\<rparr>,
                  \<lparr>e_from = ''fork'', e_to = ''left'', e_condition = [], e_max_iterations = 0\<rparr>,
                  \<lparr>e_from = ''fork'', e_to = ''right'', e_condition = [], e_max_iterations = 0\<rparr>,
                  \<lparr>e_from = ''left'', e_to = ''meet'', e_condition = [], e_max_iterations = 0\<rparr>,
                  \<lparr>e_from = ''right'', e_to = ''meet'', e_condition = [], e_max_iterations = 0\<rparr>,
                  \<lparr>e_from = ''meet'', e_to = ''output'', e_condition = [], e_max_iterations = 0\<rparr>]\<rparr>"

lemma fork_pipeline_static: "check_static fork_pipeline [] = Inr ()"
  by (simp add: check_static_def validate_defs fork_pipeline_def insert_commute cong: rbind_weak_cong)

lemma fork_pipeline_cycles: "check_cycles fork_pipeline = Some (Inr ())"
  by (simp add: check_cycles_def search_fuel_def fork_pipeline_def outgoing_def)

lemma fork_pipeline_reachable: "check_reachable fork_pipeline = Some (Inr ())"
  by (simp add: check_reachable_def search_fuel_def fork_pipeline_def outgoing_def)

lemma fork_pipeline_accepted: "accepted fork_pipeline []"
  by (simp add: accepted_def validate_pipeline_def fork_pipeline_static fork_pipeline_cycles
      fork_pipeline_reachable)

lemma fork_pipeline_nodes: "omap_inv (pl_nodes fork_pipeline)"
  by (simp add: omap_inv_def fork_pipeline_def less_char_def)

definition example_run :: run where
  "example_run = new_run ''run'' [] (new_message ''msg'' [])"

definition fork_node :: node_definition where
  "fork_node = (new_node ''fork'' ''parallel'' [])\<lparr>n_join := ''meet''\<rparr>"

definition meet_node :: node_definition where
  "meet_node = new_node ''meet'' ''join'' []"

definition turn_node :: node_definition where
  "turn_node = (new_node ''turn'' ''loop'' [])\<lparr>n_max_iterations := 3\<rparr>"

definition branch_run :: "u32 \<Rightarrow> json \<Rightarrow> run \<Rightarrow> run" where
  "branch_run i v r = r\<lparr>r_frames := [\<lparr>bf_group = ''g'', bf_join = ''meet'', bf_width = 2, bf_index = i\<rparr>],
     r_message := (new_message ''msg'' [])\<lparr>m_payload := v\<rparr>, r_prepared_join := []\<rparr>"

lemmas example_defs = example_run_def fork_node_def meet_node_def turn_node_def new_node_def new_run_def
  new_message_def

text \<open>The second branch has arrived and waits for the first, whose token is still in the queue.\<close>

definition half_joined :: run where
  "half_joined = fst (snd (prepare_join (branch_run 1 (JStr ''right'')
     (example_run\<lparr>r_ready := [token_of (branch_run 0 (JStr ''left'') example_run)]\<rparr>)) meet_node))"

lemma branch_run_at_join: "at_join (branch_run i v r) meet_node ''g'' 2 i"
  by (simp add: at_join_def branch_run_def meet_node_def new_node_def)

lemma half_joined_waiting:
  "waiting meet_node ''g'' 2 [(1, (new_message ''msg'' [])\<lparr>m_payload := JStr ''right''\<rparr>)] half_joined"
proof -
  let ?r = "branch_run 1 (JStr ''right'')
     (example_run\<lparr>r_ready := [token_of (branch_run 0 (JStr ''left'') example_run)]\<rparr>)"
  have start: "waiting meet_node ''g'' 2 [] ?r"
    by (rule waiting_start) (simp add: branch_run_def example_run_def new_run_def)
  have "prepare_join ?r meet_node = (Inr False, half_joined, [''join.waiting''])"
    unfolding half_joined_def
    by (simp add: prepare_join_def branch_run_def example_defs next_ready.simps omap_emplace_def)
  from waiting_arrive [OF start branch_run_at_join this] show ?thesis
    by (simp add: branch_run_def)
qed

section \<open>Properties\<close>

text \<open>
  C34: in a validated pipeline routing never fails. A node other than the output and a parallel node,
  reporting a condition of its kind, has exactly one matching edge; unless that edge's iteration limit
  or the limit of 256 ready branches is hit, the run goes on, and the tokens it holds are those it had,
  in the same order, followed by one for the edge's target.
\<close>

theorem advance_routes:
  assumes "accepted p extensions" and "omap_inv (pl_nodes p)" and "(n_id n, n) \<in> set (pl_nodes p)"
    and "n_type n \<noteq> ''output''" and "n_type n \<noteq> ''parallel''" and "fits n c"
  shows "\<exists>e. matching p n c = [e] \<and>
    (if e_max_iterations e \<noteq> 0 \<and> e_max_iterations e < visits r e + 1
     then fst (advance grp r p n c) = throw Execution ''Edge iteration limit exceeded''
     else if 256 \<le> length (r_ready r)
     then fst (advance grp r p n c) = throw Execution ''Ready branch limit exceeded''
     else \<exists>r'. advance grp r p n c = (Inr True, r') \<and>
       token_of r' # r_ready r' =
         r_ready r @ [\<lparr>tk_node_id = e_to e, tk_message = r_message r, tk_frames = r_frames r\<rparr>])"
proof -
  obtain e where e: "matching p n c = [e]"
    using accepted_matching [OF assms(1,3,2,4,5,6)] by blast
  with assms(4,5) show ?thesis
    by (cases "r_ready r") (auto simp: advance_def visits_def token_of_def next_ready.simps Let_def)
qed

lemma advance_routes_witness:
  "\<exists>e r'. matching loop_pipeline turn_node ''repeat'' = [e] \<and>
     advance ''g'' example_run loop_pipeline turn_node ''repeat'' = (Inr True, r') \<and>
     token_of r' # r_ready r' = [\<lparr>tk_node_id = e_to e, tk_message = r_message example_run, tk_frames = []\<rparr>]"
proof -
  have n: "(n_id turn_node, turn_node) \<in> set (pl_nodes loop_pipeline)"
    "n_type turn_node \<noteq> ''output''" "n_type turn_node \<noteq> ''parallel''" "fits turn_node ''repeat''"
    by (simp_all add: loop_pipeline_def example_defs fits_def)
  have "matching loop_pipeline turn_node ''repeat'' =
      [\<lparr>e_from = ''turn'', e_to = ''task'', e_condition = ''repeat'', e_max_iterations = 3\<rparr>]"
    by (simp add: matching_def loop_pipeline_def example_defs)
  with advance_routes [OF loop_pipeline_accepted loop_pipeline_nodes n, of example_run "''g''"]
  show ?thesis by (auto simp: visits_def example_run_def new_run_def)
qed

text \<open>
  A parallel node fans out completely. One token per outgoing edge joins the queue, in the order of
  the edges, each with the node's message and one more branch frame: all of the same group, numbered
  from zero, with the number of branches (2 to 16) as width and the declared join as target.
\<close>

lemma parallel_fan_out:
  assumes "accepted p extensions" and "omap_inv (pl_nodes p)" and "(n_id n, n) \<in> set (pl_nodes p)"
    and "n_type n = ''parallel''" and "advance grp r p n c = (Inr b, r')"
  shows "b \<and> 2 \<le> length (outgoing p (n_id n)) \<and> length (outgoing p (n_id n)) \<le> 16 \<and>
    length (r_ready r') \<le> 256 \<and>
    r_ready r' = r_ready r @ map (\<lambda>(i, e).
      \<lparr>tk_node_id = e_to e, tk_message = r_message r, tk_frames = r_frames r @
         [\<lparr>bf_group = grp, bf_join = n_join n, bf_width = of_nat (length (outgoing p (n_id n))),
           bf_index = of_nat i\<rparr>]\<rparr>)
      (enumerate 0 (outgoing p (n_id n)))"
proof -
  note out = accepted_matching_parallel [OF assms(1,3,2,4)]
  have kind: "n_type n \<noteq> ''output''" using assms(4) by simp
  obtain u r1 where push: "push_edges n grp (length (matching p n c)) 0 (matching p n c) r = (Inr u, r1)"
    and small: "length (r_ready r1) \<le> 256" and r': "r' = r1"
    using advance_cases [OF assms(5) kind] assms(4) by auto
  have "b" using assms(4,5) push small out(2)
    by (auto simp: advance_def Let_def split: if_splits)
  moreover have "r_ready r1 = r_ready r @
      map (branch_token r n grp (length (matching p n c))) (enumerate 0 (matching p n c))"
    by (subst push_edges_Inr [OF push]) simp
  ultimately show ?thesis
    using out(2,3) small assms(4) unfolding r' out(1) branch_token_def by simp
qed

lemma parallel_fan_out_example:
  "length (r_ready (snd (advance ''g'' example_run fork_pipeline fork_node []))) = 2"
proof -
  let ?r = "snd (advance ''g'' example_run fork_pipeline fork_node [])"
  have n: "(n_id fork_node, fork_node) \<in> set (pl_nodes fork_pipeline)" "n_type fork_node = ''parallel''"
    by (simp_all add: fork_pipeline_def example_defs)
  have "advance ''g'' example_run fork_pipeline fork_node [] = (Inr True, ?r)"
    by (simp add: advance_def matching_def fork_pipeline_def example_defs)
  from parallel_fan_out [OF fork_pipeline_accepted fork_pipeline_nodes n this] show ?thesis
    by (simp add: outgoing_def fork_pipeline_def example_defs)
qed

text \<open>
  C22: a join is a barrier. When the branches of a group arrive in any order, interleaved with anything
  that leaves the group's entry alone, the join runs exactly when the last of them arrives; its
  input is then the array of their payloads in branch order, the branch frame is popped and the
  group's entry is gone while every other group is untouched.
\<close>

theorem join_is_barrier:
  assumes "waiting n grp width ms r" and "at_join r n grp width i" and "i \<notin> fst ` set ms"
    and "\<forall>k \<in> insert i (fst ` set ms). k < width"
  shows "if Suc (length ms) = unat width
    then \<exists>r'. prepare_join r n = (Inr True, r', []) \<and>
      m_payload (r_message r') =
        JArr (map (\<lambda>k. m_payload (the (map_of ((i, r_message r) # ms) (of_nat k)))) [0..<unat width]) \<and>
      r_frames r' = butlast (r_frames r) \<and> map_of (r_joins r') = (map_of (r_joins r))(grp := None)
    else fst (prepare_join r n) \<noteq> Inr True"
proof -
  note known = waiting_arrived [OF assms(1)]
  have len: "length (omap_put i (r_message r) (arrived r grp)) = Suc (length ms)"
    using known assms(3) by (simp add: length_omap_put_new)
  show ?thesis
  proof (cases "Suc (length ms) = unat width")
    case True
    have "map (m_payload \<circ> snd) (omap_put i (r_message r) (arrived r grp)) =
        map (\<lambda>k. m_payload (the (map_of ((i, r_message r) # ms) (of_nat k)))) [0..<unat width]"
      using assms(4) by (intro waiting_complete [OF assms(1,3)] True) auto
    then show ?thesis
      using True known assms(3) len unfolding prepare_join_step [OF assms(2)]
      by (simp del: map_map add: Let_def)
  next
    case False
    then show ?thesis
      using known assms(3) len unfolding prepare_join_step [OF assms(2)]
      by (auto simp: Let_def split: prod.split bool.split)
  qed
qed

lemma join_is_barrier_witness:
  "\<exists>r'. prepare_join (branch_run 0 (JStr ''left'') half_joined) meet_node = (Inr True, r', []) \<and>
     m_payload (r_message r') = JArr [JStr ''left'', JStr ''right'']"
proof -
  let ?r = "branch_run 0 (JStr ''left'') half_joined"
  have w: "waiting meet_node ''g'' 2 [(1, (new_message ''msg'' [])\<lparr>m_payload := JStr ''right''\<rparr>)] ?r"
    by (rule waiting_other [OF half_joined_waiting]) (simp add: branch_run_def)
  have "[0..<unat (2 :: u32)] = [0, 1]"
    by (simp add: upt_rec)
  moreover have "r_message ?r = (new_message ''msg'' [])\<lparr>m_payload := JStr ''left''\<rparr>"
    by (simp add: branch_run_def)
  ultimately show ?thesis
    using join_is_barrier [OF w branch_run_at_join] by auto
qed


text \<open>
  Classified data does not reach a remote model. When an agent node is bound to a provider declared
  remote and the message is not classified public, the runtime's permission check, when it gives a
  decision, denies, whatever the deployment's rules, network setting and worker allowances say.
\<close>

lemma classified_data_not_sent_to_remote_model:
  assumes "n_type n = ''agent''" and "map_of (d_models deps) (n_binding n) = Some binding"
    and "get (mb_provider binding) (d_providers deps) = Inr m" and "pm_remote m"
    and "jvalue (get_string J) (m_metadata (r_message r)) ''classification'' ''public'' = Inr cls"
    and "cls \<noteq> ''public''"
  shows "\<exists>reason. permission J deps n r = Inr (Deny, reason)"
  using assms by (simp add: permission_def evaluate_def Let_def)

definition some_remote_provider :: provider_metadata where
  "some_remote_provider =
     \<lparr>pm_name = ''openai'', pm_version = ''1'', pm_remote = True, pm_network = True, pm_capabilities = [],
      pm_continuation_mode = Stateless\<rparr>"

lemma classified_data_not_sent_to_remote_model_example:
  "\<exists>reason. permission plain_ops
     \<lparr>d_functions = empty_registry, d_tools = empty_registry,
      d_providers = \<lparr>entries = [(''openai'', some_remote_provider)]\<rparr>,
      d_workers = None, d_nodes = empty_registry, d_models = [(''reviewer'', \<lparr>mb_provider = ''openai'', mb_model = ''m'', mb_options = jobject []\<rparr>)],
      d_policy = \<lparr>rules = [], allow_network = True, allow_remote_workers = []\<rparr>\<rparr>
     (new_node ''review'' ''agent'' ''reviewer'')
     (example_run\<lparr>r_message := (new_message ''msg'' [])\<lparr>m_metadata :=
        jobject [(''classification'', JStr ''secret'')]\<rparr>\<rparr>) = Inr (Deny, reason)"
  by (rule classified_data_not_sent_to_remote_model [where binding = "\<lparr>mb_provider = ''openai'', mb_model = ''m'', mb_options = jobject []\<rparr>"
        and cls = "''secret''" and m = some_remote_provider])
    (simp_all add: some_remote_provider_def new_node_def get_def jvalue_def jobject_def plain_ops_def)

end
