(* ===== verification/Laso_Coordination.thy ===== *)
theory Laso_Coordination
  imports Laso_Codec
begin

text \<open>
  \<^verbatim>\<open>src/storage/coordination.cpp\<close>: fenced leases and the registry of service instances, kept in two
  tables of a shared PostgreSQL database. Every operation is one transaction, so it is modelled as
  an atomic function of the tables; the row lock the code takes on the instance makes reading its
  state and taking the lease one step. \<^verbatim>\<open>clock_timestamp()\<close> moves on while a statement runs, so each of its
  occurrences in a statement is a reading of its own: the argument \<open>t\<close> lists them in textual
  order, in microseconds. The database may also fail: the argument \<open>fault\<close> is the exception
  the pool or the driver raises, if any, and a failed transaction leaves the tables alone.
\<close>

section \<open>Tables and records\<close>

record lease_record =
  le_resource_key :: string
  le_owner_instance :: string
  le_fencing_token :: u64
  le_acquired_at :: string
  le_heartbeat_at :: string
  le_expires_at :: string
  le_active :: bool

record instance_record =
  i_instance_id :: string
  i_started_at :: string
  i_last_heartbeat_at :: string
  i_software_version :: string
  i_capabilities :: string
  i_state :: string

text \<open>The rows as the database holds them: \<^verbatim>\<open>BIGINT\<close> tokens, \<^verbatim>\<open>TIMESTAMPTZ\<close> times.\<close>

record lease_row =
  lr_owner :: string
  lr_token :: int
  lr_acquired :: int
  lr_heartbeat :: int
  lr_expires :: int

record instance_row =
  ir_started :: int
  ir_heartbeat :: int
  ir_version :: string
  ir_capabilities :: string
  ir_state :: string

record coord_db =
  leases :: "(string, lease_row) omap"
  instances :: "(string, instance_row) omap"

text \<open>One process: the owner name it was created with and its counters.\<close>

record coordination =
  co_owner :: string
  co_acquisition_failures :: u64
  co_renewal_failures :: u64
  co_fencing_rejections :: u64

record coordination_diagnostics =
  cd_pool_size :: nat
  cd_pool_in_use :: nat
  cd_pool_acquisition_timeouts :: u64
  cd_pool_replacements :: u64
  cd_lease_acquisition_failures :: u64
  cd_renewal_failures :: u64
  cd_fencing_rejections :: u64

section \<open>Checks and error translation\<close>

definition validate_resource :: "string \<Rightarrow> unit result" where
  "validate_resource resource =
     (if resource = [] \<or> length resource > 256
      then throw Validation ''Invalid coordination resource key'' else Inr ())"

definition validate_ttl :: "u64 \<Rightarrow> unit result" where
  "validate_ttl ttl_ms =
     (if ttl_ms = 0 \<or> ttl_ms > 86400000
      then throw Validation ''Invalid coordination lease duration'' else Inr ())"

definition instance_states :: "string list" where
  "instance_states = [''STARTING'', ''ACTIVE'', ''DRAINING'', ''DRAINED'', ''MAINTENANCE'', ''STOPPED'', ''STALE'']"

definition validate_instance_state :: "string \<Rightarrow> unit result" where
  "validate_instance_state state =
     (if state \<notin> set instance_states then throw Validation ''Invalid LASO instance state'' else Inr ())"

datatype fault = PoolError exn | SqlError string | BrokenConnection | OtherException

definition translate_sql :: "string \<Rightarrow> exn" where
  "translate_sql sqlstate =
     (if sqlstate = ''23505'' then Error Conflict ''Coordination uniqueness conflict''
      else if sqlstate = ''40001'' \<or> sqlstate = ''40P01''
      then Error Storage ''Coordination transaction could not be completed''
      else Error Storage ''Coordination database operation failed'')"

definition translate_connection :: exn where
  "translate_connection = Error Storage ''Coordination database connection failed''"

fun fault_error :: "string \<Rightarrow> fault \<Rightarrow> exn" where
  "fault_error what (PoolError e) = e"
| "fault_error what (SqlError sqlstate) = translate_sql sqlstate"
| "fault_error what BrokenConnection = translate_connection"
| "fault_error what OtherException = Error Storage what"

text \<open>A \<^verbatim>\<open>BIGINT\<close> that does not fit is the SQL error 22003.\<close>

definition bigint_ok :: "int \<Rightarrow> bool" where
  "bigint_ok i \<longleftrightarrow> i < 2 ^ 63"

definition create_coordination :: "exn option \<Rightarrow> fault option \<Rightarrow> string \<Rightarrow> coordination result" where
  "create_coordination pool_failure fault owner =
     (if pool_failure \<noteq> None then Inl (the pool_failure)
      else if owner = [] \<or> length owner > 128
      then throw Validation ''Invalid coordination owner instance''
      else case fault of
        Some f \<Rightarrow> Inl (fault_error ''Coordination schema initialization failed'' f)
      | None \<Rightarrow> Inr \<lparr>co_owner = owner, co_acquisition_failures = 0, co_renewal_failures = 0,
                     co_fencing_rejections = 0\<rparr>)"

definition read_lease :: "(int \<Rightarrow> string) \<Rightarrow> string \<Rightarrow> lease_row \<Rightarrow> bool \<Rightarrow> lease_record" where
  "read_lease ts key row active =
     \<lparr>le_resource_key = key, le_owner_instance = lr_owner row, le_fencing_token = of_int (lr_token row),
      le_acquired_at = ts (lr_acquired row), le_heartbeat_at = ts (lr_heartbeat row),
      le_expires_at = ts (lr_expires row), le_active = active\<rparr>"

definition ttl_us :: "u64 \<Rightarrow> int" where
  "ttl_us ttl_ms = uint ttl_ms * 1000"

section \<open>Leases\<close>

definition acquire ::
  "(int \<Rightarrow> string) \<Rightarrow> fault option \<Rightarrow> (nat \<Rightarrow> int) \<Rightarrow> string \<Rightarrow> u64 \<Rightarrow> coordination \<Rightarrow> coord_db \<Rightarrow>
   lease_record option result \<times> coordination \<times> coord_db" where
  "acquire ts fault t resource ttl_ms c db =
     (let refused = (Inr None, c\<lparr>co_acquisition_failures := co_acquisition_failures c + 1\<rparr>, db);
          excluded = \<lparr>lr_owner = co_owner c, lr_token = 1, lr_acquired = t 0, lr_heartbeat = t 1,
                      lr_expires = t 2 + ttl_us ttl_ms\<rparr>;
          granted = (\<lambda>row. (Inr (Some (read_lease ts resource row (lr_expires row > t 4))), c,
                            db\<lparr>leases := omap_put resource row (leases db)\<rparr>))
      in case rbind (validate_resource resource) (\<lambda>_. validate_ttl ttl_ms) of
           Inl e \<Rightarrow> (Inl e, c, db)
         | Inr _ \<Rightarrow>
             (case fault of
                Some f \<Rightarrow> (Inl (fault_error ''Coordination acquisition failed'' f), c, db)
              | None \<Rightarrow>
                  if map_option ir_state (map_of (instances db) (co_owner c)) \<noteq> Some ''ACTIVE'' then refused
                  else (case map_of (leases db) resource of
                          None \<Rightarrow> granted excluded
                        | Some row \<Rightarrow>
                            if lr_expires row > t 3 then refused
                            else if \<not> bigint_ok (lr_token row + 1)
                            then (Inl (translate_sql ''22003''), c, db)
                            else granted (excluded\<lparr>lr_token := lr_token row + 1\<rparr>))))"

text \<open>The row a lease names, when it is still the holder's: the predicate of every fenced statement.\<close>

definition current_row :: "lease_record \<Rightarrow> int \<Rightarrow> coord_db \<Rightarrow> lease_row option" where
  "current_row lease now db =
     (case map_of (leases db) (le_resource_key lease) of
        None \<Rightarrow> None
      | Some row \<Rightarrow>
          if lr_owner row = le_owner_instance lease \<and> lr_token row = uint (le_fencing_token lease) \<and>
             lr_expires row > now
          then Some row else None)"

definition renew ::
  "(int \<Rightarrow> string) \<Rightarrow> fault option \<Rightarrow> (nat \<Rightarrow> int) \<Rightarrow> lease_record \<Rightarrow> u64 \<Rightarrow> coordination \<Rightarrow> coord_db \<Rightarrow>
   (bool \<times> lease_record) result \<times> coordination \<times> coord_db" where
  "renew ts fault t lease ttl_ms c db =
     (let refused = (Inr (False, lease), c\<lparr>co_renewal_failures := co_renewal_failures c + 1\<rparr>, db)
      in case rbind (validate_resource (le_resource_key lease)) (\<lambda>_. validate_ttl ttl_ms) of
           Inl e \<Rightarrow> (Inl e, c, db)
         | Inr _ \<Rightarrow>
             if le_owner_instance lease \<noteq> co_owner c then refused
             else (case fault of
                     Some f \<Rightarrow> (Inl (fault_error ''Coordination renewal failed'' f), c, db)
                   | None \<Rightarrow>
                       if \<not> bigint_ok (uint (le_fencing_token lease))
                       then (Inl (translate_sql ''22003''), c, db)
                       else (case current_row lease (t 2) db of
                               None \<Rightarrow> refused
                             | Some row \<Rightarrow>
                                 let row' = row\<lparr>lr_heartbeat := t 0, lr_expires := t 1 + ttl_us ttl_ms\<rparr>
                                 in (Inr (True, read_lease ts (le_resource_key lease) row'
                                                  (lr_expires row' > t 3)), c,
                                     db\<lparr>leases := omap_put (le_resource_key lease) row' (leases db)\<rparr>))))"

definition release ::
  "fault option \<Rightarrow> (nat \<Rightarrow> int) \<Rightarrow> lease_record \<Rightarrow> coordination \<Rightarrow> coord_db \<Rightarrow>
   bool result \<times> coordination \<times> coord_db" where
  "release fault t lease c db =
     (case validate_resource (le_resource_key lease) of
        Inl e \<Rightarrow> (Inl e, c, db)
      | Inr _ \<Rightarrow>
          if le_owner_instance lease \<noteq> co_owner c then (Inr False, c, db)
          else (case fault of
                  Some f \<Rightarrow> (Inl (fault_error ''Coordination release failed'' f), c, db)
                | None \<Rightarrow>
                    if \<not> bigint_ok (uint (le_fencing_token lease))
                    then (Inl (translate_sql ''22003''), c, db)
                    else (case current_row lease (t 1) db of
                            None \<Rightarrow> (Inr False, c, db)
                          | Some row \<Rightarrow>
                              (Inr True, c,
                               db\<lparr>leases := omap_put (le_resource_key lease)
                                    (row\<lparr>lr_expires := t 0\<rparr>) (leases db)\<rparr>))))"

definition inspect ::
  "(int \<Rightarrow> string) \<Rightarrow> fault option \<Rightarrow> (nat \<Rightarrow> int) \<Rightarrow> string \<Rightarrow> coord_db \<Rightarrow> lease_record option result" where
  "inspect ts fault t resource db =
     rbind (validate_resource resource) (\<lambda>_.
       case fault of
         Some f \<Rightarrow> Inl (fault_error ''Coordination inspection failed'' f)
       | None \<Rightarrow>
           Inr (map_option (\<lambda>row. read_lease ts resource row (lr_expires row > t 0))
                  (map_of (leases db) resource)))"

definition require_current ::
  "fault option \<Rightarrow> (nat \<Rightarrow> int) \<Rightarrow> lease_record \<Rightarrow> coordination \<Rightarrow> coord_db \<Rightarrow>
   unit result \<times> coordination" where
  "require_current fault t lease c db =
     (let rejected = c\<lparr>co_fencing_rejections := co_fencing_rejections c + 1\<rparr>
      in case validate_resource (le_resource_key lease) of
           Inl e \<Rightarrow> (Inl e, c)
         | Inr _ \<Rightarrow>
             if le_owner_instance lease \<noteq> co_owner c
             then (throw Conflict ''Coordination fencing token belongs to another owner'', rejected)
             else (case fault of
                     Some f \<Rightarrow> (Inl (fault_error ''Coordination fencing check failed'' f), c)
                   | None \<Rightarrow>
                       if \<not> bigint_ok (uint (le_fencing_token lease)) then (Inl (translate_sql ''22003''), c)
                       else (case current_row lease (t 0) db of
                               None \<Rightarrow> (throw Conflict ''Stale coordination fencing token'', rejected)
                             | Some _ \<Rightarrow> (Inr (), c))))"

definition diagnostics :: "nat \<Rightarrow> nat \<Rightarrow> u64 \<Rightarrow> u64 \<Rightarrow> coordination \<Rightarrow> coordination_diagnostics" where
  "diagnostics pool_size in_use timeouts replacements c =
     \<lparr>cd_pool_size = pool_size, cd_pool_in_use = in_use, cd_pool_acquisition_timeouts = timeouts,
      cd_pool_replacements = replacements, cd_lease_acquisition_failures = co_acquisition_failures c,
      cd_renewal_failures = co_renewal_failures c, cd_fencing_rejections = co_fencing_rejections c\<rparr>"

section \<open>Instances\<close>

definition register_instance ::
  "fault option \<Rightarrow> (nat \<Rightarrow> int) \<Rightarrow> string \<Rightarrow> string \<Rightarrow> string \<Rightarrow> coordination \<Rightarrow> coord_db \<Rightarrow>
   unit result \<times> coord_db" where
  "register_instance fault t software_version capabilities state c db =
     (case validate_instance_state state of
        Inl e \<Rightarrow> (Inl e, db)
      | Inr _ \<Rightarrow>
          if length software_version > 128 \<or> length capabilities > 4096
          then (throw Validation ''LASO instance metadata exceeds limits'', db)
          else (case fault of
                  Some f \<Rightarrow> (Inl (fault_error ''Instance registration failed'' f), db)
                | None \<Rightarrow>
                    (Inr (), db\<lparr>instances := omap_put (co_owner c)
                       \<lparr>ir_started = t 0, ir_heartbeat = t 1, ir_version = software_version,
                        ir_capabilities = capabilities, ir_state = state\<rparr> (instances db)\<rparr>)))"

definition touch_instance :: "int \<Rightarrow> string \<Rightarrow> coordination \<Rightarrow> coord_db \<Rightarrow> bool \<times> coord_db" where
  "touch_instance now state c db =
     (case map_of (instances db) (co_owner c) of
        None \<Rightarrow> (False, db)
      | Some row \<Rightarrow>
          (True, db\<lparr>instances := omap_put (co_owner c) (row\<lparr>ir_heartbeat := now, ir_state := state\<rparr>)
                     (instances db)\<rparr>))"

definition heartbeat_instance ::
  "fault option \<Rightarrow> (nat \<Rightarrow> int) \<Rightarrow> string \<Rightarrow> coordination \<Rightarrow> coord_db \<Rightarrow> bool result \<times> coord_db" where
  "heartbeat_instance fault t state c db =
     (case validate_instance_state state of
        Inl e \<Rightarrow> (Inl e, db)
      | Inr _ \<Rightarrow>
          (case fault of
             Some f \<Rightarrow> (Inl (fault_error ''Instance heartbeat failed'' f), db)
           | None \<Rightarrow> (case touch_instance (t 0) state c db of (found, db') \<Rightarrow> (Inr found, db'))))"

definition set_instance_state ::
  "fault option \<Rightarrow> (nat \<Rightarrow> int) \<Rightarrow> string \<Rightarrow> coordination \<Rightarrow> coord_db \<Rightarrow> unit result \<times> coord_db" where
  "set_instance_state fault t state c db =
     (case validate_instance_state state of
        Inl e \<Rightarrow> (Inl e, db)
      | Inr _ \<Rightarrow>
          (case fault of
             Some f \<Rightarrow> (Inl (fault_error ''Instance state update failed'' f), db)
           | None \<Rightarrow>
               (case touch_instance (t 0) state c db of
                  (False, _) \<Rightarrow> (throw NotFound ''LASO instance is not registered'', db)
                | (True, db') \<Rightarrow> (Inr (), db'))))"

definition read_instance :: "(int \<Rightarrow> string) \<Rightarrow> u64 \<Rightarrow> int \<Rightarrow> string \<times> instance_row \<Rightarrow> instance_record" where
  "read_instance ts stale_after_ms now = (\<lambda>(key, row).
     \<lparr>i_instance_id = key, i_started_at = ts (ir_started row), i_last_heartbeat_at = ts (ir_heartbeat row),
      i_software_version = ir_version row, i_capabilities = ir_capabilities row,
      i_state = (if stale_after_ms > 0 \<and> ir_heartbeat row + ttl_us stale_after_ms \<le> now
                 then ''STALE'' else ir_state row)\<rparr>)"

text \<open>\<^verbatim>\<open>ORDER BY\<close> follows the collation of the database, given as a sort key; each row reads the clock once.\<close>

definition list_instances ::
  "(int \<Rightarrow> string) \<Rightarrow> (string \<Rightarrow> 'k::linorder) \<Rightarrow> fault option \<Rightarrow> (nat \<Rightarrow> int) \<Rightarrow> u64 \<Rightarrow> nat \<Rightarrow> nat \<Rightarrow>
   coord_db \<Rightarrow> instance_record list result" where
  "list_instances ts collation fault t stale_after_ms limit offset db =
     (if stale_after_ms > 86400000 \<or> limit > 100 \<or> offset > 100000000
      then throw Validation ''Invalid instance stale interval''
      else case fault of
        Some f \<Rightarrow> Inl (fault_error ''Instance listing failed'' f)
      | None \<Rightarrow>
          Inr (take limit (drop offset
            (map (\<lambda>(i, row). read_instance ts stale_after_ms (t i) row)
               (enumerate 0 (sort_key (collation \<circ> fst) (instances db)))))))"

definition current_instance ::
  "(int \<Rightarrow> string) \<Rightarrow> fault option \<Rightarrow> (nat \<Rightarrow> int) \<Rightarrow> u64 \<Rightarrow> coordination \<Rightarrow> coord_db \<Rightarrow>
   instance_record option result" where
  "current_instance ts fault t stale_after_ms c db =
     (if stale_after_ms > 86400000 then throw Validation ''Invalid instance stale interval''
      else case fault of
        Some f \<Rightarrow> Inl (fault_error ''Instance status query failed'' f)
      | None \<Rightarrow>
          Inr (map_option (\<lambda>row. read_instance ts stale_after_ms (t 0) (co_owner c, row))
                 (map_of (instances db) (co_owner c))))"

definition list_leases ::
  "(int \<Rightarrow> string) \<Rightarrow> (string \<Rightarrow> 'k::linorder) \<Rightarrow> fault option \<Rightarrow> (nat \<Rightarrow> int) \<Rightarrow> nat \<Rightarrow> nat \<Rightarrow>
   coord_db \<Rightarrow> lease_record list result" where
  "list_leases ts collation fault t limit offset db =
     (if limit > 100 \<or> offset > 100000000 then throw Validation ''Lease listing limit exceeded''
      else case fault of
        Some f \<Rightarrow> Inl (fault_error ''Lease listing failed'' f)
      | None \<Rightarrow>
          Inr (take limit (drop offset
            (map (\<lambda>(i, key, row). read_lease ts key row (lr_expires row > t i))
               (enumerate 0 (sort_key (collation \<circ> fst) (leases db)))))))"

definition instance_to_json :: "instance_record \<Rightarrow> json" where
  "instance_to_json i =
     jobject
        [(''instance_id'', JStr (i_instance_id i)),
         (''started_at'', JStr (i_started_at i)),
         (''last_heartbeat_at'', JStr (i_last_heartbeat_at i)),
         (''software_version'', JStr (i_software_version i)),
         (''capabilities'', JStr (i_capabilities i)),
         (''state'', JStr (i_state i))]"

definition instance_from_json :: "json_ops \<Rightarrow> json \<Rightarrow> instance_record result" where
  "instance_from_json J j =
     rbind (jvalue (get_string J) j ''instance_id'' []) (\<lambda>v_instance_id.
     rbind (jvalue (get_string J) j ''started_at'' []) (\<lambda>v_started_at.
     rbind (jvalue (get_string J) j ''last_heartbeat_at'' []) (\<lambda>v_last_heartbeat_at.
     rbind (jvalue (get_string J) j ''software_version'' []) (\<lambda>v_software_version.
     rbind (jvalue (get_string J) j ''capabilities'' []) (\<lambda>v_capabilities.
     rbind (jvalue (get_string J) j ''state'' []) (\<lambda>v_state.
     Inr \<lparr>i_instance_id = v_instance_id, i_started_at = v_started_at, i_last_heartbeat_at
      = v_last_heartbeat_at, i_software_version = v_software_version, i_capabilities =
      v_capabilities, i_state = v_state\<rparr>))))))"

section \<open>Fencing as an interface\<close>

text \<open>
  What a lease service promises: every grant of a resource carries the successor of the resource's
  token and makes it the new one, and nothing else changes a token.
\<close>

fun collect :: "('c \<Rightarrow> 's \<Rightarrow> 'g option) \<Rightarrow> ('c \<Rightarrow> 's \<Rightarrow> 's) \<Rightarrow> 'c list \<Rightarrow> 's \<Rightarrow> 'g list" where
  "collect grant exec [] s = []"
| "collect grant exec (c # cs) s =
     (case grant c s of None \<Rightarrow> [] | Some g \<Rightarrow> [g]) @ collect grant exec cs (exec c s)"

lemma collect_append:
  "collect grant exec (cs @ ds) s = collect grant exec cs s @ collect grant exec ds (fold exec cs s)"
  by (induction cs arbitrary: s) simp_all

lemma collect_map:
  "collect (\<lambda>c s. map_option f (grant c s)) exec cs s = map f (collect grant exec cs s)"
  by (induction cs arbitrary: s) (simp_all split: option.split)

locale fenced =
  fixes inv :: "'s \<Rightarrow> bool"
    and token :: "'s \<Rightarrow> 'r \<Rightarrow> int"
    and exec :: "'c \<Rightarrow> 's \<Rightarrow> 's"
    and grant :: "'c \<Rightarrow> 's \<Rightarrow> ('r \<times> int) option"
  assumes inv_exec: "inv s \<Longrightarrow> inv (exec c s)"
    and grant_next: "inv s \<Longrightarrow> grant c s = Some (r, k) \<Longrightarrow>
      k = token s r + 1 \<and> token (exec c s) = (token s)(r := k)"
    and grant_none: "inv s \<Longrightarrow> grant c s = None \<Longrightarrow> token (exec c s) = token s"
begin

lemma inv_fold: "inv s \<Longrightarrow> inv (fold exec cs s)"
  by (induction cs arbitrary: s) (simp_all add: inv_exec)

lemma token_step: "inv s \<Longrightarrow> token s r \<le> token (exec c s) r"
proof (cases "grant c s")
  case None
  then show "inv s \<Longrightarrow> token s r \<le> token (exec c s) r" by (simp add: grant_none)
next
  case (Some g)
  then show "inv s \<Longrightarrow> token s r \<le> token (exec c s) r"
    using grant_next [of s c "fst g" "snd g"] by simp
qed

lemma token_mono: "inv s \<Longrightarrow> token s r \<le> token (fold exec cs s) r"
proof (induction cs arbitrary: s)
  case (Cons c cs)
  from Cons.IH [OF inv_exec [OF Cons.prems]] token_step [OF Cons.prems] show ?case
    by (simp add: order_trans [of "token s r" "token (exec c s) r"])
qed simp

lemma grants_consecutive:
  "inv s \<Longrightarrow> map snd (filter (\<lambda>g. fst g = r) (collect grant exec cs s)) =
     [token s r + 1 .. token (fold exec cs s) r]"
proof (induction cs arbitrary: s)
  case (Cons c cs)
  note rest = Cons.IH [OF inv_exec [OF Cons.prems]]
  show ?case
  proof (cases "grant c s")
    case None
    then show ?thesis using rest [of c] grant_none [OF Cons.prems None] by simp
  next
    case (Some g)
    then have g: "snd g = token s (fst g) + 1" "token (exec c s) = (token s)(fst g := snd g)"
      using grant_next [OF Cons.prems, of c "fst g" "snd g"] by simp_all
    have "token (exec c s) r \<le> token (fold exec cs (exec c s)) r"
      by (rule token_mono) (rule inv_exec [OF Cons.prems])
    then show ?thesis
      using rest [of c] Some g upto_rec1 [of "token s r + 1" "token (fold exec cs (exec c s)) r"]
      by (auto simp: add.assoc)
  qed
qed simp

end

section \<open>The protocol\<close>

datatype coord_op =
    Acquire string u64 | Renew lease_record u64 | Release lease_record
  | RegisterInstance string string string | HeartbeatInstance string | SetInstanceState string

text \<open>A call: which process makes it, what the database does to it, and the clock it sees.\<close>

record coord_call =
  ca_client :: coordination
  ca_fault :: "fault option"
  ca_clock :: "nat \<Rightarrow> int"
  ca_op :: coord_op

definition perform :: "(int \<Rightarrow> string) \<Rightarrow> coord_call \<Rightarrow> coord_db \<Rightarrow> coord_db" where
  "perform ts call db =
     (let c = ca_client call; fault = ca_fault call; t = ca_clock call
      in case ca_op call of
           Acquire resource ttl \<Rightarrow> snd (snd (acquire ts fault t resource ttl c db))
         | Renew lease ttl \<Rightarrow> snd (snd (renew ts fault t lease ttl c db))
         | Release lease \<Rightarrow> snd (snd (release fault t lease c db))
         | RegisterInstance version caps state \<Rightarrow> snd (register_instance fault t version caps state c db)
         | HeartbeatInstance state \<Rightarrow> snd (heartbeat_instance fault t state c db)
         | SetInstanceState state \<Rightarrow> snd (set_instance_state fault t state c db))"

definition granted :: "(int \<Rightarrow> string) \<Rightarrow> coord_call \<Rightarrow> coord_db \<Rightarrow> lease_record option" where
  "granted ts call db =
     (case ca_op call of
        Acquire resource ttl \<Rightarrow>
          (case fst (acquire ts (ca_fault call) (ca_clock call) resource ttl (ca_client call) db) of
             Inr (Some lease) \<Rightarrow> Some lease
           | _ \<Rightarrow> None)
      | _ \<Rightarrow> None)"

definition grants :: "(int \<Rightarrow> string) \<Rightarrow> coord_call list \<Rightarrow> coord_db \<Rightarrow> lease_record list" where
  "grants ts = collect (granted ts) (perform ts)"

definition lease_token :: "coord_db \<Rightarrow> string \<Rightarrow> int" where
  "lease_token db resource = (case map_of (leases db) resource of None \<Rightarrow> 0 | Some row \<Rightarrow> lr_token row)"

definition coord_ok :: "coord_db \<Rightarrow> bool" where
  "coord_ok db \<longleftrightarrow> (\<forall>resource row. map_of (leases db) resource = Some row \<longrightarrow> 1 \<le> lr_token row \<and> bigint_ok (lr_token row))"

definition empty_coord :: coord_db where
  "empty_coord = \<lparr>leases = [], instances = []\<rparr>"

section \<open>What each operation does to a lease\<close>

lemma acquire_cases:
  obtains (kept) "snd (snd (acquire ts fault t resource ttl c db)) = db"
      "\<And>l. fst (acquire ts fault t resource ttl c db) \<noteq> Inr (Some l)"
  | (taken) row active where
      "acquire ts fault t resource ttl c db =
         (Inr (Some (read_lease ts resource row active)), c, db\<lparr>leases := omap_put resource row (leases db)\<rparr>)"
      "lr_token row = lease_token db resource + 1" "bigint_ok (lr_token row)" "lr_owner row = co_owner c"
      "map_option ir_state (map_of (instances db) (co_owner c)) = Some ''ACTIVE''"
      "\<And>old. map_of (leases db) resource = Some old \<Longrightarrow> lr_expires old \<le> t 3"
      "lr_expires row = t 2 + ttl_us ttl"
proof -
  let ?res = "acquire ts fault t resource ttl c db"
  let ?ex = "\<lparr>lr_owner = co_owner c, lr_token = lease_token db resource + 1, lr_acquired = t 0,
    lr_heartbeat = t 1, lr_expires = t 2 + ttl_us ttl\<rparr>"
  let ?take = "?res = (Inr (Some (read_lease ts resource ?ex (lr_expires ?ex > t 4))), c,
    db\<lparr>leases := omap_put resource ?ex (leases db)\<rparr>)"
  have "(snd (snd ?res) = db \<and> (\<forall>l. fst ?res \<noteq> Inr (Some l))) \<or>
    (?take \<and> bigint_ok (lease_token db resource + 1) \<and>
     map_option ir_state (map_of (instances db) (co_owner c)) = Some ''ACTIVE'' \<and>
     (\<forall>old. map_of (leases db) resource = Some old \<longrightarrow> lr_expires old \<le> t 3))"
    by (simp add: acquire_def lease_token_def Let_def bigint_ok_def split: sum.split option.split)
  then show thesis
  proof (elim disjE conjE)
    assume "snd (snd ?res) = db" and "\<forall>l. fst ?res \<noteq> Inr (Some l)"
    then show thesis by (intro kept) simp_all
  next
    assume ?take and "bigint_ok (lease_token db resource + 1)"
      and "map_option ir_state (map_of (instances db) (co_owner c)) = Some ''ACTIVE''"
      and "\<forall>old. map_of (leases db) resource = Some old \<longrightarrow> lr_expires old \<le> t 3"
    then show thesis using taken [of ?ex "lr_expires ?ex > t 4"] by simp
  qed
qed

lemma current_row_SomeD:
  assumes "current_row lease now db = Some row"
  shows "map_of (leases db) (le_resource_key lease) = Some row" and "lr_owner row = le_owner_instance lease"
    and "lr_token row = uint (le_fencing_token lease)" and "lr_expires row > now"
  using assms by (auto simp: current_row_def split: option.splits if_splits)

text \<open>Renewing and releasing touch a row of the caller, and only its times.\<close>

lemma renew_cases:
  obtains (kept) "snd (snd (renew ts fault t lease ttl c db)) = db"
  | (renewed) row row' where "current_row lease (t 2) db = Some row" "le_owner_instance lease = co_owner c"
      "lr_owner row' = lr_owner row" "lr_token row' = lr_token row"
      "snd (snd (renew ts fault t lease ttl c db)) =
         db\<lparr>leases := omap_put (le_resource_key lease) row' (leases db)\<rparr>"
proof (cases "current_row lease (t 2) db")
  case None
  then show thesis by (intro kept) (simp add: renew_def Let_def split: sum.split option.split)
next
  case (Some row)
  let ?row = "row\<lparr>lr_heartbeat := t 0, lr_expires := t 1 + ttl_us ttl\<rparr>"
  let ?db = "snd (snd (renew ts fault t lease ttl c db))"
  have "?db = db \<or> (?db = db\<lparr>leases := omap_put (le_resource_key lease) ?row (leases db)\<rparr> \<and>
      le_owner_instance lease = co_owner c)"
    using Some by (simp add: renew_def Let_def split: sum.split option.split)
  then show thesis using kept renewed [OF Some, of ?row] by auto
qed

lemma release_cases:
  obtains (kept) "snd (snd (release fault t lease c db)) = db"
  | (released) row row' where "current_row lease (t 1) db = Some row" "le_owner_instance lease = co_owner c"
      "lr_owner row' = lr_owner row" "lr_token row' = lr_token row"
      "snd (snd (release fault t lease c db)) =
         db\<lparr>leases := omap_put (le_resource_key lease) row' (leases db)\<rparr>"
proof (cases "current_row lease (t 1) db")
  case None
  then show thesis by (intro kept) (simp add: release_def Let_def split: sum.split option.split)
next
  case (Some row)
  let ?row = "row\<lparr>lr_expires := t 0\<rparr>"
  let ?db = "snd (snd (release fault t lease c db))"
  have "?db = db \<or> (?db = db\<lparr>leases := omap_put (le_resource_key lease) ?row (leases db)\<rparr> \<and>
      le_owner_instance lease = co_owner c)"
    using Some by (simp add: release_def Let_def split: sum.split option.split)
  then show thesis using kept released [OF Some, of ?row] by auto
qed

lemma instance_ops_leases:
  "leases (snd (register_instance fault t v caps st c db)) = leases db"
  "leases (snd (heartbeat_instance fault t st c db)) = leases db"
  "leases (snd (set_instance_state fault t st c db)) = leases db"
  by (auto simp: register_instance_def heartbeat_instance_def set_instance_state_def touch_instance_def
      split: sum.split option.split)

lemma acquire_instances: "instances (snd (snd (acquire ts fault t resource ttl c db))) = instances db"
  by (cases rule: acquire_cases [of ts fault t resource ttl c db]) simp_all

lemma renew_instances: "instances (snd (snd (renew ts fault t lease ttl c db))) = instances db"
  by (cases rule: renew_cases [of ts fault t lease ttl c db]) simp_all

lemma release_instances: "instances (snd (snd (release fault t lease c db))) = instances db"
  by (cases rule: release_cases [of fault t lease c db]) simp_all

lemmas lease_ops_instances = acquire_instances renew_instances release_instances

lemma lease_token_put:
  "lease_token (db\<lparr>leases := omap_put r row m\<rparr>) = (lease_token (db\<lparr>leases := m\<rparr>))(r := lr_token row)"
  by (simp add: lease_token_def fun_eq_iff)

lemma coord_ok_put:
  "coord_ok db \<Longrightarrow> 1 \<le> lr_token row \<Longrightarrow> bigint_ok (lr_token row) \<Longrightarrow>
   coord_ok (db\<lparr>leases := omap_put r row (leases db)\<rparr>)"
  by (simp add: coord_ok_def)

lemma lease_token_range: "coord_ok db \<Longrightarrow> 0 \<le> lease_token db r \<and> bigint_ok (lease_token db r)"
  by (fastforce simp: coord_ok_def lease_token_def bigint_ok_def split: option.split)

lemma coord_ok_touch:
  assumes "coord_ok db" and "map_of (leases db) r = Some row" and "lr_token row' = lr_token row"
  shows "coord_ok (db\<lparr>leases := omap_put r row' (leases db)\<rparr>)"
proof (rule coord_ok_put [OF assms(1)])
  show "1 \<le> lr_token row'" and "bigint_ok (lr_token row')"
    using assms by (simp_all add: coord_ok_def)
qed

lemma same_token:
  assumes "map_of (leases db) r = Some row" and "lr_token row' = lr_token row"
  shows "lease_token (db\<lparr>leases := omap_put r row' (leases db)\<rparr>) = lease_token db"
  using assms by (auto simp: lease_token_def fun_eq_iff)

text \<open>A call either takes the lease of one resource or leaves every token as it is.\<close>

lemma perform_cases:
  assumes "coord_ok db"
  obtains (grant) lease where "granted ts call db = Some lease"
      "uint (le_fencing_token lease) = lease_token db (le_resource_key lease) + 1"
      "lease_token (perform ts call db) =
         (lease_token db)(le_resource_key lease := uint (le_fencing_token lease))"
      "coord_ok (perform ts call db)"
  | (keep) "granted ts call db = None" "lease_token (perform ts call db) = lease_token db"
      "coord_ok (perform ts call db)"
proof (cases "ca_op call")
  case (Acquire resource ttl)
  show thesis
  proof (cases rule: acquire_cases [of ts "ca_fault call" "ca_clock call" resource ttl "ca_client call" db])
    case kept
    with Acquire assms show thesis
      by (intro keep) (auto simp: granted_def perform_def split: sum.split option.split)
  next
    case (taken row active)
    have range: "0 < lr_token row" "lr_token row < 2 ^ 64"
      using lease_token_range [OF assms, of resource] taken(2,3) by (simp_all add: bigint_ok_def)
    show thesis
    proof (rule grant [of "read_lease ts resource row active"])
      show "granted ts call db = Some (read_lease ts resource row active)"
        using Acquire taken(1) by (simp add: granted_def)
      have exact: "uint (le_fencing_token (read_lease ts resource row active)) = lr_token row"
        using range by (simp add: read_lease_def take_bit_int_eq_self uint_word_of_int)
      then show "uint (le_fencing_token (read_lease ts resource row active)) =
          lease_token db (le_resource_key (read_lease ts resource row active)) + 1"
        using taken(2) by (simp add: read_lease_def)
      have db': "perform ts call db = db\<lparr>leases := omap_put resource row (leases db)\<rparr>"
        using Acquire taken(1) by (simp add: perform_def)
      show "lease_token (perform ts call db) = (lease_token db)
          (le_resource_key (read_lease ts resource row active) :=
             uint (le_fencing_token (read_lease ts resource row active)))"
        unfolding db' exact by (simp add: lease_token_put read_lease_def)
      show "coord_ok (perform ts call db)"
        unfolding db' using coord_ok_put [OF assms] range(1) taken(3) by simp
    qed
  qed
next
  case (Renew lease ttl)
  have "lease_token (perform ts call db) = lease_token db \<and> coord_ok (perform ts call db)"
  proof (cases rule: renew_cases [of ts "ca_fault call" "ca_clock call" lease ttl "ca_client call" db])
    case kept
    then show ?thesis using Renew assms by (simp add: perform_def)
  next
    case (renewed row row')
    note row = current_row_SomeD [OF renewed(1)]
    then show ?thesis
      using Renew renewed(5) same_token [OF row(1) renewed(4)] coord_ok_touch [OF assms row(1) renewed(4)]
      by (simp add: perform_def)
  qed
  then show thesis using Renew by (intro keep) (simp_all add: granted_def)
next
  case (Release lease)
  have "lease_token (perform ts call db) = lease_token db \<and> coord_ok (perform ts call db)"
  proof (cases rule: release_cases [of "ca_fault call" "ca_clock call" lease "ca_client call" db])
    case kept
    then show ?thesis using Release assms by (simp add: perform_def)
  next
    case (released row row')
    note row = current_row_SomeD [OF released(1)]
    then show ?thesis
      using Release released(5) same_token [OF row(1) released(4)] coord_ok_touch [OF assms row(1) released(4)]
      by (simp add: perform_def)
  qed
  then show thesis using Release by (intro keep) (simp_all add: granted_def)
qed (use assms in \<open>auto intro!: keep simp: granted_def perform_def instance_ops_leases lease_token_def coord_ok_def\<close>)

interpretation lease_fencing: fenced coord_ok lease_token "perform ts"
    "\<lambda>call db. map_option (\<lambda>l. (le_resource_key l, uint (le_fencing_token l))) (granted ts call db)"
  for ts :: "int \<Rightarrow> string"
proof unfold_locales
  fix db call r k
  assume ok: "coord_ok db"
  show "coord_ok (perform ts call db)" by (rule perform_cases [OF ok, of ts call])
  show "k = lease_token db r + 1 \<and> lease_token (perform ts call db) = (lease_token db)(r := k)"
    if "map_option (\<lambda>l. (le_resource_key l, uint (le_fencing_token l))) (granted ts call db) = Some (r, k)"
    using that by (cases rule: perform_cases [OF ok, of ts call]) auto
  show "lease_token (perform ts call db) = lease_token db"
    if "map_option (\<lambda>l. (le_resource_key l, uint (le_fencing_token l))) (granted ts call db) = None"
    using that by (cases rule: perform_cases [OF ok, of ts call]) auto
qed

section \<open>Leases over a history of calls\<close>

lemma granted_lease:
  assumes "granted ts call db = Some lease"
  shows "le_owner_instance lease = co_owner (ca_client call)"
    and "map_option ir_state (map_of (instances db) (co_owner (ca_client call))) = Some ''ACTIVE''"
    and "validate_resource (le_resource_key lease) = Inr ()"
proof -
  obtain resource ttl where op: "ca_op call = Acquire resource ttl"
    using assms by (cases "ca_op call") (auto simp: granted_def)
  let ?res = "acquire ts (ca_fault call) (ca_clock call) resource ttl (ca_client call) db"
  have res: "fst ?res = Inr (Some lease)"
    using assms op by (auto simp: granted_def split: sum.splits option.splits)
  have valid: "validate_resource resource = Inr ()"
    using res by (cases "validate_resource resource") (simp_all add: acquire_def)
  have "le_owner_instance lease = co_owner (ca_client call) \<and> le_resource_key lease = resource \<and>
      map_option ir_state (map_of (instances db) (co_owner (ca_client call))) = Some ''ACTIVE''"
  proof (cases rule: acquire_cases [of ts "ca_fault call" "ca_clock call" resource ttl "ca_client call" db])
    case kept
    with res show ?thesis by blast
  next
    case (taken row active)
    with res have "lease = read_lease ts resource row active" by simp
    with taken(4,5) show ?thesis by (simp add: read_lease_def)
  qed
  with valid show "le_owner_instance lease = co_owner (ca_client call)"
    and "map_option ir_state (map_of (instances db) (co_owner (ca_client call))) = Some ''ACTIVE''"
    and "validate_resource (le_resource_key lease) = Inr ()"
    by simp_all
qed

text \<open>A lease whose token is behind the table is rejected by every fenced operation.\<close>

lemma old_token_not_current:
  "uint (le_fencing_token lease) < lease_token db (le_resource_key lease) \<Longrightarrow> current_row lease now db = None"
  by (auto simp: current_row_def lease_token_def split: option.splits)

lemma stale_operations:
  assumes "\<And>now. current_row lease now db = None"
  shows "fst (require_current fault t lease c db) \<noteq> Inr ()"
    and "fst (renew ts fault t lease ttl c db) \<noteq> Inr (True, l)"
    and "snd (snd (renew ts fault t lease ttl c db)) = db"
    and "fst (release fault t lease c db) \<noteq> Inr True"
    and "snd (snd (release fault t lease c db)) = db"
  using assms
  by (simp_all add: require_current_def renew_def release_def Let_def split: sum.split option.split)

lemma lease_token_after_grant:
  assumes "coord_ok db" and "lease \<in> set (grants ts calls db)"
  shows "lease_token db (le_resource_key lease) < lease_token (fold (perform ts) calls db) (le_resource_key lease)"
proof -
  let ?r = "le_resource_key lease"
  let ?g = "\<lambda>l. (le_resource_key l, uint (le_fencing_token l))"
  have "(?r, uint (le_fencing_token lease)) \<in> set (filter (\<lambda>g. fst g = ?r) (map ?g (grants ts calls db)))"
    using assms(2) by auto
  then have "snd (?r, uint (le_fencing_token lease)) \<in>
      set (map snd (filter (\<lambda>g. fst g = ?r) (map ?g (grants ts calls db))))"
    unfolding set_map by (rule imageI)
  moreover have "map snd (filter (\<lambda>g. fst g = ?r) (map ?g (grants ts calls db))) =
      [lease_token db ?r + 1 .. lease_token (fold (perform ts) calls db) ?r]"
    using lease_fencing.grants_consecutive [OF assms(1), of ?r ts calls]
    unfolding collect_map grants_def .
  ultimately have "uint (le_fencing_token lease) \<in>
      set [lease_token db ?r + 1 .. lease_token (fold (perform ts) calls db) ?r]"
    by simp
  then show ?thesis by auto
qed

lemma other_calls_keep_row:
  assumes "map_of (leases db) r = Some row" and "co_owner (ca_client call) \<noteq> lr_owner row"
    and "\<And>i. ca_clock call i < lr_expires row"
  shows "map_of (leases (perform ts call db)) r = Some row"
proof (cases "ca_op call")
  case (Acquire resource ttl)
  then show ?thesis
    using assms(1,2) assms(3) [of 3]
    by (cases rule: acquire_cases [of ts "ca_fault call" "ca_clock call" resource ttl "ca_client call" db])
      (auto simp: perform_def not_le)
next
  case (Renew lease ttl)
  then show ?thesis
    using assms current_row_SomeD
    by (cases rule: renew_cases [of ts "ca_fault call" "ca_clock call" lease ttl "ca_client call" db])
      (fastforce simp: perform_def)+
next
  case (Release lease)
  then show ?thesis
    using assms current_row_SomeD
    by (cases rule: release_cases [of "ca_fault call" "ca_clock call" lease "ca_client call" db])
      (fastforce simp: perform_def)+
qed (use assms in \<open>simp_all add: perform_def instance_ops_leases\<close>)

lemma others_keep_row:
  assumes "map_of (leases db) r = Some row"
    and "\<forall>call \<in> set calls. co_owner (ca_client call) \<noteq> lr_owner row \<and> (\<forall>i. ca_clock call i < lr_expires row)"
  shows "map_of (leases (fold (perform ts) calls db)) r = Some row"
  using assms by (induction calls arbitrary: db) (simp_all add: other_calls_keep_row)

text \<open>A process is inactive when its registered state is not \<^verbatim>\<open>ACTIVE\<close> or it is not registered.\<close>

definition inactive :: "string \<Rightarrow> coord_db \<Rightarrow> bool" where
  "inactive owner db \<longleftrightarrow> map_option ir_state (map_of (instances db) owner) \<noteq> Some ''ACTIVE''"

definition activates :: "string \<Rightarrow> coord_call \<Rightarrow> bool" where
  "activates owner call \<longleftrightarrow> co_owner (ca_client call) = owner \<and>
     (case ca_op call of
        RegisterInstance version caps state \<Rightarrow> state = ''ACTIVE''
      | HeartbeatInstance state \<Rightarrow> state = ''ACTIVE''
      | SetInstanceState state \<Rightarrow> state = ''ACTIVE''
      | _ \<Rightarrow> False)"

lemma touch_instance_state:
  "map_option ir_state (map_of (instances (snd (touch_instance now state c db))) owner) =
     (if owner = co_owner c \<and> map_of (instances db) owner \<noteq> None then Some state
      else map_option ir_state (map_of (instances db) owner))"
  by (auto simp: touch_instance_def split: option.split)

lemma heartbeat_state:
  "snd (heartbeat_instance fault t state c db) = db \<or>
   snd (heartbeat_instance fault t state c db) = snd (touch_instance (t 0) state c db)"
  by (simp add: heartbeat_instance_def split: sum.split option.split prod.split)

lemma set_state_state:
  "snd (set_instance_state fault t state c db) = db \<or>
   snd (set_instance_state fault t state c db) = snd (touch_instance (t 0) state c db)"
  by (simp add: set_instance_state_def split: sum.split option.split prod.split bool.split)

lemma inactive_touch:
  assumes "inactive owner db" and "\<not> (co_owner c = owner \<and> state = ''ACTIVE'')"
  shows "inactive owner (snd (touch_instance now state c db))"
  using assms unfolding inactive_def touch_instance_state by auto

lemma inactive_perform:
  assumes "inactive owner db" and "\<not> activates owner call"
  shows "inactive owner (perform ts call db)"
proof (cases "ca_op call")
  case (RegisterInstance version caps state)
  then show ?thesis
    using assms
    by (auto simp: perform_def register_instance_def inactive_def activates_def Let_def
        split: sum.splits option.splits if_splits)
next
  case (HeartbeatInstance state)
  then have "inactive owner (snd (touch_instance (ca_clock call 0) state (ca_client call) db))"
    using assms by (intro inactive_touch) (simp_all add: activates_def)
  with HeartbeatInstance assms(1) heartbeat_state [of "ca_fault call" "ca_clock call" state "ca_client call" db]
  show ?thesis by (auto simp: perform_def)
next
  case (SetInstanceState state)
  then have "inactive owner (snd (touch_instance (ca_clock call 0) state (ca_client call) db))"
    using assms by (intro inactive_touch) (simp_all add: activates_def)
  with SetInstanceState assms(1) set_state_state [of "ca_fault call" "ca_clock call" state "ca_client call" db]
  show ?thesis by (auto simp: perform_def)
qed (use assms in \<open>simp_all add: perform_def inactive_def lease_ops_instances\<close>)

lemma inactive_no_grants:
  assumes "inactive owner db" and "\<forall>call \<in> set calls. \<not> activates owner call"
  shows "\<forall>lease \<in> set (grants ts calls db). le_owner_instance lease \<noteq> owner"
  using assms
proof (induction calls arbitrary: db)
  case Nil
  then show ?case by (simp add: grants_def)
next
  case (Cons call calls)
  have "granted ts call db = Some lease \<Longrightarrow> le_owner_instance lease \<noteq> owner" for lease
    using granted_lease(1,2) [of ts call db lease] Cons.prems(1) by (auto simp: inactive_def)
  moreover have "inactive owner (perform ts call db)"
    using Cons.prems inactive_perform by simp
  ultimately show ?case
    using Cons.IH [of "perform ts call db"] Cons.prems(2)
    by (cases "granted ts call db") (auto simp: grants_def)
qed

section \<open>Examples\<close>

text \<open>Two processes, A and B, and a clock that stands at the given time for a whole statement.\<close>

definition member :: "string \<Rightarrow> coordination" where
  "member owner = \<lparr>co_owner = owner, co_acquisition_failures = 0, co_renewal_failures = 0,
     co_fencing_rejections = 0\<rparr>"

definition call_at :: "int \<Rightarrow> string \<Rightarrow> coord_op \<Rightarrow> coord_call" where
  "call_at now owner op = \<lparr>ca_client = member owner, ca_fault = None, ca_clock = (\<lambda>_. now), ca_op = op\<rparr>"

text \<open>A holds the scheduler's lease until 5000 us; B is registered too.\<close>

definition example_db :: coord_db where
  "example_db =
     \<lparr>leases = [(''run'', \<lparr>lr_owner = ''A'', lr_token = 1, lr_acquired = 0, lr_heartbeat = 0, lr_expires = 5000\<rparr>)],
      instances = [(''A'', \<lparr>ir_started = 0, ir_heartbeat = 0, ir_version = [], ir_capabilities = [], ir_state = ''ACTIVE''\<rparr>),
                   (''B'', \<lparr>ir_started = 0, ir_heartbeat = 0, ir_version = [], ir_capabilities = [], ir_state = ''ACTIVE''\<rparr>)]\<rparr>"

definition example_lease :: lease_record where
  "example_lease = \<lparr>le_resource_key = ''run'', le_owner_instance = ''A'', le_fencing_token = 1,
     le_acquired_at = [], le_heartbeat_at = [], le_expires_at = [], le_active = True\<rparr>"

lemma example_db_ok: "coord_ok example_db"
  by (simp add: coord_ok_def example_db_def bigint_ok_def)

lemmas coord_example_defs = example_db_def example_lease_def call_at_def member_def perform_def granted_def
  grants_def acquire_def validate_resource_def validate_ttl_def ttl_us_def read_lease_def bigint_ok_def
  lease_token_def

section \<open>Properties\<close>

text \<open>
  C1: fencing tokens never repeat. However the calls of any number of processes interleave and fail, the
  leases granted for a resource carry consecutive tokens, starting after the token the table had. A call that
  reports a failure is taken as not applied, also when the failure comes from the final COMMIT.
\<close>

theorem fencing_tokens_consecutive:
  assumes "coord_ok db"
  shows "map (uint \<circ> le_fencing_token) (filter (\<lambda>l. le_resource_key l = resource) (grants ts calls db)) =
    [lease_token db resource + 1 .. lease_token (fold (perform ts) calls db) resource]"
  using lease_fencing.grants_consecutive [OF assms, of resource ts calls]
  unfolding collect_map grants_def by (simp add: filter_map comp_def)

lemma fencing_tokens_consecutive_witness:
  "map (uint \<circ> le_fencing_token) (filter (\<lambda>l. le_resource_key l = ''run'')
     (grants (\<lambda>_. []) [call_at 5000 ''B'' (Acquire ''run'' 1)] example_db)) =
   [2 .. lease_token (fold (perform (\<lambda>_. [])) [call_at 5000 ''B'' (Acquire ''run'' 1)] example_db) ''run'']"
  using fencing_tokens_consecutive [OF example_db_ok, of "''run''" "\<lambda>_. []" "[call_at 5000 ''B'' (Acquire ''run'' 1)]"]
  by (simp add: lease_token_def example_db_def)

lemma outdated_token:
  assumes "coord_ok db" and "granted ts call db = Some lease"
    and "later \<in> set (grants ts calls (perform ts call db))" and "le_resource_key later = le_resource_key lease"
  shows "uint (le_fencing_token lease) < lease_token (fold (perform ts) calls (perform ts call db)) (le_resource_key lease)"
    and "bigint_ok (uint (le_fencing_token lease))"
proof -
  let ?r = "le_resource_key lease" and ?db1 = "perform ts call db"
  have token: "uint (le_fencing_token lease) = lease_token ?db1 ?r" and ok: "coord_ok ?db1"
    using assms(2) by (cases rule: perform_cases [OF assms(1), of ts call]; simp)+
  have "lease_token ?db1 ?r < lease_token (fold (perform ts) calls ?db1) ?r"
    using lease_token_after_grant [OF ok assms(3)] assms(4) by simp
  then show "uint (le_fencing_token lease) < lease_token (fold (perform ts) calls ?db1) ?r"
    by (simp add: token)
  show "bigint_ok (uint (le_fencing_token lease))"
    using lease_token_range [OF ok, of ?r] token by simp
qed

text \<open>
  C25: a stale holder is fenced off for good. Once a later lease of the same resource has been granted,
  an earlier one is never accepted again, whatever happens afterwards: the fencing check rejects
  it, with a conflict when the database answers, and neither renewing nor releasing it succeeds or
  changes the tables.
\<close>

theorem stale_lease_fenced_off:
  assumes "coord_ok db" and "granted ts call db = Some lease"
    and "later \<in> set (grants ts calls (perform ts call db))" and "le_resource_key later = le_resource_key lease"
  shows "let db' = fold (perform ts) calls (perform ts call db) in
    (\<exists>m. fst (require_current None t lease c db') = throw Conflict m) \<and>
    fst (require_current fault t lease c db') \<noteq> Inr () \<and>
    (\<forall>l. fst (renew ts fault t lease ttl c db') \<noteq> Inr (True, l)) \<and> snd (snd (renew ts fault t lease ttl c db')) = db' \<and>
    fst (release fault t lease c db') \<noteq> Inr True \<and> snd (snd (release fault t lease c db')) = db'"
proof -
  let ?db2 = "fold (perform ts) calls (perform ts call db)"
  have none: "current_row lease now ?db2 = None" for now
    using outdated_token(1) [OF assms] by (rule old_token_not_current)
  moreover have "bigint_ok (uint (le_fencing_token lease))"
    using outdated_token(2) [OF assms] .
  then have "\<exists>m. fst (require_current None t lease c ?db2) = throw Conflict m"
    using granted_lease(3) [OF assms(2)] none by (simp add: require_current_def Let_def)
  ultimately show ?thesis using stale_operations [OF none] by (simp add: Let_def)
qed

lemma stale_lease_fenced_off_witness:
  "\<exists>m. fst (require_current None (\<lambda>_. 5500)
       \<lparr>le_resource_key = ''run'', le_owner_instance = ''B'', le_fencing_token = 2, le_acquired_at = [],
        le_heartbeat_at = [], le_expires_at = [], le_active = True\<rparr> (member ''B'')
       (fold (perform (\<lambda>_. [])) [call_at 7000 ''A'' (Acquire ''run'' 9)]
          (perform (\<lambda>_. []) (call_at 5000 ''B'' (Acquire ''run'' 1)) example_db))) = throw Conflict m"
proof -
  let ?ts = "\<lambda>_ :: int. [] :: string"
  let ?b = "call_at 5000 ''B'' (Acquire ''run'' 1)" and ?a = "call_at 7000 ''A'' (Acquire ''run'' 9)"
  let ?lease = "\<lparr>le_resource_key = ''run'', le_owner_instance = ''B'', le_fencing_token = 2, le_acquired_at = [],
        le_heartbeat_at = [], le_expires_at = [], le_active = True\<rparr>"
  let ?later = "?lease\<lparr>le_owner_instance := ''A'', le_fencing_token := 3\<rparr>"
  have "granted ?ts ?b example_db = Some ?lease"
    by (simp add: coord_example_defs less_char_def)
  moreover have "?later \<in> set (grants ?ts [?a] (perform ?ts ?b example_db))"
    by (simp add: coord_example_defs less_char_def)
  ultimately show ?thesis
    using stale_lease_fenced_off [OF example_db_ok, of ?ts ?b ?lease ?later "[?a]"] by (simp add: Let_def)
qed

text \<open>
  An unexpired lease cannot be taken away. While every clock reading of the other processes is before
  the expiry the holder was told, nothing they call, in any number and order, makes the holder's
  fencing check fail.
\<close>

lemma unexpired_lease_is_kept:
  assumes "current_row lease now db = Some row" and "validate_resource (le_resource_key lease) = Inr ()"
    and "bigint_ok (lr_token row)" and "co_owner c = le_owner_instance lease" and "t 0 < lr_expires row"
    and "\<forall>call \<in> set calls. co_owner (ca_client call) \<noteq> le_owner_instance lease \<and>
      (\<forall>i. ca_clock call i < lr_expires row)"
  shows "require_current None t lease c (fold (perform ts) calls db) = (Inr (), c)"
proof -
  note row = current_row_SomeD [OF assms(1)]
  have "map_of (leases (fold (perform ts) calls db)) (le_resource_key lease) = Some row"
    using assms(6) row(2) by (intro others_keep_row [OF row(1)]) simp
  then have "current_row lease (t 0) (fold (perform ts) calls db) = Some row"
    using row assms(5) by (simp add: current_row_def)
  then show ?thesis using assms(2-4) row(3) by (simp add: require_current_def Let_def)
qed

lemma unexpired_lease_is_kept_example:
  "require_current None (\<lambda>_. 4999) example_lease (member ''A'')
     (fold (perform (\<lambda>_. [])) [call_at 4000 ''B'' (Acquire ''run'' 1), call_at 4500 ''B'' (Release example_lease)]
        example_db) = (Inr (), member ''A'')"
  by (rule unexpired_lease_is_kept [where now = 0 and row = "\<lparr>lr_owner = ''A'', lr_token = 1, lr_acquired = 0,
        lr_heartbeat = 0, lr_expires = 5000\<rparr>"])
    (simp_all add: current_row_def coord_example_defs)

text \<open>
  A draining process takes no new lease. After its transition to \<^verbatim>\<open>DRAINING\<close> has succeeded, no
  acquisition of that process is granted until one of its own calls registers it as active again,
  however the calls of all processes interleave.
\<close>

lemma draining_takes_no_lease:
  assumes "fst (set_instance_state fault t ''DRAINING'' c db) = Inr ()"
    and "\<forall>call \<in> set calls. \<not> activates (co_owner c) call"
  shows "\<forall>lease \<in> set (grants ts calls (snd (set_instance_state fault t ''DRAINING'' c db))).
    le_owner_instance lease \<noteq> co_owner c"
proof (rule inactive_no_grants [OF _ assms(2)])
  have "snd (set_instance_state fault t ''DRAINING'' c db) = snd (touch_instance (t 0) ''DRAINING'' c db) \<and>
      map_of (instances db) (co_owner c) \<noteq> None"
    using assms(1)
    by (auto simp: set_instance_state_def touch_instance_def split: sum.splits option.splits prod.splits bool.splits)
  then show "inactive (co_owner c) (snd (set_instance_state fault t ''DRAINING'' c db))"
    unfolding inactive_def by (simp add: touch_instance_state)
qed

lemma draining_takes_no_lease_example:
  "filter (\<lambda>lease. le_owner_instance lease = ''B'') (grants (\<lambda>_. []) [call_at 6000 ''B'' (Acquire ''run'' 1)]
     (snd (set_instance_state None (\<lambda>_. 5000) ''DRAINING'' (member ''B'') example_db))) = []"
proof -
  have "fst (set_instance_state None (\<lambda>_. 5000) ''DRAINING'' (member ''B'') example_db) = Inr ()"
    by (simp add: set_instance_state_def touch_instance_def validate_instance_state_def instance_states_def
      example_db_def member_def)
  from draining_takes_no_lease [OF this, of "[call_at 6000 ''B'' (Acquire ''run'' 1)]" "\<lambda>_. []"] show ?thesis
    by (simp add: activates_def call_at_def member_def)
qed

end
