(* ===== verification/Laso_Time.thy ===== *)
theory Laso_Time
  imports Laso_Pipeline
begin

text \<open>
  \<^verbatim>\<open>parse_utc_timestamp\<close> and \<^verbatim>\<open>format_utc_timestamp\<close> of \<^verbatim>\<open>src/scheduler/scheduler.cpp\<close>, over the proleptic
  Gregorian calendar that \<^verbatim>\<open>gmtime_r\<close> and \<^verbatim>\<open>timegm\<close> implement. A wall time is the count of nanoseconds
  since the epoch that \<^verbatim>\<open>std::chrono::system_clock\<close> keeps in a signed 64-bit integer; a computation that
  leaves that range is \<open>SignedOverflow\<close>.
\<close>

section \<open>The calendar of the C library\<close>

record tm =
  tm_year :: int
  tm_mon :: int
  tm_mday :: int
  tm_hour :: int
  tm_min :: int
  tm_sec :: int
  tm_wday :: int

definition leap :: "int \<Rightarrow> bool" where
  "leap y \<longleftrightarrow> y mod 4 = 0 \<and> (y mod 100 \<noteq> 0 \<or> y mod 400 = 0)"

definition year_len :: "int \<Rightarrow> int" where
  "year_len y = (if leap y then 366 else 365)"

definition month_len :: "int \<Rightarrow> nat \<Rightarrow> int" where
  "month_len y m = [31, if leap y then 29 else 28, 31, 30, 31, 30, 31, 31, 30, 31, 30, 31] ! m"

definition leaps :: "int \<Rightarrow> int" where
  "leaps y = y div 4 - y div 100 + y div 400"

text \<open>Days from the epoch to the first of January of a year.\<close>

definition days_before_year :: "int \<Rightarrow> int" where
  "days_before_year y = 365 * (y - 1970) + leaps (y - 1) - leaps 1969"

fun days_before_month :: "int \<Rightarrow> nat \<Rightarrow> int" where
  "days_before_month y 0 = 0"
| "days_before_month y (Suc m) = days_before_month y m + month_len y m"

lemma year_len_pos: "365 \<le> year_len y"
  by (simp add: year_len_def)

text \<open>The year a day falls in, counting on from a start year.\<close>

function year_from :: "int \<Rightarrow> int \<Rightarrow> int \<times> int" where
  "year_from y d = (if d < year_len y then (y, d) else year_from (y + 1) (d - year_len y))"
  by auto
termination
  by (relation "measure (\<lambda>(y, d). nat d)") (auto simp: year_len_def split: if_splits)

declare year_from.simps [simp del]

fun month_from :: "int \<Rightarrow> nat \<Rightarrow> nat \<Rightarrow> int \<Rightarrow> nat \<times> int" where
  "month_from y 0 m d = (m, d)"
| "month_from y (Suc left) m d =
     (if d < month_len y m then (m, d) else month_from y left (Suc m) (d - month_len y m))"

text \<open>Four centuries are 146097 days, so a day of any era is found within one era.\<close>

definition gmtime :: "int \<Rightarrow> tm" where
  "gmtime s =
     (let days = s div 86400; rest = s mod 86400; era = days div 146097;
          (y, doy) = year_from 1970 (days mod 146097);
          (m, dom) = month_from y 11 0 doy
      in \<lparr>tm_year = y + 400 * era - 1900, tm_mon = int m, tm_mday = dom + 1, tm_hour = rest div 3600,
          tm_min = rest mod 3600 div 60, tm_sec = rest mod 60, tm_wday = (days + 4) mod 7\<rparr>)"

text \<open>
  \<^verbatim>\<open>timegm\<close> accepts fields outside their ranges, carries them over, and writes the normalised fields
  back into the structure it was given: the second component.
\<close>

definition timegm :: "tm \<Rightarrow> int \<times> tm" where
  "timegm t =
     (let y = tm_year t + 1900 + tm_mon t div 12; m = nat (tm_mon t mod 12);
          days = days_before_year y + days_before_month y m + (tm_mday t - 1);
          s = days * 86400 + tm_hour t * 3600 + tm_min t * 60 + tm_sec t
      in (s, gmtime s))"

section \<open>Timestamps\<close>

definition time_fits :: "int \<Rightarrow> bool" where
  "time_fits t \<longleftrightarrow> - (2 ^ 63) \<le> t \<and> t < 2 ^ 63"

definition wall :: "int \<Rightarrow> int result" where
  "wall t = (if time_fits t then Inr t else Inl SignedOverflow)"

definition timestamp_pattern :: string where
  "timestamp_pattern = ''dddd-dd-ddTdd:dd:dd.dddZ''"

definition matches_timestamp :: "string \<Rightarrow> bool" where
  "matches_timestamp s \<longleftrightarrow>
     list_all2 (\<lambda>p c. if p = CHR ''d'' then is_digit c else c = p) timestamp_pattern s"

definition field_at :: "nat \<Rightarrow> nat \<Rightarrow> string \<Rightarrow> int" where
  "field_at i n s = int (digits_value 0 (take n (drop i s)))"

definition parse_utc_timestamp :: "string \<Rightarrow> int result" where
  "parse_utc_timestamp s =
     (if \<not> matches_timestamp s
      then throw Validation ''Timestamp must be an absolute UTC ISO-8601 value''
      else
        let utc = \<lparr>tm_year = field_at 0 4 s - 1900, tm_mon = field_at 5 2 s - 1, tm_mday = field_at 8 2 s,
                   tm_hour = field_at 11 2 s, tm_min = field_at 14 2 s, tm_sec = field_at 17 2 s, tm_wday = 0\<rparr>;
            milliseconds = field_at 20 3 s;
            (seconds, utc') = timegm utc;
            roundtrip = gmtime seconds
        in if seconds < 0 then throw Validation ''Invalid UTC timestamp''
           else if tm_year roundtrip \<noteq> tm_year utc' \<or> tm_mon roundtrip \<noteq> tm_mon utc' \<or>
                   tm_mday roundtrip \<noteq> tm_mday utc' \<or> tm_hour roundtrip \<noteq> tm_hour utc' \<or>
                   tm_min roundtrip \<noteq> tm_min utc' \<or> tm_sec roundtrip \<noteq> tm_sec utc'
           then throw Validation ''Invalid UTC timestamp''
           else rbind (wall (seconds * 1000000000)) (\<lambda>t. wall (t + milliseconds * 1000000)))"

text \<open>Integer division of the language truncates towards zero.\<close>

definition tdiv :: "int \<Rightarrow> int \<Rightarrow> int" where
  "tdiv a b = sgn a * (\<bar>a\<bar> div b)"

definition tmod :: "int \<Rightarrow> int \<Rightarrow> int" where
  "tmod a b = a - tdiv a b * b"

fun pad :: "nat \<Rightarrow> nat \<Rightarrow> string" where
  "pad 0 n = []"
| "pad (Suc w) n = pad w (n div 10) @ [char_of (48 + n mod 10)]"

text \<open>\<^verbatim>\<open>%Y\<close> of a wall time has four digits: the years of the 64-bit range are 1677 to 2262.\<close>

definition format_utc_timestamp :: "int \<Rightarrow> string" where
  "format_utc_timestamp t =
     (let milliseconds = tdiv t 1000000;
          seconds = tdiv milliseconds 1000;
          remainder = tmod milliseconds 1000;
          remainder' = (if remainder < 0 then remainder + 1000 else remainder);
          utc = gmtime seconds
      in pad 4 (nat (tm_year utc + 1900)) @ ''-'' @ pad 2 (nat (tm_mon utc + 1)) @ ''-'' @
         pad 2 (nat (tm_mday utc)) @ ''T'' @ pad 2 (nat (tm_hour utc)) @ '':'' @ pad 2 (nat (tm_min utc)) @
         '':'' @ pad 2 (nat (tm_sec utc)) @ ''.'' @ pad 3 (nat remainder') @ ''Z'')"

section \<open>The calendar is consistent\<close>

lemma div_pred: "0 < n \<Longrightarrow> (y - 1) div n = y div n - (if y mod n = 0 then 1 else 0)" for y n :: int
proof -
  assume n: "0 < n"
  have y: "y = n * (y div n) + y mod n" by simp
  show ?thesis
  proof (cases "y mod n = 0")
    case True
    have "y - 1 = n * (y div n - 1) + (n - 1)" using y True by (simp add: algebra_simps)
    then have "(y - 1) div n = y div n - 1" using n int_div_pos_eq [of "y - 1" n "y div n - 1" "n - 1"] by simp
    with True show ?thesis by simp
  next
    case False
    have "y - 1 = n * (y div n) + (y mod n - 1)" using y by simp
    moreover have "0 \<le> y mod n - 1" "y mod n - 1 < n"
      using n False pos_mod_sign [OF n, of y] pos_mod_bound [OF n, of y] by linarith+
    ultimately have "(y - 1) div n = y div n" by (rule int_div_pos_eq)
    with False show ?thesis by simp
  qed
qed

lemma days_before_year_Suc: "days_before_year (y + 1) = days_before_year y + year_len y"
proof -
  have sub: "y mod 400 = 0 \<Longrightarrow> y mod 100 = 0" "y mod 100 = 0 \<Longrightarrow> y mod 4 = 0"
    using dvd_trans [of 100 400 y] dvd_trans [of 4 100 y] by (simp_all only: dvd_eq_mod_eq_0 [symmetric]) simp_all
  note steps = div_pred [of 4 y, simplified] div_pred [of 100 y, simplified] div_pred [of 400 y, simplified]
  have "leaps y - leaps (y - 1) = (if leap y then 1 else 0)"
    unfolding leaps_def leap_def steps using sub
    by (cases "y mod 4 = 0"; cases "y mod 100 = 0"; cases "y mod 400 = 0") simp_all
  then show ?thesis by (simp add: days_before_year_def year_len_def split: if_splits)
qed

lemma era_div: "(y + 400 * k) div 4 = y div 4 + 100 * k" "(y + 400 * k) div 100 = y div 100 + 4 * k"
  "(y + 400 * k) div 400 = y div 400 + k" for y k :: int
  using div_mult_self1 [of 4 y "100 * k"] div_mult_self1 [of 100 y "4 * k"] div_mult_self1 [of 400 y k]
  by (simp_all add: mult.assoc [symmetric])

lemma era_mod: "(y + 400 * k) mod 4 = y mod 4" "(y + 400 * k) mod 100 = y mod 100"
  "(y + 400 * k) mod 400 = y mod 400" for y k :: int
  using mod_mult_self1 [of y "100 * k" 4] mod_mult_self1 [of y "4 * k" 100] mod_mult_self1 [of y k 400]
  by (simp_all add: mult.assoc [symmetric] mult.commute)

lemma days_before_year_era: "days_before_year (y + 400 * k) = days_before_year y + 146097 * k"
proof -
  have "leaps (y - 1 + 400 * k) = leaps (y - 1) + 97 * k"
    unfolding leaps_def era_div by simp
  moreover have "y + 400 * k - 1 = y - 1 + 400 * k" by simp
  ultimately show ?thesis unfolding days_before_year_def by (simp add: algebra_simps)
qed

lemma leap_era: "leap (y + 400 * k) = leap y"
  unfolding leap_def era_mod by simp

lemma month_len_era: "month_len (y + 400 * k) m = month_len y m"
  by (simp add: month_len_def leap_era)

lemma days_before_month_era: "days_before_month (y + 400 * k) m = days_before_month y m"
  by (induction m) (simp_all add: month_len_era)

lemma year_from_sound:
  "year_from y d = (y', d') \<Longrightarrow> 0 \<le> d \<Longrightarrow>
   days_before_year y + d = days_before_year y' + d' \<and> 0 \<le> d' \<and> d' < year_len y' \<and> y \<le> y'"
proof (induction y d rule: year_from.induct)
  case (1 y d)
  show ?case
  proof (cases "d < year_len y")
    case True
    with 1 show ?thesis by (auto simp: year_from.simps)
  next
    case False
    with 1 have "days_before_year (y + 1) + (d - year_len y) = days_before_year y' + d' \<and>
        0 \<le> d' \<and> d' < year_len y' \<and> y + 1 \<le> y'"
      by (simp add: year_from.simps)
    then show ?thesis by (simp add: days_before_year_Suc)
  qed
qed

lemma days_before_year_mono: "y \<le> y' \<Longrightarrow> days_before_year y \<le> days_before_year y'"
proof (induction y' rule: int_ge_induct)
  case (step z)
  then show ?case using days_before_year_Suc [of z] year_len_pos [of z] by simp
qed simp

text \<open>A day lies in one year only.\<close>

lemma year_unique:
  assumes "days_before_year y + d = days_before_year y' + d'"
    and "0 \<le> d" and "d < year_len y" and "0 \<le> d'" and "d' < year_len y'"
  shows "y = y'"
proof (rule ccontr)
  assume "y \<noteq> y'"
  then consider "y + 1 \<le> y'" | "y' + 1 \<le> y" by linarith
  then show False
  proof cases
    case 1
    from days_before_year_mono [OF 1] assms show False by (simp add: days_before_year_Suc)
  next
    case 2
    from days_before_year_mono [OF 2] assms show False by (simp add: days_before_year_Suc)
  qed
qed

lemma month_len_range: "m < 12 \<Longrightarrow> 28 \<le> month_len y m \<and> month_len y m \<le> 31"
  unfolding month_len_def
  by (cases m rule: nat.exhaust; simp) (auto simp: less_Suc_eq numeral_eq_Suc)

lemma days_before_month_year: "days_before_month y 12 = year_len y"
  by (simp add: month_len_def year_len_def numeral_eq_Suc)

lemma days_before_month_mono:
  assumes "m \<le> m'" and "m' \<le> 12"
  shows "days_before_month y m \<le> days_before_month y m'"
  using assms
proof (induction m' rule: dec_induct)
  case (step k)
  then show ?case using month_len_range [of k y] by simp
qed simp

lemma month_from_sound:
  assumes "month_from y left m d = (m', d')" and "m + left = 11" and "0 \<le> d"
    and "days_before_month y m + d < year_len y"
  shows "days_before_month y m + d = days_before_month y m' + d' \<and> 0 \<le> d' \<and> d' < month_len y m' \<and> m' < 12"
  using assms
proof (induction left arbitrary: m d)
  case 0
  then have "m = 11" by simp
  with 0 days_before_month_year [of y] show ?case by (simp add: numeral_eq_Suc)
next
  case (Suc left)
  show ?case
  proof (cases "d < month_len y m")
    case True
    with Suc.prems show ?thesis by auto
  next
    case False
    with Suc.prems have "month_from y left (Suc m) (d - month_len y m) = (m', d')" by simp
    from Suc.IH [OF this] False Suc.prems show ?thesis by simp
  qed
qed

lemma month_unique:
  assumes "days_before_month y m + d = days_before_month y m' + d'" and "m < 12" and "m' < 12"
    and "0 \<le> d" and "d < month_len y m" and "0 \<le> d'" and "d' < month_len y m'"
  shows "m = m'"
proof (rule ccontr)
  assume "m \<noteq> m'"
  then consider "Suc m \<le> m'" | "Suc m' \<le> m" by linarith
  then show False
  proof cases
    case 1
    from days_before_month_mono [OF 1, of y] assms show False by simp
  next
    case 2
    from days_before_month_mono [OF 2, of y] assms show False by simp
  qed
qed

text \<open>Fields within their ranges.\<close>

definition normal_tm :: "tm \<Rightarrow> bool" where
  "normal_tm t \<longleftrightarrow> 0 \<le> tm_mon t \<and> tm_mon t < 12 \<and> 1 \<le> tm_mday t \<and>
     tm_mday t \<le> month_len (tm_year t + 1900) (nat (tm_mon t)) \<and> 0 \<le> tm_hour t \<and> tm_hour t < 24 \<and>
     0 \<le> tm_min t \<and> tm_min t < 60 \<and> 0 \<le> tm_sec t \<and> tm_sec t < 60"

lemma int_div_less:
  fixes a b c :: int
  assumes "0 < b" and "a < c * b"
  shows "a div b < c"
proof (rule ccontr)
  assume "\<not> a div b < c"
  then have "c * b \<le> a div b * b" using assms(1) by simp
  also have "\<dots> \<le> a" using assms(1) pos_mod_sign [of b a] div_mult_mod_eq [of a b] by linarith
  finally show False using assms(2) by simp
qed

lemma clock_split:
  "s mod 86400 div 3600 * 3600 + s mod 86400 mod 3600 div 60 * 60 + s mod 86400 mod 60 = s mod 86400"
  for s :: int
proof -
  have "s mod 86400 mod 60 = s mod 86400 mod 3600 mod 60"
    using mod_mod_cancel [of 60 3600 "s mod 86400"] by simp
  then show ?thesis by simp
qed

lemma gmtime_normal:
  "normal_tm (gmtime s) \<and> fst (timegm (gmtime s)) = s"
proof -
  define days where "days = s div 86400"
  define era where "era = days div 146097"
  obtain y doy where yd: "year_from 1970 (days mod 146097) = (y, doy)" by fastforce
  obtain m dom where md: "month_from y 11 0 doy = (m, dom)" by fastforce
  have year: "days mod 146097 = days_before_year y + doy" "0 \<le> doy" "doy < year_len y"
    using year_from_sound [OF yd] by (simp_all add: days_before_year_def)
  have month: "doy = days_before_month y m + dom" "0 \<le> dom" "dom < month_len y m" "m < 12"
    using month_from_sound [OF md] year by simp_all
  define h mi sec where "h = s mod 86400 div 3600" and "mi = s mod 86400 mod 3600 div 60"
    and "sec = s mod 86400 mod 60"
  have gm: "gmtime s = \<lparr>tm_year = y + 400 * era - 1900, tm_mon = int m, tm_mday = dom + 1, tm_hour = h,
      tm_min = mi, tm_sec = sec, tm_wday = (days + 4) mod 7\<rparr>"
    using yd md by (simp add: gmtime_def days_def era_def h_def mi_def sec_def Let_def)
  have ranges: "0 \<le> h" "h < 24" "0 \<le> mi" "mi < 60" "0 \<le> sec" "sec < 60"
    unfolding h_def mi_def sec_def by (simp_all add: pos_imp_zdiv_nonneg_iff int_div_less)
  have "normal_tm (gmtime s)"
    unfolding gm normal_tm_def using month(2-4) ranges month_len_era [of y era m] by simp
  moreover have "fst (timegm (gmtime s)) = s"
  proof -
    have "days_before_year (y + 400 * era) + days_before_month (y + 400 * era) m + dom = days"
      using year(1) month(1) mult_div_mod_eq [of 146097 days]
      unfolding days_before_year_era days_before_month_era era_def by linarith
    moreover have "days * 86400 + (h * 3600 + mi * 60 + sec) = s"
      unfolding h_def mi_def sec_def clock_split days_def by simp
    ultimately show ?thesis
      unfolding gm timegm_def using month(4) by (simp add: Let_def)
  qed
  ultimately show ?thesis by blast
qed

text \<open>The day number and the second of the day determine every field.\<close>

definition day_number :: "tm \<Rightarrow> int" where
  "day_number t = days_before_year (tm_year t + 1900) +
     (days_before_month (tm_year t + 1900) (nat (tm_mon t)) + (tm_mday t - 1))"

definition day_second :: "tm \<Rightarrow> int" where
  "day_second t = tm_hour t * 3600 + tm_min t * 60 + tm_sec t"

lemma timegm_normal: "normal_tm t \<Longrightarrow> fst (timegm t) = day_number t * 86400 + day_second t"
  by (simp add: timegm_def normal_tm_def day_number_def day_second_def Let_def)

lemma day_second_range: "normal_tm t \<Longrightarrow> 0 \<le> day_second t \<and> day_second t < 86400"
  by (simp add: normal_tm_def day_second_def)

lemma day_of_year_range:
  assumes "normal_tm t"
  shows "0 \<le> days_before_month (tm_year t + 1900) (nat (tm_mon t)) + (tm_mday t - 1)"
    and "days_before_month (tm_year t + 1900) (nat (tm_mon t)) + (tm_mday t - 1) < year_len (tm_year t + 1900)"
proof -
  let ?y = "tm_year t + 1900" and ?m = "nat (tm_mon t)"
  have m: "Suc ?m \<le> 12" using assms by (auto simp: normal_tm_def nat_less_iff Suc_le_eq)
  have "days_before_month ?y 0 \<le> days_before_month ?y ?m" using m by (intro days_before_month_mono) simp_all
  then show "0 \<le> days_before_month ?y ?m + (tm_mday t - 1)" using assms by (simp add: normal_tm_def)
  have "days_before_month ?y (Suc ?m) \<le> days_before_month ?y 12" using m by (intro days_before_month_mono) simp_all
  then show "days_before_month ?y ?m + (tm_mday t - 1) < year_len ?y"
    using assms by (simp add: normal_tm_def days_before_month_year)
qed

lemma place_unique:
  fixes a a' b r r' :: int
  assumes "a * b + r = a' * b + r'" and "0 \<le> r" and "r < b" and "0 \<le> r'" and "r' < b"
  shows "a = a' \<and> r = r'"
proof -
  have "(a * b + r) div b = a" and "(a' * b + r') div b = a'"
    using assms(2-5) by simp_all
  with assms(1) show ?thesis by simp
qed

lemma clock_unique:
  fixes h mi se :: int
  assumes "h * 3600 + mi * 60 + se = h' * 3600 + mi' * 60 + se'"
    and "0 \<le> mi" "mi < 60" "0 \<le> se" "se < 60" "0 \<le> mi'" "mi' < 60" "0 \<le> se'" "se' < 60"
  shows "h = h' \<and> mi = mi' \<and> se = se'"
  using place_unique [of "h * 60 + mi" 60 se "h' * 60 + mi'" se'] place_unique [of h 60 mi h' mi'] assms
  by simp

lemma timegm_inject:
  assumes "normal_tm t" and "normal_tm t'" and "fst (timegm t) = fst (timegm t')"
  shows "tm_year t = tm_year t' \<and> tm_mon t = tm_mon t' \<and> tm_mday t = tm_mday t' \<and>
    tm_hour t = tm_hour t' \<and> tm_min t = tm_min t' \<and> tm_sec t = tm_sec t'"
proof -
  have eq: "day_number t * 86400 + day_second t = day_number t' * 86400 + day_second t'"
    using assms by (simp add: timegm_normal)
  with day_second_range [OF assms(1)] day_second_range [OF assms(2)]
  have day: "day_number t = day_number t'" and sec: "day_second t = day_second t'"
    using place_unique [OF eq] by auto
  have y: "tm_year t + 1900 = tm_year t' + 1900"
    by (rule year_unique [OF day [unfolded day_number_def]])
      (simp_all only: day_of_year_range [OF assms(1)] day_of_year_range [OF assms(2)])
  have "nat (tm_mon t) = nat (tm_mon t')"
    using day y assms(1,2)
    by (intro month_unique [of "tm_year t + 1900" _ "tm_mday t - 1" _ "tm_mday t' - 1"])
      (simp_all add: day_number_def normal_tm_def nat_less_iff)
  then have "tm_mon t = tm_mon t'" using assms(1,2) by (simp add: normal_tm_def eq_nat_nat_iff)
  moreover have "tm_hour t = tm_hour t' \<and> tm_min t = tm_min t' \<and> tm_sec t = tm_sec t'"
    using sec assms(1,2) unfolding day_second_def normal_tm_def by (intro clock_unique) simp_all
  ultimately show ?thesis
    using y day assms(1,2) by (simp add: day_number_def normal_tm_def)
qed

lemma gmtime_timegm:
  assumes "normal_tm t"
  shows "gmtime (fst (timegm t)) = t\<lparr>tm_wday := tm_wday (gmtime (fst (timegm t)))\<rparr>"
  using timegm_inject [OF assms, of "gmtime (fst (timegm t))"] gmtime_normal [of "fst (timegm t)"]
  by (cases t; cases "gmtime (fst (timegm t))") simp

section \<open>Printing and reading\<close>

definition timestamp_text :: "nat \<Rightarrow> nat \<Rightarrow> nat \<Rightarrow> nat \<Rightarrow> nat \<Rightarrow> nat \<Rightarrow> nat \<Rightarrow> string" where
  "timestamp_text y mo d h mi se ms =
     pad 4 y @ ''-'' @ pad 2 mo @ ''-'' @ pad 2 d @ ''T'' @ pad 2 h @ '':'' @ pad 2 mi @ '':'' @ pad 2 se @
     ''.'' @ pad 3 ms @ ''Z''"

lemma length_pad [simp]: "length (pad w n) = w"
  by (induction w arbitrary: n) simp_all

lemma digits_value_pad: "n < 10 ^ w \<Longrightarrow> digits_value 0 (pad w n) = n"
proof (induction w arbitrary: n)
  case (Suc w)
  then have "n div 10 < 10 ^ w" by (simp add: div_less_iff_less_mult)
  with Suc.IH char_digit [of "n mod 10"] show ?case by (simp add: digits_value_append)
qed simp

lemma pad_digits: "list_all2 (\<lambda>p c. if p = CHR ''d'' then is_digit c else c = p) (replicate w CHR ''d'') (pad w n)"
proof (induction w arbitrary: n)
  case (Suc w)
  then show ?case
    using char_digit [of "n mod 10"] list_all2_appendI [OF Suc.IH [of "n div 10"], of "''d''"]
    by (simp add: replicate_append_same [symmetric])
qed simp

lemma matches_timestamp_text: "matches_timestamp (timestamp_text y mo d h mi se ms)"
proof -
  have "timestamp_pattern = replicate 4 CHR ''d'' @ ''-'' @ replicate 2 CHR ''d'' @ ''-'' @ replicate 2 CHR ''d'' @
      ''T'' @ replicate 2 CHR ''d'' @ '':'' @ replicate 2 CHR ''d'' @ '':'' @ replicate 2 CHR ''d'' @ ''.'' @
      replicate 3 CHR ''d'' @ ''Z''"
    by (simp add: timestamp_pattern_def numeral_eq_Suc)
  note pattern = this
  show ?thesis
    unfolding matches_timestamp_def timestamp_text_def pattern
    by (intro list_all2_appendI pad_digits; simp)
qed

lemma fields_timestamp_text:
  assumes "y < 10000" and "mo < 100" and "d < 100" and "h < 100" and "mi < 100" and "se < 100" and "ms < 1000"
  shows "field_at 0 4 (timestamp_text y mo d h mi se ms) = int y"
    and "field_at 5 2 (timestamp_text y mo d h mi se ms) = int mo"
    and "field_at 8 2 (timestamp_text y mo d h mi se ms) = int d"
    and "field_at 11 2 (timestamp_text y mo d h mi se ms) = int h"
    and "field_at 14 2 (timestamp_text y mo d h mi se ms) = int mi"
    and "field_at 17 2 (timestamp_text y mo d h mi se ms) = int se"
    and "field_at 20 3 (timestamp_text y mo d h mi se ms) = int ms"
  using assms by (simp_all add: field_at_def timestamp_text_def digits_value_pad)

lemma gmtime_year:
  assumes "0 \<le> s" and "s < 253402300800"
  shows "1970 \<le> tm_year (gmtime s) + 1900 \<and> tm_year (gmtime s) + 1900 < 10000"
proof -
  let ?t = "gmtime s" and ?y = "tm_year (gmtime s) + 1900"
  let ?d = "days_before_month ?y (nat (tm_mon ?t)) + (tm_mday ?t - 1)"
  have norm: "normal_tm ?t" and inv: "fst (timegm ?t) = s" using gmtime_normal [of s] by blast+
  have s: "s = (days_before_year ?y + ?d) * 86400 + day_second ?t"
    using timegm_normal [OF norm] inv by (simp add: day_number_def)
  have "s div 86400 = days_before_year ?y + ?d"
    using s day_second_range [OF norm] by (intro int_div_pos_eq [of s 86400 _ "day_second ?t"]) (simp_all only: mult.commute)
  moreover have "0 \<le> s div 86400" and "s div 86400 < 2932897"
    using assms by (simp_all add: pos_imp_zdiv_nonneg_iff int_div_less)
  ultimately have day: "0 \<le> days_before_year ?y + ?d" "days_before_year ?y + ?d < 2932897"
    by simp_all
  have edge: "days_before_year 10000 = 2932897" "days_before_year 1970 = 0"
    by (simp_all add: days_before_year_def leaps_def)
  note d = day_of_year_range [OF norm]
  have "1970 \<le> ?y"
  proof (rule ccontr)
    assume "\<not> 1970 \<le> ?y"
    then have "?y + 1 \<le> 1970" by simp
    from days_before_year_mono [OF this] edge(2) days_before_year_Suc [of ?y] d(2) day(1) show False
      by linarith
  qed
  moreover have "?y < 10000"
  proof (rule ccontr)
    assume "\<not> ?y < 10000"
    then have "10000 \<le> ?y" by simp
    from days_before_year_mono [OF this] edge(1) d(1) day(2) show False by linarith
  qed
  ultimately show ?thesis by blast
qed

lemma normal_tm_bounds:
  assumes "normal_tm t"
  shows "nat (tm_mon t + 1) < 100" "nat (tm_mday t) < 100" "nat (tm_hour t) < 100" "nat (tm_min t) < 100"
    "nat (tm_sec t) < 100" "0 \<le> tm_mon t" "0 \<le> tm_mday t" "0 \<le> tm_hour t" "0 \<le> tm_min t" "0 \<le> tm_sec t"
proof -
  have "tm_mday t \<le> 31"
    using assms month_len_range [of "nat (tm_mon t)" "tm_year t + 1900"] unfolding normal_tm_def by linarith
  with assms show "nat (tm_mon t + 1) < 100" "nat (tm_mday t) < 100" "nat (tm_hour t) < 100"
    "nat (tm_min t) < 100" "nat (tm_sec t) < 100" "0 \<le> tm_mon t" "0 \<le> tm_mday t" "0 \<le> tm_hour t"
    "0 \<le> tm_min t" "0 \<le> tm_sec t"
    unfolding normal_tm_def by linarith+
qed

text \<open>Reading back what was printed from normal fields.\<close>

lemma parse_text:
  assumes "normal_tm t" and "0 \<le> tm_year t + 1900" and "tm_year t + 1900 < 10000" and "0 \<le> fst (timegm t)"
    and "ms < 1000"
  shows "parse_utc_timestamp (timestamp_text (nat (tm_year t + 1900)) (nat (tm_mon t + 1)) (nat (tm_mday t))
      (nat (tm_hour t)) (nat (tm_min t)) (nat (tm_sec t)) ms) =
    rbind (wall (fst (timegm t) * 1000000000)) (\<lambda>w. wall (w + int ms * 1000000))"
proof -
  note b = normal_tm_bounds [OF assms(1)]
  have y: "nat (tm_year t + 1900) < 10000" using assms(3) by simp
  obtain sec where tg: "timegm t = (sec, gmtime sec)" by (simp add: timegm_def Let_def)
  have "timegm \<lparr>tm_year = tm_year t, tm_mon = tm_mon t, tm_mday = tm_mday t,
      tm_hour = tm_hour t, tm_min = tm_min t, tm_sec = tm_sec t, tm_wday = 0\<rparr> = (sec, gmtime sec)"
    unfolding tg [symmetric] by (simp add: timegm_def)
  then show ?thesis
    unfolding parse_utc_timestamp_def fields_timestamp_text [OF y b(1-5) assms(5)]
    using assms(2,4) b(6-10) by (simp add: matches_timestamp_text tg Let_def)
qed

lemma format_text:
  assumes "0 \<le> t"
  shows "format_utc_timestamp t = (let u = gmtime (t div 1000000000) in
    timestamp_text (nat (tm_year u + 1900)) (nat (tm_mon u + 1)) (nat (tm_mday u)) (nat (tm_hour u))
      (nat (tm_min u)) (nat (tm_sec u)) (nat (t div 1000000 mod 1000)))"
proof -
  have ms: "tdiv t 1000000 = t div 1000000" "0 \<le> t div 1000000"
    using assms by (auto simp: tdiv_def sgn_if pos_imp_zdiv_nonneg_iff)
  then have "tdiv (t div 1000000) 1000 = t div 1000000 div 1000"
    by (auto simp: tdiv_def sgn_if)
  moreover have "t div 1000000 div 1000 = t div 1000000000"
    by (simp add: div_mult2_eq [symmetric] zdiv_zmult2_eq [symmetric])
  moreover have "t div 1000000 - t div 1000000 div 1000 * 1000 = t div 1000000 mod 1000"
    by (rule minus_div_mult_eq_mod)
  moreover have "\<not> t div 1000000 mod 1000 < 0" by simp
  ultimately show ?thesis
    unfolding format_utc_timestamp_def timestamp_text_def tmod_def by (simp only: ms Let_def if_False)
qed

section \<open>Properties\<close>

text \<open>
  Timestamps survive a round trip. A wall time from the epoch on, printed and parsed, comes back
  cut to whole milliseconds, the precision of the format.
\<close>

lemma timestamp_roundtrip:
  assumes "0 \<le> t" and "time_fits t"
  shows "parse_utc_timestamp (format_utc_timestamp t) = Inr (t div 1000000 * 1000000)"
proof -
  let ?s = "t div 1000000000" and ?ms = "t div 1000000 mod 1000"
  let ?u = "gmtime ?s"
  have s: "0 \<le> ?s" "?s < 9223372037"
    using assms by (simp_all add: pos_imp_zdiv_nonneg_iff int_div_less time_fits_def)
  have u: "normal_tm ?u" "fst (timegm ?u) = ?s" using gmtime_normal [of ?s] by blast+
  have y: "1970 \<le> tm_year ?u + 1900 \<and> tm_year ?u + 1900 < 10000" using gmtime_year [of ?s] s by simp
  have "t div 1000000 = t div 1000000 div 1000 * 1000 + ?ms" by simp
  moreover have "t div 1000000 div 1000 = ?s" by (simp add: zdiv_zmult2_eq [symmetric])
  ultimately have split: "t div 1000000 * 1000000 = ?s * 1000000000 + ?ms * 1000000" by linarith
  have low: "t div 1000000 * 1000000 \<le> t" and ms: "0 \<le> ?ms" "?ms < 1000"
    using mult_div_mod_eq [of 1000000 t] pos_mod_sign [of 1000000 t] by simp_all
  have "0 \<le> ?s * 1000000000" and "0 \<le> ?ms * 1000000" and "t < 2 ^ 63"
    using s ms assms(2) by (simp_all add: time_fits_def)
  then have "time_fits (?s * 1000000000)" and "time_fits (?s * 1000000000 + ?ms * 1000000)"
    using low split unfolding time_fits_def by linarith+
  then have "wall (?s * 1000000000) = Inr (?s * 1000000000)"
    and "wall (?s * 1000000000 + ?ms * 1000000) = Inr (?s * 1000000000 + ?ms * 1000000)"
    by (simp_all add: wall_def)
  moreover have "parse_utc_timestamp (format_utc_timestamp t) =
      rbind (wall (?s * 1000000000)) (\<lambda>w. wall (w + int (nat ?ms) * 1000000))"
    unfolding format_text [OF assms(1)] Let_def using u y s ms by (subst parse_text) auto
  ultimately show ?thesis using split ms by simp
qed

lemma timestamp_roundtrip_example:
  "parse_utc_timestamp (format_utc_timestamp 1767225600123456789) = Inr 1767225600123000000"
  using timestamp_roundtrip [of 1767225600123456789] by (simp add: time_fits_def)

text \<open>
  Dates that do not exist are accepted. \<^verbatim>\<open>timegm\<close> has already normalised the structure the fields are
  compared with, so the comparison never fails and the thirtieth of February is the second of March.
\<close>

lemma impossible_date_accepted:
  "parse_utc_timestamp ''2026-02-30T00:00:00.000Z'' = Inr 1772409600000000000 \<and>
   parse_utc_timestamp ''2026-03-02T00:00:00.000Z'' = Inr 1772409600000000000"
  by code_simp

text \<open>
  A timestamp of the accepted form may lie beyond the clock's 64-bit range of nanoseconds; the
  multiplication that converts it then overflows a signed integer instead of being rejected.
\<close>

lemma far_timestamp_overflows:
  "parse_utc_timestamp ''2262-04-11T23:47:16.854Z'' = Inr 9223372036854000000 \<and>
   parse_utc_timestamp ''2262-04-11T23:47:17.000Z'' = Inl SignedOverflow \<and>
   parse_utc_timestamp ''9999-12-31T23:59:59.999Z'' = Inl SignedOverflow"
  by code_simp

text \<open>
  A time before the epoch is printed wrongly. The milliseconds are wrapped into 0 to 999 while the
  seconds stay truncated towards zero, so one millisecond before the epoch prints as 999
  milliseconds after it.
\<close>

lemma pre_epoch_printed_late:
  "format_utc_timestamp (-1000000) = ''1970-01-01T00:00:00.999Z''"
  by code_simp

end
