(* ===== verification/Laso_Cron.thy ===== *)
theory Laso_Cron
  imports Laso_Time
begin

text \<open>
  The cron expressions of \<^verbatim>\<open>src/scheduler/scheduler.cpp\<close>: five UTC fields of lists, ranges and steps, their
  matching against broken-down time, and the search for the next matching minute.
\<close>

section \<open>Parsing\<close>

fun split_at :: "char \<Rightarrow> string \<Rightarrow> string list" where
  "split_at delimiter [] = [[]]"
| "split_at delimiter (c # cs) =
     (if c = delimiter then [] # split_at delimiter cs
      else case split_at delimiter cs of [] \<Rightarrow> [[c]] | part # parts \<Rightarrow> (c # part) # parts)"

definition number :: "string \<Rightarrow> nat \<Rightarrow> nat \<Rightarrow> nat result" where
  "number s minimum maximum =
     (if s = [] \<or> length s > 6 \<or> \<not> list_all is_digit s
      then throw Validation ''Invalid numeric schedule field''
      else
        let parsed = digits_value 0 s
        in if parsed < minimum \<or> parsed > maximum
           then throw Validation ''Schedule field is outside its allowed range''
           else Inr parsed)"

record cron_field =
  cf_values :: "bool list"
  cf_wildcard :: bool

text \<open>The marking loop; the step, never zero, is \<open>Suc k\<close>.\<close>

function mark :: "bool \<Rightarrow> nat \<Rightarrow> nat \<Rightarrow> nat \<Rightarrow> bool list \<Rightarrow> bool list" where
  "mark sunday_alias k stop v vs =
     (if v \<le> stop then
        let normalized = (if sunday_alias \<and> v = 7 then 0 else v);
            vs' = vs[normalized := True]
        in if stop - v < Suc k then vs' else mark sunday_alias k stop (v + Suc k) vs'
      else vs)"
  by auto
termination
  by (relation "measure (\<lambda>(sunday_alias, k, stop, v, vs). Suc stop - v)") auto

declare mark.simps [simp del]

definition cron_part :: "nat \<Rightarrow> nat \<Rightarrow> bool \<Rightarrow> string \<Rightarrow> cron_field \<Rightarrow> cron_field result" where
  "cron_part minimum maximum sunday_alias part f =
     (if part = [] then throw Validation ''Invalid cron list''
      else
        let pieces = split_at (CHR ''/'') part
        in if length pieces > 2 \<or> pieces ! 0 = [] \<or> (length pieces = 2 \<and> pieces ! 1 = [])
           then throw Validation ''Invalid cron step''
           else
             rbind (if length pieces = 2 then number (pieces ! 1) 1 (maximum - minimum + 1) else Inr 1) (\<lambda>step.
             rbind (if pieces ! 0 \<noteq> ''*'' then
                      let range = split_at (CHR ''-'') (pieces ! 0)
                      in if length range > 2 \<or> range ! 0 = [] then throw Validation ''Invalid cron range''
                         else
                           rbind (number (range ! 0) minimum maximum) (\<lambda>first.
                           rbind (if length range = 1 then Inr first else number (range ! 1) minimum maximum) (\<lambda>final.
                             if first > final then throw Validation ''Cron range is reversed''
                             else Inr (first, final, cf_wildcard f)))
                    else Inr (minimum, maximum, True)) (\<lambda>(first, final, wildcard).
               Inr \<lparr>cf_values = mark sunday_alias (step - 1) final first (cf_values f),
                    cf_wildcard = wildcard\<rparr>)))"

definition cron_field :: "string \<Rightarrow> nat \<Rightarrow> nat \<Rightarrow> bool \<Rightarrow> cron_field result" where
  "cron_field text minimum maximum sunday_alias =
     (if text = [] \<or> length text > 64 then throw Validation ''Invalid cron field''
      else foldM (cron_part minimum maximum sunday_alias) (split_at (CHR '','') text)
             \<lparr>cf_values = replicate (maximum + 1) False, cf_wildcard = False\<rparr>)"

record cron =
  cr_minute :: cron_field
  cr_hour :: cron_field
  cr_day :: cron_field
  cr_month :: cron_field
  cr_weekday :: cron_field

definition parse_cron :: "string \<Rightarrow> cron result" where
  "parse_cron expression =
     (let nonempty = filter (\<lambda>field. field \<noteq> []) (split_at (CHR '' '') expression)
      in if length nonempty \<noteq> 5 then throw Validation ''Cron must use exactly five UTC fields''
         else
           rbind (cron_field (nonempty ! 0) 0 59 False) (\<lambda>minute.
           rbind (cron_field (nonempty ! 1) 0 23 False) (\<lambda>hour.
           rbind (cron_field (nonempty ! 2) 1 31 False) (\<lambda>day.
           rbind (cron_field (nonempty ! 3) 1 12 False) (\<lambda>month.
           rbind (cron_field (nonempty ! 4) 0 7 True) (\<lambda>weekday.
             Inr \<lparr>cr_minute = minute, cr_hour = hour, cr_day = day, cr_month = month,
                  cr_weekday = weekday\<rparr>))))))"

section \<open>Matching and searching\<close>

definition cron_match :: "cron \<Rightarrow> tm \<Rightarrow> bool" where
  "cron_match c t =
     (if \<not> cf_values (cr_minute c) ! nat (tm_min t) \<or> \<not> cf_values (cr_hour c) ! nat (tm_hour t) \<or>
         \<not> cf_values (cr_month c) ! nat (tm_mon t + 1)
      then False
      else
        let day_match = cf_values (cr_day c) ! nat (tm_mday t);
            weekday_match = cf_values (cr_weekday c) ! nat (tm_wday t)
        in if \<not> cf_wildcard (cr_day c) \<and> \<not> cf_wildcard (cr_weekday c)
           then day_match \<or> weekday_match
           else day_match \<and> weekday_match)"

definition search_limit :: int where
  "search_limit = 5 * 366 * 24 * 60"

text \<open>
  The candidate is a count of minutes. Reading it as a calendar time converts it to the clock's
  nanoseconds first, which may overflow.
\<close>

function cron_search :: "cron \<Rightarrow> int \<Rightarrow> int \<Rightarrow> string result" where
  "cron_search c i candidate =
     (if i < search_limit then
        rbind (wall (candidate * 60000000000)) (\<lambda>w.
          if cron_match c (gmtime (tdiv w 1000000000)) then Inr (format_utc_timestamp w)
          else cron_search c (i + 1) (candidate + 1))
      else throw Validation ''Cron expression has no occurrence in its search bound'')"
  by auto
termination
  by (relation "measure (\<lambda>(c, i, candidate). nat (search_limit - i))") auto

declare cron_search.simps [simp del]

definition cron_next :: "string \<Rightarrow> string \<Rightarrow> string result" where
  "cron_next expression after =
     rbind (parse_cron expression) (\<lambda>c.
     rbind (parse_utc_timestamp after) (\<lambda>t.
       cron_search c 0 (tdiv t 60000000000 + 1)))"

section \<open>What a field accepts\<close>

lemma split_at_not_Nil [simp]: "split_at d s \<noteq> []"
  by (induction d s rule: split_at.induct) (auto split: list.split)

lemma length_mark [simp]: "length (mark sunday_alias k stop v vs) = length vs"
  by (induction sunday_alias k stop v vs rule: mark.induct) (subst mark.simps, auto simp: Let_def)

lemma cron_part_length:
  "cron_part minimum maximum sunday_alias part f = Inr f' \<Longrightarrow> length (cf_values f') = length (cf_values f)"
  by (auto simp: cron_part_def Let_def rbind_eq_Inr split: if_splits)

lemma cron_field_length:
  assumes "cron_field text minimum maximum sunday_alias = Inr f"
  shows "length (cf_values f) = maximum + 1"
  using assms foldM_invariant [of _ _ _ f "\<lambda>f. length (cf_values f) = maximum + 1"] cron_part_length
  unfolding cron_field_def by (force split: if_splits)

lemma parse_cron_lengths:
  assumes "parse_cron expression = Inr c"
  shows "length (cf_values (cr_minute c)) = 60" "length (cf_values (cr_hour c)) = 24"
    "length (cf_values (cr_day c)) = 32" "length (cf_values (cr_month c)) = 13"
    "length (cf_values (cr_weekday c)) = 8"
  using assms cron_field_length unfolding parse_cron_def Let_def
  by (force simp: rbind_eq_Inr split: if_splits)+

text \<open>The values a part names: from its first to its final value in steps.\<close>

definition part_values :: "nat \<Rightarrow> nat \<Rightarrow> string \<Rightarrow> nat set" where
  "part_values minimum maximum part =
     (let pieces = split_at (CHR ''/'') part;
          step = (if length pieces = 2 then digits_value 0 (pieces ! 1) else 1);
          range = split_at (CHR ''-'') (pieces ! 0);
          lo = (if pieces ! 0 = ''*'' then minimum else digits_value 0 (range ! 0));
          hi = (if pieces ! 0 = ''*'' then maximum
                else if length range = 1 then lo else digits_value 0 (range ! 1))
      in {v. lo \<le> v \<and> v \<le> hi \<and> (v - lo) mod step = 0})"

definition alias_of :: "bool \<Rightarrow> nat \<Rightarrow> nat" where
  "alias_of sunday_alias v = (if sunday_alias \<and> v = 7 then 0 else v)"

lemma mark_nth:
  assumes "j < length vs" and "\<forall>w. v \<le> w \<and> w \<le> stop \<longrightarrow> alias_of sunday_alias w < length vs"
  shows "mark sunday_alias k stop v vs ! j \<longleftrightarrow>
    vs ! j \<or> (\<exists>w. v \<le> w \<and> w \<le> stop \<and> (w - v) mod Suc k = 0 \<and> alias_of sunday_alias w = j)"
  using assms
proof (induction sunday_alias k stop v vs rule: mark.induct)
  case (1 sunday_alias k stop v vs)
  show ?case
  proof (cases "v \<le> stop")
    case False
    then show ?thesis by (auto simp: mark.simps [of sunday_alias k stop v vs])
  next
    case True
    let ?vs = "vs[alias_of sunday_alias v := True]"
    have here: "?vs ! j \<longleftrightarrow> vs ! j \<or> alias_of sunday_alias v = j"
      using "1.prems"(1) by (cases "alias_of sunday_alias v = j") simp_all
    have next_step: "(w - v) mod Suc k = 0 \<longleftrightarrow> w = v \<or> v + Suc k \<le> w \<and> (w - (v + Suc k)) mod Suc k = 0"
      if "v \<le> w" for w
    proof (cases "v + Suc k \<le> w")
      case True
      then have "w - v = (w - (v + Suc k)) + Suc k" by simp
      then have "(w - v) mod Suc k = (w - (v + Suc k)) mod Suc k" by (simp only: mod_add_self2)
      with True show ?thesis by auto
    next
      case False
      with that show ?thesis by (auto simp: not_le)
    qed
    show ?thesis
    proof (cases "stop - v < Suc k")
      case True
      have "mark sunday_alias k stop v vs = ?vs"
        using True \<open>v \<le> stop\<close> by (simp add: mark.simps [of sunday_alias k stop v vs] alias_of_def Let_def)
      moreover have "(w - v) mod Suc k = w - v" if "w \<le> stop" for w
        using that True by (intro mod_less) linarith
      then have "(\<exists>w. v \<le> w \<and> w \<le> stop \<and> (w - v) mod Suc k = 0 \<and> alias_of sunday_alias w = j) \<longleftrightarrow>
          alias_of sunday_alias v = j"
        using \<open>v \<le> stop\<close> by (metis diff_is_0_eq' diffs0_imp_equal order_refl)
      ultimately show ?thesis using here by simp
    next
      case False
      have step: "mark sunday_alias k stop v vs = mark sunday_alias k stop (v + Suc k) ?vs"
        using False \<open>v \<le> stop\<close> by (simp add: mark.simps [of sunday_alias k stop v vs] alias_of_def Let_def)
      have "mark sunday_alias k stop (v + Suc k) ?vs ! j \<longleftrightarrow> ?vs ! j \<or>
          (\<exists>w. v + Suc k \<le> w \<and> w \<le> stop \<and> (w - (v + Suc k)) mod Suc k = 0 \<and> alias_of sunday_alias w = j)"
        using "1.IH" [of "alias_of sunday_alias v" ?vs] \<open>v \<le> stop\<close> False "1.prems"
        by (simp add: alias_of_def)
      then show ?thesis
        unfolding step here using next_step \<open>v \<le> stop\<close> by (metis add_leD1 le_refl)
    qed
  qed
qed

lemma number_Inr: "number s minimum maximum = Inr n \<Longrightarrow> n = digits_value 0 s \<and> minimum \<le> n \<and> n \<le> maximum"
  by (auto simp: number_def Let_def split: if_splits)

lemma if_rbindE:
  assumes "(if a then Inl e else if b then Inl e' else rbind r f) = Inr y"
  obtains x where "\<not> a" and "\<not> b" and "r = Inr x" and "f x = Inr y"
  using assms by (auto simp: rbind_eq_Inr split: if_splits)

lemma cron_part_Inr:
  assumes "cron_part minimum maximum sunday_alias part f = Inr f'"
  shows "\<exists>lo hi k wild. f' = \<lparr>cf_values = mark sunday_alias k hi lo (cf_values f), cf_wildcard = wild\<rparr> \<and>
    hi \<le> maximum \<and> part_values minimum maximum part = {v. lo \<le> v \<and> v \<le> hi \<and> (v - lo) mod Suc k = 0}"
proof -
  let ?pieces = "split_at (CHR ''/'') part"
  let ?range = "split_at (CHR ''-'') (?pieces ! 0)"
  obtain step where step: "(if length ?pieces = 2 then number (?pieces ! 1) 1 (maximum - minimum + 1) else Inr 1) = Inr step"
    using assms unfolding cron_part_def Let_def by (elim if_rbindE) blast
  then have pos: "Suc (step - 1) = step"
    and val: "step = (if length ?pieces = 2 then digits_value 0 (?pieces ! 1) else 1)"
    using number_Inr [of "?pieces ! 1" 1 "maximum - minimum + 1" step] by (auto split: if_splits)
  show ?thesis
  proof (cases "?pieces ! 0 = ''*''")
    case True
    with assms step have "f' = \<lparr>cf_values = mark sunday_alias (step - 1) maximum minimum (cf_values f), cf_wildcard = True\<rparr>"
      by (auto simp: cron_part_def Let_def split: if_splits)
    moreover have "part_values minimum maximum part = {v. minimum \<le> v \<and> v \<le> maximum \<and> (v - minimum) mod step = 0}"
      using True val by (simp add: part_values_def Let_def)
    ultimately show ?thesis
      by (intro exI [of _ minimum] exI [of _ maximum] exI [of _ "step - 1"] exI [of _ True])
        (simp only: pos order_refl simp_thms)
  next
    case False
    obtain lo hi where range: "number (?range ! 0) minimum maximum = Inr lo"
      "(if length ?range = 1 then Inr lo else number (?range ! 1) minimum maximum) = Inr hi"
      "f' = \<lparr>cf_values = mark sunday_alias (step - 1) hi lo (cf_values f), cf_wildcard = cf_wildcard f\<rparr>"
      using assms step False by (auto simp: cron_part_def Let_def rbind_eq_Inr split: if_splits)
    have "lo = digits_value 0 (?range ! 0)" "lo \<le> maximum"
      using number_Inr [OF range(1)] by auto
    moreover from this have "hi = (if length ?range = 1 then lo else digits_value 0 (?range ! 1)) \<and> hi \<le> maximum"
      using range(2) number_Inr [of "?range ! 1" minimum maximum hi] by (auto split: if_splits)
    ultimately have "part_values minimum maximum part = {v. lo \<le> v \<and> v \<le> hi \<and> (v - lo) mod step = 0}"
      and "hi \<le> maximum"
      using False val by (simp_all add: part_values_def Let_def)
    with range(3) show ?thesis
      by (intro exI [of _ lo] exI [of _ hi] exI [of _ "step - 1"] exI [of _ "cf_wildcard f"])
        (simp only: pos simp_thms)
  qed
qed

text \<open>One part marks exactly its values, Sunday written as seven counting as zero.\<close>

lemma cron_part_nth:
  assumes "cron_part minimum maximum sunday_alias part f = Inr f'" and "length (cf_values f) = maximum + 1"
    and "j \<le> maximum"
  shows "cf_values f' ! j \<longleftrightarrow>
    cf_values f ! j \<or> j \<in> alias_of sunday_alias ` part_values minimum maximum part"
proof -
  obtain lo hi k wild where f': "f' = \<lparr>cf_values = mark sunday_alias k hi lo (cf_values f), cf_wildcard = wild\<rparr>"
    and hi: "hi \<le> maximum"
    and vals: "part_values minimum maximum part = {v. lo \<le> v \<and> v \<le> hi \<and> (v - lo) mod Suc k = 0}"
    using cron_part_Inr [OF assms(1)] by blast
  have "\<forall>w. lo \<le> w \<and> w \<le> hi \<longrightarrow> alias_of sunday_alias w < length (cf_values f)"
    using hi assms(2) by (auto simp: alias_of_def)
  from mark_nth [OF _ this, of j k] assms(2,3) show ?thesis
    unfolding f' vals by (auto simp: image_iff)
qed

lemma cron_parts_nth:
  assumes "foldM (cron_part minimum maximum sunday_alias) parts f = Inr f'"
    and "length (cf_values f) = maximum + 1" and "j \<le> maximum"
  shows "cf_values f' ! j \<longleftrightarrow>
    cf_values f ! j \<or> (\<exists>part \<in> set parts. j \<in> alias_of sunday_alias ` part_values minimum maximum part)"
  using assms
proof (induction parts arbitrary: f)
  case (Cons part parts)
  from Cons.prems(1) obtain g where g: "cron_part minimum maximum sunday_alias part f = Inr g"
    and rest: "foldM (cron_part minimum maximum sunday_alias) parts g = Inr f'"
    by (auto elim: rbindE)
  have "length (cf_values g) = maximum + 1" using cron_part_length [OF g] Cons.prems(2) by simp
  from Cons.IH [OF rest this Cons.prems(3)] cron_part_nth [OF g Cons.prems(2,3)] show ?case by auto
qed simp

section \<open>The search\<close>

lemma cron_search_Inr:
  assumes "cron_search c i candidate = Inr s" and "0 \<le> candidate"
  shows "\<exists>m \<ge> candidate. s = format_utc_timestamp (m * 60000000000) \<and> cron_match c (gmtime (m * 60)) \<and>
    time_fits (m * 60000000000) \<and> (\<forall>m'. candidate \<le> m' \<and> m' < m \<longrightarrow> \<not> cron_match c (gmtime (m' * 60)))"
  using assms
proof (induction c i candidate rule: cron_search.induct)
  case (1 c i candidate)
  have minute: "tdiv (candidate * 60000000000) 1000000000 = candidate * 60"
    using "1.prems"(2) by (simp add: tdiv_def sgn_if)
  have lim: "i < search_limit" and fits: "time_fits (candidate * 60000000000)"
    using "1.prems"(1) by (auto simp: cron_search.simps [of c i] wall_def split: if_splits)
  show ?case
  proof (cases "cron_match c (gmtime (candidate * 60))")
    case True
    with "1.prems"(1) lim fits minute show ?thesis
      by (intro exI [of _ candidate]) (auto simp: cron_search.simps [of c i] wall_def)
  next
    case False
    with "1.prems"(1) lim fits minute have "cron_search c (i + 1) (candidate + 1) = Inr s"
      by (simp add: cron_search.simps [of c i] wall_def)
    from "1.IH" [OF lim, of "candidate * 60000000000", OF _ this] minute False "1.prems"(2) obtain m where
      m: "candidate + 1 \<le> m" "s = format_utc_timestamp (m * 60000000000)" "cron_match c (gmtime (m * 60))"
        "time_fits (m * 60000000000)" "\<forall>m'. candidate + 1 \<le> m' \<and> m' < m \<longrightarrow> \<not> cron_match c (gmtime (m' * 60))"
      by auto
    moreover have "\<forall>m'. candidate \<le> m' \<and> m' < m \<longrightarrow> \<not> cron_match c (gmtime (m' * 60))"
      using m(5) False by (metis int_one_le_iff_zero_less less_diff_eq order_le_less zless_imp_add1_zle)
    ultimately show ?thesis by (intro exI [of _ m]) auto
  qed
qed

lemma cron_search_returns:
  assumes "candidate \<le> m" and "m - candidate < search_limit - i" and "cron_match c (gmtime (m * 60))"
    and "0 \<le> candidate" and "time_fits (m * 60000000000)"
  shows "\<exists>s. cron_search c i candidate = Inr s"
  using assms
proof (induction c i candidate rule: cron_search.induct)
  case (1 c i candidate)
  have minute: "tdiv (candidate * 60000000000) 1000000000 = candidate * 60"
    using "1.prems"(4) by (simp add: tdiv_def sgn_if)
  have lim: "i < search_limit" and fits: "time_fits (candidate * 60000000000)"
    using "1.prems" by (auto simp: time_fits_def)
  show ?case
  proof (cases "cron_match c (gmtime (candidate * 60))")
    case True
    with lim fits minute show ?thesis by (simp add: cron_search.simps [of c i] wall_def)
  next
    case False
    with "1.prems"(1,3) have "candidate + 1 \<le> m" by (cases "candidate = m") auto
    with "1.IH" [of "candidate * 60000000000"] "1.prems" lim fits minute False show ?thesis
      by (simp add: cron_search.simps [of c i] wall_def)
  qed
qed

lemma parse_nonneg:
  assumes "parse_utc_timestamp s = Inr t"
  shows "0 \<le> t"
proof -
  have "0 \<le> field_at i n s" for i n by (simp add: field_at_def)
  with assms show ?thesis
    by (auto simp: parse_utc_timestamp_def Let_def wall_def rbind_eq_Inr split: if_splits prod.splits)
qed

lemma later_minute:
  fixes t m :: int
  assumes "0 \<le> t"
  shows "t div 60000000000 + 1 \<le> m \<longleftrightarrow> t < m * 60000000000"
proof -
  have "t < m * 60000000000" if "t div 60000000000 < m"
  proof -
    have "t mod 60000000000 < 60000000000" by simp
    then have "t div 60000000000 * 60000000000 + t mod 60000000000 < (t div 60000000000 + 1) * 60000000000"
      unfolding distrib_right by simp
    then have "t < (t div 60000000000 + 1) * 60000000000" by (simp only: div_mult_mod_eq)
    also have "\<dots> \<le> m * 60000000000" using that by simp
    finally show ?thesis .
  qed
  then have "t < m * 60000000000 \<longleftrightarrow> t div 60000000000 < m"
    using int_div_less [of 60000000000 t m] by auto
  then show ?thesis by linarith
qed

section \<open>Properties\<close>

text \<open>
  A cron field means what it says. A field that parses accepts exactly the values its
  comma-separated parts name, each a value, a range or a star with an optional step; in the weekday
  field seven stands for Sunday as zero does.
\<close>

lemma cron_field_meaning:
  assumes "cron_field text minimum maximum sunday_alias = Inr f" and "j \<le> maximum"
  shows "cf_values f ! j \<longleftrightarrow>
    (\<exists>part \<in> set (split_at (CHR '','') text). j \<in> alias_of sunday_alias ` part_values minimum maximum part)"
proof -
  have "foldM (cron_part minimum maximum sunday_alias) (split_at (CHR '','') text)
      \<lparr>cf_values = replicate (maximum + 1) False, cf_wildcard = False\<rparr> = Inr f"
    using assms(1) by (simp add: cron_field_def split: if_splits)
  from cron_parts_nth [OF this _ assms(2)] show ?thesis
    using assms(2) by (simp add: nth_append nth_Cons' split: if_splits)
qed

lemma cron_field_meaning_example:
  "\<exists>part \<in> set (split_at (CHR '','') ''9-17/4,22''). 13 \<in> alias_of False ` part_values 0 23 part"
proof -
  have "(case cron_field ''9-17/4,22'' 0 23 False of Inl e \<Rightarrow> False | Inr f \<Rightarrow> cf_values f ! 13)"
    by code_simp
  then obtain f where "cron_field ''9-17/4,22'' 0 23 False = Inr f" and "cf_values f ! 13"
    by (auto split: sum.splits)
  with cron_field_meaning [OF this(1), of 13] show ?thesis by simp
qed

text \<open>
  Matching never reads outside a field. Whatever expression parses, the broken-down form of any
  time indexes each of its value vectors within its length.
\<close>

lemma cron_match_in_bounds:
  assumes "parse_cron expression = Inr c"
  shows "nat (tm_min (gmtime s)) < length (cf_values (cr_minute c)) \<and>
    nat (tm_hour (gmtime s)) < length (cf_values (cr_hour c)) \<and>
    nat (tm_mon (gmtime s) + 1) < length (cf_values (cr_month c)) \<and>
    nat (tm_mday (gmtime s)) < length (cf_values (cr_day c)) \<and>
    nat (tm_wday (gmtime s)) < length (cf_values (cr_weekday c))"
proof -
  let ?t = "gmtime s"
  have norm: "normal_tm ?t" using gmtime_normal [of s] by blast
  have "tm_mday ?t \<le> 31"
    using norm month_len_range [of "nat (tm_mon ?t)" "tm_year ?t + 1900"] unfolding normal_tm_def by linarith
  moreover have "tm_wday ?t < 8" by (simp add: gmtime_def Let_def split: prod.split)
  ultimately show ?thesis
    using norm unfolding normal_tm_def parse_cron_lengths [OF assms] by linarith
qed

lemma cron_match_in_bounds_example:
  "\<exists>c. parse_cron ''0 9-17 * * 1-5'' = Inr c \<and> nat (tm_min (gmtime 59)) < length (cf_values (cr_minute c))"
proof -
  have "(case parse_cron ''0 9-17 * * 1-5'' of Inl e \<Rightarrow> False | Inr c \<Rightarrow> True)" by code_simp
  then obtain c where "parse_cron ''0 9-17 * * 1-5'' = Inr c" by (auto split: sum.splits)
  with cron_match_in_bounds [OF this, of 59] show ?thesis by blast
qed

text \<open>
  C36: the next occurrence is the first one. For an expression and a timestamp that parse, a result is
  the earliest matching minute strictly after the timestamp; and whenever some minute of the
  searched five years matches, and the clock can represent it, there is a result.
\<close>

theorem cron_next_is_first:
  assumes "parse_cron expression = Inr c" and "parse_utc_timestamp after = Inr t"
  shows "(\<forall>s. cron_next expression after = Inr s \<longrightarrow>
      (\<exists>m. s = format_utc_timestamp (m * 60000000000) \<and> t < m * 60000000000 \<and> cron_match c (gmtime (m * 60)) \<and>
        (\<forall>m'. t < m' * 60000000000 \<and> m' < m \<longrightarrow> \<not> cron_match c (gmtime (m' * 60))))) \<and>
    (\<forall>m. t < m * 60000000000 \<and> m \<le> t div 60000000000 + search_limit \<and> time_fits (m * 60000000000) \<and>
      cron_match c (gmtime (m * 60)) \<longrightarrow> (\<exists>s. cron_next expression after = Inr s))"
proof -
  have t: "0 \<le> t" by (rule parse_nonneg [OF assms(2)])
  then have start: "0 \<le> t div 60000000000 + 1" and trunc: "tdiv t 60000000000 = t div 60000000000"
    by (simp_all add: pos_imp_zdiv_nonneg_iff tdiv_def sgn_if)
  have eq: "cron_next expression after = cron_search c 0 (t div 60000000000 + 1)"
    using assms by (simp add: cron_next_def trunc)
  have "\<exists>m. s = format_utc_timestamp (m * 60000000000) \<and> t < m * 60000000000 \<and> cron_match c (gmtime (m * 60)) \<and>
        (\<forall>m'. t < m' * 60000000000 \<and> m' < m \<longrightarrow> \<not> cron_match c (gmtime (m' * 60)))"
    if "cron_next expression after = Inr s" for s
    using cron_search_Inr [OF that [unfolded eq] start] later_minute [OF t] by blast
  moreover have "\<exists>s. cron_next expression after = Inr s"
    if "t < m * 60000000000" "m \<le> t div 60000000000 + search_limit" "time_fits (m * 60000000000)"
      "cron_match c (gmtime (m * 60))" for m
    unfolding eq using that start later_minute [OF t, of m] by (intro cron_search_returns [of _ m]) simp_all
  ultimately show ?thesis by blast
qed

lemma cron_next_is_first_witness:
  "\<exists>c m. parse_cron ''*/5 * * * *'' = Inr c \<and> cron_match c (gmtime (m * 60)) \<and>
     ''2026-01-01T00:05:00.000Z'' = format_utc_timestamp (m * 60000000000)"
proof -
  have "(case parse_cron ''*/5 * * * *'' of Inl e \<Rightarrow> False | Inr c \<Rightarrow> True)"
    and t: "parse_utc_timestamp ''2026-01-01T00:02:30.000Z'' = Inr 1767225750000000000"
    and next_due: "cron_next ''*/5 * * * *'' ''2026-01-01T00:02:30.000Z'' = Inr ''2026-01-01T00:05:00.000Z''"
    by code_simp+
  then obtain c where c: "parse_cron ''*/5 * * * *'' = Inr c" by (auto split: sum.splits)
  with cron_next_is_first [OF c t] next_due show ?thesis by blast
qed

end
