(* ===== verification/Laso_Storage.thy ===== *)
theory Laso_Storage
  imports Laso_Worker Laso_Coordination
begin

text \<open>
  The record store of \<^verbatim>\<open>include/laso/storage/storage.hpp\<close> and \<^verbatim>\<open>src/storage/postgres.cpp\<close>: one table per kind
  of record, rows in insertion order, a JSON body per row. A stored body is the text the serializer
  wrote and reading parses it back, so a row holds the value. Every operation is one transaction:
  it fails with the tables unchanged or succeeds as a whole. \<open>fault\<close> is what the pool or the
  driver raises, if anything; \<open>fresh\<close>, \<open>now\<close> and \<open>now2\<close> are the values of \<^verbatim>\<open>uuid()\<close> and
  \<^verbatim>\<open>timestamp()\<close> the decoders take as defaults.
\<close>

section \<open>Tables\<close>

datatype record_kind =
    KPipeline | KRun | KAttempt | KMessage | KApproval | KArtifact | KEvent | KSchedule | KTrigger
  | KScheduleOccurrence | KTriggerDelivery | KEventSource | KExternalEventClaim | KWorkerJob
  | KWorkerInteraction | KNodeWork | KAgentSession | KSessionTurn | KSessionEvent | KSessionContinuation
  | KSessionContextGeneration | KRunContextSnapshot

record store_record =
  sr_kind :: record_kind
  sr_id :: string
  sr_run_id :: string
  sr_value :: json

record store_row =
  row_id :: string
  row_run_id :: string
  row_body :: json

type_synonym store = "record_kind \<Rightarrow> store_row list"

definition find_row :: "store \<Rightarrow> record_kind \<Rightarrow> string \<Rightarrow> store_row option" where
  "find_row st kind rid = find (\<lambda>row. row_id row = rid) (st kind)"

definition lookup :: "store \<Rightarrow> record_kind \<Rightarrow> string \<Rightarrow> json option" where
  "lookup st kind rid = map_option row_body (find_row st kind rid)"

text \<open>\<^verbatim>\<open>INSERT ... ON CONFLICT (id) DO UPDATE\<close>: an existing row keeps its place.\<close>

definition upsert :: "store_record \<Rightarrow> store \<Rightarrow> store" where
  "upsert r st =
     (let rows = st (sr_kind r);
          row = \<lparr>row_id = sr_id r, row_run_id = sr_run_id r, row_body = sr_value r\<rparr>
      in st(sr_kind r :=
           if find_row st (sr_kind r) (sr_id r) \<noteq> None
           then map (\<lambda>old. if row_id old = sr_id r then row else old) rows
           else rows @ [row]))"

section \<open>Errors\<close>

definition translate_sql_error :: "string \<Rightarrow> exn" where
  "translate_sql_error sqlstate =
     (if sqlstate = ''23505'' then Error Conflict ''PostgreSQL uniqueness conflict''
      else if sqlstate = ''40001'' then Error Storage ''PostgreSQL transaction serialization failure''
      else if sqlstate = ''40P01'' then Error Storage ''PostgreSQL transaction deadlock''
      else Error Storage ''PostgreSQL operation failed'')"

definition translate_connection_error :: exn where
  "translate_connection_error = Error Storage ''Cannot connect to PostgreSQL''"

fun store_fault :: "string \<Rightarrow> fault \<Rightarrow> exn" where
  "store_fault what (PoolError e) = e"
| "store_fault what (SqlError sqlstate) = translate_sql_error sqlstate"
| "store_fault what BrokenConnection = translate_connection_error"
| "store_fault what OtherException = Error Storage what"

text \<open>An \<^verbatim>\<open>Error\<close> passes the handlers, any other exception becomes a storage error.\<close>

fun store_error :: "string \<Rightarrow> exn \<Rightarrow> exn" where
  "store_error what (Error code m) = Error code m"
| "store_error what _ = Error Storage what"

definition in_transaction :: "string \<Rightarrow> fault option \<Rightarrow> 's \<Rightarrow> ('a \<times> 's) result \<Rightarrow> 'a result \<times> 's" where
  "in_transaction what fault st body =
     (case fault of
        Some f \<Rightarrow> (Inl (store_fault what f), st)
      | None \<Rightarrow> (case body of Inl e \<Rightarrow> (Inl (store_error what e), st) | Inr (a, st') \<Rightarrow> (Inr a, st')))"

section \<open>Writing\<close>

definition serialize :: "json_ops \<Rightarrow> json \<Rightarrow> string result" where
  "serialize J v =
     (if \<not> dump_ok J v then throw Validation ''Record contains invalid JSON''
      else if length (dump J v) > 4 * 1024 * 1024 then throw Storage ''Stored record exceeds limit''
      else Inr (dump J v))"

definition write_record :: "json_ops \<Rightarrow> string \<Rightarrow> string \<Rightarrow> string \<Rightarrow> store_record \<Rightarrow> store \<Rightarrow> store result" where
  "write_record J fresh now now2 r st =
     (if sr_id r = [] then throw Validation ''Record id is empty''
      else if sr_kind r = KSessionContextGeneration \<or> sr_kind r = KRunContextSnapshot
      then throw Conflict ''Session context records are immutable''
      else
        rbind (serialize J (sr_value r)) (\<lambda>body.
        case lookup st (sr_kind r) (sr_id r) of
          None \<Rightarrow> Inr (upsert r st)
        | Some existing \<Rightarrow>
            if sr_kind r = KPipeline then
              (if dump J existing \<noteq> body then throw Conflict ''Pipeline revision is immutable''
               else Inr (upsert r st))
            else if sr_kind r = KWorkerJob then
              rbind (worker_job_from_json J existing) (\<lambda>old_job.
              rbind (worker_job_from_json J (sr_value r)) (\<lambda>new_job.
                if wj_state old_job \<noteq> wj_state new_job \<and>
                   \<not> valid_worker_job_transition (wj_state old_job) (wj_state new_job)
                then throw Conflict ''Invalid worker job state transition''
                else Inr (upsert r st)))
            else if sr_kind r = KNodeWork then
              rbind (node_work_from_json J fresh now now2 existing) (\<lambda>old_work.
              rbind (node_work_from_json J fresh now now2 (sr_value r)) (\<lambda>new_work.
                if node_work_terminal (w_state old_work) then
                  (if equivalent_terminal_node_work old_work new_work then Inr st
                   else throw Conflict ''Terminal node work is immutable'')
                else if \<not> valid_node_work_transition (w_state old_work) (w_state new_work)
                then throw Conflict ''Invalid node work state transition''
                else Inr (upsert r st)))
            else Inr (upsert r st)))"

definition write_records ::
  "json_ops \<Rightarrow> string \<Rightarrow> string \<Rightarrow> string \<Rightarrow> store_record list \<Rightarrow> store \<Rightarrow> store result" where
  "write_records J fresh now now2 = foldM (write_record J fresh now now2)"

definition commit ::
  "json_ops \<Rightarrow> string \<Rightarrow> string \<Rightarrow> string \<Rightarrow> fault option \<Rightarrow> store_record list \<Rightarrow> store \<Rightarrow> unit result \<times> store" where
  "commit J fresh now now2 fault records st =
     in_transaction ''PostgreSQL write failed'' fault st
       (rbind (write_records J fresh now now2 records st) (\<lambda>st'. Inr ((), st')))"

text \<open>The lease row is locked for update, so the check and the write are one step.\<close>

definition commit_owned ::
  "json_ops \<Rightarrow> string \<Rightarrow> string \<Rightarrow> string \<Rightarrow> fault option \<Rightarrow> (nat \<Rightarrow> int) \<Rightarrow> store_record list \<Rightarrow> string \<Rightarrow> string \<Rightarrow>
   u64 \<Rightarrow> coord_db \<Rightarrow> store \<Rightarrow> unit result \<times> store" where
  "commit_owned J fresh now now2 fault t records resource_key owner_instance fencing_token db st =
     (if resource_key = [] \<or> owner_instance = [] \<or> fencing_token = 0
      then (throw Validation ''Invalid run ownership proof'', st)
      else
        in_transaction ''PostgreSQL owned write failed'' fault st
          (if \<not> bigint_ok (uint fencing_token) then Inl (translate_sql_error ''22003'')
           else case map_of (leases db) resource_key of
             None \<Rightarrow> throw Conflict ''Run ownership is no longer valid''
           | Some row \<Rightarrow>
               if lr_owner row = owner_instance \<and> lr_token row = uint fencing_token \<and> lr_expires row > t 0
               then rbind (write_records J fresh now now2 records st) (\<lambda>st'. Inr ((), st'))
               else throw Conflict ''Run ownership is no longer valid''))"

definition request_cancellation ::
  "json_ops \<Rightarrow> fault option \<Rightarrow> string \<Rightarrow> string \<Rightarrow> store \<Rightarrow> unit result \<times> store" where
  "request_cancellation J fault now run_id st =
     (if run_id = [] then (throw Validation ''Run id is empty'', st)
      else
        in_transaction ''PostgreSQL cancellation write failed'' fault st
          (case find_row st KRun run_id of
             None \<Rightarrow> throw NotFound ''Run not found''
           | Some row \<Rightarrow>
               rbind (run_from_json J (row_body row)) (\<lambda>r.
                 if terminal (r_state r) then Inr ((), st)
                 else
                   let r' = r\<lparr>r_cancellation_requested := True, r_updated_at := now\<rparr>
                   in rbind (serialize J (run_to_json r')) (\<lambda>_.
                        Inr ((), upsert \<lparr>sr_kind = KRun, sr_id = run_id, sr_run_id = row_run_id row,
                                        sr_value = run_to_json r'\<rparr> st)))))"

section \<open>Claims\<close>

definition claimable :: "record_kind \<Rightarrow> bool" where
  "claimable kind \<longleftrightarrow> kind = KScheduleOccurrence \<or> kind = KTriggerDelivery \<or> kind = KExternalEventClaim \<or>
     kind = KWorkerJob \<or> kind = KNodeWork \<or> kind = KSessionTurn"

definition insert_associated :: "json_ops \<Rightarrow> store_record \<Rightarrow> store \<Rightarrow> store result" where
  "insert_associated J related st =
     (if sr_id related = [] then throw Validation ''Associated record id is empty''
      else
        rbind (serialize J (sr_value related)) (\<lambda>_.
          if lookup st (sr_kind related) (sr_id related) \<noteq> None then Inl (translate_sql_error ''23505'')
          else Inr (upsert related st)))"

definition claim ::
  "json_ops \<Rightarrow> fault option \<Rightarrow> store_record \<Rightarrow> store_record list \<Rightarrow> store \<Rightarrow> bool result \<times> store" where
  "claim J fault r associated st =
     (if sr_id r = [] then (throw Validation ''Record id is empty'', st)
      else if \<not> claimable (sr_kind r) then (throw Validation ''Record kind cannot be claimed'', st)
      else
        in_transaction ''PostgreSQL claim failed'' fault st
          (rbind (serialize J (sr_value r)) (\<lambda>_.
             if lookup st (sr_kind r) (sr_id r) \<noteq> None then Inr (False, st)
             else rbind (foldM (insert_associated J) associated (upsert r st)) (\<lambda>st'. Inr (True, st')))))"

section \<open>Reading\<close>

definition get_record :: "fault option \<Rightarrow> record_kind \<Rightarrow> string \<Rightarrow> store \<Rightarrow> json result" where
  "get_record fault kind rid st =
     fst (in_transaction ''PostgreSQL read failed'' fault st
       (case lookup st kind rid of None \<Rightarrow> throw NotFound ''Record not found'' | Some v \<Rightarrow> Inr (v, st)))"

definition list_records ::
  "fault option \<Rightarrow> record_kind \<Rightarrow> string \<Rightarrow> nat \<Rightarrow> nat \<Rightarrow> store \<Rightarrow> json list result" where
  "list_records fault kind run_id limit offset st =
     (if limit > 10000 \<or> offset > 100000000 then throw Validation ''Pagination limit exceeded''
      else
        fst (in_transaction ''PostgreSQL list failed'' fault st
          (Inr (map row_body (take limit (drop offset
             (filter (\<lambda>row. run_id = [] \<or> row_run_id row = run_id) (st kind)))), st))))"

section \<open>The store as a map\<close>

lemma find_map_same: "find (\<lambda>x. f x = k) (map (\<lambda>x. if f x = k then y else x) xs) =
    (if find (\<lambda>x. f x = k) xs = None then None else Some y)" if "f y = k"
  using that by (induction xs) auto

lemma find_map_other: "find (\<lambda>x. f x = k') (map (\<lambda>x. if f x = k then y else x) xs) = find (\<lambda>x. f x = k') xs"
  if "f y = k" and "k \<noteq> k'"
  using that by (induction xs) auto

lemma find_append: "find P (xs @ ys) = (case find P xs of None \<Rightarrow> find P ys | Some x \<Rightarrow> Some x)"
  by (induction xs) simp_all

text \<open>Writing a record is updating the map from keys to bodies.\<close>

lemma lookup_upsert:
  "lookup (upsert r st) kind rid =
     (if kind = sr_kind r \<and> rid = sr_id r then Some (sr_value r) else lookup st kind rid)"
proof -
  let ?row = "\<lparr>row_id = sr_id r, row_run_id = sr_run_id r, row_body = sr_value r\<rparr>"
  have "find_row (upsert r st) kind rid =
      (if kind = sr_kind r \<and> rid = sr_id r then Some ?row else find_row st kind rid)"
    using find_map_same [of row_id ?row "sr_id r" "st (sr_kind r)"]
      find_map_other [of row_id ?row "sr_id r" rid "st (sr_kind r)"]
    by (auto simp: upsert_def find_row_def find_append Let_def split: option.split)
  then show ?thesis by (simp add: lookup_def)
qed

lemma write_record_Inr:
  assumes "write_record J fresh now now2 r st = Inr st'"
  shows "st' = upsert r st \<or> (st' = st \<and> sr_kind r = KNodeWork \<and> lookup st KNodeWork (sr_id r) \<noteq> None)"
  using assms unfolding write_record_def
  by (simp split: if_splits option.split_asm) (elim rbindE; simp split: if_splits option.split_asm; elim rbindE; simp split: if_splits)+

lemma write_record_lookup:
  assumes "write_record J fresh now now2 r st = Inr st'" and "kind \<noteq> KNodeWork"
  shows "lookup st' kind rid =
    (if kind = sr_kind r \<and> rid = sr_id r then Some (sr_value r) else lookup st kind rid)"
  using write_record_Inr [OF assms(1)] assms(2) by (auto simp: lookup_upsert)

text \<open>The last of the records for a key, if there is one.\<close>

definition written :: "store_record list \<Rightarrow> record_kind \<Rightarrow> string \<Rightarrow> json option" where
  "written records kind rid =
     (let hits = filter (\<lambda>r. sr_kind r = kind \<and> sr_id r = rid) records
      in if hits = [] then None else Some (sr_value (last hits)))"

lemma written_Cons:
  "written (r # records) kind rid =
     (case written records kind rid of
        Some v \<Rightarrow> Some v
      | None \<Rightarrow> if sr_kind r = kind \<and> sr_id r = rid then Some (sr_value r) else None)"
  by (simp add: written_def Let_def)

lemma write_records_lookup:
  assumes "write_records J fresh now now2 records st = Inr st'" and "kind \<noteq> KNodeWork"
  shows "lookup st' kind rid = (case written records kind rid of None \<Rightarrow> lookup st kind rid | Some v \<Rightarrow> Some v)"
  using assms(1) unfolding write_records_def
proof (induction records arbitrary: st)
  case Nil
  then show ?case by (simp add: written_def)
next
  case (Cons r records)
  from Cons.prems obtain st1 where step: "write_record J fresh now now2 r st = Inr st1"
    and rest: "foldM (write_record J fresh now now2) records st1 = Inr st'"
    by (auto elim: rbindE)
  from Cons.IH [OF rest] write_record_lookup [OF step assms(2), of rid] show ?case
    by (auto simp: written_Cons split: option.split)
qed

lemma in_transaction_cases:
  obtains (failed) e where "in_transaction what fault st body = (Inl e, st)"
  | (succeeded) a st' where "fault = None" "body = Inr (a, st')" "in_transaction what fault st body = (Inr a, st')"
proof (cases fault)
  case (Some f)
  then show thesis by (intro failed) (simp add: in_transaction_def)
next
  case None
  show thesis
  proof (cases body)
    case (Inl e)
    with None show thesis by (intro failed) (simp add: in_transaction_def)
  next
    case (Inr p)
    with None show thesis by (cases p; intro succeeded) (simp_all add: in_transaction_def)
  qed
qed

section \<open>Histories of the store\<close>

datatype store_op =
    Commit "store_record list"
  | CommitOwned "store_record list" string string u64 coord_db
  | RequestCancellation string
  | Claim store_record "store_record list"

record store_call =
  so_fresh :: string
  so_now :: string
  so_now2 :: string
  so_fault :: "fault option"
  so_clock :: "nat \<Rightarrow> int"
  so_op :: store_op

definition store_step :: "json_ops \<Rightarrow> store_call \<Rightarrow> store \<Rightarrow> store" where
  "store_step J c st =
     (case so_op c of
        Commit records \<Rightarrow> snd (commit J (so_fresh c) (so_now c) (so_now2 c) (so_fault c) records st)
      | CommitOwned records key owner token db \<Rightarrow>
          snd (commit_owned J (so_fresh c) (so_now c) (so_now2 c) (so_fault c) (so_clock c) records key owner token db st)
      | RequestCancellation run_id \<Rightarrow> snd (request_cancellation J (so_fault c) (so_now c) run_id st)
      | Claim r associated \<Rightarrow> snd (claim J (so_fault c) r associated st))"

definition claimed :: "json_ops \<Rightarrow> store_call \<Rightarrow> store \<Rightarrow> (record_kind \<times> string) option" where
  "claimed J c st =
     (case so_op c of
        Claim r associated \<Rightarrow>
          if fst (claim J (so_fault c) r associated st) = Inr True then Some (sr_kind r, sr_id r) else None
      | _ \<Rightarrow> None)"

section \<open>Invariants of a history\<close>

lemma in_transaction_state: "snd (in_transaction what fault st body) = st \<or>
    (\<exists>a st'. body = Inr (a, st') \<and> in_transaction what fault st body = (Inr a, st'))"
  by (cases rule: in_transaction_cases [of what fault st body]) auto

lemma insert_associated_Inr:
  "insert_associated J r st = Inr st' \<Longrightarrow> lookup st (sr_kind r) (sr_id r) = None \<and> st' = upsert r st"
  by (auto simp: insert_associated_def elim!: rbindE split: if_splits)

text \<open>
  What every write that goes through, every insertion of a new key and every rewriting of a run keep,
  the whole interface keeps.
\<close>

lemma store_step_invariant:
  assumes "P st"
    and writing: "\<And>fresh now now2 r st st'. P st \<Longrightarrow> write_record J fresh now now2 r st = Inr st' \<Longrightarrow> P st'"
    and fresh_key: "\<And>r st. P st \<Longrightarrow> lookup st (sr_kind r) (sr_id r) = None \<Longrightarrow> P (upsert r st)"
    and run: "\<And>r st. P st \<Longrightarrow> sr_kind r = KRun \<Longrightarrow> P (upsert r st)"
  shows "P (store_step J c st)"
proof -
  have writes: "P st'" if "write_records J fresh now now2 records st = Inr st'" for fresh now now2 records st'
    using that unfolding write_records_def by (rule foldM_invariant) (use assms(1) writing in blast)+
  have inserts: "P st''" if "foldM (insert_associated J) rs st' = Inr st''" and "P st'" for rs st' st''
    using that(1) by (rule foldM_invariant) (use that(2) fresh_key insert_associated_Inr in blast)+
  show ?thesis
  proof (cases "so_op c")
    case (Commit records)
    with writes assms(1) show ?thesis
      by (auto simp: store_step_def commit_def in_transaction_def elim!: rbindE split: option.split sum.split)
  next
    case (CommitOwned records key owner token db)
    with writes assms(1) show ?thesis
      by (auto simp: store_step_def commit_owned_def in_transaction_def elim!: rbindE
          split: option.split sum.split if_splits)
  next
    case (RequestCancellation run_id)
    with run assms(1) show ?thesis
      by (auto simp: store_step_def request_cancellation_def in_transaction_def Let_def elim!: rbindE
          split: option.split sum.split if_splits)
  next
    case (Claim r associated)
    with inserts fresh_key assms(1) show ?thesis
      by (auto simp: store_step_def claim_def in_transaction_def elim!: rbindE
          split: option.split sum.split if_splits)
  qed
qed

lemma fold_step_invariant:
  assumes "P st" and "\<And>c st. P st \<Longrightarrow> P (f c st)"
  shows "P (fold f cs st)"
  using assms(1) by (induction cs arbitrary: st) (auto intro: assms(2))

lemma store_keeps_keys: "lookup st kind rid \<noteq> None \<Longrightarrow> lookup (store_step J c st) kind rid \<noteq> None"
  by (rule store_step_invariant [where P = "\<lambda>st. lookup st kind rid \<noteq> None"])
    (auto simp: lookup_upsert dest!: write_record_Inr split: if_splits)

section \<open>Exclusive claims as an interface\<close>

text \<open>The keys a sequence of calls wins, in order.\<close>

fun winners :: "('c \<Rightarrow> 's \<Rightarrow> 's) \<Rightarrow> ('c \<Rightarrow> 's \<Rightarrow> 'k option) \<Rightarrow> 'c list \<Rightarrow> 's \<Rightarrow> 'k list" where
  "winners step won [] s = []"
| "winners step won (c # cs) s =
     (case won c s of None \<Rightarrow> [] | Some k \<Rightarrow> [k]) @ winners step won cs (step c s)"

locale exclusive_claims =
  fixes step :: "'c \<Rightarrow> 's \<Rightarrow> 's"
    and won :: "'c \<Rightarrow> 's \<Rightarrow> 'k option"
    and held :: "'s \<Rightarrow> 'k \<Rightarrow> bool"
  assumes won_free: "won c s = Some k \<Longrightarrow> \<not> held s k"
    and won_held: "won c s = Some k \<Longrightarrow> held (step c s) k"
    and held_kept: "held s k \<Longrightarrow> held (step c s) k"
begin

lemma winners_free: "k \<in> set (winners step won cs s) \<Longrightarrow> \<not> held s k"
proof (induction cs arbitrary: s)
  case Nil
  then show ?case by simp
next
  case (Cons c cs)
  from Cons.prems consider "won c s = Some k" | "k \<in> set (winners step won cs (step c s))"
    by (auto split: option.splits)
  then show ?case using won_free Cons.IH held_kept by cases blast+
qed

lemma winners_distinct: "distinct (winners step won cs s)"
proof (induction cs arbitrary: s)
  case Nil
  then show ?case by simp
next
  case (Cons c cs)
  have "k \<notin> set (winners step won cs (step c s))" if "won c s = Some k" for k
    using that won_held winners_free by blast
  with Cons.IH show ?case by (simp split: option.split)
qed

end

definition record_held :: "store \<Rightarrow> record_kind \<times> string \<Rightarrow> bool" where
  "record_held st k \<longleftrightarrow> lookup st (fst k) (snd k) \<noteq> None"

lemma inserts_keep_key:
  assumes "foldM (insert_associated J) rs st = Inr st'" and "lookup st kind rid = Some v"
  shows "lookup st' kind rid = Some v"
  by (rule foldM_invariant [OF assms(1), where P = "\<lambda>st. lookup st kind rid = Some v"])
    (use assms(2) in \<open>auto dest!: insert_associated_Inr simp: lookup_upsert\<close>)

lemma claim_won:
  assumes "claim J fault r associated st = (Inr True, st')"
  shows "claimable (sr_kind r)" and "lookup st (sr_kind r) (sr_id r) = None"
    and "lookup st' (sr_kind r) (sr_id r) = Some (sr_value r)"
  using assms inserts_keep_key [of J associated "upsert r st" st' "sr_kind r" "sr_id r" "sr_value r"]
  by (auto simp: claim_def in_transaction_def lookup_upsert elim!: rbindE
      split: option.splits sum.splits if_splits)

lemma claimedE:
  assumes "claimed J c st = Some k"
  obtains r associated where "so_op c = Claim r associated" and "k = (sr_kind r, sr_id r)"
    and "claim J (so_fault c) r associated st = (Inr True, store_step J c st)"
  using assms by (auto simp: claimed_def store_step_def split: store_op.splits if_splits)
    (metis prod.collapse)

interpretation claims: exclusive_claims "store_step J" "claimed J" record_held
proof unfold_locales
  fix c st k
  assume "claimed J c st = Some k"
  then show "\<not> record_held st k" and "record_held (store_step J c st) k"
    by (auto elim!: claimedE dest: claim_won(2,3) simp: record_held_def)
next
  fix st k c
  assume "record_held st k"
  then show "record_held (store_step J c st) k"
    unfolding record_held_def by (rule store_keeps_keys)
qed

section \<open>What writes leave alone\<close>

lemma commit_lookup:
  assumes "kind \<noteq> KNodeWork" and "written records kind rid = None"
  shows "lookup (snd (commit J fresh now now2 fault records st)) kind rid = lookup st kind rid"
  using write_records_lookup [of J fresh now now2 records st _ kind rid] assms
  by (auto simp: commit_def in_transaction_def elim!: rbindE split: option.split sum.split)

lemma claim_keeps_record:
  assumes "lookup st kind rid = Some v"
  shows "lookup (snd (claim J fault r associated st)) kind rid = Some v"
proof -
  have "lookup st' kind rid = Some v"
    if "lookup st (sr_kind r) (sr_id r) = None" "foldM (insert_associated J) associated (upsert r st) = Inr st'" for st'
    using that assms by (intro inserts_keep_key [OF that(2)]) (auto simp: lookup_upsert)
  with assms show ?thesis
    by (auto simp: claim_def in_transaction_def elim!: rbindE split: option.split sum.split)
qed

lemma written_None: "written records kind rid = None \<longleftrightarrow> (\<forall>r \<in> set records. \<not> (sr_kind r = kind \<and> sr_id r = rid))"
  by (auto simp: written_def Let_def filter_empty_conv)

section \<open>What the store promises\<close>

definition empty_store :: store where
  "empty_store = (\<lambda>_. [])"

definition example_record :: "record_kind \<Rightarrow> string \<Rightarrow> string \<Rightarrow> store_record" where
  "example_record kind rid body = \<lparr>sr_kind = kind, sr_id = rid, sr_run_id = ''r'', sr_value = JStr body\<rparr>"

definition example_call :: "store_op \<Rightarrow> store_call" where
  "example_call op = \<lparr>so_fresh = ''f'', so_now = ''t'', so_now2 = ''u'', so_fault = None, so_clock = (\<lambda>_. 0), so_op = op\<rparr>"

lemma serialize_plain: "length (plain_dump v) \<le> 4194304 \<Longrightarrow> serialize plain_ops v = Inr (plain_dump v)"
  by (simp add: serialize_def plain_ops_def)

lemma lookup_empty [simp]: "lookup empty_store kind rid = None"
  by (simp add: lookup_def find_row_def empty_store_def)

text \<open>
  What a record for a key makes of the body stored under it: the new body, except that node work that
  reached a terminal state stays as it is (a record that does not repeat it is refused).
\<close>

definition settled_work :: "json_ops \<Rightarrow> string \<Rightarrow> string \<Rightarrow> string \<Rightarrow> json \<Rightarrow> bool" where
  "settled_work J fresh now now2 v =
     (case node_work_from_json J fresh now now2 v of Inr w \<Rightarrow> node_work_terminal (w_state w) | Inl _ \<Rightarrow> False)"

definition replaced ::
  "json_ops \<Rightarrow> string \<Rightarrow> string \<Rightarrow> string \<Rightarrow> record_kind \<Rightarrow> store_record \<Rightarrow> json option \<Rightarrow> json option" where
  "replaced J fresh now now2 kind r v =
     (if kind = KNodeWork \<and> v \<noteq> None \<and> settled_work J fresh now now2 (the v) then v else Some (sr_value r))"

lemma write_record_replaces:
  assumes "write_record J fresh now now2 r st = Inr st'"
  shows "lookup st' kind rid =
    (if sr_kind r = kind \<and> sr_id r = rid then replaced J fresh now now2 kind r (lookup st kind rid) else lookup st kind rid)"
  using assms unfolding write_record_def
  by (auto simp: lookup_upsert replaced_def settled_work_def elim!: rbindE split: if_splits option.split_asm)

lemma write_records_replace:
  assumes "write_records J fresh now now2 records st = Inr st'"
  shows "lookup st' kind rid =
    fold (replaced J fresh now now2 kind) (filter (\<lambda>r. sr_kind r = kind \<and> sr_id r = rid) records) (lookup st kind rid)"
  using assms unfolding write_records_def
proof (induction records arbitrary: st)
  case (Cons r records)
  from Cons.prems obtain st1 where step: "write_record J fresh now now2 r st = Inr st1"
    and rest: "foldM (write_record J fresh now now2) records st1 = Inr st'"
    by (auto elim: rbindE)
  from Cons.IH [OF rest] write_record_replaces [OF step, of kind rid] show ?case by simp
qed simp

lemma write_records_Inl:
  assumes "write_records J fresh now now2 records st = Inl e"
  obtains before r after st1 where "records = before @ r # after"
    and "write_records J fresh now now2 before st = Inr st1" and "write_record J fresh now now2 r st1 = Inl e"
  using assms unfolding write_records_def
proof (induction records arbitrary: st thesis)
  case (Cons r records)
  show ?case
  proof (cases "write_record J fresh now now2 r st")
    case (Inl e')
    with Cons.prems(2) have "e' = e" by simp
    with Inl show ?thesis by (intro Cons.prems(1) [of "[]" r records st]) simp_all
  next
    case (Inr st1)
    with Cons.prems(2) have "foldM (write_record J fresh now now2) records st1 = Inl e" by simp
    then show ?thesis
    proof (rule Cons.IH [rotated])
      fix before r' after st2
      assume "records = before @ r' # after" and "foldM (write_record J fresh now now2) before st1 = Inr st2"
        and "write_record J fresh now now2 r' st2 = Inl e"
      with Inr show thesis by (intro Cons.prems(1) [of "r # before" r' after st2]) simp_all
    qed
  qed
qed simp


definition example_commit :: store where
  "example_commit = snd (commit plain_ops ''f'' ''t'' ''u'' None
     [example_record KRun ''a'' ''1'', example_record KEvent ''a'' ''2'', example_record KRun ''a'' ''3''] empty_store)"


text \<open>
  C2: a claim is won at most once. In every sequence of calls by any number of processes, with
  arbitrary failures, no kind and identifier is claimed successfully twice, and none that was in the
  store before.
\<close>

theorem claims_are_exclusive:
  "distinct (winners (store_step J) (claimed J) calls st) \<and>
   filter (record_held st) (winners (store_step J) (claimed J) calls st) = []"
  using claims.winners_distinct claims.winners_free by (auto simp: filter_empty_conv)

end
