(* ===== verification/Laso_Schedule.thy ===== *)
theory Laso_Schedule
  imports Laso_Cron Laso_Storage
begin

text \<open>
  Schedule and trigger definitions of \<^verbatim>\<open>include/laso/scheduler/scheduler.hpp\<close> and the functions of
  \<^verbatim>\<open>src/scheduler/scheduler.cpp\<close> on them that touch no state: codecs, parsing and validation of a
  specification, due and late, the next occurrence, and the records and events of an occurrence.
\<close>

section \<open>Definitions\<close>

record schedule_definition =
  s_id :: string
  s_name :: string
  s_pipeline_id :: string
  s_pipeline_version :: u32
  s_type :: string
  s_at :: string
  s_interval_ms :: string
  s_cron :: string
  s_input :: json
  s_enabled :: bool
  s_deleted :: bool
  s_queued :: bool
  s_created_at :: string
  s_updated_at :: string
  s_next_due_at :: string
  s_last_due_at :: string
  s_last_started_at :: string
  s_last_completed_run_id :: string
  s_queued_due_at :: string
  s_misfire_policy :: string
  s_overlap_policy :: string
  s_missed_count :: u32

record trigger_definition =
  t_id :: string
  t_name :: string
  t_pipeline_id :: string
  t_event_type :: string
  t_pipeline_version :: u32
  t_match :: json
  t_enabled :: bool
  t_deleted :: bool
  t_created_at :: string
  t_updated_at :: string

record launch_request =
  lq_pipeline_id :: string
  lq_pipeline_version :: u32
  lq_input :: json
  lq_origin :: json

definition new_schedule :: "string \<Rightarrow> string \<Rightarrow> schedule_definition" where
  "new_schedule fresh now =
     \<lparr>s_id = fresh, s_name = [], s_pipeline_id = [], s_pipeline_version = 1, s_type = [], s_at = [], s_interval_ms = [],
      s_cron = [], s_input = jobject [], s_enabled = True, s_deleted = False, s_queued = False, s_created_at = now,
      s_updated_at = now, s_next_due_at = [], s_last_due_at = [], s_last_started_at = [], s_last_completed_run_id = [],
      s_queued_due_at = [], s_misfire_policy = ''SKIP'', s_overlap_policy = ''ALLOW'', s_missed_count = 0\<rparr>"

definition new_trigger :: "string \<Rightarrow> string \<Rightarrow> trigger_definition" where
  "new_trigger fresh now =
     \<lparr>t_id = fresh, t_name = [], t_pipeline_id = [], t_event_type = [], t_pipeline_version = 1, t_match = jobject [],
      t_enabled = True, t_deleted = False, t_created_at = now, t_updated_at = now\<rparr>"

section \<open>Codecs\<close>

definition schedule_to_json :: "schedule_definition \<Rightarrow> json" where
  "schedule_to_json s =
     jobject
        [(''id'', JStr (s_id s)),
         (''name'', JStr (s_name s)),
         (''pipeline_id'', JStr (s_pipeline_id s)),
         (''pipeline_version'', JUInt (unat (s_pipeline_version s))),
         (''type'', JStr (s_type s)),
         (''at'', JStr (s_at s)),
         (''interval_ms'', JStr (s_interval_ms s)),
         (''cron'', JStr (s_cron s)),
         (''input'', s_input s),
         (''enabled'', JBool (s_enabled s)),
         (''deleted'', JBool (s_deleted s)),
         (''queued'', JBool (s_queued s)),
         (''created_at'', JStr (s_created_at s)),
         (''updated_at'', JStr (s_updated_at s)),
         (''next_due_at'', JStr (s_next_due_at s)),
         (''last_due_at'', JStr (s_last_due_at s)),
         (''last_started_at'', JStr (s_last_started_at s)),
         (''last_completed_run_id'', JStr (s_last_completed_run_id s)),
         (''queued_due_at'', JStr (s_queued_due_at s)),
         (''misfire_policy'', JStr (s_misfire_policy s)),
         (''overlap_policy'', JStr (s_overlap_policy s)),
         (''missed_count'', JUInt (unat (s_missed_count s)))]"

definition schedule_from_json :: "json_ops \<Rightarrow> string \<Rightarrow> string \<Rightarrow> json \<Rightarrow> schedule_definition result" where
  "schedule_from_json J fresh now j =
     rbind (jvalue (get_string J) j ''id'' fresh) (\<lambda>v_id.
     rbind (jvalue (get_string J) j ''name'' []) (\<lambda>v_name.
     rbind (jvalue (get_string J) j ''pipeline_id'' []) (\<lambda>v_pipeline_id.
     rbind (jvalue (get_unsigned J) j ''pipeline_version'' 1) (\<lambda>v_pipeline_version.
     rbind (jvalue (get_string J) j ''type'' []) (\<lambda>v_type.
     rbind (jvalue (get_string J) j ''at'' []) (\<lambda>v_at.
     rbind (jvalue (get_string J) j ''interval_ms'' []) (\<lambda>v_interval_ms.
     rbind (jvalue (get_string J) j ''cron'' []) (\<lambda>v_cron.
     rbind (jvalue Inr j ''input'' (jobject [])) (\<lambda>v_input.
     rbind (jvalue (get_bool J) j ''enabled'' True) (\<lambda>v_enabled.
     rbind (jvalue (get_bool J) j ''deleted'' False) (\<lambda>v_deleted.
     rbind (jvalue (get_bool J) j ''queued'' False) (\<lambda>v_queued.
     rbind (jvalue (get_string J) j ''created_at'' now) (\<lambda>v_created_at.
     rbind (jvalue (get_string J) j ''updated_at'' v_created_at) (\<lambda>v_updated_at.
     rbind (jvalue (get_string J) j ''next_due_at'' []) (\<lambda>v_next_due_at.
     rbind (jvalue (get_string J) j ''last_due_at'' []) (\<lambda>v_last_due_at.
     rbind (jvalue (get_string J) j ''last_started_at'' []) (\<lambda>v_last_started_at.
     rbind (jvalue (get_string J) j ''last_completed_run_id'' []) (\<lambda>v_last_completed_run_id.
     rbind (jvalue (get_string J) j ''queued_due_at'' []) (\<lambda>v_queued_due_at.
     rbind (jvalue (get_string J) j ''misfire_policy'' ''SKIP'') (\<lambda>v_misfire_policy.
     rbind (jvalue (get_string J) j ''overlap_policy'' ''ALLOW'') (\<lambda>v_overlap_policy.
     rbind (jvalue (get_unsigned J) j ''missed_count'' 0) (\<lambda>v_missed_count.
     Inr \<lparr>s_id = v_id, s_name = v_name, s_pipeline_id = v_pipeline_id, s_pipeline_version
      = v_pipeline_version, s_type = v_type, s_at = v_at, s_interval_ms = v_interval_ms,
      s_cron = v_cron, s_input = v_input, s_enabled = v_enabled, s_deleted = v_deleted,
      s_queued = v_queued, s_created_at = v_created_at, s_updated_at = v_updated_at,
      s_next_due_at = v_next_due_at, s_last_due_at = v_last_due_at, s_last_started_at =
      v_last_started_at, s_last_completed_run_id = v_last_completed_run_id, s_queued_due_at
      = v_queued_due_at, s_misfire_policy = v_misfire_policy, s_overlap_policy =
      v_overlap_policy, s_missed_count = v_missed_count\<rparr>))))))))))))))))))))))"

definition trigger_to_json :: "trigger_definition \<Rightarrow> json" where
  "trigger_to_json t =
     jobject
        [(''id'', JStr (t_id t)),
         (''name'', JStr (t_name t)),
         (''pipeline_id'', JStr (t_pipeline_id t)),
         (''pipeline_version'', JUInt (unat (t_pipeline_version t))),
         (''event_type'', JStr (t_event_type t)),
         (''match'', t_match t),
         (''enabled'', JBool (t_enabled t)),
         (''deleted'', JBool (t_deleted t)),
         (''created_at'', JStr (t_created_at t)),
         (''updated_at'', JStr (t_updated_at t))]"

definition trigger_from_json :: "json_ops \<Rightarrow> string \<Rightarrow> string \<Rightarrow> json \<Rightarrow> trigger_definition result" where
  "trigger_from_json J fresh now j =
     rbind (jvalue (get_string J) j ''id'' fresh) (\<lambda>v_id.
     rbind (jvalue (get_string J) j ''name'' []) (\<lambda>v_name.
     rbind (jvalue (get_string J) j ''pipeline_id'' []) (\<lambda>v_pipeline_id.
     rbind (jvalue (get_unsigned J) j ''pipeline_version'' 1) (\<lambda>v_pipeline_version.
     rbind (jvalue (get_string J) j ''event_type'' []) (\<lambda>v_event_type.
     rbind (jvalue Inr j ''match'' (jobject [])) (\<lambda>v_match.
     rbind (jvalue (get_bool J) j ''enabled'' True) (\<lambda>v_enabled.
     rbind (jvalue (get_bool J) j ''deleted'' False) (\<lambda>v_deleted.
     rbind (jvalue (get_string J) j ''created_at'' now) (\<lambda>v_created_at.
     rbind (jvalue (get_string J) j ''updated_at'' v_created_at) (\<lambda>v_updated_at.
     Inr \<lparr>t_id = v_id, t_name = v_name, t_pipeline_id = v_pipeline_id, t_event_type =
      v_event_type, t_pipeline_version = v_pipeline_version, t_match = v_match, t_enabled =
      v_enabled, t_deleted = v_deleted, t_created_at = v_created_at, t_updated_at =
      v_updated_at\<rparr>))))))))))"

section \<open>Validation\<close>

definition max_schedule_input :: nat where
  "max_schedule_input = 1024 * 1024"

definition max_match_bytes :: nat where
  "max_match_bytes = 16 * 1024"

definition max_lateness :: int where
  "max_lateness = 1000000000"

definition dump_size :: "json_ops \<Rightarrow> json \<Rightarrow> nat result" where
  "dump_size J j = (if dump_ok J j then Inr (length (dump J j)) else Inl JsonTypeError)"

text \<open>\<^verbatim>\<open>std::stoll\<close>: blanks, a sign, digits, and the value within the signed range.\<close>

definition stoll :: "string \<Rightarrow> (int \<times> nat) option" where
  "stoll s =
     (let blanks = length (takeWhile is_space s);
          s1 = dropWhile is_space s;
          negative = (case s1 of [] \<Rightarrow> False | c # _ \<Rightarrow> c = CHR ''-'');
          signed = (case s1 of [] \<Rightarrow> False | c # _ \<Rightarrow> c = CHR ''-'' \<or> c = CHR ''+'');
          digits = takeWhile is_digit (if signed then tl s1 else s1);
          v = (if negative then - int (digits_value 0 digits) else int (digits_value 0 digits))
      in if digits = [] \<or> v < - (2 ^ 63) \<or> v \<ge> 2 ^ 63 then None
         else Some (v, blanks + (if signed then 1 else 0) + length digits))"

definition interval_value :: "schedule_definition \<Rightarrow> int result" where
  "interval_value s =
     (if s_interval_ms s = [] then throw Validation ''Interval schedule requires interval_ms''
      else case stoll (s_interval_ms s) of
        None \<Rightarrow> throw Validation ''Interval must be a positive bounded millisecond duration''
      | Some (v, stop) \<Rightarrow>
          if stop \<noteq> length (s_interval_ms s) \<or> v \<le> 0 \<or> v > 365 * 24 * 60 * 60 * 1000
          then throw Validation ''Interval must be a positive bounded millisecond duration''
          else Inr v)"

definition check_timestamp :: "string \<Rightarrow> unit result" where
  "check_timestamp t = rbind (parse_utc_timestamp t) (\<lambda>_. Inr ())"

definition check_optional_timestamp :: "string \<Rightarrow> unit result" where
  "check_optional_timestamp t = (if t = [] then Inr () else check_timestamp t)"

definition validate_schedule :: "json_ops \<Rightarrow> schedule_definition \<Rightarrow> unit result" where
  "validate_schedule J s =
     (if s_id s = [] \<or> length (s_id s) > 128 \<or> s_name s = [] \<or> length (s_name s) > 128 \<or>
         s_pipeline_id s = [] \<or> length (s_pipeline_id s) > 128 \<or> s_pipeline_version s = 0
      then throw Validation ''Invalid schedule identity or input''
      else
        rbind (dump_size J (s_input s)) (\<lambda>n.
        if n > max_schedule_input then throw Validation ''Invalid schedule identity or input''
        else if s_type s \<noteq> ''one_time'' \<and> s_type s \<noteq> ''interval'' \<and> s_type s \<noteq> ''cron''
        then throw Validation ''Unsupported schedule type''
        else
          rbind (if s_type s = ''one_time'' then
                   (if s_at s = [] then throw Validation ''One-time schedule requires at''
                    else check_timestamp (s_at s))
                 else if s_type s = ''interval'' then
                   rbind (interval_value s) (\<lambda>_. check_optional_timestamp (s_at s))
                 else rbind (parse_cron (s_cron s)) (\<lambda>_. Inr ())) (\<lambda>_.
          rbind (check_optional_timestamp (s_next_due_at s)) (\<lambda>_.
          rbind (check_optional_timestamp (s_queued_due_at s)) (\<lambda>_.
          if s_misfire_policy s \<noteq> ''SKIP'' \<and> s_misfire_policy s \<noteq> ''RUN_ONCE''
          then throw Validation ''Unsupported misfire policy''
          else if s_overlap_policy s \<noteq> ''ALLOW'' \<and> s_overlap_policy s \<noteq> ''SKIP'' \<and>
                  s_overlap_policy s \<noteq> ''QUEUE_ONE''
          then throw Validation ''Unsupported overlap policy''
          else Inr ())))))"

text \<open>\<^verbatim>\<open>items()\<close>: an array is enumerated by position, a scalar is one item without a key.\<close>

definition json_items :: "json \<Rightarrow> (string \<times> json) list" where
  "json_items j =
     (case j of
        JNull \<Rightarrow> []
      | JObj m \<Rightarrow> m
      | JArr xs \<Rightarrow> map (\<lambda>(i, x). (decimal i, x)) (List.enumerate 0 xs)
      | _ \<Rightarrow> [([], j)])"

definition is_scalar :: "json \<Rightarrow> bool" where
  "is_scalar j \<longleftrightarrow> \<not> is_object j \<and> \<not> is_array j"

definition is_event_type_char :: "char \<Rightarrow> bool" where
  "is_event_type_char c \<longleftrightarrow> is_alnum c \<or> c = CHR ''_'' \<or> c = CHR ''.'' \<or> c = CHR ''-''"

definition validate_trigger :: "json_ops \<Rightarrow> trigger_definition \<Rightarrow> unit result" where
  "validate_trigger J t =
     (if t_id t = [] \<or> length (t_id t) > 128 \<or> t_name t = [] \<or> length (t_name t) > 128 \<or>
         t_pipeline_id t = [] \<or> length (t_pipeline_id t) > 128 \<or> t_pipeline_version t = 0 \<or>
         t_event_type t = [] \<or> length (t_event_type t) > 128 \<or> \<not> list_all is_event_type_char (t_event_type t) \<or>
         \<not> is_object (t_match t) \<or> length (jfields (t_match t)) > 32
      then throw Validation ''Invalid event trigger definition''
      else
        rbind (dump_size J (t_match t)) (\<lambda>n.
        if n > max_match_bytes then throw Validation ''Invalid event trigger definition''
        else forM (json_items (t_match t)) (\<lambda>(key, v).
          if key = [] \<or> length key > 128 \<or> \<not> is_scalar v
          then throw Validation ''Event trigger filters must use scalar values'' else Inr ())))"

section \<open>Specifications\<close>

definition pipeline_id_from_spec :: "json_ops \<Rightarrow> json \<Rightarrow> string result" where
  "pipeline_id_from_spec J spec =
     rbind (jvalue (get_string J) spec ''pipeline_id'' []) (\<lambda>d.
     rbind (jvalue (get_string J) spec ''pipeline'' d) (\<lambda>v.
     if v = [] then throw Validation ''Trigger or schedule pipeline is required'' else Inr v))"

definition to_string :: "int \<Rightarrow> string" where
  "to_string i = (if i < 0 then CHR ''-'' # decimal (nat (- i)) else decimal (nat i))"

definition spec_interval :: "json_ops \<Rightarrow> json \<Rightarrow> string result" where
  "spec_interval J spec =
     (case jat spec ''interval_ms'' of
        Inr v \<Rightarrow>
          (case v of
             JUInt _ \<Rightarrow> rbind (get_int64 J v) (\<lambda>i. Inr (to_string i))
           | JInt _ \<Rightarrow> rbind (get_int64 J v) (\<lambda>i. Inr (to_string i))
           | _ \<Rightarrow> get_string J v)
      | Inl _ \<Rightarrow>
          (case jat spec ''interval'' of
             Inr v \<Rightarrow>
               (case v of JStr _ \<Rightarrow> get_string J v | _ \<Rightarrow> rbind (get_int64 J v) (\<lambda>i. Inr (to_string i)))
           | Inl _ \<Rightarrow> Inr []))"

text \<open>\<open>fresh\<close> and \<open>now\<close> are the values of \<^verbatim>\<open>uuid()\<close> as the default identifier and of \<^verbatim>\<open>timestamp()\<close>.\<close>

definition parse_schedule_spec :: "json_ops \<Rightarrow> string \<Rightarrow> string \<Rightarrow> json \<Rightarrow> schedule_definition result" where
  "parse_schedule_spec J fresh now spec =
     (if \<not> is_object spec then throw Validation ''Schedule must be a JSON object''
      else
        rbind (jvalue (get_string J) spec ''id'' fresh) (\<lambda>v_id.
        rbind (jvalue (get_string J) spec ''name'' []) (\<lambda>v_name.
        rbind (pipeline_id_from_spec J spec) (\<lambda>v_pipeline_id.
        rbind (jvalue (get_unsigned J) spec ''version'' 1) (\<lambda>v_version.
        rbind (jvalue (get_unsigned J) spec ''pipeline_version'' v_version) (\<lambda>v_pipeline_version.
        rbind (jvalue (get_string J) spec ''type'' []) (\<lambda>v_type.
        rbind (jvalue (get_string J) spec ''at'' []) (\<lambda>v_at.
        rbind (jvalue (get_string J) spec ''cron'' []) (\<lambda>v_cron.
        rbind (spec_interval J spec) (\<lambda>v_interval_ms.
        rbind (jvalue Inr spec ''input'' (jobject [])) (\<lambda>v_input.
        rbind (jvalue (get_bool J) spec ''enabled'' True) (\<lambda>v_enabled.
        rbind (jvalue (get_string J) spec ''misfire_policy'' ''SKIP'') (\<lambda>v_misfire.
        rbind (jvalue (get_string J) spec ''overlap_policy'' ''ALLOW'') (\<lambda>v_overlap.
        rbind (jvalue (get_string J) spec ''start_at'' []) (\<lambda>v_start_at.
        rbind (jvalue (get_string J) spec ''next_due_at'' v_start_at) (\<lambda>v_next_due_at.
        let s = (new_schedule v_id now)\<lparr>s_name := v_name, s_pipeline_id := v_pipeline_id,
              s_pipeline_version := v_pipeline_version, s_type := v_type, s_at := v_at, s_cron := v_cron,
              s_interval_ms := v_interval_ms, s_input := v_input, s_enabled := v_enabled,
              s_misfire_policy := v_misfire, s_overlap_policy := v_overlap, s_next_due_at := v_next_due_at\<rparr>
        in rbind (validate_schedule J s) (\<lambda>_. Inr s)))))))))))))))))"

definition parse_trigger_spec :: "json_ops \<Rightarrow> string \<Rightarrow> string \<Rightarrow> json \<Rightarrow> trigger_definition result" where
  "parse_trigger_spec J fresh now spec =
     (if \<not> is_object spec then throw Validation ''Trigger must be a JSON object''
      else
        rbind (jvalue (get_string J) spec ''id'' fresh) (\<lambda>v_id.
        rbind (jvalue (get_string J) spec ''name'' []) (\<lambda>v_name.
        rbind (pipeline_id_from_spec J spec) (\<lambda>v_pipeline_id.
        rbind (jvalue (get_unsigned J) spec ''version'' 1) (\<lambda>v_version.
        rbind (jvalue (get_unsigned J) spec ''pipeline_version'' v_version) (\<lambda>v_pipeline_version.
        rbind (jvalue (get_string J) spec ''event_type'' []) (\<lambda>v_event_type.
        rbind (jvalue (get_string J) spec ''event'' v_event_type) (\<lambda>v_event.
        rbind (jvalue Inr spec ''match'' (jobject [])) (\<lambda>v_match.
        rbind (jvalue (get_bool J) spec ''enabled'' True) (\<lambda>v_enabled.
        let t = (new_trigger v_id now)\<lparr>t_name := v_name, t_pipeline_id := v_pipeline_id,
              t_pipeline_version := v_pipeline_version, t_event_type := v_event, t_match := v_match,
              t_enabled := v_enabled\<rparr>
        in rbind (validate_trigger J t) (\<lambda>_. Inr t)))))))))))"

section \<open>Occurrences\<close>

text \<open>\<open>clock\<close> is the system clock, read when no base is given.\<close>

definition next_schedule_due :: "json_ops \<Rightarrow> int \<Rightarrow> schedule_definition \<Rightarrow> string \<Rightarrow> string result" where
  "next_schedule_due J clock s after =
     rbind (validate_schedule J s) (\<lambda>_.
       let base = (if after = [] then format_utc_timestamp clock else after)
       in if s_type s = ''one_time'' then Inr []
          else if s_type s = ''cron'' then cron_next (s_cron s) base
          else
            rbind (interval_value s) (\<lambda>v.
            rbind (parse_utc_timestamp base) (\<lambda>t.
            rbind (wall (t + v * 1000000)) (\<lambda>t'. Inr (format_utc_timestamp t')))))"

definition is_due :: "string \<Rightarrow> int \<Rightarrow> bool result" where
  "is_due due now = (if due = [] then Inr False else rbind (parse_utc_timestamp due) (\<lambda>t. Inr (t \<le> now)))"

definition is_late :: "string \<Rightarrow> int \<Rightarrow> bool result" where
  "is_late due now =
     (if due = [] then Inr True
      else rbind (parse_utc_timestamp due) (\<lambda>t. rbind (wall (now - t)) (\<lambda>d. Inr (d > max_lateness))))"

definition occurrence_id :: "schedule_definition \<Rightarrow> string \<Rightarrow> string" where
  "occurrence_id s due = s_id s @ ''|'' @ due"

definition record_value :: "string \<Rightarrow> schedule_definition \<Rightarrow> string \<Rightarrow> string \<Rightarrow> json" where
  "record_value status s due run_id =
     jobject [(''id'', JStr (occurrence_id s due)), (''schedule_id'', JStr (s_id s)), (''due_at'', JStr due),
              (''status'', JStr status), (''run_id'', JStr run_id), (''updated_at'', JStr (s_updated_at s))]"

definition put_all :: "(string \<times> json) list \<Rightarrow> json \<Rightarrow> json" where
  "put_all = fold (\<lambda>(k, v). jput k v)"

definition scheduler_event ::
  "string \<Rightarrow> string \<Rightarrow> string \<Rightarrow> schedule_definition \<Rightarrow> string \<Rightarrow> json \<Rightarrow> event" where
  "scheduler_event fresh now type s due extra =
     (new_event fresh now)\<lparr>ev_type := type, ev_pipeline_id := s_pipeline_id s,
       ev_metadata := put_all (json_items extra)
         (jobject [(''schedule_id'', JStr (s_id s)), (''pipeline_version'', JUInt (unat (s_pipeline_version s))),
                   (''due_at'', JStr due)])\<rparr>"

definition root_event :: "event \<Rightarrow> string" where
  "root_event e = (if ev_root_event_id e = [] then ev_id e else ev_root_event_id e)"

definition trigger_event ::
  "string \<Rightarrow> string \<Rightarrow> string \<Rightarrow> trigger_definition \<Rightarrow> event \<Rightarrow> json \<Rightarrow> event" where
  "trigger_event fresh now type t source extra =
     (let e = (new_event fresh now)\<lparr>ev_type := type, ev_pipeline_id := t_pipeline_id t\<rparr>;
          e = (if ev_id source = [] then e
               else e\<lparr>ev_causation_id := ev_id source, ev_root_event_id := root_event source,
                      ev_trigger_depth := ev_trigger_depth source\<rparr>)
      in e\<lparr>ev_metadata := put_all (json_items extra)
             (jobject [(''trigger_id'', JStr (t_id t)), (''event_id'', JStr (ev_id source)),
                       (''root_event_id'', JStr (root_event source))])\<rparr>)"

end
