(* ===== verification/Laso_Action.thy ===== *)
theory Laso_Action
  imports Laso_Prelude
begin

text \<open>
  Programs that throw and change a state, as the scheduler and the runtime are written: an action
  maps a state to a result and the state it leaves. Throwing does not undo what was done before. With
  the combinators come two ways to reason about them: a predicate of the state that an action keeps
  (\<open>keeps\<close>), and a triple with one postcondition for a return and one for an exception (\<open>valid\<close>).
\<close>

section \<open>Actions\<close>

type_synonym ('w, 'a) action = "'w \<Rightarrow> 'a result \<times> 'w"

definition aret :: "'a \<Rightarrow> ('w, 'a) action" where
  "aret a w = (Inr a, w)"

definition alift :: "'a result \<Rightarrow> ('w, 'a) action" where
  "alift r w = (r, w)"

definition abind :: "('w, 'a) action \<Rightarrow> ('a \<Rightarrow> ('w, 'b) action) \<Rightarrow> ('w, 'b) action" where
  "abind m f w = (case m w of (Inl e, w') \<Rightarrow> (Inl e, w') | (Inr a, w') \<Rightarrow> f a w')"

text \<open>\<open>catch (const Error \&)\<close>: only errors of the program are handled, and only those of the guarded part.\<close>

definition atry :: "('w, 'a) action \<Rightarrow> ('a \<Rightarrow> ('w, 'b) action) \<Rightarrow> (error_code \<Rightarrow> string \<Rightarrow> ('w, 'b) action) \<Rightarrow> ('w, 'b) action" where
  "atry m f h w =
     (case m w of
        (Inr a, w') \<Rightarrow> f a w'
      | (Inl e, w') \<Rightarrow> (case e of Error code text \<Rightarrow> h code text w' | _ \<Rightarrow> (Inl e, w')))"

definition athrow :: "error_code \<Rightarrow> string \<Rightarrow> ('w, 'a) action" where
  "athrow code text = alift (throw code text)"

definition awhen :: "bool \<Rightarrow> ('w, unit) action \<Rightarrow> ('w, unit) action" where
  "awhen b m = (if b then m else aret ())"

definition modify :: "('w \<Rightarrow> 'w) \<Rightarrow> ('w, unit) action" where
  "modify f w = (Inr (), f w)"

definition reads :: "('w \<Rightarrow> 'a) \<Rightarrow> ('w, 'a) action" where
  "reads f w = (Inr (f w), w)"

text \<open>A part that reads the state it starts from.\<close>

definition look :: "('w \<Rightarrow> ('w, 'a) action) \<Rightarrow> ('w, 'a) action" where
  "look f w = f w w"

fun afor :: "'a list \<Rightarrow> ('a \<Rightarrow> ('w, unit) action) \<Rightarrow> ('w, unit) action" where
  "afor [] f = aret ()"
| "afor (x # xs) f = abind (f x) (\<lambda>_. afor xs f)"

fun afold :: "('a \<Rightarrow> 's \<Rightarrow> ('w, 's) action) \<Rightarrow> 'a list \<Rightarrow> 's \<Rightarrow> ('w, 's) action" where
  "afold f [] s = aret s"
| "afold f (x # xs) s = abind (f x s) (afold f xs)"

definition ignoring :: "('w, unit) action \<Rightarrow> ('w, unit) action" where
  "ignoring m = atry m aret (\<lambda>_ _. aret ())"

text \<open>\<open>catch (...)\<close>: every exception is handled, and the handler may throw it again.\<close>

definition acatch :: "('w, 'a) action \<Rightarrow> (exn \<Rightarrow> ('w, 'a) action) \<Rightarrow> ('w, 'a) action" where
  "acatch m h w = (case m w of (Inr a, w') \<Rightarrow> (Inr a, w') | (Inl e, w') \<Rightarrow> h e w')"

lemma abind_Inr: "abind m f w = (Inr b, w') \<longleftrightarrow> (\<exists>a w1. m w = (Inr a, w1) \<and> f a w1 = (Inr b, w'))"
  by (auto simp: abind_def split: prod.split sum.split)

lemma atry_Inr: "atry m f h w = (Inr b, w') \<longleftrightarrow>
    (\<exists>a w1. m w = (Inr a, w1) \<and> f a w1 = (Inr b, w')) \<or>
    (\<exists>c t w1. m w = (Inl (Error c t), w1) \<and> h c t w1 = (Inr b, w'))"
  by (auto simp: atry_def split: prod.split sum.split exn.split)

section \<open>What actions keep\<close>

named_theorems keeps_rules \<open>actions that keep a predicate of the state\<close>

definition keeps :: "('w \<Rightarrow> bool) \<Rightarrow> ('w, 'a) action \<Rightarrow> bool" where
  "keeps P m \<longleftrightarrow> (\<forall>w. P w \<longrightarrow> P (snd (m w)))"

lemma keepsI: "(\<And>w. P w \<Longrightarrow> P (snd (m w))) \<Longrightarrow> keeps P m"
  by (simp add: keeps_def)

lemma keepsD: "keeps P m \<Longrightarrow> P w \<Longrightarrow> P (snd (m w))"
  by (simp add: keeps_def)

lemma keeps_simple [keeps_rules]:
  "keeps P (aret a)" "keeps P (alift r)" "keeps P (athrow c t)" "keeps P (reads f)"
  by (simp_all add: keeps_def aret_def alift_def athrow_def reads_def)

lemma keeps_modify: "(\<And>w. P w \<Longrightarrow> P (f w)) \<Longrightarrow> keeps P (modify f)"
  by (simp add: keeps_def modify_def)

lemma keeps_look [keeps_rules]: "(\<And>w. P w \<Longrightarrow> keeps P (f w)) \<Longrightarrow> keeps P (look f)"
  by (simp add: keeps_def look_def)

text \<open>The continuation may rely on what the first action returned.\<close>

lemma keeps_abind_result:
  assumes "keeps P m" and "\<And>a w w'. P w \<Longrightarrow> m w = (Inr a, w') \<Longrightarrow> keeps P (f a)"
  shows "keeps P (abind m f)"
proof (rule keepsI)
  fix w
  assume P: "P w"
  obtain r w' where m: "m w = (r, w')" by (cases "m w")
  with assms(1) P have "P w'" by (auto dest: keepsD)
  with m P assms(2) [of w _ w'] show "P (snd (abind m f w))"
    by (cases r) (auto simp: abind_def dest: keepsD)
qed

lemma keeps_abind [keeps_rules]: "keeps P m \<Longrightarrow> (\<And>a. keeps P (f a)) \<Longrightarrow> keeps P (abind m f)"
  by (rule keeps_abind_result)

lemma keeps_atry_result:
  assumes "keeps P m" and "\<And>a w w'. P w \<Longrightarrow> m w = (Inr a, w') \<Longrightarrow> keeps P (f a)" and "\<And>c t. keeps P (h c t)"
  shows "keeps P (atry m f h)"
proof (rule keepsI)
  fix w
  assume P: "P w"
  obtain r w' where m: "m w = (r, w')" by (cases "m w")
  with assms(1) P have "P w'" by (auto dest: keepsD)
  with m assms(2) [OF P, of _ w'] show "P (snd (atry m f h w))"
    by (auto simp: atry_def keepsD [OF assms(3)] split: sum.split exn.split dest: keepsD)
qed

lemma keeps_atry [keeps_rules]:
  "keeps P m \<Longrightarrow> (\<And>a. keeps P (f a)) \<Longrightarrow> (\<And>c t. keeps P (h c t)) \<Longrightarrow> keeps P (atry m f h)"
  by (rule keeps_atry_result)

lemma keeps_acatch [keeps_rules]: "keeps P m \<Longrightarrow> (\<And>e. keeps P (h e)) \<Longrightarrow> keeps P (acatch m h)"
  by (auto simp: keeps_def acatch_def split: prod.split sum.split)

lemma keeps_afor [keeps_rules]: "(\<And>x. x \<in> set xs \<Longrightarrow> keeps P (f x)) \<Longrightarrow> keeps P (afor xs f)"
  by (induction xs) (auto intro: keeps_rules)

lemma keeps_afold [keeps_rules]: "(\<And>x s. x \<in> set xs \<Longrightarrow> keeps P (f x s)) \<Longrightarrow> keeps P (afold f xs s)"
  by (induction xs arbitrary: s) (auto intro: keeps_rules)

lemma keeps_control [keeps_rules]:
  "(b \<Longrightarrow> keeps P m) \<Longrightarrow> keeps P (awhen b m)" "keeps P m \<Longrightarrow> keeps P (ignoring m)"
  by (auto simp: awhen_def ignoring_def intro: keeps_rules)

lemma keeps_if [keeps_rules]:
  "(b \<Longrightarrow> keeps P m) \<Longrightarrow> (\<not> b \<Longrightarrow> keeps P m') \<Longrightarrow> keeps P (if b then m else m')"
  by simp

lemma keeps_option [keeps_rules]:
  "(x = None \<Longrightarrow> keeps P m) \<Longrightarrow> (\<And>a. x = Some a \<Longrightarrow> keeps P (f a)) \<Longrightarrow> keeps P (case x of None \<Rightarrow> m | Some a \<Rightarrow> f a)"
  by (cases x) simp_all

lemma keeps_prod [keeps_rules]: "(\<And>a b. x = (a, b) \<Longrightarrow> keeps P (f a b)) \<Longrightarrow> keeps P (case x of (a, b) \<Rightarrow> f a b)"
  by (cases x) simp

lemma keeps_unless: "keeps P m \<Longrightarrow> keeps P (\<lambda>w. if b w then (Inr (), w) else m w)"
  by (simp add: keeps_def)

section \<open>Triples\<close>

named_theorems valid_rules \<open>triples of actions\<close>

definition valid :: "('w \<Rightarrow> bool) \<Rightarrow> ('w, 'a) action \<Rightarrow> ('a \<Rightarrow> 'w \<Rightarrow> bool) \<Rightarrow> ('w \<Rightarrow> bool) \<Rightarrow> bool" where
  "valid P m Q X \<longleftrightarrow> (\<forall>w. P w \<longrightarrow> (case m w of (Inr a, w') \<Rightarrow> Q a w' | (Inl e, w') \<Rightarrow> X w'))"

lemma validI:
  assumes "\<And>w a w'. P w \<Longrightarrow> m w = (Inr a, w') \<Longrightarrow> Q a w'" and "\<And>w e w'. P w \<Longrightarrow> m w = (Inl e, w') \<Longrightarrow> X w'"
  shows "valid P m Q X"
  using assms by (auto simp: valid_def split: prod.split sum.split)

lemma validD:
  assumes "valid P m Q X" and "P w"
  shows valid_return: "m w = (Inr a, w') \<Longrightarrow> Q a w'" and valid_throw: "m w = (Inl e, w') \<Longrightarrow> X w'"
  using assms by (auto simp: valid_def)

lemma keeps_valid: "keeps P m \<longleftrightarrow> valid P m (\<lambda>_. P) P"
  by (auto simp: keeps_def valid_def split: prod.splits sum.splits) (metis prod.collapse)

lemma valid_weaken:
  assumes "valid P m Q X" and "\<And>w. P' w \<Longrightarrow> P w" and "\<And>a w. Q a w \<Longrightarrow> Q' a w" and "\<And>w. X w \<Longrightarrow> X' w"
  shows "valid P' m Q' X'"
  using assms by (fastforce simp: valid_def split: prod.splits sum.splits)

lemma valid_abind [valid_rules]:
  assumes "valid P m Q X" and "\<And>a. valid (Q a) (f a) R X"
  shows "valid P (abind m f) R X"
  using assms by (fastforce simp: valid_def abind_def split: prod.splits sum.splits)

lemma valid_atry:
  assumes "valid P m Q Y" and "\<And>a. valid (Q a) (f a) R X" and "\<And>c t. valid Y (h c t) R X" and "\<And>w. Y w \<Longrightarrow> X w"
  shows "valid P (atry m f h) R X"
  using assms by (fastforce simp: valid_def atry_def split: prod.splits sum.splits exn.splits)

lemma valid_simple:
  "(\<And>w. P w \<Longrightarrow> Q a w) \<Longrightarrow> valid P (aret a) Q X"
  "(\<And>w. P w \<Longrightarrow> X w) \<Longrightarrow> valid P (athrow c t) Q X"
  "(\<And>w. P w \<Longrightarrow> Q (f w) w) \<Longrightarrow> valid P (reads f) Q X"
  "(\<And>w. P w \<Longrightarrow> Q () (g w)) \<Longrightarrow> valid P (modify g) Q X"
  by (simp_all add: valid_def aret_def athrow_def alift_def reads_def modify_def)

lemma valid_look: "(\<And>w. P w \<Longrightarrow> valid (\<lambda>w'. w' = w \<and> P w') (f w) Q X) \<Longrightarrow> valid P (look f) Q X"
  by (simp add: valid_def look_def)

lemma valid_alift: "(\<And>w a. P w \<Longrightarrow> r = Inr a \<Longrightarrow> Q a w) \<Longrightarrow> (\<And>w e. P w \<Longrightarrow> r = Inl e \<Longrightarrow> X w) \<Longrightarrow> valid P (alift r) Q X"
  by (cases r) (simp_all add: valid_def alift_def)

lemma valid_if [valid_rules]:
  "(b \<Longrightarrow> valid P m Q X) \<Longrightarrow> (\<not> b \<Longrightarrow> valid P m' Q X) \<Longrightarrow> valid P (if b then m else m') Q X"
  by simp

lemma valid_afor:
  assumes "\<And>x. x \<in> set xs \<Longrightarrow> valid I (f x) (\<lambda>_. I) X" and "\<And>w. I w \<Longrightarrow> X w"
  shows "valid I (afor xs f) (\<lambda>_. I) X"
  using assms(1) by (induction xs) (auto intro!: valid_abind valid_simple)

end
