(* ===== verification/Laso_Scheduler.thy ===== *)
theory Laso_Scheduler
  imports Laso_Schedule Laso_Action
begin

text \<open>
  \<^verbatim>\<open>LocalScheduler\<close> of \<^verbatim>\<open>src/scheduler/scheduler.cpp\<close>, the durable scheduler over the record store: the
  operations on schedules and triggers, the passes over due schedules, events and deliveries, and the
  tasks it posts to itself. The callback that launches a run and the one that emits an event, the
  clock, \<^verbatim>\<open>uuid()\<close> and \<^verbatim>\<open>timestamp()\<close> and the failures of the store are arguments (\<open>env\<close>), each
  read at a new \<open>tick\<close>. An operation throws without undoing what it stored before. The durable
  constructor always sets the store and the timer, so the tests for their absence have no branch here.
\<close>

section \<open>State and actions\<close>

datatype sched_task = StartTask | WakeTask | EventTask event

record env =
  en_json :: json_ops
  en_clock :: "nat \<Rightarrow> int"
  en_uuid :: "nat \<Rightarrow> string"
  en_timestamp :: "nat \<Rightarrow> string"
  en_fault :: "nat \<Rightarrow> fault option"
  en_dispatch :: "nat \<Rightarrow> launch_request \<Rightarrow> store \<Rightarrow> string result \<times> store"
  en_emit :: "nat \<Rightarrow> event \<Rightarrow> unit result"
  en_max_pending_launches :: u32
  en_max_trigger_depth :: u32
  en_max_event_deliveries :: u32

text \<open>
  \<open>wd_launched\<close> logs the calls of the launch callback with their results; \<open>wd_timer\<close> is the
  delay in milliseconds the wake timer waits for.
\<close>

record world =
  wd_store :: store
  wd_emitted :: "event list"
  wd_launched :: "(launch_request \<times> string result) list"
  wd_posted :: "sched_task list"
  wd_timer :: "int option"
  wd_started :: bool
  wd_stopped :: bool
  wd_pending :: nat
  wd_tick :: nat

type_synonym 'a act = "(world, 'a) action"

definition tick :: "nat act" where
  "tick w = (Inr (wd_tick w), w\<lparr>wd_tick := Suc (wd_tick w)\<rparr>)"

section \<open>The services the scheduler calls\<close>

definition clock_now :: "env \<Rightarrow> int act" where
  "clock_now E = abind tick (\<lambda>n. aret (en_clock E n))"

definition store_get :: "env \<Rightarrow> record_kind \<Rightarrow> string \<Rightarrow> json act" where
  "store_get E kind rid = abind tick (\<lambda>n w. (get_record (en_fault E n) kind rid (wd_store w), w))"

definition store_list :: "env \<Rightarrow> record_kind \<Rightarrow> nat \<Rightarrow> json list act" where
  "store_list E kind limit = abind tick (\<lambda>n w. (list_records (en_fault E n) kind [] limit 0 (wd_store w), w))"

definition store_commit :: "env \<Rightarrow> store_record list \<Rightarrow> unit act" where
  "store_commit E records =
     abind tick (\<lambda>n w.
       let (r, st) = commit (en_json E) (en_uuid E n) (en_timestamp E n) (en_timestamp E n) (en_fault E n) records
             (wd_store w)
       in (r, w\<lparr>wd_store := st\<rparr>))"

definition store_claim :: "env \<Rightarrow> store_record \<Rightarrow> bool act" where
  "store_claim E r =
     abind tick (\<lambda>n w.
       let (b, st) = claim (en_json E) (en_fault E n) r [] (wd_store w) in (b, w\<lparr>wd_store := st\<rparr>))"

definition dispatch :: "env \<Rightarrow> launch_request \<Rightarrow> string act" where
  "dispatch E request =
     abind tick (\<lambda>n w.
       let (r, st) = en_dispatch E n request (wd_store w)
       in (r, w\<lparr>wd_store := st, wd_launched := wd_launched w @ [(request, r)]\<rparr>))"

definition emit_event :: "env \<Rightarrow> event \<Rightarrow> unit act" where
  "emit_event E e = abind tick (\<lambda>n w. (en_emit E n e, w\<lparr>wd_emitted := wd_emitted w @ [e]\<rparr>))"

definition decode_schedule :: "env \<Rightarrow> json \<Rightarrow> schedule_definition act" where
  "decode_schedule E j =
     abind tick (\<lambda>n. alift (schedule_from_json (en_json E) (en_uuid E n) (en_timestamp E n) j))"

definition decode_trigger :: "env \<Rightarrow> json \<Rightarrow> trigger_definition act" where
  "decode_trigger E j =
     abind tick (\<lambda>n. alift (trigger_from_json (en_json E) (en_uuid E n) (en_timestamp E n) j))"

definition decode_event :: "env \<Rightarrow> json \<Rightarrow> event act" where
  "decode_event E j =
     abind tick (\<lambda>n. alift (event_from_json (en_json E) (en_uuid E n) (en_timestamp E n) j))"

definition schedule_event :: "env \<Rightarrow> string \<Rightarrow> schedule_definition \<Rightarrow> string \<Rightarrow> json \<Rightarrow> event act" where
  "schedule_event E type s due extra =
     abind tick (\<lambda>n. aret (scheduler_event (en_uuid E n) (en_timestamp E n) type s due extra))"

definition triggered_event :: "env \<Rightarrow> string \<Rightarrow> trigger_definition \<Rightarrow> event \<Rightarrow> json \<Rightarrow> event act" where
  "triggered_event E type t source extra =
     abind tick (\<lambda>n. aret (trigger_event (en_uuid E n) (en_timestamp E n) type t source extra))"

definition default_event :: "env \<Rightarrow> event act" where
  "default_event E = abind tick (\<lambda>n. aret (new_event (en_uuid E n) (en_timestamp E n)))"

definition schedule_record :: "schedule_definition \<Rightarrow> store_record" where
  "schedule_record s = \<lparr>sr_kind = KSchedule, sr_id = s_id s, sr_run_id = [], sr_value = schedule_to_json s\<rparr>"

definition trigger_record :: "trigger_definition \<Rightarrow> store_record" where
  "trigger_record t = \<lparr>sr_kind = KTrigger, sr_id = t_id t, sr_run_id = [], sr_value = trigger_to_json t\<rparr>"

definition event_record :: "event \<Rightarrow> store_record" where
  "event_record e = \<lparr>sr_kind = KEvent, sr_id = ev_id e, sr_run_id = [], sr_value = event_to_json e\<rparr>"

definition occurrence_record :: "string \<Rightarrow> json \<Rightarrow> store_record" where
  "occurrence_record occ v = \<lparr>sr_kind = KScheduleOccurrence, sr_id = occ, sr_run_id = [], sr_value = v\<rparr>"

definition delivery_record :: "string \<Rightarrow> json \<Rightarrow> store_record" where
  "delivery_record d v = \<lparr>sr_kind = KTriggerDelivery, sr_id = d, sr_run_id = [], sr_value = v\<rparr>"

definition wake :: "unit act" where
  "wake = modify (\<lambda>w. if wd_stopped w \<or> \<not> wd_started w then w else w\<lparr>wd_posted := wd_posted w @ [WakeTask]\<rparr>)"

definition timed :: "env \<Rightarrow> (string \<Rightarrow> 'a act) \<Rightarrow> 'a act" where
  "timed E f = abind (clock_now E) (\<lambda>t. f (format_utc_timestamp t))"

section \<open>Operations on schedules and triggers\<close>

text \<open>Store the record with the event that reports it, tell the subscribers, look at the timer.\<close>

definition announce :: "env \<Rightarrow> store_record \<Rightarrow> event \<Rightarrow> unit act" where
  "announce E r e =
     abind (store_commit E [r, event_record e]) (\<lambda>_. abind (emit_event E e) (\<lambda>_. wake))"

text \<open>The search for an existing record: finding one is the conflict, not finding one is expected.\<close>

definition require_absent :: "env \<Rightarrow> record_kind \<Rightarrow> string \<Rightarrow> string \<Rightarrow> unit act" where
  "require_absent E kind rid text =
     atry (store_get E kind rid) (\<lambda>_. athrow Conflict text)
       (\<lambda>code m. if code \<noteq> NotFound then athrow code m else aret ())"

definition create_schedule :: "env \<Rightarrow> schedule_definition \<Rightarrow> schedule_definition act" where
  "create_schedule E s =
     abind (alift (validate_schedule (en_json E) s)) (\<lambda>_.
     abind (require_absent E KSchedule (s_id s) ''Schedule already exists'') (\<lambda>_.
     abind (schedule_event E ''schedule.created'' s (s_next_due_at s) (jobject [])) (\<lambda>e.
     abind (announce E (schedule_record s) e) (\<lambda>_. aret s))))"

definition update_schedule :: "env \<Rightarrow> schedule_definition \<Rightarrow> schedule_definition act" where
  "update_schedule E s =
     abind (alift (validate_schedule (en_json E) s)) (\<lambda>_.
     abind (abind (store_get E KSchedule (s_id s)) (decode_schedule E)) (\<lambda>old.
     timed E (\<lambda>now.
       let s' = s\<lparr>s_created_at := s_created_at old, s_updated_at := now\<rparr> in
       abind (schedule_event E ''schedule.updated'' s' (s_next_due_at s') (jobject [])) (\<lambda>e.
       abind (announce E (schedule_record s') e) (\<lambda>_. aret s')))))"

definition set_schedule_enabled :: "env \<Rightarrow> string \<Rightarrow> bool \<Rightarrow> unit act" where
  "set_schedule_enabled E rid enabled =
     abind (abind (store_get E KSchedule rid) (decode_schedule E)) (\<lambda>s.
     if s_deleted s \<and> enabled then athrow Conflict ''Deleted schedule cannot be enabled''
     else
       abind (if enabled \<and> s_next_due_at s = [] then
                (if s_type s = ''one_time'' then aret (s\<lparr>s_next_due_at := s_at s\<rparr>)
                 else
                   abind (clock_now E) (\<lambda>t.
                   abind (alift (next_schedule_due (en_json E) t s (format_utc_timestamp t))) (\<lambda>d.
                   aret (s\<lparr>s_next_due_at := d\<rparr>))))
              else aret s) (\<lambda>s.
       timed E (\<lambda>now.
         let s' = s\<lparr>s_enabled := enabled, s_updated_at := now\<rparr> in
         abind (schedule_event E (if enabled then ''schedule.enabled'' else ''schedule.disabled'') s' [] (jobject [])) (\<lambda>e.
         announce E ((schedule_record s')\<lparr>sr_id := rid\<rparr>) e))))"

definition delete_schedule :: "env \<Rightarrow> string \<Rightarrow> unit act" where
  "delete_schedule E rid =
     abind (abind (store_get E KSchedule rid) (decode_schedule E)) (\<lambda>s.
     timed E (\<lambda>now.
       let s' = s\<lparr>s_enabled := False, s_deleted := True, s_updated_at := now\<rparr> in
       abind (schedule_event E ''schedule.deleted'' s' [] (jobject [])) (\<lambda>e.
       announce E ((schedule_record s')\<lparr>sr_id := rid\<rparr>) e)))"

definition create_trigger :: "env \<Rightarrow> trigger_definition \<Rightarrow> trigger_definition act" where
  "create_trigger E t =
     abind (alift (validate_trigger (en_json E) t)) (\<lambda>_.
     abind (require_absent E KTrigger (t_id t) ''Trigger already exists'') (\<lambda>_.
     abind (default_event E) (\<lambda>none.
     abind (triggered_event E ''trigger.created'' t none (jobject [])) (\<lambda>e.
     abind (announce E (trigger_record t) e) (\<lambda>_. aret t)))))"

definition update_trigger :: "env \<Rightarrow> trigger_definition \<Rightarrow> trigger_definition act" where
  "update_trigger E t =
     abind (alift (validate_trigger (en_json E) t)) (\<lambda>_.
     abind (abind (store_get E KTrigger (t_id t)) (decode_trigger E)) (\<lambda>old.
     timed E (\<lambda>now.
       let t' = t\<lparr>t_created_at := t_created_at old, t_updated_at := now\<rparr> in
       abind (default_event E) (\<lambda>none.
       abind (triggered_event E ''trigger.updated'' t' none (jobject [])) (\<lambda>e.
       abind (announce E (trigger_record t') e) (\<lambda>_. aret t'))))))"

definition set_trigger_enabled :: "env \<Rightarrow> string \<Rightarrow> bool \<Rightarrow> unit act" where
  "set_trigger_enabled E rid enabled =
     abind (abind (store_get E KTrigger rid) (decode_trigger E)) (\<lambda>t.
     if t_deleted t \<and> enabled then athrow Conflict ''Deleted trigger cannot be enabled''
     else
       timed E (\<lambda>now.
         let t' = t\<lparr>t_enabled := enabled, t_updated_at := now\<rparr> in
         abind (default_event E) (\<lambda>none.
         abind (triggered_event E (if enabled then ''trigger.enabled'' else ''trigger.disabled'') t' none (jobject [])) (\<lambda>e.
         announce E ((trigger_record t')\<lparr>sr_id := rid\<rparr>) e))))"

definition delete_trigger :: "env \<Rightarrow> string \<Rightarrow> unit act" where
  "delete_trigger E rid =
     abind (abind (store_get E KTrigger rid) (decode_trigger E)) (\<lambda>t.
     timed E (\<lambda>now.
       let t' = t\<lparr>t_enabled := False, t_deleted := True, t_updated_at := now\<rparr> in
       abind (default_event E) (\<lambda>none.
       abind (triggered_event E ''trigger.deleted'' t' none (jobject [])) (\<lambda>e.
       announce E ((trigger_record t')\<lparr>sr_id := rid\<rparr>) e))))"

section \<open>Due schedules\<close>

definition settled :: "string \<Rightarrow> bool" where
  "settled status \<longleftrightarrow> status = ''started'' \<or> status = ''skipped'' \<or> status = ''failed''"

definition status_of :: "json_ops \<Rightarrow> json \<Rightarrow> string result" where
  "status_of J v = jvalue (get_string J) v ''status'' []"

fun scan_runs :: "json_ops \<Rightarrow> (run \<Rightarrow> bool) \<Rightarrow> json list \<Rightarrow> run option result" where
  "scan_runs J P [] = Inr None"
| "scan_runs J P (j # js) = rbind (run_from_json J j) (\<lambda>r. if P r then Inr (Some r) else scan_runs J P js)"

definition active_schedule_run :: "env \<Rightarrow> string \<Rightarrow> bool act" where
  "active_schedule_run E schedule_id =
     abind (store_list E KRun 10000) (\<lambda>runs.
     abind (alift (scan_runs (en_json E) (\<lambda>r. r_schedule_id r = schedule_id \<and> \<not> terminal (r_state r)) runs)) (\<lambda>found.
     aret (found \<noteq> None)))"

text \<open>
  What the store already says about an occurrence: nothing, that there is nothing left to do, or a
  record to continue from. A claim without a run was interrupted before its launch.
\<close>

datatype prior = Absent | Finished | Continue json

definition reconcile :: "env \<Rightarrow> int \<Rightarrow> string \<Rightarrow> json \<Rightarrow> prior act" where
  "reconcile E now occ existing =
     abind (alift (status_of (en_json E) existing)) (\<lambda>status.
     if settled status then aret Finished
     else if status = ''claimed'' then
       abind (store_list E KRun 10000) (\<lambda>runs.
       abind (alift (scan_runs (en_json E) (\<lambda>r. r_schedule_occurrence_id r = occ) runs)) (\<lambda>found.
       case found of
         Some r \<Rightarrow>
           abind (store_commit E [occurrence_record occ
               (jput ''updated_at'' (JStr (format_utc_timestamp now))
               (jput ''run_id'' (JStr (r_id r)) (jput ''status'' (JStr ''started'') existing)))]) (\<lambda>_. aret Finished)
       | None \<Rightarrow> aret (Continue (jput ''status'' (JStr ''pending'') existing))))
     else aret (Continue existing))"

definition prior_occurrence :: "env \<Rightarrow> int \<Rightarrow> string \<Rightarrow> prior act" where
  "prior_occurrence E now occ =
     atry (store_get E KScheduleOccurrence occ)
       (\<lambda>existing. atry (reconcile E now occ existing) aret
          (\<lambda>code m. if code \<noteq> NotFound then athrow code m else aret (Continue existing)))
       (\<lambda>code m. if code \<noteq> NotFound then athrow code m else aret Absent)"

definition claim_occurrence :: "env \<Rightarrow> int \<Rightarrow> schedule_definition \<Rightarrow> string \<Rightarrow> bool act" where
  "claim_occurrence E now s due =
     abind (prior_occurrence E now (occurrence_id s due)) (\<lambda>prior.
     case prior of
       Finished \<Rightarrow> aret False
     | Absent \<Rightarrow> store_claim E (occurrence_record (occurrence_id s due) (record_value ''claimed'' s due []))
     | Continue existing \<Rightarrow>
         abind (alift (status_of (en_json E) existing)) (\<lambda>status.
         aret (status = ''pending'' \<or> status = ''queued'')))"

text \<open>The loop past missed occurrences; the base is never empty, so no clock is read.\<close>

fun skip_missed :: "json_ops \<Rightarrow> int \<Rightarrow> nat \<Rightarrow> schedule_definition \<Rightarrow> schedule_definition result" where
  "skip_missed J now 0 s = Inr s"
| "skip_missed J now (Suc i) s =
     rbind (is_due (s_next_due_at s) now) (\<lambda>due.
     if \<not> due then Inr s
     else
       let s' = s\<lparr>s_missed_count := s_missed_count s + 1\<rparr> in
       rbind (next_schedule_due J now s' (s_next_due_at s')) (\<lambda>d.
       skip_missed J now i (s'\<lparr>s_next_due_at := d\<rparr>)))"

definition past_misfire :: "json_ops \<Rightarrow> int \<Rightarrow> schedule_definition \<Rightarrow> string \<Rightarrow> schedule_definition result" where
  "past_misfire J now s due =
     (let s1 = s\<lparr>s_last_due_at := due, s_missed_count := s_missed_count s + 1\<rparr>
      in if s_type s1 = ''one_time'' then Inr (s1\<lparr>s_enabled := False, s_next_due_at := []\<rparr>)
         else rbind (next_schedule_due J now s1 due) (\<lambda>d. skip_missed J now 10000 (s1\<lparr>s_next_due_at := d\<rparr>)))"

text \<open>The step to the next occurrence that every other branch makes.\<close>

definition step_schedule :: "json_ops \<Rightarrow> int \<Rightarrow> schedule_definition \<Rightarrow> string \<Rightarrow> schedule_definition result" where
  "step_schedule J now s due =
     rbind (if s_type s = ''one_time'' then Inr [] else next_schedule_due J now s due) (\<lambda>d.
       let s1 = s\<lparr>s_next_due_at := d\<rparr>;
           s2 = (if s_type s1 = ''one_time'' then s1\<lparr>s_enabled := False\<rparr> else s1)
       in Inr (s2\<lparr>s_updated_at := format_utc_timestamp now\<rparr>))"

definition settle :: "env \<Rightarrow> string \<Rightarrow> schedule_definition \<Rightarrow> string \<Rightarrow> string \<Rightarrow> event \<Rightarrow> unit act" where
  "settle E status s due run_id e =
     abind (store_commit E [schedule_record s,
              occurrence_record (occurrence_id s due) (record_value status s due run_id), event_record e]) (\<lambda>_.
     emit_event E e)"

definition misfire :: "env \<Rightarrow> int \<Rightarrow> schedule_definition \<Rightarrow> string \<Rightarrow> unit act" where
  "misfire E now s due =
     abind (alift (past_misfire (en_json E) now s due)) (\<lambda>s1.
     let s2 = s1\<lparr>s_updated_at := format_utc_timestamp now\<rparr> in
     abind (schedule_event E ''schedule.misfired'' s2 due
              (jobject [(''policy'', JStr (s_misfire_policy s2)), (''missed'', JUInt (unat (s_missed_count s2)))])) (\<lambda>e.
     settle E ''skipped'' s2 due [] e))"

definition overlap_skip :: "env \<Rightarrow> int \<Rightarrow> schedule_definition \<Rightarrow> string \<Rightarrow> unit act" where
  "overlap_skip E now s due =
     abind (alift (step_schedule (en_json E) now (s\<lparr>s_last_due_at := due\<rparr>) due)) (\<lambda>s'.
     abind (schedule_event E ''schedule.skipped'' s' due (jobject [(''reason'', JStr ''overlap'')])) (\<lambda>e.
     settle E ''skipped'' s' due [] e))"

definition overlap_queue :: "env \<Rightarrow> int \<Rightarrow> schedule_definition \<Rightarrow> string \<Rightarrow> unit act" where
  "overlap_queue E now s due =
     abind (alift (step_schedule (en_json E) now
              (s\<lparr>s_queued := True, s_queued_due_at := due, s_last_due_at := due\<rparr>) due)) (\<lambda>s'.
     abind (schedule_event E ''schedule.skipped'' s' due (jobject [(''reason'', JStr ''overlap_queued'')])) (\<lambda>e.
     settle E ''queued'' s' due [] e))"

definition schedule_request :: "schedule_definition \<Rightarrow> string \<Rightarrow> launch_request" where
  "schedule_request s due =
     \<lparr>lq_pipeline_id = s_pipeline_id s, lq_pipeline_version = s_pipeline_version s, lq_input = s_input s,
      lq_origin = jobject [(''initiation_type'', JStr ''schedule''), (''schedule_id'', JStr (s_id s)),
        (''schedule_occurrence_id'', JStr (occurrence_id s due)), (''due_at'', JStr due)]\<rparr>"

definition launch_failed :: "env \<Rightarrow> schedule_definition \<Rightarrow> string \<Rightarrow> nat \<Rightarrow> error_code \<Rightarrow> nat act" where
  "launch_failed E s due launches code =
     abind (store_commit E [occurrence_record (occurrence_id s due)
              (record_value (if code = Capacity then ''pending'' else ''failed'') s due [])]) (\<lambda>_.
     aret (if code \<noteq> Capacity then Suc launches else launches))"

text \<open>
  The guarded part ends with the emission of the event, so an error of the store after the launch is
  handled like one of the launch. The record of the failure carries \<open>updated_at\<close> as it was when the
  error came up.
\<close>

definition launch :: "env \<Rightarrow> int \<Rightarrow> schedule_definition \<Rightarrow> string \<Rightarrow> nat \<Rightarrow> nat act" where
  "launch E now s due launches =
     atry
       (abind (dispatch E (schedule_request s due)) (\<lambda>run_id.
        abind (alift (step_schedule (en_json E) now
                 (s\<lparr>s_queued := False, s_queued_due_at := [], s_last_due_at := due,
                    s_last_started_at := format_utc_timestamp now\<rparr>) due)) (\<lambda>s'.
        aret (run_id, s'))))
       (\<lambda>(run_id, s').
          atry
            (abind (schedule_event E ''schedule.run_created'' s' due (jobject [(''run_id'', JStr run_id)])) (\<lambda>e.
             settle E ''started'' s' due run_id e))
            (\<lambda>_. aret (Suc launches))
            (\<lambda>code m. launch_failed E s' due launches code))
       (\<lambda>code m. launch_failed E s due launches code)"

definition handle_occurrence :: "env \<Rightarrow> int \<Rightarrow> bool \<Rightarrow> schedule_definition \<Rightarrow> string \<Rightarrow> nat \<Rightarrow> nat act" where
  "handle_occurrence E now queued s due launches =
     abind (alift (is_late due now)) (\<lambda>late.
     if late \<and> s_misfire_policy s = ''SKIP'' then abind (misfire E now s due) (\<lambda>_. aret launches)
     else
       abind (if queued then aret False else active_schedule_run E (s_id s)) (\<lambda>active.
       if active \<and> s_overlap_policy s = ''SKIP'' then abind (overlap_skip E now s due) (\<lambda>_. aret launches)
       else if active \<and> s_overlap_policy s = ''QUEUE_ONE'' then abind (overlap_queue E now s due) (\<lambda>_. aret launches)
       else launch E now s due launches))"

definition process_schedule :: "env \<Rightarrow> int \<Rightarrow> json \<Rightarrow> nat \<Rightarrow> nat act" where
  "process_schedule E now record launches =
     abind (decode_schedule E record) (\<lambda>s.
     if s_deleted s \<or> (\<not> s_enabled s \<and> \<not> s_queued s) then aret launches
     else
       let due = (if s_queued s then s_queued_due_at s else s_next_due_at s) in
       abind (if s_queued s then aret True else alift (is_due due now)) (\<lambda>ready.
       if \<not> ready \<or> due = [] then aret launches
       else
         abind (claim_occurrence E now s due) (\<lambda>claimed.
         if \<not> claimed then aret launches else handle_occurrence E now (s_queued s) s due launches)))"

fun process_records :: "env \<Rightarrow> int \<Rightarrow> json list \<Rightarrow> nat \<Rightarrow> unit act" where
  "process_records E now [] launches = aret ()"
| "process_records E now (r # rs) launches =
     (if launches \<ge> unat (en_max_pending_launches E) then aret ()
      else abind (process_schedule E now r launches) (process_records E now rs))"

definition process_due :: "env \<Rightarrow> unit act" where
  "process_due E w =
     (if wd_stopped w then (Inr (), w)
      else
        abind (clock_now E) (\<lambda>now.
        abind (store_list E KSchedule (unat (en_max_pending_launches E + 1))) (\<lambda>records.
        process_records E now records 0)) w)"

section \<open>Triggers\<close>

fun follow :: "string list \<Rightarrow> json \<Rightarrow> json option" where
  "follow [] j = Some j"
| "follow (part # parts) j = (case j of JObj m \<Rightarrow> Option.bind (map_of m part) (follow parts) | _ \<Rightarrow> None)"

definition matches :: "json_ops \<Rightarrow> trigger_definition \<Rightarrow> event \<Rightarrow> bool" where
  "matches J t source \<longleftrightarrow>
     list_all (\<lambda>(key, expected).
       case follow (split_at (CHR ''.'') key) (ev_metadata source) of
         None \<Rightarrow> False | Some actual \<Rightarrow> same J actual expected) (json_items (t_match t))"

definition trigger_applies :: "trigger_definition \<Rightarrow> event \<Rightarrow> bool" where
  "trigger_applies t source \<longleftrightarrow> t_enabled t \<and> \<not> t_deleted t \<and> ev_id source \<noteq> [] \<and>
     \<not> ev_time source < t_created_at t \<and> t_event_type t = ev_type source"

definition delivery_id :: "trigger_definition \<Rightarrow> event \<Rightarrow> string" where
  "delivery_id t source = t_id t @ ''|'' @ ev_id source"

definition prior_delivery :: "env \<Rightarrow> string \<Rightarrow> prior act" where
  "prior_delivery E d =
     atry (abind (store_get E KTriggerDelivery d) (\<lambda>delivery.
           abind (alift (status_of (en_json E) delivery)) (\<lambda>status.
           aret (if settled status then Finished
                 else if status = ''pending'' \<or> status = ''claimed'' then Continue delivery else Absent))))
       aret (\<lambda>code m. if code \<noteq> NotFound then athrow code m else aret Absent)"

text \<open>The delivery to launch for, if it is this call's to make.\<close>

definition claim_delivery :: "env \<Rightarrow> trigger_definition \<Rightarrow> event \<Rightarrow> json option act" where
  "claim_delivery E t source =
     abind (prior_delivery E (delivery_id t source)) (\<lambda>prior.
     case prior of
       Finished \<Rightarrow> aret None
     | Continue delivery \<Rightarrow> aret (Some delivery)
     | Absent \<Rightarrow>
         timed E (\<lambda>now.
           let delivery = jobject [(''id'', JStr (delivery_id t source)), (''trigger_id'', JStr (t_id t)),
                 (''event_id'', JStr (ev_id source)), (''status'', JStr ''claimed''), (''updated_at'', JStr now)] in
           abind (store_claim E (delivery_record (delivery_id t source) delivery)) (\<lambda>claimed.
           aret (if claimed then Some delivery else None))))"

definition trigger_request :: "trigger_definition \<Rightarrow> event \<Rightarrow> launch_request" where
  "trigger_request t source =
     \<lparr>lq_pipeline_id = t_pipeline_id t, lq_pipeline_version = t_pipeline_version t,
      lq_input = jobject [(''event'', event_to_json source)],
      lq_origin = jobject [(''initiation_type'', JStr ''event''), (''trigger_id'', JStr (t_id t)),
        (''event_id'', JStr (ev_id source)), (''root_event_id'', JStr (root_event source)),
        (''trigger_depth'', JUInt (unat (ev_trigger_depth source + 1)))]\<rparr>"

text \<open>
  The handler of a failed launch sees the delivery as far as it had been changed; since it overwrites
  the status and the time, only the run identifier of a launch that went through remains.
\<close>

definition delivery_failed :: "env \<Rightarrow> string \<Rightarrow> json \<Rightarrow> error_code \<Rightarrow> unit act" where
  "delivery_failed E d delivery code =
     timed E (\<lambda>now.
       store_commit E [delivery_record d (jput ''updated_at'' (JStr now)
         (jput ''status'' (JStr (if code = Capacity then ''pending'' else ''failed'')) delivery))])"

definition trigger_launch :: "env \<Rightarrow> trigger_definition \<Rightarrow> event \<Rightarrow> json \<Rightarrow> unit act" where
  "trigger_launch E t source delivery =
     atry (dispatch E (trigger_request t source))
       (\<lambda>run_id.
          let d1 = jput ''run_id'' (JStr run_id) (jput ''status'' (JStr ''started'') delivery) in
          atry
            (timed E (\<lambda>now.
               abind (triggered_event E ''trigger.run_created'' t source (jobject [(''run_id'', JStr run_id)])) (\<lambda>e.
               abind (store_commit E [delivery_record (delivery_id t source) (jput ''updated_at'' (JStr now) d1),
                        event_record e]) (\<lambda>_.
               emit_event E e))))
            aret
            (\<lambda>code m. delivery_failed E (delivery_id t source) d1 code))
       (\<lambda>code m. delivery_failed E (delivery_id t source) delivery code)"

definition process_trigger :: "env \<Rightarrow> trigger_definition \<Rightarrow> event \<Rightarrow> unit act" where
  "process_trigger E t source =
     (if \<not> trigger_applies t source \<or> \<not> matches (en_json E) t source then aret ()
      else if ev_trigger_depth source \<ge> en_max_trigger_depth E then
        abind (triggered_event E ''trigger.skipped'' t source (jobject [(''reason'', JStr ''depth'')])) (emit_event E)
      else
        abind (claim_delivery E t source) (\<lambda>delivery.
        case delivery of None \<Rightarrow> aret () | Some d \<Rightarrow> trigger_launch E t source d))"

definition replay_delivery :: "env \<Rightarrow> json \<Rightarrow> unit act" where
  "replay_delivery E record =
     abind (alift (status_of (en_json E) record)) (\<lambda>status.
     awhen (status = ''pending'')
       (ignoring
         (abind (abind (alift (jvalue (get_string (en_json E)) record ''trigger_id'' []))
                   (\<lambda>i. abind (store_get E KTrigger i) (decode_trigger E))) (\<lambda>t.
          abind (abind (alift (jvalue (get_string (en_json E)) record ''event_id'' []))
                   (\<lambda>i. abind (store_get E KEvent i) (decode_event E))) (\<lambda>e.
          process_trigger E t e)))))"

definition replay_pending_deliveries :: "env \<Rightarrow> unit act" where
  "replay_pending_deliveries E w =
     (if wd_stopped w then (Inr (), w)
      else
        abind (store_list E KTriggerDelivery (unat (en_max_event_deliveries E))) (\<lambda>records.
        afor records (replay_delivery E)) w)"

section \<open>The wake timer\<close>

definition earliest_due :: "env \<Rightarrow> json list \<Rightarrow> int option act" where
  "earliest_due E records =
     foldr (\<lambda>record rest earliest.
         abind (decode_schedule E record) (\<lambda>s.
         if s_deleted s \<or> \<not> s_enabled s \<or> s_next_due_at s = [] then rest earliest
         else
           abind (alift (parse_utc_timestamp (s_next_due_at s))) (\<lambda>due.
           rest (case earliest of None \<Rightarrow> Some due | Some t \<Rightarrow> Some (if due < t then due else t)))))
       records aret None"

fun any_pending :: "json_ops \<Rightarrow> json list \<Rightarrow> bool result" where
  "any_pending J [] = Inr False"
| "any_pending J (r # rs) =
     rbind (status_of J r) (\<lambda>status. if status = ''pending'' then Inr True else any_pending J rs)"

definition wake_delay :: "env \<Rightarrow> bool \<Rightarrow> int \<Rightarrow> int act" where
  "wake_delay E pending earliest =
     (if pending then aret 1000
      else
        abind (clock_now E) (\<lambda>t.
        if earliest \<le> t then aret 1
        else abind (clock_now E) (\<lambda>t'. abind (alift (wall (earliest - t'))) (\<lambda>d. aret (tdiv d 1000000)))))"

definition arm :: "env \<Rightarrow> unit act" where
  "arm E w =
     (if wd_stopped w then (Inr (), w)
      else
        abind (replay_pending_deliveries E) (\<lambda>_.
        abind (abind (store_list E KSchedule (unat (en_max_pending_launches E + 1))) (earliest_due E)) (\<lambda>earliest.
        abind (abind (store_list E KTriggerDelivery (unat (en_max_event_deliveries E)))
                 (\<lambda>rs. alift (any_pending (en_json E) rs))) (\<lambda>pending_delivery.
        abind (abind (store_list E KScheduleOccurrence (unat (en_max_pending_launches E)))
                 (\<lambda>rs. alift (any_pending (en_json E) rs))) (\<lambda>pending_schedule.
        if earliest = None \<and> \<not> pending_delivery \<and> \<not> pending_schedule
        then modify (\<lambda>w. w\<lparr>wd_timer := None\<rparr>)
        else
          abind (wake_delay E (pending_delivery \<or> pending_schedule) (case earliest of None \<Rightarrow> 0 | Some t \<Rightarrow> t)) (\<lambda>delay.
          modify (\<lambda>w. w\<lparr>wd_timer := Some (max delay 1)\<rparr>)))))) w)"

section \<open>Events\<close>

definition receive_event :: "env \<Rightarrow> event \<Rightarrow> unit act" where
  "receive_event E e =
     modify (\<lambda>w.
       if wd_stopped w \<or> \<not> wd_started w then w
       else if wd_pending w \<ge> unat (en_max_event_deliveries E) then w
       else w\<lparr>wd_pending := Suc (wd_pending w), wd_posted := wd_posted w @ [EventTask e]\<rparr>)"

definition replay_events :: "env \<Rightarrow> unit act" where
  "replay_events E w =
     (if wd_stopped w then (Inr (), w)
      else
        abind (store_list E KEvent (unat (en_max_event_deliveries E))) (\<lambda>records.
        afor records (\<lambda>record. ignoring (abind (decode_event E record) (receive_event E)))) w)"

definition run_ended :: "string \<Rightarrow> bool" where
  "run_ended type \<longleftrightarrow> type = ''run.completed'' \<or> type = ''run.failed'' \<or> type = ''run.cancelled'' \<or> type = ''run.timed_out''"

definition reconcile_completion :: "env \<Rightarrow> event \<Rightarrow> unit act" where
  "reconcile_completion E e =
     abind (abind (store_get E KRun (ev_run_id e)) (\<lambda>v. alift (run_from_json (en_json E) v))) (\<lambda>r.
     awhen (r_schedule_id r \<noteq> [])
       (abind (abind (store_get E KSchedule (r_schedule_id r)) (decode_schedule E)) (\<lambda>s.
        abind (if s_queued s then active_schedule_run E (s_id s) else aret True) (\<lambda>blocked.
        let s1 = s\<lparr>s_last_completed_run_id := r_id r\<rparr>;
            s2 = (if blocked then s1 else s1\<lparr>s_next_due_at := s_queued_due_at s1, s_queued := False, s_queued_due_at := []\<rparr>)
        in timed E (\<lambda>now.
             abind (store_commit E [schedule_record (s2\<lparr>s_updated_at := now\<rparr>)]) (\<lambda>_. wake))))))"

definition handle_event :: "env \<Rightarrow> event \<Rightarrow> unit act" where
  "handle_event E e w =
     (let w = w\<lparr>wd_pending := wd_pending w - 1\<rparr>
      in if wd_stopped w then (Inr (), w)
         else
           abind (store_list E KTrigger (unat (en_max_event_deliveries E))) (\<lambda>records.
           abind (afor records (\<lambda>record. ignoring (abind (decode_trigger E record) (\<lambda>t. process_trigger E t e)))) (\<lambda>_.
           abind (awhen (run_ended (ev_type e)) (ignoring (reconcile_completion E e))) (\<lambda>_.
           arm E))) w)"

section \<open>Tasks\<close>

definition start :: "unit act" where
  "start = modify (\<lambda>w. if wd_started w \<or> wd_stopped w then w
     else w\<lparr>wd_started := True, wd_posted := wd_posted w @ [StartTask]\<rparr>)"

text \<open>Stopping is final: posted tasks find the flag set, and the timer's wait is cancelled.\<close>

definition stop :: "unit act" where
  "stop = modify (\<lambda>w. if wd_stopped w then w else w\<lparr>wd_stopped := True, wd_timer := None\<rparr>)"

fun run_task :: "env \<Rightarrow> sched_task \<Rightarrow> unit act" where
  "run_task E StartTask = abind (replay_events E) (\<lambda>_. abind (process_due E) (\<lambda>_. arm E))"
| "run_task E WakeTask = abind (modify (\<lambda>w. w\<lparr>wd_timer := None\<rparr>)) (\<lambda>_. arm E)"
| "run_task E (EventTask e) = handle_event E e"

definition run_posted :: "env \<Rightarrow> unit act" where
  "run_posted E w =
     (case wd_posted w of [] \<Rightarrow> (Inr (), w) | t # ts \<Rightarrow> run_task E t (w\<lparr>wd_posted := ts\<rparr>))"

definition timer_expired :: "env \<Rightarrow> unit act" where
  "timer_expired E w =
     (if wd_timer w = None \<or> wd_stopped w then (Inr (), w)
      else abind (process_due E) (\<lambda>_. abind (replay_pending_deliveries E) (\<lambda>_. arm E)) (w\<lparr>wd_timer := None\<rparr>))"

datatype sched_op =
    CreateSchedule schedule_definition | UpdateSchedule schedule_definition
  | SetScheduleEnabled string bool | DeleteSchedule string
  | CreateTrigger trigger_definition | UpdateTrigger trigger_definition
  | SetTriggerEnabled string bool | DeleteTrigger string
  | Start | Stop | ReceiveEvent event | RunPosted | TimerExpired | ProcessDue

text \<open>Everything that can happen to a scheduler; results other than the state are dropped.\<close>

fun sched_step :: "env \<Rightarrow> sched_op \<Rightarrow> world \<Rightarrow> world" where
  "sched_step E (CreateSchedule s) w = snd (create_schedule E s w)"
| "sched_step E (UpdateSchedule s) w = snd (update_schedule E s w)"
| "sched_step E (SetScheduleEnabled rid b) w = snd (set_schedule_enabled E rid b w)"
| "sched_step E (DeleteSchedule rid) w = snd (delete_schedule E rid w)"
| "sched_step E (CreateTrigger t) w = snd (create_trigger E t w)"
| "sched_step E (UpdateTrigger t) w = snd (update_trigger E t w)"
| "sched_step E (SetTriggerEnabled rid b) w = snd (set_trigger_enabled E rid b w)"
| "sched_step E (DeleteTrigger rid) w = snd (delete_trigger E rid w)"
| "sched_step E Start w = snd (start w)"
| "sched_step E Stop w = snd (stop w)"
| "sched_step E (ReceiveEvent e) w = snd (receive_event E e w)"
| "sched_step E RunPosted w = snd (run_posted E w)"
| "sched_step E TimerExpired w = snd (timer_expired E w)"
| "sched_step E ProcessDue w = snd (process_due E w)"

end
