(* ===== verification/Laso_Scheduler_Guarantees.thy ===== *)
theory Laso_Scheduler_Guarantees
  imports Laso_Scheduler "HOL-Library.Sublist"
begin

text \<open>
  What the durable scheduler guarantees: which predicates of the world its actions keep, as a
  hierarchy of interfaces (predicates that ignore the bookkeeping, writers of definitions, settlers of
  occurrences, launchers) with the consequences for every operation of the scheduler, and their
  instances: bounded trigger chains, a stopped scheduler, settled work, the log of launches. The last
  section is about launches that go wrong.
\<close>

section \<open>What the scheduler's actions keep\<close>

text \<open>
  A predicate that does not look at the clock, the events, the timer and the posted tasks.
\<close>

locale stored_and_launched =
  fixes P :: "world \<Rightarrow> bool"
  assumes tick: "P (w\<lparr>wd_tick := n\<rparr>) = P w"
    and emitted: "P (w\<lparr>wd_emitted := es\<rparr>) = P w"
    and posted: "P (w\<lparr>wd_posted := ts\<rparr>) = P w"
    and timer: "P (w\<lparr>wd_timer := d\<rparr>) = P w"
    and pending: "P (w\<lparr>wd_pending := k\<rparr>) = P w"
begin

lemma keeps_tick: "keeps P Laso_Scheduler.tick"
  by (simp add: keeps_def Laso_Scheduler.tick_def tick)

lemma keeps_ticked: "(\<And>n. keeps P (f n)) \<Longrightarrow> keeps P (abind Laso_Scheduler.tick f)"
  using keeps_tick by (rule keeps_abind)

lemma keeps_reads:
  "keeps P (clock_now E)" "keeps P (store_get E kind rid)" "keeps P (store_list E kind limit)"
  "keeps P (decode_schedule E j)" "keeps P (decode_trigger E j)" "keeps P (decode_event E j)"
  "keeps P (schedule_event E type s due extra)" "keeps P (triggered_event E type t source extra)"
  "keeps P (default_event E)" "keeps P (emit_event E e)" "keeps P wake"
  unfolding clock_now_def store_get_def store_list_def decode_schedule_def decode_trigger_def decode_event_def
    schedule_event_def triggered_event_def default_event_def emit_event_def wake_def
  by (simp_all add: keeps_def abind_def Laso_Scheduler.tick_def aret_def alift_def modify_def tick emitted posted)

lemma keeps_timed: "(\<And>now. keeps P (f now)) \<Longrightarrow> keeps P (timed E f)"
  unfolding timed_def by (auto intro: keeps_rules keeps_reads)

end

text \<open>Definitions of schedules and triggers and events may be written at any time.\<close>

definition administrative :: "store_record \<Rightarrow> bool" where
  "administrative r \<longleftrightarrow> sr_kind r = KSchedule \<or> sr_kind r = KTrigger \<or> sr_kind r = KEvent"

lemma administrative_records [simp]:
  "administrative (schedule_record s)" "administrative (trigger_record t)" "administrative (event_record e)"
  "administrative (r\<lparr>sr_id := i\<rparr>) = administrative r"
  by (simp_all add: administrative_def schedule_record_def trigger_record_def event_record_def)

locale writing_actions = stored_and_launched +
  fixes E :: env
  assumes keeps_admin: "list_all administrative records \<Longrightarrow> keeps P (store_commit E records)"
begin

lemma keeps_announce: "administrative r \<Longrightarrow> keeps P (announce E r e)"
  unfolding announce_def by (intro keeps_rules keeps_reads keeps_admin) simp_all

lemmas keeps_parts = keeps_rules keeps_reads keeps_timed keeps_announce

lemma keeps_schedule_ops:
  "keeps P (create_schedule E s)" "keeps P (update_schedule E s)"
  "keeps P (set_schedule_enabled E rid b)" "keeps P (delete_schedule E rid)"
  unfolding create_schedule_def update_schedule_def set_schedule_enabled_def delete_schedule_def
    require_absent_def Let_def
  by (intro keeps_parts; simp)+

lemma keeps_trigger_ops:
  "keeps P (create_trigger E t)" "keeps P (update_trigger E t)"
  "keeps P (set_trigger_enabled E rid b)" "keeps P (delete_trigger E rid)"
  unfolding create_trigger_def update_trigger_def set_trigger_enabled_def delete_trigger_def
    require_absent_def Let_def
  by (intro keeps_parts; simp)+

lemma keeps_active_schedule_run: "keeps P (active_schedule_run E i)"
  unfolding active_schedule_run_def by (intro keeps_parts)

lemma keeps_reconcile_completion: "keeps P (reconcile_completion E e)"
  unfolding reconcile_completion_def Let_def
  by (intro keeps_parts keeps_active_schedule_run keeps_admin; simp)

lemma keeps_receive_event: "keeps P (receive_event E e)"
  unfolding receive_event_def by (rule keeps_modify) (simp add: posted pending)

lemma keeps_replay_events: "keeps P (replay_events E)"
  unfolding replay_events_def by (intro keeps_unless keeps_parts keeps_receive_event)

lemma keeps_earliest_due: "keeps P (earliest_due E records)"
proof -
  have "keeps P (foldr (\<lambda>record rest earliest.
         abind (decode_schedule E record) (\<lambda>s.
         if s_deleted s \<or> \<not> s_enabled s \<or> s_next_due_at s = [] then rest earliest
         else
           abind (alift (parse_utc_timestamp (s_next_due_at s))) (\<lambda>due.
           rest (case earliest of None \<Rightarrow> Some due | Some t \<Rightarrow> Some (if due < t then due else t)))))
       records aret t)" for t
    by (induction records arbitrary: t) (auto intro!: keeps_parts)
  then show ?thesis by (simp add: earliest_due_def)
qed

lemma keeps_wake_delay: "keeps P (wake_delay E b t)"
  unfolding wake_delay_def by (intro keeps_parts)

end

text \<open>
  Which occurrences and deliveries may be written, and which requests launched, is what a client
  instantiates; the laws say that the scheduler only gets there by reading or claiming the record.
\<close>

locale settling_actions = writing_actions +
  fixes writable :: "record_kind \<Rightarrow> string \<Rightarrow> bool"
  assumes keeps_writable:
      "(\<And>r. r \<in> set records \<Longrightarrow> administrative r \<or> writable (sr_kind r) (sr_id r)) \<Longrightarrow> keeps P (store_commit E records)"
    and keeps_claim: "keeps P (store_claim E r)"
    and open_occurrence:
      "P w \<Longrightarrow> store_get E KScheduleOccurrence occ w = (Inr v, w') \<Longrightarrow> status_of (en_json E) v = Inr status \<Longrightarrow>
       \<not> settled status \<Longrightarrow> writable KScheduleOccurrence occ"
begin

lemma keeps_reconcile:
  assumes "\<And>status. status_of (en_json E) v = Inr status \<Longrightarrow> \<not> settled status \<Longrightarrow> writable KScheduleOccurrence occ"
  shows "keeps P (reconcile E now occ v)"
proof -
  have "keeps P (store_commit E [occurrence_record occ x])"
    if "status_of (en_json E) v = Inr status" "\<not> settled status" for x status
    using assms [OF that] by (intro keeps_writable) (simp add: occurrence_record_def)
  then show ?thesis
    unfolding reconcile_def
    by (intro keeps_abind_result keeps_parts; (simp add: alift_def split: option.split)?; (intro keeps_parts)?)
qed


lemma keeps_prior_occurrence: "keeps P (prior_occurrence E now occ)"
  unfolding prior_occurrence_def
  by (rule keeps_atry_result)
    (use open_occurrence in \<open>auto intro!: keeps_parts keeps_reconcile\<close>)

lemma keeps_claim_occurrence: "keeps P (claim_occurrence E now s due)"
  unfolding claim_occurrence_def
  by (intro keeps_parts keeps_prior_occurrence) (auto intro!: keeps_parts keeps_claim split: prior.split)

text \<open>From here on the occurrence is this pass's to write.\<close>

lemma keeps_settle:
  "writable KScheduleOccurrence (occurrence_id s due) \<Longrightarrow> keeps P (settle E status s due run_id e)"
  unfolding settle_def
  by (intro keeps_parts keeps_writable) (auto simp: occurrence_record_def)

lemma keeps_launch_failed:
  "writable KScheduleOccurrence (occurrence_id s due) \<Longrightarrow> keeps P (launch_failed E s due launches code)"
  unfolding launch_failed_def
  by (intro keeps_parts keeps_writable) (auto simp: occurrence_record_def)

end

lemma same_schedule_id [simp]:
  "step_schedule J now s due = Inr s' \<Longrightarrow> s_id s' = s_id s"
  by (auto simp: step_schedule_def Let_def elim!: rbindE)

lemma skip_missed_id: "skip_missed J now i s = Inr s' \<Longrightarrow> s_id s' = s_id s"
proof (induction i arbitrary: s)
  case 0
  then show ?case by simp
next
  case (Suc i)
  then show ?case by (auto simp: Let_def elim!: rbindE split: if_splits dest!: Suc.IH)
qed

lemma past_misfire_id [simp]: "past_misfire J now s due = Inr s' \<Longrightarrow> s_id s' = s_id s"
  by (auto simp: past_misfire_def Let_def elim!: rbindE split: if_splits dest!: skip_missed_id)

lemma occurrence_id_cong: "s_id s' = s_id s \<Longrightarrow> occurrence_id s' due = occurrence_id s due"
  by (simp add: occurrence_id_def)

context settling_actions begin

lemma keeps_outcomes:
  assumes "writable KScheduleOccurrence (occurrence_id s due)"
  shows "keeps P (misfire E now s due)" "keeps P (overlap_skip E now s due)" "keeps P (overlap_queue E now s due)"
proof -
  have kept: "keeps P (settle E status s' due run_id e)" if "s_id s' = s_id s" for status s' run_id e
    using assms occurrence_id_cong [OF that] by (intro keeps_settle) simp
  show "keeps P (misfire E now s due)"
    unfolding misfire_def Let_def
    by (rule keeps_abind_result) (auto simp: alift_def intro!: keeps_parts kept)
  show "keeps P (overlap_skip E now s due)" "keeps P (overlap_queue E now s due)"
    unfolding overlap_skip_def overlap_queue_def
    by (rule keeps_abind_result; auto simp: alift_def intro!: keeps_parts kept dest: same_schedule_id)+
qed

lemma keeps_claim_delivery: "keeps P (claim_delivery E t source)"
  unfolding claim_delivery_def prior_delivery_def Let_def
  by (intro keeps_parts) (auto intro!: keeps_parts keeps_claim split: prior.split)

end

locale launching_actions = settling_actions +
  fixes launchable :: "launch_request \<Rightarrow> bool"
  assumes flags: "P (w\<lparr>wd_started := b\<rparr>) = P w" "P (w\<lparr>wd_stopped := b\<rparr>) = P w"
    and keeps_dispatch: "launchable q \<Longrightarrow> keeps P (dispatch E q)"
    and claimed_occurrence:
      "P w \<Longrightarrow> claim_occurrence E now s due w = (Inr True, w') \<Longrightarrow>
       writable KScheduleOccurrence (occurrence_id s due) \<and> launchable (schedule_request s due)"
    and claimed_delivery:
      "P w \<Longrightarrow> claim_delivery E t source w = (Inr (Some d), w') \<Longrightarrow> ev_trigger_depth source < en_max_trigger_depth E \<Longrightarrow>
       writable KTriggerDelivery (delivery_id t source) \<and> launchable (trigger_request t source)"
begin

lemma keeps_launch:
  assumes "writable KScheduleOccurrence (occurrence_id s due)" and "launchable (schedule_request s due)"
  shows "keeps P (launch E now s due launches)"
proof -
  have id: "s_id s' = s_id s"
    if "abind (dispatch E q) (\<lambda>run_id. abind (alift (step_schedule (en_json E) now
          (s\<lparr>s_queued := False, s_queued_due_at := [], s_last_due_at := due,
             s_last_started_at := format_utc_timestamp now\<rparr>) due)) (\<lambda>s'. aret (run_id, s'))) w = (Inr (run_id, s'), w')"
    for q w run_id s' w'
    using that by (auto simp: abind_def alift_def aret_def split: prod.splits sum.splits dest!: same_schedule_id)
  have finish: "keeps P (atry
      (abind (schedule_event E type s' due extra) (\<lambda>e. settle E status s' due run_id e))
      (\<lambda>_. aret k) (\<lambda>code m. launch_failed E s' due launches code))"
    if "s_id s' = s_id s" for type s' extra status run_id k
    using assms(1) occurrence_id_cong [OF that] by (intro keeps_parts keeps_settle keeps_launch_failed) simp_all
  show ?thesis
    unfolding launch_def
  proof (rule keeps_atry_result)
    show "keeps P (abind (dispatch E (schedule_request s due)) (\<lambda>run_id. abind (alift (step_schedule (en_json E) now
          (s\<lparr>s_queued := False, s_queued_due_at := [], s_last_due_at := due,
             s_last_started_at := format_utc_timestamp now\<rparr>) due)) (\<lambda>s'. aret (run_id, s'))))"
      by (intro keeps_parts keeps_dispatch assms)
  qed (use assms(1) in \<open>auto intro!: finish keeps_launch_failed dest!: id\<close>)
qed

lemma keeps_handle_occurrence:
  assumes "writable KScheduleOccurrence (occurrence_id s due)" and "launchable (schedule_request s due)"
  shows "keeps P (handle_occurrence E now queued s due launches)"
  unfolding handle_occurrence_def
  by (intro keeps_parts keeps_outcomes keeps_launch keeps_active_schedule_run assms)

lemma keeps_process_schedule: "keeps P (process_schedule E now record launches)"
proof -
  have claimed: "keeps P (abind (claim_occurrence E now s due) (\<lambda>claimed.
      if \<not> claimed then aret launches else handle_occurrence E now (s_queued s) s due launches))" for s due
    by (rule keeps_abind_result)
      (auto intro!: keeps_claim_occurrence keeps_parts keeps_handle_occurrence dest: claimed_occurrence)
  show ?thesis
    unfolding process_schedule_def Let_def by (intro claimed keeps_parts)
qed

lemma keeps_process_records: "keeps P (process_records E now records launches)"
  by (induction records arbitrary: launches) (auto intro!: keeps_parts keeps_process_schedule)

lemma keeps_process_due: "keeps P (process_due E)"
  unfolding process_due_def by (intro keeps_unless keeps_parts keeps_process_records)

lemma keeps_trigger_launch:
  assumes "writable KTriggerDelivery (delivery_id t source)" and "launchable (trigger_request t source)"
  shows "keeps P (trigger_launch E t source d)"
  unfolding trigger_launch_def delivery_failed_def Let_def
  by (intro keeps_parts keeps_dispatch keeps_writable; use assms in \<open>auto simp: delivery_record_def\<close>)

lemma keeps_process_trigger: "keeps P (process_trigger E t source)"
proof (cases "en_max_trigger_depth E \<le> ev_trigger_depth source")
  case True
  then show ?thesis by (simp add: process_trigger_def keeps_parts)
next
  case False
  have "keeps P (abind (claim_delivery E t source) (\<lambda>delivery.
        case delivery of None \<Rightarrow> aret () | Some d \<Rightarrow> trigger_launch E t source d))"
    using False
    by (intro keeps_abind_result)
      (auto intro!: keeps_claim_delivery keeps_parts keeps_trigger_launch dest: claimed_delivery split: option.split)
  with False show ?thesis by (simp add: process_trigger_def keeps_parts)
qed

lemma keeps_replay_pending: "keeps P (replay_pending_deliveries E)"
  unfolding replay_pending_deliveries_def replay_delivery_def
  by (intro keeps_unless keeps_parts keeps_process_trigger)

lemma keeps_arm: "keeps P (arm E)"
  unfolding arm_def
  by (intro keeps_unless keeps_parts keeps_replay_pending keeps_earliest_due keeps_wake_delay keeps_modify)
    (simp_all add: timer)

lemma keeps_handle_event: "keeps P (handle_event E e)"
proof -
  have "keeps P (abind (store_list E KTrigger (unat (en_max_event_deliveries E))) (\<lambda>records.
      abind (afor records (\<lambda>record. ignoring (abind (decode_trigger E record) (\<lambda>t. process_trigger E t e)))) (\<lambda>_.
      abind (awhen (run_ended (ev_type e)) (ignoring (reconcile_completion E e))) (\<lambda>_. arm E))))"
    by (intro keeps_parts keeps_process_trigger keeps_reconcile_completion keeps_arm)
  then show ?thesis by (simp add: keeps_def handle_event_def Let_def pending)
qed

lemma keeps_run_task: "keeps P (run_task E task)"
  by (cases task)
    (auto intro!: keeps_parts keeps_replay_events keeps_process_due keeps_arm keeps_handle_event keeps_modify
      simp: timer)

lemma keeps_timer_expired: "keeps P (timer_expired E)"
proof -
  have "keeps P (abind (process_due E) (\<lambda>_. abind (replay_pending_deliveries E) (\<lambda>_. arm E)))"
    by (intro keeps_parts keeps_process_due keeps_replay_pending keeps_arm)
  then show ?thesis by (simp add: keeps_def timer_expired_def timer)
qed

lemma keeps_run_posted: "keeps P (run_posted E)"
  using keeps_run_task by (auto simp: keeps_def run_posted_def posted split: list.split)

lemma keeps_lifecycle: "keeps P start" "keeps P stop"
  unfolding start_def stop_def by (auto intro!: keeps_modify simp: flags posted timer)

lemma step_kept: "P w \<Longrightarrow> P (sched_step E op w)"
  by (cases op)
    (auto intro: keepsD keeps_schedule_ops keeps_trigger_ops keeps_receive_event keeps_run_posted
      keeps_timer_expired keeps_process_due keeps_lifecycle)

lemma history_kept: "P w \<Longrightarrow> P (fold (sched_step E) ops w)"
  by (rule fold_step_invariant) (auto intro: step_kept)

end

section \<open>Predicates the whole scheduler keeps\<close>

text \<open>The causal depth a launch request carries, if it was caused by an event.\<close>

definition depth_bounded :: "u32 \<Rightarrow> launch_request \<Rightarrow> bool" where
  "depth_bounded limit q \<longleftrightarrow>
     (case jat (lq_origin q) ''trigger_depth'' of Inr (JUInt d) \<Rightarrow> d \<le> unat limit | _ \<Rightarrow> True)"

definition all_bounded :: "env \<Rightarrow> world \<Rightarrow> bool" where
  "all_bounded E w \<longleftrightarrow> filter (\<lambda>l. \<not> depth_bounded (en_max_trigger_depth E) (fst l)) (wd_launched w) = []"

lemma store_commit_world: "snd (store_commit E records w) =
    w\<lparr>wd_tick := Suc (wd_tick w), wd_store := snd (commit (en_json E) (en_uuid E (wd_tick w)) (en_timestamp E (wd_tick w))
        (en_timestamp E (wd_tick w)) (en_fault E (wd_tick w)) records (wd_store w))\<rparr>"
  by (simp add: store_commit_def abind_def tick_def case_prod_unfold Let_def)

lemma store_claim_world: "snd (store_claim E r w) =
    w\<lparr>wd_tick := Suc (wd_tick w),
      wd_store := snd (claim (en_json E) (en_fault E (wd_tick w)) r [] (wd_store w))\<rparr>"
  by (simp add: store_claim_def abind_def tick_def case_prod_unfold Let_def)

lemma dispatch_world: "snd (dispatch E q w) =
    (let (r, st) = en_dispatch E (wd_tick w) q (wd_store w)
     in w\<lparr>wd_tick := Suc (wd_tick w), wd_store := st, wd_launched := wd_launched w @ [(q, r)]\<rparr>)"
  by (simp add: dispatch_def abind_def tick_def case_prod_unfold Let_def)

lemma word_Suc_le: "unat (d + 1) \<le> unat m" if "d < m" for d m :: u32
proof -
  have "d + 1 \<le> m" using that by (rule inc_le)
  then show ?thesis by (simp add: word_le_nat_alt)
qed

lemma trigger_request_bounded:
  "ev_trigger_depth source < m \<Longrightarrow> depth_bounded m (trigger_request t source)"
  by (simp add: depth_bounded_def trigger_request_def word_Suc_le)

interpretation chain: launching_actions "all_bounded E" E "\<lambda>_ _. True" "depth_bounded (en_max_trigger_depth E)"
proof unfold_locales
  show "depth_bounded (en_max_trigger_depth E) q \<Longrightarrow> keeps (all_bounded E) (dispatch E q)" for q
    by (simp add: keeps_def dispatch_world all_bounded_def case_prod_unfold Let_def)
  show "True \<and> depth_bounded (en_max_trigger_depth E) (schedule_request s due)" for s due
    by (simp add: depth_bounded_def schedule_request_def)
qed (simp_all add: all_bounded_def keeps_def store_commit_world store_claim_world trigger_request_bounded)

text \<open>A stopped scheduler and what it had launched.\<close>

definition halted :: "(launch_request \<times> string result) list \<Rightarrow> world \<Rightarrow> bool" where
  "halted L w \<longleftrightarrow> wd_stopped w \<and> wd_launched w = L"

interpretation halt: writing_actions "halted L" E
  by unfold_locales (simp_all add: halted_def keeps_def store_commit_world)

lemma halted_returns:
  assumes "halted L w"
  shows "process_due E w = (Inr (), w)" "replay_pending_deliveries E w = (Inr (), w)" "arm E w = (Inr (), w)"
    "replay_events E w = (Inr (), w)" "timer_expired E w = (Inr (), w)"
    "handle_event E e w = (Inr (), w\<lparr>wd_pending := wd_pending w - 1\<rparr>)"
  using assms
  by (simp_all add: halted_def process_due_def replay_pending_deliveries_def arm_def replay_events_def
      timer_expired_def handle_event_def)

lemma halted_run_task: "halted L w \<Longrightarrow> halted L (snd (run_task E task w))"
  by (cases task) (simp_all add: abind_def modify_def halted_returns halt.pending,
      simp add: halted_def arm_def)

lemma halted_lifecycle: "halted L w \<Longrightarrow> halted L (snd (start w))" "halted L w \<Longrightarrow> halted L (snd (stop w))"
  by (simp_all add: start_def stop_def modify_def halted_def)

lemma halted_step: "halted L w \<Longrightarrow> halted L (sched_step E op w)"
proof (cases op)
  case RunPosted
  then show "halted L w \<Longrightarrow> ?thesis"
    using halted_run_task [of L "w\<lparr>wd_posted := tl (wd_posted w)\<rparr>"]
    by (auto simp: run_posted_def halt.posted split: list.split)
qed (auto simp: halted_returns halted_lifecycle intro: keepsD halt.keeps_schedule_ops halt.keeps_trigger_ops halt.keeps_receive_event)

text \<open>The occurrence or the delivery a launch request is made for.\<close>

definition request_key :: "launch_request \<Rightarrow> (record_kind \<times> string) option" where
  "request_key q =
     (case jat (lq_origin q) ''schedule_occurrence_id'' of
        Inr (JStr occ) \<Rightarrow> Some (KScheduleOccurrence, occ)
      | _ \<Rightarrow>
          (case (jat (lq_origin q) ''trigger_id'', jat (lq_origin q) ''event_id'') of
             (Inr (JStr t), Inr (JStr e)) \<Rightarrow> Some (KTriggerDelivery, t @ ''|'' @ e)
           | _ \<Rightarrow> None))"

lemma request_keys [simp]:
  "request_key (schedule_request s due) = Some (KScheduleOccurrence, occurrence_id s due)"
  "request_key (trigger_request t source) = Some (KTriggerDelivery, delivery_id t source)"
  by (simp_all add: request_key_def schedule_request_def trigger_request_def delivery_id_def)

definition launches_for :: "record_kind \<times> string \<Rightarrow> world \<Rightarrow> (launch_request \<times> string result) list" where
  "launches_for k w = filter (\<lambda>l. request_key (fst l) = Some k) (wd_launched w)"

definition work_kind :: "record_kind \<Rightarrow> bool" where
  "work_kind kind \<longleftrightarrow> kind = KScheduleOccurrence \<or> kind = KTriggerDelivery"

definition settled_body :: "json_ops \<Rightarrow> json \<Rightarrow> bool" where
  "settled_body J v \<longleftrightarrow> (case status_of J v of Inr status \<Rightarrow> settled status | Inl _ \<Rightarrow> False)"

text \<open>
  What the launch callback must leave alone: it creates runs, it does not write the scheduler's own
  occurrences and deliveries.
\<close>

definition dispatch_local :: "env \<Rightarrow> bool" where
  "dispatch_local E \<longleftrightarrow>
     (\<forall>n q st kind rid. work_kind kind \<longrightarrow> lookup (snd (en_dispatch E n q st)) kind rid = lookup st kind rid)"

definition done_with :: "record_kind \<times> string \<Rightarrow> json \<Rightarrow> (launch_request \<times> string result) list \<Rightarrow> world \<Rightarrow> bool" where
  "done_with k v L w \<longleftrightarrow> lookup (wd_store w) (fst k) (snd k) = Some v \<and> launches_for k w = L"

lemma store_get_world: "snd (store_get E kind rid w) = w\<lparr>wd_tick := Suc (wd_tick w)\<rparr>"
  by (simp add: store_get_def abind_def tick_def)

lemma store_get_Inr: "store_get E kind rid w = (Inr v, w') \<Longrightarrow> lookup (wd_store w) kind rid = Some v"
  by (auto simp: store_get_def abind_def tick_def get_record_def in_transaction_def split: option.splits)

lemma store_list_world: "snd (store_list E kind limit w) = w\<lparr>wd_tick := Suc (wd_tick w)\<rparr>"
  by (simp add: store_list_def abind_def tick_def)

lemma store_list_Inr:
  "store_list E kind limit w = (Inr records, w') \<Longrightarrow> records = map row_body (take limit (wd_store w kind))"
  by (auto simp: store_list_def abind_def tick_def list_records_def in_transaction_def split: if_splits option.splits)

lemma store_claim_True: "store_claim E r w = (Inr True, w') \<Longrightarrow> lookup (wd_store w) (sr_kind r) (sr_id r) = None"
  by (auto simp: store_claim_def abind_def tick_def case_prod_unfold Let_def intro!: claim_won(2) prod_eqI)

lemma store_get_found:
  assumes "lookup (wd_store w) kind rid = Some v"
  obtains (found) "store_get E kind rid w = (Inr v, w\<lparr>wd_tick := Suc (wd_tick w)\<rparr>)"
  | (failed) e where "store_get E kind rid w = (Inl e, w\<lparr>wd_tick := Suc (wd_tick w)\<rparr>)"
proof (cases "en_fault E (wd_tick w)")
  case None
  with assms show thesis
    by (intro found) (simp add: store_get_def abind_def tick_def get_record_def in_transaction_def)
next
  case (Some f)
  then show thesis
    by (intro failed) (simp add: store_get_def abind_def tick_def get_record_def in_transaction_def)
qed

text \<open>A settled record ends the matter, or the store failed to show it and the claim will fail.\<close>

lemma prior_occurrence_settled:
  assumes "lookup (wd_store w) KScheduleOccurrence occ = Some v" and "settled_body (en_json E) v"
    and "prior_occurrence E now occ w = (Inr p, w')"
  shows "wd_store w' = wd_store w \<and> (p = Finished \<or> p = Absent)"
proof -
  have "reconcile E now occ v w1 = (Inr Finished, w1)" for w1
    using assms(2) by (auto simp: reconcile_def abind_def alift_def settled_body_def aret_def split: sum.splits)
  with assms(3) show ?thesis
    by (cases rule: store_get_found [OF assms(1), of E])
      (auto simp: prior_occurrence_def atry_def aret_def athrow_def alift_def split: exn.splits if_splits)
qed

lemma prior_delivery_settled:
  assumes "lookup (wd_store w) KTriggerDelivery d = Some v" and "settled_body (en_json E) v"
    and "prior_delivery E d w = (Inr p, w')"
  shows "wd_store w' = wd_store w \<and> (p = Finished \<or> p = Absent)"
  using assms(2,3)
  by (cases rule: store_get_found [OF assms(1), of E])
    (auto simp: prior_delivery_def atry_def abind_def aret_def athrow_def alift_def settled_body_def
      split: exn.splits if_splits sum.splits)

lemma claim_occurrence_settled:
  assumes "lookup (wd_store w) KScheduleOccurrence (occurrence_id s due) = Some v" and "settled_body (en_json E) v"
  shows "claim_occurrence E now s due w \<noteq> (Inr True, w')"
proof
  assume "claim_occurrence E now s due w = (Inr True, w')"
  then obtain p w1 where prior: "prior_occurrence E now (occurrence_id s due) w = (Inr p, w1)"
    and rest: "(case p of Finished \<Rightarrow> aret False
       | Absent \<Rightarrow> store_claim E (occurrence_record (occurrence_id s due) (record_value ''claimed'' s due []))
       | Continue existing \<Rightarrow> abind (alift (status_of (en_json E) existing)) (\<lambda>status.
           aret (status = ''pending'' \<or> status = ''queued''))) w1 = (Inr True, w')"
    by (auto simp: claim_occurrence_def abind_Inr)
  note settled = prior_occurrence_settled [OF assms prior]
  with rest show False
    using assms(1) by (auto simp: aret_def occurrence_record_def dest!: store_claim_True)
qed

lemma claim_delivery_settled:
  assumes "lookup (wd_store w) KTriggerDelivery (delivery_id t source) = Some v" and "settled_body (en_json E) v"
  shows "claim_delivery E t source w \<noteq> (Inr (Some d), w')"
proof
  assume "claim_delivery E t source w = (Inr (Some d), w')"
  then obtain p w1 where prior: "prior_delivery E (delivery_id t source) w = (Inr p, w1)"
    and rest: "(case p of Finished \<Rightarrow> aret None | Continue delivery \<Rightarrow> aret (Some delivery)
       | Absent \<Rightarrow> timed E (\<lambda>now.
           let delivery = jobject [(''id'', JStr (delivery_id t source)), (''trigger_id'', JStr (t_id t)),
                 (''event_id'', JStr (ev_id source)), (''status'', JStr ''claimed''), (''updated_at'', JStr now)] in
           abind (store_claim E (delivery_record (delivery_id t source) delivery)) (\<lambda>claimed.
           aret (if claimed then Some delivery else None)))) w1 = (Inr (Some d), w')"
    by (auto simp: claim_delivery_def abind_Inr)
  from prior_delivery_settled [OF assms prior] have store: "wd_store w1 = wd_store w" and "p = Finished \<or> p = Absent"
    by simp_all
  with rest assms(1) show False
    by (auto simp: aret_def delivery_record_def timed_def clock_now_def tick_def Let_def abind_Inr
        dest!: store_claim_True split: if_splits)
qed

lemma done_with_actions:
  assumes "work_kind (fst k)" and "settled_body (en_json E) v" and "dispatch_local E"
  shows "launching_actions (done_with k v L) E (\<lambda>kind rid. (kind, rid) \<noteq> k) (\<lambda>q. request_key q \<noteq> Some k)"
proof
  have kind: "fst k \<noteq> KNodeWork" using assms(1) by (auto simp: work_kind_def)
  have commits: "keeps (done_with k v L) (store_commit E records)"
    if "\<And>r. r \<in> set records \<Longrightarrow> (sr_kind r, sr_id r) \<noteq> k" for records
  proof -
    have "written records (fst k) (snd k) = None" using that by (auto simp: written_None prod_eq_iff)
    from commit_lookup [OF kind this] show ?thesis
      by (simp add: keeps_def done_with_def launches_for_def store_commit_world)
  qed
  have admin: "(sr_kind r, sr_id r) \<noteq> k" if "administrative r" for r
    using that assms(1) by (auto simp: administrative_def work_kind_def)
  show "keeps (done_with k v L) (store_commit E records)" if "list_all administrative records" for records
    using that admin by (intro commits) (auto simp: list_all_iff)
  show "keeps (done_with k v L) (store_commit E records)"
    if "\<And>r. r \<in> set records \<Longrightarrow> administrative r \<or> (sr_kind r, sr_id r) \<noteq> k" for records
    using that admin by (intro commits) auto
  show "keeps (done_with k v L) (store_claim E r)" for r
    by (simp add: keeps_def done_with_def launches_for_def store_claim_world claim_keeps_record)
  show "keeps (done_with k v L) (dispatch E q)" if "request_key q \<noteq> Some k" for q
    using that assms(1,3)
    by (simp add: keeps_def done_with_def launches_for_def dispatch_world case_prod_unfold Let_def dispatch_local_def)
  show "(KScheduleOccurrence, occ) \<noteq> k"
    if "done_with k v L w" "store_get E KScheduleOccurrence occ w = (Inr v', w')"
      "status_of (en_json E) v' = Inr status" "\<not> settled status" for w occ v' w' status
    using that assms(2) store_get_Inr [OF that(2)] by (auto simp: done_with_def settled_body_def)
  show "(KScheduleOccurrence, occurrence_id s due) \<noteq> k \<and> request_key (schedule_request s due) \<noteq> Some k"
    if "done_with k v L w" "claim_occurrence E now s due w = (Inr True, w')" for w now s due w'
    using that assms(2) claim_occurrence_settled [of w s due v E now w'] by (auto simp: done_with_def)
  show "(KTriggerDelivery, delivery_id t source) \<noteq> k \<and> request_key (trigger_request t source) \<noteq> Some k"
    if "done_with k v L w" "claim_delivery E t source w = (Inr (Some d), w')" for w t source d w'
    using that assms(2) claim_delivery_settled [of w t source v E d w'] by (auto simp: done_with_def)
qed (simp_all add: done_with_def launches_for_def)

section \<open>The log of launches\<close>

interpretation log: settling_actions "\<lambda>w. wd_launched w = L" E "\<lambda>_ _. True"
  by unfold_locales (simp_all add: keeps_def store_commit_world store_claim_world)

lemmas log_kept = log.keeps_outcomes log.keeps_launch_failed log.keeps_settle log.keeps_claim_occurrence
  log.keeps_active_schedule_run log.keeps_reads log.keeps_parts

lemma log_same:
  assumes "\<And>L. keeps (\<lambda>w. wd_launched w = L) m"
  shows "wd_launched (snd (m w)) = wd_launched w"
  using keepsD [OF assms [of "wd_launched w"], of w] by simp

lemma log_launch_failed: "wd_launched (snd (launch_failed E s due k code w)) = wd_launched w"
  by (rule log_same) (simp add: log_kept)

lemma log_created: "wd_launched (snd (atry
      (abind (schedule_event E type s due extra) (\<lambda>e. settle E status s due run_id e))
      (\<lambda>_. aret n) (\<lambda>code m. launch_failed E s due k code) w)) = wd_launched w"
  by (rule log_same, intro log_kept) simp_all

lemma launch_log:
  "\<exists>r. wd_launched (snd (launch E now s due k w)) = wd_launched w @ [(schedule_request s due, r)]"
proof -
  obtain r w1 where d: "dispatch E (schedule_request s due) w = (r, w1)" by (cases "dispatch E (schedule_request s due) w")
  then have "wd_launched w1 = wd_launched w @ [(schedule_request s due, r)]"
    by (auto simp: dispatch_def abind_def tick_def Let_def split: prod.splits)
  moreover have "wd_launched (snd (launch E now s due k w)) = wd_launched w1"
    using d by (auto simp: launch_def atry_def [of "abind (dispatch E q) f" for q f] abind_def [of "dispatch E q" for q]
        abind_def [of "alift r" for r] alift_def aret_def log_launch_failed log_created split: sum.split exn.split)
  ultimately show ?thesis by simp
qed

text \<open>A schedule may start the occurrence \<open>due\<close> at the time \<open>now\<close>.\<close>

definition startable :: "schedule_definition \<Rightarrow> string \<Rightarrow> int \<Rightarrow> bool" where
  "startable s due now \<longleftrightarrow> \<not> s_deleted s \<and> (s_enabled s \<or> s_queued s) \<and> due \<noteq> [] \<and>
     due = (if s_queued s then s_queued_due_at s else s_next_due_at s) \<and>
     (s_queued s \<or> (case parse_utc_timestamp due of Inr t \<Rightarrow> t \<le> now | Inl _ \<Rightarrow> False))"

definition justified :: "env \<Rightarrow> json \<Rightarrow> int \<Rightarrow> launch_request \<Rightarrow> bool" where
  "justified E body now q \<longleftrightarrow>
     (\<exists>n s due. schedule_from_json (en_json E) (en_uuid E n) (en_timestamp E n) body = Inr s \<and>
        startable s due now \<and> q = schedule_request s due)"

text \<open>An action that adds at most one launch to the log, of a request with property \<open>Q\<close>.\<close>

definition logs_one :: "(launch_request \<Rightarrow> bool) \<Rightarrow> 'a act \<Rightarrow> bool" where
  "logs_one Q m \<longleftrightarrow> (\<forall>w. wd_launched (snd (m w)) = wd_launched w \<or>
     (\<exists>q r. Q q \<and> wd_launched (snd (m w)) = wd_launched w @ [(q, r)]))"

lemma logs_quiet: "(\<And>L. keeps (\<lambda>w. wd_launched w = L) m) \<Longrightarrow> logs_one Q m"
  unfolding logs_one_def using log_same by blast

lemma logs_abind:
  assumes "\<And>L. keeps (\<lambda>w. wd_launched w = L) m"
    and "\<And>a w w'. m w = (Inr a, w') \<Longrightarrow> logs_one Q (f a)"
  shows "logs_one Q (abind m f)"
proof -
  have "wd_launched (snd (abind m f w)) = wd_launched w \<or>
     (\<exists>q r. Q q \<and> wd_launched (snd (abind m f w)) = wd_launched w @ [(q, r)])" for w
  proof -
    obtain r w1 where m: "m w = (r, w1)" by (cases "m w")
    with log_same [OF assms(1), of w] have log: "wd_launched w1 = wd_launched w" by simp
    show ?thesis
    proof (cases r)
      case (Inl e)
      with m log show ?thesis by (simp add: abind_def)
    next
      case (Inr a)
      with m have "logs_one Q (f a)" by (auto intro: assms(2))
      then have "wd_launched (snd (f a w1)) = wd_launched w1 \<or>
          (\<exists>q r. Q q \<and> wd_launched (snd (f a w1)) = wd_launched w1 @ [(q, r)])"
        by (simp add: logs_one_def)
      with m Inr log show ?thesis by (simp add: abind_def)
    qed
  qed
  then show ?thesis by (simp add: logs_one_def)
qed

lemma logs_if: "(b \<Longrightarrow> logs_one Q m) \<Longrightarrow> (\<not> b \<Longrightarrow> logs_one Q m') \<Longrightarrow> logs_one Q (if b then m else m')"
  by simp

lemma logs_launch: "Q (schedule_request s due) \<Longrightarrow> logs_one Q (launch E now s due k)"
  unfolding logs_one_def using launch_log by blast

lemma logs_handle_occurrence:
  "Q (schedule_request s due) \<Longrightarrow> logs_one Q (handle_occurrence E now queued s due k)"
  unfolding handle_occurrence_def
  by (intro logs_abind logs_if logs_launch) (auto intro!: logs_quiet log_kept)

lemma logs_process_schedule:
  "logs_one (justified E body now) (process_schedule E now body k)"
proof -
  have claimed: "logs_one (justified E body now) (abind (claim_occurrence E now s due) (\<lambda>claimed.
      if \<not> claimed then aret k else handle_occurrence E now (s_queued s) s due k))"
    if "justified E body now (schedule_request s due)" for s due
    using that by (intro logs_abind logs_if logs_handle_occurrence) (auto intro!: logs_quiet log_kept)
  have ready: "startable s due now"
    if "\<not> (s_deleted s \<or> \<not> s_enabled s \<and> \<not> s_queued s)" "due = (if s_queued s then s_queued_due_at s else s_next_due_at s)"
      "(if s_queued s then aret True else alift (is_due due now)) w = (Inr r, w')" "\<not> (\<not> r \<or> due = [])" for s due w w' r
    using that by (auto simp: startable_def is_due_def alift_def aret_def rbind_def split: if_splits sum.splits)
  have decoded: "\<exists>n. schedule_from_json (en_json E) (en_uuid E n) (en_timestamp E n) body = Inr s"
    if "decode_schedule E body w = (Inr s, w')" for s w w'
    using that by (auto simp: decode_schedule_def abind_def tick_def alift_def)
  have quiet: "logs_one (justified E body now) (aret k)" by (rule logs_quiet) (rule keeps_simple)
  have one: "logs_one (justified E body now)
      (if s_deleted s \<or> \<not> s_enabled s \<and> \<not> s_queued s then aret k
       else abind (if s_queued s then aret True else alift (is_due due now)) (\<lambda>ready.
         if \<not> ready \<or> due = [] then aret k
         else abind (claim_occurrence E now s due) (\<lambda>claimed.
           if \<not> claimed then aret k else handle_occurrence E now (s_queued s) s due k)))"
    if "decode_schedule E body w = (Inr s, w')" and due: "due = (if s_queued s then s_queued_due_at s else s_next_due_at s)"
    for s w w' due
  proof (rule logs_if [OF quiet], rule logs_abind)
    fix r w1 w2
    assume "\<not> (s_deleted s \<or> \<not> s_enabled s \<and> \<not> s_queued s)"
      and "(if s_queued s then aret True else alift (is_due due now)) w1 = (Inr r, w2)"
    note alive = ready [OF this(1) due this(2)]
    show "logs_one (justified E body now) (if \<not> r \<or> due = [] then aret k
         else abind (claim_occurrence E now s due) (\<lambda>claimed.
           if \<not> claimed then aret k else handle_occurrence E now (s_queued s) s due k))"
      by (rule logs_if [OF quiet], rule claimed) (use alive decoded [OF that(1)] in \<open>auto simp: justified_def\<close>)
  qed (intro log_kept)
  show ?thesis
    unfolding process_schedule_def Let_def by (rule logs_abind) (intro log_kept, rule one, simp_all)
qed

lemma process_records_log:
  "\<exists>L rows. wd_launched (snd (process_records E now records k w)) = wd_launched w @ L \<and>
    subseq rows records \<and> list_all2 (\<lambda>body l. justified E body now (fst l)) rows L"
proof (induction records arbitrary: k w)
  case Nil
  then show ?case by (simp add: aret_def)
next
  case (Cons body records)
  obtain r w1 where m: "process_schedule E now body k w = (r, w1)" by (cases "process_schedule E now body k w")
  with logs_process_schedule [of E body now k] have "\<exists>L. wd_launched w1 = wd_launched w @ L \<and> length L \<le> 1 \<and>
      list_all (\<lambda>l. justified E body now (fst l)) L"
    unfolding logs_one_def by (auto dest!: spec [of _ w])
  then obtain L where L: "wd_launched w1 = wd_launched w @ L" "length L \<le> 1" "list_all (\<lambda>l. justified E body now (fst l)) L"
    by blast
  obtain rows where rows: "subseq rows [body]" "list_all2 (\<lambda>body l. justified E body now (fst l)) rows L"
    using L(2,3) by (cases L) (auto intro: that [of "[]"] that [of "[body]"])
  show ?case
  proof (cases "unat (en_max_pending_launches E) \<le> k \<or> isl r")
    case True
    have "subseq rows (body # records)" using list_emb_append_mono [OF rows(1), of "[]" records] by simp
    with True m L rows(2) show ?thesis
      by (cases r) (auto simp: abind_def aret_def intro!: exI [of _ "[]"] exI [of _ L] exI [of _ rows])
  next
    case False
    then obtain k' where k': "r = Inr k'" by (cases r) auto
    from Cons.IH [of k' w1] obtain L' rows' where L': "wd_launched (snd (process_records E now records k' w1)) = wd_launched w1 @ L'"
      "subseq rows' records" "list_all2 (\<lambda>body l. justified E body now (fst l)) rows' L'" by blast
    have "subseq (rows @ rows') (body # records)" using list_emb_append_mono [OF rows(1) L'(2)] by simp
    moreover have "list_all2 (\<lambda>body l. justified E body now (fst l)) (rows @ rows') (L @ L')"
      using rows(2) L'(3) by (rule list_all2_appendI)
    ultimately show ?thesis using L(1) L'(1) m k' False by (auto simp: abind_def)
  qed
qed

section \<open>Guarantees\<close>

definition quiet_world :: world where
  "quiet_world = \<lparr>wd_store = empty_store, wd_emitted = [], wd_launched = [], wd_posted = [], wd_timer = None,
     wd_started = False, wd_stopped = False, wd_pending = 0, wd_tick = 0\<rparr>"

definition example_env :: env where
  "example_env = \<lparr>en_json = plain_ops, en_clock = (\<lambda>_. 0), en_uuid = decimal, en_timestamp = (\<lambda>_. ''t''),
     en_fault = (\<lambda>_. None), en_dispatch = (\<lambda>n q st. (Inr (decimal n), st)), en_emit = (\<lambda>_ _. Inr ()),
     en_max_pending_launches = 128, en_max_trigger_depth = 16, en_max_event_deliveries = 1024\<rparr>"

text \<open>
  C4: settled work is final. Once the record of a schedule occurrence or of a trigger delivery says
  started, skipped or failed, nothing that can happen to the scheduler changes the record or launches a
  run for it again, under any clock, failures of the store and order of operations, as long as the
  launch callback does not write such records itself.
\<close>

theorem settled_work_is_final:
  assumes "work_kind (fst k)" and "settled_body (en_json E) v" and "dispatch_local E"
    and "lookup (wd_store w) (fst k) (snd k) = Some v"
  shows "lookup (wd_store (fold (sched_step E) ops w)) (fst k) (snd k) = Some v \<and>
    launches_for k (fold (sched_step E) ops w) = launches_for k w"
  using launching_actions.history_kept [OF done_with_actions [OF assms(1-3)], of "launches_for k w" w ops] assms(4)
  by (simp add: done_with_def)

lemma settled_work_is_final_witness:
  "launches_for (KScheduleOccurrence, ''s|d'')
     (fold (sched_step example_env) [Start, RunPosted, ProcessDue, TimerExpired]
       (quiet_world\<lparr>wd_store := upsert (occurrence_record ''s|d'' (jobject [(''status'', JStr ''started'')])) empty_store\<rparr>))
   = []"
proof -
  let ?v = "jobject [(''status'', JStr ''started'')]" and ?k = "(KScheduleOccurrence, ''s|d'')"
  let ?w = "quiet_world\<lparr>wd_store := upsert (occurrence_record ''s|d'' ?v) empty_store\<rparr>"
  have "work_kind (fst ?k)" by (simp add: work_kind_def)
  moreover have "settled_body (en_json example_env) ?v"
    by (simp add: settled_body_def status_of_def example_env_def plain_ops_def settled_def)
  moreover have "dispatch_local example_env"
    by (simp add: dispatch_local_def example_env_def)
  moreover have "lookup (wd_store ?w) (fst ?k) (snd ?k) = Some ?v"
    by (simp add: lookup_upsert occurrence_record_def)
  moreover have none: "launches_for ?k ?w = []" by (simp add: launches_for_def quiet_world_def)
  ultimately show ?thesis
    using settled_work_is_final [of ?k example_env ?v ?w "[Start, RunPosted, ProcessDue, TimerExpired]"]
    unfolding none by blast
qed

text \<open>
  Chains of triggers are bounded. In every history of a scheduler that starts without launches, no
  launch request carries a causal depth above the configured limit.
\<close>

lemma trigger_chains_bounded:
  assumes "wd_launched w = []"
  shows "filter (\<lambda>l. \<not> depth_bounded (en_max_trigger_depth E) (fst l)) (wd_launched (fold (sched_step E) ops w)) = []"
  using chain.history_kept [of E w ops] assms by (simp add: all_bounded_def)

lemma trigger_chains_bounded_example:
  "filter (\<lambda>l. \<not> depth_bounded 16 (fst l))
     (wd_launched (fold (sched_step example_env) [Start, RunPosted, ReceiveEvent (new_event ''e'' ''t''), RunPosted]
       quiet_world)) = []"
proof -
  have "wd_launched quiet_world = []" and limit: "en_max_trigger_depth example_env = 16"
    by (simp_all add: quiet_world_def example_env_def)
  from trigger_chains_bounded [OF this(1), of example_env] show ?thesis unfolding limit .
qed

text \<open>
  A stopped scheduler launches nothing. After \<^verbatim>\<open>stop\<close> no task, timer, event or operation leads to
  another launch, and the scheduler does not start again.
\<close>

lemma stopped_scheduler_launches_nothing:
  assumes "wd_stopped w"
  shows "wd_launched (fold (sched_step E) ops w) = wd_launched w \<and> wd_stopped (fold (sched_step E) ops w)"
  using fold_step_invariant [of "halted (wd_launched w)" w "sched_step E" ops] halted_step assms
  by (simp add: halted_def)

lemma stopped_scheduler_launches_nothing_example:
  "wd_launched (fold (sched_step example_env) [Start, RunPosted, TimerExpired, ProcessDue]
     (quiet_world\<lparr>wd_stopped := True\<rparr>)) = []"
proof -
  have stopped: "wd_stopped (quiet_world\<lparr>wd_stopped := True\<rparr>)" and none: "wd_launched (quiet_world\<lparr>wd_stopped := True\<rparr>) = []"
    by (simp_all add: quiet_world_def)
  from stopped_scheduler_launches_nothing [OF stopped, of example_env] show ?thesis unfolding none by blast
qed

text \<open>
  C32: a pass launches only what is due. The launches of a pass belong, one each and in order, to some of
  the first rows of the schedule table, as many as the limit allows: each is for the schedule of its row,
  which is not deleted, is enabled or has a queued occurrence, and whose occurrence is queued or due at the
  time of the pass. So no row is launched twice, and a schedule that comes later in the table is not started.
\<close>

theorem pass_launches_only_due:
  "\<exists>L rows. wd_launched (snd (process_due E w)) = wd_launched w @ L \<and>
     subseq rows (map row_body (take (unat (en_max_pending_launches E + 1)) (wd_store w KSchedule))) \<and>
     list_all2 (\<lambda>body l. justified E body (en_clock E (wd_tick w)) (fst l)) rows L"
proof (cases "wd_stopped w")
  case True
  then show ?thesis by (simp add: process_due_def)
next
  case False
  let ?limit = "unat (en_max_pending_launches E + 1)" and ?now = "en_clock E (wd_tick w)"
  let ?bodies = "map row_body (take ?limit (wd_store w KSchedule))" and ?w = "w\<lparr>wd_tick := Suc (Suc (wd_tick w))\<rparr>"
  obtain r where list: "store_list E KSchedule ?limit (w\<lparr>wd_tick := Suc (wd_tick w)\<rparr>) = (r, ?w)"
    and bodies: "\<And>records. r = Inr records \<Longrightarrow> records = ?bodies"
    using store_list_world [of E KSchedule ?limit "w\<lparr>wd_tick := Suc (wd_tick w)\<rparr>"]
      store_list_Inr [of E KSchedule ?limit "w\<lparr>wd_tick := Suc (wd_tick w)\<rparr>" _ ?w]
    by (cases "store_list E KSchedule ?limit (w\<lparr>wd_tick := Suc (wd_tick w)\<rparr>)") auto
  have due: "process_due E w = (case r of Inl e \<Rightarrow> (Inl e, ?w) | Inr records \<Rightarrow> process_records E ?now records 0 ?w)"
    using False list by (simp add: process_due_def clock_now_def abind_def tick_def aret_def split: sum.split)
  show ?thesis
  proof (cases r)
    case (Inl e)
    with due show ?thesis by simp
  next
    case (Inr records)
    with process_records_log [of E ?now ?bodies 0 ?w] bodies due show ?thesis by simp
  qed
qed

section \<open>Launches that go wrong\<close>

lemma schedule_codec:
  "json_ops_ok J \<Longrightarrow> schedule_from_json J fresh now (schedule_to_json s) = Inr s"
  by (simp add: schedule_from_json_def schedule_to_json_def)

lemma status_record_value:
  "json_ops_ok J \<Longrightarrow> status_of J (record_value status s due run_id) = Inr status"
  by (simp add: status_of_def record_value_def)

lemma commit_occurrence:
  assumes "serialize J v = Inr body" and "occ \<noteq> []"
  shows "commit J fresh now now2 None [occurrence_record occ v] st = (Inr (), upsert (occurrence_record occ v) st)"
  using assms
  by (simp add: commit_def in_transaction_def write_records_def write_record_def occurrence_record_def split: option.split)

lemma occurrence_id_nonempty [simp]: "occurrence_id s due \<noteq> []"
  by (simp add: occurrence_id_def)

lemma launch_failed_stores:
  assumes "serialize (en_json E) (record_value status s due []) = Inr body" and "en_fault E (wd_tick w) = None"
    and "status = (if code = Capacity then ''pending'' else ''failed'')"
  shows "launch_failed E s due k code w =
    (Inr (if code \<noteq> Capacity then Suc k else k),
     w\<lparr>wd_tick := Suc (wd_tick w),
       wd_store := upsert (occurrence_record (occurrence_id s due) (record_value status s due [])) (wd_store w)\<rparr>)"
  using commit_occurrence [OF assms(1), of "occurrence_id s due"] assms(2,3)
  by (simp add: launch_failed_def store_commit_def abind_def tick_def aret_def)

lemma lookup_occurrence_record:
  "lookup (upsert (occurrence_record occ v) st) kind rid =
     (if kind = KScheduleOccurrence \<and> rid = occ then Some v else lookup st kind rid)"
  by (simp add: lookup_upsert occurrence_record_def)

text \<open>A schedule that points at a settled occurrence is passed over.\<close>

lemma claim_settled_occurrence:
  assumes "en_fault E (wd_tick w) = None" and "settled_body (en_json E) v"
    and "lookup (wd_store w) KScheduleOccurrence (occurrence_id s due) = Some v"
  shows "claim_occurrence E now s due w = (Inr False, w\<lparr>wd_tick := Suc (wd_tick w)\<rparr>)"
proof -
  have "store_get E KScheduleOccurrence (occurrence_id s due) w = (Inr v, w\<lparr>wd_tick := Suc (wd_tick w)\<rparr>)"
    using assms(1,3) by (simp add: store_get_def abind_def tick_def get_record_def in_transaction_def)
  moreover obtain status where "status_of (en_json E) v = Inr status" and "settled status"
    using assms(2) by (auto simp: settled_body_def split: sum.splits)
  ultimately show ?thesis
    by (simp add: claim_occurrence_def prior_occurrence_def reconcile_def atry_def abind_def alift_def aret_def)
qed

lemma process_settled_schedule:
  assumes "json_ops_ok (en_json E)" and "en_fault E = (\<lambda>_. None)"
    and "due = (if s_queued s then s_queued_due_at s else s_next_due_at s)" and "parse_utc_timestamp due = Inr t"
    and "settled_body (en_json E) v" and "lookup (wd_store w) KScheduleOccurrence (occurrence_id s due) = Some v"
  shows "\<exists>n. process_schedule E now (schedule_to_json s) k w = (Inr k, w\<lparr>wd_tick := n\<rparr>)"
proof -
  have decode: "decode_schedule E (schedule_to_json s) w = (Inr s, w\<lparr>wd_tick := Suc (wd_tick w)\<rparr>)"
    by (simp add: decode_schedule_def abind_def tick_def alift_def schedule_codec [OF assms(1)])
  have claim: "claim_occurrence E now s due (w\<lparr>wd_tick := Suc (wd_tick w)\<rparr>) = (Inr False, w\<lparr>wd_tick := Suc (Suc (wd_tick w))\<rparr>)"
    using claim_settled_occurrence [of E "w\<lparr>wd_tick := Suc (wd_tick w)\<rparr>" v s due now] assms(2,5,6) by simp
  show ?thesis
    using decode claim assms(3,4)
    by (cases "s_queued s")
      (auto simp: process_schedule_def abind_def alift_def aret_def is_due_def Let_def)
qed

text \<open>
  C39: a failed launch stops its schedule. When the launch of an occurrence fails for another reason than
  capacity, the stored schedule still points at that occurrence while the occurrence is recorded as
  failed, so every later pass, at whatever time, passes the schedule over without launching anything.
\<close>

theorem failed_launch_stops_schedule:
  assumes "json_ops_ok (en_json E)" and "en_fault E = (\<lambda>_. None)"
    and "due = (if s_queued s then s_queued_due_at s else s_next_due_at s)" and "parse_utc_timestamp due = Inr t"
    and "en_dispatch E (wd_tick w) (schedule_request s due) (wd_store w) = (throw code m, wd_store w)" and "code \<noteq> Capacity"
    and "serialize (en_json E) (record_value ''failed'' s due []) = Inr body"
  shows "\<exists>w1. launch E now s due k w = (Inr (Suc k), w1) \<and>
    lookup (wd_store w1) KSchedule = lookup (wd_store w) KSchedule \<and>
    (\<forall>later k'. \<exists>n. process_schedule E later (schedule_to_json s) k' w1 = (Inr k', w1\<lparr>wd_tick := n\<rparr>))"
proof -
  let ?w = "w\<lparr>wd_tick := Suc (wd_tick w), wd_launched := wd_launched w @ [(schedule_request s due, throw code m)]\<rparr>"
  let ?v = "record_value ''failed'' s due []"
  have "dispatch E (schedule_request s due) w = (throw code m, ?w)"
    using assms(5) by (simp add: dispatch_def abind_def tick_def)
  then have "launch E now s due k w = launch_failed E s due k code ?w"
    by (simp add: launch_def atry_def abind_def)
  with launch_failed_stores [OF assms(7), of ?w code k] assms(2,6) obtain w1 where
    w1: "launch E now s due k w = (Inr (Suc k), w1)"
    and store: "wd_store w1 = upsert (occurrence_record (occurrence_id s due) ?v) (wd_store w)"
    by simp
  have "settled_body (en_json E) ?v"
    using assms(1) by (simp add: settled_body_def status_record_value settled_def)
  moreover have "lookup (wd_store w1) KScheduleOccurrence (occurrence_id s due) = Some ?v"
    by (simp add: store lookup_occurrence_record)
  ultimately have "\<exists>n. process_schedule E later (schedule_to_json s) k' w1 = (Inr k', w1\<lparr>wd_tick := n\<rparr>)" for later k'
    using process_settled_schedule [OF assms(1-4), of ?v w1] by blast
  moreover have "lookup (wd_store w1) KSchedule = lookup (wd_store w) KSchedule"
    by (rule ext) (simp add: store lookup_occurrence_record)
  ultimately show ?thesis using w1 by blast
qed

definition failing_env :: env where
  "failing_env = example_env\<lparr>en_dispatch := (\<lambda>n q st. (throw Unavailable ''offline'', st))\<rparr>"

definition example_schedule :: schedule_definition where
  "example_schedule = (new_schedule ''s'' ''t'')\<lparr>s_type := ''interval'', s_interval_ms := ''1000'',
     s_next_due_at := ''2026-01-01T00:00:00.000Z''\<rparr>"

lemma example_due_parses: "parse_utc_timestamp ''2026-01-01T00:00:00.000Z'' = Inr 1767225600000000000"
  by code_simp

lemma example_serializes:
  "length status + length (s_updated_at s) + 2 * length (s_id s) + 2 * length due + length run_id < 1000 \<Longrightarrow>
   \<exists>body. serialize plain_ops (record_value status s due run_id) = Inr body"
  by (simp add: serialize_def plain_ops_def record_value_def jobject_def occurrence_id_def)

lemma failed_launch_stops_schedule_witness:
  "\<exists>w1. launch failing_env 0 example_schedule ''2026-01-01T00:00:00.000Z'' 0 quiet_world = (Inr 1, w1) \<and>
     (\<exists>n. process_schedule failing_env (10 ^ 18 * 9) (schedule_to_json example_schedule) 0 w1 = (Inr 0, w1\<lparr>wd_tick := n\<rparr>))"
proof -
  let ?due = "''2026-01-01T00:00:00.000Z''"
  have "json_ops_ok (en_json failing_env)" and "en_fault failing_env = (\<lambda>_. None)"
    and "?due = (if s_queued example_schedule then s_queued_due_at example_schedule else s_next_due_at example_schedule)"
    and "en_dispatch failing_env (wd_tick quiet_world) (schedule_request example_schedule ?due) (wd_store quiet_world) =
      (throw Unavailable ''offline'', wd_store quiet_world)" and "Unavailable \<noteq> Capacity"
    by (simp_all add: failing_env_def example_env_def example_schedule_def new_schedule_def plain_ops_ok)
  moreover obtain body where "serialize (en_json failing_env) (record_value ''failed'' example_schedule ?due []) = Inr body"
    using example_serializes [of "''failed''" example_schedule ?due "[]"]
    by (auto simp: failing_env_def example_env_def example_schedule_def new_schedule_def)
  ultimately obtain w1 where "launch failing_env 0 example_schedule ?due 0 quiet_world = (Inr (Suc 0), w1)"
    "\<forall>later k'. \<exists>n. process_schedule failing_env later (schedule_to_json example_schedule) k' w1 = (Inr k', w1\<lparr>wd_tick := n\<rparr>)"
    using failed_launch_stops_schedule [of failing_env ?due example_schedule _ quiet_world Unavailable "''offline''" body 0 0]
      example_due_parses by blast
  then show ?thesis by auto
qed

text \<open>
  C40: an exhausted connection pool after a launch causes a second one. When the run has been launched and
  the commit that should record it finds no free connection, the capacity error of the pool is taken for
  one of the launch: the occurrence is put back to pending, and the next pass takes it up again.
\<close>

theorem pool_exhaustion_relaunches:
  assumes "json_ops_ok (en_json E)"
    and "en_dispatch E (wd_tick w) (schedule_request s due) (wd_store w) = (Inr run_id, st)"
    and "step_schedule (en_json E) now (s\<lparr>s_queued := False, s_queued_due_at := [], s_last_due_at := due,
           s_last_started_at := format_utc_timestamp now\<rparr>) due = Inr s'"
    and "en_fault E (wd_tick w + 2) = Some (PoolError (Error Capacity m))"
    and "en_fault E (wd_tick w + 3) = None" and "en_fault E (wd_tick w + 4) = None"
    and "serialize (en_json E) (record_value ''pending'' s' due []) = Inr body"
  shows "\<exists>w1 w2. launch E now s due k w = (Inr k, w1) \<and>
    wd_launched w1 = wd_launched w @ [(schedule_request s due, Inr run_id)] \<and>
    claim_occurrence E later s due w1 = (Inr True, w2)"
proof -
  let ?w = "\<lambda>n. w\<lparr>wd_tick := wd_tick w + n, wd_store := st,
    wd_launched := wd_launched w @ [(schedule_request s due, Inr run_id)]\<rparr>"
  let ?v = "record_value ''pending'' s' due []"
  have id: "occurrence_id s' due = occurrence_id s due"
    using same_schedule_id [OF assms(3)] by (simp add: occurrence_id_def)
  have "dispatch E (schedule_request s due) w = (Inr run_id, ?w 1)"
    using assms(2) by (simp add: dispatch_def abind_def tick_def)
  moreover have "abind (schedule_event E type s' due extra) (\<lambda>e. settle E status s' due run_id e) (?w 1) =
      (throw Capacity m, ?w 3)" for type extra status
    using assms(4) by (simp add: schedule_event_def settle_def store_commit_def abind_def tick_def aret_def commit_def
        in_transaction_def numeral_3_eq_3 numeral_2_eq_2)
  ultimately have "launch E now s due k w = launch_failed E s' due k Capacity (?w 3)"
    using assms(3) by (simp add: launch_def atry_def abind_def [of "dispatch E q" for q] abind_def [of "alift r" for r]
        alift_def aret_def)
  with launch_failed_stores [OF assms(7), of "?w 3" Capacity k] assms(5) obtain w1 where
    w1: "launch E now s due k w = (Inr k, w1)" "wd_tick w1 = wd_tick w + 4"
      "wd_launched w1 = wd_launched w @ [(schedule_request s due, Inr run_id)]"
      "wd_store w1 = upsert (occurrence_record (occurrence_id s due) ?v) st"
    by (simp add: id)
  have "store_get E KScheduleOccurrence (occurrence_id s due) w1 = (Inr ?v, w1\<lparr>wd_tick := Suc (wd_tick w1)\<rparr>)"
    using assms(6) w1(2,4) by (simp add: store_get_def abind_def tick_def get_record_def in_transaction_def lookup_occurrence_record)
  then have "claim_occurrence E later s due w1 = (Inr True, w1\<lparr>wd_tick := Suc (wd_tick w1)\<rparr>)"
    using assms(1)
    by (simp add: claim_occurrence_def prior_occurrence_def reconcile_def atry_def abind_def alift_def aret_def
        status_record_value settled_def)
  with w1 show ?thesis by blast
qed

definition exhausted_env :: env where
  "exhausted_env = example_env\<lparr>en_fault := (\<lambda>n. if n = 2 then Some (PoolError (Error Capacity ''timed out'')) else None)\<rparr>"

lemma decimal_0: "decimal 0 = ''0''"
  by code_simp

lemma length_format: "length (format_utc_timestamp t) = 24"
proof -
  have "length (pad n k) = n" for n k by (induction n arbitrary: k) simp_all
  then show ?thesis by (simp add: format_utc_timestamp_def Let_def)
qed

lemma pool_exhaustion_relaunches_witness:
  "\<exists>w1 w2. launch exhausted_env 0 (example_schedule\<lparr>s_type := ''one_time''\<rparr>) ''2026-01-01T00:00:00.000Z'' 0 quiet_world = (Inr 0, w1) \<and>
     map snd (wd_launched w1) = [Inr ''0''] \<and>
     claim_occurrence exhausted_env 1 (example_schedule\<lparr>s_type := ''one_time''\<rparr>) ''2026-01-01T00:00:00.000Z'' w1 = (Inr True, w2)"
proof -
  let ?due = "''2026-01-01T00:00:00.000Z''" and ?s = "example_schedule\<lparr>s_type := ''one_time''\<rparr>"
  let ?s1 = "?s\<lparr>s_queued := False, s_queued_due_at := [], s_last_due_at := ?due, s_last_started_at := format_utc_timestamp 0\<rparr>"
  let ?s' = "?s1\<lparr>s_next_due_at := [], s_enabled := False, s_updated_at := format_utc_timestamp 0\<rparr>"
  have "json_ops_ok (en_json exhausted_env)"
    and "en_fault exhausted_env (wd_tick quiet_world + 2) = Some (PoolError (Error Capacity ''timed out''))"
    and "en_fault exhausted_env (wd_tick quiet_world + 3) = None" and "en_fault exhausted_env (wd_tick quiet_world + 4) = None"
    by (simp_all add: exhausted_env_def example_env_def quiet_world_def plain_ops_ok)
  moreover have "en_dispatch exhausted_env (wd_tick quiet_world) (schedule_request ?s ?due) (wd_store quiet_world) = (Inr ''0'', empty_store)"
    by (simp add: exhausted_env_def example_env_def quiet_world_def decimal_0)
  moreover have "step_schedule (en_json exhausted_env) 0 ?s1 ?due = Inr ?s'"
    by (simp add: step_schedule_def)
  moreover obtain body where "serialize (en_json exhausted_env) (record_value ''pending'' ?s' ?due []) = Inr body"
    using example_serializes [of "''pending''" ?s' ?due "[]"]
    by (auto simp: exhausted_env_def example_env_def example_schedule_def new_schedule_def length_format)
  ultimately show ?thesis
    using pool_exhaustion_relaunches [of exhausted_env quiet_world ?s ?due "''0''" empty_store 0 ?s' "''timed out''" body 0 1]
    by (auto simp: quiet_world_def)
qed

end
