(* ===== verification/Laso_Session.thy ===== *)
theory Laso_Session
  imports Laso_Storage
begin

text \<open>
  The agent sessions of \<^verbatim>\<open>src/storage/postgres.cpp\<close>: a session is a durable queue of inputs
  (turns) that are dispatched one at a time, with a numbered log of events. Turns and events carry an
  explicit \<^verbatim>\<open>sequence\<close> column, so their two tables are kept beside the generic store; no caller of the
  generic interface writes them. Sessions, runs, context generations, snapshots and continuations are rows
  of the generic store. Every operation is one transaction that locks the session row first, so it
  is an atomic function of the tables. \<open>se_fresh\<close> and \<open>se_now\<close> are the successive values of
  \<^verbatim>\<open>uuid()\<close> and \<^verbatim>\<open>timestamp()\<close>, \<open>se_clock\<close> the database clock and \<open>se_leases\<close> the lease
  table at the moment the transaction checks it.
\<close>

unbundle bit_operations_syntax

section \<open>Tables\<close>

record session_row =
  sn_id :: string
  sn_session :: string
  sn_sequence :: nat
  sn_body :: json

record session_db =
  sd_store :: store
  sd_turns :: "session_row list"
  sd_events :: "session_row list"

record session_env =
  se_fresh :: "nat \<Rightarrow> string"
  se_now :: "nat \<Rightarrow> string"
  se_clock :: int
  se_fault :: "fault option"
  se_leases :: coord_db

definition rows_of :: "string \<Rightarrow> session_row list \<Rightarrow> session_row list" where
  "rows_of sid rows = filter (\<lambda>r. sn_session r = sid) rows"

definition find_turn :: "session_db \<Rightarrow> string \<Rightarrow> session_row option" where
  "find_turn db tid = find (\<lambda>r. sn_id r = tid) (sd_turns db)"

text \<open>\<^verbatim>\<open>body::jsonb->>'key'\<close>, for the keys the code compares: their values are strings.\<close>

definition jsonb_text :: "json \<Rightarrow> string \<Rightarrow> string option" where
  "jsonb_text j k = (case jat j k of Inr (JStr s) \<Rightarrow> Some s | _ \<Rightarrow> None)"

definition jerase :: "string \<Rightarrow> json \<Rightarrow> json" where
  "jerase k j = (case j of JObj m \<Rightarrow> JObj (omap_erase k m) | _ \<Rightarrow> j)"

definition jputs :: "(string \<times> json) list \<Rightarrow> json \<Rightarrow> json" where
  "jputs kvs j = fold (\<lambda>(k, v). jput k v) kvs j"

text \<open>The statements: an explicit sequence number has to fit \<^verbatim>\<open>BIGINT\<close>, identifiers are primary keys.\<close>

definition insert_row :: "string \<Rightarrow> string \<Rightarrow> nat \<Rightarrow> json \<Rightarrow> session_row list \<Rightarrow> session_row list result" where
  "insert_row rid sid seq body rows =
     (if \<not> bigint_ok (int seq) then Inl (translate_sql_error ''22003'')
      else if find (\<lambda>r. sn_id r = rid) rows \<noteq> None then Inl (translate_sql_error ''23505'')
      else Inr (rows @ [\<lparr>sn_id = rid, sn_session = sid, sn_sequence = seq, sn_body = body\<rparr>]))"

definition set_row :: "string \<Rightarrow> json \<Rightarrow> session_row list \<Rightarrow> session_row list" where
  "set_row rid body rows = map (\<lambda>r. if sn_id r = rid then r\<lparr>sn_body := body\<rparr> else r) rows"

definition set_body :: "record_kind \<Rightarrow> string \<Rightarrow> json \<Rightarrow> store \<Rightarrow> store" where
  "set_body kind rid body st =
     st(kind := map (\<lambda>row. if row_id row = rid then row\<lparr>row_body := body\<rparr> else row) (st kind))"

definition load_session :: "json_ops \<Rightarrow> session_env \<Rightarrow> string \<Rightarrow> session_db \<Rightarrow> agent_session result" where
  "load_session J env sid db =
     (case lookup (sd_store db) KAgentSession sid of
        None \<Rightarrow> throw NotFound ''Agent session not found''
      | Some body \<Rightarrow> agent_session_from_json J (se_fresh env 0) (se_now env 0) body)"

definition put_session :: "json_ops \<Rightarrow> string \<Rightarrow> agent_session \<Rightarrow> session_db \<Rightarrow> session_db result" where
  "put_session J sid s db =
     rbind (serialize J (agent_session_to_json s)) (\<lambda>_.
       Inr (db\<lparr>sd_store := set_body KAgentSession sid (agent_session_to_json s) (sd_store db)\<rparr>))"

definition put_turn :: "json_ops \<Rightarrow> string \<Rightarrow> json \<Rightarrow> session_db \<Rightarrow> session_db result" where
  "put_turn J tid turn db =
     rbind (serialize J turn) (\<lambda>_. Inr (db\<lparr>sd_turns := set_row tid turn (sd_turns db)\<rparr>))"

definition append_event :: "json_ops \<Rightarrow> string \<Rightarrow> u64 \<Rightarrow> json \<Rightarrow> session_db \<Rightarrow> session_db result" where
  "append_event J sid seq event db =
     rbind (jget_at (get_string J) event ''id'') (\<lambda>eid.
     rbind (serialize J event) (\<lambda>_.
     rbind (insert_row eid sid (unat seq) event (sd_events db)) (\<lambda>rows.
       Inr (db\<lparr>sd_events := rows\<rparr>))))"

text \<open>An event keeps the identifier it came with, or gets a new one.\<close>

definition stamp :: "json_ops \<Rightarrow> string \<Rightarrow> (string \<times> json) list \<Rightarrow> json \<Rightarrow> json result" where
  "stamp J fresh kvs event =
     rbind (jvalue (get_string J) event ''id'' fresh) (\<lambda>eid. Inr (jputs ((''id'', JStr eid) # kvs) event))"

text \<open>The fencing test: the lease row is locked with the session.\<close>

definition check_lease :: "string \<Rightarrow> string \<Rightarrow> string \<Rightarrow> u64 \<Rightarrow> session_env \<Rightarrow> unit result" where
  "check_lease stale resource owner_instance fencing_token env =
     (if fencing_token = 0 then Inr ()
      else if \<not> bigint_ok (uint fencing_token) then Inl (translate_sql_error ''22003'')
      else case map_of (leases (se_leases env)) resource of
        None \<Rightarrow> throw Conflict stale
      | Some row \<Rightarrow>
          if lr_owner row = owner_instance \<and> lr_token row = uint fencing_token \<and> lr_expires row > se_clock env
          then Inr () else throw Conflict stale)"

text \<open>A check made before the transaction: its exception is not translated.\<close>

definition guarded :: "unit result \<Rightarrow> 's \<Rightarrow> 'a result \<times> 's \<Rightarrow> 'a result \<times> 's" where
  "guarded g st r = (case g of Inl e \<Rightarrow> (Inl e, st) | Inr _ \<Rightarrow> r)"

definition dump_within :: "json_ops \<Rightarrow> nat \<Rightarrow> json \<Rightarrow> string \<Rightarrow> unit result" where
  "dump_within J limit v what =
     (if \<not> dump_ok J v then Inl JsonTypeError
      else if length (dump J v) > limit then throw Validation what else Inr ())"

section \<open>Submitting a turn\<close>

definition last_sequence :: "session_row list \<Rightarrow> nat" where
  "last_sequence rows = fold (\<lambda>r. max (sn_sequence r)) rows 0"

definition check_resubmission :: "json_ops \<Rightarrow> string \<Rightarrow> json \<Rightarrow> json \<Rightarrow> unit result" where
  "check_resubmission J session_id turn prior =
     (let reused = throw Conflict ''Session turn idempotency key was reused'' in
      rbind (jvalue (get_string J) prior ''session_id'' []) (\<lambda>s.
        if s \<noteq> session_id then reused else
      rbind (jvalue (get_string J) prior ''idempotency_key'' []) (\<lambda>old.
      rbind (jvalue (get_string J) turn ''idempotency_key'' []) (\<lambda>new.
        if old \<noteq> new then reused else
      rbind (jvalue Inr prior ''input'' JNull) (\<lambda>old_input.
      rbind (jvalue Inr turn ''input'' JNull) (\<lambda>new_input.
        if \<not> same J old_input new_input then reused else Inr ()))))))"

definition accept_turn ::
  "json_ops \<Rightarrow> session_env \<Rightarrow> string \<Rightarrow> string \<Rightarrow> json \<Rightarrow> json \<Rightarrow> agent_session \<Rightarrow> session_db \<Rightarrow> session_db result" where
  "accept_turn J env session_id turn_id turn event session db =
     (let event_sequence = as_next_sequence session;
          last_turn_sequence = last_sequence (rows_of session_id (sd_turns db));
          turn_sequence = Suc last_turn_sequence
      in if \<not> bigint_ok (uint event_sequence) then throw Capacity ''Agent session sequence is exhausted''
         else if int last_turn_sequence \<ge> 2 ^ 63 - 1
         then throw Capacity ''Agent session turn sequence is exhausted''
         else
           rbind (jat turn ''input'') (\<lambda>input.
           rbind (stamp J (se_fresh env 1)
                    [(''session_id'', JStr session_id), (''sequence'', JUInt (unat event_sequence)),
                     (''type'', JStr ''input.accepted''), (''turn_id'', JStr turn_id),
                     (''payload'', jobject [(''input'', input)])] event) (\<lambda>ev.
           rbind (dump_within J (2 * 1024 * 1024) ev ''Session event exceeds limit'') (\<lambda>_.
           let stored = jputs [(''id'', JStr turn_id), (''session_id'', JStr session_id),
                               (''sequence'', JUInt turn_sequence)] turn
           in rbind (serialize J stored) (\<lambda>_.
              rbind (insert_row turn_id session_id turn_sequence stored (sd_turns db)) (\<lambda>turns.
              rbind (append_event J session_id event_sequence ev (db\<lparr>sd_turns := turns\<rparr>)) (\<lambda>db1.
                put_session J session_id
                  (session\<lparr>as_next_sequence := event_sequence + 1, as_updated_at := se_now env 1\<rparr>) db1)))))))"

definition submit_session_turn ::
  "json_ops \<Rightarrow> session_env \<Rightarrow> string \<Rightarrow> string \<Rightarrow> json \<Rightarrow> json \<Rightarrow> session_db \<Rightarrow> bool result \<times> session_db" where
  "submit_session_turn J env session_id turn_id turn event db =
     guarded
       (if session_id = [] \<or> length session_id > 128 \<or> turn_id = [] \<or> length turn_id > 256 \<or>
           \<not> is_object turn \<or> \<not> jcontains turn ''input'' \<or> \<not> jcontains turn ''idempotency_key''
        then throw Validation ''Invalid session turn''
        else rbind (dump_within J (1024 * 1024) turn ''Invalid session turn'') (\<lambda>_.
             dump_within J (2 * 1024 * 1024) event ''Invalid session turn''))
       db
       (in_transaction ''PostgreSQL session turn failed'' (se_fault env) db
          (rbind (load_session J env session_id db) (\<lambda>session.
           case find_turn db turn_id of
             Some prior \<Rightarrow> rbind (check_resubmission J session_id turn (sn_body prior)) (\<lambda>_. Inr (False, db))
           | None \<Rightarrow>
               if as_state session \<noteq> ''open'' then throw Conflict ''Agent session is closed''
               else rbind (accept_turn J env session_id turn_id turn event session db) (\<lambda>db'. Inr (True, db')))))"

section \<open>Dispatching a turn\<close>

text \<open>\<open>Held\<close> is a turn the caller has claimed already, \<open>Dispatch\<close> one that is free to claim.\<close>

datatype selection = Nothing | Held json | Dispatch json

definition select_active ::
  "json_ops \<Rightarrow> string \<Rightarrow> u64 \<Rightarrow> agent_session \<Rightarrow> json \<Rightarrow> selection result" where
  "select_active J owner_instance fencing_token session turn =
     rbind (jvalue (get_string J) turn ''dispatch_owner'' []) (\<lambda>prior_owner.
     rbind (jvalue (get_uint64 J) turn ''dispatch_fencing_token'' 0) (\<lambda>prior_fence.
     rbind (jvalue (get_string J) turn ''state'' []) (\<lambda>state.
       if state \<noteq> ''claimed'' then Inr Nothing
       else
     rbind (jvalue (get_string J) turn ''run_id'' []) (\<lambda>run_id.
       if run_id \<noteq> [] then Inr Nothing
       else if prior_owner = owner_instance \<and>
               prior_fence = (if fencing_token > 0 then fencing_token else as_dispatch_generation session)
       then Inr (Held turn)
       else if fencing_token > 0 \<and> fencing_token \<le> prior_fence then Inr Nothing
       else Inr (Dispatch turn)))))"

definition queued_turns :: "string \<Rightarrow> session_db \<Rightarrow> session_row list" where
  "queued_turns sid db =
     sort_key sn_sequence
       (filter (\<lambda>r. jsonb_text (sn_body r) ''state'' = Some ''queued'') (rows_of sid (sd_turns db)))"

definition select_turn ::
  "json_ops \<Rightarrow> string \<Rightarrow> string \<Rightarrow> u64 \<Rightarrow> agent_session \<Rightarrow> session_db \<Rightarrow> selection result" where
  "select_turn J session_id owner_instance fencing_token session db =
     (if as_active_turn_id session \<noteq> [] then
        (case find_turn db (as_active_turn_id session) of
           None \<Rightarrow> throw Storage ''Active session turn is missing''
         | Some row \<Rightarrow> select_active J owner_instance fencing_token session (sn_body row))
      else Inr (case queued_turns session_id db of [] \<Rightarrow> Nothing | row # _ \<Rightarrow> Dispatch (sn_body row)))"

definition dispatch_turn ::
  "json_ops \<Rightarrow> session_env \<Rightarrow> string \<Rightarrow> string \<Rightarrow> u64 \<Rightarrow> string \<Rightarrow> json \<Rightarrow> agent_session \<Rightarrow> json \<Rightarrow> session_db \<Rightarrow>
   (json \<times> session_db) result" where
  "dispatch_turn J env session_id owner_instance claim_fence lease_expires_at event session turn db =
     rbind (jget_at (get_string J) turn ''id'') (\<lambda>turn_id.
     rbind (jvalue (get_unsigned J) turn ''dispatch_attempt'' 0) (\<lambda>attempt.
     let attempt_json = JUInt (unat (attempt + 1));
         turn' = jputs [(''state'', JStr ''claimed''), (''dispatch_owner'', JStr owner_instance),
                        (''dispatch_fencing_token'', JUInt (unat claim_fence)),
                        (''dispatch_expires_at'', JStr lease_expires_at),
                        (''dispatch_attempt'', attempt_json)] turn;
         sequence = as_next_sequence session;
         session' = session\<lparr>
           as_active_turn_id := (if as_active_turn_id session = [] then turn_id else as_active_turn_id session),
           as_dispatch_generation := as_dispatch_generation session + 1,
           as_updated_at := se_now env 1, as_next_sequence := sequence + 1\<rparr>
     in rbind (stamp J (se_fresh env 1)
                 [(''session_id'', JStr session_id), (''sequence'', JUInt (unat sequence)),
                  (''turn_id'', JStr turn_id), (''type'', JStr ''turn.execution.claimed''),
                  (''payload'', jobject [(''state'', JStr ''claimed''), (''dispatch_attempt'', attempt_json)])]
                 event) (\<lambda>ev.
        rbind (put_turn J turn_id turn' db) (\<lambda>db1.
        rbind (append_event J session_id sequence ev db1) (\<lambda>db2.
        rbind (put_session J session_id session' db2) (\<lambda>db3. Inr (turn', db3)))))))"

definition claim_next_session_turn ::
  "json_ops \<Rightarrow> session_env \<Rightarrow> string \<Rightarrow> string \<Rightarrow> u64 \<Rightarrow> string \<Rightarrow> json \<Rightarrow> session_db \<Rightarrow>
   json option result \<times> session_db" where
  "claim_next_session_turn J env session_id owner_instance fencing_token lease_expires_at event db =
     guarded
       (if session_id = [] \<or> owner_instance = [] \<or> (fencing_token \<noteq> 0 \<and> lease_expires_at = [])
        then throw Validation ''Invalid session dispatch ownership'' else Inr ())
       db
       (in_transaction ''PostgreSQL session claim failed'' (se_fault env) db
          (rbind (check_lease ''Session dispatch lease is stale'' (''session:'' @ session_id)
                    owner_instance fencing_token env) (\<lambda>_.
           rbind (load_session J env session_id db) (\<lambda>session.
           let claim_fence = (if fencing_token > 0 then fencing_token else as_dispatch_generation session + 1)
           in if as_state session \<noteq> ''open'' then Inr (None, db)
              else
                rbind (select_turn J session_id owner_instance fencing_token session db) (\<lambda>sel.
                case sel of
                  Nothing \<Rightarrow> Inr (None, db)
                | Held turn \<Rightarrow> Inr (Some turn, db)
                | Dispatch turn \<Rightarrow>
                    rbind (dispatch_turn J env session_id owner_instance claim_fence lease_expires_at
                             event session turn db) (\<lambda>(turn', db'). Inr (Some turn', db')))))))"

section \<open>Context generations\<close>

definition generation_rows :: "string \<Rightarrow> session_db \<Rightarrow> json list" where
  "generation_rows sid db =
     map row_body (filter (\<lambda>row. row_run_id row = sid) (sd_store db KSessionContextGeneration))"

text \<open>\<^verbatim>\<open>ORDER BY sequence DESC LIMIT 1\<close>: the identity column grows with every insertion.\<close>

definition latest_row :: "string \<Rightarrow> session_db \<Rightarrow> json option" where
  "latest_row sid db = (case generation_rows sid db of [] \<Rightarrow> None | rows \<Rightarrow> Some (last rows))"

definition finished_states :: "string list" where
  "finished_states = [''succeeded'', ''failed'', ''cancelled'']"

definition check_history :: "json_ops \<Rightarrow> session_row list \<Rightarrow> nat result" where
  "check_history J rows =
     foldM (\<lambda>row seen.
       rbind (jvalue (get_string J) (sn_body row) ''state'' []) (\<lambda>state.
         if sn_sequence row \<noteq> Suc seen \<or> state \<notin> set finished_states
         then throw Conflict ''Context generation boundary includes unfinished history''
         else Inr (Suc seen))) rows 0"

text \<open>The table is unique in the generation number and in the idempotency key of a session.\<close>

definition insert_generation :: "json_ops \<Rightarrow> string \<Rightarrow> session_context_generation \<Rightarrow> session_db \<Rightarrow> session_db result" where
  "insert_generation J sid g db =
     (let body = context_generation_to_json g in
      rbind (serialize J body) (\<lambda>_.
        if lookup (sd_store db) KSessionContextGeneration (cg_id g) \<noteq> None \<or>
           (\<exists>b \<in> set (generation_rows sid db).
              jat b ''generation'' = Inr (JUInt (unat (cg_generation g))) \<or>
              jsonb_text b ''idempotency_key'' = Some (cg_idempotency_key g))
        then Inl (translate_sql_error ''23505'')
        else Inr (db\<lparr>sd_store := upsert \<lparr>sr_kind = KSessionContextGeneration, sr_id = cg_id g,
                                        sr_run_id = sid, sr_value = body\<rparr> (sd_store db)\<rparr>)))"

definition extend_generation ::
  "json_ops \<Rightarrow> session_env \<Rightarrow> string \<Rightarrow> u64 \<Rightarrow> u64 \<Rightarrow> string \<Rightarrow> string \<Rightarrow> string \<Rightarrow> json \<Rightarrow> session_db \<Rightarrow>
   (json \<times> session_db) result" where
  "extend_generation J env session_id expected_generation through_turn_sequence idempotency_key
       representation_kind representation_version payload db =
     rbind (case latest_row session_id db of
              None \<Rightarrow> Inr (0, 0, [])
            | Some body \<Rightarrow>
                rbind (context_generation_from_json J (se_fresh env 1) (se_now env 1) body) (\<lambda>prior.
                  Inr (cg_generation prior, cg_through_turn_sequence prior, cg_id prior)))
       (\<lambda>(current_generation, current_boundary, predecessor_id).
        if expected_generation \<noteq> current_generation
        then throw Conflict ''Session context generation revision is stale''
        else if through_turn_sequence < current_boundary
        then throw Conflict ''Context generation boundary cannot move backward''
        else if uint current_generation \<ge> 2 ^ 63 - 1
        then throw Capacity ''Session context generation number is exhausted''
        else
          rbind (check_history J (sort_key sn_sequence
                   (filter (\<lambda>r. sn_sequence r \<le> unat through_turn_sequence)
                     (rows_of session_id (sd_turns db))))) (\<lambda>seen.
            if seen \<noteq> unat through_turn_sequence
            then throw Validation ''Context generation boundary is outside session history''
            else
              let g = \<lparr>cg_id = se_fresh env 2, cg_session_id = session_id, cg_predecessor_id = predecessor_id,
                       cg_created_at = se_now env 2, cg_generation = current_generation + 1,
                       cg_through_turn_sequence = through_turn_sequence,
                       cg_representation_kind = representation_kind,
                       cg_representation_version = representation_version,
                       cg_idempotency_key = idempotency_key, cg_payload = payload\<rparr>
              in rbind (insert_generation J session_id g db) (\<lambda>db'.
                   Inr (context_generation_to_json g, db'))))"

definition same_generation :: "json_ops \<Rightarrow> session_context_generation \<Rightarrow> u64 \<Rightarrow> string \<Rightarrow> string \<Rightarrow> json \<Rightarrow> bool" where
  "same_generation J prior through_turn_sequence representation_kind representation_version payload \<longleftrightarrow>
     cg_through_turn_sequence prior = through_turn_sequence \<and>
     cg_representation_kind prior = representation_kind \<and>
     cg_representation_version prior = representation_version \<and> same J (cg_payload prior) payload"

definition create_session_context_generation ::
  "json_ops \<Rightarrow> session_env \<Rightarrow> string \<Rightarrow> u64 \<Rightarrow> u64 \<Rightarrow> string \<Rightarrow> string \<Rightarrow> string \<Rightarrow> json \<Rightarrow> session_db \<Rightarrow>
   json result \<times> session_db" where
  "create_session_context_generation J env session_id expected_generation through_turn_sequence
       idempotency_key representation_kind representation_version payload db =
     guarded
       (if session_id = [] \<or> length session_id > 128 \<or> idempotency_key = [] \<or> length idempotency_key > 256 \<or>
           representation_kind = [] \<or> length representation_kind > 128 \<or> representation_version = [] \<or>
           length representation_version > 128
        then throw Validation ''Invalid session context generation''
        else rbind (dump_within J (1024 * 1024) payload ''Invalid session context generation'') (\<lambda>_.
          if \<not> bigint_ok (uint through_turn_sequence)
          then throw Validation ''Invalid session context generation'' else Inr ()))
       db
       (in_transaction ''PostgreSQL context generation write failed'' (se_fault env) db
          (if lookup (sd_store db) KAgentSession session_id = None
           then throw NotFound ''Agent session not found''
           else
             case find (\<lambda>body. jsonb_text body ''idempotency_key'' = Some idempotency_key)
                    (generation_rows session_id db) of
               Some body \<Rightarrow>
                 rbind (context_generation_from_json J (se_fresh env 0) (se_now env 0) body) (\<lambda>prior.
                   if \<not> same_generation J prior through_turn_sequence representation_kind
                         representation_version payload
                   then throw Conflict ''Context generation idempotency key was reused''
                   else Inr (context_generation_to_json prior, db))
             | None \<Rightarrow>
                 extend_generation J env session_id expected_generation through_turn_sequence idempotency_key
                   representation_kind representation_version payload db))"

section \<open>Binding a run to a claimed turn\<close>

definition continuation_entry :: "json_ops \<Rightarrow> string \<Rightarrow> json \<Rightarrow> json option result" where
  "continuation_entry J session_id c =
     rbind (jvalue (get_string J) c ''scope'' []) (\<lambda>scope.
       if scope \<noteq> ''current'' then Inr None else
     rbind (jvalue (get_string J) c ''session_id'' []) (\<lambda>sid.
       if sid \<noteq> session_id then Inr None else
     rbind (jvalue (get_string J) c ''provider_id'' []) (\<lambda>provider_id.
       if provider_id = [] then Inr None else
     rbind (jvalue (get_string J) c ''provider_version'' []) (\<lambda>provider_version.
       if provider_version = [] then Inr None else
     rbind (jvalue (get_string J) c ''state'' []) (\<lambda>state.
       if state = [] then Inr None else
     rbind (jat c ''provider_id'') (\<lambda>p.
     rbind (jat c ''provider_version'') (\<lambda>v.
     rbind (jat c ''state'') (\<lambda>st.
       Inr (Some (jobject [(''provider_id'', p), (''provider_version'', v), (''state'', st)]))))))))))"

definition session_continuations :: "json_ops \<Rightarrow> string \<Rightarrow> session_db \<Rightarrow> json list result" where
  "session_continuations J session_id db =
     rbind (mapM (continuation_entry J session_id)
              (map row_body (filter (\<lambda>row. row_run_id row = session_id) (sd_store db KSessionContinuation))))
       (\<lambda>entries. Inr (map the (filter (\<lambda>e. e \<noteq> None) entries)))"

definition make_snapshot ::
  "json_ops \<Rightarrow> session_env \<Rightarrow> string \<Rightarrow> string \<Rightarrow> string \<Rightarrow> json \<Rightarrow> session_db \<Rightarrow> run_context_snapshot result" where
  "make_snapshot J env session_id turn_id run_id turn db =
     rbind (jvalue (get_uint64 J) turn ''sequence'' 0) (\<lambda>turn_sequence.
     let base = \<lparr>cs_run_id = run_id, cs_session_id = session_id, cs_session_turn_id = turn_id,
                 cs_created_at = se_now env 3, cs_context_generation_id = [],
                 cs_context_generation_predecessor_id = [], cs_turn_sequence = turn_sequence,
                 cs_history_through_turn_sequence = turn_sequence, cs_context_generation = 0,
                 cs_context_through_turn_sequence = 0, cs_representation_kind = [],
                 cs_representation_version = [], cs_provider_continuations = JArr []\<rparr>
     in rbind (case latest_row session_id db of
                 None \<Rightarrow> Inr base
               | Some body \<Rightarrow>
                   rbind (context_generation_from_json J (se_fresh env 3) (se_now env 3) body) (\<lambda>g.
                     if cg_session_id g \<noteq> session_id \<or> cg_through_turn_sequence g \<ge> turn_sequence
                     then throw Conflict ''Session context generation is ahead of this turn''
                     else Inr (base\<lparr>cs_context_generation_id := cg_id g,
                                    cs_context_generation := cg_generation g,
                                    cs_context_generation_predecessor_id := cg_predecessor_id g,
                                    cs_context_through_turn_sequence := cg_through_turn_sequence g,
                                    cs_representation_kind := cg_representation_kind g,
                                    cs_representation_version := cg_representation_version g\<rparr>)))
          (\<lambda>snapshot.
           rbind (session_continuations J session_id db) (\<lambda>entries.
             Inr (snapshot\<lparr>cs_provider_continuations := JArr entries\<rparr>))))"

definition insert_snapshot :: "json_ops \<Rightarrow> string \<Rightarrow> run_context_snapshot \<Rightarrow> session_db \<Rightarrow> session_db result" where
  "insert_snapshot J run_id snapshot db =
     rbind (serialize J (context_snapshot_to_json snapshot)) (\<lambda>_.
       if lookup (sd_store db) KRunContextSnapshot run_id \<noteq> None then Inl (translate_sql_error ''23505'')
       else Inr (db\<lparr>sd_store := upsert \<lparr>sr_kind = KRunContextSnapshot, sr_id = run_id, sr_run_id = run_id,
                                       sr_value = context_snapshot_to_json snapshot\<rparr> (sd_store db)\<rparr>))"

definition drop_dispatch :: "json \<Rightarrow> json" where
  "drop_dispatch turn =
     jerase ''dispatch_expires_at'' (jerase ''dispatch_fencing_token'' (jerase ''dispatch_owner'' turn))"

text \<open>Whether the turn is still the caller's: the conditions in the order the code tests them.\<close>

definition claim_current :: "json_ops \<Rightarrow> string \<Rightarrow> string \<Rightarrow> u64 \<Rightarrow> agent_session \<Rightarrow> json \<Rightarrow> unit result" where
  "claim_current J turn_id owner_instance expected_claim_fence session turn =
     (let lost = throw Conflict ''Session turn claim is no longer current'' in
      if as_state session \<noteq> ''open'' \<or> as_active_turn_id session \<noteq> turn_id then lost
      else
        rbind (jvalue (get_string J) turn ''state'' []) (\<lambda>state.
          if state \<noteq> ''claimed'' then lost else
        rbind (jvalue (get_string J) turn ''dispatch_owner'' []) (\<lambda>owner.
          if owner \<noteq> owner_instance then lost else
        rbind (jvalue (get_uint64 J) turn ''dispatch_fencing_token'' 0) (\<lambda>fence.
          if fence \<noteq> expected_claim_fence then lost else
        rbind (jvalue (get_string J) turn ''run_id'' []) (\<lambda>run_id.
          if run_id \<noteq> [] then lost else Inr ())))))"

definition start_turn ::
  "json_ops \<Rightarrow> session_env \<Rightarrow> string \<Rightarrow> string \<Rightarrow> json \<Rightarrow> json \<Rightarrow> json \<Rightarrow> agent_session \<Rightarrow> json \<Rightarrow> session_db \<Rightarrow>
   session_db result" where
  "start_turn J env session_id turn_id run run_event session_event session turn db =
     rbind (jget_at (get_string J) run ''id'') (\<lambda>run_id.
     let turn' = drop_dispatch (jputs [(''state'', JStr ''running''), (''run_id'', JStr run_id),
                                       (''started_at'', JStr (se_now env 1))] turn);
         sequence = as_next_sequence session;
         session' = session\<lparr>as_active_run_id := run_id, as_updated_at := se_now env 2,
                            as_next_sequence := sequence + 1\<rparr>
     in rbind (stamp J (se_fresh env 1)
                 [(''session_id'', JStr session_id), (''sequence'', JUInt (unat sequence)),
                  (''turn_id'', JStr turn_id), (''run_id'', JStr run_id),
                  (''type'', JStr ''turn.execution.started''),
                  (''payload'', jobject [(''state'', JStr ''running''), (''run_id'', JStr run_id)])]
                 session_event) (\<lambda>ev.
        rbind (jvalue (get_string J) run_event ''id'' (se_fresh env 2)) (\<lambda>run_event_id.
        let run_event' = jputs [(''id'', JStr run_event_id), (''run_id'', JStr run_id)] run_event in
        rbind (write_records J (se_fresh env 0) (se_now env 0) (se_now env 0)
                 [\<lparr>sr_kind = KRun, sr_id = run_id, sr_run_id = run_id, sr_value = jput ''id'' (JStr run_id) run\<rparr>,
                  \<lparr>sr_kind = KEvent, sr_id = run_event_id, sr_run_id = run_id, sr_value = run_event'\<rparr>]
                 (sd_store db)) (\<lambda>st.
        let db1 = db\<lparr>sd_store := st\<rparr> in
        rbind (make_snapshot J env session_id turn_id run_id turn' db1) (\<lambda>snapshot.
        rbind (insert_snapshot J run_id snapshot db1) (\<lambda>db2.
        rbind (put_turn J turn_id turn' db2) (\<lambda>db3.
        rbind (append_event J session_id sequence ev db3) (\<lambda>db4.
          put_session J session_id session' db4))))))))"

definition bind_session_turn_run ::
  "json_ops \<Rightarrow> session_env \<Rightarrow> string \<Rightarrow> string \<Rightarrow> json \<Rightarrow> json \<Rightarrow> string \<Rightarrow> u64 \<Rightarrow> json \<Rightarrow> session_db \<Rightarrow>
   bool result \<times> session_db" where
  "bind_session_turn_run J env session_id turn_id run run_event owner_instance fencing_token session_event db =
     guarded
       (let invalid = throw Validation ''Invalid session run binding'' in
        if session_id = [] \<or> turn_id = [] \<or> owner_instance = [] \<or> \<not> is_object run \<or> \<not> is_object run_event
        then invalid
        else rbind (jvalue (get_string J) run ''session_id'' []) (\<lambda>s.
          if s \<noteq> session_id then invalid else
             rbind (jvalue (get_string J) run ''session_turn_id'' []) (\<lambda>t.
          if t \<noteq> turn_id then invalid else Inr ())))
       db
       (in_transaction ''PostgreSQL session run binding failed'' (se_fault env) db
          (rbind (check_lease ''Session dispatch lease is stale'' (''session:'' @ session_id)
                    owner_instance fencing_token env) (\<lambda>_.
           rbind (load_session J env session_id db) (\<lambda>session.
           case find_turn db turn_id of
             None \<Rightarrow> throw NotFound ''Session turn not found''
           | Some row \<Rightarrow>
               let turn = sn_body row;
                   expected = (if fencing_token > 0 then fencing_token else as_dispatch_generation session)
               in rbind (jvalue (get_string J) turn ''session_id'' []) (\<lambda>s.
                  if s \<noteq> session_id then throw Conflict ''Session turn belongs to another session''
                  else
                  rbind (jvalue (get_string J) turn ''state'' []) (\<lambda>state.
                  rbind (if state = ''running''
                         then rbind (jvalue (get_string J) turn ''run_id'' []) (\<lambda>bound.
                              rbind (jget_at (get_string J) run ''id'') (\<lambda>run_id. Inr (bound = run_id)))
                         else Inr False) (\<lambda>already.
                  if already then Inr (False, db)
                  else
                    rbind (claim_current J turn_id owner_instance expected session turn) (\<lambda>_.
                    rbind (start_turn J env session_id turn_id run run_event session_event session turn db)
                      (\<lambda>db'. Inr (True, db'))))))))))"

section \<open>Completing a turn\<close>

definition turn_outcome :: "run_state \<Rightarrow> string" where
  "turn_outcome state =
     (if state = RCompleted then ''succeeded'' else if state = RCancelled then ''cancelled'' else ''failed'')"

definition finish_turn :: "session_env \<Rightarrow> string \<Rightarrow> json \<Rightarrow> json \<Rightarrow> json" where
  "finish_turn env outcome result turn =
     drop_dispatch (jputs
       ([(''state'', JStr outcome), (''completed_at'', JStr (se_now env 1)), (''result'', result)] @
        (if outcome = ''failed'' then [(''error'', JStr ''execution_failed'')]
         else if outcome = ''cancelled'' then [(''error'', JStr ''execution_cancelled'')] else [])) turn)"

definition outcome_event ::
  "json_ops \<Rightarrow> session_env \<Rightarrow> run \<Rightarrow> string \<Rightarrow> u64 \<Rightarrow> json \<Rightarrow> json \<Rightarrow> json result" where
  "outcome_event J env r outcome sequence turn session_event =
     (let payload = jobject [(''state'', JStr outcome), (''run_id'', JStr (r_id r))] in
      rbind (if outcome = ''succeeded'' then Inr (jput ''result'' (m_payload (r_message r)) payload)
             else rbind (jat turn ''error'') (\<lambda>e. Inr (jput ''error'' e payload))) (\<lambda>payload'.
      rbind (stamp J (se_fresh env 1)
               [(''session_id'', JStr (r_session_id r)), (''sequence'', JUInt (unat sequence)),
                (''turn_id'', JStr (r_session_turn_id r)), (''run_id'', JStr (r_id r)),
                (''type'', JStr (if outcome = ''succeeded'' then ''turn.execution.completed''
                                else if outcome = ''cancelled'' then ''turn.execution.cancelled''
                                else ''turn.execution.failed'')),
                (''payload'', payload')] session_event) (\<lambda>ev.
        if \<not> dump_ok J ev then Inl JsonTypeError
        else if length (dump J ev) > 2 * 1024 * 1024
        then Inr (jput ''payload'' (jput ''result_in_run'' (JBool True) (jerase ''result'' payload')) ev)
        else Inr ev)))"

definition complete_turn ::
  "json_ops \<Rightarrow> session_env \<Rightarrow> store_record list \<Rightarrow> run \<Rightarrow> json \<Rightarrow> agent_session \<Rightarrow> json \<Rightarrow> session_db \<Rightarrow>
   session_db result" where
  "complete_turn J env records r session_event session turn db =
     (let outcome = turn_outcome (r_state r);
          turn' = finish_turn env outcome (m_payload (r_message r)) turn;
          sequence = as_next_sequence session;
          session' = session\<lparr>as_active_turn_id := [], as_active_run_id := [], as_updated_at := se_now env 2,
                             as_next_sequence := sequence + 1\<rparr>;
          sid = r_session_id r
      in rbind (outcome_event J env r outcome sequence turn' session_event) (\<lambda>ev.
         rbind (write_records J (se_fresh env 0) (se_now env 0) (se_now env 0) records (sd_store db)) (\<lambda>st.
         rbind (put_turn J (r_session_turn_id r) turn' (db\<lparr>sd_store := st\<rparr>)) (\<lambda>db1.
         rbind (append_event J sid sequence ev db1) (\<lambda>db2.
         if as_state session' = ''closing'' then
           (let closed_sequence = as_next_sequence session' in
            if \<not> bigint_ok (uint closed_sequence) then throw Capacity ''Agent session sequence is exhausted''
            else
              rbind (append_event J sid closed_sequence
                       (jobject [(''id'', JStr (se_fresh env 2)), (''session_id'', JStr sid),
                                 (''sequence'', JUInt (unat closed_sequence)),
                                 (''type'', JStr ''session.closed''),
                                 (''payload'', jobject [(''state'', JStr ''closed'')])]) db2) (\<lambda>db3.
              put_session J sid
                (session'\<lparr>as_state := ''closed'', as_updated_at := se_now env 3,
                          as_next_sequence := closed_sequence + 1\<rparr>) db3))
         else put_session J sid session' db2)))))"

definition completion_current :: "json_ops \<Rightarrow> run \<Rightarrow> agent_session \<Rightarrow> json \<Rightarrow> string \<Rightarrow> unit result" where
  "completion_current J r session turn prior_state =
     (let lost = throw Conflict ''Session completion is no longer current'' in
      if as_active_run_id session \<noteq> r_id r \<or> as_active_turn_id session \<noteq> r_session_turn_id r then lost
      else
        rbind (jvalue (get_string J) turn ''session_id'' []) (\<lambda>s.
          if s \<noteq> r_session_id r then lost else
        rbind (jvalue (get_string J) turn ''run_id'' []) (\<lambda>bound.
          if bound \<noteq> r_id r \<or> prior_state \<noteq> ''running'' then lost else Inr ())))"

definition commit_session_run ::
  "json_ops \<Rightarrow> session_env \<Rightarrow> store_record list \<Rightarrow> string \<Rightarrow> u64 \<Rightarrow> json \<Rightarrow> session_db \<Rightarrow>
   unit result \<times> session_db" where
  "commit_session_run J env records owner_instance fencing_token session_event db =
     (if (fencing_token = 0 \<and> owner_instance \<noteq> []) \<or> (fencing_token > 0 \<and> owner_instance = [])
      then (throw Validation ''Invalid session run ownership proof'', db)
      else case find (\<lambda>r. sr_kind r = KRun) records of
        None \<Rightarrow> (throw Validation ''Session completion has no run record'', db)
      | Some rec \<Rightarrow>
          (case run_from_json J (sr_value rec) of
             Inl e \<Rightarrow> (Inl e, db)
           | Inr r \<Rightarrow>
               if r_session_id r = [] \<or> r_session_turn_id r = [] \<or> \<not> terminal (r_state r)
               then (throw Validation ''Invalid session completion'', db)
               else
                 in_transaction ''PostgreSQL session completion failed'' (se_fault env) db
                   (rbind (check_lease ''Run ownership is no longer valid'' (''run:'' @ r_id r)
                             owner_instance fencing_token env) (\<lambda>_.
                    rbind (load_session J env (r_session_id r) db) (\<lambda>session.
                    case find_turn db (r_session_turn_id r) of
                      None \<Rightarrow> throw NotFound ''Session turn not found''
                    | Some row \<Rightarrow>
                        let turn = sn_body row in
                        rbind (jvalue (get_string J) turn ''state'' []) (\<lambda>prior_state.
                        rbind (if prior_state = turn_outcome (r_state r)
                               then rbind (jvalue (get_string J) turn ''run_id'' []) (\<lambda>bound. Inr (bound = r_id r))
                               else Inr False) (\<lambda>already.
                        if already then Inr ((), db)
                        else
                          rbind (completion_current J r session turn prior_state) (\<lambda>_.
                          rbind (complete_turn J env records r session_event session turn db) (\<lambda>db'.
                            Inr ((), db'))))))))))"

section \<open>Closing a session\<close>

text \<open>
  The state of the handler's two local functions: the session and the tables as they stand, and the
  number of events appended so far, which indexes the identifiers and times drawn.
\<close>

type_synonym closing = "nat \<times> agent_session \<times> session_db"

definition closing_event ::
  "json_ops \<Rightarrow> session_env \<Rightarrow> string \<Rightarrow> string \<Rightarrow> string \<Rightarrow> string \<Rightarrow> json \<Rightarrow> closing \<Rightarrow> closing result" where
  "closing_event J env session_id type turn_id run_id payload c =
     (case c of (n, session, db) \<Rightarrow>
        if \<not> bigint_ok (uint (as_next_sequence session)) then throw Capacity ''Agent session sequence is exhausted''
        else
          let sequence = as_next_sequence session;
              event = jputs ((if turn_id = [] then [] else [(''turn_id'', JStr turn_id)]) @
                             (if run_id = [] then [] else [(''run_id'', JStr run_id)]))
                        (jobject [(''id'', JStr (se_fresh env n)), (''session_id'', JStr session_id),
                                  (''sequence'', JUInt (unat sequence)), (''type'', JStr type),
                                  (''payload'', payload)])
          in rbind (append_event J session_id sequence event db) (\<lambda>db'.
               Inr (Suc n, session\<lparr>as_next_sequence := sequence + 1\<rparr>, db')))"

definition cancel_turn :: "string \<Rightarrow> json \<Rightarrow> json" where
  "cancel_turn now turn =
     drop_dispatch (jputs [(''state'', JStr ''cancelled''), (''error'', JStr ''session_closed''),
                           (''completed_at'', JStr now)] turn)"

definition persist_turn :: "json_ops \<Rightarrow> session_env \<Rightarrow> string \<Rightarrow> json \<Rightarrow> closing \<Rightarrow> closing result" where
  "persist_turn J env session_id turn c =
     (case c of (n, session, db) \<Rightarrow>
        rbind (jget_at (get_string J) turn ''id'') (\<lambda>turn_id.
        rbind (put_turn J turn_id (cancel_turn (se_now env n) turn) db) (\<lambda>db'.
          closing_event J env session_id ''turn.execution.cancelled'' turn_id []
            (jobject [(''state'', JStr ''cancelled''), (''reason'', JStr ''session_closed'')])
            (n, session, db'))))"

definition sweep_turn :: "json_ops \<Rightarrow> session_env \<Rightarrow> string \<Rightarrow> bool \<Rightarrow> session_row \<Rightarrow> closing \<Rightarrow> closing result" where
  "sweep_turn J env session_id has_active_run row c =
     rbind (jvalue (get_string J) (sn_body row) ''state'' []) (\<lambda>state.
       if state = ''queued'' \<or> (\<not> has_active_run \<and> state = ''claimed'')
       then persist_turn J env session_id (sn_body row) c else Inr c)"

text \<open>Assigning a member of a value that is neither an object nor null is a type error.\<close>

definition request_turn_cancellation :: "json_ops \<Rightarrow> session_env \<Rightarrow> string \<Rightarrow> closing \<Rightarrow> closing result" where
  "request_turn_cancellation J env session_id c =
     (case c of (n, session, db) \<Rightarrow>
        if as_active_turn_id session = [] then Inr c
        else case find_turn db (as_active_turn_id session) of
          None \<Rightarrow> throw Storage ''Active session turn is missing''
        | Some row \<Rightarrow>
            if \<not> is_object (sn_body row) \<and> sn_body row \<noteq> JNull then Inl JsonTypeError
            else
              rbind (put_turn J (as_active_turn_id session)
                       (jput ''cancellation_requested'' (JBool True) (sn_body row)) db) (\<lambda>db'.
                closing_event J env session_id ''turn.execution.cancel_requested''
                  (as_active_turn_id session) (as_active_run_id session)
                  (jobject [(''state'', JStr ''cancellation_requested'')]) (n, session, db')))"

definition cancel_active_turn :: "json_ops \<Rightarrow> session_env \<Rightarrow> string \<Rightarrow> closing \<Rightarrow> closing result" where
  "cancel_active_turn J env session_id c =
     (case c of (n, session, db) \<Rightarrow>
        if as_active_turn_id session = [] then Inr c
        else
          rbind (case find_turn db (as_active_turn_id session) of
                   None \<Rightarrow> Inr c
                 | Some row \<Rightarrow>
                     rbind (jvalue (get_string J) (sn_body row) ''state'' []) (\<lambda>state.
                       if state = ''claimed'' \<or> state = ''queued''
                       then persist_turn J env session_id (sn_body row) c else Inr c))
            (\<lambda>(n', session', db'). Inr (n', session'\<lparr>as_active_turn_id := []\<rparr>, db')))"

definition first_close :: "json_ops \<Rightarrow> session_env \<Rightarrow> string \<Rightarrow> agent_session \<Rightarrow> session_db \<Rightarrow> closing result" where
  "first_close J env session_id session db =
     (let has_active_run = as_active_run_id session \<noteq> [];
          session' = session\<lparr>as_state := (if has_active_run then ''closing'' else ''closed''),
                             as_updated_at := se_now env 1\<rparr>
      in rbind (closing_event J env session_id ''session.closing'' [] []
                  (jobject [(''state'', JStr ''closing'')]) (1, session', db)) (\<lambda>c1.
         rbind (if has_active_run then request_turn_cancellation J env session_id c1
                else cancel_active_turn J env session_id c1) (\<lambda>c2.
         rbind (foldM (sweep_turn J env session_id has_active_run)
                  (sort_key sn_sequence (rows_of session_id (sd_turns (snd (snd c2))))) c2) (\<lambda>(n, session3, db3).
           if has_active_run then Inr (n, session3, db3)
           else closing_event J env session_id ''session.closed'' [] []
                  (jobject [(''state'', JStr ''closed'')]) (n, session3\<lparr>as_active_run_id := []\<rparr>, db3)))))"

definition close_agent_session ::
  "json_ops \<Rightarrow> session_env \<Rightarrow> string \<Rightarrow> session_db \<Rightarrow> bool result \<times> session_db" where
  "close_agent_session J env session_id db =
     guarded
       (if session_id = [] \<or> length session_id > 128 then throw Validation ''Invalid agent session id'' else Inr ())
       db
       (in_transaction ''PostgreSQL session close failed'' (se_fault env) db
          (rbind (load_session J env session_id db) (\<lambda>session.
             if as_state session = ''closed'' then Inr (False, db)
             else
               rbind (if as_state session \<noteq> ''closing'' then first_close J env session_id session db
                      else Inr (1, session, db)) (\<lambda>(n, session', db').
               rbind (put_session J session_id (session'\<lparr>as_updated_at := se_now env n\<rparr>) db') (\<lambda>db''.
                 Inr (True, db''))))))"

section \<open>Reading\<close>

definition session_events ::
  "fault option \<Rightarrow> string \<Rightarrow> u64 \<Rightarrow> nat \<Rightarrow> session_db \<Rightarrow> json list result" where
  "session_events fault session_id after limit db =
     (if session_id = [] \<or> length session_id > 128 \<or> limit = 0 \<or> limit > 1000 \<or> \<not> bigint_ok (uint after)
      then throw Validation ''Invalid session event page''
      else
        fst (in_transaction ''PostgreSQL session event read failed'' fault db
          (Inr (map sn_body (take limit (sort_key sn_sequence
             (filter (\<lambda>r. sn_sequence r > unat after) (rows_of session_id (sd_events db))))), db))))"

definition latest_session_context_generation ::
  "fault option \<Rightarrow> string \<Rightarrow> session_db \<Rightarrow> json option result" where
  "latest_session_context_generation fault session_id db =
     (if session_id = [] \<or> length session_id > 128 then throw Validation ''Invalid agent session ID''
      else fst (in_transaction ''PostgreSQL context generation read failed'' fault db
             (Inr (latest_row session_id db, db))))"

definition session_turns_between ::
  "fault option \<Rightarrow> string \<Rightarrow> u64 \<Rightarrow> u64 \<Rightarrow> nat \<Rightarrow> session_db \<Rightarrow> json list result" where
  "session_turns_between fault session_id after through limit db =
     (if session_id = [] \<or> length session_id > 128 \<or> through < after \<or> limit = 0 \<or> limit > 1000 \<or>
         \<not> bigint_ok (uint through)
      then throw Validation ''Invalid session turn range''
      else
        fst (in_transaction ''PostgreSQL session turn read failed'' fault db
          (Inr (map sn_body (take limit (sort_key sn_sequence
             (filter (\<lambda>r. sn_sequence r > unat after \<and> sn_sequence r \<le> unat through)
               (rows_of session_id (sd_turns db))))), db))))"

section \<open>The service's side of a submission\<close>

text \<open>
  \<^verbatim>\<open>src/application/service.cpp\<close>: a new session, and the identity and first body of a submitted turn. The
  turn's identifier is an FNV-1a fingerprint of the idempotency key.
\<close>

definition new_session :: "string \<Rightarrow> string \<Rightarrow> string \<Rightarrow> agent_session" where
  "new_session fresh now pipeline_id =
     \<lparr>as_id = fresh, as_pipeline_id = pipeline_id, as_state = ''open'', as_created_at = now,
      as_updated_at = now, as_active_turn_id = [], as_active_run_id = [], as_dispatch_generation = 0,
      as_next_sequence = 1\<rparr>"

definition create_session ::
  "json_ops \<Rightarrow> session_env \<Rightarrow> string \<Rightarrow> session_db \<Rightarrow> unit result \<times> session_db" where
  "create_session J env pipeline_id db =
     (let session = new_session (se_fresh env 0) (se_now env 0) pipeline_id;
          (res, st) = commit J (se_fresh env 1) (se_now env 1) (se_now env 1) (se_fault env)
            [\<lparr>sr_kind = KAgentSession, sr_id = as_id session, sr_run_id = as_id session,
              sr_value = agent_session_to_json session\<rparr>] (sd_store db)
      in (res, db\<lparr>sd_store := st\<rparr>))"

definition fnv1a :: "string \<Rightarrow> u64" where
  "fnv1a key = fold (\<lambda>c hash. (hash XOR of_nat (of_char c)) * 1099511628211) key 1469598103934665603"

fun hex_digits :: "nat \<Rightarrow> string" where
  "hex_digits n = (if n < 16 then [hex_digit n] else hex_digits (n div 16) @ [hex_digit (n mod 16)])"

definition session_turn_id :: "string \<Rightarrow> string \<Rightarrow> string" where
  "session_turn_id session_id idempotency_key =
     session_id @ ''-turn-'' @ hex_digits (unat (fnv1a idempotency_key))"

definition new_turn :: "string \<Rightarrow> json \<Rightarrow> string \<Rightarrow> string \<Rightarrow> json" where
  "new_turn idempotency_key input now pipeline_id =
     jobject [(''idempotency_key'', JStr idempotency_key), (''input'', input), (''state'', JStr ''queued''),
              (''accepted_at'', JStr now), (''pipeline_id'', JStr pipeline_id)]"

section \<open>What the parts of a transaction touch\<close>

lemma put_session_store: "put_session J sid s db = Inr db' \<Longrightarrow> kind \<noteq> KAgentSession \<Longrightarrow> sd_store db' kind = sd_store db kind"
  by (auto simp: put_session_def set_body_def elim!: rbindE)

lemma put_turn_store: "put_turn J tid turn db = Inr db' \<Longrightarrow> sd_store db' = sd_store db"
  by (auto simp: put_turn_def elim!: rbindE)

lemma append_event_store: "append_event J sid seq e db = Inr db' \<Longrightarrow> sd_store db' = sd_store db"
  by (auto simp: append_event_def elim!: rbindE)

lemma transaction_rule:
  assumes "P db" and "\<And>a db'. body = Inr (a, db') \<Longrightarrow> P db'"
  shows "P (snd (in_transaction what fault db body))"
  using assms in_transaction_state [of what fault db body] by auto

lemma snd_if: "(c \<Longrightarrow> P (snd a)) \<Longrightarrow> (\<not> c \<Longrightarrow> P (snd b)) \<Longrightarrow> P (snd (if c then a else b))"
  by simp

lemma guarded_transaction:
  assumes "P db" and "\<And>a db'. body = Inr (a, db') \<Longrightarrow> P db'"
  shows "P (snd (guarded g db (in_transaction what fault db body)))"
  using assms in_transaction_state [of what fault db body] by (auto simp: guarded_def split: sum.split)

end
