(* ===== verification/Laso_Session_Invariant.thy ===== *)
theory Laso_Session_Invariant
  imports Laso_Session
begin

text \<open>
  What the session operations promise together: the log of a session is gapless and only grows, at
  most one of its turns is being worked on, a turn is accepted once and finishes once, a closed session
  stays as it is.
\<close>

section \<open>Fields of a body\<close>

definition field :: "json \<Rightarrow> string \<Rightarrow> json option" where
  "field j k = (case j of JObj m \<Rightarrow> map_of m k | _ \<Rightarrow> None)"

lemma field_jput [simp]: "field (jput k v j) k' = (if k = k' then Some v else field j k')"
  by (cases j) (auto simp: field_def jput_def jobject_def)

lemma field_jerase [simp]: "field (jerase k j) k' = (if k = k' then None else field j k')"
  by (cases j) (auto simp: field_def jerase_def)

lemma field_jobject [simp]: "field (jobject kvs) k = map_of kvs k"
  by (simp add: field_def jobject_def)

lemma is_object_jerase [simp]: "is_object (jerase k j) = is_object j"
  by (cases j) (auto simp: is_object_def jerase_def)

lemma jputs_Nil [simp]: "jputs [] j = j"
  by (simp add: jputs_def)

lemma jputs_Cons [simp]: "jputs ((k, v) # kvs) j = jputs kvs (jput k v j)"
  by (simp add: jputs_def)

lemma jvalue_field:
  "jvalue get j k d = (if is_object j then (case field j k of None \<Rightarrow> Inr d | Some v \<Rightarrow> get v) else Inl JsonTypeError)"
  by (cases j) (auto simp: jvalue_def is_object_def field_def)

lemma jat_field: "jat j k = Inr v \<longleftrightarrow> field j k = Some v"
  by (cases j) (auto simp: jat_def field_def split: option.split)

lemma jget_at_field: "field j k = Some v \<Longrightarrow> jget_at get j k = get v"
  using jat_field jget_at_jat by blast

lemma jsonb_text_field: "jsonb_text j k = Some s \<longleftrightarrow> field j k = Some (JStr s)"
  using jat_field [of j k "JStr s"] by (auto simp: jsonb_text_def split: sum.splits json.splits)

section \<open>Statements\<close>

lemma lookup_set_body:
  "lookup (set_body kind rid v st) kind' rid' =
     (if kind' = kind \<and> rid' = rid \<and> lookup st kind rid \<noteq> None then Some v else lookup st kind' rid')"
proof -
  have "map_option row_body (find (\<lambda>row. row_id row = rid')
          (map (\<lambda>row. if row_id row = rid then row\<lparr>row_body := v\<rparr> else row) rows)) =
        (if rid' = rid \<and> find (\<lambda>row. row_id row = rid) rows \<noteq> None then Some v
         else map_option row_body (find (\<lambda>row. row_id row = rid') rows))" for rows
    by (induction rows) auto
  from this [of "st kind"] show ?thesis
    by (cases "kind' = kind") (simp_all add: lookup_def find_row_def set_body_def)
qed

lemma set_body_other: "kind' \<noteq> kind \<Longrightarrow> set_body kind rid v st kind' = st kind'"
  by (simp add: set_body_def)

lemma put_session_Inr:
  "put_session J sid s db = Inr db' \<Longrightarrow>
     db' = db\<lparr>sd_store := set_body KAgentSession sid (agent_session_to_json s) (sd_store db)\<rparr>"
  by (auto simp: put_session_def elim!: rbindE)

lemma put_turn_Inr:
  "put_turn J tid turn db = Inr db' \<Longrightarrow> db' = db\<lparr>sd_turns := set_row tid turn (sd_turns db)\<rparr>"
  by (auto simp: put_turn_def elim!: rbindE)

lemma insert_row_Inr:
  assumes "insert_row rid sid seq body rows = Inr rows'"
  shows "int seq < 2 ^ 63" and "rid \<notin> sn_id ` set rows"
    and "rows' = rows @ [\<lparr>sn_id = rid, sn_session = sid, sn_sequence = seq, sn_body = body\<rparr>]"
  using assms by (auto simp: insert_row_def bigint_ok_def find_None_iff split: if_splits)

lemma unat_next:
  assumes "int (unat (n :: u64)) < 2 ^ 63"
  shows "unat (n + 1) = Suc (unat n)"
proof -
  from assms have "int (unat n) < int (2 ^ 63)" by simp
  then have "unat n < 2 ^ 63" by (simp only: of_nat_less_iff)
  then show ?thesis by (intro unat_add_lem [THEN iffD1, THEN trans]) simp_all
qed

lemma append_eventE:
  assumes "append_event J sid seq event db = Inr db'"
  obtains row where "sn_session row = sid" and "sn_sequence row = unat seq" and "sn_body row = event"
    and "unat (seq + 1) = Suc (unat seq)" and "db' = db\<lparr>sd_events := sd_events db @ [row]\<rparr>"
proof -
  from assms obtain eid rows where rows: "insert_row eid sid (unat seq) event (sd_events db) = Inr rows"
    and db': "db' = db\<lparr>sd_events := rows\<rparr>"
    by (auto simp: append_event_def elim!: rbindE)
  with insert_row_Inr(1,3) [OF rows] unat_next [of seq] show thesis by (intro that) simp_all
qed

lemma rows_of_append [simp]: "rows_of sid (xs @ ys) = rows_of sid xs @ rows_of sid ys"
  by (simp add: rows_of_def)

lemma rows_of_single [simp]: "rows_of sid [r] = (if sn_session r = sid then [r] else [])"
  by (simp add: rows_of_def)

lemma rows_of_set_row: "rows_of sid (set_row tid body rows) = set_row tid body (rows_of sid rows)"
  by (induction rows) (auto simp: rows_of_def set_row_def)

lemma set_row_other: "tid \<notin> sn_id ` set rows \<Longrightarrow> set_row tid body rows = rows"
  by (induction rows) (auto simp: set_row_def)

lemma set_rows_of: "set (rows_of sid rows) = {r \<in> set rows. sn_session r = sid}"
  by (auto simp: rows_of_def)

lemma map_set_row [simp]:
  "map sn_id (set_row tid body rows) = map sn_id rows"
  "map sn_session (set_row tid body rows) = map sn_session rows"
  "map sn_sequence (set_row tid body rows) = map sn_sequence rows"
  by (induction rows) (auto simp: set_row_def)

lemma find_turn_Some:
  assumes "find_turn db tid = Some row"
  shows "row \<in> set (sd_turns db)" and "sn_id row = tid"
  using assms by (auto simp: find_turn_def find_Some_iff)

section \<open>The invariant\<close>

definition status :: "session_row \<Rightarrow> string" where
  "status r = (case field (sn_body r) ''state'' of Some (JStr s) \<Rightarrow> s | _ \<Rightarrow> [])"

definition bound_run :: "session_row \<Rightarrow> string" where
  "bound_run r = (case field (sn_body r) ''run_id'' of Some (JStr s) \<Rightarrow> s | _ \<Rightarrow> [])"

abbreviation finished :: "session_row \<Rightarrow> bool" where
  "finished r \<equiv> status r \<in> set finished_states"

abbreviation in_progress :: "session_row \<Rightarrow> bool" where
  "in_progress r \<equiv> status r = ''claimed'' \<or> status r = ''running''"

definition turn_ok :: "session_row \<Rightarrow> bool" where
  "turn_ok r \<longleftrightarrow>
     is_object (sn_body r) \<and> sn_id r \<noteq> [] \<and>
     field (sn_body r) ''id'' = Some (JStr (sn_id r)) \<and>
     field (sn_body r) ''session_id'' = Some (JStr (sn_session r)) \<and>
     field (sn_body r) ''sequence'' = Some (JUInt (sn_sequence r)) \<and>
     field (sn_body r) ''state'' = Some (JStr (status r)) \<and>
     status r \<in> set ([''queued'', ''claimed'', ''running''] @ finished_states) \<and>
     (case field (sn_body r) ''run_id'' of
        None \<Rightarrow> status r \<noteq> ''running''
      | Some v \<Rightarrow> v = JStr (bound_run r) \<and> bound_run r \<noteq> [] \<and> status r \<notin> {''queued'', ''claimed''})"

text \<open>What ties a session to the states of its turns.\<close>

definition row_agrees :: "agent_session \<Rightarrow> session_row \<Rightarrow> bool" where
  "row_agrees s r \<longleftrightarrow>
     (in_progress r \<longleftrightarrow> sn_id r = as_active_turn_id s) \<and>
     (status r = ''running'' \<longrightarrow> bound_run r = as_active_run_id s) \<and>
     (status r = ''claimed'' \<longrightarrow> as_active_run_id s = []) \<and>
     (status r = ''queued'' \<longrightarrow> as_state s = ''open'')"

definition head_agrees :: "agent_session \<Rightarrow> string set \<Rightarrow> bool" where
  "head_agrees s ids \<longleftrightarrow>
     as_state s \<in> {''open'', ''closing'', ''closed''} \<and>
     (if as_active_turn_id s = [] then as_active_run_id s = [] else as_active_turn_id s \<in> ids) \<and>
     (as_state s = ''closing'' \<longrightarrow> as_active_run_id s \<noteq> []) \<and>
     (as_state s = ''closed'' \<longrightarrow> as_active_turn_id s = [])"

definition turns_agree :: "agent_session \<Rightarrow> session_row list \<Rightarrow> bool" where
  "turns_agree s ts \<longleftrightarrow> head_agrees s (sn_id ` set ts) \<and> (\<forall>r \<in> set ts. row_agrees s r)"

definition numbered :: "session_row list \<Rightarrow> nat \<Rightarrow> bool" where
  "numbered rows n \<longleftrightarrow> map sn_sequence rows = [1..<Suc n]"

fun session_ok :: "json option \<Rightarrow> session_row list \<Rightarrow> session_row list \<Rightarrow> bool" where
  "session_ok None ts es \<longleftrightarrow> ts = [] \<and> es = []"
| "session_ok (Some body) ts es \<longleftrightarrow>
     (\<exists>s. body = agent_session_to_json s \<and> turns_agree s ts \<and>
        numbered ts (length ts) \<and> numbered es (length es) \<and> unat (as_next_sequence s) = Suc (length es))"

definition session_inv :: "session_db \<Rightarrow> bool" where
  "session_inv db \<longleftrightarrow>
     distinct (map sn_id (sd_turns db)) \<and> (\<forall>r \<in> set (sd_turns db). turn_ok r) \<and>
     (\<forall>sid. session_ok (lookup (sd_store db) KAgentSession sid)
        (rows_of sid (sd_turns db)) (rows_of sid (sd_events db)))"

section \<open>How rows change\<close>

definition lasting_fields :: "string list" where
  "lasting_fields = [''id'', ''session_id'', ''sequence'', ''idempotency_key'', ''input'', ''pipeline_id'']"

definition row_evolves :: "session_row \<Rightarrow> session_row \<Rightarrow> bool" where
  "row_evolves r r' \<longleftrightarrow>
     sn_id r' = sn_id r \<and> sn_session r' = sn_session r \<and> sn_sequence r' = sn_sequence r \<and>
     (\<forall>k \<in> set lasting_fields. field (sn_body r') k = field (sn_body r) k) \<and>
     (finished r \<longrightarrow> r' = r) \<and>
     (status r = ''running'' \<longrightarrow> bound_run r' = bound_run r \<and> (status r' = ''running'' \<or> finished r'))"

definition evolves :: "session_row list \<Rightarrow> session_row list \<Rightarrow> bool" where
  "evolves rows rows' \<longleftrightarrow> (\<exists>old new. rows' = old @ new \<and> list_all2 row_evolves rows old)"

lemma row_evolves_refl: "row_evolves r r"
  by (auto simp: row_evolves_def)

lemma row_evolves_trans: "row_evolves r r' \<Longrightarrow> row_evolves r' r'' \<Longrightarrow> row_evolves r r''"
  by (auto simp: row_evolves_def)

lemma evolves_refl: "evolves rows rows"
  unfolding evolves_def by (intro exI [of _ rows] exI [of _ "[]"]) (auto intro: list_all2_refl row_evolves_refl)

lemma evolves_trans:
  assumes "evolves xs ys" and "evolves ys zs"
  shows "evolves xs zs"
proof -
  from assms obtain old new old' new' where ys: "ys = old @ new" "list_all2 row_evolves xs old"
    and zs: "zs = old' @ new'" "list_all2 row_evolves ys old'"
    by (auto simp: evolves_def)
  from zs(2) obtain a b where "old' = a @ b" and "list_all2 row_evolves old a"
    by (auto simp: ys(1) list_all2_append1)
  moreover have "list_all2 row_evolves xs a"
    using ys(2) \<open>list_all2 row_evolves old a\<close> by (rule list_all2_trans [rotated 1]) (rule row_evolves_trans)
  ultimately show ?thesis unfolding evolves_def by (intro exI [of _ a] exI [of _ "b @ new'"]) (simp add: zs(1))
qed

lemma evolves_append: "evolves rows (rows @ new)"
  unfolding evolves_def by (intro exI [of _ rows] exI [of _ new]) (auto intro: list_all2_refl row_evolves_refl)

lemma evolves_set_row:
  assumes "\<And>r. r \<in> set rows \<Longrightarrow> sn_id r = tid \<Longrightarrow> row_evolves r (r\<lparr>sn_body := body\<rparr>)"
  shows "evolves rows (set_row tid body rows)"
proof -
  have "list_all2 row_evolves rows (set_row tid body rows)"
    using assms unfolding set_row_def by (induction rows) (auto intro: row_evolves_refl)
  then show ?thesis unfolding evolves_def by (intro exI [of _ "set_row tid body rows"] exI [of _ "[]"]) simp
qed

lemma evolves_row:
  assumes "evolves rows rows'" and "r \<in> set rows"
  obtains r' where "r' \<in> set rows'" and "row_evolves r r'"
proof -
  from assms obtain old new where rows': "rows' = old @ new" and "list_all2 row_evolves rows old"
    by (auto simp: evolves_def)
  with assms(2) obtain r' where "r' \<in> set old" and "row_evolves r r'"
    by (metis in_set_conv_nth list_all2_conv_all_nth)
  with rows' show thesis by (intro that) auto
qed

section \<open>Inside a transaction\<close>

text \<open>
  A transaction on session \<open>sid\<close> that began in \<open>db0\<close> has reached \<open>db\<close>, with \<open>s\<close> the session it
  will store: other sessions are untouched, turns have evolved, the log has grown and stays numbered.
\<close>

definition others_kept :: "string \<Rightarrow> session_db \<Rightarrow> session_db \<Rightarrow> bool" where
  "others_kept sid db0 db \<longleftrightarrow>
     (\<forall>other. other \<noteq> sid \<longrightarrow>
        rows_of other (sd_turns db) = rows_of other (sd_turns db0) \<and>
        rows_of other (sd_events db) = rows_of other (sd_events db0) \<and>
        lookup (sd_store db) KAgentSession other = lookup (sd_store db0) KAgentSession other) \<and>
     sd_store db KSessionContextGeneration = sd_store db0 KSessionContextGeneration"

definition working :: "string \<Rightarrow> session_db \<Rightarrow> session_db \<Rightarrow> agent_session \<Rightarrow> bool" where
  "working sid db0 db s \<longleftrightarrow>
     session_inv db0 \<and> others_kept sid db0 db \<and>
     lookup (sd_store db) KAgentSession sid \<noteq> None \<and>
     distinct (map sn_id (sd_turns db)) \<and> (\<forall>r \<in> set (sd_turns db). turn_ok r) \<and>
     evolves (sd_turns db0) (sd_turns db) \<and> (\<exists>new. sd_events db = sd_events db0 @ new) \<and>
     numbered (rows_of sid (sd_turns db)) (length (rows_of sid (sd_turns db))) \<and>
     numbered (rows_of sid (sd_events db)) (length (rows_of sid (sd_events db))) \<and>
     unat (as_next_sequence s) = Suc (length (rows_of sid (sd_events db)))"

lemma session_inv_turns: "session_inv db \<Longrightarrow> distinct (map sn_id (sd_turns db)) \<and> (\<forall>r \<in> set (sd_turns db). turn_ok r)"
  by (simp add: session_inv_def)

lemma session_inv_session:
  assumes "session_inv db" and "lookup (sd_store db) KAgentSession sid = Some body"
  obtains s where "body = agent_session_to_json s" and "turns_agree s (rows_of sid (sd_turns db))"
    and "working sid db db s"
proof -
  from assms obtain s where body: "body = agent_session_to_json s"
    and agree: "turns_agree s (rows_of sid (sd_turns db))"
    and n: "numbered (rows_of sid (sd_turns db)) (length (rows_of sid (sd_turns db)))"
      "numbered (rows_of sid (sd_events db)) (length (rows_of sid (sd_events db)))"
      "unat (as_next_sequence s) = Suc (length (rows_of sid (sd_events db)))"
    unfolding session_inv_def by (metis session_ok.simps(2))
  with assms session_inv_turns [OF assms(1)] show thesis
    by (intro that [OF body agree]) (simp add: working_def others_kept_def evolves_refl)
qed

lemma load_sessionE:
  assumes "json_ops_ok J" and "session_inv db" and "load_session J env sid db = Inr s"
  obtains "turns_agree s (rows_of sid (sd_turns db))" and "working sid db db s"
    and "lookup (sd_store db) KAgentSession sid = Some (agent_session_to_json s)"
proof -
  from assms(3) obtain body where body: "lookup (sd_store db) KAgentSession sid = Some body"
    and "agent_session_from_json J (se_fresh env 0) (se_now env 0) body = Inr s"
    by (auto simp: load_session_def split: option.splits)
  from assms(2) body obtain s' where s': "body = agent_session_to_json s'"
    "turns_agree s' (rows_of sid (sd_turns db))" "working sid db db s'"
    by (rule session_inv_session)
  with assms(1) \<open>agent_session_from_json J (se_fresh env 0) (se_now env 0) body = Inr s\<close> body show thesis
    by (intro that) (auto simp: agent_session_codec)
qed

lemma working_same_log: "working sid db0 db s \<Longrightarrow> as_next_sequence s' = as_next_sequence s \<Longrightarrow> working sid db0 db s'"
  by (simp add: working_def)

lemma working_put_turn:
  assumes "working sid db0 db s" and "put_turn J tid body db = Inr db'"
    and "r \<in> set (sd_turns db)" and "sn_id r = tid" and "sn_session r = sid"
    and "turn_ok (r\<lparr>sn_body := body\<rparr>)" and "row_evolves r (r\<lparr>sn_body := body\<rparr>)"
  shows "working sid db0 db' s"
proof -
  have db': "db' = db\<lparr>sd_turns := set_row tid body (sd_turns db)\<rparr>"
    using assms(2) by (rule put_turn_Inr)
  have only: "x = r" if "x \<in> set (sd_turns db)" and "sn_id x = tid" for x
    using that assms(1,3,4) by (auto simp: working_def distinct_map inj_on_def)
  have "rows_of other (set_row tid body (sd_turns db)) = rows_of other (sd_turns db)" if "other \<noteq> sid" for other
    using that assms(5) only by (auto simp: rows_of_set_row set_rows_of intro!: set_row_other)
  moreover have "turn_ok x" if "x \<in> set (set_row tid body (sd_turns db))" for x
    using that only assms(1,6) by (auto simp: set_row_def working_def)
  moreover have "evolves (sd_turns db0) (set_row tid body (sd_turns db))"
    using assms(1,7) only by (auto simp: working_def intro!: evolves_set_row elim!: evolves_trans)
  ultimately show ?thesis
    using assms(1) by (simp add: working_def others_kept_def db' rows_of_set_row numbered_def)
      (metis length_map map_set_row(3))
qed

lemma working_append_event:
  assumes "working sid db0 db s" and "append_event J sid (as_next_sequence s) event db = Inr db'"
    and "as_next_sequence s' = as_next_sequence s + 1"
  shows "working sid db0 db' s'"
  using assms(2)
proof (rule append_eventE)
  fix row
  assume row: "sn_session row = sid" "sn_sequence row = unat (as_next_sequence s)"
    "unat (as_next_sequence s + 1) = Suc (unat (as_next_sequence s))"
    and db': "db' = db\<lparr>sd_events := sd_events db @ [row]\<rparr>"
  show ?thesis
    using assms(1,3) row by (auto simp: working_def others_kept_def db' numbered_def)
qed

lemma working_store:
  assumes "working sid db0 db s"
    and "\<And>rid. lookup st KAgentSession rid = lookup (sd_store db) KAgentSession rid"
    and "st KSessionContextGeneration = sd_store db KSessionContextGeneration"
  shows "working sid db0 (db\<lparr>sd_store := st\<rparr>) s"
  using assms by (simp add: working_def others_kept_def)

text \<open>Storing the session closes the transaction.\<close>

definition progresses :: "session_db \<Rightarrow> session_db \<Rightarrow> bool" where
  "progresses db db' \<longleftrightarrow>
     session_inv db' \<and> evolves (sd_turns db) (sd_turns db') \<and> (\<exists>new. sd_events db' = sd_events db @ new)"

lemma progresses_refl: "session_inv db \<Longrightarrow> progresses db db"
  by (simp add: progresses_def evolves_refl)

lemma progresses_trans: "progresses a b \<Longrightarrow> progresses b c \<Longrightarrow> progresses a c"
  by (auto simp: progresses_def intro: evolves_trans)

lemma working_put_session:
  assumes "working sid db0 db s" and "put_session J sid s db = Inr db'"
    and "turns_agree s (rows_of sid (sd_turns db))"
  shows "progresses db0 db'" and "others_kept sid db0 db'"
    and "lookup (sd_store db') KAgentSession sid = Some (agent_session_to_json s)"
proof -
  have db': "db' = db\<lparr>sd_store := set_body KAgentSession sid (agent_session_to_json s) (sd_store db)\<rparr>"
    using assms(2) by (rule put_session_Inr)
  then show others: "others_kept sid db0 db'"
    using assms(1) by (simp add: working_def others_kept_def lookup_set_body set_body_other)
  show own: "lookup (sd_store db') KAgentSession sid = Some (agent_session_to_json s)"
    using assms(1) by (simp add: working_def db' lookup_set_body)
  have "session_ok (lookup (sd_store db') KAgentSession other)
      (rows_of other (sd_turns db')) (rows_of other (sd_events db'))" for other
  proof (cases "other = sid")
    case True
    have "sd_turns db' = sd_turns db" and "sd_events db' = sd_events db" by (simp_all add: db')
    with True own assms(1,3) show ?thesis by (auto simp: working_def)
  next
    case False
    with assms(1) others show ?thesis
      by (simp add: working_def others_kept_def session_inv_def)
  qed
  with assms(1) show "progresses db0 db'"
    by (auto simp: progresses_def working_def session_inv_def db')
qed

text \<open>What an operation on session \<open>sid\<close> does: nothing, or one step of a session that is not closed.\<close>

definition moves :: "string \<Rightarrow> session_db \<Rightarrow> session_db \<Rightarrow> bool" where
  "moves sid db db' \<longleftrightarrow>
     db' = db \<or>
     (progresses db db' \<and> others_kept sid db db' \<and>
      (\<exists>s s'. lookup (sd_store db) KAgentSession sid = Some (agent_session_to_json s) \<and> as_state s \<noteq> ''closed'' \<and>
         lookup (sd_store db') KAgentSession sid = Some (agent_session_to_json s')))"

lemma moves_refl [simp]: "moves sid db db"
  by (simp add: moves_def)

section \<open>Submission and dispatch\<close>

lemma guarded_transactionE:
  assumes "guarded g st (in_transaction what fault st body) = (res, st')"
  obtains e where "res = Inl e" and "st' = st" | a where "res = Inr a" and "g = Inr ()" and "body = Inr (a, st')"
  using assms by (auto simp: guarded_def in_transaction_def split: sum.splits option.splits)

lemma turns_agree_cong:
  "as_state s' = as_state s \<Longrightarrow> as_active_turn_id s' = as_active_turn_id s \<Longrightarrow>
   as_active_run_id s' = as_active_run_id s \<Longrightarrow> turns_agree s' ts = turns_agree s ts"
  by (simp add: turns_agree_def head_agrees_def row_agrees_def)

lemma read_turn [simp]:
  assumes "json_ops_ok J" and "turn_ok r"
  shows "jvalue (get_string J) (sn_body r) ''state'' d = Inr (status r)"
    and "jvalue (get_string J) (sn_body r) ''session_id'' d = Inr (sn_session r)"
    and "jvalue (get_string J) (sn_body r) ''run_id'' [] = Inr (bound_run r)"
    and "jget_at (get_string J) (sn_body r) ''id'' = Inr (sn_id r)"
proof -
  from assms(2) have r: "is_object (sn_body r)" "field (sn_body r) ''state'' = Some (JStr (status r))"
    "field (sn_body r) ''session_id'' = Some (JStr (sn_session r))"
    "field (sn_body r) ''id'' = Some (JStr (sn_id r))"
    "field (sn_body r) ''run_id'' = None \<or> field (sn_body r) ''run_id'' = Some (JStr (bound_run r))"
    by (auto simp: turn_ok_def split: option.splits)
  with assms(1) show "jvalue (get_string J) (sn_body r) ''state'' d = Inr (status r)"
    and "jvalue (get_string J) (sn_body r) ''session_id'' d = Inr (sn_session r)"
    and "jget_at (get_string J) (sn_body r) ''id'' = Inr (sn_id r)"
    by (simp_all add: jvalue_field jget_at_field)
  have "field (sn_body r) ''run_id'' = None \<Longrightarrow> bound_run r = []" by (simp add: bound_run_def)
  with r assms(1) show "jvalue (get_string J) (sn_body r) ''run_id'' [] = Inr (bound_run r)"
    by (auto simp: jvalue_field)
qed

lemma last_sequence_numbered: "numbered rows n \<Longrightarrow> last_sequence rows = n"
proof -
  have "fold (\<lambda>r. max (sn_sequence r)) rows m = fold max (map sn_sequence rows) m" for m
    by (induction rows arbitrary: m) auto
  moreover have "fold max [1..<Suc n] m = max n m" for m :: nat
    by (induction n arbitrary: m) (auto simp: max_def)
  ultimately show "numbered rows n \<Longrightarrow> last_sequence rows = n"
    by (simp add: last_sequence_def numbered_def)
qed

lemma working_insert_turn:
  assumes "working sid db0 db s" and "insert_row tid sid (Suc (length (rows_of sid (sd_turns db)))) body (sd_turns db) = Inr rows"
    and "turn_ok \<lparr>sn_id = tid, sn_session = sid, sn_sequence = Suc (length (rows_of sid (sd_turns db))), sn_body = body\<rparr>"
  shows "working sid db0 (db\<lparr>sd_turns := rows\<rparr>) s"
  using assms(1,3) insert_row_Inr(2,3) [OF assms(2)]
  by (auto simp: working_def others_kept_def numbered_def intro: evolves_trans evolves_append)

lemma accept_turnE:
  assumes "json_ops_ok J" and "accept_turn J env sid tid (new_turn key input now pid) event s db = Inr db'"
    and "working sid db db s" and "turns_agree s (rows_of sid (sd_turns db))" and "as_state s = ''open''" and "tid \<noteq> []"
  obtains row s' where "progresses db db'" and "others_kept sid db db'" and "sd_turns db' = sd_turns db @ [row]"
    and "sn_id row = tid" and "sn_session row = sid" and "status row = ''queued''"
    and "field (sn_body row) ''idempotency_key'' = Some (JStr key)" and "field (sn_body row) ''input'' = Some input"
    and "lookup (sd_store db') KAgentSession sid = Some (agent_session_to_json s')" and "as_state s' = ''open''"
proof -
  let ?n = "length (rows_of sid (sd_turns db))"
  let ?body = "jputs [(''id'', JStr tid), (''session_id'', JStr sid), (''sequence'', JUInt (Suc ?n))]
    (new_turn key input now pid)"
  let ?row = "\<lparr>sn_id = tid, sn_session = sid, sn_sequence = Suc ?n, sn_body = ?body\<rparr>"
  let ?s = "s\<lparr>as_next_sequence := as_next_sequence s + 1, as_updated_at := se_now env 1\<rparr>"
  have last: "last_sequence (rows_of sid (sd_turns db)) = ?n"
    using assms(3) by (intro last_sequence_numbered) (simp add: working_def)
  from assms(2) obtain ev rows db1 where rows: "insert_row tid sid (Suc ?n) ?body (sd_turns db) = Inr rows"
    and ev: "append_event J sid (as_next_sequence s) ev (db\<lparr>sd_turns := rows\<rparr>) = Inr db1"
    and put: "put_session J sid ?s db1 = Inr db'"
    by (auto simp: accept_turn_def Let_def last elim!: rbindE split: if_splits)
  have row_ok: "turn_ok ?row" and st: "status ?row = ''queued''"
    using assms(6) by (auto simp: turn_ok_def status_def new_turn_def)
  have "working sid db (db\<lparr>sd_turns := rows\<rparr>) s"
    by (rule working_insert_turn [OF assms(3) rows row_ok])
  then have work: "working sid db db1 ?s" by (rule working_append_event [OF _ ev]) simp
  have turns: "sd_turns db1 = sd_turns db @ [?row]"
    using ev insert_row_Inr(3) [OF rows] by (auto elim!: append_eventE)
  have "tid \<notin> sn_id ` set (rows_of sid (sd_turns db))"
    using insert_row_Inr(2) [OF rows] by (auto simp: set_rows_of)
  with assms(6) have "tid \<noteq> as_active_turn_id s"
    using assms(4) by (auto simp: turns_agree_def head_agrees_def split: if_splits)
  with st assms(5) have "row_agrees s ?row" by (simp add: row_agrees_def)
  with assms(4) have "turns_agree s (rows_of sid (sd_turns db1))"
    by (simp add: turns_agree_def turns head_agrees_def split: if_splits)
  then have agree: "turns_agree ?s (rows_of sid (sd_turns db1))"
    by (subst turns_agree_cong [of ?s s]) simp_all
  show thesis
    using working_put_session [OF work put agree] put_session_Inr [OF put] st assms(5)
    by (intro that [of ?row ?s]) (simp_all add: turns new_turn_def)
qed

lemma submit_moves:
  assumes "json_ops_ok J" and "session_inv db"
    and "submit_session_turn J env sid tid (new_turn key input now pid) event db = (res, db')"
  shows "moves sid db db'"
  using assms(3) unfolding submit_session_turn_def
proof (cases rule: guarded_transactionE)
  case (1 e)
  then show ?thesis by simp
next
  case (2 a)
  from 2(2) have "tid \<noteq> []" by (auto split: if_splits)
  from 2(3) obtain s where load: "load_session J env sid db = Inr s"
    and rest: "db' = db \<or> as_state s = ''open'' \<and>
      accept_turn J env sid tid (new_turn key input now pid) event s db = Inr db'"
    by (auto elim!: rbindE split: option.splits if_splits)
  show ?thesis
    using assms(1,2) load
  proof (rule load_sessionE)
    assume "turns_agree s (rows_of sid (sd_turns db))" and "working sid db db s"
      and "lookup (sd_store db) KAgentSession sid = Some (agent_session_to_json s)"
    with rest assms(1) \<open>tid \<noteq> []\<close> show ?thesis
      by (auto elim!: accept_turnE simp: moves_def)
  qed
qed

lemma set_set_row:
  "set (set_row tid body rows) =
     {r \<in> set rows. sn_id r \<noteq> tid} \<union> (\<lambda>r. r\<lparr>sn_body := body\<rparr>) ` {r \<in> set rows. sn_id r = tid}"
  by (auto simp: set_row_def)

lemma working_turn:
  assumes "working sid db0 db s" and "r \<in> set (rows_of sid (sd_turns db))"
  shows "turn_ok r" and "r \<in> set (sd_turns db)" and "sn_session r = sid"
  using assms by (auto simp: working_def set_rows_of)

lemma working_turn_unique:
  "working sid db0 db s \<Longrightarrow> r \<in> set (sd_turns db) \<Longrightarrow> r' \<in> set (sd_turns db) \<Longrightarrow> sn_id r' = sn_id r \<Longrightarrow> r' = r"
  by (auto simp: working_def distinct_map inj_on_def)

lemma active_turn:
  assumes "working sid db0 db s0" and "turns_agree s (rows_of sid (sd_turns db))"
    and "find_turn db (as_active_turn_id s) = Some r" and "as_active_turn_id s \<noteq> []"
  shows "r \<in> set (rows_of sid (sd_turns db))" and "in_progress r"
proof -
  have "as_active_turn_id s \<in> sn_id ` set (rows_of sid (sd_turns db))"
    using assms(2,4) by (simp add: turns_agree_def head_agrees_def)
  then obtain r' where r': "r' \<in> set (rows_of sid (sd_turns db))" and id: "sn_id r' = as_active_turn_id s"
    by (metis imageE)
  have "r = r'"
    by (rule working_turn_unique [OF assms(1) working_turn(2) [OF assms(1) r'] find_turn_Some(1) [OF assms(3)]])
      (simp only: find_turn_Some(2) [OF assms(3)] id)
  with r' show r: "r \<in> set (rows_of sid (sd_turns db))" by simp
  with assms(2) have "row_agrees s r" by (simp add: turns_agree_def)
  with find_turn_Some(2) [OF assms(3)] show "in_progress r" by (simp add: row_agrees_def)
qed

lemma turns_agree_set_row:
  assumes "working sid db0 db s0" and "r \<in> set (rows_of sid (sd_turns db))" and "turns_agree s (rows_of sid (sd_turns db))"
    and "head_agrees s' (sn_id ` set (rows_of sid (sd_turns db)))" and "row_agrees s' (r\<lparr>sn_body := body\<rparr>)"
    and "\<And>x. x \<in> set (rows_of sid (sd_turns db)) \<Longrightarrow> sn_id x \<noteq> sn_id r \<Longrightarrow> row_agrees s x \<Longrightarrow> row_agrees s' x"
  shows "turns_agree s' (rows_of sid (set_row (sn_id r) body (sd_turns db)))"
proof -
  have "x = r" if "x \<in> set (rows_of sid (sd_turns db))" "sn_id x = sn_id r" for x
    by (rule working_turn_unique [OF assms(1) working_turn(2) [OF assms(1,2)] working_turn(2) [OF assms(1) that(1)] that(2)])
  with assms(3,5,6) have "row_agrees s' x" if "x \<in> set (set_row (sn_id r) body (rows_of sid (sd_turns db)))" for x
    using that by (auto simp: set_set_row turns_agree_def)
  moreover have "sn_id ` set (set_row (sn_id r) body (rows_of sid (sd_turns db))) = sn_id ` set (rows_of sid (sd_turns db))"
    by (metis list.set_map map_set_row(1))
  ultimately show ?thesis using assms(4) by (simp add: turns_agree_def rows_of_set_row)
qed

lemma select_dispatch:
  assumes "json_ops_ok J" and "working sid db0 db s" and "turns_agree s (rows_of sid (sd_turns db))"
    and "select_turn J sid owner token s db = Inr (Dispatch turn)"
  obtains r where "r \<in> set (rows_of sid (sd_turns db))" and "turn = sn_body r"
    and "as_active_turn_id s = [] \<and> status r = ''queued'' \<or> as_active_turn_id s = sn_id r \<and> status r = ''claimed''"
proof (cases "as_active_turn_id s = []")
  case True
  with assms(4) obtain r rest where "queued_turns sid db = r # rest" and turn: "turn = sn_body r"
    by (auto simp: select_turn_def split: list.splits)
  then have "r \<in> set (queued_turns sid db)" by simp
  with turn True show thesis
    by (intro that [of r]) (auto simp: queued_turns_def jsonb_text_field status_def)
next
  case False
  with assms(4) obtain r where find: "find_turn db (as_active_turn_id s) = Some r"
    and sel: "select_active J owner token s (sn_body r) = Inr (Dispatch turn)"
    by (auto simp: select_turn_def split: option.splits)
  have r: "r \<in> set (rows_of sid (sd_turns db))" using active_turn(1) [OF assms(2,3) find False] .
  with sel assms(1) working_turn(1) [OF assms(2) r] have "status r = ''claimed''" and "turn = sn_body r"
    by (auto simp: select_active_def elim!: rbindE split: if_splits)
  with r find_turn_Some(2) [OF find] show thesis by (intro that [of r]) simp_all
qed

text \<open>A new body for a turn: what has to be known of its fields.\<close>

lemma turn_update:
  assumes "turn_ok r" and "is_object b" and "\<And>k. k \<in> set lasting_fields \<Longrightarrow> field b k = field (sn_body r) k"
    and "field b ''state'' = Some (JStr st)" and "st \<in> set ([''queued'', ''claimed'', ''running''] @ finished_states)"
    and "field b ''run_id'' = None \<and> st \<noteq> ''running'' \<or>
      (\<exists>rid. field b ''run_id'' = Some (JStr rid) \<and> rid \<noteq> [] \<and> st \<notin> {''queued'', ''claimed''})"
    and "\<not> finished r"
    and "status r = ''running'' \<Longrightarrow> field b ''run_id'' = field (sn_body r) ''run_id'' \<and> (st = ''running'' \<or> st \<in> set finished_states)"
  shows "status (r\<lparr>sn_body := b\<rparr>) = st" and "turn_ok (r\<lparr>sn_body := b\<rparr>)" and "row_evolves r (r\<lparr>sn_body := b\<rparr>)"
proof -
  let ?r = "r\<lparr>sn_body := b\<rparr>"
  show st: "status ?r = st" using assms(4) by (simp add: status_def)
  have "field b ''run_id'' = Some (JStr rid) \<Longrightarrow> bound_run ?r = rid" for rid by (simp add: bound_run_def)
  with st assms(6) have run: "case field b ''run_id'' of
        None \<Rightarrow> status ?r \<noteq> ''running''
      | Some v \<Rightarrow> v = JStr (bound_run ?r) \<and> bound_run ?r \<noteq> [] \<and> status ?r \<notin> {''queued'', ''claimed''}"
    by (elim disjE conjE exE) simp_all
  show "turn_ok ?r" unfolding turn_ok_def
    using st run assms(1,2,4,5) assms(3) [of "''id''"] assms(3) [of "''session_id''"] assms(3) [of "''sequence''"]
    by (simp add: turn_ok_def lasting_fields_def)
  show "row_evolves r ?r" unfolding row_evolves_def
    using st assms(3,7,8) by (auto simp: bound_run_def)
qed

lemma unbound_turn: "turn_ok r \<Longrightarrow> status r = ''queued'' \<or> status r = ''claimed'' \<Longrightarrow> field (sn_body r) ''run_id'' = None"
  by (auto simp: turn_ok_def split: option.splits)

lemma dispatch_turnE:
  assumes "json_ops_ok J" and "working sid db db s" and "turns_agree s (rows_of sid (sd_turns db))"
    and "as_state s = ''open''" and "r \<in> set (rows_of sid (sd_turns db))"
    and free: "as_active_turn_id s = [] \<and> status r = ''queued'' \<or> as_active_turn_id s = sn_id r \<and> status r = ''claimed''"
    and "dispatch_turn J env sid owner fence expires event s (sn_body r) db = Inr (turn', db')"
  obtains s' where "progresses db db'" and "others_kept sid db db'"
    and "lookup (sd_store db') KAgentSession sid = Some (agent_session_to_json s')"
    and "as_active_turn_id s' = sn_id r" and "sd_turns db' = set_row (sn_id r) turn' (sd_turns db)"
    and "field turn' ''state'' = Some (JStr ''claimed'')" and "field turn' ''id'' = Some (JStr (sn_id r))"
    and "field turn' ''dispatch_owner'' = Some (JStr owner)"
    and "field turn' ''dispatch_fencing_token'' = Some (JUInt (unat fence))"
proof -
  note r = working_turn [OF assms(2,5)]
  from assms(1,7) r(1) obtain attempt ev db1 db2 s' where
    s': "s' = s\<lparr>as_active_turn_id := (if as_active_turn_id s = [] then sn_id r else as_active_turn_id s),
           as_dispatch_generation := as_dispatch_generation s + 1,
           as_updated_at := se_now env 1, as_next_sequence := as_next_sequence s + 1\<rparr>"
    and turn': "turn' = jputs [(''state'', JStr ''claimed''), (''dispatch_owner'', JStr owner),
        (''dispatch_fencing_token'', JUInt (unat fence)), (''dispatch_expires_at'', JStr expires),
        (''dispatch_attempt'', attempt)] (sn_body r)"
    and put: "put_turn J (sn_id r) turn' db = Inr db1"
    and ev: "append_event J sid (as_next_sequence s) ev db1 = Inr db2"
    and put_s: "put_session J sid s' db2 = Inr db'"
    by (auto simp: dispatch_turn_def Let_def elim!: rbindE)
  have unbound: "field turn' ''run_id'' = None" using unbound_turn [OF r(1)] free by (auto simp: turn')
  have upd: "status (r\<lparr>sn_body := turn'\<rparr>) = ''claimed'' \<and> turn_ok (r\<lparr>sn_body := turn'\<rparr>) \<and> row_evolves r (r\<lparr>sn_body := turn'\<rparr>)"
    by (intro conjI; rule turn_update [OF r(1), where st = "''claimed''"])
      (use free unbound in \<open>auto simp: turn' lasting_fields_def finished_states_def\<close>)
  then have claimed: "status (r\<lparr>sn_body := turn'\<rparr>) = ''claimed''" ..
  from upd have "working sid db db1 s" using working_put_turn [OF assms(2) put r(2) refl r(3)] by blast
  then have work: "working sid db db2 s'" by (rule working_append_event [OF _ ev]) (simp add: s')
  have turns: "sd_turns db2 = set_row (sn_id r) turn' (sd_turns db)"
    using ev put_turn_Inr [OF put] by (auto elim!: append_eventE)
  have active: "as_active_turn_id s' = sn_id r" using free by (auto simp: s')
  have idle: "as_active_run_id s = []"
  proof (cases "as_active_turn_id s = []")
    case True
    with assms(3) show ?thesis by (simp add: turns_agree_def head_agrees_def)
  next
    case False
    with free have "status r = ''claimed''" by blast
    moreover have "row_agrees s r" using assms(3,5) by (simp add: turns_agree_def)
    ultimately show ?thesis by (simp add: row_agrees_def)
  qed
  have "turns_agree s' (rows_of sid (sd_turns db2))" unfolding turns
  proof (rule turns_agree_set_row [OF assms(2,5,3)])
    show "head_agrees s' (sn_id ` set (rows_of sid (sd_turns db)))"
      using assms(4,5) active r(1) by (simp add: head_agrees_def s' turn_ok_def)
    show "row_agrees s' (r\<lparr>sn_body := turn'\<rparr>)"
      using claimed active idle by (simp add: row_agrees_def s')
    show "row_agrees s' x"
      if "x \<in> set (rows_of sid (sd_turns db))" and "sn_id x \<noteq> sn_id r" and "row_agrees s x" for x
      using that(2,3) working_turn(1) [OF assms(2) that(1)] free active assms(4)
      by (auto simp: row_agrees_def s' turn_ok_def)
  qed
  with working_put_session [OF work put_s] put_session_Inr [OF put_s] turns r(1) active show thesis
    by (intro that [of s']) (simp_all add: turn' turn_ok_def)
qed

lemma claim_moves:
  assumes "json_ops_ok J" and "session_inv db"
    and "claim_next_session_turn J env sid owner token expires event db = (res, db')"
  shows "moves sid db db'"
  using assms(3) unfolding claim_next_session_turn_def
proof (cases rule: guarded_transactionE)
  case (1 e)
  then show ?thesis by simp
next
  case (2 a)
  from 2(3) obtain s where load: "load_session J env sid db = Inr s"
    and rest: "db' = db \<or> as_state s = ''open'' \<and> (\<exists>turn fence turn'.
      select_turn J sid owner token s db = Inr (Dispatch turn) \<and>
      dispatch_turn J env sid owner fence expires event s turn db = Inr (turn', db'))"
    by (auto simp: Let_def elim!: rbindE split: if_splits selection.splits) blast+
  show ?thesis
    using assms(1,2) load
  proof (rule load_sessionE)
    assume "turns_agree s (rows_of sid (sd_turns db))" and "working sid db db s"
      and stored: "lookup (sd_store db) KAgentSession sid = Some (agent_session_to_json s)"
    note at_work = this(2,1)
    from rest show ?thesis
    proof (elim disjE conjE exE)
      fix turn fence turn'
      assume opened: "as_state s = ''open''" and sel: "select_turn J sid owner token s db = Inr (Dispatch turn)"
        and disp: "dispatch_turn J env sid owner fence expires event s turn db = Inr (turn', db')"
      from assms(1) at_work sel show ?thesis
      proof (rule select_dispatch)
        fix r
        assume r: "r \<in> set (rows_of sid (sd_turns db))" "turn = sn_body r"
          and free: "as_active_turn_id s = [] \<and> status r = ''queued'' \<or> as_active_turn_id s = sn_id r \<and> status r = ''claimed''"
        show ?thesis
          by (rule dispatch_turnE [OF assms(1) at_work opened r(1) free disp [unfolded r(2)]])
            (use stored opened in \<open>auto simp: moves_def\<close>)
      qed
    qed simp
  qed
qed

section \<open>Execution\<close>

lemma write_records_sessions:
  assumes "write_records J fresh now now2 records st = Inr st'"
    and "\<forall>r \<in> set records. sr_kind r \<noteq> KAgentSession"
  shows "lookup st' KAgentSession rid = lookup st KAgentSession rid"
proof -
  have "written records KAgentSession rid = None" using assms(2) by (auto simp: written_None)
  with write_records_lookup [OF assms(1), of KAgentSession rid] show ?thesis by simp
qed

lemma upsert_other: "kind \<noteq> sr_kind r \<Longrightarrow> upsert r st kind = st kind"
  by (simp add: upsert_def Let_def)

lemma write_records_generations:
  assumes "write_records J fresh now now2 records st = Inr st'"
  shows "st' KSessionContextGeneration = st KSessionContextGeneration"
proof -
  have "st2 KSessionContextGeneration = st1 KSessionContextGeneration"
    if "write_record J fresh now now2 r st1 = Inr st2" for r st1 st2
    using write_record_Inr [OF that] that by (auto simp: upsert_other write_record_def split: if_splits)
  note kept = this
  show ?thesis
    by (rule foldM_invariant [OF assms [unfolded write_records_def],
        of "\<lambda>x. x KSessionContextGeneration = st KSessionContextGeneration"]) (simp_all add: kept)
qed

lemma write_records_id:
  "write_records J fresh now now2 (r # rs) st = Inr st' \<Longrightarrow> sr_id r \<noteq> []"
  by (auto simp: write_records_def write_record_def elim!: rbindE split: if_splits)

lemma insert_snapshot_Inr:
  assumes "insert_snapshot J run_id snap db = Inr db'"
  shows "db' = db\<lparr>sd_store := sd_store db'\<rparr>" and "lookup (sd_store db') KAgentSession rid = lookup (sd_store db) KAgentSession rid"
    and "lookup (sd_store db) KRunContextSnapshot run_id = None"
    and "lookup (sd_store db') KRunContextSnapshot run_id = Some (context_snapshot_to_json snap)"
    and "sd_store db' KSessionContextGeneration = sd_store db KSessionContextGeneration"
  using assms by (auto simp: insert_snapshot_def lookup_upsert upsert_other elim!: rbindE split: if_splits)

lemma drop_dispatch_field:
  "field (drop_dispatch t) k = (if k \<in> {''dispatch_owner'', ''dispatch_fencing_token'', ''dispatch_expires_at''} then None else field t k)"
  "is_object (drop_dispatch t) = is_object t"
  by (simp_all add: drop_dispatch_def)

text \<open>Storing a new body for the turn in progress, an event and the session.\<close>

lemma turn_stored:
  assumes "working sid db0 db s" and "r \<in> set (rows_of sid (sd_turns db))" and "turns_agree s (rows_of sid (sd_turns db))"
    and "turn_ok (r\<lparr>sn_body := body\<rparr>)" and "row_evolves r (r\<lparr>sn_body := body\<rparr>)"
    and "put_turn J (sn_id r) body db = Inr db1" and "append_event J sid (as_next_sequence s) ev db1 = Inr db2"
    and "as_next_sequence s' = as_next_sequence s + 1"
    and "head_agrees s' (sn_id ` set (rows_of sid (sd_turns db)))" and "row_agrees s' (r\<lparr>sn_body := body\<rparr>)"
    and "\<And>x. x \<in> set (rows_of sid (sd_turns db)) \<Longrightarrow> sn_id x \<noteq> sn_id r \<Longrightarrow> row_agrees s x \<Longrightarrow> row_agrees s' x"
  shows "working sid db0 db2 s'" and "turns_agree s' (rows_of sid (sd_turns db2))"
    and "sd_turns db2 = set_row (sn_id r) body (sd_turns db)"
proof -
  note r = working_turn [OF assms(1,2)]
  have "working sid db0 db1 s" using working_put_turn [OF assms(1,6) r(2) refl r(3) assms(4,5)] .
  then show "working sid db0 db2 s'" using assms(7,8) by (rule working_append_event)
  show turns: "sd_turns db2 = set_row (sn_id r) body (sd_turns db)"
    using assms(7) put_turn_Inr [OF assms(6)] by (auto elim!: append_eventE)
  show "turns_agree s' (rows_of sid (sd_turns db2))" unfolding turns
    using assms(1,2,3,9,10,11) by (rule turns_agree_set_row)
qed

lemma start_turnE:
  assumes "json_ops_ok J" and "working sid db db s" and "turns_agree s (rows_of sid (sd_turns db))"
    and "as_state s = ''open''" and "r \<in> set (rows_of sid (sd_turns db))" and "as_active_turn_id s = sn_id r"
    and "status r = ''claimed''"
    and "start_turn J env sid (sn_id r) run run_event event s (sn_body r) db = Inr db'"
  obtains s' body run_id where "progresses db db'" and "others_kept sid db db'"
    and "lookup (sd_store db') KAgentSession sid = Some (agent_session_to_json s')"
    and "sd_turns db' = set_row (sn_id r) body (sd_turns db)" and "as_active_run_id s' = run_id"
    and "field body ''state'' = Some (JStr ''running'')" and "field body ''run_id'' = Some (JStr run_id)"
proof -
  note r = working_turn [OF assms(2,5)]
  from assms(8) obtain run_id ev eid rev st snap db2 db3 db4 s' body where
    s': "s' = s\<lparr>as_active_run_id := run_id, as_updated_at := se_now env 2, as_next_sequence := as_next_sequence s + 1\<rparr>"
    and body: "body = drop_dispatch (jputs [(''state'', JStr ''running''), (''run_id'', JStr run_id),
        (''started_at'', JStr (se_now env 1))] (sn_body r))"
    and wr: "write_records J (se_fresh env 0) (se_now env 0) (se_now env 0)
        [\<lparr>sr_kind = KRun, sr_id = run_id, sr_run_id = run_id, sr_value = jput ''id'' (JStr run_id) run\<rparr>,
         \<lparr>sr_kind = KEvent, sr_id = eid, sr_run_id = run_id, sr_value = rev\<rparr>] (sd_store db) = Inr st"
    and snap: "insert_snapshot J run_id snap (db\<lparr>sd_store := st\<rparr>) = Inr db2"
    and put: "put_turn J (sn_id r) body db2 = Inr db3"
    and ev: "append_event J sid (as_next_sequence s) ev db3 = Inr db4"
    and put_s: "put_session J sid s' db4 = Inr db'"
    by (auto simp: start_turn_def Let_def elim!: rbindE)
  have run_id: "run_id \<noteq> []" using write_records_id [OF wr] by simp
  have "working sid db (db\<lparr>sd_store := st\<rparr>) s"
    by (rule working_store [OF assms(2) write_records_sessions [OF wr] write_records_generations [OF wr]]) simp
  from working_store [OF this insert_snapshot_Inr(2) [OF snap] insert_snapshot_Inr(5) [OF snap]]
    insert_snapshot_Inr(1) [OF snap]
  have work: "working sid db db2 s" by simp
  have same: "sd_turns db2 = sd_turns db" using insert_snapshot_Inr(1) [OF snap]
    by (metis session_db.select_convs(2) session_db.surjective session_db.update_convs(1))
  have f: "field body ''state'' = Some (JStr ''running'')" "field body ''run_id'' = Some (JStr run_id)"
    by (simp_all add: body drop_dispatch_field)
  have upd: "status (r\<lparr>sn_body := body\<rparr>) = ''running'' \<and> turn_ok (r\<lparr>sn_body := body\<rparr>) \<and> row_evolves r (r\<lparr>sn_body := body\<rparr>)"
    by (intro conjI; rule turn_update [OF r(1), where st = "''running''"])
      (use f run_id assms(7) in \<open>auto simp: body drop_dispatch_field lasting_fields_def finished_states_def\<close>)
  have bound: "bound_run (r\<lparr>sn_body := body\<rparr>) = run_id" using f by (simp add: bound_run_def)
  have others: "row_agrees s' x"
    if "x \<in> set (rows_of sid (sd_turns db2))" "sn_id x \<noteq> sn_id r" "row_agrees s x" for x
    using that(2,3) assms(4,6) by (auto simp: row_agrees_def s')
  have row: "row_agrees s' (r\<lparr>sn_body := body\<rparr>)" using upd bound assms(6) by (simp add: row_agrees_def s')
  have head: "head_agrees s' (sn_id ` set (rows_of sid (sd_turns db2)))"
    using assms(3-6) same r(1) by (simp add: head_agrees_def s' turn_ok_def)
  note stored = turn_stored [OF work assms(5,3) [folded same] upd [THEN conjunct2, THEN conjunct1]
    upd [THEN conjunct2, THEN conjunct2] put ev _ head row others]
  have "working sid db db4 s'" "turns_agree s' (rows_of sid (sd_turns db4))"
    "sd_turns db4 = set_row (sn_id r) body (sd_turns db2)"
    by (rule stored; simp add: s')+
  with working_put_session [OF _ put_s] put_session_Inr [OF put_s] same f show thesis
    by (intro that [of s' body run_id]) (simp_all add: s')
qed

lemma bind_moves:
  assumes "json_ops_ok J" and "session_inv db"
    and "bind_session_turn_run J env sid tid run run_event owner token event db = (res, db')"
  shows "moves sid db db'"
  using assms(3) unfolding bind_session_turn_run_def
proof (cases rule: guarded_transactionE)
  case (1 e)
  then show ?thesis by simp
next
  case (2 a)
  from 2(3) obtain s r fence where load: "load_session J env sid db = Inr s" and find: "find_turn db tid = Some r"
    and rest: "db' = db \<or> (claim_current J tid owner fence s (sn_body r) = Inr () \<and>
      start_turn J env sid tid run run_event event s (sn_body r) db = Inr db')"
    by (auto simp: Let_def elim!: rbindE split: option.splits if_splits) blast+
  show ?thesis
    using assms(1,2) load
  proof (rule load_sessionE)
    assume at_work: "turns_agree s (rows_of sid (sd_turns db))" "working sid db db s"
      and stored: "lookup (sd_store db) KAgentSession sid = Some (agent_session_to_json s)"
    have ok: "turn_ok r" using session_inv_turns [OF assms(2)] find_turn_Some [OF find] by blast
    from rest show ?thesis
    proof (elim disjE conjE)
      assume cur: "claim_current J tid owner fence s (sn_body r) = Inr ()"
        and start: "start_turn J env sid tid run run_event event s (sn_body r) db = Inr db'"
      have c: "as_state s = ''open''" "as_active_turn_id s = sn_id r" "status r = ''claimed''"
        using cur assms(1) ok find_turn_Some(2) [OF find]
        by (auto simp: claim_current_def Let_def elim!: rbindE split: if_splits)
      have "r \<in> set (rows_of sid (sd_turns db))"
        by (rule active_turn(1) [OF at_work(2,1)]) (use c(2) ok find find_turn_Some(2) [OF find] in \<open>auto simp: turn_ok_def\<close>)
      then show ?thesis
        by (rule start_turnE [OF assms(1) at_work(2,1) c(1) _ c(2,3) start [folded find_turn_Some(2) [OF find]]])
          (use stored c(1) in \<open>auto simp: moves_def\<close>)
    qed simp
  qed
qed

lemma turn_outcome_finished: "turn_outcome state \<in> set finished_states"
  by (simp add: turn_outcome_def finished_states_def)

lemma finish_turn_field:
  "field (finish_turn env outcome result turn) ''state'' = Some (JStr outcome)"
  "field (finish_turn env outcome result turn) ''run_id'' = field turn ''run_id''"
  "k \<in> set lasting_fields \<Longrightarrow> field (finish_turn env outcome result turn) k = field turn k"
  "is_object (finish_turn env outcome result turn)"
  by (auto simp: finish_turn_def drop_dispatch_field lasting_fields_def)

text \<open>The turn in progress, once finished.\<close>

lemma finished_row:
  assumes "turn_ok r" and "status r = ''running''"
  shows "status (r\<lparr>sn_body := finish_turn env (turn_outcome state) result (sn_body r)\<rparr>) = turn_outcome state \<and>
    turn_ok (r\<lparr>sn_body := finish_turn env (turn_outcome state) result (sn_body r)\<rparr>) \<and>
    row_evolves r (r\<lparr>sn_body := finish_turn env (turn_outcome state) result (sn_body r)\<rparr>)"
proof -
  have "field (sn_body r) ''run_id'' = Some (JStr (bound_run r))" "bound_run r \<noteq> []"
    using assms by (auto simp: turn_ok_def split: option.splits)
  then show ?thesis
    by (intro conjI; intro turn_update [OF assms(1), where st = "turn_outcome state"])
      (use assms(2) turn_outcome_finished [of state] in \<open>auto simp: finish_turn_field finished_states_def\<close>)
qed

text \<open>A session that lets go of its turn.\<close>

lemma released_agree:
  assumes "working sid db0 db s0" and "turns_agree s (rows_of sid (sd_turns db))" and "r \<in> set (rows_of sid (sd_turns db))"
    and "as_active_turn_id s = sn_id r" and "finished (r\<lparr>sn_body := body\<rparr>)"
    and "as_active_turn_id s' = []" and "as_active_run_id s' = []"
    and "as_state s' = (if as_state s = ''closing'' then ''closed'' else as_state s)"
  shows "turns_agree s' (rows_of sid (set_row (sn_id r) body (sd_turns db)))"
proof (rule turns_agree_set_row [OF assms(1,3,2)])
  have ids: "sn_id x \<noteq> []" if "x \<in> set (rows_of sid (sd_turns db))" for x
    using working_turn(1) [OF assms(1) that] by (simp add: turn_ok_def)
  show "row_agrees s' (r\<lparr>sn_body := body\<rparr>)"
    using assms(5,6) ids [OF assms(3)] by (auto simp: row_agrees_def finished_states_def)
  show "row_agrees s' x"
    if "x \<in> set (rows_of sid (sd_turns db))" "sn_id x \<noteq> sn_id r" "row_agrees s x" for x
    using that(2,3) ids [OF that(1)] assms(4,6,8) by (auto simp: row_agrees_def)
  show "head_agrees s' (sn_id ` set (rows_of sid (sd_turns db)))"
    using assms(2,6-8) by (auto simp: head_agrees_def turns_agree_def)
qed

lemma complete_turnE:
  assumes "json_ops_ok J" and "working sid db db s" and "turns_agree s (rows_of sid (sd_turns db))"
    and "r \<in> set (rows_of sid (sd_turns db))" and "as_active_turn_id s = sn_id r" and "status r = ''running''"
    and "r_session_id run = sid" and "r_session_turn_id run = sn_id r"
    and "\<forall>x \<in> set records. sr_kind x \<noteq> KAgentSession"
    and "complete_turn J env records run event s (sn_body r) db = Inr db'"
  obtains s' where "progresses db db'" and "others_kept sid db db'"
    and "lookup (sd_store db') KAgentSession sid = Some (agent_session_to_json s')"
    and "sd_turns db' = set_row (sn_id r) (finish_turn env (turn_outcome (r_state run)) (m_payload (r_message run)) (sn_body r)) (sd_turns db)"
    and "as_active_turn_id s' = []" and "as_state s' = (if as_state s = ''closing'' then ''closed'' else as_state s)"
proof -
  note r = working_turn [OF assms(2,4)]
  let ?body = "finish_turn env (turn_outcome (r_state run)) (m_payload (r_message run)) (sn_body r)"
  let ?r = "r\<lparr>sn_body := ?body\<rparr>"
  define s1 where "s1 = s\<lparr>as_active_turn_id := [], as_active_run_id := [], as_updated_at := se_now env 2,
    as_next_sequence := as_next_sequence s + 1\<rparr>"
  define s2 where "s2 = s1\<lparr>as_state := ''closed'', as_updated_at := se_now env 3, as_next_sequence := as_next_sequence s1 + 1\<rparr>"
  from assms(10) obtain ev st db1 db2 where
    wr: "write_records J (se_fresh env 0) (se_now env 0) (se_now env 0) records (sd_store db) = Inr st"
    and put: "put_turn J (sn_id r) ?body (db\<lparr>sd_store := st\<rparr>) = Inr db1"
    and ev: "append_event J sid (as_next_sequence s) ev db1 = Inr db2"
    and rest: "if as_state s = ''closing''
      then \<exists>ev' db3. append_event J sid (as_next_sequence s1) ev' db2 = Inr db3 \<and> put_session J sid s2 db3 = Inr db'
      else put_session J sid s1 db2 = Inr db'"
    by (auto simp: complete_turn_def Let_def s1_def s2_def assms(7,8) elim!: rbindE split: if_splits) blast+
  have work: "working sid db (db\<lparr>sd_store := st\<rparr>) s"
    by (rule working_store [OF assms(2) write_records_sessions [OF wr assms(9)] write_records_generations [OF wr]])
  note upd = finished_row [OF r(1) assms(6), of env "r_state run" "m_payload (r_message run)"]
  have w1: "working sid db db1 s"
    using upd by (intro working_put_turn [OF work put _ refl r(3)]) (simp_all add: r(2))
  then have w2: "working sid db db2 s1" by (rule working_append_event [OF _ ev]) (simp add: s1_def)
  have turns: "sd_turns db2 = set_row (sn_id r) ?body (sd_turns db)"
    using ev put_turn_Inr [OF put] by (auto elim!: append_eventE)
  have agree: "turns_agree s' (rows_of sid (set_row (sn_id r) ?body (sd_turns db)))"
    if "as_active_turn_id s' = []" "as_active_run_id s' = []"
      "as_state s' = (if as_state s = ''closing'' then ''closed'' else as_state s)" for s'
    using upd turn_outcome_finished [of "r_state run"] by (intro released_agree [OF assms(2-5) _ that]) simp
  show thesis
  proof (cases "as_state s = ''closing''")
    case True
    with rest obtain ev' db3 where ev': "append_event J sid (as_next_sequence s1) ev' db2 = Inr db3"
      and put_s: "put_session J sid s2 db3 = Inr db'" by auto
    have w3: "working sid db db3 s2" using w2 by (rule working_append_event [OF _ ev']) (simp add: s2_def)
    have turns3: "sd_turns db3 = set_row (sn_id r) ?body (sd_turns db)"
      using ev' turns by (auto elim!: append_eventE)
    have "turns_agree s2 (rows_of sid (sd_turns db3))"
      unfolding turns3 by (rule agree) (simp_all add: s2_def s1_def True)
    from working_put_session [OF w3 put_s this] put_session_Inr [OF put_s] turns3 True show thesis
      by (intro that [of s2]) (simp_all add: s2_def s1_def)
  next
    case False
    with rest have put_s: "put_session J sid s1 db2 = Inr db'" by simp
    have "turns_agree s1 (rows_of sid (sd_turns db2))"
      unfolding turns by (rule agree) (simp_all add: s1_def False)
    from working_put_session [OF w2 put_s this] put_session_Inr [OF put_s] turns False show thesis
      by (intro that [of s1]) (simp_all add: s1_def)
  qed
qed

lemma commit_session_runE:
  assumes "commit_session_run J env records owner token event db = (res, db')"
  obtains "db' = db" | run s r prior where "load_session J env (r_session_id run) db = Inr s"
    and "find_turn db (r_session_turn_id run) = Some r"
    and "jvalue (get_string J) (sn_body r) ''state'' [] = Inr prior"
    and "completion_current J run s (sn_body r) prior = Inr ()"
    and "complete_turn J env records run event s (sn_body r) db = Inr db'"
  using assms unfolding commit_session_run_def in_transaction_def
  by (auto simp: Let_def elim!: rbindE split: if_splits option.splits sum.splits)

lemma commit_run_moves:
  assumes "json_ops_ok J" and "session_inv db" and "\<forall>x \<in> set records. sr_kind x \<noteq> KAgentSession"
    and "commit_session_run J env records owner token event db = (res, db')"
  shows "\<exists>sid. moves sid db db'"
  using assms(4)
proof (cases rule: commit_session_runE)
  case 1
  then show ?thesis by simp
next
  case (2 run s r prior)
  have ok: "turn_ok r" using session_inv_turns [OF assms(2)] find_turn_Some [OF 2(2)] by blast
  have c: "as_active_turn_id s = sn_id r" "status r = ''running''"
    using 2(3,4) ok assms(1) find_turn_Some(2) [OF 2(2)]
    by (auto simp: completion_current_def Let_def elim!: rbindE split: if_splits)
  show ?thesis
    using assms(1,2) 2(1)
  proof (rule load_sessionE)
    assume at_work: "turns_agree s (rows_of (r_session_id run) (sd_turns db))" "working (r_session_id run) db db s"
      and stored: "lookup (sd_store db) KAgentSession (r_session_id run) = Some (agent_session_to_json s)"
    have "as_state s \<noteq> ''closed''"
      using at_work(1) c(1) ok by (auto simp: turns_agree_def head_agrees_def turn_ok_def)
    moreover have "r \<in> set (rows_of (r_session_id run) (sd_turns db))"
      by (rule active_turn(1) [OF at_work(2,1)]) (use c(1) ok 2(2) find_turn_Some(2) [OF 2(2)] in \<open>auto simp: turn_ok_def\<close>)
    ultimately have "moves (r_session_id run) db db'"
      by (elim complete_turnE [OF assms(1) at_work(2,1) _ c refl find_turn_Some(2) [OF 2(2), symmetric] assms(3) 2(5)])
        (use stored in \<open>auto simp: moves_def\<close>)
    then show ?thesis ..
  qed
qed

section \<open>Closing\<close>

text \<open>
  While a session is being closed, the session in hand and the turns already cancelled agree except
  for the rows the sweep has still to reach.
\<close>

lemma closing_eventE:
  assumes "working sid db0 db s" and "closing_event J env sid type tid rid payload (n, s, db) = Inr c"
  obtains db' where "c = (Suc n, s\<lparr>as_next_sequence := as_next_sequence s + 1\<rparr>, db')"
    and "working sid db0 db' (s\<lparr>as_next_sequence := as_next_sequence s + 1\<rparr>)"
    and "sd_turns db' = sd_turns db"
proof -
  from assms(2) obtain ev db' where ev: "append_event J sid (as_next_sequence s) ev db = Inr db'"
    and c: "c = (Suc n, s\<lparr>as_next_sequence := as_next_sequence s + 1\<rparr>, db')"
    by (auto simp: closing_event_def Let_def elim!: rbindE split: if_splits)
  moreover have "sd_turns db' = sd_turns db" using ev by (auto elim!: append_eventE)
  ultimately show thesis using working_append_event [OF assms(1) ev] by (intro that [OF c]) simp_all
qed

lemma cancel_turn_field:
  "field (cancel_turn now turn) ''state'' = Some (JStr ''cancelled'')"
  "field (cancel_turn now turn) ''run_id'' = field turn ''run_id''"
  "k \<in> set lasting_fields \<Longrightarrow> field (cancel_turn now turn) k = field turn k"
  "is_object (cancel_turn now turn)"
  by (auto simp: cancel_turn_def drop_dispatch_field lasting_fields_def)

lemma persist_turnE:
  assumes "json_ops_ok J" and "working sid db0 db s" and "r \<in> set (rows_of sid (sd_turns db))"
    and "status r = ''queued'' \<or> status r = ''claimed''"
    and "persist_turn J env sid (sn_body r) (n, s, db) = Inr c"
  obtains db' body where "c = (Suc n, s\<lparr>as_next_sequence := as_next_sequence s + 1\<rparr>, db')"
    and "working sid db0 db' (s\<lparr>as_next_sequence := as_next_sequence s + 1\<rparr>)"
    and "sd_turns db' = set_row (sn_id r) body (sd_turns db)" and "status (r\<lparr>sn_body := body\<rparr>) = ''cancelled''"
proof -
  note r = working_turn [OF assms(2,3)]
  let ?body = "cancel_turn (se_now env n) (sn_body r)"
  from assms(1,5) r(1) obtain db1 where put: "put_turn J (sn_id r) ?body db = Inr db1"
    and ev: "closing_event J env sid ''turn.execution.cancelled'' (sn_id r) []
      (jobject [(''state'', JStr ''cancelled''), (''reason'', JStr ''session_closed'')]) (n, s, db1) = Inr c"
    by (auto simp: persist_turn_def elim!: rbindE)
  have upd: "status (r\<lparr>sn_body := ?body\<rparr>) = ''cancelled'' \<and> turn_ok (r\<lparr>sn_body := ?body\<rparr>) \<and> row_evolves r (r\<lparr>sn_body := ?body\<rparr>)"
    by (intro conjI; rule turn_update [OF r(1), where st = "''cancelled''"])
      (use assms(4) unbound_turn [OF r(1)] in \<open>auto simp: cancel_turn_field finished_states_def\<close>)
  then have "working sid db0 db1 s" by (intro working_put_turn [OF assms(2) put r(2) refl r(3)]) simp_all
  then show thesis
    by (rule closing_eventE [OF _ ev]) (use upd put_turn_Inr [OF put] in \<open>auto intro: that\<close>)
qed

definition swept :: "bool \<Rightarrow> session_row \<Rightarrow> bool" where
  "swept has_run r \<longleftrightarrow> status r = ''queued'' \<or> \<not> has_run \<and> status r = ''claimed''"

text \<open>Each turn is what it was, or was cancelled.\<close>

definition cancelled_from :: "bool \<Rightarrow> session_row list \<Rightarrow> session_row \<Rightarrow> bool" where
  "cancelled_from has_run ts x \<longleftrightarrow>
     status x = ''cancelled'' \<and> (\<exists>y \<in> set ts. sn_id y = sn_id x \<and> swept has_run y)"

lemma sweep_turnE:
  assumes "json_ops_ok J" and "working sid db0 db s" and "r \<in> set (rows_of sid (sd_turns db))"
    and "sweep_turn J env sid has_run r (n, s, db) = Inr c"
  obtains "c = (n, s, db)" and "\<not> swept has_run r"
  | db' body where "c = (Suc n, s\<lparr>as_next_sequence := as_next_sequence s + 1\<rparr>, db')"
    and "working sid db0 db' (s\<lparr>as_next_sequence := as_next_sequence s + 1\<rparr>)" and "swept has_run r"
    and "rows_of sid (sd_turns db') = set_row (sn_id r) body (rows_of sid (sd_turns db))"
    and "status (r\<lparr>sn_body := body\<rparr>) = ''cancelled''"
proof (cases "swept has_run r")
  case True
  with assms have "persist_turn J env sid (sn_body r) (n, s, db) = Inr c"
    by (simp add: sweep_turn_def working_turn(1) [OF assms(2,3)] swept_def split: if_splits)
  moreover have "status r = ''queued'' \<or> status r = ''claimed''" using True by (auto simp: swept_def)
  ultimately obtain db' body where "c = (Suc n, s\<lparr>as_next_sequence := as_next_sequence s + 1\<rparr>, db')"
    and "working sid db0 db' (s\<lparr>as_next_sequence := as_next_sequence s + 1\<rparr>)"
    and "sd_turns db' = set_row (sn_id r) body (sd_turns db)" and "status (r\<lparr>sn_body := body\<rparr>) = ''cancelled''"
    by (elim persist_turnE [OF assms(1-3), rotated])
  with True show thesis by (intro that(2) [of db' body]) (simp_all add: rows_of_set_row)
next
  case False
  with assms show thesis
    by (intro that(1)) (auto simp: sweep_turn_def working_turn(1) [OF assms(2,3)] swept_def)
qed

text \<open>Cancelling one turn and sweeping the rest is sweeping all of them.\<close>

lemma swept_transfer:
  assumes "\<And>y. y \<in> set ts \<Longrightarrow> sn_id y = sn_id r \<Longrightarrow> y = r" and "r \<in> set ts" and "swept has_run r"
    and "status (r\<lparr>sn_body := body\<rparr>) = ''cancelled''"
    and "x \<in> set (set_row (sn_id r) body ts) \<and> (sn_id x \<in> ids \<longrightarrow> \<not> swept has_run x) \<or>
      cancelled_from has_run (set_row (sn_id r) body ts) x"
  shows "x \<in> set ts \<and> (sn_id x \<in> insert (sn_id r) ids \<longrightarrow> \<not> swept has_run x) \<or> cancelled_from has_run ts x"
proof (cases "cancelled_from has_run (set_row (sn_id r) body ts) x")
  case True
  then obtain y where y: "status x = ''cancelled''" "y \<in> set (set_row (sn_id r) body ts)"
    "sn_id y = sn_id x" "swept has_run y" by (auto simp: cancelled_from_def)
  moreover have "\<not> swept has_run (r\<lparr>sn_body := body\<rparr>)" using assms(4) by (simp add: swept_def)
  ultimately have "y \<in> set ts" using assms(1) unfolding set_set_row by blast
  with y show ?thesis unfolding cancelled_from_def by blast
next
  case False
  with assms(5) have x: "x \<in> set (set_row (sn_id r) body ts)"
    and left: "sn_id x \<in> ids \<longrightarrow> \<not> swept has_run x" by blast+
  from x assms(1) consider "x \<in> set ts" "sn_id x \<noteq> sn_id r" | "x = r\<lparr>sn_body := body\<rparr>"
    unfolding set_set_row by blast
  then show ?thesis
  proof cases
    case 1
    with left show ?thesis by simp
  next
    case 2
    with assms(2-4) have "cancelled_from has_run ts x" by (auto simp: cancelled_from_def)
    then show ?thesis ..
  qed
qed

lemma sweepE:
  assumes "json_ops_ok J" and "working sid db0 db s" and "distinct (map sn_id rows)"
    and "set rows \<subseteq> set (rows_of sid (sd_turns db))"
    and "foldM (sweep_turn J env sid has_run) rows (n, s, db) = Inr (n', s', db')"
  shows "working sid db0 db' s' \<and> (\<exists>k. s' = s\<lparr>as_next_sequence := k\<rparr>) \<and>
    sn_id ` set (rows_of sid (sd_turns db')) = sn_id ` set (rows_of sid (sd_turns db)) \<and>
    (\<forall>x \<in> set (rows_of sid (sd_turns db')).
       x \<in> set (rows_of sid (sd_turns db)) \<and> (sn_id x \<in> sn_id ` set rows \<longrightarrow> \<not> swept has_run x) \<or>
       cancelled_from has_run (rows_of sid (sd_turns db)) x)"
  using assms(2-5)
proof (induction rows arbitrary: n s db)
  case Nil
  then show ?case by (intro conjI exI [of _ "as_next_sequence s"] ballI disjI1) simp_all
next
  case (Cons r rows)
  let ?ts = "rows_of sid (sd_turns db)"
  from Cons.prems(4) obtain c where c: "sweep_turn J env sid has_run r (n, s, db) = Inr c"
    and rest: "foldM (sweep_turn J env sid has_run) rows c = Inr (n', s', db')"
    by (auto elim!: rbindE)
  have r: "r \<in> set ?ts" using Cons.prems(3) by simp
  have only: "x = r" if "x \<in> set ?ts" "sn_id x = sn_id r" for x
    using working_turn_unique [OF Cons.prems(1)] that r by (auto simp: set_rows_of)
  from assms(1) Cons.prems(1) r c show ?case
  proof (cases rule: sweep_turnE)
    case 1
    have IH: "working sid db0 db' s'" "\<exists>k. s' = s\<lparr>as_next_sequence := k\<rparr>"
      "sn_id ` set (rows_of sid (sd_turns db')) = sn_id ` set ?ts"
      and each: "\<And>x. x \<in> set (rows_of sid (sd_turns db')) \<Longrightarrow>
        x \<in> set ?ts \<and> (sn_id x \<in> sn_id ` set rows \<longrightarrow> \<not> swept has_run x) \<or> cancelled_from has_run ?ts x"
      using Cons.IH [OF Cons.prems(1) _ _ rest [unfolded 1(1)]] Cons.prems(2,3) by simp_all
    have "x \<in> set ?ts \<and> (sn_id x \<in> sn_id ` set (r # rows) \<longrightarrow> \<not> swept has_run x) \<or> cancelled_from has_run ?ts x"
      if "x \<in> set (rows_of sid (sd_turns db'))" for x
    proof (cases "sn_id x = sn_id r \<and> x \<in> set ?ts")
      case True
      with only 1(2) show ?thesis by blast
    next
      case False
      with each [OF that] show ?thesis by auto
    qed
    with IH show ?thesis by blast
  next
    case (2 db1 body)
    have ids: "sn_id ` set (set_row (sn_id r) body ?ts) = sn_id ` set ?ts"
      by (metis list.set_map map_set_row(1))
    have "\<forall>x \<in> set rows. sn_id x \<noteq> sn_id r" using Cons.prems(2) by (auto simp: image_iff)
    then have "set rows \<subseteq> set (rows_of sid (sd_turns db1))"
      using Cons.prems(3) by (auto simp: 2(4) set_set_row)
    from Cons.IH [OF 2(2) _ this rest [unfolded 2(1)]] Cons.prems(2)
    have IH: "working sid db0 db' s'" "\<exists>k. s' = s\<lparr>as_next_sequence := k\<rparr>"
      "sn_id ` set (rows_of sid (sd_turns db')) = sn_id ` set ?ts"
      and each: "\<And>x. x \<in> set (rows_of sid (sd_turns db')) \<Longrightarrow>
        x \<in> set (set_row (sn_id r) body ?ts) \<and> (sn_id x \<in> sn_id ` set rows \<longrightarrow> \<not> swept has_run x) \<or>
        cancelled_from has_run (set_row (sn_id r) body ?ts) x"
      by (auto simp: 2(4) ids)
    have "x \<in> set ?ts \<and> (sn_id x \<in> sn_id ` set (r # rows) \<longrightarrow> \<not> swept has_run x) \<or> cancelled_from has_run ?ts x"
      if "x \<in> set (rows_of sid (sd_turns db'))" for x
      using swept_transfer [OF only r 2(3,5) each [OF that]] by simp
    with IH show ?thesis by blast
  qed
qed

lemma turns_agree_rows: "turns_agree s ts \<Longrightarrow> r \<in> set ts \<Longrightarrow> row_agrees s r"
  by (simp add: turns_agree_def)

lemma not_running: "row_agrees s r \<Longrightarrow> turn_ok r \<Longrightarrow> as_active_run_id s = [] \<Longrightarrow> status r \<noteq> ''running''"
  by (auto simp: row_agrees_def turn_ok_def split: option.splits)

text \<open>With a run in progress: its turn is asked to stop, the queued ones are cancelled.\<close>

lemma request_cancellationE:
  assumes "working sid db0 db s1" and "turns_agree s (rows_of sid (sd_turns db))" and "as_active_run_id s \<noteq> []"
    and "as_active_turn_id s1 = as_active_turn_id s"
    and "request_turn_cancellation J env sid (n, s1, db) = Inr (n', s2, db')"
  shows "working sid db0 db' s2 \<and> (\<exists>k. s2 = s1\<lparr>as_next_sequence := k\<rparr>) \<and> turns_agree s (rows_of sid (sd_turns db'))"
proof -
  have active: "as_active_turn_id s \<noteq> []"
    using assms(2,3) by (auto simp: turns_agree_def head_agrees_def)
  with assms(4,5) obtain r body db1 where find: "find_turn db (as_active_turn_id s) = Some r"
    and body: "body = jput ''cancellation_requested'' (JBool True) (sn_body r)"
    and put: "put_turn J (as_active_turn_id s) body db = Inr db1"
    and ev: "closing_event J env sid ''turn.execution.cancel_requested'' (as_active_turn_id s) (as_active_run_id s1)
      (jobject [(''state'', JStr ''cancellation_requested'')]) (n, s1, db1) = Inr (n', s2, db')"
    by (auto simp: request_turn_cancellation_def elim!: rbindE split: option.splits if_splits)
  have r: "r \<in> set (rows_of sid (sd_turns db))" and prog: "in_progress r"
    using active_turn [OF assms(1,2) find active] by simp_all
  have ok: "turn_ok r" and id: "sn_id r = as_active_turn_id s"
    using working_turn(1) [OF assms(1) r] find_turn_Some(2) [OF find] by simp_all
  have running: "status r = ''running''"
    using turns_agree_rows [OF assms(2) r] prog assms(3) by (auto simp: row_agrees_def)
  have run_id: "field (sn_body r) ''run_id'' = Some (JStr (bound_run r))" "bound_run r \<noteq> []"
    using ok running by (auto simp: turn_ok_def split: option.splits)
  have upd: "status (r\<lparr>sn_body := body\<rparr>) = ''running'' \<and> turn_ok (r\<lparr>sn_body := body\<rparr>) \<and> row_evolves r (r\<lparr>sn_body := body\<rparr>)"
    by (intro conjI; rule turn_update [OF ok, where st = "''running''"])
      (use run_id running ok in \<open>auto simp: body lasting_fields_def finished_states_def turn_ok_def\<close>)
  have "working sid db0 db1 s1"
    using working_put_turn [OF assms(1) put _ id _ upd [THEN conjunct2, THEN conjunct1] upd [THEN conjunct2, THEN conjunct2]]
      working_turn(2,3) [OF assms(1) r] by simp
  then have w: "working sid db0 db' s2 \<and> (\<exists>k. s2 = s1\<lparr>as_next_sequence := k\<rparr>) \<and> sd_turns db' = sd_turns db1"
    by (rule closing_eventE [OF _ ev]) auto
  have "row_agrees s (r\<lparr>sn_body := body\<rparr>)"
    using turns_agree_rows [OF assms(2) r] running upd by (simp add: row_agrees_def bound_run_def body)
  then have "turns_agree s (rows_of sid (set_row (sn_id r) body (sd_turns db)))"
    using assms(2) by (intro turns_agree_set_row [OF assms(1) r assms(2)]) (simp_all add: turns_agree_def)
  with w put_turn_Inr [OF put] id show ?thesis by simp
qed

text \<open>With no run in progress: the claimed turn is cancelled.\<close>

lemma cancel_activeE:
  assumes "json_ops_ok J" and "working sid db0 db s1" and "turns_agree s (rows_of sid (sd_turns db))"
    and "as_active_run_id s = []" and "as_active_turn_id s1 = as_active_turn_id s"
    and "cancel_active_turn J env sid (n, s1, db) = Inr (n', s2, db')"
  shows "working sid db0 db' s2 \<and> (\<exists>k. s2 = s1\<lparr>as_active_turn_id := [], as_next_sequence := k\<rparr>) \<and>
    (\<forall>x \<in> set (rows_of sid (sd_turns db')). status x \<noteq> ''running'')"
proof -
  have idle: "status x \<noteq> ''running''" if "x \<in> set (rows_of sid (sd_turns db))" for x
    using not_running [OF turns_agree_rows [OF assms(3) that] working_turn(1) [OF assms(2) that] assms(4)] .
  show ?thesis
  proof (cases "as_active_turn_id s = []")
    case True
    with assms(2,5,6) idle show ?thesis
      by (auto simp: cancel_active_turn_def intro!: exI [of _ "as_next_sequence s1"])
  next
    case False
    have "as_active_turn_id s \<in> sn_id ` set (rows_of sid (sd_turns db))"
      using assms(3) False by (simp add: turns_agree_def head_agrees_def)
    then have "find_turn db (as_active_turn_id s) \<noteq> None"
      by (auto simp: find_turn_def find_None_iff set_rows_of)
    then obtain r where find: "find_turn db (as_active_turn_id s) = Some r" by blast
    have r: "r \<in> set (rows_of sid (sd_turns db))" "in_progress r"
      using active_turn [OF assms(2,3) find False] by simp_all
    have claimed: "status r = ''claimed''" using r idle by blast
    with assms(1,5,6) find False working_turn(1) [OF assms(2) r(1)] obtain n3 s3 where
      p: "persist_turn J env sid (sn_body r) (n, s1, db) = Inr (n3, s3, db')"
      and s2: "s2 = s3\<lparr>as_active_turn_id := []\<rparr>"
      by (auto simp: cancel_active_turn_def elim!: rbindE)
    from assms(1,2) r(1) _ p obtain body where s3: "s3 = s1\<lparr>as_next_sequence := as_next_sequence s1 + 1\<rparr>"
      and w: "working sid db0 db' s3" and turns: "sd_turns db' = set_row (sn_id r) body (sd_turns db)"
      and c: "status (r\<lparr>sn_body := body\<rparr>) = ''cancelled''"
      by (rule persist_turnE) (use claimed in auto)
    have "status x \<noteq> ''running''" if x: "x \<in> set (rows_of sid (sd_turns db'))" for x
    proof -
      from x consider "x \<in> set (rows_of sid (sd_turns db))"
        | y where "y \<in> set (rows_of sid (sd_turns db))" "sn_id y = sn_id r" "x = y\<lparr>sn_body := body\<rparr>"
        unfolding turns rows_of_set_row set_set_row by blast
      then show ?thesis by cases (use idle c in \<open>auto simp: status_def\<close>)
    qed
    moreover have "working sid db0 db' s2" using w by (rule working_same_log) (simp add: s2)
    ultimately show ?thesis by (auto simp: s2 s3 intro!: exI [of _ "as_next_sequence s1 + 1"])
  qed
qed

lemma sweep_all:
  assumes "json_ops_ok J" and "working sid db0 db s"
    and "foldM (sweep_turn J env sid has_run) (sort_key sn_sequence (rows_of sid (sd_turns db))) (n, s, db) = Inr (n', s', db')"
  shows "working sid db0 db' s'" and "\<exists>k. s' = s\<lparr>as_next_sequence := k\<rparr>"
    and "sn_id ` set (rows_of sid (sd_turns db')) = sn_id ` set (rows_of sid (sd_turns db))"
    and "x \<in> set (rows_of sid (sd_turns db')) \<Longrightarrow>
      x \<in> set (rows_of sid (sd_turns db)) \<and> \<not> swept has_run x \<or> cancelled_from has_run (rows_of sid (sd_turns db)) x"
proof -
  have "distinct (map sn_id (rows_of sid (sd_turns db)))"
    using assms(2) by (simp add: working_def rows_of_def distinct_map_filter)
  then have "distinct (map sn_id (sort_key sn_sequence (rows_of sid (sd_turns db))))"
    by (simp add: distinct_map)
  note * = sweepE [OF assms(1,2) this _ assms(3), simplified]
  then show "working sid db0 db' s'" "\<exists>k. s' = s\<lparr>as_next_sequence := k\<rparr>"
    "sn_id ` set (rows_of sid (sd_turns db')) = sn_id ` set (rows_of sid (sd_turns db))" by blast+
  show "x \<in> set (rows_of sid (sd_turns db)) \<and> \<not> swept has_run x \<or> cancelled_from has_run (rows_of sid (sd_turns db)) x"
    if "x \<in> set (rows_of sid (sd_turns db'))"
    using * that by (metis image_eqI)
qed

lemma first_close_running:
  assumes "json_ops_ok J" and "working sid db db s" and "turns_agree s (rows_of sid (sd_turns db))"
    and "as_active_run_id s \<noteq> []" and "as_state s = ''open''"
    and "first_close J env sid s db = Inr (n, s', db')"
  shows "working sid db db' s' \<and> turns_agree s' (rows_of sid (sd_turns db')) \<and> as_state s' = ''closing''"
proof -
  define s1 where "s1 = s\<lparr>as_state := ''closing'', as_updated_at := se_now env 1\<rparr>"
  from assms(4,6) obtain c1 c2 where
    ev: "closing_event J env sid ''session.closing'' [] [] (jobject [(''state'', JStr ''closing'')]) (1, s1, db) = Inr c1"
    and req: "request_turn_cancellation J env sid c1 = Inr c2"
    and sweep: "foldM (sweep_turn J env sid True)
      (sort_key sn_sequence (rows_of sid (sd_turns (snd (snd c2))))) c2 = Inr (n, s', db')"
    by (auto simp: first_close_def Let_def s1_def elim!: rbindE)
  obtain n2 s2 db2 where c2: "c2 = (n2, s2, db2)" by (cases c2)
  have w1: "working sid db db s1" using assms(2) by (rule working_same_log) (simp add: s1_def)
  then obtain db1 where c1: "c1 = (Suc 1, s1\<lparr>as_next_sequence := as_next_sequence s1 + 1\<rparr>, db1)"
    and "working sid db db1 (s1\<lparr>as_next_sequence := as_next_sequence s1 + 1\<rparr>)" and "sd_turns db1 = sd_turns db"
    by (rule closing_eventE [OF _ ev])
  with request_cancellationE [of sid db db1 _ s J env "Suc 1" n2 s2 db2] assms(3,4) req c2
  have w2: "working sid db db2 s2" and "\<exists>k. s2 = s1\<lparr>as_next_sequence := k\<rparr>"
    and agree: "turns_agree s (rows_of sid (sd_turns db2))"
    by (fastforce simp: s1_def)+
  note sw = sweep_all [OF assms(1) w2 sweep [unfolded c2, simplified]]
  obtain k where s': "s' = s1\<lparr>as_next_sequence := k\<rparr>" using sw(2) \<open>\<exists>k. s2 = s1\<lparr>as_next_sequence := k\<rparr>\<close> by auto
  have "row_agrees s' x" if "x \<in> set (rows_of sid (sd_turns db'))" for x
    using sw(4) [OF that]
  proof (elim disjE conjE)
    assume "x \<in> set (rows_of sid (sd_turns db2))" and "\<not> swept True x"
    with turns_agree_rows [OF agree] show ?thesis by (simp add: swept_def row_agrees_def s' s1_def)
  next
    assume "cancelled_from True (rows_of sid (sd_turns db2)) x"
    then obtain y where "status x = ''cancelled''" and "row_agrees s y" and "sn_id y = sn_id x" and "status y = ''queued''"
      using turns_agree_rows [OF agree] by (auto simp: cancelled_from_def swept_def)
    then show ?thesis by (simp add: row_agrees_def s' s1_def)
  qed
  moreover have "head_agrees s' (sn_id ` set (rows_of sid (sd_turns db')))"
    using agree assms(4) by (auto simp: turns_agree_def head_agrees_def s' s1_def sw(3))
  ultimately show ?thesis using sw(1) by (simp add: turns_agree_def s' s1_def)
qed

lemma first_close_idle:
  assumes "json_ops_ok J" and "working sid db db s" and "turns_agree s (rows_of sid (sd_turns db))"
    and "as_active_run_id s = []" and "as_state s = ''open''"
    and "first_close J env sid s db = Inr (n, s', db')"
  shows "working sid db db' s' \<and> turns_agree s' (rows_of sid (sd_turns db')) \<and> as_state s' = ''closed''"
proof -
  define s1 where "s1 = s\<lparr>as_state := ''closed'', as_updated_at := se_now env 1\<rparr>"
  from assms(4,6) obtain c1 c2 n3 s3 db3 where
    ev: "closing_event J env sid ''session.closing'' [] [] (jobject [(''state'', JStr ''closing'')]) (1, s1, db) = Inr c1"
    and cancel: "cancel_active_turn J env sid c1 = Inr c2"
    and sweep: "foldM (sweep_turn J env sid False)
      (sort_key sn_sequence (rows_of sid (sd_turns (snd (snd c2))))) c2 = Inr (n3, s3, db3)"
    and fin: "closing_event J env sid ''session.closed'' [] [] (jobject [(''state'', JStr ''closed'')])
      (n3, s3\<lparr>as_active_run_id := []\<rparr>, db3) = Inr (n, s', db')"
    by (auto simp: first_close_def Let_def s1_def elim!: rbindE)
  obtain n2 s2 db2 where c2: "c2 = (n2, s2, db2)" by (cases c2)
  have w1: "working sid db db s1" using assms(2) by (rule working_same_log) (simp add: s1_def)
  then obtain db1 where c1: "c1 = (Suc 1, s1\<lparr>as_next_sequence := as_next_sequence s1 + 1\<rparr>, db1)"
    and "working sid db db1 (s1\<lparr>as_next_sequence := as_next_sequence s1 + 1\<rparr>)" and "sd_turns db1 = sd_turns db"
    by (rule closing_eventE [OF _ ev])
  with cancel_activeE [of J sid db db1 _ s env "Suc 1" n2 s2 db2] assms(1,3,4) cancel c2
  have w2: "working sid db db2 s2" and "\<exists>k. s2 = s1\<lparr>as_active_turn_id := [], as_next_sequence := k\<rparr>"
    and idle: "\<And>x. x \<in> set (rows_of sid (sd_turns db2)) \<Longrightarrow> status x \<noteq> ''running''"
    by (fastforce simp: s1_def)+
  note sw = sweep_all [OF assms(1) w2 sweep [unfolded c2, simplified]]
  obtain k where s3: "s3 = s1\<lparr>as_active_turn_id := [], as_next_sequence := k\<rparr>"
    using sw(2) \<open>\<exists>k. s2 = s1\<lparr>as_active_turn_id := [], as_next_sequence := k\<rparr>\<close> by auto
  have "working sid db db3 (s3\<lparr>as_active_run_id := []\<rparr>)" using sw(1) by (rule working_same_log) simp
  then obtain db4 where s': "s' = s3\<lparr>as_active_run_id := [], as_next_sequence := k + 1\<rparr>"
    and w': "working sid db db' s'" and turns: "sd_turns db' = sd_turns db3"
    by (rule closing_eventE [OF _ fin]) (auto simp: s3)
  have "row_agrees s' x" if x: "x \<in> set (rows_of sid (sd_turns db'))" for x
  proof -
    have "status x \<notin> {''queued'', ''claimed'', ''running''}"
      using sw(4) [OF x [unfolded turns]] idle by (auto simp: swept_def cancelled_from_def)
    moreover have "sn_id x \<noteq> []" using working_turn(1) [OF w' x] by (simp add: turn_ok_def)
    ultimately show ?thesis by (simp add: row_agrees_def s' s3)
  qed
  with w' show ?thesis by (simp add: turns_agree_def head_agrees_def s' s3 s1_def)
qed

lemma agreed_state: "turns_agree s ts \<Longrightarrow> as_state s = ''open'' \<or> as_state s = ''closing'' \<or> as_state s = ''closed''"
  by (auto simp: turns_agree_def head_agrees_def)

lemma close_sessionE:
  assumes "json_ops_ok J" and "session_inv db" and "close_agent_session J env sid db = (res, db')"
  obtains "db' = db" | s s' where "load_session J env sid db = Inr s" and "as_state s \<noteq> ''closed''"
    and "progresses db db'" and "others_kept sid db db'"
    and "lookup (sd_store db') KAgentSession sid = Some (agent_session_to_json s')" and "as_state s' \<noteq> ''open''"
  using assms(3) unfolding close_agent_session_def
proof (cases rule: guarded_transactionE)
  case (1 e)
  then show thesis by (intro that(1)) simp
next
  case (2 a)
  show thesis
  proof (cases "db' = db")
    case True
    then show thesis by (rule that(1))
  next
    case False
    with 2(3) obtain s n s1 db1 where load: "load_session J env sid db = Inr s" and not_closed: "as_state s \<noteq> ''closed''"
      and first: "(if as_state s \<noteq> ''closing'' then first_close J env sid s db else Inr (1, s, db)) = Inr (n, s1, db1)"
      and put: "put_session J sid (s1\<lparr>as_updated_at := se_now env n\<rparr>) db1 = Inr db'"
      by (auto elim!: rbindE split: if_splits)
    from assms(1,2) load have at_work: "turns_agree s (rows_of sid (sd_turns db))" "working sid db db s"
      by (auto elim: load_sessionE)
    have "working sid db db1 s1 \<and> turns_agree s1 (rows_of sid (sd_turns db1)) \<and> as_state s1 \<noteq> ''open''"
      using first at_work agreed_state [OF at_work(1)] not_closed first_close_running [OF assms(1) at_work(2,1)]
        first_close_idle [OF assms(1) at_work(2,1)]
      by (cases "as_active_run_id s = []") (fastforce split: if_splits)+
    then have w: "working sid db db1 (s1\<lparr>as_updated_at := se_now env n\<rparr>)"
      and a: "turns_agree (s1\<lparr>as_updated_at := se_now env n\<rparr>) (rows_of sid (sd_turns db1))" and "as_state s1 \<noteq> ''open''"
      using turns_agree_cong [of "s1\<lparr>as_updated_at := se_now env n\<rparr>" s1] by (auto elim: working_same_log)
    with working_put_session [OF w put a] load not_closed show thesis
      by (intro that(2) [of s "s1\<lparr>as_updated_at := se_now env n\<rparr>"]) simp_all
  qed
qed

lemma close_moves:
  assumes "json_ops_ok J" and "session_inv db" and "close_agent_session J env sid db = (res, db')"
  shows "moves sid db db'"
  using assms
proof (cases rule: close_sessionE)
  case (2 s s')
  from assms(1,2) 2(1) have "lookup (sd_store db) KAgentSession sid = Some (agent_session_to_json s)"
    by (auto elim: load_sessionE)
  with 2(2-5) show ?thesis by (auto simp: moves_def)
qed simp

section \<open>Context generations\<close>

text \<open>Each generation follows the one before it, and its boundary does not move back.\<close>

fun chained :: "string \<Rightarrow> nat \<Rightarrow> u64 \<Rightarrow> session_context_generation list \<Rightarrow> bool" where
  "chained pid n b [] = True"
| "chained pid n b (g # gs) \<longleftrightarrow>
     cg_predecessor_id g = pid \<and> unat (cg_generation g) = Suc n \<and> b \<le> cg_through_turn_sequence g \<and>
     chained (cg_id g) (Suc n) (cg_through_turn_sequence g) gs"

definition covered :: "session_row list \<Rightarrow> session_context_generation \<Rightarrow> bool" where
  "covered ts g \<longleftrightarrow>
     unat (cg_through_turn_sequence g) \<le> length ts \<and>
     (\<forall>r \<in> set ts. sn_sequence r \<le> unat (cg_through_turn_sequence g) \<longrightarrow> finished r)"

definition generations_ok :: "session_db \<Rightarrow> string \<Rightarrow> session_context_generation list \<Rightarrow> bool" where
  "generations_ok db sid gs \<longleftrightarrow>
     generation_rows sid db = map context_generation_to_json gs \<and> chained [] 0 0 gs \<and>
     (\<forall>g \<in> set gs. cg_session_id g = sid \<and> covered (rows_of sid (sd_turns db)) g)"

definition generations_inv :: "session_db \<Rightarrow> bool" where
  "generations_inv db \<longleftrightarrow> (\<forall>sid. \<exists>gs. generations_ok db sid gs)"

lemma chained_snoc:
  "chained pid n b (gs @ [g]) \<longleftrightarrow>
     chained pid n b gs \<and>
     (if gs = [] then chained pid n b [g]
      else chained (cg_id (last gs)) (unat (cg_generation (last gs))) (cg_through_turn_sequence (last gs)) [g])"
  by (induction gs arbitrary: pid n b) auto

lemma check_history_Inr:
  assumes "check_history J rows = Inr seen"
  shows "seen = length rows"
    and "\<forall>r \<in> set rows. \<exists>st. jvalue (get_string J) (sn_body r) ''state'' [] = Inr st \<and> st \<in> set finished_states"
proof -
  let ?f = "\<lambda>row seen. rbind (jvalue (get_string J) (sn_body row) ''state'' []) (\<lambda>state.
    if sn_sequence row \<noteq> Suc seen \<or> state \<notin> set finished_states
    then throw Conflict ''Context generation boundary includes unfinished history'' else Inr (Suc seen))"
  have "m = n + length rows \<and>
      (\<forall>r \<in> set rows. \<exists>st. jvalue (get_string J) (sn_body r) ''state'' [] = Inr st \<and> st \<in> set finished_states)"
    if "foldM ?f rows n = Inr m" for n m
    using that
  proof (induction rows arbitrary: n)
    case (Cons r rows)
    from Cons.prems obtain st where st: "jvalue (get_string J) (sn_body r) ''state'' [] = Inr st" "st \<in> set finished_states"
      and "foldM ?f rows (Suc n) = Inr m" by (auto elim!: rbindE split: if_splits)
    with Cons.IH [of "Suc n"] show ?case by simp
  qed simp
  from this [of 0 seen] assms show "seen = length rows"
    and "\<forall>r \<in> set rows. \<exists>st. jvalue (get_string J) (sn_body r) ''state'' [] = Inr st \<and> st \<in> set finished_states"
    by (simp_all add: check_history_def)
qed

lemma list_all2_rows_of:
  "list_all2 row_evolves xs ys \<Longrightarrow> list_all2 row_evolves (rows_of sid xs) (rows_of sid ys)"
  by (induction rule: list_all2_induct) (auto simp: rows_of_def row_evolves_def)

lemma evolves_rows_of:
  assumes "evolves xs ys"
  shows "evolves (rows_of sid xs) (rows_of sid ys)"
proof -
  from assms obtain old new where ys: "ys = old @ new" and "list_all2 row_evolves xs old"
    by (auto simp: evolves_def)
  from list_all2_rows_of [OF this(2)] show ?thesis
    unfolding evolves_def ys rows_of_append by blast
qed

lemma numbered_nth:
  assumes "numbered rows (length rows)" and "i < length rows"
  shows "sn_sequence (rows ! i) = Suc i"
proof -
  have "map sn_sequence rows ! i = [1..<Suc (length rows)] ! i" using assms(1) by (simp only: numbered_def)
  with assms(2) show ?thesis by (simp del: upt_Suc)
qed

text \<open>Finished history stays finished while a session goes on.\<close>

lemma covered_evolves:
  assumes "covered ts g" and "evolves ts ts'" and "numbered ts (length ts)" and "numbered ts' (length ts')"
  shows "covered ts' g"
proof -
  from assms(2) obtain old new where ts': "ts' = old @ new" and all: "list_all2 row_evolves ts old"
    by (auto simp: evolves_def)
  have len: "length old = length ts" using all by (simp add: list_all2_lengthD)
  have "finished r" if r: "r \<in> set ts'" "sn_sequence r \<le> unat (cg_through_turn_sequence g)" for r
  proof -
    from r(1) obtain i where i: "i < length ts'" "r = ts' ! i" by (auto simp: in_set_conv_nth)
    with r(2) numbered_nth [OF assms(4) i(1)] assms(1) have bound: "i < length ts" "Suc i \<le> unat (cg_through_turn_sequence g)"
      by (auto simp: covered_def)
    then have "row_evolves (ts ! i) r" using all len by (simp add: i(2) ts' nth_append list_all2_conv_all_nth)
    moreover have "finished (ts ! i)"
      using assms(1) bound numbered_nth [OF assms(3) bound(1)] by (auto simp: covered_def)
    ultimately show ?thesis by (simp add: row_evolves_def)
  qed
  moreover have "length ts \<le> length ts'" by (simp add: ts' len)
  ultimately show ?thesis using assms(1) by (auto simp: covered_def)
qed

lemma session_inv_numbered: "session_inv db \<Longrightarrow> numbered (rows_of sid (sd_turns db)) (length (rows_of sid (sd_turns db)))"
proof -
  assume "session_inv db"
  then have ok: "session_ok (lookup (sd_store db) KAgentSession sid) (rows_of sid (sd_turns db)) (rows_of sid (sd_events db))"
    by (simp add: session_inv_def)
  then show ?thesis by (cases "lookup (sd_store db) KAgentSession sid") (auto simp: numbered_def)
qed

lemma generations_kept:
  assumes "session_inv db" and "progresses db db'"
    and "sd_store db' KSessionContextGeneration = sd_store db KSessionContextGeneration"
    and "generations_ok db sid gs"
  shows "generations_ok db' sid gs"
proof -
  have "covered (rows_of sid (sd_turns db')) g" if "covered (rows_of sid (sd_turns db)) g" for g
    using that assms(1,2) by (auto simp: progresses_def intro: covered_evolves evolves_rows_of session_inv_numbered)
  with assms(3,4) show ?thesis by (auto simp: generations_ok_def generation_rows_def)
qed

lemma latest_row_last:
  "latest_row sid db = (if generation_rows sid db = [] then None else Some (last (generation_rows sid db)))"
  by (simp add: latest_row_def split: list.split)

lemma latest_generation:
  assumes "json_ops_ok J" and "generations_ok db sid gs"
  shows "(case latest_row sid db of
            None \<Rightarrow> Inr (0, 0, [])
          | Some body \<Rightarrow> rbind (context_generation_from_json J f n body) (\<lambda>prior.
              Inr (cg_generation prior, cg_through_turn_sequence prior, cg_id prior))) =
         Inr (if gs = [] then (0, 0, [])
              else (cg_generation (last gs), cg_through_turn_sequence (last gs), cg_id (last gs)))"
proof (cases gs rule: rev_cases)
  case Nil
  with assms(2) show ?thesis by (simp add: latest_row_def generations_ok_def)
next
  case (snoc xs g)
  with assms(2) have "generation_rows sid db = map context_generation_to_json xs @ [context_generation_to_json g]"
    by (simp add: generations_ok_def)
  then have "latest_row sid db = Some (context_generation_to_json g)"
    by (simp add: latest_row_last)
  with assms(1) snoc show ?thesis by (simp add: context_generation_codec)
qed

lemma insert_generation_Inr:
  assumes "insert_generation J sid g db = Inr db'"
  shows "sd_turns db' = sd_turns db" and "sd_events db' = sd_events db"
    and "lookup (sd_store db') KAgentSession rid = lookup (sd_store db) KAgentSession rid"
    and "generation_rows other db' = generation_rows other db @ (if other = sid then [context_generation_to_json g] else [])"
proof -
  let ?r = "\<lparr>sr_kind = KSessionContextGeneration, sr_id = cg_id g, sr_run_id = sid, sr_value = context_generation_to_json g\<rparr>"
  from assms have db': "db' = db\<lparr>sd_store := upsert ?r (sd_store db)\<rparr>"
    and new: "lookup (sd_store db) KSessionContextGeneration (cg_id g) = None"
    by (auto simp: insert_generation_def Let_def elim!: rbindE split: if_splits)
  then show "sd_turns db' = sd_turns db" "sd_events db' = sd_events db"
    "lookup (sd_store db') KAgentSession rid = lookup (sd_store db) KAgentSession rid"
    by (simp_all add: lookup_upsert)
  have "find_row (sd_store db) KSessionContextGeneration (cg_id g) = None" using new by (simp add: lookup_def)
  then have "upsert ?r (sd_store db) KSessionContextGeneration = sd_store db KSessionContextGeneration @
      [\<lparr>row_id = cg_id g, row_run_id = sid, row_body = context_generation_to_json g\<rparr>]"
    by (simp add: upsert_def Let_def)
  then show "generation_rows other db' = generation_rows other db @ (if other = sid then [context_generation_to_json g] else [])"
    by (simp add: generation_rows_def db')
qed

lemma extend_generationE:
  assumes "json_ops_ok J" and "session_inv db" and "generations_ok db sid gs"
    and "extend_generation J env sid expected through key kind version payload db = Inr (j, db')"
  obtains g where "insert_generation J sid g db = Inr db'" and "j = context_generation_to_json g"
    and "generations_ok db' sid (gs @ [g])" and "cg_idempotency_key g = key" and "cg_through_turn_sequence g = through"
    and "cg_payload g = payload" and "cg_representation_kind g = kind" and "cg_representation_version g = version"
proof -
  let ?ts = "rows_of sid (sd_turns db)"
  define cur where "cur = (if gs = [] then (0, 0, [])
    else (cg_generation (last gs), cg_through_turn_sequence (last gs), cg_id (last gs)))"
  obtain n b pid where cur': "cur = (n, b, pid)" by (cases cur)
  from assms(4) obtain g where ins: "insert_generation J sid g db = Inr db'" and j: "j = context_generation_to_json g"
    and le: "b \<le> through" and n: "uint n < 2 ^ 63 - 1"
    and hist: "check_history J (sort_key sn_sequence (filter (\<lambda>r. sn_sequence r \<le> unat through) ?ts)) = Inr (unat through)"
    and g: "cg_session_id g = sid" "cg_predecessor_id g = pid" "cg_generation g = n + 1" "cg_through_turn_sequence g = through"
      "cg_idempotency_key g = key" "cg_payload g = payload" "cg_representation_kind g = kind" "cg_representation_version g = version"
    unfolding extend_generation_def latest_generation [OF assms(1,3)] cur_def [symmetric] cur'
    by (auto simp: Let_def elim!: rbindE split: if_splits)
  have suc: "unat (n + 1) = Suc (unat n)" by (rule unat_next) (use n in simp)
  have chain: "chained [] 0 0 (gs @ [g])"
    using assms(3) g le suc cur_def cur' by (auto simp: chained_snoc generations_ok_def split: if_splits)
  have "finished r" if "r \<in> set ?ts" "sn_sequence r \<le> unat through" for r
    using check_history_Inr(2) [OF hist] that session_inv_turns [OF assms(2)] assms(1) by (auto simp: set_rows_of)
  moreover have "unat through \<le> length ?ts"
    using check_history_Inr(1) [OF hist] by (metis length_filter_le length_sort)
  ultimately have "covered ?ts g" by (simp add: covered_def g)
  with assms(3) chain have "generations_ok db' sid (gs @ [g])"
    by (auto simp: generations_ok_def insert_generation_Inr [OF ins] g)
  with ins j g show thesis by (intro that) simp_all
qed

lemma create_generationE:
  assumes "create_session_context_generation J env sid expected through key kind version payload db = (res, db')"
  obtains "db' = db" | j where "res = Inr j" and
    "extend_generation J env sid expected through key kind version payload db = Inr (j, db')"
  using assms unfolding create_session_context_generation_def
  by (cases rule: guarded_transactionE) (auto elim!: rbindE split: if_splits option.splits)

lemma generation_progresses:
  assumes "json_ops_ok J" and "session_inv db" and "generations_inv db"
    and "create_session_context_generation J env sid expected through key kind version payload db = (res, db')"
  shows "progresses db db'" and "generations_inv db'" and "sd_turns db' = sd_turns db" and "sd_events db' = sd_events db"
    and "lookup (sd_store db') KAgentSession = lookup (sd_store db) KAgentSession"
proof -
  have "progresses db db' \<and> generations_inv db' \<and> sd_turns db' = sd_turns db \<and> sd_events db' = sd_events db \<and>
      lookup (sd_store db') KAgentSession = lookup (sd_store db) KAgentSession"
    using assms(4)
  proof (cases rule: create_generationE)
    case 1
    with assms(2,3) show ?thesis by (simp add: progresses_refl)
  next
    case (2 j)
    obtain gs where gs: "generations_ok db sid gs" using assms(3) by (auto simp: generations_inv_def)
    from assms(1,2) gs 2(2) obtain g where ins: "insert_generation J sid g db = Inr db'"
      and own: "generations_ok db' sid (gs @ [g])" by (rule extend_generationE)
    note ins' = insert_generation_Inr [OF ins]
    have "\<exists>gs. generations_ok db' other gs" for other
    proof (cases "other = sid")
      case False
      with assms(3) show ?thesis by (simp add: generations_inv_def generations_ok_def ins')
    qed (use own in blast)
    with ins' assms(2) show ?thesis
      by (auto simp: progresses_def session_inv_def generations_inv_def evolves_refl fun_eq_iff)
  qed
  then show "progresses db db'" and "generations_inv db'" and "sd_turns db' = sd_turns db"
    and "sd_events db' = sd_events db" and "lookup (sd_store db') KAgentSession = lookup (sd_store db) KAgentSession"
    by blast+
qed

section \<open>Histories\<close>

text \<open>
  A system whose steps keep an invariant and move along a preorder: both hold of whole histories.
\<close>

locale evolving_system =
  fixes step :: "'s \<Rightarrow> 's \<Rightarrow> bool" and ok :: "'s \<Rightarrow> bool" and rel :: "'s \<Rightarrow> 's \<Rightarrow> bool"
  assumes keeps: "ok s \<Longrightarrow> step s s' \<Longrightarrow> ok s'"
    and within: "ok s \<Longrightarrow> step s s' \<Longrightarrow> rel s s'"
    and rel_refl: "rel s s"
    and rel_trans: "rel s s' \<Longrightarrow> rel s' s'' \<Longrightarrow> rel s s''"
begin

lemma history: "rtranclp step s s' \<Longrightarrow> ok s \<Longrightarrow> ok s' \<and> rel s s'"
  by (induction rule: rtranclp_induct) (auto intro: keeps within rel_refl rel_trans)

end

text \<open>The records a call of the generic interface writes; the program's calls carry no session or generation.\<close>

definition call_records :: "store_call \<Rightarrow> store_record list" where
  "call_records c =
     (case so_op c of
        Commit records \<Rightarrow> records
      | CommitOwned records _ _ _ _ \<Rightarrow> records
      | RequestCancellation _ \<Rightarrow> []
      | Claim r associated \<Rightarrow> r # associated)"

definition session_free :: "store_record list \<Rightarrow> bool" where
  "session_free records \<longleftrightarrow> (\<forall>r \<in> set records. sr_kind r \<noteq> KAgentSession \<and> sr_kind r \<noteq> KSessionContextGeneration)"

text \<open>
  One operation of the program on the database. A new session draws an identifier no session has.
\<close>

inductive session_step :: "json_ops \<Rightarrow> session_db \<Rightarrow> session_db \<Rightarrow> bool" for J where
  opened: "create_session J env pid db = (res, db') \<Longrightarrow>
    lookup (sd_store db) KAgentSession (se_fresh env 0) = None \<Longrightarrow> session_step J db db'"
| submitted: "submit_session_turn J env sid (session_turn_id sid key) (new_turn key input now pid) event db = (res', db') \<Longrightarrow>
    session_step J db db'"
| dispatched: "claim_next_session_turn J env sid owner token expires event db = (turn, db') \<Longrightarrow> session_step J db db'"
| bound: "bind_session_turn_run J env sid tid run run_event owner token event db = (res', db') \<Longrightarrow> session_step J db db'"
| completed: "commit_session_run J env records owner token event db = (res, db') \<Longrightarrow> session_free records \<Longrightarrow>
    session_step J db db'"
| closed: "close_agent_session J env sid db = (res', db') \<Longrightarrow> session_step J db db'"
| reduced: "create_session_context_generation J env sid expected through key kind version payload db = (res'', db') \<Longrightarrow>
    session_step J db db'"
| other: "session_free (call_records c) \<Longrightarrow> session_step J db (db\<lparr>sd_store := store_step J c (sd_store db)\<rparr>)"

definition closed_in :: "session_db \<Rightarrow> string \<Rightarrow> bool" where
  "closed_in db sid \<longleftrightarrow>
     (\<exists>s. lookup (sd_store db) KAgentSession sid = Some (agent_session_to_json s) \<and> as_state s = ''closed'')"

text \<open>How a database relates to an earlier one.\<close>

definition session_later :: "session_db \<Rightarrow> session_db \<Rightarrow> bool" where
  "session_later db db' \<longleftrightarrow>
     evolves (sd_turns db) (sd_turns db') \<and> (\<exists>new. sd_events db' = sd_events db @ new) \<and>
     (\<forall>sid. \<exists>new. generation_rows sid db' = generation_rows sid db @ new) \<and>
     (\<forall>sid. lookup (sd_store db) KAgentSession sid \<noteq> None \<longrightarrow> lookup (sd_store db') KAgentSession sid \<noteq> None) \<and>
     (\<forall>sid. closed_in db sid \<longrightarrow>
        lookup (sd_store db') KAgentSession sid = lookup (sd_store db) KAgentSession sid \<and>
        rows_of sid (sd_turns db') = rows_of sid (sd_turns db) \<and>
        rows_of sid (sd_events db') = rows_of sid (sd_events db))"

definition session_system_ok :: "json_ops \<Rightarrow> session_db \<Rightarrow> bool" where
  "session_system_ok J db \<longleftrightarrow> json_ops_ok J \<and> session_inv db \<and> generations_inv db"

lemma later_refl: "session_later db db"
  by (simp add: session_later_def evolves_refl)

lemma later_trans:
  assumes "session_later a b" and "session_later b c"
  shows "session_later a c"
proof -
  have "closed_in b sid" if "closed_in a sid" for sid
    using assms(1) that by (simp add: session_later_def closed_in_def)
  moreover have "\<exists>new. generation_rows sid c = generation_rows sid a @ new" for sid
  proof -
    from assms obtain x y where "generation_rows sid b = generation_rows sid a @ x"
      and "generation_rows sid c = generation_rows sid b @ y" unfolding session_later_def by blast
    then show ?thesis by simp
  qed
  moreover have "\<exists>new. sd_events c = sd_events a @ new" using assms by (auto simp: session_later_def)
  moreover have "evolves (sd_turns a) (sd_turns c)" using assms evolves_trans unfolding session_later_def by blast
  ultimately show ?thesis using assms unfolding session_later_def by simp
qed

lemma session_json_inject: "agent_session_to_json s = agent_session_to_json s' \<longleftrightarrow> s = s'"
  using agent_session_codec [OF plain_ops_ok, of "[]" "[]"] by (metis sum.inject(2))

lemma moves_later:
  assumes "session_system_ok J db" and "moves sid db db'"
  shows "session_system_ok J db'" and "session_later db db'"
proof -
  have inv: "session_inv db" and gens: "generations_inv db" using assms(1) by (simp_all add: session_system_ok_def)
  have "session_system_ok J db' \<and> session_later db db'"
  proof (cases "db' = db")
    case True
    with assms(1) show ?thesis by (simp add: later_refl)
  next
    case False
    with assms(2) obtain s s' where p: "progresses db db'" and others: "others_kept sid db db'"
      and s: "lookup (sd_store db) KAgentSession sid = Some (agent_session_to_json s)" "as_state s \<noteq> ''closed''"
      and s': "lookup (sd_store db') KAgentSession sid = Some (agent_session_to_json s')"
      by (auto simp: moves_def)
    have "generations_inv db'"
      using gens generations_kept [OF inv p] others unfolding generations_inv_def others_kept_def by blast
    moreover have "\<not> closed_in db sid" using s by (auto simp: closed_in_def session_json_inject)
    ultimately show ?thesis
      using p others s' assms(1) unfolding session_later_def session_system_ok_def others_kept_def progresses_def generation_rows_def
      by (auto simp: closed_in_def)
  qed
  then show "session_system_ok J db'" and "session_later db db'" by blast+
qed

lemma same_sessions:
  assumes "session_system_ok J db" and "sd_turns db' = sd_turns db" and "sd_events db' = sd_events db"
    and "lookup (sd_store db') KAgentSession = lookup (sd_store db) KAgentSession"
    and "sd_store db' KSessionContextGeneration = sd_store db KSessionContextGeneration"
  shows "session_system_ok J db' \<and> session_later db db'"
  using assms
  by (simp add: session_system_ok_def session_inv_def generations_inv_def generations_ok_def generation_rows_def
      session_later_def evolves_refl)

lemma store_step_free:
  assumes "session_free (call_records c)"
  shows "lookup (store_step J c st) KAgentSession = lookup st KAgentSession"
    and "store_step J c st KSessionContextGeneration = st KSessionContextGeneration"
proof -
  let ?P = "\<lambda>st'. lookup st' KAgentSession = lookup st KAgentSession \<and>
    st' KSessionContextGeneration = st KSessionContextGeneration"
  have up: "?P (upsert r st')" if "?P st'" "sr_kind r \<noteq> KAgentSession" "sr_kind r \<noteq> KSessionContextGeneration" for r st'
    using that by (auto simp: lookup_upsert upsert_other fun_eq_iff)
  have writes: "?P st'" if "write_records J f n n2 rs st = Inr st'" "session_free rs" for f n n2 rs st'
    using write_records_sessions [OF that(1)] write_records_generations [OF that(1)] that(2)
    by (auto simp: session_free_def)
  have inserts: "?P st''" if "foldM (insert_associated J) rs st' = Inr st''" "?P st'" "session_free rs" for rs st' st''
    by (rule foldM_invariant [OF that(1), of ?P])
      (use that(2,3) up in \<open>auto dest!: insert_associated_Inr simp: session_free_def\<close>)
  have "?P (store_step J c st)"
  proof (cases "so_op c")
    case (Commit records)
    with writes assms show ?thesis
      by (auto simp: store_step_def call_records_def commit_def in_transaction_def elim!: rbindE split: option.split sum.split)
  next
    case (CommitOwned records key owner token db)
    with writes assms show ?thesis
      by (auto simp: store_step_def call_records_def commit_owned_def in_transaction_def elim!: rbindE
          split: option.split sum.split if_splits)
  next
    case (RequestCancellation run_id)
    with up show ?thesis
      by (auto simp: store_step_def request_cancellation_def in_transaction_def Let_def elim!: rbindE
          split: option.split sum.split if_splits)
  next
    case (Claim r associated)
    have "?P (upsert r st)" using up [of st r] Claim assms by (simp add: call_records_def session_free_def)
    moreover have "session_free associated" using Claim assms by (simp add: call_records_def session_free_def)
    ultimately show ?thesis
      using Claim inserts [of associated "upsert r st"]
      by (auto simp: store_step_def claim_def in_transaction_def elim!: rbindE split: option.split sum.split if_splits)
  qed
  then show "lookup (store_step J c st) KAgentSession = lookup st KAgentSession"
    and "store_step J c st KSessionContextGeneration = st KSessionContextGeneration" by blast+
qed

lemma create_sessionE:
  assumes "create_session J env pid db = (res, db')"
  obtains "db' = db" | "sd_turns db' = sd_turns db" and "sd_events db' = sd_events db"
    and "lookup (sd_store db') KAgentSession =
      (lookup (sd_store db) KAgentSession)(se_fresh env 0 \<mapsto> agent_session_to_json (new_session (se_fresh env 0) (se_now env 0) pid))"
    and "sd_store db' KSessionContextGeneration = sd_store db KSessionContextGeneration"
proof -
  let ?s = "new_session (se_fresh env 0) (se_now env 0) pid"
  let ?r = "\<lparr>sr_kind = KAgentSession, sr_id = as_id ?s, sr_run_id = as_id ?s, sr_value = agent_session_to_json ?s\<rparr>"
  obtain st where db': "db' = db\<lparr>sd_store := st\<rparr>"
    and st: "commit J (se_fresh env 1) (se_now env 1) (se_now env 1) (se_fault env) [?r] (sd_store db) = (res, st)"
    using assms by (auto simp: create_session_def Let_def split: prod.splits)
  from st consider "st = sd_store db"
    | "write_records J (se_fresh env 1) (se_now env 1) (se_now env 1) [?r] (sd_store db) = Inr st"
    by (auto simp: commit_def in_transaction_def elim!: rbindE split: option.splits sum.splits)
  then show thesis
  proof cases
    case 1
    then show thesis by (intro that(1)) (simp add: db')
  next
    case 2
    have "lookup st KAgentSession rid = ((lookup (sd_store db) KAgentSession)(se_fresh env 0 \<mapsto> agent_session_to_json ?s)) rid" for rid
      using write_records_lookup [OF 2, of KAgentSession rid] by (simp add: written_def new_session_def)
    with write_records_generations [OF 2] show thesis by (intro that(2)) (auto simp: db' fun_eq_iff)
  qed
qed

lemma opened_later:
  assumes "session_system_ok J db" and "create_session J env pid db = (res, db')"
    and "lookup (sd_store db) KAgentSession (se_fresh env 0) = None"
  shows "session_system_ok J db' \<and> session_later db db'"
  using assms(2)
proof (cases rule: create_sessionE)
  case 1
  with assms(1) show ?thesis by (simp add: later_refl)
next
  case 2
  let ?sid = "se_fresh env 0"
  have none: "rows_of ?sid (sd_turns db) = []" "rows_of ?sid (sd_events db) = []"
    using assms(1,3) by (auto simp: session_system_ok_def session_inv_def dest: spec [of _ ?sid])
  have "session_ok (Some (agent_session_to_json (new_session ?sid (se_now env 0) pid))) [] []"
    by (auto simp: new_session_def turns_agree_def head_agrees_def numbered_def intro!: exI)
  with 2 none assms(1,3) show ?thesis
    by (auto simp: session_system_ok_def session_inv_def generations_inv_def generations_ok_def generation_rows_def
        session_later_def evolves_refl closed_in_def simp del: session_ok.simps)
qed

lemma generation_rows_later:
  assumes "create_session_context_generation J env sid expected through key kind version payload db = (res, db')"
    and "json_ops_ok J" and "session_inv db" and "generations_inv db"
  shows "\<exists>new. generation_rows other db' = generation_rows other db @ new"
  using assms(1)
proof (cases rule: create_generationE)
  case (2 j)
  obtain gs where "generations_ok db sid gs" using assms(4) by (auto simp: generations_inv_def)
  with 2(2) assms(2,3) show ?thesis by (elim extend_generationE) (auto simp: insert_generation_Inr(4))
qed simp

lemma reduced_later:
  assumes "session_system_ok J db"
    and "create_session_context_generation J env sid expected through key kind version payload db = (res, db')"
  shows "session_system_ok J db' \<and> session_later db db'"
proof -
  have inv: "json_ops_ok J" "session_inv db" "generations_inv db"
    using assms(1) by (simp_all add: session_system_ok_def)
  note g = generation_progresses [OF inv assms(2)]
  have "session_later db db'"
    using generation_rows_later [OF assms(2) inv] by (simp add: session_later_def g(3-5) evolves_refl)
  with g(1,2) inv show ?thesis by (simp add: session_system_ok_def progresses_def)
qed

lemma session_step_later:
  assumes "session_system_ok J db" and "session_step J db db'"
  shows "session_system_ok J db' \<and> session_later db db'"
proof -
  have inv: "json_ops_ok J" "session_inv db" "generations_inv db"
    using assms(1) by (simp_all add: session_system_ok_def)
  note by_move = moves_later [OF assms(1)]
  from assms(2) show ?thesis
  proof cases
    case (opened env pid res)
    with assms(1) show ?thesis by (intro opened_later)
  next
    case (submitted env sid key input now pid event res')
    from by_move [OF submit_moves [OF inv(1,2) this]] show ?thesis by blast
  next
    case (dispatched env sid owner token expires event turn)
    from by_move [OF claim_moves [OF inv(1,2) this]] show ?thesis by blast
  next
    case (bound env sid tid run run_event owner token event res')
    from by_move [OF bind_moves [OF inv(1,2) this]] show ?thesis by blast
  next
    case (completed env records owner token event res)
    then have "\<forall>x \<in> set records. sr_kind x \<noteq> KAgentSession" by (simp add: session_free_def)
    from commit_run_moves [OF inv(1,2) this completed(1)] by_move show ?thesis by blast
  next
    case (closed env sid res')
    from by_move [OF close_moves [OF inv(1,2) this]] show ?thesis by blast
  next
    case (reduced env sid expected through key kind version payload res'')
    with assms(1) show ?thesis by (rule reduced_later)
  next
    case (other c)
    with store_step_free [of c J "sd_store db"] same_sessions [OF assms(1), of db'] show ?thesis by simp
  qed
qed

interpretation sessions: evolving_system "session_step J" "session_system_ok J" session_later
  using session_step_later later_refl later_trans by unfold_locales blast+

end
