(* ===== verification/Laso_Session_Guarantees.thy ===== *)
theory Laso_Session_Guarantees
  imports Laso_Session_Invariant
begin

text \<open>
  The promises of agent sessions, for every history of the program: any number of processes submitting,
  claiming, binding, completing, closing and reducing, with arbitrary failures, starting from an
  empty database.
\<close>

section \<open>Reachable databases\<close>

definition empty_sessions :: session_db where
  "empty_sessions = \<lparr>sd_store = empty_store, sd_turns = [], sd_events = []\<rparr>"

abbreviation history :: "json_ops \<Rightarrow> session_db \<Rightarrow> session_db \<Rightarrow> bool" where
  "history J \<equiv> rtranclp (session_step J)"

lemma empty_sessions_ok: "json_ops_ok J \<Longrightarrow> session_system_ok J empty_sessions"
  by (auto simp: session_system_ok_def session_inv_def generations_inv_def generations_ok_def empty_sessions_def
      rows_of_def generation_rows_def empty_store_def [symmetric])
    (auto simp: empty_store_def intro!: exI [of _ "[]"])

lemma reachable_ok: "json_ops_ok J \<Longrightarrow> history J empty_sessions db \<Longrightarrow> session_system_ok J db"
  using sessions.history empty_sessions_ok by blast

lemma sort_numbered: "numbered rows n \<Longrightarrow> sort_key sn_sequence (filter P rows) = filter P rows"
  by (intro sort_key_id_if_sorted sorted_filter) (simp only: numbered_def sorted_upt)

lemma filter_numbered:
  assumes "numbered rows (length rows)"
  shows "filter (\<lambda>r. n < sn_sequence r) rows = drop n rows"
  using assms
proof (induction rows rule: rev_induct)
  case (snoc r rows)
  from snoc.prems have "numbered rows (length rows)" and "sn_sequence r = Suc (length rows)"
    by (simp_all add: numbered_def)
  with snoc.IH show ?case by auto
qed simp

lemma session_log:
  assumes "session_inv db"
  shows "numbered (rows_of sid (sd_events db)) (length (rows_of sid (sd_events db)))"
proof -
  have "session_ok (lookup (sd_store db) KAgentSession sid) (rows_of sid (sd_turns db)) (rows_of sid (sd_events db))"
    using assms by (simp add: session_inv_def)
  then show ?thesis by (cases "lookup (sd_store db) KAgentSession sid") (auto simp: numbered_def)
qed

text \<open>
  C21: the log of a session can be replayed. Its events are numbered one by one without a gap, what was
  logged is never changed, and a reader that resumes after event \<open>after\<close> gets exactly the events that
  follow it, in order, up to its page size.
\<close>

theorem session_log_replay:
  assumes "json_ops_ok J" and "history J empty_sessions db" and "history J db db'"
    and "session_events fault sid after limit db' = Inr page"
  shows "map sn_sequence (rows_of sid (sd_events db')) = [1..<Suc (length (rows_of sid (sd_events db')))] \<and>
    take (length (rows_of sid (sd_events db))) (rows_of sid (sd_events db')) = rows_of sid (sd_events db) \<and>
    page = take limit (drop (unat after) (map sn_body (rows_of sid (sd_events db'))))"
proof -
  let ?es = "rows_of sid (sd_events db')"
  have ok: "session_system_ok J db'" and lat: "session_later db db'"
    using sessions.history [OF assms(3) reachable_ok [OF assms(1,2)]] by blast+
  have num: "numbered ?es (length ?es)"
    using ok by (intro session_log) (simp add: session_system_ok_def)
  from sort_numbered [OF num] assms(4) have "page = take limit (drop (unat after) (map sn_body ?es))"
    unfolding filter_numbered [OF num, symmetric] drop_map take_map
    by (auto simp: session_events_def in_transaction_def split: if_splits option.splits)
  moreover obtain new where "sd_events db' = sd_events db @ new" using lat by (auto simp: session_later_def)
  ultimately show ?thesis using num by (simp add: numbered_def)
qed

lemma reachable_session:
  assumes "json_ops_ok J" and "history J empty_sessions db" and "r \<in> set (rows_of sid (sd_turns db))"
  obtains s where "lookup (sd_store db) KAgentSession sid = Some (agent_session_to_json s)"
    and "turns_agree s (rows_of sid (sd_turns db))" and "working sid db db s"
proof -
  have inv: "session_inv db" using reachable_ok [OF assms(1,2)] by (simp add: session_system_ok_def)
  then have "session_ok (lookup (sd_store db) KAgentSession sid) (rows_of sid (sd_turns db)) (rows_of sid (sd_events db))"
    by (simp add: session_inv_def)
  with assms(3) obtain body where body: "lookup (sd_store db) KAgentSession sid = Some body"
    by (cases "lookup (sd_store db) KAgentSession sid") auto
  from inv body show thesis by (rule session_inv_session) (use body in \<open>auto intro: that\<close>)
qed

text \<open>
  C3: a session works on one turn at a time. Of the turns of a session at most one is claimed or
  running; it is the one the session names as active, and a running turn is bound to the run the
  session names.
\<close>

theorem one_turn_in_progress:
  assumes "json_ops_ok J" and "history J empty_sessions db"
    and "r \<in> set (rows_of sid (sd_turns db))" and "r' \<in> set (rows_of sid (sd_turns db))"
    and "in_progress r" and "in_progress r'"
  shows "r' = r \<and> (\<exists>s. lookup (sd_store db) KAgentSession sid = Some (agent_session_to_json s) \<and>
    as_active_turn_id s = sn_id r \<and> (status r = ''running'' \<longrightarrow> as_active_run_id s = bound_run r \<and> bound_run r \<noteq> []))"
  using assms(1-3)
proof (rule reachable_session)
  fix s
  assume s: "lookup (sd_store db) KAgentSession sid = Some (agent_session_to_json s)"
    and agree: "turns_agree s (rows_of sid (sd_turns db))" and work: "working sid db db s"
  have rows: "row_agrees s r" "row_agrees s r'" using agree assms(3,4) by (simp_all add: turns_agree_def)
  have "r' = r"
    by (rule working_turn_unique [OF work working_turn(2) [OF work assms(3)] working_turn(2) [OF work assms(4)]])
      (use rows assms(5,6) in \<open>simp add: row_agrees_def\<close>)
  moreover have "status r = ''running'' \<longrightarrow> bound_run r \<noteq> []"
    using working_turn(1) [OF work assms(3)] by (auto simp: turn_ok_def split: option.splits)
  ultimately show ?thesis using s rows assms(5) by (auto simp: row_agrees_def)
qed

text \<open>
  C23: an accepted input is kept and a finished turn is final. Whatever happens after a turn has been
  accepted, it stays in the queue at its place with its key and its input; a run bound to it stays
  bound; and once it has succeeded, failed or been cancelled, nothing of it changes any more.
\<close>

theorem accepted_turn_is_kept:
  assumes "json_ops_ok J" and "history J empty_sessions db" and "history J db db'" and "r \<in> set (sd_turns db)"
  shows "\<exists>r' \<in> set (sd_turns db'). sn_id r' = sn_id r \<and> sn_session r' = sn_session r \<and> sn_sequence r' = sn_sequence r \<and>
    field (sn_body r') ''idempotency_key'' = field (sn_body r) ''idempotency_key'' \<and>
    field (sn_body r') ''input'' = field (sn_body r) ''input'' \<and>
    (status r = ''running'' \<longrightarrow> bound_run r' = bound_run r) \<and> (finished r \<longrightarrow> r' = r)"
proof -
  have "session_later db db'" using sessions.history [OF assms(3) reachable_ok [OF assms(1,2)]] by blast
  then have "evolves (sd_turns db) (sd_turns db')" by (simp add: session_later_def)
  then obtain r' where "r' \<in> set (sd_turns db')" and "row_evolves r r'" using assms(4) by (rule evolves_row)
  then show ?thesis by (intro bexI [of _ r']) (auto simp: row_evolves_def lasting_fields_def)
qed

text \<open>
  C24: a closed session is final. All its turns are finished, and neither the session nor its turns nor its
  log change again.
\<close>

theorem closed_session_is_final:
  assumes "json_ops_ok J" and "history J empty_sessions db" and "history J db db'"
    and "lookup (sd_store db) KAgentSession sid = Some (agent_session_to_json s)" and "as_state s = ''closed''"
  shows "lookup (sd_store db') KAgentSession sid = Some (agent_session_to_json s) \<and>
    rows_of sid (sd_turns db') = rows_of sid (sd_turns db) \<and> rows_of sid (sd_events db') = rows_of sid (sd_events db) \<and>
    (\<forall>r \<in> set (rows_of sid (sd_turns db)). finished r)"
proof -
  have ok: "session_system_ok J db" by (rule reachable_ok [OF assms(1,2)])
  then have inv: "session_inv db" by (simp add: session_system_ok_def)
  have "finished r" if "r \<in> set (rows_of sid (sd_turns db))" for r
    using assms(1,2) that
  proof (rule reachable_session)
    fix s'
    assume "lookup (sd_store db) KAgentSession sid = Some (agent_session_to_json s')"
      and agree: "turns_agree s' (rows_of sid (sd_turns db))" and work: "working sid db db s'"
    with assms(4) have "s' = s" by (simp add: session_json_inject)
    with agree assms(5) have "as_active_turn_id s = []" and "row_agrees s r"
      using that by (auto simp: turns_agree_def head_agrees_def)
    with working_turn(1) [OF work that] assms(5) show "finished r" by (auto simp: row_agrees_def turn_ok_def)
  qed
  moreover have "closed_in db sid" using assms(4,5) by (auto simp: closed_in_def)
  moreover have "session_later db db'" using sessions.history [OF assms(3) ok] by blast
  ultimately show ?thesis using assms(4) by (simp add: session_later_def)
qed

text \<open>
  C28: the context generations of a session form a chain. They are numbered from one, each names its
  predecessor, their boundaries never move back, and every turn up to a boundary exists and is finished.
\<close>

theorem context_generations_chain:
  assumes "json_ops_ok J" and "history J empty_sessions db"
  shows "\<exists>gs. generation_rows sid db = map context_generation_to_json gs \<and> chained [] 0 0 gs \<and>
    (\<forall>g \<in> set gs. cg_session_id g = sid \<and> covered (rows_of sid (sd_turns db)) g)"
  using reachable_ok [OF assms] by (simp add: session_system_ok_def generations_inv_def generations_ok_def)

section \<open>Context records are written once\<close>

abbreviation context_kind :: "record_kind \<Rightarrow> bool" where
  "context_kind kind \<equiv> kind = KSessionContextGeneration \<or> kind = KRunContextSnapshot"

text \<open>A stored context record and its body.\<close>

definition context_stored :: "record_kind \<Rightarrow> string \<Rightarrow> json \<Rightarrow> session_db \<Rightarrow> bool" where
  "context_stored kind rid v db \<longleftrightarrow> context_kind kind \<and> lookup (sd_store db) kind rid = Some v"

lemma context_stored_cong:
  "(\<And>kind. context_kind kind \<Longrightarrow> sd_store db' kind = sd_store db kind) \<Longrightarrow> context_stored kind rid v db' = context_stored kind rid v db"
  by (auto simp: context_stored_def lookup_def find_row_def)

lemma context_parts:
  shows "put_session J sid s db = Inr db' \<Longrightarrow> context_stored kind rid v db \<Longrightarrow> context_stored kind rid v db'"
    and "put_turn J tid turn db = Inr db' \<Longrightarrow> context_stored kind rid v db \<Longrightarrow> context_stored kind rid v db'"
    and "append_event J sid seq e db = Inr db' \<Longrightarrow> context_stored kind rid v db \<Longrightarrow> context_stored kind rid v db'"
    and "insert_generation J sid g db = Inr db' \<Longrightarrow> context_stored kind rid v db \<Longrightarrow> context_stored kind rid v db'"
    and "insert_snapshot J rid' snap db = Inr db' \<Longrightarrow> context_stored kind rid v db \<Longrightarrow> context_stored kind rid v db'"
    and "context_stored kind rid v (db\<lparr>sd_turns := turns\<rparr>) = context_stored kind rid v db"
proof -
  show "put_session J sid s db = Inr db' \<Longrightarrow> context_stored kind rid v db \<Longrightarrow> context_stored kind rid v db'"
    using context_stored_cong [of db' db] put_session_store by blast
  show "put_turn J tid turn db = Inr db' \<Longrightarrow> context_stored kind rid v db \<Longrightarrow> context_stored kind rid v db'"
    by (simp add: context_stored_def put_turn_store)
  show "append_event J sid seq e db = Inr db' \<Longrightarrow> context_stored kind rid v db \<Longrightarrow> context_stored kind rid v db'"
    by (simp add: context_stored_def append_event_store)
qed (auto simp: context_stored_def insert_generation_def insert_snapshot_def Let_def lookup_upsert elim!: rbindE split: if_splits)

lemma write_record_context:
  "write_record J fresh now now2 r st = Inr st' \<Longrightarrow> context_kind kind \<Longrightarrow> lookup st' kind rid = lookup st kind rid"
  using write_record_Inr [of J fresh now now2 r st st']
  by (auto simp: write_record_def lookup_upsert split: if_splits)

lemma write_records_context:
  assumes "write_records J fresh now now2 records (sd_store db) = Inr st" and "context_stored kind rid v db"
  shows "context_stored kind rid v (db\<lparr>sd_store := st\<rparr>)"
proof -
  have "lookup st kind rid = Some v"
    using assms(1) unfolding write_records_def
    by (rule foldM_invariant [where P = "\<lambda>st. lookup st kind rid = Some v"])
      (use assms(2) in \<open>auto simp: context_stored_def write_record_context\<close>)
  with assms(2) show ?thesis by (simp add: context_stored_def)
qed

lemma closing_context:
  shows "closing_event J env sid type tid rid' payload (n, s, db) = Inr (n', s', db') \<Longrightarrow>
      context_stored kind rid v db \<Longrightarrow> context_stored kind rid v db'"
    and "persist_turn J env sid turn (n, s, db) = Inr (n', s', db') \<Longrightarrow>
      context_stored kind rid v db \<Longrightarrow> context_stored kind rid v db'"
proof -
  show event: "closing_event J env sid type tid rid' payload (n, s, db) = Inr (n', s', db') \<Longrightarrow>
      context_stored kind rid v db \<Longrightarrow> context_stored kind rid v db'" for type tid rid' payload n s db
    by (auto simp: closing_event_def Let_def elim!: rbindE split: if_splits dest: context_parts(3))
  show "persist_turn J env sid turn (n, s, db) = Inr (n', s', db') \<Longrightarrow>
      context_stored kind rid v db \<Longrightarrow> context_stored kind rid v db'"
    by (auto simp: persist_turn_def elim!: rbindE dest!: event dest: context_parts(2))
qed

lemma close_context:
  assumes "first_close J env sid s db = Inr (n', s', db')" and "context_stored kind rid v db"
  shows "context_stored kind rid v db'"
proof -
  let ?P = "\<lambda>c. context_stored kind rid v (snd (snd c))"
  have event: "closing_event J env sid type tid rid' payload c = Inr c' \<Longrightarrow> ?P c \<Longrightarrow> ?P c'" for type tid rid' payload c c'
    by (cases c; cases c') (auto dest: closing_context(1))
  have persist: "persist_turn J env sid turn c = Inr c' \<Longrightarrow> ?P c \<Longrightarrow> ?P c'" for turn c c'
    by (cases c; cases c') (auto dest: closing_context(2))
  have sweep: "sweep_turn J env sid active row c = Inr c' \<Longrightarrow> ?P c \<Longrightarrow> ?P c'" for active row c c'
    by (auto simp: sweep_turn_def elim!: rbindE dest: persist split: if_splits)
  have request: "request_turn_cancellation J env sid c = Inr c' \<Longrightarrow> ?P c \<Longrightarrow> ?P c'" for c c'
    by (cases c; cases c')
      (auto simp: request_turn_cancellation_def elim!: rbindE dest!: closing_context(1) dest: context_parts(2)
        split: if_splits option.splits)
  have active: "cancel_active_turn J env sid c = Inr c' \<Longrightarrow> ?P c \<Longrightarrow> ?P c'" for c c'
    by (cases c; cases c')
      (auto simp: cancel_active_turn_def elim!: rbindE dest!: closing_context(2) split: if_splits option.splits)
  have sweeps: "foldM (sweep_turn J env sid a) rows c = Inr c' \<Longrightarrow> ?P c \<Longrightarrow> ?P c'" for a rows c c'
    by (erule foldM_invariant [where P = ?P]) (auto dest: sweep)
  obtain c1 c2 c3 where c1: "closing_event J env sid ''session.closing'' [] [] (jobject [(''state'', JStr ''closing'')])
      (1, s\<lparr>as_state := (if as_active_run_id s \<noteq> [] then ''closing'' else ''closed''), as_updated_at := se_now env 1\<rparr>, db) = Inr c1"
    and c2: "(if as_active_run_id s \<noteq> [] then request_turn_cancellation J env sid c1 else cancel_active_turn J env sid c1) = Inr c2"
    and c3: "foldM (sweep_turn J env sid (as_active_run_id s \<noteq> []))
      (sort_key sn_sequence (rows_of sid (sd_turns (snd (snd c2))))) c2 = Inr c3"
    and rest: "(case c3 of (n, session3, db3) \<Rightarrow>
           if as_active_run_id s \<noteq> [] then Inr (n, session3, db3)
           else closing_event J env sid ''session.closed'' [] []
                  (jobject [(''state'', JStr ''closed'')]) (n, session3\<lparr>as_active_run_id := []\<rparr>, db3)) = Inr (n', s', db')"
    using assms(1) unfolding first_close_def Let_def by (elim rbindE) blast
  have "?P c1" using event [OF c1] assms(2) by simp
  then have "?P c2" using c2 request active by (simp split: if_splits)
  then have "?P c3" by (rule sweeps [OF c3])
  with rest show ?thesis by (cases c3) (auto split: if_splits dest: closing_context(1))
qed

lemma bind_context:
  assumes "start_turn J env sid tid run run_event e session turn db = Inr db'" and "context_stored kind rid v db"
  shows "context_stored kind rid v db'"
  using assms unfolding start_turn_def Let_def
  by (elim rbindE) (drule write_records_context, assumption, blast dest: context_parts(1-5))

lemma complete_context:
  assumes "complete_turn J env records r e session turn db = Inr db'" and "context_stored kind rid v db"
  shows "context_stored kind rid v db'"
  using assms unfolding complete_turn_def Let_def
  by (elim rbindE) (drule write_records_context, assumption, auto elim!: rbindE split: if_splits dest!: context_parts(1,2,3))

lemma store_step_context:
  assumes "context_kind kind" and "lookup st kind rid = Some v"
  shows "lookup (store_step J c st) kind rid = Some v"
  by (rule store_step_invariant [where P = "\<lambda>st. lookup st kind rid = Some v", OF assms(2)])
    (use assms(1) in \<open>auto simp: lookup_upsert write_record_context\<close>)

lemma session_step_context:
  assumes "session_step J db db'" and "context_stored kind rid v db"
  shows "context_stored kind rid v db'"
  using assms(1)
proof cases
  case (opened env pid res)
  have "lookup st kind rid = Some v"
    if "commit J (se_fresh env 1) (se_now env 1) (se_now env 1) (se_fault env) records (sd_store db) = (r, st)" for records r st
    using that assms(2) store_step_context [of kind "sd_store db" rid v J "\<lparr>so_fresh = se_fresh env 1, so_now = se_now env 1,
        so_now2 = se_now env 1, so_fault = se_fault env, so_clock = (\<lambda>_. 0), so_op = Commit records\<rparr>"]
    by (simp add: context_stored_def store_step_def)
  with opened(1) assms(2) show ?thesis
    by (auto simp: create_session_def Let_def context_stored_def split: prod.splits)
next
  case (submitted env sid key input now pid event res)
  have accept: "context_stored kind rid v db''" if "accept_turn J env sid tid turn event s db = Inr db''" for tid turn s db''
    using that assms(2) unfolding accept_turn_def Let_def
    by (auto elim!: rbindE split: if_splits dest!: context_parts(1,3) simp: context_parts(6))
  have "context_stored kind rid v (snd (submit_session_turn J env sid tid turn event db))" for tid turn
    unfolding submit_session_turn_def
    by (rule guarded_transaction [where P = "context_stored kind rid v"])
      (use assms(2) accept in \<open>auto elim!: rbindE split: option.splits if_splits\<close>)
  with submitted show ?thesis by (metis snd_conv)
next
  case (dispatched env sid owner token expires event turn)
  have dispatch: "context_stored kind rid v db''"
    if "dispatch_turn J env sid owner f expires event s t db = Inr (t', db'')" for f s t t' db''
    using that assms(2) unfolding dispatch_turn_def Let_def
    by (auto elim!: rbindE dest!: context_parts(1,2,3))
  have "context_stored kind rid v (snd (claim_next_session_turn J env sid owner token expires event db))"
    unfolding claim_next_session_turn_def
    by (rule guarded_transaction [where P = "context_stored kind rid v"])
      (use assms(2) dispatch in \<open>auto simp: Let_def elim!: rbindE split: selection.splits if_splits\<close>)
  with dispatched show ?thesis by simp
next
  case (bound env sid tid run run_event owner token event res)
  have "context_stored kind rid v (snd (bind_session_turn_run J env sid tid run run_event owner token event db))"
    unfolding bind_session_turn_run_def
    by (rule guarded_transaction [where P = "context_stored kind rid v"])
      (use assms(2) bind_context in \<open>auto simp: Let_def elim!: rbindE split: option.splits if_splits\<close>)
  with bound show ?thesis by simp
next
  case (completed env records owner token event res)
  then show ?thesis
    using complete_context [of J env records _ event _ _ db _ kind rid v] assms(2)
    by (auto elim: commit_session_runE)
next
  case (closed env sid res)
  have "context_stored kind rid v (snd (close_agent_session J env sid db))"
    unfolding close_agent_session_def
    by (rule guarded_transaction [where P = "context_stored kind rid v"])
      (use assms(2) in \<open>auto elim!: rbindE dest!: close_context context_parts(1) split: if_splits\<close>)
  with closed show ?thesis by simp
next
  case (reduced env sid expected through key kind' version payload res)
  have extend: "context_stored kind rid v db''"
    if "extend_generation J env sid expected through key kind' version payload db = Inr (b, db'')" for b db''
    using that assms(2) unfolding extend_generation_def Let_def
    by (auto elim!: rbindE dest!: context_parts(4) split: if_splits option.splits)
  have "context_stored kind rid v (snd (create_session_context_generation J env sid expected through key kind' version payload db))"
    unfolding create_session_context_generation_def
    by (rule guarded_transaction [where P = "context_stored kind rid v"])
      (use assms(2) extend in \<open>auto elim!: rbindE split: option.splits if_splits\<close>)
  with reduced show ?thesis by simp
next
  case (other c)
  with assms(2) show ?thesis by (simp add: context_stored_def store_step_context)
qed


section \<open>Accepting each input once\<close>

lemma submit_acceptedE:
  assumes "json_ops_ok J" and "session_inv db"
    and "submit_session_turn J env sid tid (new_turn key input now pid) event db = (Inr True, db')"
  obtains row where "row \<in> set (sd_turns db')" and "sn_id row = tid" and "sn_session row = sid"
    and "field (sn_body row) ''idempotency_key'' = Some (JStr key)" and "field (sn_body row) ''input'' = Some input"
    and "lookup (sd_store db') KAgentSession sid \<noteq> None"
    and "sid \<noteq> []" and "length sid \<le> 128" and "tid \<noteq> []" and "length tid \<le> 256"
  using assms(3) unfolding submit_session_turn_def
proof (cases rule: guarded_transactionE)
  case (2 a)
  from 2(2) have len: "sid \<noteq> []" "length sid \<le> 128" "tid \<noteq> []" "length tid \<le> 256" by (auto split: if_splits)
  from 2(1,3) obtain s where load: "load_session J env sid db = Inr s" and opened: "as_state s = ''open''"
    and accept: "accept_turn J env sid tid (new_turn key input now pid) event s db = Inr db'"
    by (auto elim!: rbindE split: option.splits if_splits)
  from assms(1,2) load have at_work: "turns_agree s (rows_of sid (sd_turns db))" "working sid db db s"
    by (auto elim: load_sessionE)
  show thesis
    by (rule accept_turnE [OF assms(1) accept at_work(2,1) opened len(3)]; rule that) (use len in auto)
qed simp

lemma find_turn_unique:
  assumes "session_inv db" and "r \<in> set (sd_turns db)"
  shows "find_turn db (sn_id r) = Some r"
proof -
  have "find_turn db (sn_id r) \<noteq> None" using assms(2) by (auto simp: find_turn_def find_None_iff)
  then obtain r' where r': "find_turn db (sn_id r) = Some r'" by blast
  have "r' = r"
    using find_turn_Some [OF r'] assms by (auto simp: session_inv_def distinct_map inj_on_def)
  with r' show ?thesis by simp
qed

lemma load_reachable:
  assumes "json_ops_ok J" and "session_inv db" and "lookup (sd_store db) KAgentSession sid \<noteq> None"
  obtains s where "load_session J env sid db = Inr s"
proof -
  from assms(3) obtain body where body: "lookup (sd_store db) KAgentSession sid = Some body" by blast
  from assms(2) body show thesis
    by (rule session_inv_session) (use body assms(1) in \<open>auto simp: load_session_def agent_session_codec intro: that\<close>)
qed

text \<open>
  C11: an input is accepted at most once. After a submission under an idempotency key was accepted, a
  later submission to the same session under the same key changes nothing, at any time and after any
  history: it reports a duplicate when the input is the same and a conflict when it is not.
\<close>

theorem submission_accepted_once:
  assumes "json_ops_ok J" and "history J empty_sessions db"
    and "submit_session_turn J env sid (session_turn_id sid key) (new_turn key input now pid) event db = (Inr True, db1)"
    and "history J db1 db2" and "se_fault env' = None"
    and "dump_within J (1024 * 1024) (new_turn key input' now' pid') ''Invalid session turn'' = Inr ()"
    and "dump_within J (2 * 1024 * 1024) event' ''Invalid session turn'' = Inr ()"
  shows "submit_session_turn J env' sid (session_turn_id sid key) (new_turn key input' now' pid') event' db2 =
    (if same J input input' then Inr False else throw Conflict ''Session turn idempotency key was reused'', db2)"
proof -
  let ?tid = "session_turn_id sid key"
  have ok: "session_system_ok J db" by (rule reachable_ok [OF assms(1,2)])
  then have inv: "session_inv db" by (simp add: session_system_ok_def)
  from assms(1) inv assms(3) obtain row where row: "row \<in> set (sd_turns db1)" "sn_id row = ?tid" "sn_session row = sid"
    "field (sn_body row) ''idempotency_key'' = Some (JStr key)" "field (sn_body row) ''input'' = Some input"
    and exists: "lookup (sd_store db1) KAgentSession sid \<noteq> None"
    and len: "sid \<noteq> []" "length sid \<le> 128" "?tid \<noteq> []" "length ?tid \<le> 256"
    by (rule submit_acceptedE)
  have "session_step J db db1" using assms(3) by (rule session_step.submitted)
  with ok have ok1: "session_system_ok J db1" by (rule sessions.keeps)
  have ok2: "session_system_ok J db2" and lat: "session_later db1 db2"
    using sessions.history [OF assms(4) ok1] by blast+
  have inv2: "session_inv db2" using ok2 by (simp add: session_system_ok_def)
  from lat row(1) obtain r where r: "r \<in> set (sd_turns db2)" "row_evolves row r"
    unfolding session_later_def by (auto elim: evolves_row)
  have fields: "is_object (sn_body r)" "field (sn_body r) ''session_id'' = Some (JStr sid)"
    "field (sn_body r) ''idempotency_key'' = Some (JStr key)" "field (sn_body r) ''input'' = Some input"
    using r row session_inv_turns [OF inv2] by (auto simp: row_evolves_def lasting_fields_def turn_ok_def)
  have found: "find_turn db2 ?tid = Some r"
    using find_turn_unique [OF inv2 r(1)] r(2) row(2) by (simp add: row_evolves_def)
  have "lookup (sd_store db2) KAgentSession sid \<noteq> None" using lat exists by (simp add: session_later_def)
  with assms(1) inv2 obtain s where "load_session J env' sid db2 = Inr s" by (rule load_reachable)
  moreover have "check_resubmission J sid (new_turn key input' now' pid') (sn_body r) =
      (if same J input input' then Inr () else throw Conflict ''Session turn idempotency key was reused'')"
    using fields assms(1) by (simp add: check_resubmission_def Let_def jvalue_field new_turn_def)
  ultimately show ?thesis
    using len assms(5-7) found
    by (simp add: submit_session_turn_def guarded_def in_transaction_def new_turn_def)
qed

section \<open>Dispatch order\<close>

text \<open>
  C29: turns are dispatched in the order they were accepted. When a session with no active turn hands out a
  turn, it is a queued one, no queued turn of the session was accepted before it, and the turn is now
  claimed for the caller under the fencing token of the claim.
\<close>

theorem dispatch_is_first_in_first_out:
  assumes "json_ops_ok J" and "history J empty_sessions db"
    and "lookup (sd_store db) KAgentSession sid = Some (agent_session_to_json s)" and "as_active_turn_id s = []"
    and "claim_next_session_turn J env sid owner token expires event db = (Inr (Some turn), db')"
  shows "\<exists>r \<in> set (rows_of sid (sd_turns db)). status r = ''queued'' \<and>
    (\<forall>q \<in> set (rows_of sid (sd_turns db)). status q = ''queued'' \<longrightarrow> sn_sequence r \<le> sn_sequence q) \<and>
    find_turn db' (sn_id r) = Some (r\<lparr>sn_body := turn\<rparr>) \<and>
    field turn ''state'' = Some (JStr ''claimed'') \<and> field turn ''dispatch_owner'' = Some (JStr owner) \<and>
    field turn ''dispatch_fencing_token'' =
      Some (JUInt (unat (if token > 0 then token else as_dispatch_generation s + 1)))"
  using assms(5) unfolding claim_next_session_turn_def
proof (cases rule: guarded_transactionE)
  case (2 a)
  have ok: "session_system_ok J db" by (rule reachable_ok [OF assms(1,2)])
  then have inv: "session_inv db" by (simp add: session_system_ok_def)
  have load: "load_session J env sid db = Inr s" using assms(1,3) by (simp add: load_session_def agent_session_codec)
  let ?fence = "if token > 0 then token else as_dispatch_generation s + 1"
  from 2(1,3) load assms(4) obtain r rest where opened: "as_state s = ''open''"
    and q: "queued_turns sid db = r # rest"
    and disp: "dispatch_turn J env sid owner ?fence expires event s (sn_body r) db = Inr (turn, db')"
    by (auto simp: Let_def select_turn_def elim!: rbindE split: if_splits list.splits)
  from assms(1) inv load have at_work: "turns_agree s (rows_of sid (sd_turns db))" "working sid db db s"
    by (auto elim: load_sessionE)
  have queued: "x \<in> set (queued_turns sid db) \<longleftrightarrow> x \<in> set (rows_of sid (sd_turns db)) \<and> status x = ''queued''" for x
    using working_turn(1) [OF at_work(2)] by (auto simp: queued_turns_def jsonb_text_field turn_ok_def)
  have "r \<in> set (queued_turns sid db)" by (simp add: q)
  then have r: "r \<in> set (rows_of sid (sd_turns db))" "status r = ''queued''" by (simp_all add: queued)
  have "sorted (map sn_sequence (r # rest))" unfolding q [symmetric] by (simp add: queued_turns_def)
  then have least: "sn_sequence r \<le> sn_sequence x" if "x \<in> set (rows_of sid (sd_turns db))" "status x = ''queued''" for x
    using that queued [of x] by (auto simp: q)
  from assms(1) at_work(2,1) opened r(1) _ disp show ?thesis
  proof (rule dispatch_turnE)
    show "as_active_turn_id s = [] \<and> status r = ''queued'' \<or> as_active_turn_id s = sn_id r \<and> status r = ''claimed''"
      using assms(4) r(2) by simp
    assume "progresses db db'" and turns: "sd_turns db' = set_row (sn_id r) turn (sd_turns db)"
      and f: "field turn ''state'' = Some (JStr ''claimed'')" "field turn ''dispatch_owner'' = Some (JStr owner)"
        "field turn ''dispatch_fencing_token'' = Some (JUInt (unat ?fence))"
    then have "session_inv db'" by (simp add: progresses_def)
    moreover have "r\<lparr>sn_body := turn\<rparr> \<in> set (sd_turns db')"
      using working_turn(2) [OF at_work(2) r(1)] by (auto simp: turns set_set_row)
    ultimately have "find_turn db' (sn_id r) = Some (r\<lparr>sn_body := turn\<rparr>)" using find_turn_unique by fastforce
    with r least f show ?thesis by blast
  qed
qed simp

section \<open>A session at work\<close>

text \<open>
  A short history, evaluated: a session is opened, a turn is submitted and claimed. The conversion table
  is the concrete one with a serializer that writes nothing.
\<close>

definition quiet_ops :: json_ops where
  "quiet_ops = plain_ops\<lparr>dump := (\<lambda>_. [])\<rparr>"

definition example_env :: session_env where
  "example_env = \<lparr>se_fresh = (\<lambda>n. if n = 0 then ''s'' else replicate n CHR ''f''), se_now = (\<lambda>_. ''t''), se_clock = 0, se_fault = None,
     se_leases = \<lparr>leases = [], instances = []\<rparr>\<rparr>"

definition example_event :: "string \<Rightarrow> json" where
  "example_event eid = jobject [(''id'', JStr eid)]"

definition example_turn :: "string \<Rightarrow> json" where
  "example_turn now = new_turn ''k'' (JStr ''hi'') now ''p''"

definition opened_db :: session_db where
  "opened_db = empty_sessions\<lparr>sd_store := upsert \<lparr>sr_kind = KAgentSession, sr_id = ''s'', sr_run_id = ''s'',
     sr_value = agent_session_to_json (new_session ''s'' ''t'' ''p'')\<rparr> empty_store\<rparr>"

definition example_id :: string where
  "example_id = session_turn_id ''s'' ''k''"

definition submitted_db :: session_db where
  "submitted_db = opened_db\<lparr>
     sd_turns := [\<lparr>sn_id = example_id, sn_session = ''s'', sn_sequence = 1, sn_body =
       jputs [(''id'', JStr example_id), (''session_id'', JStr ''s''), (''sequence'', JUInt 1)] (example_turn ''t'')\<rparr>],
     sd_events := [\<lparr>sn_id = ''e1'', sn_session = ''s'', sn_sequence = 1, sn_body =
       jputs [(''id'', JStr ''e1''), (''session_id'', JStr ''s''), (''sequence'', JUInt 1), (''type'', JStr ''input.accepted''),
         (''turn_id'', JStr example_id), (''payload'', jobject [(''input'', JStr ''hi'')])] (example_event ''e1'')\<rparr>],
     sd_store := set_body KAgentSession ''s''
       (agent_session_to_json ((new_session ''s'' ''t'' ''p'')\<lparr>as_next_sequence := 2\<rparr>)) (sd_store opened_db)\<rparr>"

lemma quiet_ops_ok: "json_ops_ok quiet_ops"
  by (simp add: quiet_ops_def plain_ops_def json_ops_ok_def)

lemma quiet_ops_simps [simp]:
  "serialize quiet_ops v = Inr []" "dump_within quiet_ops n v what = Inr ()" "same quiet_ops = (=)"
  "dump_ok quiet_ops v" "dump quiet_ops v = []"
  by (simp_all add: serialize_def dump_within_def quiet_ops_def plain_ops_def)

lemma example_env_simps [simp]:
  "se_fresh example_env 0 = ''s''" "se_fresh example_env (Suc n) = replicate (Suc n) CHR ''f''" "se_now example_env n = ''t''" "se_fault example_env = None"
  by (simp_all add: example_env_def)

lemma create_example: "create_session quiet_ops example_env ''p'' empty_sessions = (Inr (), opened_db)"
  by (simp add: create_session_def commit_def in_transaction_def write_records_def write_record_def
      empty_sessions_def opened_db_def new_session_def)

lemma hex_digits_length: "n < 16 ^ Suc k \<Longrightarrow> length (hex_digits n) \<le> Suc k"
proof (induction k arbitrary: n)
  case (Suc k)
  then have "n div 16 < 16 ^ Suc k" by (simp add: less_mult_imp_div_less mult.commute)
  from Suc.IH [OF this] show ?case by (subst hex_digits.simps) (simp del: hex_digits.simps)
qed simp

lemma session_turn_id_length: "length (session_turn_id sid key) \<le> length sid + 22"
proof -
  have "unat (fnv1a key) < 2 ^ LENGTH(64)" by (rule unsigned_less)
  then have "unat (fnv1a key) < 16 ^ Suc 15" by simp
  from hex_digits_length [OF this] show ?thesis by (simp add: session_turn_id_def del: hex_digits.simps)
qed

lemma opened_db_simps [simp]:
  "load_session quiet_ops example_env ''s'' opened_db = Inr (new_session ''s'' ''t'' ''p'')"
  "find_turn opened_db tid = None" "sd_turns opened_db = []" "sd_events opened_db = []"
  by (simp_all add: opened_db_def load_session_def lookup_upsert agent_session_codec [OF quiet_ops_ok] find_turn_def empty_sessions_def)

lemma accept_example:
  "accept_turn quiet_ops example_env ''s'' example_id (example_turn ''t'') (example_event ''e1'')
     (new_session ''s'' ''t'' ''p'') opened_db = Inr submitted_db"
  using quiet_ops_ok
  by (simp add: accept_turn_def Let_def rows_of_def last_sequence_def bigint_ok_def new_session_def example_turn_def new_turn_def
      stamp_def example_event_def append_event_def insert_row_def put_session_def jget_at_field submitted_db_def)

lemma submit_example:
  "submit_session_turn quiet_ops example_env ''s'' (session_turn_id ''s'' ''k'') (new_turn ''k'' (JStr ''hi'') ''t'' ''p'')
     (example_event ''e1'') opened_db = (Inr True, submitted_db)"
proof -
  have len: "length example_id \<le> 256" "example_id \<noteq> []"
    using session_turn_id_length [of "''s''" "''k''"] unfolding example_id_def
    by (simp_all add: session_turn_id_def del: hex_digits.simps)
  show ?thesis
    using len accept_example unfolding example_id_def example_turn_def
    by (simp add: submit_session_turn_def guarded_def in_transaction_def new_turn_def new_session_def)
qed

lemma example_histories:
  "history quiet_ops empty_sessions opened_db" "history quiet_ops opened_db submitted_db"
  "history quiet_ops empty_sessions submitted_db"
proof -
  have "session_step quiet_ops empty_sessions opened_db"
    using create_example by (rule session_step.opened) (simp add: empty_sessions_def)
  moreover have "session_step quiet_ops opened_db submitted_db"
    using submit_example by (rule session_step.submitted)
  ultimately show "history quiet_ops empty_sessions opened_db" "history quiet_ops opened_db submitted_db"
    "history quiet_ops empty_sessions submitted_db" by auto
qed

definition claimed_turn :: json where
  "claimed_turn = jputs [(''state'', JStr ''claimed''), (''dispatch_owner'', JStr ''o''), (''dispatch_fencing_token'', JUInt 1),
     (''dispatch_expires_at'', JStr []), (''dispatch_attempt'', JUInt 1)] (sn_body (hd (sd_turns submitted_db)))"

definition claimed_db :: session_db where
  "claimed_db = snd (claim_next_session_turn quiet_ops example_env ''s'' ''o'' 0 [] (example_event ''e2'') submitted_db)"

lemmas claim_eval = claim_next_session_turn_def guarded_def in_transaction_def check_lease_def load_session_def submitted_db_def
  opened_db_def lookup_set_body lookup_upsert agent_session_codec [OF quiet_ops_ok] Let_def select_turn_def queued_turns_def
  rows_of_def jsonb_text_field [THEN iffD2] example_turn_def new_turn_def new_session_def dispatch_turn_def jget_at_field
  jvalue_field stamp_def example_event_def put_turn_def append_event_def insert_row_def bigint_ok_def put_session_def

lemma claim_example:
  "claim_next_session_turn quiet_ops example_env ''s'' ''o'' 0 [] (example_event ''e2'') submitted_db =
     (Inr (Some claimed_turn), claimed_db)"
proof -
  have "fst (claim_next_session_turn quiet_ops example_env ''s'' ''o'' 0 [] (example_event ''e2'') submitted_db) =
      Inr (Some claimed_turn)"
    using quiet_ops_ok by (simp add: claim_eval claimed_turn_def)
  then show ?thesis by (simp add: claimed_db_def prod_eq_iff)
qed

lemma claimed_turns: "sd_turns claimed_db = [(hd (sd_turns submitted_db))\<lparr>sn_body := claimed_turn\<rparr>]"
  unfolding claimed_db_def claimed_turn_def
  using quiet_ops_ok by (simp add: claim_eval set_row_def)

lemma claimed_history: "history quiet_ops submitted_db claimed_db" "history quiet_ops empty_sessions claimed_db"
proof -
  have "session_step quiet_ops submitted_db claimed_db"
    using claim_example by (rule session_step.dispatched)
  with example_histories(3) show "history quiet_ops submitted_db claimed_db" "history quiet_ops empty_sessions claimed_db"
    by auto
qed

definition closed_db :: session_db where
  "closed_db = snd (close_agent_session quiet_ops example_env ''s'' opened_db)"

lemma closed_history: "history quiet_ops empty_sessions closed_db"
proof -
  have "session_step quiet_ops opened_db closed_db"
    unfolding closed_db_def by (rule session_step.closed) (rule prod.collapse [symmetric])
  with example_histories(1) show ?thesis by auto
qed

lemma closed_session_example:
  "lookup (sd_store closed_db) KAgentSession ''s'' =
     Some (agent_session_to_json ((new_session ''s'' ''t'' ''p'')\<lparr>as_state := ''closed'', as_next_sequence := 3\<rparr>))"
  unfolding closed_db_def
  using quiet_ops_ok
  by (simp add: close_agent_session_def guarded_def in_transaction_def first_close_def Let_def closing_event_def cancel_active_turn_def
      new_session_def bigint_ok_def append_event_def insert_row_def jget_at_field rows_of_def put_session_def)
    (simp add: opened_db_def lookup_set_body lookup_upsert new_session_def)

lemma session_log_replay_witness:
  "session_events None ''s'' 0 10 submitted_db = Inr (map sn_body (rows_of ''s'' (sd_events submitted_db))) \<and>
   map sn_sequence (rows_of ''s'' (sd_events submitted_db)) = [1]"
proof -
  have len: "length (rows_of ''s'' (sd_events submitted_db)) = 1" by (simp add: submitted_db_def rows_of_def)
  obtain page where page: "session_events None ''s'' 0 10 submitted_db = Inr page"
    by (simp add: session_events_def in_transaction_def bigint_ok_def)
  from session_log_replay [OF quiet_ops_ok example_histories(1,2) page] len page show ?thesis by simp
qed

lemma one_turn_in_progress_witness:
  "\<exists>s. lookup (sd_store claimed_db) KAgentSession ''s'' = Some (agent_session_to_json s) \<and> as_active_turn_id s = example_id"
proof -
  let ?r = "(hd (sd_turns submitted_db))\<lparr>sn_body := claimed_turn\<rparr>"
  have r: "?r \<in> set (rows_of ''s'' (sd_turns claimed_db))" "sn_id ?r = example_id"
    by (simp_all add: claimed_turns rows_of_def submitted_db_def)
  have p: "in_progress ?r" by (simp add: status_def claimed_turn_def)
  show ?thesis using one_turn_in_progress [OF quiet_ops_ok claimed_history(2) r(1) r(1) p p] r(2) by auto
qed

lemma accepted_turn_is_kept_witness:
  "\<exists>r' \<in> set (sd_turns claimed_db). sn_id r' = example_id \<and> field (sn_body r') ''input'' = Some (JStr ''hi'')"
proof -
  have "hd (sd_turns submitted_db) \<in> set (sd_turns submitted_db)" by (simp add: submitted_db_def)
  moreover have "sn_id (hd (sd_turns submitted_db)) = example_id"
    "field (sn_body (hd (sd_turns submitted_db))) ''input'' = Some (JStr ''hi'')"
    by (simp_all add: submitted_db_def example_turn_def new_turn_def)
  ultimately show ?thesis
    using accepted_turn_is_kept [OF quiet_ops_ok example_histories(3) claimed_history(1)] by metis
qed

lemma closed_session_is_final_witness:
  "rows_of ''s'' (sd_events (snd (submit_session_turn quiet_ops example_env ''s'' (session_turn_id ''s'' ''k'')
     (new_turn ''k'' (JStr ''hi'') ''t'' ''p'') (example_event ''e1'') closed_db))) = rows_of ''s'' (sd_events closed_db)"
proof -
  let ?r = "submit_session_turn quiet_ops example_env ''s'' (session_turn_id ''s'' ''k'')
     (new_turn ''k'' (JStr ''hi'') ''t'' ''p'') (example_event ''e1'') closed_db"
  have "session_step quiet_ops closed_db (snd ?r)"
    by (rule session_step.submitted) (rule prod.collapse [symmetric])
  then have h: "history quiet_ops closed_db (snd ?r)" by auto
  show ?thesis
    using closed_session_is_final [OF quiet_ops_ok closed_history h closed_session_example] by simp
qed

lemma context_generations_chain_witness:
  "\<exists>gs. generation_rows ''s'' claimed_db = map context_generation_to_json gs \<and> chained [] 0 0 gs"
  using context_generations_chain [OF quiet_ops_ok claimed_history(2), of "''s''"] by blast

lemma submission_accepted_once_witness:
  "submit_session_turn quiet_ops example_env ''s'' (session_turn_id ''s'' ''k'') (new_turn ''k'' (JStr ''hi'') ''u'' ''q'')
     (example_event ''e3'') claimed_db = (Inr False, claimed_db) \<and>
   submit_session_turn quiet_ops example_env ''s'' (session_turn_id ''s'' ''k'') (new_turn ''k'' (JStr ''ho'') ''u'' ''q'')
     (example_event ''e3'') claimed_db = (throw Conflict ''Session turn idempotency key was reused'', claimed_db)"
  using submission_accepted_once [OF quiet_ops_ok example_histories(1) submit_example claimed_history(1) example_env_simps(4)]
  by simp

lemma dispatch_is_first_in_first_out_witness:
  "\<exists>r \<in> set (rows_of ''s'' (sd_turns submitted_db)). status r = ''queued'' \<and>
     find_turn claimed_db (sn_id r) = Some (r\<lparr>sn_body := claimed_turn\<rparr>)"
proof -
  have s: "lookup (sd_store submitted_db) KAgentSession ''s'' =
      Some (agent_session_to_json ((new_session ''s'' ''t'' ''p'')\<lparr>as_next_sequence := 2\<rparr>))"
    by (simp add: submitted_db_def opened_db_def lookup_set_body lookup_upsert)
  have "as_active_turn_id ((new_session ''s'' ''t'' ''p'')\<lparr>as_next_sequence := 2\<rparr>) = []" by (simp add: new_session_def)
  from dispatch_is_first_in_first_out [OF quiet_ops_ok example_histories(3) s this claim_example] show ?thesis by blast
qed

definition reduced_db :: session_db where
  "reduced_db = snd (create_session_context_generation quiet_ops example_env ''s'' 0 0 ''k'' ''summary'' ''1'' JNull opened_db)"

definition example_generation :: session_context_generation where
  "example_generation = \<lparr>cg_id = ''ff'', cg_session_id = ''s'', cg_predecessor_id = [], cg_created_at = ''t'', cg_generation = 1,
     cg_through_turn_sequence = 0, cg_representation_kind = ''summary'', cg_representation_version = ''1'',
     cg_idempotency_key = ''k'', cg_payload = JNull\<rparr>"

lemma reduced_example:
  "lookup (sd_store reduced_db) KSessionContextGeneration ''ff'' = Some (context_generation_to_json example_generation)"
proof -
  have "sd_store opened_db KSessionContextGeneration = []"
    by (simp add: opened_db_def upsert_other empty_store_def)
  then have rows: "generation_rows ''s'' opened_db = []" and none: "lookup (sd_store opened_db) KSessionContextGeneration rid = None" for rid
    by (simp_all add: generation_rows_def lookup_def find_row_def)
  have "lookup (sd_store opened_db) KAgentSession ''s'' \<noteq> None" by (simp add: opened_db_def lookup_upsert)
  then show ?thesis
    by (simp add: reduced_db_def create_session_context_generation_def guarded_def in_transaction_def rows none extend_generation_def
        latest_row_def check_history_def rows_of_def insert_generation_def Let_def bigint_ok_def lookup_upsert example_generation_def
        numeral_2_eq_2)
qed


end
