(* ===== verification/Laso_Reducer.thy ===== *)
theory Laso_Reducer
  imports Laso_Codec
begin

text \<open>
  The context reducer of \<^verbatim>\<open>src/context/reducer.cpp\<close>: it keeps the newest turns of a session whose
  serialized form fits a byte budget. \<open>stopped i\<close> and \<open>expired i\<close> are what the cancellation token
  and the clock say at the \<open>i\<close>-th check. The loop that drops the oldest turn until the rest fits is
  shown to select the longest suffix that fits.
\<close>

section \<open>The reducer\<close>

record reduction_request =
  cr_session_id :: string
  cr_previous_generation :: "session_context_generation option"
  cr_eligible_turns :: json
  cr_through_turn_sequence :: u64
  cr_target_payload_bytes :: nat
  cr_configuration :: json

record reduction_result =
  rr_representation_kind :: string
  rr_representation_version :: string
  rr_through_turn_sequence :: u64
  rr_payload :: json

definition check_reduction :: "(nat \<Rightarrow> bool) \<Rightarrow> (nat \<Rightarrow> bool) \<Rightarrow> nat \<Rightarrow> unit result" where
  "check_reduction stopped expired i =
     (if stopped i then throw Cancellation ''Context reduction was cancelled''
      else if expired i then throw Timeout ''Context reduction deadline expired''
      else Inr ())"

definition previous_turns :: "session_context_generation \<Rightarrow> json list result" where
  "previous_turns previous =
     (let unreadable = throw Validation ''Reference reducer cannot interpret the previous context representation'' in
      if cg_representation_kind previous \<noteq> ''laso.recent-turns'' \<or> cg_representation_version previous \<noteq> ''1''
      then unreadable
      else case cg_payload previous of
        JObj m \<Rightarrow> (case map_of m ''turns'' of Some (JArr turns) \<Rightarrow> Inr turns | _ \<Rightarrow> unreadable)
      | _ \<Rightarrow> unreadable)"

definition push_turn :: "json_ops \<Rightarrow> json \<Rightarrow> json list \<Rightarrow> json list result" where
  "push_turn J turn turns =
     (case jat turn ''sequence'' of
        Inr (JUInt n) \<Rightarrow>
          if turns = [] then Inr [turn]
          else
            rbind (get_uint64 J (JUInt n)) (\<lambda>sequence.
            rbind (jget_at (get_uint64 J) (last turns) ''sequence'') (\<lambda>newest.
              if sequence \<le> newest then throw Validation ''Context reducer input is not ordered''
              else Inr (turns @ [turn])))
      | _ \<Rightarrow> throw Validation ''Malformed durable turn supplied to context reducer'')"

fun push_turns :: "json_ops \<Rightarrow> (nat \<Rightarrow> bool) \<Rightarrow> (nat \<Rightarrow> bool) \<Rightarrow> nat \<Rightarrow> json list \<Rightarrow> json list \<Rightarrow> json list result" where
  "push_turns J stopped expired i [] turns = Inr turns"
| "push_turns J stopped expired i (turn # rest) turns =
     rbind (check_reduction stopped expired i) (\<lambda>_.
     rbind (push_turn J turn turns) (\<lambda>turns'. push_turns J stopped expired (Suc i) rest turns'))"

definition recent_payload :: "json list \<Rightarrow> json" where
  "recent_payload turns = jobject [(''format'', JStr ''laso.recent-turns''), (''turns'', JArr turns)]"

fun fit_turns :: "json_ops \<Rightarrow> nat \<Rightarrow> json list \<Rightarrow> json result" where
  "fit_turns J target [] = throw Capacity ''A durable turn exceeds the context reduction budget''"
| "fit_turns J target (turn # turns) =
     (let payload = recent_payload (turn # turns) in
      if \<not> dump_ok J payload then Inl JsonTypeError
      else if length (dump J payload) \<le> target then Inr payload
      else if turns = [] then throw Capacity ''A durable turn exceeds the context reduction budget''
      else fit_turns J target turns)"

definition reduce_recent_turns ::
  "json_ops \<Rightarrow> (nat \<Rightarrow> bool) \<Rightarrow> (nat \<Rightarrow> bool) \<Rightarrow> reduction_request \<Rightarrow> reduction_result result" where
  "reduce_recent_turns J stopped expired request =
     rbind (check_reduction stopped expired 0) (\<lambda>_.
     case cr_eligible_turns request of
       JArr eligible \<Rightarrow>
         if cr_target_payload_bytes request = 0 then throw Validation ''Invalid context reduction request''
         else
           rbind (case cr_previous_generation request of None \<Rightarrow> Inr [] | Some g \<Rightarrow> previous_turns g) (\<lambda>turns.
           rbind (push_turns J stopped expired 1 eligible turns) (\<lambda>turns'.
           rbind (fit_turns J (cr_target_payload_bytes request) turns') (\<lambda>payload.
             Inr \<lparr>rr_representation_kind = ''laso.recent-turns'', rr_representation_version = ''1'',
                  rr_through_turn_sequence = cr_through_turn_sequence request, rr_payload = payload\<rparr>)))
     | _ \<Rightarrow> throw Validation ''Invalid context reduction request'')"

section \<open>The longest suffix that fits\<close>

definition fits :: "json_ops \<Rightarrow> nat \<Rightarrow> json list \<Rightarrow> bool" where
  "fits J target turns \<longleftrightarrow> length (dump J (recent_payload turns)) \<le> target"

lemma fit_turns_Inr:
  "fit_turns J target turns = Inr payload \<Longrightarrow>
   \<exists>k < length turns. payload = recent_payload (drop k turns) \<and> fits J target (drop k turns) \<and>
     (\<forall>j < k. \<not> fits J target (drop j turns))"
proof (induction J target turns rule: fit_turns.induct)
  case (2 J target turn turns)
  show ?case
  proof (cases "fits J target (turn # turns)")
    case True
    with "2.prems" show ?thesis
      by (intro exI [of _ 0]) (simp add: fits_def Let_def split: if_splits)
  next
    case False
    with "2.prems" have rec: "dump_ok J (recent_payload (turn # turns))" "turns \<noteq> []" "fit_turns J target turns = Inr payload"
      by (auto simp: fits_def Let_def split: if_splits)
    from "2.IH" [OF refl _ _ rec(2,3)] rec(1) False obtain k where k: "k < length turns" "payload = recent_payload (drop k turns)"
        "fits J target (drop k turns)" "\<forall>j < k. \<not> fits J target (drop j turns)"
      by (auto simp: fits_def)
    with False show ?thesis
      by (intro exI [of _ "Suc k"]) (auto simp: less_Suc_eq_0_disj)
  qed
qed simp

lemma fit_turns_Inl:
  "fit_turns J target turns = throw c m \<Longrightarrow>
   c = Capacity \<and> (\<forall>k < length turns. \<not> fits J target (drop k turns))"
proof (induction J target turns rule: fit_turns.induct)
  case (2 J target turn turns)
  then show ?case
    by (cases "turns = []") (auto simp: fits_def Let_def less_Suc_eq_0_disj split: if_splits)
qed simp

lemma push_turns_appends:
  "push_turns J stopped expired i eligible turns = Inr turns' \<Longrightarrow> turns' = turns @ eligible"
proof (induction eligible arbitrary: i turns)
  case (Cons turn rest)
  have "push_turn J turn turns = Inr ts \<Longrightarrow> ts = turns @ [turn]" for ts
    by (auto simp: push_turn_def split: sum.splits json.splits if_splits elim!: rbindE)
  with Cons show ?case by (fastforce elim!: rbindE)
qed simp

lemma reduce_recent_turns_Inr:
  assumes "reduce_recent_turns J stopped expired request = Inr res"
  obtains eligible turns where "cr_eligible_turns request = JArr eligible"
    and "(case cr_previous_generation request of None \<Rightarrow> Inr [] | Some g \<Rightarrow> previous_turns g) = Inr turns"
    and "fit_turns J (cr_target_payload_bytes request) (turns @ eligible) = Inr (rr_payload res)"
    and "rr_through_turn_sequence res = cr_through_turn_sequence request"
  using assms unfolding reduce_recent_turns_def
  by (auto elim!: rbindE split: json.splits if_splits dest!: push_turns_appends)

lemma push_turns_no_capacity:
  assumes "\<And>j m. get_uint64 J j \<noteq> throw Capacity m"
  shows "push_turns J stopped expired i eligible turns \<noteq> throw Capacity m"
proof (induction eligible arbitrary: i turns)
  case (Cons turn rest)
  have at: "jget_at (get_uint64 J) j ''sequence'' \<noteq> throw Capacity m" for j
    using assms by (auto simp: jget_at_def jat_def rbind_def split: json.splits option.splits)
  then have "push_turn J turn turns \<noteq> throw Capacity m"
    using assms by (auto simp: push_turn_def rbind_def split: sum.splits json.splits)
  moreover have "check_reduction stopped expired i \<noteq> throw Capacity m" by (simp add: check_reduction_def)
  ultimately show ?case using Cons.IH by (auto simp: rbind_def split: sum.splits)
qed simp

lemma reduce_recent_turns_capacity:
  assumes "\<And>j m. get_uint64 J j \<noteq> throw Capacity m" and "reduce_recent_turns J stopped expired request = throw Capacity m"
  obtains eligible turns where "cr_eligible_turns request = JArr eligible"
    and "(case cr_previous_generation request of None \<Rightarrow> Inr [] | Some g \<Rightarrow> previous_turns g) = Inr turns"
    and "fit_turns J (cr_target_payload_bytes request) (turns @ eligible) = throw Capacity m"
proof -
  have checks: "check_reduction stopped expired 0 \<noteq> throw Capacity m"
    "(case cr_previous_generation request of None \<Rightarrow> Inr [] | Some g \<Rightarrow> previous_turns g) \<noteq> throw Capacity m"
    by (auto simp: check_reduction_def previous_turns_def Let_def split: option.splits json.splits)
  show thesis
    using assms(2) checks push_turns_no_capacity [OF assms(1)] that unfolding reduce_recent_turns_def rbind_def
    by (auto split: json.splits if_splits sum.splits dest!: push_turns_appends)
qed

text \<open>
  C20: a reduction that succeeds returns the longest run of newest turns, the previous generation's followed by
  the new ones, whose serialized form fits the byte budget: every longer one exceeds it. A reduction that fails
  for capacity, where reading a number never does, has no such run: not even the newest turn alone fits, or
  there is no turn at all. Cancellation, the deadline, a malformed request and turns out of order are reported
  as other errors.
\<close>

theorem reduction_keeps_longest_suffix:
  assumes "\<And>j m. get_uint64 J j \<noteq> throw Capacity m"
  shows "case reduce_recent_turns J stopped expired request of
      Inr res \<Rightarrow> \<exists>turns eligible k. cr_eligible_turns request = JArr eligible \<and>
        (case cr_previous_generation request of None \<Rightarrow> Inr [] | Some g \<Rightarrow> previous_turns g) = Inr turns \<and>
        k < length (turns @ eligible) \<and> rr_payload res = recent_payload (drop k (turns @ eligible)) \<and>
        length (dump J (rr_payload res)) \<le> cr_target_payload_bytes request \<and>
        (\<forall>j < k. length (dump J (recent_payload (drop j (turns @ eligible)))) > cr_target_payload_bytes request)
    | Inl e \<Rightarrow> \<forall>m. e = Error Capacity m \<longrightarrow> (\<exists>turns eligible. cr_eligible_turns request = JArr eligible \<and>
        (case cr_previous_generation request of None \<Rightarrow> Inr [] | Some g \<Rightarrow> previous_turns g) = Inr turns \<and>
        (\<forall>k < length (turns @ eligible).
           length (dump J (recent_payload (drop k (turns @ eligible)))) > cr_target_payload_bytes request))"
proof (cases "reduce_recent_turns J stopped expired request")
  case (Inl e)
  have "\<exists>turns eligible. cr_eligible_turns request = JArr eligible \<and>
        (case cr_previous_generation request of None \<Rightarrow> Inr [] | Some g \<Rightarrow> previous_turns g) = Inr turns \<and>
        (\<forall>k < length (turns @ eligible).
           length (dump J (recent_payload (drop k (turns @ eligible)))) > cr_target_payload_bytes request)"
    if "e = Error Capacity m" for m
    using reduce_recent_turns_capacity [OF assms Inl [unfolded that]] fit_turns_Inl unfolding fits_def not_le by metis
  with Inl show ?thesis by simp
next
  case (Inr res)
  obtain eligible turns where r: "cr_eligible_turns request = JArr eligible"
      "(case cr_previous_generation request of None \<Rightarrow> Inr [] | Some g \<Rightarrow> previous_turns g) = Inr turns"
    and fit: "fit_turns J (cr_target_payload_bytes request) (turns @ eligible) = Inr (rr_payload res)"
    using Inr by (rule reduce_recent_turns_Inr)
  from fit_turns_Inr [OF fit] r show ?thesis
    unfolding Inr sum.case fits_def not_le by (intro exI [of _ turns] exI [of _ eligible]) auto
qed

definition example_turn :: "nat \<Rightarrow> json" where
  "example_turn n = jobject [(''sequence'', JUInt n)]"

definition example_request :: reduction_request where
  "example_request =
     \<lparr>cr_session_id = ''s'', cr_previous_generation = None,
      cr_eligible_turns = JArr [example_turn 1, example_turn 2], cr_through_turn_sequence = 2,
      cr_target_payload_bytes = length (plain_dump (recent_payload [example_turn 2])), cr_configuration = jobject []\<rparr>"

lemma reduction_keeps_longest_suffix_witness:
  "\<exists>res. reduce_recent_turns plain_ops (\<lambda>_. False) (\<lambda>_. False) example_request = Inr res \<and>
     rr_payload res = recent_payload [example_turn 2] \<and>
     (\<exists>turns eligible k. cr_eligible_turns example_request = JArr eligible \<and>
       (case cr_previous_generation example_request of None \<Rightarrow> Inr [] | Some g \<Rightarrow> previous_turns g) = Inr turns \<and>
       k < length (turns @ eligible) \<and> rr_payload res = recent_payload (drop k (turns @ eligible)) \<and>
       length (dump plain_ops (rr_payload res)) \<le> cr_target_payload_bytes example_request \<and>
       (\<forall>j < k. length (dump plain_ops (recent_payload (drop j (turns @ eligible)))) > cr_target_payload_bytes example_request))"
proof -
  let ?res = "\<lparr>rr_representation_kind = ''laso.recent-turns'', rr_representation_version = ''1'',
    rr_through_turn_sequence = 2, rr_payload = recent_payload [example_turn 2]\<rparr>"
  have "reduce_recent_turns plain_ops (\<lambda>_. False) (\<lambda>_. False) example_request = Inr ?res"
    by code_simp
  moreover have "get_uint64 plain_ops j \<noteq> throw Capacity m" for j m
    by (simp add: plain_ops_def split: json.split)
  ultimately show ?thesis
    using reduction_keeps_longest_suffix [where J = plain_ops and stopped = "\<lambda>_. False" and expired = "\<lambda>_. False" and request = example_request]
    by (intro exI [of _ ?res]) simp
qed

end
