(* ===== verification/Laso_Runtime.thy ===== *)
theory Laso_Runtime
  imports Laso_Session Laso_Reducer Laso_Pipeline Laso_Action
begin

text \<open>
  The runtime service of \<^verbatim>\<open>src/runtime/runtime.cpp\<close>: admission of runs, their checkpoints, resumption,
  cancellation, approvals, the parent's continuation, dispatch of session turns, shutdown. The
  runtime's members are a record; the record store and the lease table are the database it shares with
  other instances. An operation of the service holds the runtime's mutex, so within the process it is one
  step, but other instances may act on the database between two of its calls: \<open>re_others\<close> is what
  they do before the call at a given \<open>tick\<close>, and \<open>solitary\<close> says that there are none. The clocks,
  \<^verbatim>\<open>uuid()\<close>, \<^verbatim>\<open>timestamp()\<close> and the failures of the database are read at the tick of the call, and so are
  the answers of the parts that are arguments here: the pipeline parser and resolver, the schema
  validator, the registered context reducers and the worker manager.
\<close>

section \<open>State\<close>

datatype maintenance_mode = MActive | MDraining | MMaintenance

record active_run =
  ac_stop :: bool
  ac_lease :: "lease_record option"
  ac_ownership_lost :: bool

record active_node =
  an_stop :: bool
  an_work_lease :: lease_record
  an_global_slot :: "lease_record option"
  an_run_slot :: "lease_record option"
  an_ownership_lost :: bool

text \<open>The members of the configuration the runtime reads.\<close>

record runtime_config =
  rc_execution_mode :: string
  rc_max_runs :: u32
  rc_max_nodes :: u32
  rc_max_nodes_per_run :: u32
  rc_max_subpipeline_depth :: u32
  rc_claim_batch_size :: u32
  rc_max_pending_runs :: u32
  rc_lease_ttl_ms :: u64
  rc_reduction_enabled :: bool
  rc_reducer :: string
  rc_reducer_config :: json
  rc_reduction_threshold_bytes :: u64
  rc_reduction_target_bytes :: u64
  rc_reduction_max_input_bytes :: u64

text \<open>
  A coroutine handed to the executor: of a run, of claimed node work, of a branch of a run that is executed
  here, of a loop; and, in the same list, that the coroutine of a run has ended.
\<close>

datatype spawned =
    Execute run
  | ExecuteWork node_work lease_record "lease_record option" "lease_record option"
  | LocalBranch string
  | ClaimLoop | LeaseLoop | SessionLoop
  | RunEnded string

record runtime =
  rt_db :: session_db
  rt_coord :: coord_db
  rt_client :: coordination
  rt_active :: "(string, active_run) omap"
  rt_nodes :: "(string, active_node) omap"
  rt_mode :: maintenance_mode
  rt_stopping :: bool
  rt_started :: bool
  rt_reduction_stop :: bool
  rt_published :: "event list"
  rt_spawned :: "spawned list"
  rt_worker_cancels :: "string list"
  rt_tick :: nat

record runtime_env =
  re_json :: json_ops
  re_config :: runtime_config
  re_instance_id :: string
  re_coordinated :: bool
  re_has_workers :: bool
  re_uuid :: "nat \<Rightarrow> nat \<Rightarrow> string"
  re_time :: "nat \<Rightarrow> nat \<Rightarrow> string"
  re_clock :: "nat \<Rightarrow> nat \<Rightarrow> int"
  re_timestamp :: "int \<Rightarrow> string"
  re_fault :: "nat \<Rightarrow> fault option"
  re_others :: "nat \<Rightarrow> session_db \<times> coord_db \<Rightarrow> session_db \<times> coord_db"
  re_parse :: "string \<Rightarrow> pipeline_definition result"
  re_resolve :: "nat \<Rightarrow> string \<Rightarrow> pipeline_definition result"
  re_validate :: "nat \<Rightarrow> string \<Rightarrow> json \<Rightarrow> string \<Rightarrow> string \<Rightarrow> unit result"
  re_reducer :: "string \<Rightarrow> (nat \<Rightarrow> bool \<Rightarrow> reduction_request \<Rightarrow> reduction_result result) result"
  re_expired :: "nat \<Rightarrow> bool"
  re_capabilities :: "nat \<Rightarrow> string result"
  re_cancel_job :: "nat \<Rightarrow> string \<Rightarrow> unit result"
  re_worker_job :: "nat \<Rightarrow> string \<Rightarrow> worker_job result"
  re_can_execute :: "nat \<Rightarrow> string \<Rightarrow> string \<Rightarrow> bool"

type_synonym 'a rt = "(runtime, 'a) action"

text \<open>An instance that has the database for itself.\<close>

definition solitary :: "runtime_env \<Rightarrow> bool" where
  "solitary E \<longleftrightarrow> (\<forall>n. re_others E n = id)"

section \<open>The services the runtime calls\<close>

definition draw :: "(nat \<Rightarrow> 'a) \<Rightarrow> 'a rt" where
  "draw f w = (Inr (f (rt_tick w)), w\<lparr>rt_tick := Suc (rt_tick w)\<rparr>)"

definition draw_uuid :: "runtime_env \<Rightarrow> string rt" where
  "draw_uuid E = draw (\<lambda>n. re_uuid E n 0)"

definition draw_time :: "runtime_env \<Rightarrow> string rt" where
  "draw_time E = draw (\<lambda>n. re_time E n 0)"

text \<open>A call to the database: other instances have acted since the last one.\<close>

definition at_database :: "runtime_env \<Rightarrow> (nat \<Rightarrow> 'a rt) \<Rightarrow> 'a rt" where
  "at_database E f w =
     (let n = rt_tick w; (db, co) = re_others E n (rt_db w, rt_coord w)
      in f n (w\<lparr>rt_db := db, rt_coord := co, rt_tick := Suc n\<rparr>))"

definition db_get :: "runtime_env \<Rightarrow> record_kind \<Rightarrow> string \<Rightarrow> json rt" where
  "db_get E kind rid =
     at_database E (\<lambda>n w. (get_record (re_fault E n) kind rid (sd_store (rt_db w)), w))"

definition db_list :: "runtime_env \<Rightarrow> record_kind \<Rightarrow> string \<Rightarrow> nat \<Rightarrow> nat \<Rightarrow> json list rt" where
  "db_list E kind run_id limit offset =
     at_database E (\<lambda>n w. (list_records (re_fault E n) kind run_id limit offset (sd_store (rt_db w)), w))"

definition set_store :: "store \<Rightarrow> runtime \<Rightarrow> runtime" where
  "set_store st w = w\<lparr>rt_db := (rt_db w)\<lparr>sd_store := st\<rparr>\<rparr>"

definition db_commit :: "runtime_env \<Rightarrow> store_record list \<Rightarrow> unit rt" where
  "db_commit E records =
     at_database E (\<lambda>n w.
       let (r, st) = commit (re_json E) (re_uuid E n 0) (re_time E n 0) (re_time E n 1) (re_fault E n)
             records (sd_store (rt_db w))
       in (r, set_store st w))"

definition db_commit_owned :: "runtime_env \<Rightarrow> store_record list \<Rightarrow> string \<Rightarrow> string \<Rightarrow> u64 \<Rightarrow> unit rt" where
  "db_commit_owned E records resource_key owner fence =
     at_database E (\<lambda>n w.
       let (r, st) = commit_owned (re_json E) (re_uuid E n 0) (re_time E n 0) (re_time E n 1) (re_fault E n)
             (re_clock E n) records resource_key owner fence (rt_coord w) (sd_store (rt_db w))
       in (r, set_store st w))"

definition db_request_cancellation :: "runtime_env \<Rightarrow> string \<Rightarrow> unit rt" where
  "db_request_cancellation E run_id =
     at_database E (\<lambda>n w.
       let (r, st) = request_cancellation (re_json E) (re_fault E n) (re_time E n 0) run_id (sd_store (rt_db w))
       in (r, set_store st w))"

definition session_env_at :: "runtime_env \<Rightarrow> nat \<Rightarrow> runtime \<Rightarrow> session_env" where
  "session_env_at E n w =
     \<lparr>se_fresh = re_uuid E n, se_now = re_time E n, se_clock = re_clock E n 0, se_fault = re_fault E n,
      se_leases = rt_coord w\<rparr>"

text \<open>A transaction on a session.\<close>

definition db_session :: "runtime_env \<Rightarrow> (session_env \<Rightarrow> session_db \<Rightarrow> 'a result \<times> session_db) \<Rightarrow> 'a rt" where
  "db_session E f =
     at_database E (\<lambda>n w. let (r, db) = f (session_env_at E n w) (rt_db w) in (r, w\<lparr>rt_db := db\<rparr>))"

definition take_lease :: "runtime_env \<Rightarrow> string \<Rightarrow> lease_record option rt" where
  "take_lease E resource =
     at_database E (\<lambda>n w.
       let (r, c, co) = acquire (re_timestamp E) (re_fault E n) (re_clock E n) resource
             (rc_lease_ttl_ms (re_config E)) (rt_client w) (rt_coord w)
       in (r, w\<lparr>rt_client := c, rt_coord := co\<rparr>))"

definition renew_lease :: "runtime_env \<Rightarrow> lease_record \<Rightarrow> (bool \<times> lease_record) rt" where
  "renew_lease E lease =
     at_database E (\<lambda>n w.
       let (r, c, co) = renew (re_timestamp E) (re_fault E n) (re_clock E n) lease
             (rc_lease_ttl_ms (re_config E)) (rt_client w) (rt_coord w)
       in (r, w\<lparr>rt_client := c, rt_coord := co\<rparr>))"

definition give_lease :: "runtime_env \<Rightarrow> lease_record \<Rightarrow> bool rt" where
  "give_lease E lease =
     at_database E (\<lambda>n w.
       let (r, c, co) = release (re_fault E n) (re_clock E n) lease (rt_client w) (rt_coord w)
       in (r, w\<lparr>rt_client := c, rt_coord := co\<rparr>))"

definition lease_is_current :: "runtime_env \<Rightarrow> lease_record \<Rightarrow> unit rt" where
  "lease_is_current E lease =
     at_database E (\<lambda>n w.
       let (r, c) = require_current (re_fault E n) (re_clock E n) lease (rt_client w) (rt_coord w)
       in (r, w\<lparr>rt_client := c\<rparr>))"

text \<open>The release of a lease whose failure is of no consequence.\<close>

definition drop_lease :: "runtime_env \<Rightarrow> lease_record \<Rightarrow> unit rt" where
  "drop_lease E lease = ignoring (abind (give_lease E lease) (\<lambda>_. aret ()))"

definition get_run :: "runtime_env \<Rightarrow> string \<Rightarrow> run rt" where
  "get_run E rid = abind (db_get E KRun rid) (\<lambda>v. alift (run_from_json (re_json E) v))"

definition get_approval :: "runtime_env \<Rightarrow> string \<Rightarrow> approval rt" where
  "get_approval E rid = abind (db_get E KApproval rid) (\<lambda>v. alift (approval_from_json (re_json E) v))"

definition decode_node_work :: "runtime_env \<Rightarrow> json \<Rightarrow> node_work rt" where
  "decode_node_work E v =
     abind (draw (\<lambda>n. (re_uuid E n 0, re_time E n 0, re_time E n 1))) (\<lambda>(fresh, now, now2).
     alift (node_work_from_json (re_json E) fresh now now2 v))"

definition get_node_work :: "runtime_env \<Rightarrow> string \<Rightarrow> node_work rt" where
  "get_node_work E rid = abind (db_get E KNodeWork rid) (decode_node_work E)"

definition new_event_now :: "runtime_env \<Rightarrow> event rt" where
  "new_event_now E = draw (\<lambda>n. new_event (re_uuid E n 0) (re_time E n 0))"

text \<open>Publishing does not throw; the event log is in the database already.\<close>

definition publish :: "event \<Rightarrow> unit rt" where
  "publish e = modify (\<lambda>w. w\<lparr>rt_published := rt_published w @ [e]\<rparr>)"

definition spawn :: "spawned \<Rightarrow> unit rt" where
  "spawn c = modify (\<lambda>w. w\<lparr>rt_spawned := rt_spawned w @ [c]\<rparr>)"

text \<open>
  \<open>list_all\<close> reads pages of ten thousand rows. Past the offset the store accepts, a call has already
  thrown: the second disjunct only makes that visible.
\<close>

function list_from :: "runtime_env \<Rightarrow> record_kind \<Rightarrow> string \<Rightarrow> nat \<Rightarrow> json list rt" where
  "list_from E kind run_id offset =
     abind (db_list E kind run_id 10000 offset) (\<lambda>page.
       if length page < 10000 \<or> offset > 100000000 then aret page
       else abind (list_from E kind run_id (offset + 10000)) (\<lambda>rest. aret (page @ rest)))"
  by auto
termination
  by (relation "measure (\<lambda>(E, kind, run_id, offset). 100010000 - offset)") auto

declare list_from.simps [simp del]

definition list_every :: "runtime_env \<Rightarrow> record_kind \<Rightarrow> string \<Rightarrow> json list rt" where
  "list_every E kind run_id = list_from E kind run_id 0"

section \<open>Checkpoints\<close>

definition session_continuation_id :: "string \<Rightarrow> string \<Rightarrow> string" where
  "session_continuation_id session_id provider_id =
     ''current:'' @ decimal (length session_id) @ '':'' @ session_id @ '':'' @ provider_id"

definition run_continuation_candidate_id :: "string \<Rightarrow> string \<Rightarrow> string" where
  "run_continuation_candidate_id run_id provider_id =
     ''candidate:'' @ decimal (length run_id) @ '':'' @ run_id @ '':'' @ provider_id"

definition collect_candidate :: "json_ops \<Rightarrow> run \<Rightarrow> json \<Rightarrow> (string, json) omap \<Rightarrow> (string, json) omap result" where
  "collect_candidate J r candidate candidates =
     (let text = (\<lambda>k. jvalue (get_string J) candidate k []);
          invalid = throw Storage ''Stored provider continuation is invalid''
      in rbind (text ''scope'') (\<lambda>scope. if scope \<noteq> ''candidate'' then Inr candidates else
         rbind (text ''session_id'') (\<lambda>s. if s \<noteq> r_session_id r then invalid else
         rbind (text ''run_id'') (\<lambda>i. if i \<noteq> r_id r then invalid else
         rbind (text ''turn_id'') (\<lambda>t. if t \<noteq> r_session_turn_id r then invalid else
         rbind (text ''provider_id'') (\<lambda>provider_id.
         rbind (text ''provider_version'') (\<lambda>provider_version.
         rbind (text ''state'') (\<lambda>state.
           if provider_id = [] \<or> provider_version = [] \<or> state = [] \<or> length state > 64 * 1024 then invalid
           else Inr (omap_put provider_id candidate candidates)))))))))"

definition settle_candidate :: "run \<Rightarrow> string \<times> json \<Rightarrow> store_record list" where
  "settle_candidate r pc =
     (case pc of (provider_id, candidate) \<Rightarrow>
        (if r_state r = RCompleted
         then [\<lparr>sr_kind = KSessionContinuation, sr_id = session_continuation_id (r_session_id r) provider_id,
               sr_run_id = r_session_id r,
               sr_value = jputs [(''scope'', JStr ''current''), (''run_id'', JStr (r_session_id r)),
                                 (''source_run_id'', JStr (r_id r))] candidate\<rparr>]
         else []) @
        [\<lparr>sr_kind = KSessionContinuation, sr_id = run_continuation_candidate_id (r_id r) provider_id,
          sr_run_id = r_id r,
          sr_value = jputs [(''scope'', JStr ''discarded''), (''state'', JStr [])] candidate\<rparr>])"

text \<open>The end of a session's run makes its provider continuations current, or discards them.\<close>

definition settle_continuations :: "runtime_env \<Rightarrow> run \<Rightarrow> store_record list \<Rightarrow> store_record list rt" where
  "settle_continuations E r records =
     (if r_session_id r \<noteq> [] \<and> terminal (r_state r) then
        abind (db_list E KSessionContinuation (r_id r) 10000 0) (\<lambda>stored.
        let given = map sr_value (filter (\<lambda>rec. sr_kind rec = KSessionContinuation) records) in
        abind (alift (foldM (collect_candidate (re_json E) r) (stored @ given) [])) (\<lambda>candidates.
        aret (filter (\<lambda>rec. sr_kind rec \<noteq> KSessionContinuation) records @
              concat (map (settle_candidate r) candidates))))
      else aret records)"

text \<open>The node an event names is that of the last attempt in the batch.\<close>

definition event_node :: "json_ops \<Rightarrow> store_record list \<Rightarrow> string \<Rightarrow> string result" where
  "event_node J records node =
     foldM (\<lambda>rec n. if sr_kind rec = KAttempt then jget_at (get_string J) (sr_value rec) ''node_id'' else Inr n)
       records node"

definition checkpoint_event :: "run \<Rightarrow> string \<Rightarrow> string \<Rightarrow> event \<Rightarrow> event" where
  "checkpoint_event r type node e =
     e\<lparr>ev_run_id := r_id r, ev_pipeline_id := r_pipeline_id r, ev_node_id := node,
       ev_type := (if r_state r = RCancelled \<and> type = ''run.completed'' then ''run.cancelled'' else type),
       ev_metadata := jputs
         [(''state'', run_state_to_json (r_state r)), (''provider'', JStr (r_provider r)),
          (''model'', JStr (r_model r)), (''tool'', JStr (r_tool r)), (''plugin'', JStr (r_plugin r)),
          (''pipeline_version'', JUInt (unat (r_pipeline_version r))),
          (''parent_run_id'', JStr (r_parent_id r)), (''parent_node_id'', JStr (r_parent_node_id r)),
          (''child_run_id'', JStr (r_child_id r)), (''child_pipeline_id'', JStr (r_child_pipeline_id r)),
          (''child_pipeline_version'', JUInt (unat (r_child_pipeline_version r))),
          (''initiation_type'', JStr (r_initiation_type r)), (''schedule_id'', JStr (r_schedule_id r)),
          (''schedule_occurrence_id'', JStr (r_schedule_occurrence_id r)), (''due_at'', JStr (r_due_at r)),
          (''trigger_id'', JStr (r_trigger_id r)), (''event_id'', JStr (r_event_id r)),
          (''root_event_id'', JStr (r_root_event_id r)),
          (''trigger_depth'', JUInt (unat (r_trigger_depth r)))] (ev_metadata e),
       ev_causation_id := r_id r, ev_root_event_id := r_root_event_id r,
       ev_trigger_depth := r_trigger_depth r\<rparr>"

definition run_record :: "run \<Rightarrow> store_record" where
  "run_record r = \<lparr>sr_kind = KRun, sr_id = r_id r, sr_run_id = r_id r, sr_value = run_to_json r\<rparr>"

definition run_event_record :: "string \<Rightarrow> event \<Rightarrow> store_record" where
  "run_event_record run_id e = \<lparr>sr_kind = KEvent, sr_id = ev_id e, sr_run_id = run_id, sr_value = event_to_json e\<rparr>"

definition approval_record :: "string \<Rightarrow> approval \<Rightarrow> store_record" where
  "approval_record run_id a = \<lparr>sr_kind = KApproval, sr_id = ap_id a, sr_run_id = run_id, sr_value = approval_to_json a\<rparr>"

definition attempt_record :: "string \<Rightarrow> node_execution \<Rightarrow> store_record" where
  "attempt_record run_id x = \<lparr>sr_kind = KAttempt, sr_id = x_id x, sr_run_id = run_id, sr_value = node_execution_to_json x\<rparr>"

definition work_record :: "node_work \<Rightarrow> store_record" where
  "work_record k = \<lparr>sr_kind = KNodeWork, sr_id = w_id k, sr_run_id = w_run_id k, sr_value = node_work_to_json k\<rparr>"

text \<open>A cancellation that was requested meanwhile stays requested.\<close>

definition merge_cancellation :: "runtime_env \<Rightarrow> run \<Rightarrow> run rt" where
  "merge_cancellation E r =
     atry (get_run E (r_id r))
       (\<lambda>stored. aret (r\<lparr>r_cancellation_requested := r_cancellation_requested r \<or> r_cancellation_requested stored\<rparr>))
       (\<lambda>code text. if code = NotFound then aret r else athrow code text)"

definition commit_checkpoint :: "runtime_env \<Rightarrow> run \<Rightarrow> store_record list \<Rightarrow> unit rt" where
  "commit_checkpoint E r records =
     (if r_session_id r \<noteq> [] \<and> terminal (r_state r) then
        abind (new_event_now E) (\<lambda>session_event.
        db_session E (\<lambda>env. commit_session_run (re_json E) env records (r_owner_instance_id r) (r_fencing_token r)
                             (event_to_json session_event)))
      else if re_coordinated E \<and> r_owner_instance_id r \<noteq> [] then
        db_commit_owned E records (''run:'' @ r_id r) (r_owner_instance_id r) (r_fencing_token r)
      else db_commit E records)"

definition update_active :: "string \<Rightarrow> (active_run \<Rightarrow> active_run) \<Rightarrow> unit rt" where
  "update_active rid f =
     modify (\<lambda>w. case map_of (rt_active w) rid of
                   None \<Rightarrow> w
                 | Some a \<Rightarrow> w\<lparr>rt_active := omap_put rid (f a) (rt_active w)\<rparr>)"

definition lose_ownership :: "string \<Rightarrow> unit rt" where
  "lose_ownership rid = update_active rid (\<lambda>a. a\<lparr>ac_ownership_lost := True, ac_stop := True\<rparr>)"

definition request_stop :: "string \<Rightarrow> unit rt" where
  "request_stop rid = update_active rid (\<lambda>a. a\<lparr>ac_stop := True\<rparr>)"

text \<open>The run as the caller's reference holds it afterwards is what the action returns.\<close>

definition store_checkpoint :: "runtime_env \<Rightarrow> string \<Rightarrow> store_record list \<Rightarrow> run \<Rightarrow> run rt" where
  "store_checkpoint E type records r =
     abind (draw_time E) (\<lambda>now.
     abind (new_event_now E) (\<lambda>e.
     abind (alift (event_node (re_json E) records (r_active_node r))) (\<lambda>node.
     let r = r\<lparr>r_updated_at := now\<rparr>; event = checkpoint_event r type node e in
     abind (atry (commit_checkpoint E r (records @ [run_record r, run_event_record (r_id r) event]))
              aret
              (\<lambda>code text.
                 abind (awhen (re_coordinated E \<and> code = Conflict) (lose_ownership (r_id r))) (\<lambda>_.
                 athrow code text))) (\<lambda>_.
     abind (publish event) (\<lambda>_. aret r)))))"

definition checkpoint :: "runtime_env \<Rightarrow> run \<Rightarrow> string \<Rightarrow> store_record list \<Rightarrow> run rt" where
  "checkpoint E r type records =
     abind (settle_continuations E r records) (\<lambda>records.
     abind (merge_cancellation E r) (store_checkpoint E type records))"

definition transition :: "runtime_env \<Rightarrow> run \<Rightarrow> run_state \<Rightarrow> string \<Rightarrow> store_record list \<Rightarrow> run rt" where
  "transition E r state event records =
     (if \<not> valid_transition (r_state r) state then athrow Execution ''Invalid run state transition''
      else checkpoint E (r\<lparr>r_state := state\<rparr>) event records)"

section \<open>Admission\<close>

definition accepts_new_work :: "runtime \<Rightarrow> bool" where
  "accepts_new_work w \<longleftrightarrow> rt_mode w = MActive"

definition at_capacity :: "runtime_env \<Rightarrow> runtime \<Rightarrow> bool" where
  "at_capacity E w \<longleftrightarrow> length (rt_active w) \<ge> unat (rc_max_runs (re_config E))"

definition schedule :: "runtime_env \<Rightarrow> run \<Rightarrow> lease_record option \<Rightarrow> unit rt" where
  "schedule E r lease =
     look (\<lambda>w. if omap_contains (rt_active w) (r_id r) then athrow Conflict ''Run already executing''
      else if rt_stopping w \<or> at_capacity E w then athrow Capacity ''Concurrent run limit reached''
      else if re_coordinated E \<and> lease = None then athrow Conflict ''Distributed run is missing an ownership lease''
      else
        abind (modify (\<lambda>w. w\<lparr>rt_active := omap_put (r_id r)
                 \<lparr>ac_stop = False, ac_lease = lease, ac_ownership_lost = False\<rparr> (rt_active w)\<rparr>)) (\<lambda>_.
        spawn (Execute r)))"

record run_request =
  rq_pipeline :: pipeline_definition
  rq_input :: json
  rq_actor :: string
  rq_parent_id :: string
  rq_parent_node_id :: string
  rq_subpipeline_depth :: u32
  rq_parent_message_id :: string
  rq_origin :: json
  rq_message_metadata :: json
  rq_session_id :: string
  rq_session_turn_id :: string
  rq_session_owner :: string
  rq_session_fencing_token :: u64

text \<open>While it drains, an instance only takes the continuations of the runs it owns.\<close>

definition admit_continuation :: "runtime_env \<Rightarrow> string \<Rightarrow> unit rt" where
  "admit_continuation E parent_id =
     look (\<lambda>w. let parent = (if parent_id = [] then None else map_of (rt_active w) parent_id);
          owned = (case parent of None \<Rightarrow> False | Some a \<Rightarrow> \<not> ac_ownership_lost a)
      in if accepts_new_work w then aret ()
         else if rt_mode w \<noteq> MDraining \<or> \<not> owned
         then athrow Unavailable ''Instance is not accepting new work''
         else if re_coordinated E then
           (case ac_lease (the parent) of
              None \<Rightarrow> athrow Conflict ''Owned continuation has no current lease''
            | Some lease \<Rightarrow> lease_is_current E lease)
         else aret ())"

definition count_queued :: "json_ops \<Rightarrow> u32 \<Rightarrow> json list \<Rightarrow> nat \<Rightarrow> nat result" where
  "count_queued J limit page pending =
     foldM (\<lambda>v n. rbind (run_from_json J v) (\<lambda>r.
              if r_state r \<noteq> RQueued then Inr n
              else if Suc n \<ge> unat limit then throw Capacity ''Distributed run queue is full''
              else Inr (Suc n))) page pending"

function check_pending :: "runtime_env \<Rightarrow> nat \<Rightarrow> nat \<Rightarrow> unit rt" where
  "check_pending E offset pending =
     abind (db_list E KRun [] 1000 offset) (\<lambda>page.
     abind (alift (count_queued (re_json E) (rc_max_pending_runs (re_config E)) page pending)) (\<lambda>pending.
       if length page < 1000 \<or> offset > 100000000 then aret ()
       else check_pending E (offset + 1000) pending))"
  by auto
termination
  by (relation "measure (\<lambda>(E, offset, pending). 100001000 - offset)") auto

declare check_pending.simps [simp del]

definition check_request :: "runtime_env \<Rightarrow> run_request \<Rightarrow> pipeline_definition rt" where
  "check_request E q =
     (let J = re_json E in
      abind (alift (rbind (dump_within J (1024 * 1024) (rq_input q) ''Run input exceeds 1 MiB'') (\<lambda>_.
        if \<not> is_object (rq_message_metadata q)
        then throw Validation ''Run metadata is invalid or exceeds 64 KiB''
        else rbind (dump_within J (64 * 1024) (rq_message_metadata q)
                      ''Run metadata is invalid or exceeds 64 KiB'') (\<lambda>_.
        rbind (re_parse E (pl_source (rq_pipeline q))) (\<lambda>checked.
        if rq_subpipeline_depth q > rc_max_subpipeline_depth (re_config E)
        then throw Execution ''Subpipeline nesting limit exceeded''
        else Inr (checked\<lparr>pl_resolved_subpipelines := pl_resolved_subpipelines (rq_pipeline q)\<rparr>)))))) (\<lambda>checked.
      abind (draw (\<lambda>n. re_validate E n (pl_input_schema checked) (rq_input q) (pl_name checked) ''pipeline_input'')) (\<lambda>ok.
      abind (alift ok) (\<lambda>_. aret checked))))"

definition set_origin :: "json_ops \<Rightarrow> json \<Rightarrow> run \<Rightarrow> run result" where
  "set_origin J origin r =
     (let text = (\<lambda>k. jvalue (get_string J) origin k []) in
      rbind (jvalue (get_string J) origin ''initiation_type'' ''manual'') (\<lambda>initiation_type.
      rbind (text ''schedule_id'') (\<lambda>schedule_id.
      rbind (text ''schedule_occurrence_id'') (\<lambda>schedule_occurrence_id.
      rbind (text ''due_at'') (\<lambda>due_at.
      rbind (text ''trigger_id'') (\<lambda>trigger_id.
      rbind (text ''event_id'') (\<lambda>event_id.
      rbind (text ''root_event_id'') (\<lambda>root_event_id.
      rbind (jvalue (get_unsigned J) origin ''trigger_depth'' 0) (\<lambda>trigger_depth.
        Inr (r\<lparr>r_initiation_type := initiation_type, r_schedule_id := schedule_id,
               r_schedule_occurrence_id := schedule_occurrence_id, r_due_at := due_at,
               r_trigger_id := trigger_id, r_event_id := event_id, r_root_event_id := root_event_id,
               r_trigger_depth := trigger_depth\<rparr>))))))))))"

definition make_run :: "runtime_env \<Rightarrow> run_request \<Rightarrow> pipeline_definition \<Rightarrow> run rt" where
  "make_run E q checked =
     abind (draw (\<lambda>n. new_run (re_uuid E n 0) (re_time E n 0) (new_message (re_uuid E n 1) (re_time E n 1)))) (\<lambda>r.
     abind (alift (set_origin (re_json E) (rq_origin q)
              (r\<lparr>r_pipeline_id := pl_name checked, r_pipeline_version := pl_version checked,
                 r_definition := pl_source checked, r_actor := rq_actor q, r_session_id := rq_session_id q,
                 r_session_turn_id := rq_session_turn_id q, r_parent_id := rq_parent_id q,
                 r_parent_node_id := rq_parent_node_id q, r_parent_message_id := rq_parent_message_id q,
                 r_subpipeline_depth := rq_subpipeline_depth q,
                 r_resolved_subpipelines := pl_resolved_subpipelines checked\<rparr>))) (\<lambda>r.
     abind (draw_time E) (\<lambda>now.
       let m = (r_message r)\<lparr>m_run_id := r_id r, m_pipeline_id := r_pipeline_id r, m_node_id := ''input'',
                 m_payload := rq_input q, m_metadata := rq_message_metadata q\<rparr>
       in aret (r\<lparr>r_message :=
            (if r_parent_message_id r = [] then m
             else m\<lparr>m_provenance := m_provenance m @
                 [\<lparr>p_node = r_parent_node_id r, p_tool = [], p_model = [], p_provider = [], p_artifact = [],
                   p_parent_message = r_parent_message_id r, p_validation = [], p_time = now, p_worker = []\<rparr>]\<rparr>)\<rparr>))))"

definition bind_run :: "runtime_env \<Rightarrow> run_request \<Rightarrow> run \<Rightarrow> unit rt" where
  "bind_run E q r =
     abind (new_event_now E) (\<lambda>e.
     let event = e\<lparr>ev_run_id := r_id r, ev_pipeline_id := r_pipeline_id r, ev_node_id := ''input'',
                   ev_type := ''run.created'',
                   ev_metadata := jputs [(''state'', run_state_to_json (r_state r)),
                     (''pipeline_version'', JUInt (unat (r_pipeline_version r))),
                     (''initiation_type'', JStr (r_initiation_type r))] (ev_metadata e),
                   ev_causation_id := r_id r, ev_root_event_id := r_root_event_id r,
                   ev_trigger_depth := r_trigger_depth r\<rparr> in
     abind (new_event_now E) (\<lambda>session_event.
     abind (db_session E (\<lambda>env. bind_session_turn_run (re_json E) env (r_session_id r) (r_session_turn_id r)
              (run_to_json r) (event_to_json event) (rq_session_owner q) (rq_session_fencing_token q)
              (event_to_json session_event))) (\<lambda>bound.
     if \<not> bound then athrow Conflict ''Session run is already bound'' else publish event)))"

definition start_run :: "runtime_env \<Rightarrow> run_request \<Rightarrow> string rt" where
  "start_run E q =
     abind (admit_continuation E (rq_parent_id q)) (\<lambda>_.
     abind (look (\<lambda>w.
          if rt_stopping w \<or> (\<not> re_coordinated E \<and> at_capacity E w)
                 then athrow Capacity ''Concurrent run limit reached'' else aret ())) (\<lambda>_.
     abind (awhen (re_coordinated E) (check_pending E 0 0)) (\<lambda>_.
     abind (check_request E q) (\<lambda>checked.
     abind (make_run E q checked) (\<lambda>r.
     abind (if r_session_id r = [] then checkpoint E r ''run.created'' []
            else abind (bind_run E q r) (\<lambda>_. aret r)) (\<lambda>r.
     abind (awhen (\<not> re_coordinated E) (schedule E r None)) (\<lambda>_. aret (r_id r))))))))"

section \<open>Approvals and resumption\<close>

definition current_visit :: "run \<Rightarrow> u32" where
  "current_visit r = (case map_of (r_node_visits r) (r_active_node r) of None \<Rightarrow> 0 | Some n \<Rightarrow> n)"

fun any_approval :: "json_ops \<Rightarrow> run \<Rightarrow> json list \<Rightarrow> bool result" where
  "any_approval J r [] = Inr False"
| "any_approval J r (item # items) =
     rbind (approval_from_json J item) (\<lambda>a.
       if ap_node_id a = r_active_node r \<and> ap_visit a = current_visit r \<and> ap_decision a = ''approved''
       then Inr True else any_approval J r items)"

definition approved :: "runtime_env \<Rightarrow> run \<Rightarrow> bool rt" where
  "approved E r =
     abind (list_every E KApproval (r_id r)) (\<lambda>items. alift (any_approval (re_json E) r items))"

definition new_approval :: "string \<Rightarrow> string \<Rightarrow> approval" where
  "new_approval fresh now =
     \<lparr>ap_id = fresh, ap_run_id = [], ap_node_id = [], ap_reason = [], ap_action = [], ap_created_at = now,
      ap_decision = ''pending'', ap_decided_at = [], ap_actor = [], ap_comment = [], ap_visit = 0\<rparr>"

definition new_attempt :: "string \<Rightarrow> string \<Rightarrow> node_execution" where
  "new_attempt fresh now =
     \<lparr>x_id = fresh, x_run_id = [], x_node_id = [], x_started_at = now, x_finished_at = [], x_error = [],
      x_child_run_id = [], x_child_pipeline_id = [], x_worker_job_id = [], x_worker_id = [],
      x_external_job_id = [], x_child_pipeline_version = 0, x_attempt = 1, x_state = NRunning,
      x_duration_ms = Finite 0\<rparr>"

definition draw_approval :: "runtime_env \<Rightarrow> approval rt" where
  "draw_approval E = draw (\<lambda>n. new_approval (re_uuid E n 0) (re_time E n 0))"

definition draw_attempt :: "runtime_env \<Rightarrow> node_execution rt" where
  "draw_attempt E = draw (\<lambda>n. new_attempt (re_uuid E n 0) (re_time E n 0))"

text \<open>\<^verbatim>\<open>operator[]\<close> on the visits inserts a zero for a node that has none.\<close>

definition wait_approval :: "runtime_env \<Rightarrow> run \<Rightarrow> node_definition \<Rightarrow> string \<Rightarrow> run rt" where
  "wait_approval E r node reason =
     abind (draw_approval E) (\<lambda>a.
     abind (draw_attempt E) (\<lambda>x.
     let visits = snd (omap_emplace (n_id node) 0 (r_node_visits r));
         a = a\<lparr>ap_run_id := r_id r, ap_node_id := n_id node, ap_reason := reason,
               ap_action := n_type node @ '':'' @ n_binding node, ap_visit := the (map_of visits (n_id node))\<rparr>;
         x = x\<lparr>x_run_id := r_id r, x_node_id := n_id node, x_state := NWaitingApproval\<rparr>
     in transition E (r\<lparr>r_node_visits := visits\<rparr>) RWaitingApproval ''approval.requested''
          [approval_record (r_id r) a, attempt_record (r_id r) x]))"

definition parked :: "run_state \<Rightarrow> bool" where
  "parked s \<longleftrightarrow> s = RWaitingApproval \<or> s = RPaused \<or> s = RQueued"

definition resume :: "runtime_env \<Rightarrow> string \<Rightarrow> unit rt" where
  "resume E rid =
     look (\<lambda>w. if \<not> accepts_new_work w then athrow Unavailable ''Instance is not accepting new work''
      else
        abind (get_run E rid) (\<lambda>r. look (\<lambda>w.
          if omap_contains (rt_active w) rid
           then athrow Conflict ''Run is still leaving its checkpoint; retry shortly''
           else if \<not> parked (r_state r) then athrow Conflict ''Run cannot resume from this state''
           else
             abind (if r_state r = RWaitingApproval then approved E r else aret True) (\<lambda>ok. look (\<lambda>w.
          if \<not> ok then athrow Policy ''Approval is pending''
                else if r_cancellation_requested r
                then athrow Conflict ''Run cancellation has already been requested''
                else if rt_stopping w \<or> (\<not> re_coordinated E \<and> at_capacity E w)
                then athrow Capacity ''Concurrent run limit reached''
                else
                  abind (if r_state r \<noteq> RQueued then transition E r RQueued ''run.resumed'' [] else aret r) (\<lambda>r.
                  awhen (\<not> re_coordinated E) (schedule E r None)))))))"

definition finish_parent :: "runtime_env \<Rightarrow> run \<Rightarrow> unit rt" where
  "finish_parent E child =
     look (\<lambda>w. if r_parent_id child = [] \<or> \<not> terminal (r_state child) \<or> rt_stopping w then aret ()
      else
        abind (get_run E (r_parent_id child)) (\<lambda>parent. look (\<lambda>w.
          if r_state parent = RPaused \<and> \<not> omap_contains (rt_active w) (r_id parent) then
             (if re_coordinated E then
                abind (draw_time E) (\<lambda>now.
                db_commit E [run_record (parent\<lparr>r_state := RQueued, r_updated_at := now\<rparr>)])
              else resume E (r_id parent))
           else aret ())))"

text \<open>Every record gets a time of its own.\<close>

definition decide_attempts :: "json_ops \<Rightarrow> bool \<Rightarrow> string \<Rightarrow> string \<Rightarrow> (nat \<Rightarrow> string) \<Rightarrow> json list \<Rightarrow> store_record list result" where
  "decide_attempts J approve run_id node_id now items =
     rbind (mapM (node_execution_from_json J) items) (\<lambda>attempts.
       Inr (map (\<lambda>(i, x). attempt_record run_id
                  (x\<lparr>x_state := (if approve then NCompleted else NFailed), x_finished_at := now i\<rparr>))
         (enumerate 0 (filter (\<lambda>x. x_node_id x = node_id \<and> x_state x = NWaitingApproval) attempts))))"

definition clear_ownership :: "run \<Rightarrow> run" where
  "clear_ownership r =
     r\<lparr>r_owner_instance_id := [], r_lease_expires_at := [], r_claimed_at := [], r_last_renewed_at := [],
       r_fencing_token := 0\<rparr>"

text \<open>The decision and the run's next state are one transaction.\<close>

definition apply_decision :: "runtime_env \<Rightarrow> run \<Rightarrow> approval \<Rightarrow> bool \<Rightarrow> string \<Rightarrow> string \<Rightarrow> unit rt" where
  "apply_decision E r a approve actor comment =
     abind (draw_time E) (\<lambda>now.
     let a = a\<lparr>ap_decision := (if approve then ''approved'' else ''rejected''), ap_decided_at := now,
               ap_actor := actor, ap_comment := comment\<rparr> in
     abind (list_every E KAttempt (r_id r)) (\<lambda>items.
     abind (draw (re_time E)) (\<lambda>finished.
     abind (alift (decide_attempts (re_json E) approve (r_id r) (ap_node_id a) finished items)) (\<lambda>attempts.
     let records = approval_record (r_id r) a # attempts;
         r = (if re_coordinated E then clear_ownership r else r)
     in if approve then
          abind (transition E r RQueued ''approval.approved'' records) (\<lambda>r.
          awhen (\<not> re_coordinated E) (schedule E r None))
        else
          abind (transition E (r\<lparr>r_error := ''Human approval rejected''\<rparr>) RFailed ''approval.rejected'' records)
            (finish_parent E)))))"

definition decide :: "runtime_env \<Rightarrow> string \<Rightarrow> bool \<Rightarrow> string \<Rightarrow> string \<Rightarrow> unit rt" where
  "decide E rid approve actor comment =
     (if length actor > 128 \<or> length comment > 2048
      then athrow Validation ''Approval annotation exceeds limit''
      else
        abind (get_approval E rid) (\<lambda>a.
        abind (get_run E (ap_run_id a)) (\<lambda>r. look (\<lambda>w.
          if ap_decision a \<noteq> ''pending'' \<or> r_state r \<noteq> RWaitingApproval \<or> r_active_node r \<noteq> ap_node_id a
          then athrow Conflict ''Approval is no longer pending''
          else if omap_contains (rt_active w) (r_id r)
          then athrow Conflict ''Approval checkpoint is settling; retry shortly''
          else if approve \<and> (rt_stopping w \<or> (\<not> re_coordinated E \<and> at_capacity E w))
          then athrow Capacity ''Concurrent run limit reached''
          else apply_decision E r a approve actor comment))))"

section \<open>Cancellation\<close>

definition child_ids :: "json_ops \<Rightarrow> run \<Rightarrow> string \<Rightarrow> json list \<Rightarrow> string list result" where
  "child_ids J r rid records =
     rbind (mapM (run_from_json J) records) (\<lambda>runs.
       Inr (sort (remdups ((if r_child_id r = [] then [] else [r_child_id r]) @
                           map r_id (filter (\<lambda>c. r_parent_id c = rid) runs)))))"

definition open_worker_jobs :: "runtime_env \<Rightarrow> string \<Rightarrow> string list rt" where
  "open_worker_jobs E rid =
     (if \<not> re_has_workers E then aret []
      else
        abind (db_list E KWorkerJob rid 10000 0) (\<lambda>records.
        abind (alift (mapM (worker_job_from_json (re_json E)) records)) (\<lambda>jobs.
        aret (map wj_id (filter (\<lambda>j. \<not> worker_job_terminal (wj_state j)) jobs)))))"

definition stop_node :: "string \<Rightarrow> unit rt" where
  "stop_node rid =
     modify (\<lambda>w. case map_of (rt_nodes w) rid of
                   None \<Rightarrow> w
                 | Some a \<Rightarrow> w\<lparr>rt_nodes := omap_put rid (a\<lparr>an_stop := True\<rparr>) (rt_nodes w)\<rparr>)"

definition cancel_work :: "runtime_env \<Rightarrow> json \<Rightarrow> unit rt" where
  "cancel_work E record =
     abind (decode_node_work E record) (\<lambda>work.
       if w_state work = WQueued then
         abind (draw_time E) (\<lambda>now.
         db_commit E [work_record (work\<lparr>w_state := WCancelled, w_error := ''Parent run cancellation requested'',
                                        w_updated_at := now\<rparr>)])
       else awhen (w_state work = WRunning) (stop_node (w_id work)))"

text \<open>A run that is at rest elsewhere: without a session its record is overwritten, with one its lease is taken.\<close>

definition cancel_inactive :: "runtime_env \<Rightarrow> string \<Rightarrow> run \<Rightarrow> unit rt" where
  "cancel_inactive E rid r =
     (if r_session_id r = [] then
        abind (draw_time E) (\<lambda>now.
        db_commit E [run_record (r\<lparr>r_state := RCancelled, r_updated_at := now\<rparr>)])
      else
        abind (take_lease E (''run:'' @ rid)) (\<lambda>lease.
        case lease of
          None \<Rightarrow> aret ()
        | Some lease \<Rightarrow>
            abind (acatch (abind (transition E (r\<lparr>r_owner_instance_id := le_owner_instance lease,
                                                  r_fencing_token := le_fencing_token lease\<rparr>)
                                    RCancelled ''run.cancelled'' []) (\<lambda>_. aret ()))
                     (\<lambda>e. abind (drop_lease E lease) (\<lambda>_. alift (Inl e)))) (\<lambda>_.
            drop_lease E lease)))"

definition cancel_active :: "runtime_env \<Rightarrow> string \<Rightarrow> run \<Rightarrow> unit rt" where
  "cancel_active E rid r =
     abind (request_stop rid) (\<lambda>_.
     awhen (parked (r_state r)) (abind (transition E r RCancelled ''run.cancelled'' []) (\<lambda>_. aret ())))"

definition cancelled_approvals :: "json_ops \<Rightarrow> string \<Rightarrow> (nat \<Rightarrow> string) \<Rightarrow> json list \<Rightarrow> store_record list result" where
  "cancelled_approvals J rid now items =
     rbind (mapM (approval_from_json J) items) (\<lambda>approvals.
       Inr (map (\<lambda>(i, a). approval_record rid (a\<lparr>ap_decision := ''cancelled'', ap_decided_at := now i\<rparr>))
         (enumerate 0 (filter (\<lambda>a. ap_decision a = ''pending'') approvals))))"

text \<open>What is recorded before the children are cancelled.\<close>

definition announce_cancellation :: "runtime_env \<Rightarrow> string \<Rightarrow> run \<Rightarrow> run rt" where
  "announce_cancellation E rid r =
     (if re_coordinated E then
        abind (db_request_cancellation E rid) (\<lambda>_.
        abind (db_list E KNodeWork rid 10000 0) (\<lambda>records.
        abind (afor records (cancel_work E)) (\<lambda>_. aret r)))
      else
        abind (list_every E KApproval rid) (\<lambda>items.
        abind (draw (re_time E)) (\<lambda>now.
        abind (alift (cancelled_approvals (re_json E) rid now items)) (\<lambda>records.
        checkpoint E (r\<lparr>r_cancellation_requested := True\<rparr>) ''run.cancellation_requested'' records))))"

definition finish_cancellation :: "runtime_env \<Rightarrow> string \<Rightarrow> run \<Rightarrow> unit rt" where
  "finish_cancellation E rid r =
     look (\<lambda>w. if omap_contains (rt_active w) rid then cancel_active E rid r
      else if re_coordinated E then
        awhen (parked (r_state r)) (cancel_inactive E rid (r\<lparr>r_cancellation_requested := True\<rparr>))
      else abind (transition E r RCancelled ''run.cancelled'' []) (\<lambda>_. aret ()))"

text \<open>
  The first argument bounds the depth of the recursion into children. Each level visits another stored run,
  so one more than their number is enough. The runs visited and the worker jobs found are passed along.
\<close>

primrec cancel_locked :: "nat \<Rightarrow> runtime_env \<Rightarrow> string \<Rightarrow> string list \<times> string list \<Rightarrow> (string list \<times> string list) rt" where
  "cancel_locked 0 E rid vj = athrow Conflict ''Run cancellation cycle detected''"
| "cancel_locked (Suc levels) E rid vj =
     (case vj of (visited, jobs) \<Rightarrow>
        if rid \<in> set visited then athrow Conflict ''Run cancellation cycle detected''
        else
          abind (get_run E rid) (\<lambda>r.
          if terminal (r_state r) then athrow Conflict ''Run is already terminal''
          else
            abind (announce_cancellation E rid r) (\<lambda>r.
            abind (list_every E KRun []) (\<lambda>records.
            abind (alift (child_ids (re_json E) r rid records)) (\<lambda>children.
            abind (afold (\<lambda>child_id vj.
                     abind (get_run E child_id) (\<lambda>child.
                       if terminal (r_state child) then aret vj else cancel_locked levels E (r_id child) vj))
                     children (rid # visited, jobs)) (\<lambda>(visited, jobs).
            abind (open_worker_jobs E rid) (\<lambda>found.
            abind (finish_cancellation E rid r) (\<lambda>_.
            aret (visited, jobs @ found)))))))))"

definition cancel_jobs :: "runtime_env \<Rightarrow> string list \<Rightarrow> unit rt" where
  "cancel_jobs E jobs =
     awhen (re_has_workers E)
       (afor jobs (\<lambda>job.
          ignoring (abind (modify (\<lambda>w. w\<lparr>rt_worker_cancels := rt_worker_cancels w @ [job]\<rparr>)) (\<lambda>_.
                    abind (draw (\<lambda>n. re_cancel_job E n job)) alift))))"

definition cancel :: "runtime_env \<Rightarrow> string \<Rightarrow> unit rt" where
  "cancel E rid =
     look (\<lambda>w.
       abind (cancel_locked (Suc (length (sd_store (rt_db w) KRun))) E rid ([], [])) (\<lambda>(visited, jobs).
       cancel_jobs E jobs))"

section \<open>Reducing the context of a session\<close>

definition reduction_request_key :: "u64 \<Rightarrow> u64 \<Rightarrow> string \<Rightarrow> string" where
  "reduction_request_key expected_generation through input =
     ''auto-'' @ decimal (unat expected_generation) @ ''-'' @ decimal (unat through) @ ''-'' @
     hex_digits (unat (fnv1a input))"

text \<open>One turn of a page: it has to follow the last one, and the reducer's input is bounded.\<close>

definition take_turn :: "json_ops \<Rightarrow> nat \<Rightarrow> nat \<Rightarrow> json \<Rightarrow> nat \<times> nat \<times> json list \<Rightarrow> (nat \<times> nat \<times> json list) result" where
  "take_turn J through max_input turn acc =
     (case acc of (cursor, input_bytes, eligible) \<Rightarrow>
        rbind (jvalue (get_uint64 J) turn ''sequence'' 0) (\<lambda>sequence.
          if unat sequence \<noteq> Suc cursor \<or> unat sequence > through
          then throw Conflict ''Session history order changed during context reduction''
          else if \<not> dump_ok J turn then Inl JsonTypeError
          else if length (dump J turn) > max_input - min input_bytes max_input
          then throw Capacity ''Session history exceeds the context reducer input limit''
          else Inr (Suc cursor, input_bytes + length (dump J turn), eligible @ [turn])))"

text \<open>Every turn advances the cursor by one, so a page of \<open>n\<close> turns advances it by \<open>n\<close>.\<close>

function gather_turns :: "runtime_env \<Rightarrow> string \<Rightarrow> nat \<Rightarrow> nat \<Rightarrow> nat \<Rightarrow> json list \<Rightarrow> (nat \<times> json list) rt" where
  "gather_turns E session_id through cursor input_bytes eligible =
     (if \<not> cursor < through then aret (input_bytes, eligible)
      else
        abind (at_database E (\<lambda>n w. (session_turns_between (re_fault E n) session_id (of_nat cursor) (of_nat through) 128
                                       (rt_db w), w))) (\<lambda>batch.
        if batch = [] then athrow Conflict ''Session history changed during context reduction''
        else
          abind (alift (foldM (take_turn (re_json E) through (unat (rc_reduction_max_input_bytes (re_config E))))
                   batch (cursor, input_bytes, eligible))) (\<lambda>(_, input_bytes, eligible).
          gather_turns E session_id through (cursor + length batch) input_bytes eligible)))"
  by pat_completeness auto
termination
  by (relation "measure (\<lambda>(E, session_id, through, cursor, bytes, eligible). through - cursor)")
    (auto simp: length_greater_0_conv [symmetric] simp del: length_greater_0_conv)

declare gather_turns.simps [simp del]

definition call_reducer :: "runtime_env \<Rightarrow> reduction_request \<Rightarrow> reduction_result rt" where
  "call_reducer E request =
     abind (alift (re_reducer E (rc_reducer (re_config E)))) (\<lambda>reduce.
     abind (reads rt_reduction_stop) (\<lambda>stopped.
     abind (draw (\<lambda>n. (reduce n stopped request, re_expired E n))) (\<lambda>(res, expired).
     alift (case res of
              Inl (Error code _) \<Rightarrow> throw code ''Session context reduction failed''
            | Inl _ \<Rightarrow> throw Execution ''Session context reduction failed''
            | Inr result \<Rightarrow>
                if expired then throw Timeout ''Session context reduction failed'' else Inr result))))"

definition reduction_valid :: "json_ops \<Rightarrow> u64 \<Rightarrow> nat \<Rightarrow> reduction_result \<Rightarrow> bool result" where
  "reduction_valid J through target res =
     (if rr_representation_kind res = [] \<or> length (rr_representation_kind res) > 128 \<or>
         rr_representation_version res = [] \<or> length (rr_representation_version res) > 128 \<or>
         rr_through_turn_sequence res \<noteq> through \<or> \<not> is_object (rr_payload res)
      then Inr False
      else if \<not> dump_ok J (rr_payload res) then Inl JsonTypeError
      else Inr (length (dump J (rr_payload res)) \<le> target))"

definition reducer_input :: "runtime_env \<Rightarrow> session_context_generation option \<Rightarrow> json list \<Rightarrow> u64 \<Rightarrow> nat \<Rightarrow> json" where
  "reducer_input E previous eligible through target =
     jobject [(''previous_generation'', (case previous of None \<Rightarrow> JNull | Some g \<Rightarrow> context_generation_to_json g)),
              (''eligible_turns'', JArr eligible), (''through_turn_sequence'', JUInt (unat through)),
              (''reducer'', JStr (rc_reducer (re_config E))), (''reducer_config'', rc_reducer_config (re_config E)),
              (''target_payload_bytes'', JUInt target)]"

definition latest_generation :: "runtime_env \<Rightarrow> string \<Rightarrow> session_context_generation option rt" where
  "latest_generation E session_id =
     abind (at_database E (\<lambda>n w. (latest_session_context_generation (re_fault E n) session_id (rt_db w), w))) (\<lambda>body.
     case body of
       None \<Rightarrow> aret None
     | Some v \<Rightarrow>
         abind (draw (\<lambda>n. context_generation_from_json (re_json E) (re_uuid E n 0) (re_time E n 0) v)) (\<lambda>g.
         abind (alift g) (\<lambda>g. aret (Some g))))"

text \<open>
  One attempt for the turns up to \<open>through\<close>; \<open>again\<close> is what follows a lost race for the next generation.
\<close>

definition reduce_once :: "runtime_env \<Rightarrow> string \<Rightarrow> u64 \<Rightarrow> nat \<Rightarrow> (string \<Rightarrow> unit rt) \<Rightarrow> unit rt" where
  "reduce_once E session_id through current_input_bytes again =
     (let J = re_json E; cfg = re_config E; target = unat (rc_reduction_target_bytes cfg) in
      abind (latest_generation E session_id) (\<lambda>previous.
      let previous_generation = (case previous of None \<Rightarrow> 0 | Some g \<Rightarrow> cg_generation g);
          previous_boundary = (case previous of None \<Rightarrow> 0 | Some g \<Rightarrow> cg_through_turn_sequence g)
      in if previous_boundary \<ge> through then aret ()
         else
           abind (alift (case previous of
                    None \<Rightarrow> Inr 0
                  | Some g \<Rightarrow> if dump_ok J (cg_payload g) then Inr (length (dump J (cg_payload g))) else Inl JsonTypeError))
             (\<lambda>start_bytes.
           abind (gather_turns E session_id (unat through) (unat previous_boundary) start_bytes []) (\<lambda>(input_bytes, eligible).
           let effective_bytes = input_bytes + current_input_bytes; reduction_target = target - current_input_bytes in
           if effective_bytes \<le> target \<and> effective_bytes < unat (rc_reduction_threshold_bytes cfg) then aret ()
           else
             abind (call_reducer E
                \<lparr>cr_session_id = session_id, cr_previous_generation = previous, cr_eligible_turns = JArr eligible,
                 cr_through_turn_sequence = through, cr_target_payload_bytes = reduction_target,
                 cr_configuration = rc_reducer_config cfg\<rparr>) (\<lambda>res.
             abind (alift (reduction_valid J through reduction_target res)) (\<lambda>ok.
             if \<not> ok then athrow Validation ''Context reducer returned an invalid result''
             else
               abind (reads rt_reduction_stop) (\<lambda>stopped.
               if stopped then athrow Cancellation ''Session context reduction was cancelled''
               else
                 let input = reducer_input E previous eligible through reduction_target in
                 if \<not> dump_ok J input then alift (Inl JsonTypeError)
                 else
                   atry (db_session E (\<lambda>env. create_session_context_generation J env session_id previous_generation through
                           (reduction_request_key previous_generation through (dump J input))
                           (rr_representation_kind res) (rr_representation_version res) (rr_payload res)))
                     (\<lambda>_. aret ())
                     (\<lambda>code text. if code \<noteq> Conflict then athrow code text else again text))))))))"

definition reduce_session_context_if_needed :: "runtime_env \<Rightarrow> string \<Rightarrow> json \<Rightarrow> unit rt" where
  "reduce_session_context_if_needed E session_id current_turn =
     (let J = re_json E in
      if \<not> rc_reduction_enabled (re_config E) then aret ()
      else
        abind (reads rt_reduction_stop) (\<lambda>stopped.
        if stopped then athrow Cancellation ''Session context reduction was cancelled''
        else
          abind (alift (jvalue (get_uint64 J) current_turn ''sequence'' 0)) (\<lambda>current_sequence.
          abind (alift (jvalue Inr current_turn ''input'' JNull)) (\<lambda>input.
          if \<not> dump_ok J input then alift (Inl JsonTypeError)
          else if length (dump J input) \<ge> unat (rc_reduction_target_bytes (re_config E))
          then athrow Capacity ''Current turn exceeds the session context budget''
          else if current_sequence \<le> 1 then aret ()
          else
            let once = reduce_once E session_id (current_sequence - 1) (length (dump J input))
            in once (\<lambda>_. once (athrow Conflict))))))"

section \<open>Dispatching session turns\<close>

text \<open>An error with one of the given codes is expected, any other is passed on.\<close>

definition tolerating :: "error_code list \<Rightarrow> unit rt \<Rightarrow> unit rt" where
  "tolerating codes m = atry m aret (\<lambda>code text. if code \<in> set codes then aret () else athrow code text)"

definition get_session :: "runtime_env \<Rightarrow> string \<Rightarrow> agent_session rt" where
  "get_session E sid =
     abind (db_get E KAgentSession sid) (\<lambda>v.
     abind (draw (\<lambda>n. agent_session_from_json (re_json E) (re_uuid E n 0) (re_time E n 0) v)) alift)"

definition session_request :: "runtime_env \<Rightarrow> agent_session \<Rightarrow> json \<Rightarrow> string \<Rightarrow> u64 \<Rightarrow> run_request rt" where
  "session_request E session turn owner fence =
     abind (alift (jvalue (get_string (re_json E)) turn ''pipeline_id'' (as_pipeline_id session))) (\<lambda>pipeline_id.
     abind (reduce_session_context_if_needed E (as_id session) turn) (\<lambda>_.
     abind (draw (\<lambda>n. re_resolve E n pipeline_id)) (\<lambda>p.
     abind (alift p) (\<lambda>pipeline.
     abind (alift (jat turn ''input'')) (\<lambda>input.
     abind (alift (jget_at (get_string (re_json E)) turn ''id'')) (\<lambda>turn_id.
     aret \<lparr>rq_pipeline = pipeline, rq_input = input, rq_actor = ''session'', rq_parent_id = [],
           rq_parent_node_id = [], rq_subpipeline_depth = 0, rq_parent_message_id = [],
           rq_origin = jobject [], rq_message_metadata = jobject [], rq_session_id = as_id session,
           rq_session_turn_id = turn_id, rq_session_owner = owner, rq_session_fencing_token = fence\<rparr>))))))"

definition dispatch_claimed :: "runtime_env \<Rightarrow> agent_session \<Rightarrow> string \<Rightarrow> u64 \<Rightarrow> string \<Rightarrow> unit rt" where
  "dispatch_claimed E session owner fence expires_at =
     abind (new_event_now E) (\<lambda>claim_event.
     abind (db_session E (\<lambda>env. claim_next_session_turn (re_json E) env (as_id session) owner fence expires_at
                             (event_to_json claim_event))) (\<lambda>turn.
     case turn of
       None \<Rightarrow> aret ()
     | Some turn \<Rightarrow>
         abind (alift (jvalue (get_uint64 (re_json E)) turn ''dispatch_fencing_token'' 0)) (\<lambda>turn_fence.
         if re_coordinated E \<and> turn_fence \<noteq> fence then athrow Conflict ''Session claim fencing token changed''
         else
           abind (session_request E session turn owner fence) (\<lambda>q.
           abind (start_run E q) (\<lambda>_. aret ())))))"

text \<open>The lease of the dispatcher, when there are several, is given back however the dispatch ends.\<close>

definition dispatch_open :: "runtime_env \<Rightarrow> agent_session \<Rightarrow> unit rt" where
  "dispatch_open E session =
     abind (draw_time E) (\<lambda>now.
     if rc_execution_mode (re_config E) = ''multi_instance'' \<and> re_coordinated E then
       abind (take_lease E (''session:'' @ as_id session)) (\<lambda>lease.
       case lease of
         None \<Rightarrow> aret ()
       | Some lease \<Rightarrow>
           abind (acatch (dispatch_claimed E session (le_owner_instance lease) (le_fencing_token lease) (le_expires_at lease))
                    (\<lambda>e. abind (drop_lease E lease) (\<lambda>_. alift (Inl e)))) (\<lambda>_.
           drop_lease E lease))
     else dispatch_claimed E session (re_instance_id E) 0 now)"

definition dispatch_active :: "runtime_env \<Rightarrow> agent_session \<Rightarrow> unit rt" where
  "dispatch_active E session =
     awhen (\<not> re_coordinated E)
       (abind (get_run E (as_active_run_id session)) (\<lambda>active.
        awhen (r_state active = RQueued \<or> r_state active = RPaused)
          (tolerating [Conflict, Capacity] (resume E (r_id active)))))"

text \<open>The session's own identifier is that of its row.\<close>

definition dispatch_session :: "runtime_env \<Rightarrow> string \<Rightarrow> unit rt" where
  "dispatch_session E session_id =
     look (\<lambda>w. if session_id = [] \<or> rt_stopping w \<or> \<not> accepts_new_work w then aret ()
      else
        atry (get_session E session_id)
          (\<lambda>session.
             if as_state session = ''closing'' \<and> as_active_run_id session \<noteq> []
             then tolerating [Conflict, NotFound] (cancel E (as_active_run_id session))
             else if as_active_run_id session \<noteq> [] then dispatch_active E session
             else awhen (as_state session = ''open'') (dispatch_open E (session\<lparr>as_id := session_id\<rparr>)))
          (\<lambda>code text. if code = NotFound then aret () else athrow code text))"

definition dispatch_sessions :: "runtime_env \<Rightarrow> unit rt" where
  "dispatch_sessions E =
     abind (list_every E KAgentSession []) (\<lambda>records.
     afor records (\<lambda>record.
       acatch (abind (alift (jget_at (get_string (re_json E)) record ''id'')) (dispatch_session E)) (\<lambda>_. aret ())))"

section \<open>The end of an execution\<close>

definition fail_unhandled :: "runtime_env \<Rightarrow> bool \<Rightarrow> bool \<Rightarrow> run \<Rightarrow> run rt" where
  "fail_unhandled E failed ownership_lost ended =
     (if failed \<and> \<not> ownership_lost \<and> \<not> terminal (r_state ended) \<and> r_state ended \<noteq> RWaitingApproval \<and>
         r_state ended \<noteq> RPaused
      then transition E (ended\<lparr>r_error := ''Unhandled executor failure''\<rparr>) RFailed ''run.failed'' []
      else aret ended)"

definition resume_after_child :: "runtime_env \<Rightarrow> run \<Rightarrow> unit rt" where
  "resume_after_child E ended =
     look (\<lambda>w. if r_state ended = RPaused \<and> r_child_id ended \<noteq> [] \<and> \<not> rt_stopping w then
        abind (get_run E (r_child_id ended)) (\<lambda>child.
        awhen (terminal (r_state child)) (resume E (r_id ended)))
      else aret ())"

definition execution_ended :: "runtime_env \<Rightarrow> string \<Rightarrow> bool \<Rightarrow> unit rt" where
  "execution_ended E rid failed =
     look (\<lambda>w. let entry = map_of (rt_active w) rid;
          ownership_lost = (case entry of None \<Rightarrow> False | Some a \<Rightarrow> ac_ownership_lost a);
          lease = (case entry of None \<Rightarrow> None | Some a \<Rightarrow> ac_lease a)
      in abind (modify (\<lambda>w. w\<lparr>rt_active := omap_erase rid (rt_active w), rt_spawned := rt_spawned w @ [RunEnded rid]\<rparr>)) (\<lambda>_.
         acatch
           (abind (get_run E rid) (\<lambda>ended.
            abind (fail_unhandled E failed ownership_lost ended) (\<lambda>ended.
            abind (finish_parent E ended) (\<lambda>_.
            abind (resume_after_child E ended) (\<lambda>_.
            abind (case lease of
                     Some l \<Rightarrow> awhen (re_coordinated E) (abind (give_lease E l) (\<lambda>_. aret ()))
                   | None \<Rightarrow> aret ()) (\<lambda>_.
            look (\<lambda>w. awhen (\<not> rt_stopping w \<and> terminal (r_state ended) \<and> r_session_id ended \<noteq> [])
              (dispatch_sessions E))))))))
           (\<lambda>_. aret ())))"

section \<open>The service\<close>

definition set_maintenance_mode :: "maintenance_mode \<Rightarrow> unit rt" where
  "set_maintenance_mode mode = modify (\<lambda>w. w\<lparr>rt_mode := mode\<rparr>)"

definition mode_name :: "maintenance_mode \<Rightarrow> string" where
  "mode_name mode =
     (case mode of MActive \<Rightarrow> ''ACTIVE'' | MMaintenance \<Rightarrow> ''MAINTENANCE'' | MDraining \<Rightarrow> ''DRAINING'')"

definition start_distributed :: "runtime_env \<Rightarrow> string \<Rightarrow> unit rt" where
  "start_distributed E version =
     look (\<lambda>w. if rt_started w then aret ()
      else
        abind (modify (\<lambda>w. w\<lparr>rt_started := True\<rparr>)) (\<lambda>_.
        if \<not> re_coordinated E then dispatch_sessions E
        else
          abind (draw (re_capabilities E)) (\<lambda>capabilities.
          abind (alift capabilities) (\<lambda>capabilities.
          abind (at_database E (\<lambda>n w.
                   let (r, co) = register_instance (re_fault E n) (re_clock E n) version capabilities
                         (mode_name (rt_mode w)) (rt_client w) (rt_coord w)
                   in (r, w\<lparr>rt_coord := co\<rparr>))) (\<lambda>_.
          abind (if rc_execution_mode (re_config E) = ''multi_instance''
                 then abind (spawn ClaimLoop) (\<lambda>_. spawn SessionLoop)
                 else dispatch_sessions E) (\<lambda>_.
          spawn LeaseLoop))))))"

definition shutdown :: "runtime_env \<Rightarrow> unit rt" where
  "shutdown E =
     abind (modify (\<lambda>w. w\<lparr>rt_stopping := True, rt_reduction_stop := True\<rparr>)) (\<lambda>_.
     abind (look (\<lambda>w. awhen (re_coordinated E \<and> rt_started w)
              (ignoring (at_database E (\<lambda>n w.
                 let (r, co) = set_instance_state (re_fault E n) (re_clock E n) ''DRAINING'' (rt_client w) (rt_coord w)
                 in (r, w\<lparr>rt_coord := co\<rparr>)))))) (\<lambda>_.
     modify (\<lambda>w. w\<lparr>rt_active := map (\<lambda>(i, a). (i, a\<lparr>ac_stop := True\<rparr>)) (rt_active w),
                   rt_nodes := map (\<lambda>(i, a). (i, a\<lparr>an_stop := True\<rparr>)) (rt_nodes w)\<rparr>)))"

definition idle :: "runtime \<Rightarrow> bool" where
  "idle w \<longleftrightarrow> rt_active w = []"

definition runtime_diagnostics :: "runtime \<Rightarrow> nat \<times> nat \<times> bool" where
  "runtime_diagnostics w = (length (rt_active w), length (rt_nodes w), rt_stopping w)"

end
