(* ===== verification/Laso_Runtime_Loops.thy ===== *)
theory Laso_Runtime_Loops
  imports Laso_Runtime
begin

text \<open>
  The background loops of \<^verbatim>\<open>src/runtime/runtime.cpp\<close> in the multi-instance mode, each as the pass its coroutine
  makes between two waits: claiming runs and node work, renewing leases and the instance's heartbeat,
  reconciling node work whose worker job has ended. A pass runs without the mutex, which it takes for
  its accesses to the maps of active runs and nodes; the passes of one instance are the steps of one
  coroutine each.
\<close>

section \<open>Distributed branches\<close>

fun works_settled :: "runtime_env \<Rightarrow> string \<Rightarrow> json list \<Rightarrow> bool \<Rightarrow> bool rt" where
  "works_settled E gid [] found = aret found"
| "works_settled E gid (v # vs) found =
     abind (decode_node_work E v) (\<lambda>work.
       if w_group_id work \<noteq> gid then works_settled E gid vs found
       else if w_state work = WQueued \<or> w_state work = WRunning then aret False
       else works_settled E gid vs True)"

definition distributed_parallel_ready :: "runtime_env \<Rightarrow> run \<Rightarrow> bool rt" where
  "distributed_parallel_ready E r =
     (if r_pending_parallel_group r = [] then aret False
      else
        abind (db_list E KNodeWork (r_id r) 10000 0) (\<lambda>records.
        works_settled E (r_pending_parallel_group r) records False))"

section \<open>Claiming runs\<close>

definition claim_ready :: "runtime_env \<Rightarrow> run \<Rightarrow> bool rt" where
  "claim_ready E r =
     (if r_state r = RPaused \<and> r_pending_parallel_group r \<noteq> [] then distributed_parallel_ready E r
      else if r_state r = RPaused \<and> r_child_id r \<noteq> [] then
        abind (get_run E (r_child_id r)) (\<lambda>child. aret (terminal (r_state child)))
      else aret True)"

definition claimed_run :: "lease_record \<Rightarrow> run \<Rightarrow> run" where
  "claimed_run lease r =
     r\<lparr>r_state := RQueued, r_owner_instance_id := le_owner_instance lease,
       r_fencing_token := le_fencing_token lease, r_claimed_at := le_acquired_at lease,
       r_last_renewed_at := le_heartbeat_at lease, r_lease_expires_at := le_expires_at lease\<rparr>"

text \<open>
  The part after the lease is acquired. A failed \<^verbatim>\<open>schedule\<close> has taken the lease out of the variable the
  handler would release.
\<close>

definition claim_leased :: "runtime_env \<Rightarrow> string \<Rightarrow> lease_record \<Rightarrow> unit rt" where
  "claim_leased E rid lease =
     (let give = abind (give_lease E lease) (\<lambda>_. aret ()) in
      abind (get_run E rid) (\<lambda>r.
      if terminal (r_state r) \<or> r_state r = RWaitingApproval then give
      else
        abind (claim_ready E r) (\<lambda>ready.
        if \<not> ready then give
        else
          let r = claimed_run lease r in
          abind (db_commit_owned E [run_record r] (le_resource_key lease) (le_owner_instance lease)
                   (le_fencing_token lease)) (\<lambda>_. look (\<lambda>w.
          if rt_stopping w \<or> at_capacity E w then give
           else ignoring (schedule E r (Some lease)))))))"

text \<open>A candidate of the batch; \<open>False\<close> ends the batch.\<close>

definition claim_run :: "runtime_env \<Rightarrow> json \<Rightarrow> bool rt" where
  "claim_run E v =
     look (\<lambda>w. if \<not> accepts_new_work w then aret False
      else case run_from_json (re_json E) v of
        Inl JsonTypeError \<Rightarrow> aret True
      | Inl JsonOutOfRange \<Rightarrow> aret True
      | Inl e \<Rightarrow> alift (Inl e)
      | Inr r \<Rightarrow>
          if terminal (r_state r) \<or> r_state r = RWaitingApproval then aret True
          else
            abind (atry (claim_ready E r) aret (\<lambda>_ _. aret False)) (\<lambda>ready.
            if \<not> ready then aret True
            else look (\<lambda>w.
          if rt_stopping w \<or> at_capacity E w \<or> omap_contains (rt_active w) (r_id r) then aret False
               else
                 abind (atry (take_lease E (''run:'' @ r_id r)) aret (\<lambda>_ _. aret None)) (\<lambda>lease.
                 case lease of
                   None \<Rightarrow> aret True
                 | Some l \<Rightarrow>
                     atry (claim_leased E (r_id r) l) (\<lambda>_. aret True)
                       (\<lambda>_ _. abind (drop_lease E l) (\<lambda>_. aret True))))))"

fun claim_batch :: "(json \<Rightarrow> bool rt) \<Rightarrow> json list \<Rightarrow> unit rt" where
  "claim_batch f [] = aret ()"
| "claim_batch f (v # vs) = abind (f v) (\<lambda>go. if go then claim_batch f vs else aret ())"

section \<open>Claiming node work\<close>

fun first_slot :: "runtime_env \<Rightarrow> string \<Rightarrow> nat list \<Rightarrow> lease_record option rt" where
  "first_slot E prefix [] = aret None"
| "first_slot E prefix (slot # slots) =
     abind (take_lease E (prefix @ decimal slot)) (\<lambda>lease.
     case lease of Some l \<Rightarrow> aret (Some l) | None \<Rightarrow> first_slot E prefix slots)"

definition give_leases :: "runtime_env \<Rightarrow> lease_record list \<Rightarrow> unit rt" where
  "give_leases E ls = afor ls (\<lambda>l. abind (give_lease E l) (\<lambda>_. aret ()))"

text \<open>An error is the end of the attempt: what is held is released.\<close>

definition holding :: "runtime_env \<Rightarrow> lease_record list \<Rightarrow> unit rt \<Rightarrow> unit rt" where
  "holding E ls m = atry m aret (\<lambda>_ _. afor ls (drop_lease E))"

definition expire_attempt :: "runtime_env \<Rightarrow> node_work \<Rightarrow> store_record list rt" where
  "expire_attempt E work =
     (if w_state work = WRunning \<and> w_attempt_id work \<noteq> [] then
        atry (abind (db_get E KAttempt (w_attempt_id work)) (\<lambda>v. alift (node_execution_from_json (re_json E) v)))
          (\<lambda>previous.
             if x_state previous \<noteq> NRunning then aret []
             else
               abind (draw_time E) (\<lambda>now.
               aret [attempt_record (x_run_id previous)
                 (previous\<lparr>x_state := NFailed,
                           x_error := ''Distributed node work lease expired before attempt completed'',
                           x_finished_at := now\<rparr>)]))
          (\<lambda>code text. if code = NotFound then aret [] else athrow code text)
      else aret [])"

definition claimed_work :: "lease_record \<Rightarrow> string \<Rightarrow> string \<Rightarrow> node_work \<Rightarrow> node_work" where
  "claimed_work lease attempt_id now work =
     work\<lparr>w_state := WRunning, w_attempt := w_attempt work + 1, w_attempt_id := attempt_id,
          w_owner_instance_id := le_owner_instance lease, w_fencing_token := le_fencing_token lease,
          w_claimed_at := le_acquired_at lease, w_last_renewed_at := le_heartbeat_at lease,
          w_lease_expires_at := le_expires_at lease, w_updated_at := now\<rparr>"

definition commit_node_owned :: "runtime_env \<Rightarrow> store_record list \<Rightarrow> node_work \<Rightarrow> lease_record \<Rightarrow> unit rt" where
  "commit_node_owned E records work lease =
     db_commit_owned E records (''node:'' @ w_id work) (le_owner_instance lease) (le_fencing_token lease)"

definition start_node :: "node_work \<Rightarrow> lease_record \<Rightarrow> lease_record \<Rightarrow> lease_record \<Rightarrow> unit rt" where
  "start_node work work_lease global_slot run_slot =
     abind (modify (\<lambda>w. w\<lparr>rt_nodes := omap_put (w_id work)
              \<lparr>an_stop = False, an_work_lease = work_lease, an_global_slot = Some global_slot,
               an_run_slot = Some run_slot, an_ownership_lost = False\<rparr> (rt_nodes w)\<rparr>)) (\<lambda>_.
     spawn (ExecuteWork work work_lease (Some global_slot) (Some run_slot)))"

definition nodes_full :: "runtime_env \<Rightarrow> runtime \<Rightarrow> bool" where
  "nodes_full E w \<longleftrightarrow> length (rt_nodes w) \<ge> unat (rc_max_nodes (re_config E))"

definition claim_slotted :: "runtime_env \<Rightarrow> string \<Rightarrow> lease_record \<Rightarrow> lease_record \<Rightarrow> lease_record \<Rightarrow> unit rt" where
  "claim_slotted E wid work_lease global_slot run_slot =
     (let held = [run_slot, global_slot, work_lease] in
      abind (get_node_work E wid) (\<lambda>work.
      if node_work_terminal (w_state work) then give_leases E held
      else
        abind (expire_attempt E work) (\<lambda>expired.
        abind (draw_uuid E) (\<lambda>attempt_id.
        abind (draw_time E) (\<lambda>now.
        let work = claimed_work work_lease attempt_id now work in
        abind (commit_node_owned E (expired @ [work_record work]) work work_lease) (\<lambda>_. look (\<lambda>w.
          if rt_stopping w \<or> nodes_full E w then give_leases E held
         else if omap_contains (rt_nodes w) (w_id work) then athrow Conflict ''Node work is already executing''
         else start_node work work_lease global_slot run_slot)))))))"

definition claim_node_leased :: "runtime_env \<Rightarrow> node_work \<Rightarrow> lease_record \<Rightarrow> unit rt" where
  "claim_node_leased E work work_lease =
     holding E [work_lease]
       (abind (first_slot E ''node-slot:'' [0..<unat (rc_max_nodes (re_config E))]) (\<lambda>global_slot.
        case global_slot of
          None \<Rightarrow> give_leases E [work_lease]
        | Some g \<Rightarrow>
            holding E [g, work_lease]
              (abind (first_slot E (''run-node-slot:'' @ w_run_id work @ '':'')
                        [0..<unat (rc_max_nodes_per_run (re_config E))]) (\<lambda>run_slot.
               case run_slot of
                 None \<Rightarrow> give_leases E [g, work_lease]
               | Some s \<Rightarrow> holding E [s, g, work_lease] (claim_slotted E (w_id work) work_lease g s)))))"

text \<open>Work of a run that was cancelled is taken only to be wound up.\<close>

definition work_wanted :: "runtime_env \<Rightarrow> node_work \<Rightarrow> bool rt" where
  "work_wanted E work =
     abind (get_run E (w_run_id work)) (\<lambda>r.
     abind (draw (\<lambda>n. re_can_execute E n (w_required_worker_id work) (w_required_capability work))) (\<lambda>able.
     let cleanup = r_cancellation_requested r \<and> terminal (r_state r) \<and> w_state work = WRunning in
     aret (\<not> (\<not> cleanup \<and> re_has_workers E \<and> \<not> able) \<and>
           \<not> ((\<not> cleanup \<and> (terminal (r_state r) \<or> r_cancellation_requested r)) \<or>
              r_pending_parallel_group r \<noteq> w_group_id work))))"

definition claim_node :: "runtime_env \<Rightarrow> json \<Rightarrow> bool rt" where
  "claim_node E v =
     look (\<lambda>w. if \<not> accepts_new_work w then aret False
      else
        abind (atry (abind (decode_node_work E v) (\<lambda>work.
                     abind (work_wanted E work) (\<lambda>ok. aret (if ok then Some work else None))))
                 aret (\<lambda>_ _. aret None)) (\<lambda>wanted.
        case wanted of
          None \<Rightarrow> aret True
        | Some work \<Rightarrow> look (\<lambda>w.
          if rt_stopping w \<or> nodes_full E w \<or> omap_contains (rt_nodes w) (w_id work) then aret False
             else
               abind (atry (take_lease E (''node:'' @ w_id work)) aret (\<lambda>_ _. aret None)) (\<lambda>lease.
               case lease of
                 None \<Rightarrow> aret True
               | Some l \<Rightarrow> abind (claim_node_leased E work l) (\<lambda>_. aret True)))))"

text \<open>One pass of \<^verbatim>\<open>claim_loop\<close>.\<close>

definition claim_pass :: "runtime_env \<Rightarrow> unit rt" where
  "claim_pass E =
     look (\<lambda>w. let batch = unat (rc_claim_batch_size (re_config E)) in
      if rt_stopping w \<or> at_capacity E w \<or> \<not> accepts_new_work w then aret ()
      else
        atry (db_list E KRun [] batch 0)
          (\<lambda>candidates.
             abind (claim_batch (claim_run E) candidates) (\<lambda>_.
             atry (db_list E KNodeWork [] batch 0)
               (claim_batch (claim_node E))
               (\<lambda>_ _. aret ())))
          (\<lambda>_ _. aret ()))"

definition node_ended :: "runtime_env \<Rightarrow> string \<Rightarrow> unit rt" where
  "node_ended E wid =
     look (\<lambda>w. case map_of (rt_nodes w) wid of
        None \<Rightarrow> aret ()
      | Some a \<Rightarrow>
          abind (modify (\<lambda>w. w\<lparr>rt_nodes := omap_erase wid (rt_nodes w)\<rparr>)) (\<lambda>_.
          afor ((case an_run_slot a of None \<Rightarrow> [] | Some l \<Rightarrow> [l]) @
                (case an_global_slot a of None \<Rightarrow> [] | Some l \<Rightarrow> [l]) @ [an_work_lease a]) (drop_lease E)))"

section \<open>Reconciling ended worker jobs\<close>

fun find_attempt :: "json_ops \<Rightarrow> node_work \<Rightarrow> json list \<Rightarrow> node_execution option \<Rightarrow> node_execution option result" where
  "find_attempt J observed [] found = Inr found"
| "find_attempt J observed (v # vs) found =
     rbind (node_execution_from_json J v) (\<lambda>x.
       if x_node_id x \<noteq> w_node_id observed \<or> x_worker_job_id x = [] then find_attempt J observed vs found
       else if x_id x = w_attempt_id observed then Inr (Some x)
       else if w_attempt_id observed = [] \<and> x_state x = NRunning then find_attempt J observed vs (Some x)
       else find_attempt J observed vs found)"

definition job_outcome :: "worker_job_state \<Rightarrow> node_state" where
  "job_outcome s = (if s = JCancelled then NCancelled else if s = JTimedOut then NTimedOut else NFailed)"

definition end_attempt :: "worker_job \<Rightarrow> string \<Rightarrow> node_execution \<Rightarrow> node_execution" where
  "end_attempt job now x =
     (let s = job_outcome (wj_state job) in
      x\<lparr>x_state := s, x_finished_at := now,
        x_error := (if wj_error job \<noteq> [] then wj_error job
                    else if s = NTimedOut then ''Worker job timed out''
                    else if s = NCancelled then ''Worker job cancelled'' else ''Worker job failed'')\<rparr>)"

definition retry_allowed :: "runtime_env \<Rightarrow> run \<Rightarrow> node_work \<Rightarrow> node_execution \<Rightarrow> bool result" where
  "retry_allowed E r work x =
     (case re_parse E (r_definition r) of
        Inl (Error _ _) \<Rightarrow> Inr False
      | Inl e \<Rightarrow> Inl e
      | Inr p \<Rightarrow>
          Inr (case map_of (pl_nodes p) (w_node_id work) of
                 None \<Rightarrow> False
               | Some d \<Rightarrow> w_attempt work < rp_max_attempts (n_retry d) \<and> x_state x \<noteq> NCancelled \<and>
                   \<not> r_cancellation_requested r \<and> \<not> terminal (r_state r)))"

definition settle_work :: "run \<Rightarrow> node_execution \<Rightarrow> bool \<Rightarrow> string \<Rightarrow> node_work \<Rightarrow> node_work" where
  "settle_work r x retry now work =
     (if x_state x = NCancelled \<or> r_cancellation_requested r \<or> terminal (r_state r)
      then work\<lparr>w_state := WCancelled, w_error := ''Worker cancellation reconciled''\<rparr>
      else if retry
      then work\<lparr>w_state := WQueued, w_error := ''Worker attempt reconciled for retry'',
                w_owner_instance_id := [], w_lease_expires_at := [], w_claimed_at := [],
                w_last_renewed_at := [], w_attempt_id := [], w_fencing_token := 0\<rparr>
      else work\<lparr>w_state := WFailed, w_error := x_error x\<rparr>)\<lparr>w_updated_at := now\<rparr>"

definition settled_records :: "node_execution \<Rightarrow> node_work \<Rightarrow> store_record list" where
  "settled_records x work = [attempt_record (x_run_id x) x, work_record work]"

text \<open>After the commit the entry of the unwinding coroutine gives its leases back at once.\<close>

definition release_settled :: "runtime_env \<Rightarrow> string \<Rightarrow> lease_record \<Rightarrow> unit rt" where
  "release_settled E wid commit_lease =
     look (\<lambda>w. let entry = map_of (rt_nodes w) wid;
          old = (case entry of
                   None \<Rightarrow> []
                 | Some a \<Rightarrow> (case an_run_slot a of None \<Rightarrow> [] | Some l \<Rightarrow> [l]) @
                     (case an_global_slot a of None \<Rightarrow> [] | Some l \<Rightarrow> [l]) @ [an_work_lease a])
      in abind (modify (\<lambda>w. w\<lparr>rt_nodes := omap_erase wid (rt_nodes w)\<rparr>)) (\<lambda>_.
         abind (afor old (drop_lease E)) (\<lambda>_. drop_lease E commit_lease)))"

text \<open>The original lease has expired: the same resource is acquired again before the decision is written.\<close>

definition settle_with_new_lease ::
  "runtime_env \<Rightarrow> node_work \<Rightarrow> run \<Rightarrow> node_execution \<Rightarrow> bool \<Rightarrow> string \<Rightarrow> unit rt" where
  "settle_with_new_lease E observed r x retry wid =
     look (\<lambda>w. if \<not> accepts_new_work w then aret ()
      else
        abind (take_lease E (''node:'' @ wid)) (\<lambda>lease.
        case lease of
          None \<Rightarrow> aret ()
        | Some l \<Rightarrow>
            holding E [l]
              (abind (get_node_work E wid) (\<lambda>current.
               if w_state current \<noteq> WRunning \<or> w_attempt_id current \<noteq> w_attempt_id observed
               then abind (give_lease E l) (\<lambda>_. aret ())
               else
                 abind (draw_time E) (\<lambda>now.
                 abind (db_commit_owned E (settled_records x (settle_work r x retry now current))
                          (''node:'' @ w_id current) (le_owner_instance l) (le_fencing_token l)) (\<lambda>_.
                 release_settled E (w_id current) l))))))"

text \<open>Whether the node is still executing here is asked under the mutex, before anything is decided.\<close>

definition settle_terminal_worker ::
  "runtime_env \<Rightarrow> node_work \<Rightarrow> lease_record \<Rightarrow> run \<Rightarrow> node_execution \<Rightarrow> worker_job \<Rightarrow> node_work \<Rightarrow> unit rt" where
  "settle_terminal_worker E observed observed_lease r attempt job current =
     abind (draw_time E) (\<lambda>finished.
     let x = end_attempt job finished attempt in
     abind (alift (retry_allowed E r current x)) (\<lambda>retry.
     abind (draw_time E) (\<lambda>now.
     atry (db_commit_owned E (settled_records x (settle_work r x retry now current)) (''node:'' @ w_id current)
             (le_owner_instance observed_lease) (le_fencing_token observed_lease))
       (\<lambda>_. release_settled E (w_id current) observed_lease)
       (\<lambda>code text.
          if code \<noteq> Conflict \<or> \<not> re_coordinated E then aret ()
          else ignoring (settle_with_new_lease E observed r x retry (w_id current))))))"

definition reconcile_terminal_worker :: "runtime_env \<Rightarrow> node_work \<Rightarrow> lease_record \<Rightarrow> unit rt" where
  "reconcile_terminal_worker E observed observed_lease =
     (if \<not> re_has_workers E \<or> w_state observed \<noteq> WRunning then aret ()
      else
        atry (get_run E (w_run_id observed)) (\<lambda>r.
        atry (abind (db_list E KAttempt (w_run_id observed) 10000 0) (\<lambda>records.
              alift (find_attempt (re_json E) observed records None))) (\<lambda>found.
        case found of
          None \<Rightarrow> aret ()
        | Some attempt \<Rightarrow>
            atry (abind (draw (\<lambda>n. re_worker_job E n (x_worker_job_id attempt))) alift) (\<lambda>job.
            if \<not> worker_job_terminal (wj_state job) \<or> wj_state job = JCompleted then aret ()
            else
              atry (get_node_work E (w_id observed)) (\<lambda>current. look (\<lambda>w.
          if w_state current \<noteq> WRunning \<or> w_attempt_id current \<noteq> w_attempt_id observed \<or>
                  omap_contains (rt_nodes w) (w_id current) then aret ()
               else settle_terminal_worker E observed observed_lease r attempt job current))
              (\<lambda>_ _. aret ()))
            (\<lambda>_ _. aret ()))
        (\<lambda>_ _. aret ()))
        (\<lambda>_ _. aret ()))"

section \<open>Renewing leases\<close>

definition lose_node :: "string \<Rightarrow> unit rt" where
  "lose_node wid =
     modify (\<lambda>w. case map_of (rt_nodes w) wid of
                   None \<Rightarrow> w
                 | Some a \<Rightarrow> w\<lparr>rt_nodes := omap_put wid (a\<lparr>an_ownership_lost := True, an_stop := True\<rparr>) (rt_nodes w)\<rparr>)"

text \<open>Only an explicit refusal is the loss of ownership; a failure of the database is tried again.\<close>

definition renew_run :: "runtime_env \<Rightarrow> string \<times> lease_record \<Rightarrow> unit rt" where
  "renew_run E il =
     (case il of (rid, lease) \<Rightarrow>
        atry (renew_lease E lease)
          (\<lambda>(renewed, lease').
             if \<not> renewed then lose_ownership rid
             else update_active rid (\<lambda>a. if ac_lease a = None then a else a\<lparr>ac_lease := Some lease'\<rparr>))
          (\<lambda>code text. if code = Storage then aret () else lose_ownership rid))"

definition observe_node :: "runtime_env \<Rightarrow> string \<Rightarrow> lease_record \<Rightarrow> unit rt" where
  "observe_node E wid work_lease =
     abind (ignoring (abind (get_node_work E wid) (\<lambda>observed. reconcile_terminal_worker E observed work_lease))) (\<lambda>_.
     atry (abind (get_node_work E wid) (\<lambda>work. get_run E (w_run_id work)))
       (\<lambda>r. awhen (r_cancellation_requested r \<or> terminal (r_state r)) (stop_node wid))
       (\<lambda>code text. if code = Storage then aret () else lose_node wid))"

text \<open>The renewed lease, or the old one after a failure of the database, and whether it still holds.\<close>

definition renew_slot :: "runtime_env \<Rightarrow> lease_record \<Rightarrow> (bool \<times> lease_record) rt" where
  "renew_slot E lease =
     atry (renew_lease E lease) aret
       (\<lambda>code text. aret (code = Storage, lease))"

definition renew_optional :: "runtime_env \<Rightarrow> lease_record option \<Rightarrow> (bool \<times> lease_record option) rt" where
  "renew_optional E slot =
     (case slot of
        None \<Rightarrow> aret (True, None)
      | Some l \<Rightarrow> abind (renew_slot E l) (\<lambda>(ok, l'). aret (ok, Some l')))"

definition renew_node :: "runtime_env \<Rightarrow> string \<times> active_node \<Rightarrow> unit rt" where
  "renew_node E ia =
     (case ia of (wid, a) \<Rightarrow>
        abind (observe_node E wid (an_work_lease a)) (\<lambda>_.
        abind (renew_slot E (an_work_lease a)) (\<lambda>(ok1, work).
        abind (renew_optional E (an_global_slot a)) (\<lambda>(ok2, global).
        abind (renew_optional E (an_run_slot a)) (\<lambda>(ok3, slot).
        if \<not> (ok1 \<and> ok2 \<and> ok3) then lose_node wid
        else
          modify (\<lambda>w. case map_of (rt_nodes w) wid of
                        None \<Rightarrow> w
                      | Some b \<Rightarrow>
                          w\<lparr>rt_nodes := omap_put wid
                             (b\<lparr>an_work_lease := work,
                                an_global_slot := (if global = None then an_global_slot b else global),
                                an_run_slot := (if slot = None then an_run_slot b else slot)\<rparr>) (rt_nodes w)\<rparr>))))))"

text \<open>One pass of \<^verbatim>\<open>lease_loop\<close>, over the leases as they were when it began.\<close>

definition lease_pass :: "runtime_env \<Rightarrow> unit rt" where
  "lease_pass E =
     look (\<lambda>w. if rt_stopping w then aret ()
      else
        let leases = concat (map (\<lambda>(rid, a). case ac_lease a of None \<Rightarrow> [] | Some l \<Rightarrow> [(rid, l)]) (rt_active w));
            nodes = rt_nodes w;
            drained = rt_active w = [] \<and> rt_nodes w = [];
            state = (if rt_mode w = MDraining \<and> drained then ''DRAINED'' else mode_name (rt_mode w))
        in abind (ignoring (at_database E (\<lambda>n w.
                    let (r, co) = heartbeat_instance (re_fault E n) (re_clock E n) state (rt_client w) (rt_coord w)
                    in (rbind r (\<lambda>_. Inr ()), w\<lparr>rt_coord := co\<rparr>)))) (\<lambda>_.
           abind (afor leases (renew_run E)) (\<lambda>_.
           afor nodes (renew_node E))))"

text \<open>One round of \<^verbatim>\<open>session_loop\<close>.\<close>

definition session_pass :: "runtime_env \<Rightarrow> unit rt" where
  "session_pass E =
     look (\<lambda>w. if rt_stopping w then aret () else dispatch_sessions E)"

end
