(* ===== verification/Laso_Runtime_Invariant.thy ===== *)
theory Laso_Runtime_Invariant
  imports Laso_Runtime_Loops
begin

text \<open>
  What the operations of the runtime keep. The first part is about the state of the process: a predicate
  that looks only at the maps of active runs and nodes, the coroutines spawned and the flags
  (locale \<open>local_predicate\<close>) is kept by every operation as soon as it is kept by the four ways the maps
  change. Its instances are the bounds on what executes and a runtime that has been shut down.
\<close>

section \<open>Operations\<close>

text \<open>
  The calls of the service and of the loops, and the calls the executors make for the runs they execute.
\<close>

datatype runtime_op =
    StartRun run_request
  | Resume string
  | Cancel string
  | Decide string bool string string
  | ExecutionEnded string bool
  | NodeEnded string
  | ClaimPass
  | LeasePass
  | SessionPass
  | DispatchSession string
  | SetMode maintenance_mode
  | Start string
  | Shutdown
  | Checkpoint run string "store_record list"
  | Transition run run_state string "store_record list"
  | WaitApproval run node_definition string

definition runtime_step :: "runtime_env \<Rightarrow> runtime_op \<Rightarrow> runtime \<Rightarrow> runtime" where
  "runtime_step E op w =
     (case op of
        StartRun q \<Rightarrow> snd (start_run E q w)
      | Resume rid \<Rightarrow> snd (resume E rid w)
      | Cancel rid \<Rightarrow> snd (cancel E rid w)
      | Decide aid approve actor comment \<Rightarrow> snd (decide E aid approve actor comment w)
      | ExecutionEnded rid failed \<Rightarrow> snd (execution_ended E rid failed w)
      | NodeEnded wid \<Rightarrow> snd (node_ended E wid w)
      | ClaimPass \<Rightarrow> snd (claim_pass E w)
      | LeasePass \<Rightarrow> snd (lease_pass E w)
      | SessionPass \<Rightarrow> snd (session_pass E w)
      | DispatchSession sid \<Rightarrow> snd (dispatch_session E sid w)
      | SetMode mode \<Rightarrow> snd (set_maintenance_mode mode w)
      | Start version \<Rightarrow> snd (start_distributed E version w)
      | Shutdown \<Rightarrow> snd (shutdown E w)
      | Checkpoint r type records \<Rightarrow> snd (checkpoint E r type records w)
      | Transition r state type records \<Rightarrow> snd (transition E r state type records w)
      | WaitApproval r node reason \<Rightarrow> snd (wait_approval E r node reason w))"

section \<open>Predicates of the process\<close>

locale local_predicate =
  fixes E :: runtime_env and P :: "runtime \<Rightarrow> bool"
  assumes ignores:
      "P (w\<lparr>rt_db := db\<rparr>) = P w" "P (w\<lparr>rt_coord := co\<rparr>) = P w" "P (w\<lparr>rt_client := c\<rparr>) = P w"
      "P (w\<lparr>rt_tick := n\<rparr>) = P w" "P (w\<lparr>rt_published := es\<rparr>) = P w" "P (w\<lparr>rt_worker_cancels := js\<rparr>) = P w"
      "P (w\<lparr>rt_mode := m\<rparr>) = P w" "P (w\<lparr>rt_started := b\<rparr>) = P w" "P (w\<lparr>rt_reduction_stop := b\<rparr>) = P w"
    and change_run: "P w \<Longrightarrow> map_of (rt_active w) i = Some a \<Longrightarrow> P (w\<lparr>rt_active := omap_put i a' (rt_active w)\<rparr>)"
    and change_node: "P w \<Longrightarrow> map_of (rt_nodes w) i = Some x \<Longrightarrow> P (w\<lparr>rt_nodes := omap_put i x' (rt_nodes w)\<rparr>)"
    and add_run:
      "P w \<Longrightarrow> \<not> rt_stopping w \<Longrightarrow> \<not> at_capacity E w \<Longrightarrow> \<not> omap_contains (rt_active w) (r_id r) \<Longrightarrow>
       P (w\<lparr>rt_active := omap_put (r_id r) a (rt_active w), rt_spawned := rt_spawned w @ [Execute r]\<rparr>)"
    and add_node:
      "P w \<Longrightarrow> \<not> rt_stopping w \<Longrightarrow> \<not> nodes_full E w \<Longrightarrow> \<not> omap_contains (rt_nodes w) (w_id k) \<Longrightarrow>
       P (w\<lparr>rt_nodes := omap_put (w_id k) x (rt_nodes w), rt_spawned := rt_spawned w @ [ExecuteWork k l g s]\<rparr>)"
    and remove_run: "P w \<Longrightarrow> P (w\<lparr>rt_active := omap_erase i (rt_active w), rt_spawned := rt_spawned w @ [RunEnded i]\<rparr>)"
    and remove_node: "P w \<Longrightarrow> P (w\<lparr>rt_nodes := omap_erase i (rt_nodes w)\<rparr>)"
    and add_loop: "P w \<Longrightarrow> loop \<in> {ClaimLoop, LeaseLoop, SessionLoop} \<union> range LocalBranch \<Longrightarrow> P (w\<lparr>rt_spawned := rt_spawned w @ [loop]\<rparr>)"
    and stop_all:
      "P w \<Longrightarrow> P (w\<lparr>rt_active := map (\<lambda>(i, a). (i, a\<lparr>ac_stop := True\<rparr>)) (rt_active w),
                     rt_nodes := map (\<lambda>(i, a). (i, a\<lparr>an_stop := True\<rparr>)) (rt_nodes w)\<rparr>)"
    and stopping: "P w \<Longrightarrow> P (w\<lparr>rt_stopping := True\<rparr>)"
begin

lemma keeps_draw: "keeps P (draw f)"
  by (simp add: keeps_def draw_def ignores)

lemma keeps_database:
  assumes "\<And>n. keeps P (f n)"
  shows "keeps P (at_database E f)"
  using assms by (simp add: keeps_def at_database_def ignores Let_def split: prod.split)

lemma keeps_call:
  "keeps P (db_get E kind rid)" "keeps P (db_list E kind run_id limit offset)" "keeps P (db_commit E records)"
  "keeps P (db_commit_owned E records key owner fence)" "keeps P (db_request_cancellation E rid)"
  "keeps P (db_session E f)" "keeps P (take_lease E res)" "keeps P (renew_lease E lease)"
  "keeps P (give_lease E lease)" "keeps P (lease_is_current E lease)"
  unfolding db_get_def db_list_def db_commit_def db_commit_owned_def db_request_cancellation_def db_session_def
    take_lease_def renew_lease_def give_lease_def lease_is_current_def
  by (rule keeps_database, simp add: keeps_def set_store_def ignores Let_def split: prod.split)+

lemma keeps_local:
  "keeps P (publish e)" "keeps P (update_active i f)" "keeps P (stop_node i)" "keeps P (lose_node i)"
  "keeps P (lose_ownership i)" "keeps P (request_stop i)"
  by (auto simp: keeps_def publish_def update_active_def stop_node_def lose_node_def lose_ownership_def request_stop_def
      modify_def ignores split: option.split intro: change_run change_node)

lemmas keeps_parts = keeps_rules keeps_draw keeps_call keeps_local

lemma keeps_readers:
  "keeps P (draw_uuid E)" "keeps P (draw_time E)" "keeps P (drop_lease E l)" "keeps P (get_run E rid)"
  "keeps P (get_approval E rid)" "keeps P (decode_node_work E v)" "keeps P (get_node_work E rid)"
  "keeps P (new_event_now E)" "keeps P (draw_approval E)" "keeps P (draw_attempt E)" "keeps P (get_session E sid)"
  unfolding draw_uuid_def draw_time_def drop_lease_def get_run_def get_approval_def decode_node_work_def
    get_node_work_def new_event_now_def draw_approval_def draw_attempt_def get_session_def
  by (intro keeps_parts)+

lemma keeps_list_from: "keeps P (list_from E kind run_id offset)"
proof (induction offset rule: measure_induct_rule [of "\<lambda>offset. 100010000 - offset"])
  case (less offset)
  show ?case
    by (subst list_from.simps) (intro keeps_parts less, auto)
qed

lemma keeps_list_every: "keeps P (list_every E kind run_id)"
  unfolding list_every_def by (rule keeps_list_from)

lemmas keeps_basic = keeps_parts keeps_readers keeps_list_every

lemma keeps_checkpoint: "keeps P (checkpoint E r type records)"
  unfolding checkpoint_def store_checkpoint_def settle_continuations_def merge_cancellation_def commit_checkpoint_def Let_def
  by (intro keeps_basic)

lemma keeps_transition: "keeps P (transition E r s type records)"
  unfolding transition_def by (intro keeps_basic keeps_checkpoint)

lemma keeps_schedule: "keeps P (schedule E r lease)"
  unfolding schedule_def
  by (rule keepsI) (auto simp: look_def athrow_def alift_def abind_def modify_def spawn_def intro: add_run)

lemmas keeps_writers = keeps_basic keeps_checkpoint keeps_transition keeps_schedule

lemma keeps_check_pending: "keeps P (check_pending E offset pending)"
proof (induction offset arbitrary: pending rule: measure_induct_rule [of "\<lambda>offset. 100001000 - offset"])
  case (less offset)
  show ?case
    by (subst check_pending.simps) (intro keeps_parts less, auto)
qed

lemma keeps_start_run: "keeps P (start_run E q)"
  unfolding start_run_def admit_continuation_def check_request_def make_run_def bind_run_def Let_def
  by (intro keeps_writers keeps_check_pending)

lemma keeps_resume: "keeps P (resume E rid)"
  unfolding resume_def approved_def by (intro keeps_writers)

lemma keeps_finish_parent: "keeps P (finish_parent E child)"
  unfolding finish_parent_def by (intro keeps_writers keeps_resume)

lemma keeps_decide: "keeps P (decide E rid approve actor comment)"
  unfolding decide_def apply_decision_def Let_def by (intro keeps_writers keeps_finish_parent)

lemma keeps_wait_approval: "keeps P (wait_approval E r node reason)"
  unfolding wait_approval_def Let_def by (intro keeps_writers)

lemma keeps_cancel_parts:
  "keeps P (announce_cancellation E rid r)" "keeps P (finish_cancellation E rid r)" "keeps P (open_worker_jobs E rid)"
  unfolding announce_cancellation_def cancel_work_def finish_cancellation_def cancel_active_def cancel_inactive_def
    open_worker_jobs_def
  by (intro keeps_writers)+

lemma keeps_cancel_locked: "keeps P (cancel_locked levels E rid vj)"
proof (induction levels arbitrary: rid vj)
  case (Suc levels)
  show ?case
    unfolding cancel_locked.simps by (intro keeps_writers keeps_cancel_parts Suc)
qed (simp add: keeps_rules)

lemma keeps_cancel: "keeps P (cancel E rid)"
  unfolding cancel_def cancel_jobs_def
  by (intro keeps_writers keeps_cancel_locked keeps_modify) (simp add: ignores)

lemma keeps_gather_turns: "keeps P (gather_turns E sid through cursor bytes eligible)"
proof (induction cursor arbitrary: bytes eligible rule: measure_induct_rule [of "\<lambda>cursor. through - cursor"])
  case (less cursor)
  have page: "keeps P (at_database E (\<lambda>n w. (f n w, w)))" for f :: "nat \<Rightarrow> runtime \<Rightarrow> 'b result"
    by (rule keeps_database) (simp add: keeps_def)
  show ?case
    by (subst gather_turns.simps) (intro keeps_writers page less, auto simp: diff_less_mono2)
qed

lemma keeps_reduce: "keeps P (reduce_session_context_if_needed E sid turn)"
proof -
  have "keeps P (latest_generation E sid)"
    unfolding latest_generation_def by (intro keeps_writers keeps_database) (simp add: keeps_def)
  then have once: "keeps P (reduce_once E sid through bytes again)" if "\<And>t. keeps P (again t)" for through bytes again
    unfolding reduce_once_def call_reducer_def Let_def using that by (intro keeps_writers keeps_gather_turns)
  show ?thesis
    unfolding reduce_session_context_if_needed_def Let_def by (intro keeps_writers once)
qed

lemma keeps_dispatch_session: "keeps P (dispatch_session E sid)"
  unfolding dispatch_session_def tolerating_def dispatch_active_def dispatch_open_def dispatch_claimed_def session_request_def
  by (intro keeps_writers keeps_cancel keeps_resume keeps_start_run keeps_reduce)

lemma keeps_dispatch_sessions: "keeps P (dispatch_sessions E)"
  unfolding dispatch_sessions_def by (intro keeps_writers keeps_dispatch_session)

lemma keeps_execution_ended: "keeps P (execution_ended E rid failed)"
  unfolding execution_ended_def fail_unhandled_def resume_after_child_def Let_def
  by (intro keeps_writers keeps_finish_parent keeps_resume keeps_dispatch_sessions keeps_modify) (simp add: remove_run)

lemma keeps_spawn_loop: "loop \<in> {ClaimLoop, LeaseLoop, SessionLoop} \<union> range LocalBranch \<Longrightarrow> keeps P (spawn loop)"
  unfolding spawn_def by (rule keeps_modify) (rule add_loop)

lemma keeps_service:
  "keeps P (set_maintenance_mode mode)" "keeps P (start_distributed E version)" "keeps P (shutdown E)"
proof -
  show "keeps P (set_maintenance_mode mode)"
    unfolding set_maintenance_mode_def by (rule keeps_modify) (simp add: ignores)
  show "keeps P (start_distributed E version)"
    unfolding start_distributed_def
    by (intro keeps_writers keeps_dispatch_sessions keeps_spawn_loop keeps_modify keeps_database)
      (auto simp: keeps_def ignores Let_def split: prod.split)
  show "keeps P (shutdown E)"
    unfolding shutdown_def
    by (intro keeps_writers keeps_modify keeps_database)
      (auto simp: keeps_def ignores Let_def stop_all split: prod.split intro: stopping)
qed

lemma keeps_claim_batch: "(\<And>v. keeps P (f v)) \<Longrightarrow> keeps P (claim_batch f vs)"
  by (induction vs) (auto intro!: keeps_rules)

lemma keeps_ready: "keeps P (works_settled E gid vs found)" "keeps P (claim_ready E r)"
proof -
  show works: "keeps P (works_settled E gid vs found)" for gid vs found
    by (induction vs arbitrary: found) (auto intro!: keeps_writers)
  show "keeps P (claim_ready E r)"
    unfolding claim_ready_def distributed_parallel_ready_def by (intro keeps_writers works)
qed

lemma keeps_claim_run: "keeps P (claim_run E v)"
proof -
  have "keeps P (claim_leased E rid lease)" for rid lease
    unfolding claim_leased_def Let_def by (intro keeps_writers keeps_ready)
  then show ?thesis
    unfolding claim_run_def by (auto intro!: keeps_writers keeps_ready split: sum.split exn.split)
qed

lemma keeps_first_slot: "keeps P (first_slot E prefix slots)"
  by (induction slots) (auto intro!: keeps_writers)

lemma keeps_holding: "keeps P m \<Longrightarrow> keeps P (holding E ls m)"
  unfolding holding_def by (intro keeps_writers)

lemma keeps_give_leases: "keeps P (give_leases E ls)"
  unfolding give_leases_def by (intro keeps_writers)

lemma keeps_claim_node: "keeps P (claim_node E v)"
proof -
  have start: "keeps P (look (\<lambda>w. if rt_stopping w \<or> nodes_full E w then m
      else if omap_contains (rt_nodes w) (w_id k) then athrow c t else start_node k l g s))" if "keeps P m" for m k l g s c t
    using that by (auto simp: keeps_def look_def athrow_def alift_def start_node_def abind_def modify_def spawn_def intro: add_node)
  have "keeps P (claim_slotted E wid l g s)" for wid l g s
    unfolding claim_slotted_def expire_attempt_def commit_node_owned_def Let_def
    by (intro keeps_writers keeps_give_leases start)
  then have "keeps P (claim_node_leased E k l)" for k l
    unfolding claim_node_leased_def by (intro keeps_writers keeps_holding keeps_first_slot keeps_give_leases)
  then show ?thesis
    unfolding claim_node_def work_wanted_def Let_def by (intro keeps_writers)
qed

lemma keeps_claim_pass: "keeps P (claim_pass E)"
  unfolding claim_pass_def Let_def by (intro keeps_writers keeps_claim_batch keeps_claim_run keeps_claim_node)

lemma keeps_node_ended: "keeps P (node_ended E wid)"
  unfolding node_ended_def by (intro keeps_writers keeps_modify) (simp add: remove_node)

lemma keeps_reconcile: "keeps P (reconcile_terminal_worker E observed lease)"
proof -
  have "keeps P (release_settled E wid l)" for wid l
    unfolding release_settled_def Let_def by (intro keeps_writers keeps_modify) (simp add: remove_node)
  then have "keeps P (settle_terminal_worker E k l r x job cur)" for k l r x job cur
    unfolding settle_terminal_worker_def settle_with_new_lease_def Let_def by (intro keeps_writers keeps_holding)
  then show ?thesis
    unfolding reconcile_terminal_worker_def by (intro keeps_writers)
qed

lemma keeps_renew_node: "keeps P (renew_node E ia)"
  unfolding renew_node_def renew_slot_def renew_optional_def observe_node_def
  by (intro keeps_writers keeps_reconcile keeps_modify) (auto split: option.split intro: change_node)

lemma keeps_lease_pass: "keeps P (lease_pass E)"
proof -
  have beat: "keeps P (at_database E (\<lambda>n w. let (r, co) = f n w in (g r, w\<lparr>rt_coord := co\<rparr>)))" for f g
    by (rule keeps_database) (simp add: keeps_def ignores Let_def split: prod.split)
  have "keeps P (renew_run E il)" for il
    unfolding renew_run_def by (intro keeps_writers)
  then show ?thesis
    unfolding lease_pass_def Let_def by (intro keeps_writers keeps_renew_node beat [unfolded Let_def])
qed

lemma step_kept: "P w \<Longrightarrow> P (runtime_step E op w)"
  unfolding runtime_step_def
  by (cases op) (auto intro: keepsD keeps_start_run keeps_resume keeps_cancel keeps_decide keeps_execution_ended
      keeps_node_ended keeps_claim_pass keeps_lease_pass keeps_dispatch_session keeps_service keeps_checkpoint
      keeps_transition keeps_wait_approval keeps_look keeps_rules keeps_dispatch_sessions simp: session_pass_def)

lemma history_kept: "P w \<Longrightarrow> P (fold (runtime_step E) ops w)"
  by (induction ops arbitrary: w) (simp_all add: step_kept)

end

end
