(* ===== verification/Laso_Rows.thy ===== *)
theory Laso_Rows
  imports Laso_Storage
begin

text \<open>
  The rows of the store as the invariants of its clients see them: what reading returns is a row, what
  writing does to the rows of one identifier, and which results are not the error of a missing record.
\<close>

section \<open>Reading\<close>

lemma lookup_row: "lookup st kind rid = Some v \<Longrightarrow> \<exists>row \<in> set (st kind). row_id row = rid \<and> row_body row = v"
  by (auto simp: lookup_def find_row_def find_Some_iff)

lemma get_record_row: "get_record fault kind rid st = Inr v \<Longrightarrow> lookup st kind rid = Some v"
  by (auto simp: get_record_def in_transaction_def split: option.splits)

lemma list_records_row: "list_records fault kind run_id limit offset st = Inr vs \<Longrightarrow> v \<in> set vs \<Longrightarrow> v \<in> row_body ` set (st kind)"
  by (auto simp: list_records_def in_transaction_def split: if_splits option.splits dest!: in_set_takeD in_set_dropD)

section \<open>The rows of one identifier\<close>

text \<open>There is a row with the identifier, its body is good, and no other row claims the identifier.\<close>

definition row_good :: "record_kind \<Rightarrow> string \<Rightarrow> (json \<Rightarrow> string option) \<Rightarrow> (json \<Rightarrow> bool) \<Rightarrow> store \<Rightarrow> bool" where
  "row_good kind rid ident good st \<longleftrightarrow>
     (\<exists>row \<in> set (st kind). row_id row = rid) \<and>
     (\<forall>row \<in> set (st kind). (row_id row = rid \<longrightarrow> good (row_body row)) \<and>
                            (ident (row_body row) = Some rid \<longrightarrow> row_id row = rid))"

definition record_good :: "record_kind \<Rightarrow> string \<Rightarrow> (json \<Rightarrow> string option) \<Rightarrow> (json \<Rightarrow> bool) \<Rightarrow> store_record \<Rightarrow> bool" where
  "record_good kind rid ident good rec \<longleftrightarrow>
     (sr_kind rec = kind \<longrightarrow> (sr_id rec = rid \<longrightarrow> good (sr_value rec)) \<and>
                             (ident (sr_value rec) = Some rid \<longrightarrow> sr_id rec = rid))"

lemma upsert_rows:
  "row \<in> set (upsert rec st kind) \<Longrightarrow>
   row \<in> set (st kind) \<or> (sr_kind rec = kind \<and> row_id row = sr_id rec \<and> row_body row = sr_value rec)"
  by (auto simp: upsert_def Let_def split: if_splits)

lemma upsert_ids: "row \<in> set (st kind) \<Longrightarrow> \<exists>row' \<in> set (upsert rec st kind). row_id row' = row_id row"
  by (rule bexI [of _ "if sr_kind rec = kind \<and> find_row st kind (sr_id rec) \<noteq> None \<and> row_id row = sr_id rec
        then \<lparr>row_id = sr_id rec, row_run_id = sr_run_id rec, row_body = sr_value rec\<rparr> else row"])
    (auto simp: upsert_def Let_def)

lemma upsert_good:
  assumes "row_good kind rid ident good st" and "record_good kind rid ident good rec"
  shows "row_good kind rid ident good (upsert rec st)"
proof -
  from assms(1) obtain row where "row \<in> set (st kind)" "row_id row = rid" by (auto simp: row_good_def)
  with upsert_ids [of row st kind rec] have "\<exists>row \<in> set (upsert rec st kind). row_id row = rid" by simp
  with assms upsert_rows [of _ rec st kind] show ?thesis
    unfolding row_good_def record_good_def by metis
qed

lemma found_row:
  assumes "row_good kind rid ident good st"
  obtains v where "lookup st kind rid = Some v" "good v"
proof -
  from assms obtain row where "find (\<lambda>row. row_id row = rid) (st kind) = Some row"
    unfolding row_good_def by (meson find_None_iff not_None_eq)
  with assms that [of "row_body row"] show ?thesis
    by (auto simp: row_good_def lookup_def find_row_def find_Some_iff)
qed

lemma row_good_unrelated: "row_good kind rid ident good st \<Longrightarrow> st' kind = st kind \<Longrightarrow> row_good kind rid ident good st'"
  by (simp add: row_good_def)

lemma row_good_single:
  "row_good kind rid ident good (upsert rec empty_store) \<longleftrightarrow> sr_kind rec = kind \<and> sr_id rec = rid \<and> good (sr_value rec)"
  by (auto simp: row_good_def upsert_def empty_store_def Let_def find_row_def)

section \<open>Missing records\<close>

text \<open>
  A missing record is told from every other failure by the code \<open>NotFound\<close>. The conversions of the JSON library
  throw its own exceptions (\<open>library_errors\<close>), so decoding a record never looks like its absence.
\<close>

definition library_errors :: "json_ops \<Rightarrow> bool" where
  "library_errors J \<longleftrightarrow>
     (\<forall>v t. get_string J v \<noteq> throw NotFound t) \<and> (\<forall>v t. get_bool J v \<noteq> throw NotFound t) \<and>
     (\<forall>v t. get_unsigned J v \<noteq> throw NotFound t) \<and> (\<forall>v t. get_uint64 J v \<noteq> throw NotFound t) \<and>
     (\<forall>v t. get_double J v \<noteq> throw NotFound t)"

definition not_missing :: "'a result \<Rightarrow> bool" where
  "not_missing r \<longleftrightarrow> (\<forall>t. r \<noteq> throw NotFound t)"

named_theorems present_rules \<open>results that are not a missing record\<close>

lemma found_Inr [present_rules]: "not_missing (Inr x)"
  by (simp add: not_missing_def)

lemma found_throw [present_rules]: "c \<noteq> NotFound \<Longrightarrow> not_missing (throw c t)"
  by (simp add: not_missing_def)

lemma found_rbind [present_rules]: "not_missing r \<Longrightarrow> (\<And>x. not_missing (f x)) \<Longrightarrow> not_missing (rbind r f)"
  by (auto simp: not_missing_def rbind_def split: sum.split)

lemma found_if [present_rules]: "not_missing x \<Longrightarrow> not_missing y \<Longrightarrow> not_missing (if b then x else y)"
  by simp

lemma found_jat [present_rules]: "not_missing (jat j k)"
  by (simp add: not_missing_def jat_def split: json.split option.split)

lemma found_mapM: "(\<And>x. not_missing (f x)) \<Longrightarrow> not_missing (mapM f xs)"
  by (induction xs) (auto intro!: present_rules)

lemma found_jget_at [present_rules]: "(\<And>v. not_missing (f v)) \<Longrightarrow> not_missing (jget_at f j k)"
  by (auto simp: jget_at_def intro!: present_rules)

lemma found_jvalue [present_rules]: "(\<And>v. not_missing (f v)) \<Longrightarrow> not_missing (jvalue f j k d)"
  by (auto simp: jvalue_def not_missing_def split: json.split option.split)

lemma found_library [present_rules]: "not_missing (Inl JsonTypeError)" "not_missing (Inl JsonOutOfRange)"
  by (simp_all add: not_missing_def)

lemma found_list [present_rules]: "(\<And>v. not_missing (f v)) \<Longrightarrow> not_missing (get_list f j)"
  by (auto simp: get_list_def intro!: found_mapM present_rules split: json.split)

lemma found_smap [present_rules]: "(\<And>v. not_missing (f v)) \<Longrightarrow> not_missing (get_smap f j)"
  by (auto simp: get_smap_def intro!: found_mapM present_rules split: json.split prod.split)

lemma found_umap: "(\<And>v. not_missing (f v)) \<Longrightarrow> (\<And>v. not_missing (get_unsigned J v)) \<Longrightarrow> not_missing (get_umap J f j)"
  unfolding get_umap_def by (intro present_rules) (auto intro!: present_rules split: json.split list.split)

end
