(* ===== verification/Laso_Runtime_Records.thy ===== *)
theory Laso_Runtime_Records
  imports Laso_Runtime_Invariant Laso_Rows
begin

text \<open>
  What the operations of an instance that has the database for itself keep of the stored runs and
  approvals. The locale \<open>stored_predicate\<close> asks which records may be written: a new one, or the
  successor of one that was read and is still open. Every operation writes only those.
\<close>

section \<open>The session transactions and the store\<close>

lemma claim_turn_store:
  assumes "kind \<noteq> KAgentSession"
  shows "sd_store (snd (claim_next_session_turn J env sid owner fence expires event db)) kind = sd_store db kind"
proof -
  have dispatch: "sd_store db' kind = sd_store db kind"
    if "dispatch_turn J env sid owner f expires event session turn db = Inr (turn', db')" for f session turn turn' db'
    using that assms
    by (auto simp: dispatch_turn_def Let_def elim!: rbindE dest!: put_turn_store append_event_store put_session_store)
  show ?thesis
    unfolding claim_next_session_turn_def
    by (rule guarded_transaction [where P = "\<lambda>db'. sd_store db' kind = sd_store db kind"])
      (auto simp: Let_def elim!: rbindE dest!: dispatch split: if_splits selection.splits)
qed

lemma create_generation_store:
  assumes "kind \<noteq> KSessionContextGeneration"
  shows "sd_store (snd (create_session_context_generation J env sid gen through key kind' version payload db)) kind =
    sd_store db kind"
proof -
  have extend: "sd_store db' kind = sd_store db kind"
    if "extend_generation J env sid gen through key kind' version payload db = Inr (v, db')" for v db'
    using that assms
    by (auto simp: extend_generation_def insert_generation_def Let_def upsert_def elim!: rbindE split: if_splits)
  show ?thesis
    unfolding create_session_context_generation_def
    by (rule guarded_transaction [where P = "\<lambda>db'. sd_store db' kind = sd_store db kind"])
      (auto elim!: rbindE dest!: extend split: if_splits option.splits)
qed

text \<open>Completing and binding write a batch of records and otherwise touch the session's own rows.\<close>

lemma commit_session_run_store:
  obtains "snd (commit_session_run J env records owner fence e db) = db"
  | st where "write_records J (se_fresh env 0) (se_now env 0) (se_now env 0) records (sd_store db) = Inr st"
    and "\<And>kind. kind \<noteq> KAgentSession \<Longrightarrow> sd_store (snd (commit_session_run J env records owner fence e db)) kind = st kind"
proof -
  let ?written = "\<lambda>db'. \<exists>st. write_records J (se_fresh env 0) (se_now env 0) (se_now env 0) records (sd_store db) = Inr st \<and>
      (\<forall>kind. kind \<noteq> KAgentSession \<longrightarrow> sd_store db' kind = st kind)"
  have complete: "?written db'" if "complete_turn J env records r e session turn db = Inr db'" for r session turn db'
    using that
    by (auto simp: complete_turn_def Let_def elim!: rbindE split: if_splits
        dest!: put_turn_store append_event_store put_session_store [rotated])
  let ?P = "\<lambda>db'. ?written db' \<or> db' = db"
  have "?P (snd (commit_session_run J env records owner fence e db))"
  proof (cases "find (\<lambda>r. sr_kind r = KRun) records")
    case (Some rec)
    show ?thesis
    proof (cases "run_from_json J (sr_value rec)")
      case (Inr r)
      show ?thesis
        unfolding commit_session_run_def Some Inr option.case sum.case
        by (intro snd_if [where P = ?P] transaction_rule [where P = ?P])
          (auto simp: Let_def elim!: rbindE dest!: complete split: option.splits if_splits)
    qed (simp add: commit_session_run_def Some)
  qed (simp add: commit_session_run_def)
  then show thesis using that by blast
qed

lemma run_from_json_fields:
  assumes "run_from_json J j = Inr r"
  shows "jget_at (get_string J) j ''id'' = Inr (r_id r)"
    and "jget_at run_state_from_json j ''state'' = Inr (r_state r)"
    and "jget_at (get_bool J) j ''cancellation_requested'' = Inr (r_cancellation_requested r)"
proof -
  show "jget_at (get_string J) j ''id'' = Inr (r_id r)"
    using assms unfolding run_from_json_def by (elim rbindE) clarsimp
  show "jget_at run_state_from_json j ''state'' = Inr (r_state r)"
    using assms unfolding run_from_json_def by (elim rbindE) clarsimp
  show "jget_at (get_bool J) j ''cancellation_requested'' = Inr (r_cancellation_requested r)"
    using assms unfolding run_from_json_def by (elim rbindE) clarsimp
qed

lemma run_json_reads:
  assumes "json_ops_ok J"
  shows "jget_at (get_string J) (run_to_json r) ''id'' = Inr (r_id r)"
    and "jget_at run_state_from_json (run_to_json r) ''state'' = Inr (r_state r)"
    and "jget_at (get_bool J) (run_to_json r) ''cancellation_requested'' = Inr (r_cancellation_requested r)"
  using assms by (simp_all only: jget_at_jat [OF run_lookup(1)] jget_at_jat [OF run_lookup(36)] jget_at_jat [OF run_lookup(37)]
      run_state_codec json_ops_ok_def)

lemma run_json_fields:
  assumes "json_ops_ok J" and "run_from_json J (run_to_json r) = Inr r'"
  shows "r_id r' = r_id r" and "r_state r' = r_state r" and "r_cancellation_requested r' = r_cancellation_requested r"
  using run_from_json_fields [OF assms(2)] run_json_reads [OF assms(1), of r] by simp_all

lemma omap_put_present: "omap_inv m \<Longrightarrow> map_of m k = Some v \<Longrightarrow> omap_put k v m = m"
  by (induction k v m rule: omap_put.induct) (auto simp: omap_inv_def split: if_splits dest!: map_of_SomeD)

lemma run_json_named: "jput ''id'' (JStr (r_id r)) (run_to_json r) = run_to_json r"
proof -
  obtain kvs where "run_to_json r = JObj (omap_of_list kvs)" unfolding run_to_json_def jobject_def by blast
  moreover have "omap_inv (omap_of_list kvs)" by simp
  moreover have "jat (run_to_json r) ''id'' = Inr (JStr (r_id r))" by (rule run_lookup)
  ultimately show ?thesis
    by (auto simp: jput_def jat_def omap_put_present split: option.splits)
qed

lemma bind_run_store:
  assumes "json_ops_ok J"
  obtains "snd (bind_session_turn_run J env sid tid (run_to_json r) run_event owner fence e db) = db"
  | st ev where "write_records J (se_fresh env 0) (se_now env 0) (se_now env 0) [run_record r, ev] (sd_store db) = Inr st"
    and "sr_kind ev = KEvent"
    and "\<And>kind. kind \<noteq> KAgentSession \<Longrightarrow> kind \<noteq> KRunContextSnapshot \<Longrightarrow>
      sd_store (snd (bind_session_turn_run J env sid tid (run_to_json r) run_event owner fence e db)) kind = st kind"
proof -
  let ?written = "\<lambda>db'. \<exists>st ev. write_records J (se_fresh env 0) (se_now env 0) (se_now env 0) [run_record r, ev] (sd_store db) = Inr st \<and>
      sr_kind ev = KEvent \<and> (\<forall>kind. kind \<noteq> KAgentSession \<longrightarrow> kind \<noteq> KRunContextSnapshot \<longrightarrow> sd_store db' kind = st kind)"
  let ?P = "\<lambda>db'. db' = db \<or> ?written db'"
  note rid = run_json_reads(1) [OF assms, of r]
  have snapshot: "sd_store db2 kind = sd_store db1 kind"
    if "insert_snapshot J run_id snap db1 = Inr db2" "kind \<noteq> KRunContextSnapshot" for run_id snap db1 db2 kind
    using that by (auto simp: insert_snapshot_def upsert_def Let_def elim!: rbindE split: if_splits)
  have start: "?written db'" if "start_turn J env sid tid (run_to_json r) run_event e session turn db = Inr db'" for session turn db'
  proof -
    from that obtain eid v st snap db2 db3 db4 s' turn' seq ev where
      w: "write_records J (se_fresh env 0) (se_now env 0) (se_now env 0)
            [run_record r, \<lparr>sr_kind = KEvent, sr_id = eid, sr_run_id = r_id r, sr_value = v\<rparr>] (sd_store db) = Inr st"
      and s: "insert_snapshot J (r_id r) snap (db\<lparr>sd_store := st\<rparr>) = Inr db2" "put_turn J tid turn' db2 = Inr db3"
        "append_event J sid seq ev db3 = Inr db4" "put_session J sid s' db4 = Inr db'"
      unfolding start_turn_def rid rbind_Inr Let_def run_json_named run_record_def by (elim rbindE) blast
    have "sd_store db' kind = st kind" if "kind \<noteq> KAgentSession" "kind \<noteq> KRunContextSnapshot" for kind
      using put_session_store [OF s(4) that(1)] append_event_store [OF s(3)] put_turn_store [OF s(2)] snapshot [OF s(1) that(2)]
      by simp
    with w show ?thesis by (intro exI conjI) auto
  qed
  have "?P (snd (bind_session_turn_run J env sid tid (run_to_json r) run_event owner fence e db))"
    unfolding bind_session_turn_run_def
    by (rule guarded_transaction [where P = ?P])
      (auto simp: Let_def elim!: rbindE dest!: start split: option.splits if_splits, blast+)
  then show thesis using that by blast
qed

section \<open>Predicates of the stored records\<close>

abbreviation stored :: "runtime \<Rightarrow> store" where
  "stored w \<equiv> sd_store (rt_db w)"

text \<open>
  What the executors write: the runs \<open>may\<close> allows, with attempts, messages, continuations and node work.
  \<open>permitted\<close> is the condition on a call that keeps a predicate of the store.
\<close>

definition executor_ok :: "(string \<Rightarrow> bool) \<Rightarrow> runtime_op \<Rightarrow> bool" where
  "executor_ok may op =
     (let batch = list_all (\<lambda>rec. sr_kind rec \<in> {KAttempt, KMessage, KSessionContinuation, KNodeWork}) in
      case op of
        Checkpoint r type records \<Rightarrow> may (r_id r) \<and> batch records
      | Transition r s type records \<Rightarrow> may (r_id r) \<and> batch records
      | WaitApproval r node reason \<Rightarrow> may (r_id r)
      | _ \<Rightarrow> True)"

definition permitted :: "(run \<Rightarrow> bool) \<Rightarrow> (store_record \<Rightarrow> bool) \<Rightarrow> runtime_op \<Rightarrow> bool" where
  "permitted ckpt allowed op =
     (case op of
        Checkpoint r type records \<Rightarrow> (\<forall>r'. r_id r' = r_id r \<longrightarrow> ckpt r') \<and> list_all allowed records
      | Transition r s type records \<Rightarrow> (\<forall>r'. r_id r' = r_id r \<longrightarrow> ckpt r') \<and> list_all allowed records
      | WaitApproval r node reason \<Rightarrow> (\<forall>r'. r_id r' = r_id r \<longrightarrow> ckpt r')
      | _ \<Rightarrow> True)"

lemma executors_permitted:
  assumes "list_all (executor_ok may) ops" and "\<And>r. may (r_id r) \<Longrightarrow> ckpt r"
    and "\<And>rec. sr_kind rec \<notin> {KRun, KApproval} \<Longrightarrow> allowed rec"
  shows "list_all (permitted ckpt allowed) ops"
proof -
  have batch: "list_all (\<lambda>rec. sr_kind rec \<in> {KAttempt, KMessage, KSessionContinuation, KNodeWork}) records \<Longrightarrow> list_all allowed records"
    for records
    by (auto simp: list_all_iff intro!: assms(3))
  have "executor_ok may op \<Longrightarrow> permitted ckpt allowed op" for op
    by (cases op) (auto simp: executor_ok_def permitted_def Let_def batch intro: assms(2))
  with assms(1) show ?thesis by (auto simp: list_all_iff)
qed

locale stored_predicate =
  fixes E :: runtime_env and S :: "store \<Rightarrow> bool" and allowed :: "store_record \<Rightarrow> bool" and ckpt :: "run \<Rightarrow> bool"
  assumes alone: "S st \<Longrightarrow> solitary E" and json: "S st \<Longrightarrow> json_ops_ok (re_json E)"
    and faults: "S st \<Longrightarrow> re_fault E n \<noteq> Some (PoolError (Error NotFound t))"
      "S st \<Longrightarrow> run_from_json (re_json E) v \<noteq> throw NotFound t"
    and unrelated: "S st \<Longrightarrow> st' KRun = st KRun \<Longrightarrow> st' KApproval = st KApproval \<Longrightarrow> S st'"
    and written: "S st \<Longrightarrow> allowed rec \<Longrightarrow> sr_kind rec \<in> {KRun, KApproval} \<Longrightarrow> S (upsert rec st)"
    and other: "sr_kind rec \<notin> {KRun, KApproval} \<Longrightarrow> allowed rec"
    and open_run:
      "S st \<Longrightarrow> row \<in> set (st KRun) \<Longrightarrow> run_from_json (re_json E) (row_body row) = Inr r \<Longrightarrow> \<not> terminal (r_state r) \<Longrightarrow>
       r_id r' = r_id r \<Longrightarrow> (r_cancellation_requested r \<Longrightarrow> r_cancellation_requested r') \<Longrightarrow> j \<in> {row_id row, r_id r} \<Longrightarrow>
       allowed \<lparr>sr_kind = KRun, sr_id = j, sr_run_id = k, sr_value = run_to_json r'\<rparr>"
    and open_checkpoint:
      "S st \<Longrightarrow> row \<in> set (st KRun) \<Longrightarrow> run_from_json (re_json E) (row_body row) = Inr r \<Longrightarrow> \<not> terminal (r_state r) \<Longrightarrow>
       r_id r' = r_id r \<Longrightarrow> ckpt r'"
    and checkpointed:
      "S st \<Longrightarrow> ckpt r \<Longrightarrow> r_id r' = r_id r \<Longrightarrow>
       (\<And>v. lookup st KRun (r_id r) = Some v \<Longrightarrow>
          \<exists>x. run_from_json (re_json E) v = Inr x \<and> (r_cancellation_requested x \<longrightarrow> r_cancellation_requested r')) \<Longrightarrow>
       allowed (run_record r')"
    and new_run: "r_id r = re_uuid E n 0 \<Longrightarrow> ckpt r" "r_id r = re_uuid E n 0 \<Longrightarrow> allowed (run_record r)"
    and open_approval:
      "S st \<Longrightarrow> row \<in> set (st KApproval) \<Longrightarrow> approval_from_json (re_json E) (row_body row) = Inr a \<Longrightarrow>
       ap_decision a = ''pending'' \<Longrightarrow> ap_id a' = ap_id a \<Longrightarrow> allowed (approval_record k a')"
    and new_approval: "ap_id a = re_uuid E n 0 \<Longrightarrow> allowed (approval_record k a)"
begin

abbreviation holds :: "runtime \<Rightarrow> bool" where
  "holds \<equiv> \<lambda>w. S (stored w)"

text \<open>Reading leaves the database alone.\<close>

lemma database_alone: "holds w \<Longrightarrow> at_database E f w = f (rt_tick w) (w\<lparr>rt_tick := Suc (rt_tick w)\<rparr>)"
  by (drule alone) (simp add: at_database_def solitary_def Let_def)

lemma keeps_database: "(\<And>n. keeps holds (f n)) \<Longrightarrow> keeps holds (at_database E f)"
  by (auto simp: keeps_def database_alone)

lemma keeps_reading:
  "keeps holds (draw g)" "keeps holds (db_get E kind rid)" "keeps holds (db_list E kind run_id limit offset)"
  "keeps holds (take_lease E res)" "keeps holds (renew_lease E lease)"
  "keeps holds (give_lease E lease)" "keeps holds (lease_is_current E lease)"
  unfolding db_get_def db_list_def take_lease_def renew_lease_def give_lease_def lease_is_current_def
  by (auto simp: keeps_def draw_def database_alone Let_def split: prod.split)

lemma keeps_local:
  "keeps holds (publish e)" "keeps holds (update_active i g)" "keeps holds (stop_node i)" "keeps holds (lose_node i)"
  "keeps holds (lose_ownership i)" "keeps holds (request_stop i)" "keeps holds (spawn c)"
  by (auto simp: keeps_def publish_def update_active_def stop_node_def lose_node_def lose_ownership_def request_stop_def
      spawn_def modify_def split: option.split)

lemmas keeps_parts = keeps_rules keeps_reading keeps_local

lemma keeps_readers:
  "keeps holds (draw_uuid E)" "keeps holds (draw_time E)" "keeps holds (drop_lease E l)" "keeps holds (get_run E rid)"
  "keeps holds (get_approval E rid)" "keeps holds (decode_node_work E v)" "keeps holds (get_node_work E rid)"
  "keeps holds (new_event_now E)" "keeps holds (draw_approval E)" "keeps holds (draw_attempt E)" "keeps holds (get_session E sid)"
  unfolding draw_uuid_def draw_time_def drop_lease_def get_run_def get_approval_def decode_node_work_def
    get_node_work_def new_event_now_def draw_approval_def draw_attempt_def get_session_def
  by (intro keeps_parts)+

lemma keeps_list_from: "keeps holds (list_from E kind run_id offset)"
proof (induction offset rule: measure_induct_rule [of "\<lambda>offset. 100010000 - offset"])
  case (less offset)
  show ?case
    by (subst list_from.simps) (intro keeps_parts less, auto)
qed

lemma keeps_list_every: "keeps holds (list_every E kind run_id)"
  unfolding list_every_def by (rule keeps_list_from)

lemmas keeps_basic = keeps_parts keeps_readers keeps_list_every

text \<open>What was read is in the store.\<close>

lemma get_run_row:
  assumes "get_run E rid w = (Inr r, w')" and "holds w"
  shows "\<exists>row \<in> set (stored w KRun). row_id row = rid \<and> run_from_json (re_json E) (row_body row) = Inr r"
  using assms
  by (auto simp: get_run_def abind_Inr alift_def db_get_def database_alone dest!: get_record_row lookup_row)

lemma get_approval_row:
  assumes "get_approval E rid w = (Inr a, w')" and "holds w"
  shows "\<exists>row \<in> set (stored w KApproval). approval_from_json (re_json E) (row_body row) = Inr a"
  using assms
  by (auto simp: get_approval_def abind_Inr alift_def db_get_def database_alone dest!: get_record_row lookup_row)

lemma list_from_row:
  "list_from E kind run_id offset w = (Inr vs, w') \<Longrightarrow> v \<in> set vs \<Longrightarrow> holds w \<Longrightarrow> v \<in> row_body ` set (stored w kind)"
proof (induction offset arbitrary: w vs w' rule: measure_induct_rule [of "\<lambda>offset. 100010000 - offset"])
  case (less offset)
  from less.prems(1) [unfolded list_from.simps [of E kind run_id offset]]
  obtain page w1 where page: "db_list E kind run_id 10000 offset w = (Inr page, w1)"
    and rest: "(if length page < 10000 \<or> offset > 100000000 then aret page
       else abind (list_from E kind run_id (offset + 10000)) (\<lambda>rest. aret (page @ rest))) w1 = (Inr vs, w')"
    by (auto simp: abind_Inr)
  from page have w1: "stored w1 = stored w" and here: "u \<in> set page \<Longrightarrow> u \<in> row_body ` set (stored w kind)" for u
    using less.prems(3) by (auto simp: db_list_def database_alone dest: list_records_row)
  show ?case
  proof (cases "length page < 10000 \<or> offset > 100000000")
    case True
    with rest less.prems(2) here show ?thesis by (auto simp: aret_def)
  next
    case False
    with rest obtain more w2 where "list_from E kind run_id (offset + 10000) w1 = (Inr more, w2)" "vs = page @ more"
      by (auto simp: abind_Inr aret_def)
    with less.IH [of "offset + 10000" w1 more w2] less.prems(2,3) here w1 False show ?thesis by auto
  qed
qed

lemma list_every_row: "list_every E kind run_id w = (Inr vs, w') \<Longrightarrow> v \<in> set vs \<Longrightarrow> holds w \<Longrightarrow> v \<in> row_body ` set (stored w kind)"
  unfolding list_every_def by (rule list_from_row)

text \<open>Writing.\<close>

lemma upsert_kept: "S st \<Longrightarrow> allowed rec \<Longrightarrow> S (upsert rec st)"
  by (cases "sr_kind rec \<in> {KRun, KApproval}", rule written, assumption+)
    (rule unrelated [of st], auto simp: upsert_def Let_def)

lemma write_records_kept:
  "write_records J fresh now now2 records st = Inr st' \<Longrightarrow> S st \<Longrightarrow> list_all allowed records \<Longrightarrow> S st'"
  unfolding write_records_def
  by (induction records arbitrary: st) (auto elim!: rbindE dest!: write_record_Inr intro: upsert_kept)

lemma keeps_commit: "list_all allowed records \<Longrightarrow> keeps holds (db_commit E records)"
  "list_all allowed records \<Longrightarrow> keeps holds (db_commit_owned E records key owner fence)"
  using in_transaction_cases
  by (auto simp: keeps_def db_commit_def db_commit_owned_def database_alone set_store_def commit_def commit_owned_def
      in_transaction_def write_records_kept split: prod.split option.split sum.split elim!: rbindE)

lemma keeps_request_cancellation: "keeps holds (db_request_cancellation E rid)"
proof (rule keepsI)
  fix w
  assume h: "holds w"
  let ?J = "re_json E"
  have "S st'" if "request_cancellation ?J fault now rid (stored w) = (res, st')" for fault now res st'
  proof -
    let ?body = "case find_row (stored w) KRun rid of
             None \<Rightarrow> throw NotFound ''Run not found''
           | Some row \<Rightarrow>
               rbind (run_from_json ?J (row_body row)) (\<lambda>r.
                 if terminal (r_state r) then Inr ((), stored w)
                 else
                   let r' = r\<lparr>r_cancellation_requested := True, r_updated_at := now\<rparr>
                   in rbind (serialize ?J (run_to_json r')) (\<lambda>_.
                        Inr ((), upsert \<lparr>sr_kind = KRun, sr_id = rid, sr_run_id = row_run_id row,
                                        sr_value = run_to_json r'\<rparr> (stored w))))"
    have "S st'" if "?body = Inr (a, st')" for a st'
    proof (cases "find_row (stored w) KRun rid")
      case (Some row)
      then have row: "row \<in> set (stored w KRun)" "row_id row = rid" by (auto simp: find_row_def find_Some_iff)
      with that Some h show ?thesis
        by (auto simp: Let_def elim!: rbindE split: if_splits intro!: upsert_kept open_run [OF h row(1)])
    qed (use that in simp)
    then have "S (snd (in_transaction ''PostgreSQL cancellation write failed'' fault (stored w) ?body))"
      by (rule transaction_rule [where P = S, OF h])
    with that h show ?thesis
      by (auto simp: request_cancellation_def split: if_splits)
  qed
  then show "holds (snd (db_request_cancellation E rid w))"
    using h by (auto simp: db_request_cancellation_def database_alone set_store_def split: prod.split)
qed

lemma keeps_session:
  assumes "\<And>env db. S (sd_store db) \<Longrightarrow> S (sd_store (snd (f env db)))"
  shows "keeps holds (db_session E f)"
  using assms by (auto simp: keeps_def db_session_def database_alone Let_def split: prod.split) (metis snd_conv)

lemma keeps_claim_turn:
  "keeps holds (db_session E (\<lambda>env. claim_next_session_turn J env sid owner fence expires event))"
  by (rule keeps_session) (auto intro: unrelated simp: claim_turn_store)

lemma keeps_create_generation:
  "keeps holds (db_session E (\<lambda>env. create_session_context_generation J env sid gen through key kind version payload))"
  by (rule keeps_session) (auto intro: unrelated simp: create_generation_store)

lemma keeps_commit_session_run:
  assumes "list_all allowed records"
  shows "keeps holds (db_session E (\<lambda>env. commit_session_run J env records owner fence e))"
proof (rule keeps_session)
  fix env and db :: session_db
  assume "S (sd_store db)"
  then show "S (sd_store (snd (commit_session_run J env records owner fence e db)))"
    by (cases rule: commit_session_run_store [of J env records owner fence e db])
      (auto intro: unrelated [OF write_records_kept [OF _ _ assms]])
qed

lemma keeps_bind_session_turn_run:
  assumes "allowed (run_record r)"
  shows "keeps holds (db_session E (\<lambda>env. bind_session_turn_run (re_json E) env sid tid (run_to_json r) run_event owner fence e))"
proof (rule keeps_session)
  fix env and db :: session_db
  assume S: "S (sd_store db)"
  show "S (sd_store (snd (bind_session_turn_run (re_json E) env sid tid (run_to_json r) run_event owner fence e db)))"
  proof (cases rule: bind_run_store [OF json [OF S], of env sid tid r run_event owner fence e db])
    case (2 st ev)
    then have "list_all allowed [run_record r, ev]" using assms other by simp
    from unrelated [OF write_records_kept [OF 2(1) S this]] 2(3) show ?thesis by simp
  qed (use S in simp)
qed

section \<open>Checkpoints\<close>

lemma settle_continuations_allowed:
  assumes "list_all allowed records" and "settle_continuations E r records w = (Inr records', w')"
  shows "list_all allowed records'"
proof -
  have "list_all allowed (settle_candidate r pc)" for pc
    by (auto simp: settle_candidate_def list_all_iff intro: other split: prod.split)
  with assms show ?thesis
    by (auto simp: settle_continuations_def abind_Inr aret_def Let_def list_all_iff split: if_splits)
qed

lemma merge_cancellation_allowed:
  assumes "holds w" and "ckpt r" and "merge_cancellation E r w = (Inr r', w')"
    and "r_id r'' = r_id r'" and "r_cancellation_requested r'' = r_cancellation_requested r'"
  shows "allowed (run_record r'')"
proof -
  have "\<exists>x. run_from_json (re_json E) v = Inr x \<and> (r_cancellation_requested x \<longrightarrow> r_cancellation_requested r'')"
    if "lookup (stored w) KRun (r_id r) = Some v" for v
    using that assms(1,3,5) faults [OF assms(1)]
    by (cases "run_from_json (re_json E) v")
      (auto simp: merge_cancellation_def atry_Inr get_run_def abind_def db_get_def database_alone get_record_def
        in_transaction_def aret_def alift_def athrow_def translate_sql_error_def translate_connection_error_def
        split: if_splits option.splits fault.splits elim!: store_fault.elims)
  moreover have "r_id r'' = r_id r"
    using assms(3,4) by (auto simp: merge_cancellation_def atry_Inr aret_def athrow_def alift_def split: if_splits)
  ultimately show ?thesis by (intro checkpointed [OF assms(1,2)]) auto
qed

lemma keeps_checkpoint:
  assumes "ckpt r" and "list_all allowed records"
  shows "keeps holds (checkpoint E r type records)"
proof -
  have event: "allowed (run_event_record i e)" for i e by (simp add: other run_event_record_def)
  have commit: "keeps holds (commit_checkpoint E x recs)" if "list_all allowed recs" for x recs
    unfolding commit_checkpoint_def using that by (intro keeps_basic keeps_commit keeps_commit_session_run)
  have settled: "keeps holds (settle_continuations E r recs)" for recs
    unfolding settle_continuations_def Let_def by (intro keeps_basic)
  have merged: "keeps holds (merge_cancellation E r)"
    unfolding merge_cancellation_def by (intro keeps_basic)
  have store: "keeps holds (store_checkpoint E type recs r')"
    if "list_all allowed recs" "\<And>now. allowed (run_record (r'\<lparr>r_updated_at := now\<rparr>))" for recs r'
    unfolding store_checkpoint_def Let_def using that event by (intro keeps_basic commit) simp
  show ?thesis
    unfolding checkpoint_def
    by (rule keeps_abind_result [OF settled], rule keeps_abind_result [OF merged], rule store)
      (auto intro: settle_continuations_allowed [OF assms(2)] merge_cancellation_allowed [OF _ assms(1)])
qed

lemma keeps_transition:
  assumes "valid_transition (r_state r) s \<Longrightarrow> ckpt (r\<lparr>r_state := s\<rparr>)" and "list_all allowed records"
  shows "keeps holds (transition E r s type records)"
  unfolding transition_def using assms by (intro keeps_rules keeps_checkpoint) auto

lemma keeps_schedule: "keeps holds (schedule E r lease)"
  unfolding schedule_def by (intro keeps_basic keeps_modify) simp

section \<open>Runs that were read\<close>

abbreviation known :: "string \<Rightarrow> run \<Rightarrow> bool" where
  "known rid r \<equiv> \<exists>st row. S st \<and> row \<in> set (st KRun) \<and> row_id row = rid \<and>
     run_from_json (re_json E) (row_body row) = Inr r"

lemma keeps_get_run:
  assumes "\<And>r. known rid r \<Longrightarrow> keeps holds (f r)"
  shows "keeps holds (abind (get_run E rid) f)"
  by (rule keeps_abind_result [OF keeps_readers(4)], rule assms) (use get_run_row in blast)

lemma keeps_try_get_run:
  assumes "\<And>r. known rid r \<Longrightarrow> keeps holds (f r)" and "\<And>c t. keeps holds (h c t)"
  shows "keeps holds (atry (get_run E rid) f h)"
  by (rule keeps_atry_result [OF keeps_readers(4)], rule assms(1)) (use get_run_row assms(2) in blast)+

lemma valid_transition_open: "valid_transition s t \<Longrightarrow> \<not> terminal s"
  by (cases s) (auto simp: valid_transition_def terminal_def)

lemma known_checkpoint: "known rid r \<Longrightarrow> \<not> terminal (r_state r) \<Longrightarrow> r_id r' = r_id r \<Longrightarrow> ckpt r'"
  using open_checkpoint by blast

lemma known_allowed:
  "known rid r \<Longrightarrow> \<not> terminal (r_state r) \<Longrightarrow> r_id r' = r_id r \<Longrightarrow>
   (r_cancellation_requested r \<Longrightarrow> r_cancellation_requested r') \<Longrightarrow> allowed (run_record r')"
  unfolding run_record_def using open_run by blast

lemma keeps_known_transition:
  assumes "known rid r" and "r_id r' = r_id r" and "r_state r' = r_state r" and "list_all allowed records"
  shows "keeps holds (transition E r' s type records)"
  by (rule keeps_transition) (use assms valid_transition_open in \<open>auto intro!: known_checkpoint [OF assms(1)]\<close>)

lemma keeps_resume: "keeps holds (resume E rid)"
  unfolding resume_def approved_def
  by (intro keeps_basic keeps_get_run keeps_known_transition keeps_schedule) simp_all

lemma keeps_finish_parent: "keeps holds (finish_parent E child)"
  unfolding finish_parent_def
  by (intro keeps_basic keeps_get_run keeps_resume keeps_commit) (auto intro!: known_allowed simp: terminal_def)

lemma keeps_apply_decision:
  assumes "known i r" and "\<And>a' k. ap_id a' = ap_id a \<Longrightarrow> allowed (approval_record k a')"
  shows "keeps holds (apply_decision E r a approve actor comment)"
proof -
  have attempts: "list_all allowed recs" if "decide_attempts J ap k node now items = Inr recs" for J ap k node now items recs
    using that by (auto simp: decide_attempts_def attempt_record_def list_all_iff intro!: other elim!: rbindE)
  then have *: "alift (decide_attempts J ap k node now items) w = (Inr recs, w') \<Longrightarrow> list_all allowed recs"
    for J ap k node now items recs and w w' :: runtime
    by (auto simp: alift_def)
  show ?thesis
    unfolding apply_decision_def Let_def
    by (intro keeps_basic keeps_abind_result [of _ "alift x" for x] keeps_known_transition [OF assms(1)] keeps_schedule
        keeps_finish_parent)
      (auto simp: clear_ownership_def intro!: assms(2) dest: *)
qed

lemma keeps_decide: "keeps holds (decide E rid approve actor comment)"
proof -
  have approval: "keeps holds (abind (get_approval E rid) f)"
    if "\<And>a. (\<And>a' k. ap_decision a = ''pending'' \<Longrightarrow> ap_id a' = ap_id a \<Longrightarrow> allowed (approval_record k a')) \<Longrightarrow> keeps holds (f a)" for f
    by (rule keeps_abind_result [OF keeps_readers(5)], rule that) (use get_approval_row open_approval in blast)
  show ?thesis
    unfolding decide_def
    by (intro keeps_if keeps_simple approval keeps_get_run keeps_look) (auto intro: keeps_apply_decision)
qed

lemma keeps_wait_approval:
  assumes "\<And>r'. r_id r' = r_id r \<Longrightarrow> ckpt r'"
  shows "keeps holds (wait_approval E r node reason)"
proof -
  have drawn: "keeps holds (abind (draw_approval E) f)" if "\<And>a n. ap_id a = re_uuid E n 0 \<Longrightarrow> keeps holds (f a)" for f
    by (rule keeps_abind_result [OF keeps_readers(9)], rule that) (auto simp: draw_approval_def draw_def new_approval_def)
  show ?thesis
    unfolding wait_approval_def Let_def
    by (intro drawn keeps_basic keeps_transition assms) (auto intro: new_approval simp: other attempt_record_def)
qed

section \<open>Cancellation\<close>

lemma work_allowed: "allowed (work_record k)" "allowed (attempt_record j x)"
  by (simp_all add: other work_record_def attempt_record_def)

lemma keeps_announce_cancellation:
  assumes "known rid r" and "\<not> terminal (r_state r)"
  shows "keeps holds (announce_cancellation E rid r)"
proof -
  have approvals: "list_all allowed recs"
    if "cancelled_approvals (re_json E) rid now items = Inr recs" "set items \<subseteq> row_body ` set (st KApproval)" "S st" for now items recs st
  proof -
    from that(1) obtain as where as: "mapM (approval_from_json (re_json E)) items = Inr as"
      and recs: "recs = map (\<lambda>(i, a). approval_record rid (a\<lparr>ap_decision := ''cancelled'', ap_decided_at := now i\<rparr>))
         (enumerate 0 (filter (\<lambda>a. ap_decision a = ''pending'') as))"
      by (auto simp: cancelled_approvals_def elim!: rbindE)
    have "\<exists>v \<in> set items. approval_from_json (re_json E) v = Inr a" if "a \<in> set as" for a
      using as that by (induction items arbitrary: as) (auto elim!: rbindE)
    with that(2,3) have "allowed (approval_record rid (a\<lparr>ap_decision := ''cancelled'', ap_decided_at := t\<rparr>))"
      if "a \<in> set as" "ap_decision a = ''pending''" for a t
      using that open_approval [of st _ a] by (fastforce simp: image_iff)
    with recs show ?thesis by (auto simp: list_all_iff enumerate_eq_zip dest!: set_zip_rightD)
  qed
  have listed: "keeps holds (abind (list_every E KApproval rid) f)"
    if "\<And>items st. set items \<subseteq> row_body ` set (st KApproval) \<Longrightarrow> S st \<Longrightarrow> keeps holds (f items)" for f
    by (rule keeps_abind_result [OF keeps_list_every], rule that) (auto dest: list_every_row)
  have checked: "keeps holds (abind (alift (cancelled_approvals (re_json E) rid now items)) f)"
    if "set items \<subseteq> row_body ` set (st KApproval)" "S st" "\<And>recs. list_all allowed recs \<Longrightarrow> keeps holds (f recs)" for now items st f
    by (rule keeps_abind_result [OF keeps_rules(2)], rule that(3)) (use approvals that(1,2) in \<open>auto simp: alift_def\<close>)
  have "ckpt (r\<lparr>r_cancellation_requested := True\<rparr>)"
    by (rule known_checkpoint [OF assms]) simp
  then show ?thesis
    unfolding announce_cancellation_def cancel_work_def
    by (intro keeps_if keeps_request_cancellation keeps_basic keeps_commit listed checked keeps_checkpoint) (auto simp: work_allowed)
qed

lemma announced_run:
  assumes "announce_cancellation E rid r w = (Inr r', w')"
  shows "r_id r' = r_id r" and "r_state r' = r_state r"
  using assms
  by (auto simp: announce_cancellation_def checkpoint_def store_checkpoint_def merge_cancellation_def abind_Inr atry_Inr
      aret_def athrow_def alift_def Let_def split: if_splits)

lemma keeps_finish_cancellation:
  assumes "known rid x" and "\<not> terminal (r_state x)" and "r_id r = r_id x" and "r_state r = r_state x"
  shows "keeps holds (finish_cancellation E rid r)"
proof -
  have "allowed (run_record (r\<lparr>r_cancellation_requested := True, r_state := RCancelled, r_updated_at := now\<rparr>))" for now
    by (rule known_allowed [OF assms(1,2)]) (simp_all add: assms(3))
  with assms show ?thesis
    unfolding finish_cancellation_def cancel_active_def cancel_inactive_def
    by (intro keeps_basic keeps_known_transition [OF assms(1)] keeps_commit) simp_all
qed

lemma keeps_cancel_locked: "keeps holds (cancel_locked levels E rid vj)"
proof (induction levels arbitrary: rid vj)
  case (Suc levels)
  have announced: "keeps holds (abind (announce_cancellation E rid r) f)"
    if "known rid r" "\<not> terminal (r_state r)" "\<And>r'. r_id r' = r_id r \<Longrightarrow> r_state r' = r_state r \<Longrightarrow> keeps holds (f r')" for r f
    by (rule keeps_abind_result [OF keeps_announce_cancellation [OF that(1,2)]], rule that(3)) (auto dest: announced_run)
  show ?case
    unfolding cancel_locked.simps open_worker_jobs_def
    by (intro keeps_basic keeps_get_run announced Suc) (auto intro: keeps_finish_cancellation)
qed (simp add: keeps_rules)

lemma keeps_cancel: "keeps holds (cancel E rid)"
  unfolding cancel_def cancel_jobs_def by (intro keeps_basic keeps_cancel_locked keeps_modify) simp

section \<open>New runs\<close>

lemma keeps_check_pending: "keeps holds (check_pending E offset pending)"
proof (induction offset arbitrary: pending rule: measure_induct_rule [of "\<lambda>offset. 100001000 - offset"])
  case (less offset)
  show ?case
    by (subst check_pending.simps) (intro keeps_parts less, auto)
qed

lemma made_run:
  assumes "make_run E q checked w = (Inr r, w')"
  shows "\<exists>n. r_id r = re_uuid E n 0"
proof -
  have "set_origin J origin x = Inr y \<Longrightarrow> r_id y = r_id x" for J origin x y
    by (auto simp: set_origin_def Let_def elim!: rbindE)
  with assms show ?thesis
    by (auto simp: make_run_def draw_def abind_Inr alift_def aret_def Let_def new_run_def draw_time_def)
qed

lemma keeps_start_run: "keeps holds (start_run E q)"
proof -
  have "keeps holds (make_run E q checked)" for checked
    unfolding make_run_def Let_def by (intro keeps_basic)
  then have made: "keeps holds (abind (make_run E q checked) f)" if "\<And>r n. r_id r = re_uuid E n 0 \<Longrightarrow> keeps holds (f r)" for checked f
    by (rule keeps_abind_result) (use that made_run in blast)
  show ?thesis
    unfolding start_run_def admit_continuation_def check_request_def bind_run_def Let_def
    by (intro made keeps_basic keeps_check_pending keeps_schedule keeps_checkpoint keeps_bind_session_turn_run)
      (auto intro: new_run)
qed

lemma keeps_gather_turns: "keeps holds (gather_turns E sid through cursor bytes eligible)"
proof (induction cursor arbitrary: bytes eligible rule: measure_induct_rule [of "\<lambda>cursor. through - cursor"])
  case (less cursor)
  have page: "keeps holds (at_database E (\<lambda>n w. (f n w, w)))" for f :: "nat \<Rightarrow> runtime \<Rightarrow> 'b result"
    by (rule keeps_database) (simp add: keeps_def)
  show ?case
    by (subst gather_turns.simps) (intro keeps_basic page less, auto simp: diff_less_mono2)
qed

lemma keeps_reduce: "keeps holds (reduce_session_context_if_needed E sid turn)"
proof -
  have "keeps holds (latest_generation E sid)"
    unfolding latest_generation_def by (intro keeps_basic keeps_database) (simp add: keeps_def)
  then have once: "keeps holds (reduce_once E sid through bytes again)" if "\<And>t. keeps holds (again t)" for through bytes again
    unfolding reduce_once_def call_reducer_def Let_def using that
    by (intro keeps_basic keeps_gather_turns keeps_create_generation)
  show ?thesis
    unfolding reduce_session_context_if_needed_def Let_def by (intro keeps_basic once)
qed

lemma keeps_dispatch_session: "keeps holds (dispatch_session E sid)"
  unfolding dispatch_session_def tolerating_def dispatch_active_def dispatch_open_def dispatch_claimed_def session_request_def
  by (intro keeps_basic keeps_cancel keeps_resume keeps_start_run keeps_reduce keeps_claim_turn)

lemma keeps_dispatch_sessions: "keeps holds (dispatch_sessions E)"
  unfolding dispatch_sessions_def by (intro keeps_basic keeps_dispatch_session)

lemma keeps_execution_ended: "keeps holds (execution_ended E rid failed)"
proof -
  have "keeps holds (fail_unhandled E failed lost r)" if "known rid r" for lost r
    unfolding fail_unhandled_def by (intro keeps_rules keeps_known_transition [OF that]) simp_all
  then show ?thesis
    unfolding execution_ended_def resume_after_child_def Let_def
    by (intro keeps_basic keeps_get_run keeps_finish_parent keeps_resume keeps_dispatch_sessions keeps_modify) simp_all
qed

lemma keeps_service:
  "keeps holds (set_maintenance_mode mode)" "keeps holds (start_distributed E version)" "keeps holds (shutdown E)"
  unfolding set_maintenance_mode_def start_distributed_def shutdown_def
  by (intro keeps_basic keeps_dispatch_sessions keeps_modify keeps_database;
      simp add: keeps_def Let_def split: prod.split)+

section \<open>The loops\<close>

lemma keeps_claim_batch: "(\<And>v. keeps holds (f v)) \<Longrightarrow> keeps holds (claim_batch f vs)"
  by (induction vs) (auto intro!: keeps_rules)

lemma keeps_ready: "keeps holds (works_settled E gid vs found)" "keeps holds (claim_ready E r)"
proof -
  show works: "keeps holds (works_settled E gid vs found)" for gid vs found
    by (induction vs arbitrary: found) (auto intro!: keeps_basic)
  show "keeps holds (claim_ready E r)"
    unfolding claim_ready_def distributed_parallel_ready_def by (intro keeps_basic works)
qed

lemma keeps_claim_run: "keeps holds (claim_run E v)"
proof -
  have "keeps holds (claim_leased E rid lease)" for rid lease
    unfolding claim_leased_def Let_def
    by (rule keeps_get_run, intro keeps_basic keeps_ready keeps_commit keeps_schedule)
      (auto intro!: known_allowed simp: claimed_run_def)
  then show ?thesis
    unfolding claim_run_def by (auto intro!: keeps_basic keeps_ready split: sum.split exn.split)
qed

lemma keeps_first_slot: "keeps holds (first_slot E prefix slots)"
  by (induction slots) (auto intro!: keeps_basic)

lemma keeps_holding: "keeps holds m \<Longrightarrow> keeps holds (holding E ls m)"
  unfolding holding_def by (intro keeps_basic)

lemma keeps_give_leases: "keeps holds (give_leases E ls)"
  unfolding give_leases_def by (intro keeps_basic)

lemma keeps_claim_node: "keeps holds (claim_node E v)"
proof -
  have expired: "keeps holds (abind (expire_attempt E k) f)" if "\<And>recs. list_all allowed recs \<Longrightarrow> keeps holds (f recs)" for k f
    by (rule keeps_abind_result, unfold expire_attempt_def, intro keeps_basic, rule that)
      (auto simp: atry_Inr abind_Inr aret_def athrow_def alift_def work_allowed split: if_splits)
  have "keeps holds (claim_slotted E wid l g s)" for wid l g s
    unfolding claim_slotted_def commit_node_owned_def start_node_def Let_def
    by (intro expired keeps_basic keeps_give_leases keeps_commit keeps_modify) (auto simp: work_allowed)
  then have "keeps holds (claim_node_leased E k l)" for k l
    unfolding claim_node_leased_def by (intro keeps_basic keeps_holding keeps_first_slot keeps_give_leases)
  then show ?thesis
    unfolding claim_node_def work_wanted_def Let_def by (intro keeps_basic)
qed

lemma keeps_claim_pass: "keeps holds (claim_pass E)"
  unfolding claim_pass_def Let_def by (intro keeps_basic keeps_claim_batch keeps_claim_run keeps_claim_node)

lemma keeps_node_ended: "keeps holds (node_ended E wid)"
  unfolding node_ended_def by (intro keeps_basic keeps_modify) simp

lemma keeps_reconcile: "keeps holds (reconcile_terminal_worker E observed lease)"
proof -
  have release: "keeps holds (release_settled E wid l)" for wid l
    unfolding release_settled_def Let_def by (intro keeps_basic keeps_modify) simp
  have "list_all allowed (settled_records x k)" for x k
    by (simp add: settled_records_def work_allowed)
  then have "keeps holds (settle_terminal_worker E k l r x job cur)" for k l r x job cur
    unfolding settle_terminal_worker_def settle_with_new_lease_def Let_def
    by (intro keeps_basic keeps_holding keeps_commit release)
  then show ?thesis
    unfolding reconcile_terminal_worker_def by (intro keeps_basic)
qed

lemma keeps_lease_pass: "keeps holds (lease_pass E)"
proof -
  have beat: "keeps holds (at_database E (\<lambda>n w. let (r, co) = f n w in (g r, w\<lparr>rt_coord := co\<rparr>)))" for f g
    by (rule keeps_database) (simp add: keeps_def Let_def split: prod.split)
  have run: "keeps holds (renew_run E il)" for il
    unfolding renew_run_def by (intro keeps_basic)
  have "keeps holds (renew_node E ia)" for ia
    unfolding renew_node_def renew_slot_def renew_optional_def observe_node_def
    by (intro keeps_basic keeps_reconcile keeps_modify) (auto split: option.split)
  then show ?thesis
    unfolding lease_pass_def Let_def by (intro keeps_basic run beat [unfolded Let_def])
qed

lemma keeps_session_pass: "keeps holds (session_pass E)"
  unfolding session_pass_def by (intro keeps_rules keeps_dispatch_sessions)

lemmas keeps_operations [THEN keepsD] = keeps_start_run keeps_resume keeps_cancel keeps_decide keeps_execution_ended
  keeps_node_ended keeps_claim_pass keeps_lease_pass keeps_dispatch_session keeps_service keeps_session_pass

lemma step_kept: "permitted ckpt allowed op \<Longrightarrow> holds w \<Longrightarrow> holds (runtime_step E op w)"
  unfolding runtime_step_def permitted_def
  by (cases op) (auto intro: keeps_operations intro!: keepsD [OF keeps_checkpoint] keepsD [OF keeps_transition]
      keepsD [OF keeps_wait_approval])

lemma history_kept: "list_all (permitted ckpt allowed) ops \<Longrightarrow> holds w \<Longrightarrow> holds (fold (runtime_step E) ops w)"
  by (induction ops arbitrary: w) (simp_all add: step_kept)

end

end
