(* ===== verification/Laso_Runtime_Guarantees.thy ===== *)
theory Laso_Runtime_Guarantees
  imports Laso_Runtime_Records
begin

text \<open>
  The predicates of the guarantees of the runtime, as instances of the locales of its histories: the bounds
  on what executes, what a runtime that was shut down still does, and, for an instance that has the database
  for itself, which of the stored facts are final: a run that ended, a decision, a requested cancellation.
  The first section has the small installation of the closed instances.
\<close>

section \<open>A small installation\<close>

text \<open>One instance with a plain JSON library, a counting source of identifiers and nothing to execute yet.\<close>

definition lone_config :: runtime_config where
  "lone_config =
     \<lparr>rc_execution_mode = ''single'', rc_max_runs = 4, rc_max_nodes = 4, rc_max_nodes_per_run = 2,
      rc_max_subpipeline_depth = 8, rc_claim_batch_size = 8, rc_max_pending_runs = 16, rc_lease_ttl_ms = 15000,
      rc_reduction_enabled = False, rc_reducer = [], rc_reducer_config = JObj [], rc_reduction_threshold_bytes = 0,
      rc_reduction_target_bytes = 0, rc_reduction_max_input_bytes = 0\<rparr>"

definition lone_env :: runtime_env where
  "lone_env =
     \<lparr>re_json = plain_ops, re_config = lone_config, re_instance_id = ''a'', re_coordinated = False, re_has_workers = False,
      re_uuid = (\<lambda>n k. CHR ''u'' # decimal n), re_time = (\<lambda>_ _. ''t''), re_clock = (\<lambda>_ _. 0), re_timestamp = (\<lambda>_. ''t''),
      re_fault = (\<lambda>_. None), re_others = (\<lambda>_. id),
      re_parse = (\<lambda>_. throw Validation ''none''), re_resolve = (\<lambda>_ _. throw NotFound ''none''),
      re_validate = (\<lambda>_ _ _ _ _. Inr ()), re_reducer = (\<lambda>_. throw NotFound ''none''), re_expired = (\<lambda>_. False),
      re_capabilities = (\<lambda>_. Inr []), re_cancel_job = (\<lambda>_ _. Inr ()), re_worker_job = (\<lambda>_ _. throw NotFound ''none''),
      re_can_execute = (\<lambda>_ _ _. True)\<rparr>"

definition idle_runtime :: "store \<Rightarrow> runtime" where
  "idle_runtime st =
     \<lparr>rt_db = \<lparr>sd_store = st, sd_turns = [], sd_events = []\<rparr>, rt_coord = \<lparr>leases = [], instances = []\<rparr>,
      rt_client = \<lparr>co_owner = ''a'', co_acquisition_failures = 0, co_renewal_failures = 0, co_fencing_rejections = 0\<rparr>,
      rt_active = [], rt_nodes = [], rt_mode = MActive, rt_stopping = False, rt_started = False,
      rt_reduction_stop = False, rt_published = [], rt_spawned = [], rt_worker_cancels = [], rt_tick = 0\<rparr>"

definition some_run :: run where
  "some_run = new_run ''r1'' ''t'' (new_message ''m1'' ''t'')"

lemma idle_runtime_store [simp]: "stored (idle_runtime st) = st"
  by (simp add: idle_runtime_def)

lemma some_run_codec: "run_from_json plain_ops (run_to_json (some_run\<lparr>r_state := s, r_cancellation_requested := b\<rparr>)) =
    Inr (some_run\<lparr>r_state := s, r_cancellation_requested := b\<rparr>)"
  using new_run_ok [of "new_message ''m1'' ''t''" "''r1''" "''t''"]
  by (intro run_codec plain_ops_ok) (simp add: some_run_def run_ok_def)

section \<open>Bounds\<close>

text \<open>The runs whose coroutine was started and has not ended, by the list of what was started and ended.\<close>

definition live :: "spawned list \<Rightarrow> string set" where
  "live cs = fold (\<lambda>c ids. case c of Execute r \<Rightarrow> insert (r_id r) ids | RunEnded i \<Rightarrow> ids - {i} | _ \<Rightarrow> ids) cs {}"

text \<open>No run is started while its coroutine is alive, and at no moment are more than \<open>limit\<close> alive.\<close>

definition orderly :: "nat \<Rightarrow> spawned list \<Rightarrow> bool" where
  "orderly limit cs \<longleftrightarrow>
     (\<forall>before c after. cs = before @ c # after \<longrightarrow>
        card (live (before @ [c])) \<le> limit \<and> (\<forall>r. c = Execute r \<longrightarrow> r_id r \<notin> live before))"

lemma live_snoc: "live (cs @ [c]) = (case c of Execute r \<Rightarrow> insert (r_id r) (live cs) | RunEnded i \<Rightarrow> live cs - {i} | _ \<Rightarrow> live cs)"
  by (cases c) (simp_all add: live_def)

lemma orderly_snoc:
  "orderly limit (cs @ [c]) \<longleftrightarrow> orderly limit cs \<and> card (live (cs @ [c])) \<le> limit \<and> (\<forall>r. c = Execute r \<longrightarrow> r_id r \<notin> live cs)"
proof -
  have "cs @ [c] = before @ x # after \<longleftrightarrow> (\<exists>rest. after = rest @ [c] \<and> cs = before @ x # rest) \<or> (after = [] \<and> x = c \<and> before = cs)"
    for before x after
    by (cases after rule: rev_cases) auto
  note splits = this
  show ?thesis
  proof (intro iffI conjI)
    assume whole: "orderly limit (cs @ [c])"
    then show "orderly limit cs" unfolding orderly_def splits by blast
    show "card (live (cs @ [c])) \<le> limit" "\<forall>r. c = Execute r \<longrightarrow> r_id r \<notin> live cs"
      using whole unfolding orderly_def by blast+
  next
    assume parts: "orderly limit cs \<and> card (live (cs @ [c])) \<le> limit \<and> (\<forall>r. c = Execute r \<longrightarrow> r_id r \<notin> live cs)"
    show "orderly limit (cs @ [c])"
      unfolding orderly_def
    proof (intro allI impI)
      fix before x after
      assume "cs @ [c] = before @ x # after"
      then show "card (live (before @ [x])) \<le> limit \<and> (\<forall>r. x = Execute r \<longrightarrow> r_id r \<notin> live before)"
        unfolding splits using parts unfolding orderly_def by (elim disjE exE conjE) simp_all
    qed
  qed
qed

definition within_limits :: "runtime_env \<Rightarrow> runtime \<Rightarrow> bool" where
  "within_limits E w \<longleftrightarrow>
     omap_inv (rt_active w) \<and> length (rt_active w) \<le> unat (rc_max_runs (re_config E)) \<and>
     omap_inv (rt_nodes w) \<and> length (rt_nodes w) \<le> unat (rc_max_nodes (re_config E)) \<and>
     live (rt_spawned w) = fst ` set (rt_active w) \<and> orderly (unat (rc_max_runs (re_config E))) (rt_spawned w)"

lemma length_omap_put: "omap_inv m \<Longrightarrow> length (omap_put k v m) = (if omap_contains m k then length m else Suc (length m))"
  by (induction k v m rule: omap_put.induct) (auto simp: omap_contains_def omap_inv_def map_of_eq_None_iff)

lemma omap_inv_map: "omap_inv (map (\<lambda>(i, a). (i, f a)) m) = omap_inv m"
  by (simp add: omap_inv_def comp_def case_prod_unfold)

lemma length_omap_erase: "length (omap_erase k m) \<le> length m"
  by (simp add: omap_erase_def)

lemma keys_put: "fst ` set (omap_put k v m) = insert k (fst ` set m)"
  by (induction k v m rule: omap_put.induct) auto

lemma keys_put_present: "map_of m k = Some v \<Longrightarrow> fst ` set (omap_put k v' m) = fst ` set m"
  by (auto simp: keys_put dest: map_of_SomeD intro: rev_image_eqI)

lemma keys_erase: "fst ` set (omap_erase k m) = fst ` set m - {k}"
  by (auto simp: omap_erase_def)

lemma keys_map: "fst ` (\<lambda>(i, a). (i, f a)) ` set m = fst ` set m"
  by force

lemma card_keys: "omap_inv m \<Longrightarrow> card (fst ` set m) = length m"
  by (metis distinct_card length_map list.set_map omap_inv_def strict_sorted_iff)

interpretation limits: local_predicate E "within_limits E" for E
proof
  fix w i a a'
  show "within_limits E w \<Longrightarrow> map_of (rt_active w) i = Some a \<Longrightarrow> within_limits E (w\<lparr>rt_active := omap_put i a' (rt_active w)\<rparr>)"
    by (auto simp: within_limits_def length_omap_put omap_contains_def keys_put_present)
next
  fix w i x x'
  show "within_limits E w \<Longrightarrow> map_of (rt_nodes w) i = Some x \<Longrightarrow> within_limits E (w\<lparr>rt_nodes := omap_put i x' (rt_nodes w)\<rparr>)"
    by (auto simp: within_limits_def length_omap_put omap_contains_def)
next
  fix w and r :: run and a
  assume w: "within_limits E w" and room: "\<not> at_capacity E w" "\<not> omap_contains (rt_active w) (r_id r)"
  then have len: "Suc (length (rt_active w)) \<le> unat (rc_max_runs (re_config E))"
    "length (omap_put (r_id r) a (rt_active w)) = Suc (length (rt_active w))"
    by (auto simp: within_limits_def at_capacity_def length_omap_put)
  have inv: "omap_inv (omap_put (r_id r) a (rt_active w))" using w by (simp add: within_limits_def)
  have keys: "live (rt_spawned w @ [Execute r]) = fst ` set (omap_put (r_id r) a (rt_active w))"
    using w by (simp add: within_limits_def live_snoc keys_put)
  moreover have "r_id r \<notin> live (rt_spawned w)"
    using w room(2) by (auto simp: within_limits_def omap_contains_def dom_map_of_conv_image_fst [symmetric] domIff)
  ultimately show "within_limits E (w\<lparr>rt_active := omap_put (r_id r) a (rt_active w), rt_spawned := rt_spawned w @ [Execute r]\<rparr>)"
    using w len inv by (simp add: within_limits_def orderly_snoc card_keys)
next
  fix w i
  assume w: "within_limits E w"
  then have "omap_inv (omap_erase i (rt_active w))" "length (omap_erase i (rt_active w)) \<le> unat (rc_max_runs (re_config E))"
    using length_omap_erase [of i "rt_active w"] by (auto simp: within_limits_def)
  moreover have "live (rt_spawned w @ [RunEnded i]) = fst ` set (omap_erase i (rt_active w))"
    using w by (simp add: within_limits_def live_snoc keys_erase)
  ultimately show "within_limits E (w\<lparr>rt_active := omap_erase i (rt_active w), rt_spawned := rt_spawned w @ [RunEnded i]\<rparr>)"
    using w by (simp add: within_limits_def orderly_snoc card_keys)
  show "within_limits E (w\<lparr>rt_nodes := omap_erase i (rt_nodes w)\<rparr>)"
    using w length_omap_erase [of i "rt_nodes w"] by (auto simp: within_limits_def)
next
  fix w loop
  assume w: "within_limits E w" and loop: "loop \<in> {ClaimLoop, LeaseLoop, SessionLoop} \<union> range LocalBranch"
  from loop have "live (rt_spawned w @ [loop]) = live (rt_spawned w)" "\<forall>r. loop \<noteq> Execute r"
    by (auto simp: live_snoc)
  then show "within_limits E (w\<lparr>rt_spawned := rt_spawned w @ [loop]\<rparr>)"
    using w by (simp add: within_limits_def orderly_snoc card_keys)
next
  fix w
  show "within_limits E w \<Longrightarrow> within_limits E
      (w\<lparr>rt_active := map (\<lambda>(i, a). (i, a\<lparr>ac_stop := True\<rparr>)) (rt_active w),
         rt_nodes := map (\<lambda>(i, a). (i, a\<lparr>an_stop := True\<rparr>)) (rt_nodes w)\<rparr>)"
    by (simp add: within_limits_def omap_inv_map keys_map)
next
  fix w and k :: node_work and x l g s
  assume "within_limits E w" "\<not> nodes_full E w" "\<not> omap_contains (rt_nodes w) (w_id k)"
  then show "within_limits E (w\<lparr>rt_nodes := omap_put (w_id k) x (rt_nodes w), rt_spawned := rt_spawned w @ [ExecuteWork k l g s]\<rparr>)"
    by (simp add: within_limits_def nodes_full_def length_omap_put live_snoc orderly_snoc card_keys)
qed (simp_all add: within_limits_def)

section \<open>After the shutdown\<close>

fun is_execution :: "spawned \<Rightarrow> bool" where
  "is_execution (Execute r) = True"
| "is_execution (ExecuteWork k l g s) = True"
| "is_execution _ = False"

definition stopped_with :: "spawned list \<Rightarrow> string set \<Rightarrow> string set \<Rightarrow> runtime \<Rightarrow> bool" where
  "stopped_with started runs works w \<longleftrightarrow>
     rt_stopping w \<and> filter is_execution (rt_spawned w) = started \<and> fst ` set (rt_active w) \<subseteq> runs \<and>
     fst ` set (rt_nodes w) \<subseteq> works"

interpretation halted_runtime: local_predicate E "stopped_with started runs works" for E started runs works
  by unfold_locales (auto simp: stopped_with_def keys_put_present keys_erase keys_map)

section \<open>What is final\<close>

lemma found_run_from_json:
  assumes "library_errors J"
  shows "not_missing (run_from_json J v)"
proof -
  have basic: "\<And>v. not_missing (get_string J v)" "\<And>v. not_missing (get_bool J v)" "\<And>v. not_missing (get_unsigned J v)"
      "\<And>v. not_missing (get_uint64 J v)" "\<And>v. not_missing (get_double J v)"
    using assms by (simp_all add: library_errors_def not_missing_def)
  have states: "\<And>v. not_missing (run_state_from_json v)"
    by (simp add: run_state_from_json_def enum_from_json_def not_missing_def)
  have provenance: "\<And>v. not_missing (provenance_from_json J v)"
    unfolding provenance_from_json_def by (intro present_rules basic)
  have messages: "\<And>v. not_missing (message_from_json J v)"
    unfolding message_from_json_def by (intro present_rules basic provenance) simp
  have frames: "\<And>v. not_missing (branch_frame_from_json J v)"
    unfolding branch_frame_from_json_def by (intro present_rules basic)
  have tokens: "\<And>v. not_missing (execution_token_from_json J v)"
    unfolding execution_token_from_json_def by (intro present_rules basic messages frames)
  have joins: "\<And>v. not_missing (join_checkpoint_from_json J v)"
    unfolding join_checkpoint_from_json_def by (intro present_rules found_umap basic messages)
  show ?thesis
    unfolding run_from_json_def by (intro present_rules basic states messages frames tokens joins)
qed

text \<open>
  The database as one instance sees it that has it for itself: nobody else writes, and the pool does not
  raise the error that stands for a missing record.
\<close>

definition private_database :: "runtime_env \<Rightarrow> bool" where
  "private_database E \<longleftrightarrow>
     solitary E \<and> json_ops_ok (re_json E) \<and> library_errors (re_json E) \<and>
     (\<forall>n t. re_fault E n \<noteq> Some (PoolError (Error NotFound t)))"

lemma private_databaseD:
  assumes "private_database E"
  shows "solitary E" and "json_ops_ok (re_json E)" and "re_fault E n \<noteq> Some (PoolError (Error NotFound t))"
    and "run_from_json (re_json E) v \<noteq> throw NotFound t"
  using assms found_run_from_json [of "re_json E" v] by (auto simp: private_database_def not_missing_def)

definition run_ident :: "json_ops \<Rightarrow> json \<Rightarrow> string option" where
  "run_ident J v = (case run_from_json J v of Inl _ \<Rightarrow> None | Inr r \<Rightarrow> Some (r_id r))"

definition approval_ident :: "json_ops \<Rightarrow> json \<Rightarrow> string option" where
  "approval_ident J v = (case approval_from_json J v of Inl _ \<Rightarrow> None | Inr a \<Rightarrow> Some (ap_id a))"

definition stored_in_state :: "json_ops \<Rightarrow> string \<Rightarrow> run_state \<Rightarrow> store \<Rightarrow> bool" where
  "stored_in_state J rid s = row_good KRun rid (run_ident J) (\<lambda>v. \<exists>r. run_from_json J v = Inr r \<and> r_state r = s)"

definition stored_decision :: "json_ops \<Rightarrow> string \<Rightarrow> string \<Rightarrow> store \<Rightarrow> bool" where
  "stored_decision J aid d = row_good KApproval aid (approval_ident J) (\<lambda>v. \<exists>a. approval_from_json J v = Inr a \<and> ap_decision a = d)"

definition cancellation_stored :: "json_ops \<Rightarrow> string \<Rightarrow> store \<Rightarrow> bool" where
  "cancellation_stored J rid = row_good KRun rid (run_ident J) (\<lambda>v. jat v ''cancellation_requested'' = Inr (JBool True))"

definition unused_id :: "runtime_env \<Rightarrow> string \<Rightarrow> bool" where
  "unused_id E rid \<longleftrightarrow> (\<forall>n. re_uuid E n 0 \<noteq> rid)"

lemma run_ident_json: "json_ops_ok J \<Longrightarrow> run_ident J (run_to_json r) = Some i \<Longrightarrow> i = r_id r"
  by (auto simp: run_ident_def split: sum.splits dest: run_json_fields)

lemma run_ident_private: "run_ident (re_json E) (run_to_json r) = Some i \<Longrightarrow> private_database E \<Longrightarrow> i = r_id r"
  using run_ident_json private_databaseD(2) by blast

lemma approval_ident_json: "json_ops_ok J \<Longrightarrow> approval_ident J (approval_to_json a) = Some (ap_id a)"
  by (simp add: approval_ident_def approval_codec)

lemma lone_private: "private_database lone_env"
proof -
  have "library_errors plain_ops"
    by (simp add: library_errors_def plain_ops_def split: json.split)
  then show ?thesis
    by (simp add: private_database_def lone_env_def solitary_def plain_ops_ok)
qed

lemma lone_unused: "unused_id lone_env ''r1''" "unused_id lone_env ''a1''"
  by (simp_all add: unused_id_def lone_env_def)

subsection \<open>Runs that ended\<close>

abbreviation final_run :: "runtime_env \<Rightarrow> string \<Rightarrow> run_state \<Rightarrow> bool" where
  "final_run E rid s \<equiv> private_database E \<and> unused_id E rid \<and> terminal s"

interpretation ended_run: stored_predicate E
    "\<lambda>st. final_run E rid s \<and> stored_in_state (re_json E) rid s st"
    "\<lambda>rec. final_run E rid s \<longrightarrow> record_good KRun rid (run_ident (re_json E)) (\<lambda>_. False) rec"
    "\<lambda>r. final_run E rid s \<longrightarrow> r_id r \<noteq> rid" for E rid s
proof
  have open_row: "row_id row \<noteq> rid \<and> r_id r \<noteq> rid"
    if "stored_in_state (re_json E) rid s st" "terminal s" "row \<in> set (st KRun)"
      "run_from_json (re_json E) (row_body row) = Inr r" "\<not> terminal (r_state r)" for st row r
    using that by (auto simp: stored_in_state_def row_good_def run_ident_def)
  fix st st' rec row r r' j k n
  show "final_run E rid s \<and> stored_in_state (re_json E) rid s st \<Longrightarrow> st' KRun = st KRun \<Longrightarrow> st' KApproval = st KApproval \<Longrightarrow>
      final_run E rid s \<and> stored_in_state (re_json E) rid s st'"
    unfolding stored_in_state_def by (auto intro: row_good_unrelated)
  show "final_run E rid s \<and> stored_in_state (re_json E) rid s st \<Longrightarrow>
      final_run E rid s \<longrightarrow> record_good KRun rid (run_ident (re_json E)) (\<lambda>_. False) rec \<Longrightarrow>
      final_run E rid s \<and> stored_in_state (re_json E) rid s (upsert rec st)"
    unfolding stored_in_state_def by (auto intro!: upsert_good simp: record_good_def)
  show "final_run E rid s \<and> stored_in_state (re_json E) rid s st \<Longrightarrow> row \<in> set (st KRun) \<Longrightarrow>
      run_from_json (re_json E) (row_body row) = Inr r \<Longrightarrow> \<not> terminal (r_state r) \<Longrightarrow> r_id r' = r_id r \<Longrightarrow>
      (r_cancellation_requested r \<Longrightarrow> r_cancellation_requested r') \<Longrightarrow> j \<in> {row_id row, r_id r} \<Longrightarrow>
      final_run E rid s \<longrightarrow> record_good KRun rid (run_ident (re_json E)) (\<lambda>_. False)
        \<lparr>sr_kind = KRun, sr_id = j, sr_run_id = k, sr_value = run_to_json r'\<rparr>"
    using open_row [of st row r] run_ident_json [of "re_json E" r'] by (auto simp: record_good_def private_database_def)
  show "final_run E rid s \<and> stored_in_state (re_json E) rid s st \<Longrightarrow> row \<in> set (st KRun) \<Longrightarrow>
      run_from_json (re_json E) (row_body row) = Inr r \<Longrightarrow> \<not> terminal (r_state r) \<Longrightarrow> r_id r' = r_id r \<Longrightarrow>
      final_run E rid s \<longrightarrow> r_id r' \<noteq> rid"
    using open_row [of st row r] by auto
qed (auto simp: private_databaseD unused_id_def record_good_def run_record_def approval_record_def dest!: run_ident_private)

subsection \<open>Decisions\<close>

abbreviation final_decision :: "runtime_env \<Rightarrow> string \<Rightarrow> string \<Rightarrow> bool" where
  "final_decision E aid d \<equiv> private_database E \<and> unused_id E aid \<and> d \<noteq> ''pending''"

interpretation decided: stored_predicate E
    "\<lambda>st. final_decision E aid d \<and> stored_decision (re_json E) aid d st"
    "\<lambda>rec. final_decision E aid d \<longrightarrow> record_good KApproval aid (approval_ident (re_json E)) (\<lambda>_. False) rec"
    "\<lambda>_. True" for E aid d
proof
  fix st st' rec row a a' k
  show "final_decision E aid d \<and> stored_decision (re_json E) aid d st \<Longrightarrow> st' KRun = st KRun \<Longrightarrow> st' KApproval = st KApproval \<Longrightarrow>
      final_decision E aid d \<and> stored_decision (re_json E) aid d st'"
    unfolding stored_decision_def by (auto intro: row_good_unrelated)
  show "final_decision E aid d \<and> stored_decision (re_json E) aid d st \<Longrightarrow>
      final_decision E aid d \<longrightarrow> record_good KApproval aid (approval_ident (re_json E)) (\<lambda>_. False) rec \<Longrightarrow>
      final_decision E aid d \<and> stored_decision (re_json E) aid d (upsert rec st)"
    unfolding stored_decision_def by (auto intro!: upsert_good simp: record_good_def)
  show "final_decision E aid d \<and> stored_decision (re_json E) aid d st \<Longrightarrow> row \<in> set (st KApproval) \<Longrightarrow>
      approval_from_json (re_json E) (row_body row) = Inr a \<Longrightarrow> ap_decision a = ''pending'' \<Longrightarrow> ap_id a' = ap_id a \<Longrightarrow>
      final_decision E aid d \<longrightarrow> record_good KApproval aid (approval_ident (re_json E)) (\<lambda>_. False) (approval_record k a')"
    by (fastforce simp: stored_decision_def row_good_def record_good_def approval_record_def approval_ident_json private_database_def
        approval_ident_def approval_codec)
qed (auto simp: private_databaseD unused_id_def record_good_def run_record_def approval_record_def approval_ident_json)

definition some_approval :: "string \<Rightarrow> approval" where
  "some_approval d = \<lparr>ap_id = ''a1'', ap_run_id = ''r1'', ap_node_id = ''n'', ap_reason = [], ap_action = [], ap_created_at = ''t'',
     ap_decision = d, ap_decided_at = [], ap_actor = [], ap_comment = [], ap_visit = 1\<rparr>"

subsection \<open>Requested cancellations\<close>

abbreviation requested_run :: "runtime_env \<Rightarrow> string \<Rightarrow> bool" where
  "requested_run E rid \<equiv> private_database E \<and> unused_id E rid"

interpretation requested: stored_predicate E
    "\<lambda>st. requested_run E rid \<and> cancellation_stored (re_json E) rid st"
    "\<lambda>rec. requested_run E rid \<longrightarrow>
       record_good KRun rid (run_ident (re_json E)) (\<lambda>v. jat v ''cancellation_requested'' = Inr (JBool True)) rec"
    "\<lambda>_. True" for E rid
proof
  let ?good = "\<lambda>v. jat v ''cancellation_requested'' = Inr (JBool True)"
  have flag: "r_cancellation_requested r" if "?good v" "run_from_json J v = Inr r" "json_ops_ok J" for J v r
    using run_from_json_fields(3) [OF that(2), unfolded jget_at_jat [OF that(1)] json_ops_okD(2) [OF that(3)]] by simp
  have written: "record_good KRun rid (run_ident J) ?good \<lparr>sr_kind = KRun, sr_id = j, sr_run_id = k, sr_value = run_to_json r\<rparr>"
    if "json_ops_ok J" "j = rid \<Longrightarrow> r_cancellation_requested r" "r_id r = rid \<Longrightarrow> j = rid" for J j k r
    using that run_ident_json [of J r] by (auto simp: record_good_def run_lookup(37))
  fix st st' rec row r r' j k n
  show "requested_run E rid \<and> cancellation_stored (re_json E) rid st \<Longrightarrow> st' KRun = st KRun \<Longrightarrow> st' KApproval = st KApproval \<Longrightarrow>
      requested_run E rid \<and> cancellation_stored (re_json E) rid st'"
    unfolding cancellation_stored_def by (auto intro: row_good_unrelated)
  show "requested_run E rid \<and> cancellation_stored (re_json E) rid st \<Longrightarrow>
      requested_run E rid \<longrightarrow> record_good KRun rid (run_ident (re_json E)) ?good rec \<Longrightarrow>
      requested_run E rid \<and> cancellation_stored (re_json E) rid (upsert rec st)"
    unfolding cancellation_stored_def by (auto intro!: upsert_good)
  show "requested_run E rid \<longrightarrow> record_good KRun rid (run_ident (re_json E)) ?good
        \<lparr>sr_kind = KRun, sr_id = j, sr_run_id = k, sr_value = run_to_json r'\<rparr>"
    if "requested_run E rid \<and> cancellation_stored (re_json E) rid st" "row \<in> set (st KRun)"
      "run_from_json (re_json E) (row_body row) = Inr r" "\<not> terminal (r_state r)" "r_id r' = r_id r"
      "r_cancellation_requested r \<Longrightarrow> r_cancellation_requested r'" "j \<in> {row_id row, r_id r}"
  proof (rule impI, rule written)
    show "json_ops_ok (re_json E)" using that(1) by (simp add: private_database_def)
    have named: "r_id r = rid \<Longrightarrow> row_id row = rid" and good: "row_id row = rid \<Longrightarrow> ?good (row_body row)"
      using that(1,2,3) by (auto simp: cancellation_stored_def row_good_def run_ident_def)
    then show "j = rid \<Longrightarrow> r_cancellation_requested r'"
      using flag [OF good that(3) \<open>json_ops_ok (re_json E)\<close>] that(6,7) by auto
    show "r_id r' = rid \<Longrightarrow> j = rid" using named that(5,7) by auto
  qed
  show "requested_run E rid \<longrightarrow> record_good KRun rid (run_ident (re_json E)) ?good (run_record r')"
    if "requested_run E rid \<and> cancellation_stored (re_json E) rid st" "r_id r' = r_id r"
      "\<And>v. lookup st KRun (r_id r) = Some v \<Longrightarrow>
        \<exists>x. run_from_json (re_json E) v = Inr x \<and> (r_cancellation_requested x \<longrightarrow> r_cancellation_requested r')"
    unfolding run_record_def
  proof (rule impI, rule written)
    show J: "json_ops_ok (re_json E)" using that(1) by (simp add: private_database_def)
    assume "r_id r' = rid"
    from that(1) obtain v where v: "lookup st KRun rid = Some v" "?good v"
      by (auto simp: cancellation_stored_def elim!: found_row)
    with that(2,3) \<open>r_id r' = rid\<close> flag [OF v(2) _ J] show "r_cancellation_requested r'" by metis
  qed simp
qed (auto simp: private_databaseD unused_id_def record_good_def run_record_def approval_record_def dest!: run_ident_private)

end
