(* ===== verification/Laso_Manager.thy ===== *)
theory Laso_Manager
  imports Laso_Session Laso_Graph Laso_Action
begin

text \<open>
  The worker manager of \<^verbatim>\<open>src/workers/manager.cpp\<close>: it hands jobs to external workers through their adapters,
  keeps a durable record of every job, follows the jobs by status calls and events, enforces the usage
  budgets, cancels jobs and decides what workers ask for. The adapters are not part of the repository's
  core: what they answer is read at the tick of the call (\<open>me_submit\<close>, \<open>me_status\<close>, ...), and so are the
  clocks and the failures of the database. The manager's state mutex is free during the calls to adapters,
  so other threads of the process may act there: \<open>me_others\<close> is what they do at a given tick. A
  \<^verbatim>\<open>WorkerTransportError\<close> is handled apart from other errors, and so it is a value here (\<open>answer\<close>).
\<close>

section \<open>State\<close>

datatype 'a answer = Answer 'a | TransportError string bool | SubmissionCancelled | Threw exn

record worker_request =
  wr_job_id :: string
  wr_worker_id :: string
  wr_capability :: string
  wr_task_type :: string
  wr_instructions :: string
  wr_idempotency_key :: string
  wr_deadline :: string
  wr_run_id :: string
  wr_node_id :: string
  wr_durable_session_id :: string
  wr_parent_worker_job_id :: string
  wr_parent_tool_call_id :: string
  wr_parent_tool_turn_id :: string
  wr_parent_provider_session_id :: string
  wr_attempt :: u32
  wr_timeout_ms :: u64
  wr_input :: json
  wr_output_schema :: json
  wr_metadata :: json
  wr_artifact_ids :: "string list"
  wr_durable_session :: bool
  wr_continuation :: "opaque_continuation option"
  wr_session_context :: "session_context option"

record worker_submission =
  ws_external_job_id :: string
  ws_state :: worker_job_state
  ws_metadata :: json
  ws_usage :: worker_usage
  ws_result :: json
  ws_artifacts :: "json list"
  ws_error :: string
  ws_continuation :: "opaque_continuation option"

record worker_status =
  wt_state :: worker_job_state
  wt_result :: json
  wt_metadata :: json
  wt_artifacts :: "json list"
  wt_error :: string
  wt_usage :: worker_usage
  wt_continuation :: "opaque_continuation option"

text \<open>\<open>mg_sent\<close> records the jobs given to an adapter's \<^verbatim>\<open>submit\<close>; \<open>mg_threads\<close> are the submissions handed to a thread.\<close>

record manager =
  mg_store :: store
  mg_async :: "string list"
  mg_active :: "string list"
  mg_signals :: "(string, bool) omap"
  mg_threads :: "(worker_request \<times> string) list"
  mg_stopped :: bool
  mg_sent :: "string list"
  mg_tick :: nat

record manager_env =
  me_json :: json_ops
  me_max_active :: u32
  me_max_per_worker :: u32
  me_max_artifacts :: u32
  me_max_wall_time_ms :: u64
  me_max_tokens_per_run :: u64
  me_max_cost_units_per_run :: dbl
  me_policy :: "policy_engine option"
  me_uuid :: "nat \<Rightarrow> string"
  me_time :: "nat \<Rightarrow> nat \<Rightarrow> string"
  me_fault :: "nat \<Rightarrow> fault option"
  me_workers :: "nat \<Rightarrow> worker_metadata registry"
  me_restartable :: "string \<Rightarrow> bool"
  me_submit :: "nat \<Rightarrow> string \<Rightarrow> worker_request \<Rightarrow> worker_submission answer"
  me_status :: "nat \<Rightarrow> string \<Rightarrow> string \<Rightarrow> worker_status answer"
  me_result :: "nat \<Rightarrow> string \<Rightarrow> string \<Rightarrow> worker_status answer"
  me_cancel :: "nat \<Rightarrow> string \<Rightarrow> string \<Rightarrow> bool answer"
  me_cancel_pending :: "nat \<Rightarrow> string \<Rightarrow> string \<Rightarrow> bool answer"
  me_start :: "nat \<Rightarrow> string \<Rightarrow> bool"
  me_launch :: "nat \<Rightarrow> bool"
  me_add :: "dbl \<Rightarrow> dbl \<Rightarrow> dbl"
  me_others :: "nat \<Rightarrow> manager \<Rightarrow> manager"

type_synonym 'a mg = "(manager, 'a) action"

definition mdraw :: "(nat \<Rightarrow> 'a) \<Rightarrow> 'a mg" where
  "mdraw f w = (Inr (f (mg_tick w)), w\<lparr>mg_tick := Suc (mg_tick w)\<rparr>)"

definition mtime :: "manager_env \<Rightarrow> string mg" where
  "mtime E = mdraw (\<lambda>n. me_time E n 0)"

text \<open>The state mutex is free: the other threads of the process act.\<close>

definition unlocked :: "manager_env \<Rightarrow> unit mg" where
  "unlocked E w = (Inr (), (me_others E (mg_tick w) w)\<lparr>mg_tick := Suc (mg_tick w)\<rparr>)"

definition mget :: "manager_env \<Rightarrow> record_kind \<Rightarrow> string \<Rightarrow> json mg" where
  "mget E kind rid =
     abind (mdraw (me_fault E)) (\<lambda>fault. look (\<lambda>w. alift (get_record fault kind rid (mg_store w))))"

definition mlist :: "manager_env \<Rightarrow> record_kind \<Rightarrow> string \<Rightarrow> nat \<Rightarrow> nat \<Rightarrow> json list mg" where
  "mlist E kind run_id limit offset =
     abind (mdraw (me_fault E)) (\<lambda>fault. look (\<lambda>w. alift (list_records fault kind run_id limit offset (mg_store w))))"

definition mcommit :: "manager_env \<Rightarrow> store_record list \<Rightarrow> unit mg" where
  "mcommit E records w =
     (let n = mg_tick w;
          (r, st) = commit (me_json E) (me_uuid E n) (me_time E n 0) (me_time E n 1) (me_fault E n) records (mg_store w)
      in (r, w\<lparr>mg_store := st, mg_tick := Suc n\<rparr>))"

definition mclaim :: "manager_env \<Rightarrow> store_record \<Rightarrow> bool mg" where
  "mclaim E rec w =
     (let n = mg_tick w; (r, st) = claim (me_json E) (me_fault E n) rec [] (mg_store w)
      in (r, w\<lparr>mg_store := st, mg_tick := Suc n\<rparr>))"

definition worker_now :: "manager_env \<Rightarrow> string \<Rightarrow> worker_metadata mg" where
  "worker_now E worker_id = abind (mdraw (me_workers E)) (\<lambda>reg. alift (get worker_id reg))"

section \<open>Helpers\<close>

definition identifier_char :: "char \<Rightarrow> bool" where
  "identifier_char c \<longleftrightarrow> is_alnum c \<or> c = CHR ''-'' \<or> c = CHR ''_'' \<or> c = CHR ''.'' \<or> c = CHR '':''"

definition bounded_identifier :: "nat \<Rightarrow> string \<Rightarrow> bool" where
  "bounded_identifier maximum value \<longleftrightarrow> value \<noteq> [] \<and> length value \<le> maximum \<and> list_all identifier_char value"

definition browser_tool_child_needs_result :: "json_ops \<Rightarrow> worker_job \<Rightarrow> bool result" where
  "browser_tool_child_needs_result J job =
     (if wj_state job = JCompleted \<and> jcontains (wj_request_metadata job) ''parent_worker_job_id'' \<and>
         wj_external_job_id job \<noteq> []
      then rbind (jvalue (get_bool J) (wj_request_metadata job) ''codex_tool_result_retrieved'' False) (\<lambda>b. Inr (\<not> b))
      else Inr False)"

definition bounded_error :: "string \<Rightarrow> string" where
  "bounded_error value = take 512 value"

definition continuation_valid :: "opaque_continuation \<Rightarrow> bool" where
  "continuation_valid c \<longleftrightarrow>
     oc_provider_id c \<noteq> [] \<and> length (oc_provider_id c) \<le> 256 \<and> oc_provider_version c \<noteq> [] \<and>
     length (oc_provider_version c) \<le> 128 \<and> oc_state c \<noteq> [] \<and> length (oc_state c) \<le> 64 * 1024"

text \<open>\<open>None\<close> is the transport error for a continuation that breaks the limits.\<close>

definition apply_continuation :: "opaque_continuation option \<Rightarrow> worker_job \<Rightarrow> worker_job option" where
  "apply_continuation continuation job =
     (case continuation of
        None \<Rightarrow> Some job
      | Some c \<Rightarrow> if continuation_valid c then Some (job\<lparr>wj_continuation := Some c\<rparr>) else None)"

definition event_state :: "string \<Rightarrow> worker_job_state" where
  "event_state type =
     (if type = ''worker.job.started'' then JRunning
      else if type = ''worker.job.completed'' then JCompleted
      else if type = ''worker.job.failed'' then JFailed
      else if type = ''worker.job.cancelled'' then JCancelled
      else JUnknown)"

definition durable_job_id :: "string \<Rightarrow> string" where
  "durable_job_id idempotency_key = ''worker-'' @ hex_digits (unat (fnv1a idempotency_key))"

definition job_id_for :: "string \<Rightarrow> string result" where
  "job_id_for key =
     (if key = [] \<or> length key > 512 then throw Validation ''Invalid worker idempotency key''
      else Inr (durable_job_id key))"

text \<open>\<^verbatim>\<open>operator[]\<close> and \<^verbatim>\<open>update\<close> make an object of a null value and throw on anything else.\<close>

definition jassign :: "string \<Rightarrow> json \<Rightarrow> json \<Rightarrow> json result" where
  "jassign k v j = (case j of JObj m \<Rightarrow> Inr (jput k v j) | JNull \<Rightarrow> Inr (jobject [(k, v)]) | _ \<Rightarrow> Inl JsonTypeError)"

definition jupdate :: "json \<Rightarrow> json \<Rightarrow> json result" where
  "jupdate target incoming =
     (case target of
        JObj m \<Rightarrow> Inr (JObj (fold (\<lambda>(k, v). omap_put k v) (jfields incoming) m))
      | JNull \<Rightarrow> Inr (JObj (fold (\<lambda>(k, v). omap_put k v) (jfields incoming) []))
      | _ \<Rightarrow> Inl JsonTypeError)"

section \<open>Usage and budgets\<close>

definition total_tokens :: "worker_usage \<Rightarrow> u64 option" where
  "total_tokens u =
     (case us_total_tokens u of
        Some t \<Rightarrow> Some t
      | None \<Rightarrow>
          (case (us_input_tokens u, us_output_tokens u) of
             (Some a, Some b) \<Rightarrow> if a \<le> - 1 - b then Some (a + b) else None
           | _ \<Rightarrow> None))"

definition merge_usage :: "worker_usage \<Rightarrow> worker_usage \<Rightarrow> worker_usage result" where
  "merge_usage target incoming =
     (let keep = (\<lambda>new old. case new of None \<Rightarrow> old | Some _ \<Rightarrow> new);
          text = (\<lambda>new old. if new = [] then old else new);
          merged = target\<lparr>us_queue_duration_ms := keep (us_queue_duration_ms incoming) (us_queue_duration_ms target),
            us_wall_duration_ms := keep (us_wall_duration_ms incoming) (us_wall_duration_ms target),
            us_input_tokens := keep (us_input_tokens incoming) (us_input_tokens target),
            us_output_tokens := keep (us_output_tokens incoming) (us_output_tokens target),
            us_total_tokens := keep (us_total_tokens incoming) (us_total_tokens target),
            us_tool_calls := keep (us_tool_calls incoming) (us_tool_calls target),
            us_action_count := keep (us_action_count incoming) (us_action_count target),
            us_cost_units := (case us_cost_units incoming of None \<Rightarrow> us_cost_units target | Some c \<Rightarrow> Some c),
            us_provider := text (us_provider incoming) (us_provider target),
            us_model := text (us_model incoming) (us_model target),
            us_executor := text (us_executor incoming) (us_executor target)\<rparr>
      in rbind (if is_object (us_metadata incoming) then jupdate (us_metadata merged) (us_metadata incoming)
                else Inr (us_metadata merged)) (\<lambda>metadata.
         let merged = merged\<lparr>us_metadata := metadata\<rparr>
         in Inr (merged\<lparr>us_total_tokens := total_tokens merged\<rparr>)))"

definition max_usage_metric :: u64 where
  "max_usage_metric = 1000000000000000"

fun dbl_greater :: "dbl \<Rightarrow> dbl \<Rightarrow> bool" where
  "dbl_greater NaN _ = False"
| "dbl_greater _ NaN = False"
| "dbl_greater NegInf _ = False"
| "dbl_greater PosInf b = (b \<noteq> PosInf)"
| "dbl_greater (Finite a) PosInf = False"
| "dbl_greater (Finite a) NegInf = True"
| "dbl_greater (Finite a) (Finite b) = (a > b)"

definition cost_invalid :: "dbl \<Rightarrow> bool" where
  "cost_invalid c \<longleftrightarrow> (case c of Finite q \<Rightarrow> q < 0 \<or> q > 1000000000000000 | _ \<Rightarrow> True)"

text \<open>What is wrong with the reported numbers themselves; empty when nothing is.\<close>

definition usage_violation :: "manager_env \<Rightarrow> worker_usage \<Rightarrow> string result" where
  "usage_violation E u =
     (let exceeds = (\<lambda>metric. case metric of None \<Rightarrow> False | Some (x :: u64) \<Rightarrow> x > max_usage_metric) in
      if exceeds (us_queue_duration_ms u) \<or> exceeds (us_wall_duration_ms u) \<or> exceeds (us_input_tokens u) \<or>
         exceeds (us_output_tokens u) \<or> exceeds (us_total_tokens u) \<or> exceeds (us_tool_calls u) \<or>
         exceeds (us_action_count u)
      then Inr ''reported worker usage exceeds the representable limit''
      else rbind (json_size (me_json E) (us_metadata u)) (\<lambda>bytes.
        if bytes > 64 * 1024 then Inr ''worker usage metadata exceeds the limit''
        else if length (us_provider u) > 128 \<or> length (us_model u) > 128 \<or> length (us_executor u) > 128
        then Inr ''worker usage identity exceeds the limit''
        else if (case us_cost_units u of None \<Rightarrow> False | Some c \<Rightarrow> cost_invalid c)
        then Inr ''reported worker cost_units is invalid''
        else if me_max_wall_time_ms E \<noteq> 0 \<and>
           (case us_wall_duration_ms u of None \<Rightarrow> False | Some t \<Rightarrow> t > me_max_wall_time_ms E)
        then Inr ''worker wall-time budget exceeded''
        else Inr []))"

text \<open>The usage of the other jobs of the run; \<open>None\<close> when their tokens do not fit a word.\<close>

fun prior_usage :: "manager_env \<Rightarrow> string \<Rightarrow> json list \<Rightarrow> u64 \<Rightarrow> dbl \<Rightarrow> (u64 \<times> dbl) option result" where
  "prior_usage E jid [] tokens cost = Inr (Some (tokens, cost))"
| "prior_usage E jid (v # vs) tokens cost =
     rbind (worker_job_from_json (me_json E) v) (\<lambda>prior.
       if wj_id prior = jid then prior_usage E jid vs tokens cost
       else
         let more = (case total_tokens (wj_usage prior) of None \<Rightarrow> 0 | Some t \<Rightarrow> t) in
         if tokens > - 1 - more then Inr None
         else prior_usage E jid vs (tokens + more)
                (case us_cost_units (wj_usage prior) of None \<Rightarrow> cost | Some c \<Rightarrow> me_add E cost c))"

definition budget_violation :: "manager_env \<Rightarrow> worker_job \<Rightarrow> string mg" where
  "budget_violation E job =
     abind (alift (usage_violation E (wj_usage job))) (\<lambda>violation.
     if violation \<noteq> [] then aret violation
     else
       let limit = me_max_tokens_per_run E; cost_limit = me_max_cost_units_per_run E in
       abind (if limit \<noteq> 0 \<or> cost_limit \<noteq> Finite 0 then
                abind (mlist E KWorkerJob (wj_run_id job) 10000 0) (\<lambda>records.
                alift (prior_usage E (wj_id job) records 0 (Finite 0)))
              else aret (Some (0, Finite 0))) (\<lambda>prior.
       case prior of
         None \<Rightarrow> aret ''worker token budget exceeded''
       | Some (tokens, cost) \<Rightarrow>
           aret (if limit \<noteq> 0 \<and> (case total_tokens (wj_usage job) of
                                    None \<Rightarrow> False
                                  | Some t \<Rightarrow> tokens > limit \<or> t > limit - tokens)
                 then ''worker token budget exceeded''
                 else if cost_limit \<noteq> Finite 0 \<and>
                   (case us_cost_units (wj_usage job) of
                      None \<Rightarrow> False
                    | Some c \<Rightarrow> dbl_greater (me_add E cost c) cost_limit)
                 then ''worker cost_units budget exceeded'' else [])))"

section \<open>Records of jobs\<close>

definition manager_job :: "manager_env \<Rightarrow> string \<Rightarrow> worker_job mg" where
  "manager_job E jid =
     (if \<not> bounded_identifier 128 jid then athrow Validation ''Invalid worker job id''
      else abind (mget E KWorkerJob jid) (\<lambda>v. alift (worker_job_from_json (me_json E) v)))"

definition job_record :: "worker_job \<Rightarrow> store_record" where
  "job_record job =
     \<lparr>sr_kind = KWorkerJob, sr_id = wj_id job, sr_run_id = wj_run_id job, sr_value = worker_job_to_json job\<rparr>"

fun artifacts_within :: "json_ops \<Rightarrow> json list \<Rightarrow> nat \<Rightarrow> unit result" where
  "artifacts_within J [] used = Inr ()"
| "artifacts_within J (a # as) used =
     rbind (json_size J a) (\<lambda>size.
       if size > 64 * 1024 \<or> used > 64 * 1024 - size then throw Validation ''Worker artifact metadata exceeds limit''
       else artifacts_within J as (used + size))"

definition check_job :: "manager_env \<Rightarrow> worker_job \<Rightarrow> unit result" where
  "check_job E job =
     (let J = me_json E in
      rbind (artifacts_within J (wj_artifacts job) 0) (\<lambda>_.
      rbind (dump_within J (1024 * 1024) (wj_result job) ''Worker result exceeds limit'') (\<lambda>_.
      rbind (dump_within J (64 * 1024) (wj_result_metadata job) ''Worker result exceeds limit'') (\<lambda>_.
      if length (wj_artifacts job) > unat (me_max_artifacts E) then throw Validation ''Worker result exceeds limit''
      else dump_within J (64 * 1024) (us_metadata (wj_usage job)) ''Worker usage metadata exceeds limit''))))"

text \<open>Returned is the job as it was written.\<close>

definition persist :: "manager_env \<Rightarrow> worker_job \<Rightarrow> worker_job mg" where
  "persist E job =
     (let job = job\<lparr>wj_error := take 512 (wj_error job), wj_cancellation_error := take 512 (wj_cancellation_error job)\<rparr> in
      abind (alift (check_job E job)) (\<lambda>_.
      let job = (if wj_state job \<noteq> JCompleted then job\<lparr>wj_continuation := None\<rparr> else job) in
      abind (mcommit E [job_record job]) (\<lambda>_. aret job)))"

definition forget_signal :: "string \<Rightarrow> unit mg" where
  "forget_signal jid = modify (\<lambda>w. w\<lparr>mg_signals := omap_erase jid (mg_signals w)\<rparr>)"

definition get_work :: "manager_env \<Rightarrow> string \<Rightarrow> node_work mg" where
  "get_work E wid =
     abind (mget E KNodeWork wid) (\<lambda>v.
     abind (mdraw (\<lambda>n. node_work_from_json (me_json E) (me_uuid E n) (me_time E n 0) (me_time E n 1) v)) alift)"

definition retire_superseded :: "manager_env \<Rightarrow> json \<Rightarrow> unit mg" where
  "retire_superseded E record =
     (let text = (\<lambda>job k. alift (jvalue (get_string (me_json E)) (wj_request_metadata job) k [])) in
      abind (alift (worker_job_from_json (me_json E) record)) (\<lambda>job.
      if worker_job_terminal (wj_state job) then aret ()
      else
        abind (text job ''node_work_id'') (\<lambda>work_id.
        abind (text job ''node_work_attempt_id'') (\<lambda>attempt_id.
        if work_id = [] \<or> attempt_id = [] then aret ()
        else
          ignoring
            (abind (get_work E work_id) (\<lambda>work.
             if w_state work = WRunning \<and> w_attempt_id work = attempt_id then aret ()
             else
               abind (mtime E) (\<lambda>now.
               abind (persist E (job\<lparr>wj_state := JFailed, wj_failure_kind := FTransport,
                        wj_error := ''Worker attempt was superseded or lost its node lease'',
                        wj_completed_at := now\<rparr>)) (\<lambda>_. aret ()))))))))"

definition retire_superseded_distributed_jobs :: "manager_env \<Rightarrow> unit mg" where
  "retire_superseded_distributed_jobs E =
     abind (mlist E KWorkerJob [] 10000 0) (\<lambda>records. afor records (retire_superseded E))"

text \<open>A submission that no thread of this process is making any more has an unknown outcome.\<close>

definition fence_stale_submission :: "manager_env \<Rightarrow> worker_job \<Rightarrow> worker_job mg" where
  "fence_stale_submission E job =
     look (\<lambda>w.
       if wj_state job \<noteq> JSubmitting \<or> wj_external_job_id job \<noteq> [] \<or>
          wj_id job \<in> set (mg_async w) \<or> wj_id job \<in> set (mg_active w) then aret job
       else
         abind (persist E (job\<lparr>wj_state := JUnknown,
                  wj_error := ''Worker submission was interrupted before its external job ID was recorded; the outcome is unknown and it will not be resubmitted''\<rparr>)) (\<lambda>job.
         abind (forget_signal (wj_id job)) (\<lambda>_. aret job)))"

definition fence_stale_submissions :: "manager_env \<Rightarrow> unit mg" where
  "fence_stale_submissions E =
     abind (mlist E KWorkerJob [] 10000 0) (\<lambda>records.
     afor records (\<lambda>v.
       abind (alift (worker_job_from_json (me_json E) v)) (\<lambda>job.
       abind (fence_stale_submission E job) (\<lambda>_. aret ()))))"

definition finalize_pending_cancellation :: "manager_env \<Rightarrow> string \<Rightarrow> worker_job mg" where
  "finalize_pending_cancellation E jid =
     abind (manager_job E jid) (\<lambda>job.
     if worker_job_terminal (wj_state job) \<or> \<not> wj_cancellation_requested job \<or> wj_external_job_id job \<noteq> []
     then aret job
     else
       abind (mtime E) (\<lambda>now.
       abind (persist E (job\<lparr>wj_state := wj_cancellation_target_state job, wj_cancellation_acknowledged := True,
                wj_cancellation_error := [], wj_completed_at := now\<rparr>)) (\<lambda>job.
       abind (forget_signal (wj_id job)) (\<lambda>_. aret job))))"

section \<open>Recording what an adapter answered\<close>

text \<open>The state and the texts of a submission, before the budgets are looked at.\<close>

definition submitted :: "worker_submission \<Rightarrow> worker_job \<Rightarrow> worker_job option" where
  "submitted sub job =
     (case apply_continuation (ws_continuation sub)
             (job\<lparr>wj_external_job_id := ws_external_job_id sub, wj_state := ws_state sub,
                  wj_result_metadata := ws_metadata sub\<rparr>) of
        None \<Rightarrow> None
      | Some job \<Rightarrow>
          Some (job\<lparr>wj_result := (if ws_result sub = JNull then wj_result job else ws_result sub),
                    wj_artifacts := (if ws_artifacts sub = [] then wj_artifacts job else ws_artifacts sub),
                    wj_error := (if ws_error sub = [] then wj_error job else bounded_error (ws_error sub))\<rparr>))"

definition settle_submission :: "manager_env \<Rightarrow> worker_submission \<Rightarrow> worker_job \<Rightarrow> worker_job mg" where
  "settle_submission E sub job =
     abind (alift (merge_usage (wj_usage job) (ws_usage sub))) (\<lambda>usage.
     abind (mtime E) (\<lambda>now.
     let job = job\<lparr>wj_usage := usage,
                   wj_completed_at := (if worker_job_terminal (wj_state job) then now else wj_completed_at job)\<rparr> in
     abind (budget_violation E job) (\<lambda>violation.
     abind (mtime E) (\<lambda>now.
     abind (persist E
              (if violation \<noteq> []
               then job\<lparr>wj_state := JFailed, wj_failure_kind := FBudget, wj_error := violation, wj_completed_at := now\<rparr>
               else if wj_state job = JFailed then job\<lparr>wj_failure_kind := FJob\<rparr> else job)) (\<lambda>job.
     abind (forget_signal (wj_id job)) (\<lambda>_. aret job))))))"

definition acknowledged :: "bool answer \<Rightarrow> bool" where
  "acknowledged a \<longleftrightarrow> (case a of Answer b \<Rightarrow> b | _ \<Rightarrow> False)"

text \<open>A job whose cancellation was requested during the submission is cancelled at the worker at once.\<close>

definition cancel_submitted :: "manager_env \<Rightarrow> string \<Rightarrow> string \<Rightarrow> string \<Rightarrow> worker_job mg" where
  "cancel_submitted E worker_id jid external =
     abind (unlocked E) (\<lambda>_.
     abind (mdraw (\<lambda>n. me_cancel E n worker_id external)) (\<lambda>answer.
     abind (manager_job E jid) (\<lambda>job.
     if worker_job_terminal (wj_state job) then aret job
     else
       abind (mtime E) (\<lambda>now.
       persist E
         (if acknowledged answer
          then job\<lparr>wj_state := wj_cancellation_target_state job, wj_cancellation_acknowledged := True,
                   wj_cancellation_error := [], wj_completed_at := now\<rparr>
          else if wj_cancellation_error job = []
          then job\<lparr>wj_cancellation_error := ''Worker did not acknowledge cancellation''\<rparr> else job)))))"

definition record_submission :: "manager_env \<Rightarrow> string \<Rightarrow> string \<Rightarrow> worker_submission \<Rightarrow> worker_job answer mg" where
  "record_submission E worker_id jid sub =
     (if ws_external_job_id sub = [] \<or> length (ws_external_job_id sub) > 512
      then aret (TransportError ''Worker returned an invalid external job id'' False)
      else
        abind (manager_job E jid) (\<lambda>job.
        if worker_job_terminal (wj_state job) then aret (Answer job)
        else
          case submitted sub job of
            None \<Rightarrow> aret (TransportError ''Worker returned invalid continuation state'' False)
          | Some new \<Rightarrow>
              abind (settle_submission E sub new) (\<lambda>stored.
              if wj_cancellation_requested job \<and> \<not> worker_job_terminal (ws_state sub)
              then abind (cancel_submitted E worker_id jid (ws_external_job_id sub)) (\<lambda>job. aret (Answer job))
              else aret (Answer stored))))"

section \<open>Following a job\<close>

text \<open>
  The guarded part of \<^verbatim>\<open>reconcile\<close>: its local copy of the job survives an exception and is returned
  with what went wrong.
\<close>

datatype outcome = Settled | Lost string | Broken

definition attempt :: "worker_job \<Rightarrow> 'a mg \<Rightarrow> ('a \<Rightarrow> (worker_job \<times> outcome) mg) \<Rightarrow> (worker_job \<times> outcome) mg" where
  "attempt job m f w = (case m w of (Inr a, w') \<Rightarrow> f a w' | (Inl _, w') \<Rightarrow> (Inr (job, Broken), w'))"

definition asking :: "worker_job \<Rightarrow> 'a answer \<Rightarrow> ('a \<Rightarrow> (worker_job \<times> outcome) mg) \<Rightarrow> (worker_job \<times> outcome) mg" where
  "asking job answer f =
     (case answer of
        Answer a \<Rightarrow> f a
      | TransportError message _ \<Rightarrow> aret (job, Lost message)
      | SubmissionCancelled \<Rightarrow> aret (job, Lost ''Worker submission was cancelled before dispatch'')
      | Threw _ \<Rightarrow> aret (job, Broken))"

text \<open>The result of a tool call that was completed without it.\<close>

definition late_result :: "manager_env \<Rightarrow> worker_status \<Rightarrow> worker_job \<Rightarrow> (worker_job \<times> outcome) mg" where
  "late_result E final job =
     (let J = me_json E in
      attempt job (manager_job E (wj_id job)) (\<lambda>job.
      attempt job (alift (rbind (browser_tool_child_needs_result J job) (\<lambda>needs.
          if needs \<and> wt_state final = JCompleted \<and> wt_result final \<noteq> JNull
          then rbind (json_size J (wt_result final)) (\<lambda>bytes. Inr (bytes \<le> 1024 * 1024)) else Inr False))) (\<lambda>fits.
      if \<not> fits then aret (job, Settled)
      else
        attempt job (alift (rbind (jassign ''codex_tool_result_retrieved'' (JBool True) (wj_request_metadata job)) (\<lambda>request.
            rbind (if is_object (wt_metadata final)
                   then rbind (json_size J (wt_metadata final)) (\<lambda>bytes. Inr (bytes \<le> 64 * 1024)) else Inr False) (\<lambda>meta.
            rbind (merge_usage (wj_usage job) (wt_usage final)) (\<lambda>usage.
            Inr (request, meta, usage)))))) (\<lambda>(request, meta, usage).
        let job = job\<lparr>wj_result := wt_result final, wj_request_metadata := request,
              wj_result_metadata := (if meta then wt_metadata final else wj_result_metadata job),
              wj_error := (if wt_error final = [] then wj_error job else bounded_error (wt_error final)),
              wj_artifacts := (if wt_artifacts final \<noteq> [] \<and> length (wt_artifacts final) \<le> unat (me_max_artifacts E)
                               then wt_artifacts final else wj_artifacts job),
              wj_usage := usage\<rparr>
        in attempt job (persist E job) (\<lambda>job. aret (job, Settled))))))"

text \<open>
  Some workers report completion first and the payload with the result. The continuation of the result is
  checked, but it goes to the local copy of the job, which is read again before the status is applied.
\<close>

definition merge_final :: "worker_status \<Rightarrow> worker_status \<Rightarrow> (bool \<times> worker_status) result" where
  "merge_final final status =
     (let got = wt_state final = JCompleted \<and> wt_result final \<noteq> JNull in
      rbind (if is_object (wt_metadata final) \<and> \<not> json_empty (wt_metadata final)
             then jupdate (if is_object (wt_metadata status) then wt_metadata status else jobject []) (wt_metadata final)
             else Inr (wt_metadata status)) (\<lambda>metadata.
      rbind (merge_usage (wt_usage status) (wt_usage final)) (\<lambda>usage.
      Inr (got, status\<lparr>wt_result := (if got then wt_result final else wt_result status), wt_metadata := metadata,
             wt_error := (if wt_error final = [] then wt_error status else wt_error final),
             wt_artifacts := (if wt_artifacts final = [] then wt_artifacts status else wt_artifacts final),
             wt_usage := usage\<rparr>))))"

definition with_final_result ::
  "manager_env \<Rightarrow> worker_job \<Rightarrow> worker_status \<Rightarrow> (bool \<times> worker_status \<Rightarrow> (worker_job \<times> outcome) mg) \<Rightarrow> (worker_job \<times> outcome) mg" where
  "with_final_result E job status f =
     (if wt_state status = JCompleted \<and>
         (wt_result status = JNull \<or> jcontains (wj_request_metadata job) ''parent_worker_job_id'')
      then
        abind (mdraw (\<lambda>n. me_result E n (wj_worker_id job) (wj_external_job_id job))) (\<lambda>answer.
        asking job answer (\<lambda>final.
        attempt job (alift (merge_final final status)) (\<lambda>merged.
        case apply_continuation (wt_continuation final) job of
          None \<Rightarrow> aret (job, Lost ''Worker returned invalid continuation state'')
        | Some _ \<Rightarrow> f merged)))
      else f (False, status))"

text \<open>The fields a status report changes; the continuation has been checked.\<close>

definition with_status :: "manager_env \<Rightarrow> worker_status \<Rightarrow> bool \<Rightarrow> bool \<Rightarrow> worker_usage \<Rightarrow> worker_job \<Rightarrow> worker_job" where
  "with_status E status result_fits metadata_fits usage job =
     job\<lparr>wj_state := wt_state status,
         wj_result := (if result_fits then wt_result status else wj_result job),
         wj_result_metadata := (if metadata_fits then wt_metadata status else wj_result_metadata job),
         wj_usage := usage,
         wj_artifacts := (if wt_artifacts status \<noteq> [] \<and> length (wt_artifacts status) \<le> unat (me_max_artifacts E)
                          then wt_artifacts status else wj_artifacts job),
         wj_error := (if wt_error status = [] then wj_error job else bounded_error (wt_error status))\<rparr>"

definition judge_status :: "string \<Rightarrow> string \<Rightarrow> worker_job \<Rightarrow> worker_job" where
  "judge_status violation now job =
     (let job = (if violation \<noteq> [] then job\<lparr>wj_state := JFailed, wj_failure_kind := FBudget, wj_error := violation\<rparr>
                 else if wj_state job = JFailed \<and> wj_failure_kind job = FNone then job\<lparr>wj_failure_kind := FJob\<rparr> else job)
      in if worker_job_terminal (wj_state job) \<and> wj_completed_at job = [] then job\<lparr>wj_completed_at := now\<rparr> else job)"

definition apply_status :: "manager_env \<Rightarrow> bool \<times> worker_status \<Rightarrow> worker_job \<Rightarrow> (worker_job \<times> outcome) mg" where
  "apply_status E merged job =
     (case merged of (got, status) \<Rightarrow> let J = me_json E in
      if worker_job_terminal (wj_state job) then aret (job, Settled)
      else if \<not> valid_worker_job_transition (wj_state job) (wt_state status) \<and> wj_state job \<noteq> wt_state status
      then aret (job, Settled)
      else
        attempt job (alift (rbind (if wt_result status \<noteq> JNull
              then rbind (json_size J (wt_result status)) (\<lambda>bytes. Inr (bytes \<le> 1024 * 1024)) else Inr False) (\<lambda>result_fits.
            rbind (if is_object (wt_metadata status)
              then rbind (json_size J (wt_metadata status)) (\<lambda>bytes. Inr (bytes \<le> 64 * 1024)) else Inr False) (\<lambda>metadata_fits.
            Inr (result_fits, metadata_fits))))) (\<lambda>(result_fits, metadata_fits).
        case apply_continuation (wt_continuation status) job of
          None \<Rightarrow> aret (job, Lost ''Worker returned invalid continuation state'')
        | Some job \<Rightarrow>
            attempt job (alift (merge_usage (wj_usage job) (wt_usage status))) (\<lambda>usage.
            let job = with_status E status result_fits metadata_fits usage job in
            attempt job (budget_violation E job) (\<lambda>violation.
            attempt job (mtime E) (\<lambda>now.
            let job = judge_status violation now job in
            attempt job (if wt_state status = JCompleted \<and> got \<and> jcontains (wj_request_metadata job) ''parent_worker_job_id''
                         then alift (jassign ''codex_tool_result_retrieved'' (JBool True) (wj_request_metadata job))
                         else aret (wj_request_metadata job)) (\<lambda>request.
            attempt job (persist E (job\<lparr>wj_request_metadata := request\<rparr>)) (\<lambda>job. aret (job, Settled))))))))"

definition job_forgotten :: "manager_env \<Rightarrow> worker_job \<Rightarrow> (worker_job \<times> outcome) mg" where
  "job_forgotten E job =
     (if \<not> worker_job_terminal (wj_state job) \<and> wj_state job \<noteq> JUnknown
      then let job = job\<lparr>wj_state := JUnknown,
             wj_error := ''Worker process no longer knows this job; it will not be resubmitted''\<rparr>
           in attempt job (persist E job) (\<lambda>job. aret (job, Settled))
      else aret (job, Settled))"

definition ask_worker :: "manager_env \<Rightarrow> bool \<Rightarrow> worker_job \<Rightarrow> (worker_job \<times> outcome) mg" where
  "ask_worker E missing job =
     abind (unlocked E) (\<lambda>_.
     if missing then
       abind (mdraw (\<lambda>n. me_result E n (wj_worker_id job) (wj_external_job_id job))) (\<lambda>answer.
       asking job answer (\<lambda>final. late_result E final job))
     else
       abind (mdraw (\<lambda>n. me_status E n (wj_worker_id job) (wj_external_job_id job))) (\<lambda>answer.
       asking job answer (\<lambda>status.
       with_final_result E job status (\<lambda>merged.
       attempt job (manager_job E (wj_id job)) (\<lambda>job.
       if wt_state (snd merged) = JUnknown then job_forgotten E job else apply_status E merged job)))))"

definition lose_transport :: "manager_env \<Rightarrow> string \<Rightarrow> string \<Rightarrow> worker_job mg" where
  "lose_transport E jid message =
     abind (manager_job E jid) (\<lambda>job.
     if worker_job_terminal (wj_state job) then aret job
     else
       abind (mtime E) (\<lambda>now.
       persist E (job\<lparr>wj_state := JFailed, wj_failure_kind := FTransport, wj_error := bounded_error message,
                      wj_completed_at := now\<rparr>)))"

definition reconcile_job :: "manager_env \<Rightarrow> worker_job \<Rightarrow> bool \<Rightarrow> worker_job mg" where
  "reconcile_job E job fail_transport =
     abind (alift (browser_tool_child_needs_result (me_json E) job)) (\<lambda>missing.
     if (worker_job_terminal (wj_state job) \<and> \<not> missing) \<or> wj_external_job_id job = [] then aret job
     else
       abind (worker_now E (wj_worker_id job)) (\<lambda>metadata.
       if \<not> wm_supports_status metadata \<and> \<not> wm_supports_recovery metadata then aret job
       else
         abind (ask_worker E missing job) (\<lambda>(job, outcome).
         case outcome of
           Lost message \<Rightarrow> if fail_transport then lose_transport E (wj_id job) message else aret job
         | _ \<Rightarrow> aret job)))"

definition refresh_job :: "manager_env \<Rightarrow> string \<Rightarrow> worker_job mg" where
  "refresh_job E jid =
     abind (manager_job E jid) (\<lambda>job.
     abind (fence_stale_submission E job) (\<lambda>job.
     abind (alift (browser_tool_child_needs_result (me_json E) job)) (\<lambda>missing.
     if (worker_job_terminal (wj_state job) \<and> \<not> missing) \<or> wj_external_job_id job = [] then aret job
     else reconcile_job E job True)))"

section \<open>Submitting a job\<close>

definition check_worker_request :: "manager_env \<Rightarrow> worker_request \<Rightarrow> unit result" where
  "check_worker_request E q =
     (let J = me_json E; limit = ''Worker request exceeds limit''; context = ''Worker session context exceeds limit'' in
      if wr_idempotency_key q = [] \<or> length (wr_idempotency_key q) > 512 \<or> length (wr_task_type q) > 128 \<or>
         length (wr_capability q) > 128 \<or> length (wr_parent_worker_job_id q) > 128 \<or>
         length (wr_parent_tool_call_id q) > 512 \<or> length (wr_parent_tool_turn_id q) > 512 \<or>
         length (wr_parent_provider_session_id q) > 512 \<or> length (wr_instructions q) > 1024 * 1024
      then throw Validation limit
      else
        rbind (dump_within J (1024 * 1024) (wr_input q) limit) (\<lambda>_.
        rbind (dump_within J (64 * 1024) (wr_metadata q) limit) (\<lambda>_.
        if length (wr_artifact_ids q) > unat (me_max_artifacts E) then throw Validation limit
        else
          rbind (case wr_session_context q of
                   None \<Rightarrow> Inr ()
                 | Some c \<Rightarrow>
                     if \<not> wr_durable_session q then throw Validation context
                     else rbind (dump_within J (1024 * 1024) (sx_payload c) context) (\<lambda>_.
                          dump_within J (1024 * 1024) (sx_recent_turns c) context)) (\<lambda>_.
          if (case wr_continuation q of None \<Rightarrow> False | Some c \<Rightarrow> \<not> continuation_valid c)
          then throw Validation context
          else if \<not> list_all (bounded_identifier 128) (wr_artifact_ids q)
          then throw Validation ''Invalid worker artifact reference'' else Inr ()))))"

definition usable :: "manager_env \<Rightarrow> worker_metadata \<Rightarrow> string \<Rightarrow> bool" where
  "usable E m worker_id \<longleftrightarrow>
     wm_enabled m \<and> wm_status m \<noteq> ''disabled'' \<and> wm_status m \<noteq> ''unavailable'' \<and>
     (wm_healthy m \<or> (wm_status m = ''failed'' \<and> (wm_supports_recovery m \<or> me_restartable E worker_id)))"

text \<open>A transport that failed is started once more; when that works, the registry shows its new state.\<close>

definition worker_ready :: "manager_env \<Rightarrow> string \<Rightarrow> worker_metadata mg" where
  "worker_ready E worker_id =
     abind (worker_now E worker_id) (\<lambda>m.
     abind (if (wm_supports_recovery m \<or> me_restartable E worker_id) \<and> \<not> wm_healthy m \<and>
               wm_status m \<noteq> ''disabled'' \<and> wm_status m \<noteq> ''unavailable''
            then abind (unlocked E) (\<lambda>_. abind (mdraw (\<lambda>n. me_start E n worker_id)) (\<lambda>started.
                 if started then acatch (worker_now E worker_id) (\<lambda>_. aret m) else aret m))
            else aret m) (\<lambda>m.
     if usable E m worker_id then aret m else athrow Capacity ''Worker is unavailable''))"

definition existing_job :: "manager_env \<Rightarrow> string \<Rightarrow> worker_request \<Rightarrow> string \<Rightarrow> worker_job option mg" where
  "existing_job E jid q worker_id =
     atry (abind (manager_job E jid) (\<lambda>job.
           if wj_idempotency_key job \<noteq> wr_idempotency_key q then athrow Conflict ''Worker idempotency key collision''
           else if wj_worker_id job \<noteq> worker_id then athrow Conflict ''Worker idempotency key belongs to another worker''
           else aret (Some job)))
       aret (\<lambda>code text. if code = NotFound then aret None else athrow code text)"

definition live :: "worker_job \<Rightarrow> bool" where
  "live job \<longleftrightarrow> \<not> worker_job_terminal (wj_state job) \<and> wj_state job \<noteq> JUnknown"

definition check_capacity :: "manager_env \<Rightarrow> string \<Rightarrow> unit mg" where
  "check_capacity E worker_id =
     abind (mlist E KWorkerJob [] 10000 0) (\<lambda>records.
     abind (alift (mapM (worker_job_from_json (me_json E)) records)) (\<lambda>jobs.
     if length (filter live jobs) \<ge> unat (me_max_active E)
     then athrow Capacity ''Worker job capacity is exhausted''
     else if length (filter (\<lambda>j. live j \<and> wj_worker_id j = worker_id) jobs) \<ge> unat (me_max_per_worker E)
     then athrow Capacity ''Worker-specific job capacity is exhausted'' else aret ()))"

definition request_metadata :: "worker_request \<Rightarrow> json" where
  "request_metadata q =
     (let text = (\<lambda>k v j. if v = [] then j else jput k (JStr v) j);
          copied = filter (\<lambda>(k, v). k \<in> {''classification'', ''node_work_id'', ''node_work_attempt_id'', ''required_tool''})
                     (jfields (wr_metadata q))
      in jputs copied
           (text ''parent_codex_session_id'' (wr_parent_provider_session_id q)
           (text ''parent_codex_turn_id'' (wr_parent_tool_turn_id q)
           (text ''parent_tool_call_id'' (wr_parent_tool_call_id q)
           (text ''parent_worker_job_id'' (wr_parent_worker_job_id q)
              (jobject [(''task_type'', JStr (wr_task_type q)), (''capability'', JStr (wr_capability q)),
                        (''deadline'', JStr (wr_deadline q)),
                        (''artifact_ids'', JArr (map JStr (wr_artifact_ids q)))]))))))"

definition new_job :: "string \<Rightarrow> worker_request \<Rightarrow> string \<Rightarrow> string \<Rightarrow> worker_job" where
  "new_job now q jid worker_id =
     \<lparr>wj_id = jid, wj_worker_id = worker_id, wj_run_id = wr_run_id q, wj_node_id = wr_node_id q,
      wj_idempotency_key = wr_idempotency_key q, wj_external_job_id = [], wj_submitted_at = now,
      wj_started_at = [], wj_completed_at = [], wj_error = [], wj_cancellation_error = [],
      wj_attempt = wr_attempt q, wj_state = JCreated, wj_cancellation_target_state = JCancelled,
      wj_failure_kind = FNone, wj_cancellation_requested = False, wj_cancellation_acknowledged = False,
      wj_request_metadata = request_metadata q, wj_result = jobject [], wj_result_metadata = jobject [],
      wj_artifacts = [], wj_usage = no_usage, wj_continuation = None\<rparr>"

text \<open>The durable record comes first; \<open>None\<close> when another process has made it meanwhile.\<close>

definition create_job :: "manager_env \<Rightarrow> worker_request \<Rightarrow> string \<Rightarrow> string \<Rightarrow> worker_job option mg" where
  "create_job E q jid worker_id =
     abind (mtime E) (\<lambda>now.
     let job = new_job now q jid worker_id in
     abind (mclaim E (job_record job)) (\<lambda>won.
     if \<not> won then aret None
     else abind (persist E (job\<lparr>wj_state := JSubmitting\<rparr>)) (\<lambda>job. aret (Some job))))"

definition signal_for :: "string \<Rightarrow> unit mg" where
  "signal_for jid = modify (\<lambda>w. w\<lparr>mg_signals := omap_put jid False (mg_signals w)\<rparr>)"

definition offer_signal :: "string \<Rightarrow> unit mg" where
  "offer_signal jid = modify (\<lambda>w. if omap_contains (mg_signals w) jid then w else w\<lparr>mg_signals := omap_put jid False (mg_signals w)\<rparr>)"

text \<open>The call across the boundary to the worker, and the record of what it answered.\<close>

definition hand_over :: "manager_env \<Rightarrow> worker_request \<Rightarrow> string \<Rightarrow> string \<Rightarrow> worker_job answer mg" where
  "hand_over E q jid worker_id =
     abind (modify (\<lambda>w. w\<lparr>mg_sent := mg_sent w @ [jid]\<rparr>)) (\<lambda>_.
     abind (unlocked E) (\<lambda>_.
     abind (mdraw (\<lambda>n. me_submit E n worker_id (q\<lparr>wr_job_id := jid\<rparr>))) (\<lambda>answer.
     case answer of
       Answer sub \<Rightarrow> record_submission E worker_id jid sub
     | TransportError message timed_out \<Rightarrow> aret (TransportError message timed_out)
     | SubmissionCancelled \<Rightarrow> aret SubmissionCancelled
     | Threw e \<Rightarrow> alift (Inl e))))"

definition caught :: "worker_job answer mg \<Rightarrow> worker_job answer mg" where
  "caught m = acatch m (\<lambda>e. aret (Threw e))"

text \<open>Fail the job unless it has ended meanwhile.\<close>

definition fail_job :: "manager_env \<Rightarrow> string \<Rightarrow> worker_job_state \<Rightarrow> worker_failure_kind \<Rightarrow> string \<Rightarrow> worker_job mg" where
  "fail_job E jid state kind message =
     abind (manager_job E jid) (\<lambda>job.
     if worker_job_terminal (wj_state job) then aret job
     else
       abind (mtime E) (\<lambda>now.
       persist E (job\<lparr>wj_state := state, wj_failure_kind := kind, wj_error := message, wj_completed_at := now\<rparr>)))"

text \<open>After a transport error: a job whose cancellation is under way is left to it for a second.\<close>

definition transport_failed :: "manager_env \<Rightarrow> string \<Rightarrow> string \<Rightarrow> bool \<Rightarrow> worker_job mg" where
  "transport_failed E jid message timed_out =
     abind (manager_job E jid) (\<lambda>job.
     if worker_job_terminal (wj_state job) then aret job
     else if wj_cancellation_requested job
     then abind (unlocked E) (\<lambda>_. acatch (manager_job E jid) (\<lambda>_. aret job))
     else
       abind (mtime E) (\<lambda>now.
       persist E (job\<lparr>wj_state := (if timed_out then JTimedOut else JFailed), wj_failure_kind := FTransport,
                      wj_error := bounded_error message, wj_completed_at := now\<rparr>)))"

text \<open>The first submission of a job that has its durable record.\<close>

definition submit_created :: "manager_env \<Rightarrow> worker_request \<Rightarrow> string \<Rightarrow> string \<Rightarrow> worker_job mg" where
  "submit_created E q jid worker_id =
     abind (finalize_pending_cancellation E jid) (\<lambda>pending.
     if worker_job_terminal (wj_state pending) then aret pending
     else
       abind (caught (hand_over E q jid worker_id)) (\<lambda>answer.
       abind (case answer of
                Answer job \<Rightarrow> aret job
              | SubmissionCancelled \<Rightarrow> finalize_pending_cancellation E jid
              | TransportError message timed_out \<Rightarrow> transport_failed E jid message timed_out
              | Threw e \<Rightarrow>
                  (case e of
                     Error code text \<Rightarrow>
                       if code = Storage then alift (Inl e)
                       else fail_job E jid JFailed FJob
                              (bounded_error (if code = Plugin then text else ''Worker submission failed''))
                   | _ \<Rightarrow> fail_job E jid JFailed FJob ''Worker submission failed'')) (\<lambda>_.
       manager_job E jid)))"

text \<open>A job that exists without a handle at the worker: only a recovery-capable adapter is asked again.\<close>

definition resubmit :: "manager_env \<Rightarrow> worker_request \<Rightarrow> worker_metadata \<Rightarrow> string \<Rightarrow> string \<Rightarrow> worker_job mg" where
  "resubmit E q metadata jid worker_id =
     (if \<not> wm_supports_recovery metadata then
        abind (manager_job E jid) (\<lambda>job.
        persist E (job\<lparr>wj_state := JUnknown,
                       wj_error := ''External submission outcome is unknown; adapter recovery is unavailable''\<rparr>))
      else
        abind (caught (hand_over E q jid worker_id)) (\<lambda>answer.
        case answer of
          Answer job \<Rightarrow> aret job
        | SubmissionCancelled \<Rightarrow> finalize_pending_cancellation E jid
        | TransportError message timed_out \<Rightarrow> transport_failed E jid message timed_out
        | Threw e \<Rightarrow> fail_job E jid JFailed FJob ''Worker retry submission failed''))"

text \<open>The submission of a job found in state \<open>JSubmitting\<close> that nobody is making has an unknown outcome.\<close>

definition unknown_after_restart :: "manager_env \<Rightarrow> string \<Rightarrow> worker_job mg" where
  "unknown_after_restart E jid =
     abind (manager_job E jid) (\<lambda>job.
     if wj_state job = JSubmitting \<and> wj_external_job_id job = []
     then persist E (job\<lparr>wj_state := JUnknown,
            wj_error := ''Worker submission outcome is unknown after restart; it will not be resubmitted''\<rparr>)
     else aret job)"

definition probe_worker_jobs :: "manager_env \<Rightarrow> (worker_job \<Rightarrow> bool) \<Rightarrow> nat \<Rightarrow> bool \<Rightarrow> unit mg" where
  "probe_worker_jobs E wanted least fail_transport =
     abind (mlist E KWorkerJob [] 10000 0) (\<lambda>records.
     abind (alift (mapM (worker_job_from_json (me_json E)) records)) (\<lambda>jobs.
     let found = filter wanted jobs in
     awhen (length found \<ge> least)
       (afor found (\<lambda>job. abind (reconcile_job E job fail_transport) (\<lambda>_. aret ())))))"

definition submit_new :: "manager_env \<Rightarrow> worker_request \<Rightarrow> worker_metadata \<Rightarrow> string \<Rightarrow> string \<Rightarrow> worker_job mg" where
  "submit_new E q metadata jid worker_id =
     abind (awhen (wm_supports_status metadata)
              (probe_worker_jobs E (\<lambda>j. wj_worker_id j = worker_id \<and> \<not> worker_job_terminal (wj_state j))
                 (unat (me_max_per_worker E)) False)) (\<lambda>_.
     abind (retire_superseded_distributed_jobs E) (\<lambda>_.
     abind (fence_stale_submissions E) (\<lambda>_.
     abind (check_capacity E worker_id) (\<lambda>_.
     abind (create_job E q jid worker_id) (\<lambda>created.
     case created of
       None \<Rightarrow> manager_job E jid
     | Some job \<Rightarrow> abind (signal_for jid) (\<lambda>_. submit_created E q jid worker_id))))))"

text \<open>The job id stays in \<open>mg_active\<close> until the call is left, however it is left.\<close>

definition while_active :: "string \<Rightarrow> 'a mg \<Rightarrow> 'a mg" where
  "while_active jid m w =
     (case m (w\<lparr>mg_active := jid # mg_active w\<rparr>) of (r, w') \<Rightarrow> (r, w'\<lparr>mg_active := removeAll jid (mg_active w')\<rparr>))"

text \<open>A submission that finds the job: \<open>None\<close> when the caller has to go on to the worker.\<close>

definition repeated :: "manager_env \<Rightarrow> bool \<Rightarrow> worker_job \<Rightarrow> worker_job option mg" where
  "repeated E asynchronous job =
     (if worker_job_terminal (wj_state job) \<or> wj_state job = JUnknown then aret (Some job)
      else if wj_state job = JSubmitting \<and> wj_external_job_id job = [] then
        look (\<lambda>w.
          if wj_id job \<notin> set (mg_async w) then abind (unknown_after_restart E (wj_id job)) (\<lambda>job. aret (Some job))
          else if \<not> asynchronous then aret (Some job) else aret None)
      else aret None)"

definition submit_locked :: "manager_env \<Rightarrow> worker_request \<Rightarrow> bool \<Rightarrow> string \<Rightarrow> string \<Rightarrow> string \<Rightarrow> worker_job mg" where
  "submit_locked E q asynchronous initial jid worker_id =
     abind (existing_job E jid q worker_id) (\<lambda>existing.
     if initial \<noteq> [] \<and> (case existing of
          None \<Rightarrow> True
        | Some job \<Rightarrow> wj_id job \<noteq> initial \<or> wj_state job \<noteq> JSubmitting \<or> wj_external_job_id job \<noteq> [])
     then athrow Conflict ''Initial worker dispatch no longer owns its durable job''
     else
       abind (case existing of
                Some job \<Rightarrow> if initial = [] then repeated E asynchronous job else aret None
              | None \<Rightarrow> aret None) (\<lambda>finished.
       case finished of
         Some job \<Rightarrow> aret job
       | None \<Rightarrow>
           (case existing of
              Some job \<Rightarrow>
                if wj_cancellation_requested job \<and> wj_external_job_id job = []
                then finalize_pending_cancellation E (wj_id job)
                else
                  abind (worker_ready E worker_id) (\<lambda>metadata.
                  abind (unlocked E) (\<lambda>_.
                  if initial \<noteq> [] then submit_created E q (wj_id job) worker_id
                  else if wj_external_job_id job \<noteq> [] then reconcile_job E job False
                  else resubmit E q metadata jid worker_id))
            | None \<Rightarrow>
                abind (worker_ready E worker_id) (\<lambda>metadata. submit_new E q metadata jid worker_id))))"

definition submit_impl :: "manager_env \<Rightarrow> worker_request \<Rightarrow> bool \<Rightarrow> string \<Rightarrow> worker_job mg" where
  "submit_impl E q asynchronous initial =
     look (\<lambda>w.
       if mg_stopped w then athrow Conflict ''Worker manager is stopped''
       else
         abind (alift (check_worker_request E q)) (\<lambda>_.
         abind (mdraw (\<lambda>n. resolve_worker (me_workers E n) (wr_worker_id q) (wr_capability q))) (\<lambda>resolved.
         abind (alift resolved) (\<lambda>worker_id.
         let jid = durable_job_id (wr_idempotency_key q) in
         while_active jid (submit_locked E q asynchronous initial jid worker_id)))))"

definition submit_job :: "manager_env \<Rightarrow> worker_request \<Rightarrow> worker_job mg" where
  "submit_job E q = submit_impl E q False []"

section \<open>Submitting in the background\<close>

definition check_parent :: "manager_env \<Rightarrow> worker_request \<Rightarrow> unit mg" where
  "check_parent E q =
     (if wr_parent_worker_job_id q = [] then aret ()
      else
        abind (atry (manager_job E (wr_parent_worker_job_id q)) aret
                 (\<lambda>_ _. athrow Conflict ''Parent worker job is unavailable'')) (\<lambda>parent.
        if wj_run_id parent \<noteq> wr_run_id q \<or> wj_cancellation_requested parent \<or> worker_job_terminal (wj_state parent)
        then athrow Conflict ''Parent worker job is no longer active'' else aret ()))"

text \<open>The job, and whether a thread has to be given its submission.\<close>

definition reserve_new :: "manager_env \<Rightarrow> worker_request \<Rightarrow> string \<Rightarrow> string \<Rightarrow> (worker_job \<times> bool) mg" where
  "reserve_new E q jid worker_id =
     abind (check_capacity E worker_id) (\<lambda>_.
     abind (check_parent E q) (\<lambda>_.
     abind (create_job E q jid worker_id) (\<lambda>created.
     case created of
       None \<Rightarrow> abind (manager_job E jid) (\<lambda>job. aret (job, False))
     | Some job \<Rightarrow>
         abind (offer_signal jid) (\<lambda>_.
         abind (modify (\<lambda>w. w\<lparr>mg_async := List.insert jid (mg_async w)\<rparr>)) (\<lambda>_. aret (job, True))))))"

definition reserve_existing :: "manager_env \<Rightarrow> worker_job \<Rightarrow> (worker_job \<times> bool) mg" where
  "reserve_existing E job =
     (if worker_job_terminal (wj_state job) \<or> wj_state job = JUnknown \<or> wj_external_job_id job \<noteq> [] then aret (job, False)
      else look (\<lambda>w.
        if wj_id job \<in> set (mg_async w) then aret (job, False)
        else if wj_state job = JSubmitting then
          abind (persist E (job\<lparr>wj_state := JUnknown,
              wj_error := ''Worker submission outcome is unknown after restart; it will not be resubmitted''\<rparr>)) (\<lambda>job.
          aret (job, False))
        else
          abind (modify (\<lambda>w. w\<lparr>mg_async := List.insert (wj_id job) (mg_async w)\<rparr>)) (\<lambda>_. aret (job, True))))"

text \<open>
  No thread could be made: the record must not wait for one. The exception that is thrown again is one of the
  standard library's, for which \<open>InvalidArgument\<close> stands.
\<close>

definition launch_failed_job :: "manager_env \<Rightarrow> string \<Rightarrow> unit mg" where
  "launch_failed_job E jid =
     acatch
       (abind (forget_signal jid) (\<lambda>_.
        abind (manager_job E jid) (\<lambda>job.
        if wj_state job = JSubmitting \<and> wj_external_job_id job = [] then
          abind (mtime E) (\<lambda>now.
          abind (persist E
                   ((if wj_cancellation_requested job
                     then job\<lparr>wj_state := wj_cancellation_target_state job, wj_cancellation_acknowledged := True,
                              wj_cancellation_error := []\<rparr>
                     else job\<lparr>wj_state := JFailed, wj_failure_kind := FJob,
                              wj_error := ''Worker submission could not be scheduled''\<rparr>)\<lparr>wj_completed_at := now\<rparr>)) (\<lambda>_.
          aret ()))
        else aret ())))
       (\<lambda>_. aret ())"

text \<open>A remote worker that cannot recover submissions is first asked about the jobs it still has.\<close>

definition submit_async :: "manager_env \<Rightarrow> worker_request \<Rightarrow> worker_job mg" where
  "submit_async E q =
     look (\<lambda>w.
       if mg_stopped w then athrow Conflict ''Worker manager is stopped''
       else
         abind (alift (check_worker_request E q)) (\<lambda>_.
         abind (mdraw (\<lambda>n. resolve_worker (me_workers E n) (wr_worker_id q) (wr_capability q))) (\<lambda>resolved.
         abind (alift resolved) (\<lambda>worker_id.
         abind (worker_ready E worker_id) (\<lambda>metadata.
         abind (awhen (wm_remote metadata \<and> wm_supports_status metadata \<and> \<not> wm_supports_recovery metadata)
                  (probe_worker_jobs E (\<lambda>j. wj_worker_id j = worker_id \<and> live j \<and> wj_external_job_id j \<noteq> []) 0 True)) (\<lambda>_.
         let jid = durable_job_id (wr_idempotency_key q) in
         abind (retire_superseded_distributed_jobs E) (\<lambda>_.
         abind (fence_stale_submissions E) (\<lambda>_.
         abind (existing_job E jid q worker_id) (\<lambda>existing.
         abind (case existing of
                  None \<Rightarrow> reserve_new E q jid worker_id
                | Some job \<Rightarrow> reserve_existing E job) (\<lambda>(job, reserved).
         if \<not> reserved then aret job
         else
           abind (mdraw (me_launch E)) (\<lambda>launched.
           if launched then
             abind (modify (\<lambda>w. w\<lparr>mg_threads := mg_threads w @ [(q, jid)]\<rparr>)) (\<lambda>_. aret job)
           else
             abind (modify (\<lambda>w. w\<lparr>mg_async := removeAll jid (mg_async w)\<rparr>)) (\<lambda>_.
             abind (launch_failed_job E jid) (\<lambda>_.
             alift (Inl InvalidArgument))))))))))))))"

text \<open>What the thread does with the \<open>i\<close>-th submission in the queue.\<close>

definition background_submission :: "manager_env \<Rightarrow> worker_request \<Rightarrow> string \<Rightarrow> unit mg" where
  "background_submission E q jid =
     abind (acatch (abind (submit_impl E q True jid) (\<lambda>_. aret ()))
              (\<lambda>e. if (case e of Error code _ \<Rightarrow> code = Storage | _ \<Rightarrow> False) then aret ()
                   else acatch (abind (fail_job E jid JFailed FJob
                            (case e of Error _ text \<Rightarrow> bounded_error text | _ \<Rightarrow> ''Worker submission failed'')) (\<lambda>_. aret ()))
                          (\<lambda>_. aret ()))) (\<lambda>_.
     abind (modify (\<lambda>w. w\<lparr>mg_async := removeAll jid (mg_async w)\<rparr>)) (\<lambda>_. forget_signal jid))"

definition run_thread :: "manager_env \<Rightarrow> nat \<Rightarrow> unit mg" where
  "run_thread E i =
     look (\<lambda>w.
       if i < length (mg_threads w) then
         (case mg_threads w ! i of (q, jid) \<Rightarrow>
            abind (modify (\<lambda>w. w\<lparr>mg_threads := take i (mg_threads w) @ drop (Suc i) (mg_threads w)\<rparr>)) (\<lambda>_.
            background_submission E q jid))
       else aret ())"

section \<open>Cancelling a job\<close>

definition cancel_reservation :: "json \<Rightarrow> json" where
  "cancel_reservation r = (if is_object r then jput ''state'' (JStr ''cancelled'') r else r)"

definition cancel_reservations :: "json \<Rightarrow> json" where
  "cancel_reservations metadata =
     (case metadata of
        JObj m \<Rightarrow>
          (case map_of m ''codex_browser_status_reservations'' of
             Some (JArr rs) \<Rightarrow> jput ''codex_browser_status_reservations'' (JArr (map cancel_reservation rs)) metadata
           | _ \<Rightarrow> metadata)
      | _ \<Rightarrow> metadata)"

definition interaction_record :: "worker_interaction \<Rightarrow> store_record" where
  "interaction_record i =
     \<lparr>sr_kind = KWorkerInteraction, sr_id = wi_id i, sr_run_id = wi_run_id i, sr_value = worker_interaction_to_json i\<rparr>"

definition cancel_interaction :: "manager_env \<Rightarrow> string \<Rightarrow> string \<Rightarrow> json \<Rightarrow> unit mg" where
  "cancel_interaction E jid reason record =
     abind (alift (worker_interaction_from_json (me_json E) record)) (\<lambda>i.
     if wi_worker_job_id i = jid \<and> wi_state i = IPending then
       abind (mtime E) (\<lambda>now.
       mcommit E [interaction_record (i\<lparr>wi_state := ICancelled, wi_reason := bounded_error reason, wi_decided_at := now,
          wi_response := jobject [(''decision'', JStr ''cancelled''), (''reason'', JStr (bounded_error reason))]\<rparr>)])
     else aret ())"

text \<open>The error text is that of an adapter that threw, or of one that did not acknowledge.\<close>

definition cancellation_outcome :: "worker_job_state \<Rightarrow> bool \<Rightarrow> bool answer \<Rightarrow> string \<Rightarrow> worker_job \<Rightarrow> worker_job" where
  "cancellation_outcome requested pending answer now job =
     (let timeout = requested = JTimedOut in
      if acknowledged answer
      then job\<lparr>wj_cancellation_acknowledged := True, wj_state := (if timeout then JTimedOut else JCancelled),
               wj_cancellation_error := [], wj_completed_at := now\<rparr>
      else job\<lparr>wj_cancellation_error :=
        (case answer of
           Answer _ \<Rightarrow> if timeout then ''Worker did not acknowledge timeout cancellation''
                       else ''Worker did not acknowledge cancellation''
         | _ \<Rightarrow> if pending then ''Worker pending cancellation failed'' else ''Worker cancellation failed'')\<rparr>)"

definition ask_cancellation :: "manager_env \<Rightarrow> worker_job \<Rightarrow> bool answer mg" where
  "ask_cancellation E job =
     acatch (abind (worker_now E (wj_worker_id job)) (\<lambda>_.
             mdraw (\<lambda>n. if wj_external_job_id job = [] then me_cancel_pending E n (wj_worker_id job) (wj_id job)
                        else me_cancel E n (wj_worker_id job) (wj_external_job_id job))))
       (\<lambda>e. aret (Threw e))"

text \<open>
  The children of a job are cancelled after it. The first argument bounds the depth: a parent exists before
  its children, so the number of stored jobs is enough.
\<close>

primrec cancel_worker_job :: "nat \<Rightarrow> manager_env \<Rightarrow> string \<Rightarrow> worker_job_state \<Rightarrow> string \<Rightarrow> unit mg" where
  "cancel_worker_job 0 E jid requested reason = aret ()"
| "cancel_worker_job (Suc levels) E jid requested reason =
     abind (manager_job E jid) (\<lambda>job.
     if worker_job_terminal (wj_state job) then aret ()
     else
       abind (modify (\<lambda>w. if omap_contains (mg_signals w) jid
                then w\<lparr>mg_signals := omap_put jid True (mg_signals w)\<rparr> else w)) (\<lambda>_.
       abind (persist E (job\<lparr>wj_cancellation_requested := True, wj_cancellation_target_state := requested,
                wj_cancellation_error := bounded_error reason,
                wj_request_metadata := cancel_reservations (wj_request_metadata job)\<rparr>)) (\<lambda>job.
       abind (unlocked E) (\<lambda>_.
       abind (ask_cancellation E job) (\<lambda>answer.
       abind (manager_job E jid) (\<lambda>current.
       if worker_job_terminal (wj_state current) then aret ()
       else
         abind (mlist E KWorkerInteraction [] 10000 0) (\<lambda>interactions.
         abind (afor interactions (cancel_interaction E (wj_id current) reason)) (\<lambda>_.
         abind (mtime E) (\<lambda>now.
         abind (persist E (cancellation_outcome requested (wj_external_job_id job = []) answer now current)) (\<lambda>_.
         abind (unlocked E) (\<lambda>_.
         abind (mlist E KWorkerJob [] 10000 0) (\<lambda>records.
         afor records (\<lambda>v.
           abind (alift (worker_job_from_json (me_json E) v)) (\<lambda>child.
           abind (alift (jvalue (get_string (me_json E)) (wj_request_metadata child) ''parent_worker_job_id'' [])) (\<lambda>parent.
           if parent = jid \<and> \<not> worker_job_terminal (wj_state child)
           then cancel_worker_job levels E (wj_id child) requested reason else aret ())))))))))))))))"

definition cancel_job :: "manager_env \<Rightarrow> string \<Rightarrow> worker_job_state \<Rightarrow> string \<Rightarrow> unit mg" where
  "cancel_job E jid requested reason =
     look (\<lambda>w. cancel_worker_job (Suc (length (mg_store w KWorkerJob))) E jid requested reason)"

section \<open>What workers ask for\<close>

definition interaction_terminal :: "worker_interaction_state \<Rightarrow> bool" where
  "interaction_terminal s \<longleftrightarrow> s \<noteq> IPending"

definition interaction_response :: "worker_interaction \<Rightarrow> worker_interaction_response result" where
  "interaction_response i =
     rbind (jvalue Inr (wi_response i) ''payload'' (jobject [])) (\<lambda>payload.
     Inr \<lparr>wr_request_id = wi_id i, wr_state = wi_state i, wr_payload = payload, wr_reason = wi_reason i\<rparr>)"

definition check_interaction_request :: "manager_env \<Rightarrow> worker_interaction_request \<Rightarrow> unit result" where
  "check_interaction_request E q =
     (let limit = throw Plugin ''Worker interaction request exceeds its limits'' in
      if wq_request_id q = [] \<or> length (wq_request_id q) > 512 \<or> wq_worker_job_id q = [] \<or>
         length (wq_worker_job_id q) > 512 \<or> length (wq_worker_id q) > 512 \<or> length (wq_external_job_id q) > 512 \<or>
         length (wq_session_id q) > 512 \<or> length (wq_title q) > 4096 \<or> length (wq_summary q) > 4096 \<or>
         length (wq_created_at q) > 64 \<or> length (wq_deadline q) > 64 \<or> length (wq_risk q) > 128 \<or>
         length (wq_category q) > 128 \<or> \<not> is_object (wq_payload q)
      then limit
      else rbind (json_size (me_json E) (wq_payload q)) (\<lambda>bytes. if bytes > 64 * 1024 then limit else Inr ()))"

text \<open>
  What the deployment's policy says. The context is built by position: the seventh member, which gets
  whether the request is an approval, is \<^verbatim>\<open>worker_node\<close>.
\<close>

definition interaction_policy :: "manager_env \<Rightarrow> worker_interaction_request \<Rightarrow> (policy_decision \<times> string) result" where
  "interaction_policy E q =
     (if wq_type q = IQuestion then Inr (RequireApproval, ''Human answer required'')
      else case me_policy E of
        None \<Rightarrow> Inr (RequireApproval, ''Human decision required'')
      | Some policy \<Rightarrow>
          (let J = me_json E in
           rbind (jvalue (get_string J) (wq_payload q) ''resource'' ''worker.permission'') (\<lambda>resource.
           rbind (jvalue (get_string J) (wq_payload q) ''classification'' ''public'') (\<lambda>classification.
           rbind (jvalue (get_bool J) (wq_payload q) ''network'' False) (\<lambda>network.
           rbind (jvalue (get_bool J) (wq_payload q) ''remote'' False) (\<lambda>remote.
           Inr (evaluate policy \<lparr>pc_pipeline_id = [], pc_node_id = [], pc_resource = resource,
                  pc_classification = classification, pc_network = network, pc_remote = remote,
                  pc_worker_node = (wq_type q = IApproval), pc_approval_required = False\<rparr>)))))))"

definition decided_by_policy :: "policy_decision \<times> string \<Rightarrow> string \<Rightarrow> worker_interaction \<Rightarrow> worker_interaction" where
  "decided_by_policy d now i =
     (case d of
        (Allow, reason) \<Rightarrow>
          let state = (if wi_type i = IQuestion then IAnswered else IApproved) in
          i\<lparr>wi_state := state, wi_reason := reason, wi_decided_at := now,
            wi_response := jobject [(''decision'', worker_interaction_state_to_json state), (''reason'', JStr reason)]\<rparr>
      | (Deny, reason) \<Rightarrow>
          i\<lparr>wi_state := IDenied, wi_reason := reason, wi_decided_at := now,
            wi_response := jobject [(''decision'', JStr ''denied''), (''reason'', JStr reason)]\<rparr>
      | (RequireApproval, _) \<Rightarrow> i)"

definition new_interaction :: "manager_env \<Rightarrow> worker_interaction_request \<Rightarrow> worker_interaction mg" where
  "new_interaction E q =
     abind (atry (abind (mget E KWorkerJob (wq_worker_job_id q)) (\<lambda>v. alift (jvalue (get_string (me_json E)) v ''run_id'' [])))
              aret (\<lambda>code text. if code = NotFound then aret [] else athrow code text)) (\<lambda>run_id.
     abind (mtime E) (\<lambda>created.
     abind (alift (interaction_policy E q)) (\<lambda>decision.
     abind (mtime E) (\<lambda>decided.
     let i = decided_by_policy decision decided
          \<lparr>wi_id = wq_request_id q, wi_worker_job_id = wq_worker_job_id q, wi_worker_id = wq_worker_id q,
           wi_run_id = run_id, wi_external_job_id = wq_external_job_id q, wi_session_id = wq_session_id q,
           wi_type = wq_type q, wi_state = IPending, wi_title = wq_title q, wi_summary = wq_summary q,
           wi_created_at = (if wq_created_at q = [] then created else wq_created_at q), wi_deadline = wq_deadline q,
           wi_risk = wq_risk q, wi_category = wq_category q, wi_payload = wq_payload q, wi_response = jobject [],
           wi_reason = [], wi_actor = [], wi_decided_at = []\<rparr> in
     abind (mcommit E [interaction_record i]) (\<lambda>_. aret i)))))"

definition get_interaction :: "manager_env \<Rightarrow> string \<Rightarrow> worker_interaction mg" where
  "get_interaction E iid =
     abind (mget E KWorkerInteraction iid) (\<lambda>v. alift (worker_interaction_from_json (me_json E) v))"

definition expire_interaction :: "manager_env \<Rightarrow> worker_interaction \<Rightarrow> worker_interaction mg" where
  "expire_interaction E i =
     abind (mtime E) (\<lambda>now.
     let i = i\<lparr>wi_state := IExpired, wi_reason := ''Worker interaction deadline expired'', wi_decided_at := now,
       wi_response := jobject [(''decision'', JStr ''expired''), (''reason'', JStr ''Worker interaction deadline expired'')]\<rparr> in
     abind (mcommit E [interaction_record i]) (\<lambda>_. aret i))"

text \<open>
  While it waits, at most five minutes, the mutex is free; afterwards the record is read again and expires
  if nobody decided it.
\<close>

definition await_decision :: "manager_env \<Rightarrow> string \<Rightarrow> worker_interaction mg" where
  "await_decision E iid =
     abind (unlocked E) (\<lambda>_.
     abind (acatch (abind (get_interaction E iid) (\<lambda>i. aret (if interaction_terminal (wi_state i) then Some i else None)))
              (\<lambda>_. aret None)) (\<lambda>decided.
     case decided of
       Some i \<Rightarrow> aret i
     | None \<Rightarrow>
         abind (get_interaction E iid) (\<lambda>i.
         if interaction_terminal (wi_state i) then aret i else expire_interaction E i)))"

definition handle_interaction :: "manager_env \<Rightarrow> worker_interaction_request \<Rightarrow> worker_interaction_response mg" where
  "handle_interaction E q =
     look (\<lambda>w.
       if mg_stopped w then athrow Plugin ''LASO worker interaction service is stopped''
       else
         abind (alift (check_interaction_request E q)) (\<lambda>_.
         abind (atry (abind (get_interaction E (wq_request_id q)) (\<lambda>i.
                      if wi_worker_job_id i \<noteq> wq_worker_job_id q \<or> wi_type i \<noteq> wq_type q
                      then athrow Plugin ''Worker interaction id was reused with different content'' else aret (Some i)))
                  aret (\<lambda>code text. if code = NotFound then aret None else athrow code text)) (\<lambda>existing.
         abind (case existing of Some i \<Rightarrow> aret i | None \<Rightarrow> new_interaction E q) (\<lambda>i.
         if interaction_terminal (wi_state i) then alift (interaction_response i)
         else
           abind (mtime E) (\<lambda>now.
           abind (if wi_deadline i \<noteq> [] \<and> wi_deadline i \<le> now then expire_interaction E i
                  else await_decision E (wq_request_id q)) (\<lambda>i. alift (interaction_response i)))))))"

definition resolve_interaction ::
  "manager_env \<Rightarrow> string \<Rightarrow> worker_interaction_state \<Rightarrow> json \<Rightarrow> string \<Rightarrow> string \<Rightarrow> unit mg" where
  "resolve_interaction E iid state payload actor reason =
     (let invalid = throw Validation ''Invalid worker interaction decision'' in
      abind (alift (if iid = [] \<or> length actor > 128 \<or> length reason > 2048 \<or> \<not> is_object payload then invalid
               else rbind (json_size (me_json E) payload) (\<lambda>bytes.
                 if bytes > 64 * 1024 \<or> state = IPending then invalid else Inr ()))) (\<lambda>_.
      abind (get_interaction E iid) (\<lambda>i.
      if wi_state i \<noteq> IPending then athrow Conflict ''Worker interaction is no longer pending''
      else if wi_type i \<noteq> IQuestion \<and> state = IAnswered then athrow Validation ''Only questions accept an answer''
      else if wi_type i = IQuestion \<and> (state = IApproved \<or> state = IDenied)
      then athrow Validation ''Questions require an answer or cancellation''
      else
        abind (mtime E) (\<lambda>now.
        mcommit E [interaction_record (i\<lparr>wi_state := state, wi_reason := reason, wi_actor := actor, wi_decided_at := now,
          wi_response := jobject [(''decision'', worker_interaction_state_to_json state), (''payload'', payload),
                                  (''reason'', JStr reason)]\<rparr>)]))))"

section \<open>Events of workers\<close>

definition event_usage :: "manager_env \<Rightarrow> json \<Rightarrow> worker_job \<Rightarrow> worker_job result" where
  "event_usage E payload job =
     (if jcontains payload ''usage'' then
        rbind (jget_at (worker_usage_from_json (me_json E)) payload ''usage'') (\<lambda>usage.
        rbind (merge_usage (wj_usage job) usage) (\<lambda>u. Inr (job\<lparr>wj_usage := u\<rparr>)))
      else Inr job)"

definition event_progress :: "manager_env \<Rightarrow> json \<Rightarrow> worker_job \<Rightarrow> unit mg" where
  "event_progress E payload job =
     abind (alift (rbind (jvalue Inr payload ''progress'' (jobject [])) (\<lambda>progress.
       rbind (json_size (me_json E) progress) (\<lambda>bytes.
       rbind (if bytes \<le> 64 * 1024 then jassign ''progress'' progress (wj_result_metadata job)
              else Inr (wj_result_metadata job)) (\<lambda>metadata.
       event_usage E payload (job\<lparr>wj_result_metadata := metadata\<rparr>)))))) (\<lambda>job.
     abind (budget_violation E job) (\<lambda>violation.
     abind (mtime E) (\<lambda>now.
     abind (persist E (if violation \<noteq> [] then job\<lparr>wj_state := JFailed, wj_failure_kind := FBudget, wj_error := violation,
                         wj_completed_at := now\<rparr> else job)) (\<lambda>_. aret ()))))"

text \<open>A continuation that breaks the limits is an error here, and so the event is rejected.\<close>

definition event_continuation :: "manager_env \<Rightarrow> json \<Rightarrow> worker_job \<Rightarrow> worker_job result" where
  "event_continuation E payload job =
     (let J = me_json E in
      if jcontains payload ''continuation'' \<and> jat payload ''continuation'' \<noteq> Inr JNull then
        rbind (jat payload ''continuation'') (\<lambda>c.
        if \<not> is_object c then throw Validation ''Worker event continuation is invalid''
        else
          rbind (jvalue (get_string J) c ''provider_id'' []) (\<lambda>provider_id.
          rbind (jvalue (get_string J) c ''provider_version'' []) (\<lambda>provider_version.
          rbind (jvalue (get_string J) c ''state'' []) (\<lambda>state.
          case apply_continuation (Some \<lparr>oc_provider_id = provider_id, oc_provider_version = provider_version,
                                        oc_state = state\<rparr>) job of
            None \<Rightarrow> throw Plugin ''Worker returned invalid continuation state''
          | Some job \<Rightarrow> Inr job))))
      else Inr job)"

definition event_completed :: "manager_env \<Rightarrow> json \<Rightarrow> worker_job \<Rightarrow> worker_job result" where
  "event_completed E payload job =
     rbind (jvalue Inr payload ''output'' (jobject [])) (\<lambda>output.
     rbind (jvalue Inr payload ''result'' output) (\<lambda>res.
     rbind (jvalue Inr payload ''metadata'' (jobject [])) (\<lambda>metadata.
     rbind (event_continuation E payload (job\<lparr>wj_result := res, wj_result_metadata := metadata\<rparr>)) (\<lambda>job.
     rbind (jvalue (get_list Inr) payload ''artifacts'' []) (\<lambda>artifacts.
     event_usage E payload (job\<lparr>wj_artifacts := artifacts\<rparr>))))))"

definition event_transition :: "manager_env \<Rightarrow> json \<Rightarrow> worker_job_state \<Rightarrow> string \<Rightarrow> worker_job \<Rightarrow> worker_job result" where
  "event_transition E payload next now job =
     (let job = job\<lparr>wj_state := next,
        wj_started_at := (if next = JRunning \<and> wj_started_at job = [] then now else wj_started_at job)\<rparr> in
      if next = JCompleted then event_completed E payload job
      else if next = JFailed then
        rbind (jvalue (get_string (me_json E)) payload ''error'' ''Worker failed'') (\<lambda>text.
        Inr (job\<lparr>wj_error := bounded_error text, wj_failure_kind := FJob\<rparr>))
      else if next = JCancelled then Inr (job\<lparr>wj_cancellation_acknowledged := True\<rparr>) else Inr job)"

definition event_external_id :: "manager_env \<Rightarrow> json \<Rightarrow> worker_job \<Rightarrow> worker_job option result" where
  "event_external_id E payload job =
     rbind (jvalue (get_string (me_json E)) payload ''external_job_id'' []) (\<lambda>external.
     Inr (if external = [] then Some job
          else if \<not> bounded_identifier 512 external \<or> (wj_external_job_id job \<noteq> [] \<and> external \<noteq> wj_external_job_id job)
          then None
          else Some (job\<lparr>wj_external_job_id := external\<rparr>)))"

definition job_event :: "manager_env \<Rightarrow> event \<Rightarrow> string \<Rightarrow> unit mg" where
  "job_event E e jid =
     abind (manager_job E jid) (\<lambda>job.
     abind (worker_now E (wj_worker_id job)) (\<lambda>metadata.
     if ev_source_id e \<noteq> wm_event_source_id metadata then aret ()
     else
       abind (alift (event_external_id E (ev_payload e) job)) (\<lambda>named.
       case named of
         None \<Rightarrow> aret ()
       | Some job \<Rightarrow>
           if worker_job_terminal (wj_state job) then aret ()
           else if ev_type e = ''worker.job.progress'' then event_progress E (ev_payload e) job
           else
             let next = event_state (ev_type e) in
             if next = JUnknown \<or> (next \<noteq> wj_state job \<and> \<not> valid_worker_job_transition (wj_state job) next) then aret ()
             else
               abind (mtime E) (\<lambda>now.
               abind (alift (event_transition E (ev_payload e) next now job)) (\<lambda>job.
               abind (budget_violation E job) (\<lambda>violation.
               let job = (if violation \<noteq> [] then job\<lparr>wj_state := JFailed, wj_failure_kind := FBudget, wj_error := violation\<rparr>
                          else job) in
               abind (persist E (if worker_job_terminal (wj_state job) then job\<lparr>wj_completed_at := now\<rparr> else job)) (\<lambda>_.
               aret ())))))))"

text \<open>Whatever goes wrong with an event is only logged.\<close>

definition receive_worker_event :: "manager_env \<Rightarrow> event \<Rightarrow> unit mg" where
  "receive_worker_event E e =
     look (\<lambda>w.
       if mg_stopped w \<or> take 11 (ev_type e) \<noteq> ''worker.job.'' \<or> \<not> is_object (ev_payload e) then aret ()
       else
         acatch (abind (alift (jvalue (get_string (me_json E)) (ev_payload e) ''job_id'' [])) (\<lambda>jid.
                 if bounded_identifier 128 jid then job_event E e jid else aret ()))
           (\<lambda>_. aret ()))"

definition stop_manager :: "unit mg" where
  "stop_manager = modify (\<lambda>w. w\<lparr>mg_stopped := True\<rparr>)"

section \<open>What a manager can execute\<close>

definition serves :: "manager_env \<Rightarrow> string \<Rightarrow> worker_metadata \<Rightarrow> bool" where
  "serves E candidate m \<longleftrightarrow>
     (let recoverable = wm_status m = ''failed'' \<and> (wm_supports_recovery m \<or> me_restartable E candidate)
      in wm_enabled m \<and> (wm_healthy m \<or> recoverable) \<and> (wm_status m = ''healthy'' \<or> recoverable))"

definition can_execute :: "manager_env \<Rightarrow> worker_metadata registry \<Rightarrow> string \<Rightarrow> string \<Rightarrow> bool" where
  "can_execute E reg worker_id capability \<longleftrightarrow>
     (worker_id = [] \<and> capability = []) \<or>
     list_ex (\<lambda>(candidate, m).
       (worker_id = [] \<or> candidate = worker_id) \<and> serves E candidate m \<and>
       (capability = [] \<or> capability \<in> set (wm_capabilities m))) (entries reg)"

definition workload :: "worker_metadata \<Rightarrow> json" where
  "workload m =
     jobject [(''worker_id'', JStr (wm_id m)), (''capabilities'', JArr (map JStr (wm_capabilities m))),
              (''supports_status'', JBool (wm_supports_status m)), (''supports_recovery'', JBool (wm_supports_recovery m)),
              (''supports_cancellation'', JBool (wm_supports_cancellation m)), (''workspace_transport'', JBool True)]"

definition distributed_capabilities :: "manager_env \<Rightarrow> worker_metadata registry \<Rightarrow> json result" where
  "distributed_capabilities E reg =
     (let capabilities = jobject [(''protocol_version'', JInt 1),
            (''workloads'', JArr (map (workload \<circ> snd) (filter (\<lambda>(candidate, m). serves E candidate m) (entries reg))))] in
      rbind (json_size (me_json E) capabilities) (\<lambda>bytes.
      if bytes > 4096 then throw Configuration ''Worker capability advertisement is too large'' else Inr capabilities))"

text \<open>\<^verbatim>\<open>capability_advertisement\<close> of the runtime, which registers the instance with it.\<close>

definition capability_advertisement :: "manager_env \<Rightarrow> worker_metadata registry option \<Rightarrow> json result" where
  "capability_advertisement E workers =
     rbind (case workers of
              None \<Rightarrow> Inr (jobject [(''protocol_version'', JInt 1),
                                   (''features'', JArr [JStr ''run-claims'', JStr ''fencing''])])
            | Some reg \<Rightarrow>
                rbind (distributed_capabilities E reg) (\<lambda>c.
                rbind (jvalue Inr c ''workloads'' (JArr [])) (\<lambda>workloads.
                Inr (jobject [(''protocol_version'', JInt 1),
                       (''features'', JArr [JStr ''run-claims'', JStr ''fencing'', JStr ''worker-claims'']),
                       (''workers'', workloads)])))) (\<lambda>capabilities.
     rbind (json_size (me_json E) capabilities) (\<lambda>bytes.
     if bytes > 4096 then throw Configuration ''Instance capability advertisement is too large'' else Inr capabilities))"

text \<open>A continuation that waits for the run's fence is not shown.\<close>

definition worker_jobs :: "manager_env \<Rightarrow> string \<Rightarrow> nat \<Rightarrow> nat \<Rightarrow> json list mg" where
  "worker_jobs E run_id limit offset =
     abind (mlist E KWorkerJob run_id limit offset) (\<lambda>records.
     alift (mapM (\<lambda>v. case v of JObj m \<Rightarrow> Inr (JObj (omap_erase ''_continuation_candidate'' m)) | _ \<Rightarrow> Inl JsonTypeError)
              records))"

definition continuation_candidate :: "manager_env \<Rightarrow> string \<Rightarrow> opaque_continuation option mg" where
  "continuation_candidate E jid = abind (manager_job E jid) (\<lambda>job. aret (wj_continuation job))"

end
