(* ===== verification/Laso_Manager_Guarantees.thy ===== *)
theory Laso_Manager_Guarantees
  imports Laso_Manager Laso_Rows
begin

text \<open>
  What the worker manager guarantees of its stored jobs and interactions, in every history of calls, events
  and background submissions, while the other threads of the process act whenever the state mutex is
  free. The locale \<open>manager_predicate\<close> asks which records may be written, and every operation writes only
  those; the budgets and the policy of interactions follow.
\<close>

section \<open>Histories\<close>

datatype manager_op =
    Submit worker_request
  | SubmitAsync worker_request
  | RunThread nat
  | Refresh string
  | CancelJob string worker_job_state string
  | WorkerEvent event
  | HandleInteraction worker_interaction_request
  | ResolveInteraction string worker_interaction_state json string string
  | StopManager

definition quietly :: "'a mg \<Rightarrow> unit mg" where
  "quietly m = abind m (\<lambda>_. aret ())"

fun manager_call :: "manager_env \<Rightarrow> manager_op \<Rightarrow> unit mg" where
  "manager_call E (Submit q) = quietly (submit_job E q)"
| "manager_call E (SubmitAsync q) = quietly (submit_async E q)"
| "manager_call E (RunThread i) = run_thread E i"
| "manager_call E (Refresh jid) = quietly (refresh_job E jid)"
| "manager_call E (CancelJob jid state reason) = cancel_job E jid state reason"
| "manager_call E (WorkerEvent e) = receive_worker_event E e"
| "manager_call E (HandleInteraction q) = quietly (handle_interaction E q)"
| "manager_call E (ResolveInteraction iid state payload actor reason) = resolve_interaction E iid state payload actor reason"
| "manager_call E StopManager = stop_manager"

definition manager_step :: "manager_env \<Rightarrow> manager_op \<Rightarrow> manager \<Rightarrow> manager" where
  "manager_step E op w = snd (manager_call E op w)"

section \<open>Records as they are read\<close>

lemma job_fields:
  assumes "worker_job_from_json J v = Inr job"
  shows "jget_at (get_string J) v ''id'' = Inr (wj_id job)" and "jget_at worker_job_state_from_json v ''status'' = Inr (wj_state job)"
proof -
  show "jget_at (get_string J) v ''id'' = Inr (wj_id job)"
    using assms unfolding worker_job_from_json_def by (elim rbindE) clarsimp
  show "jget_at worker_job_state_from_json v ''status'' = Inr (wj_state job)"
    using assms unfolding worker_job_from_json_def by (elim rbindE) clarsimp
qed

lemma job_lookup:
  "jat (worker_job_to_json job) ''id'' = Inr (JStr (wj_id job))"
  "jat (worker_job_to_json job) ''status'' = Inr (worker_job_state_to_json (wj_state job))"
  by (simp_all add: worker_job_to_json_def Let_def split: option.split)

lemma interaction_fields:
  assumes "worker_interaction_from_json J v = Inr i"
  shows "jget_at (get_string J) v ''id'' = Inr (wi_id i)"
    and "rbind (jvalue (get_string J) v ''state'' ''pending'') parse_interaction_state = Inr (wi_state i)"
proof -
  show "jget_at (get_string J) v ''id'' = Inr (wi_id i)"
    using assms unfolding worker_interaction_from_json_def by (elim rbindE) clarsimp
  show "rbind (jvalue (get_string J) v ''state'' ''pending'') parse_interaction_state = Inr (wi_state i)"
    using assms unfolding worker_interaction_from_json_def by (elim rbindE) clarsimp
qed

lemma interaction_lookup:
  "jat (worker_interaction_to_json i) ''id'' = Inr (JStr (wi_id i))"
  "jat (worker_interaction_to_json i) ''state'' = Inr (worker_interaction_state_to_json (wi_state i))"
  by (simp_all add: worker_interaction_to_json_def)

section \<open>What the operations keep\<close>

text \<open>
  A predicate of the store that survives what the other threads do, and the records that may be written under
  it: a new job or interaction, the successor of a job that has not ended or that keeps its state, the
  successor of a pending interaction. An adapter without recovery is a case of its own, since a job without
  a handle is marked unknown there whatever its state.
\<close>

locale manager_predicate =
  fixes E :: manager_env and S :: "store \<Rightarrow> bool" and allowed :: "store_record \<Rightarrow> bool"
  assumes others: "S (mg_store w) \<Longrightarrow> S (mg_store (me_others E n w))"
    and unrelated: "S st \<Longrightarrow> st' KWorkerJob = st KWorkerJob \<Longrightarrow> st' KWorkerInteraction = st KWorkerInteraction \<Longrightarrow> S st'"
    and written: "S st \<Longrightarrow> allowed rec \<Longrightarrow> S (upsert rec st)"
    and open_job:
      "S st \<Longrightarrow> row \<in> set (st KWorkerJob) \<Longrightarrow> worker_job_from_json (me_json E) (row_body row) = Inr job \<Longrightarrow>
       \<not> worker_job_terminal (wj_state job) \<or> wj_state job' = wj_state job \<Longrightarrow> wj_id job' = wj_id job \<Longrightarrow>
       allowed (job_record job')"
    and unrecoverable:
      "S st \<Longrightarrow> row \<in> set (st KWorkerJob) \<Longrightarrow> worker_job_from_json (me_json E) (row_body row) = Inr job \<Longrightarrow>
       get worker_id (me_workers E n) = Inr m \<Longrightarrow> \<not> wm_supports_recovery m \<Longrightarrow> wj_id job' = wj_id job \<Longrightarrow>
       allowed (job_record job')"
    and new_job: "S st \<Longrightarrow> lookup st KWorkerJob (wj_id job) = None \<Longrightarrow> allowed (job_record job)"
    and open_interaction:
      "S st \<Longrightarrow> row \<in> set (st KWorkerInteraction) \<Longrightarrow> worker_interaction_from_json (me_json E) (row_body row) = Inr i \<Longrightarrow>
       wi_state i = IPending \<Longrightarrow> wi_id i' = wi_id i \<Longrightarrow> allowed (interaction_record i')"
    and new_interaction:
      "S st \<Longrightarrow> rbind (get_record (me_fault E n) KWorkerInteraction (wi_id i) st) (worker_interaction_from_json (me_json E)) =
         throw NotFound text \<Longrightarrow> allowed (interaction_record i)"
begin

abbreviation holds :: "manager \<Rightarrow> bool" where
  "holds \<equiv> \<lambda>w. S (mg_store w)"

text \<open>A value that was stored while the predicate held, and an identifier under which any job may be written.\<close>

definition seen :: "record_kind \<Rightarrow> json \<Rightarrow> bool" where
  "seen kind v \<longleftrightarrow> (\<exists>st. S st \<and> v \<in> row_body ` set (st kind))"

definition writable :: "string \<Rightarrow> bool" where
  "writable jid \<longleftrightarrow> (\<forall>job. wj_id job = jid \<longrightarrow> allowed (job_record job))"

definition known :: "worker_job \<Rightarrow> bool" where
  "known job \<longleftrightarrow> (\<exists>v. seen KWorkerJob v \<and> worker_job_from_json (me_json E) v = Inr job)"

lemma known_same: "known job \<Longrightarrow> wj_state job' = wj_state job \<Longrightarrow> wj_id job' = wj_id job \<Longrightarrow> allowed (job_record job')"
  unfolding known_def seen_def by (blast intro: open_job)

lemma known_writable: "known job \<Longrightarrow> \<not> worker_job_terminal (wj_state job) \<Longrightarrow> writable (wj_id job)"
  unfolding known_def seen_def writable_def by (blast intro: open_job)

lemma unrecoverable_writable:
  "known job \<Longrightarrow> get worker_id (me_workers E n) = Inr m \<Longrightarrow> \<not> wm_supports_recovery m \<Longrightarrow> writable (wj_id job)"
  unfolding known_def seen_def writable_def by (blast intro: unrecoverable)

subsection \<open>Elementary actions\<close>

lemma keeps_drawing [simp]: "keeps holds (mdraw f)" "keeps holds (mtime E)"
  by (simp_all add: keeps_def mdraw_def mtime_def)

lemma keeps_unlocked [simp]: "keeps holds (unlocked E)"
  by (simp add: keeps_def unlocked_def others)

lemmas keeps_steps = keeps_simple keeps_look keeps_abind_result keeps_atry_result keeps_acatch keeps_afor keeps_control
  keeps_if keeps_option keeps_prod keeps_drawing keeps_unlocked

lemma keeps_reading [simp]:
  "keeps holds (mget E kind rid)" "keeps holds (mlist E kind run_id limit offset)" "keeps holds (worker_now E worker_id)"
  "keeps holds (manager_job E jid)" "keeps holds (get_interaction E iid)" "keeps holds (get_work E wid)"
  unfolding mget_def mlist_def worker_now_def manager_job_def get_interaction_def get_work_def
  by (intro keeps_steps)+

lemma keeps_local [simp]: "keeps holds (forget_signal jid)" "keeps holds (signal_for jid)" "keeps holds (offer_signal jid)"
  by (auto simp: forget_signal_def signal_for_def offer_signal_def intro!: keeps_modify)

lemma reading_state:
  "mget E kind rid w = (r, w') \<Longrightarrow> mg_store w' = mg_store w"
  "mlist E kind run_id limit offset w = (r', w') \<Longrightarrow> mg_store w' = mg_store w"
  by (auto simp: mget_def mlist_def abind_def mdraw_def look_def alift_def)

lemma job_known: "manager_job E jid w = (Inr job, w') \<Longrightarrow> holds w \<Longrightarrow> known job"
  unfolding known_def seen_def
  by (auto simp: manager_job_def abind_Inr alift_def mget_def mdraw_def look_def athrow_def split: if_splits
      dest!: get_record_row lookup_row)

lemma listed_seen: "mlist E kind run_id limit offset w = (Inr vs, w') \<Longrightarrow> holds w \<Longrightarrow> v \<in> set vs \<Longrightarrow> seen kind v"
  unfolding seen_def
  by (auto simp: mlist_def abind_Inr alift_def mdraw_def look_def dest!: list_records_row)

lemma seen_known: "alift (worker_job_from_json (me_json E) v) w = (Inr job, w') \<Longrightarrow> seen KWorkerJob v \<Longrightarrow> known job"
  unfolding known_def by (auto simp: alift_def)

lemma upsert_kept: "write_records J fresh now now2 [rec] st = Inr st' \<Longrightarrow> S st \<Longrightarrow> allowed rec \<Longrightarrow> S st'"
  unfolding write_records_def by (auto elim!: rbindE dest!: write_record_Inr intro: written)

lemma keeps_mcommit: "allowed rec \<Longrightarrow> keeps holds (mcommit E [rec])"
  by (auto simp: keeps_def mcommit_def commit_def in_transaction_def Let_def upsert_kept split: option.split sum.split
      elim!: rbindE)

lemma keeps_mclaim:
  assumes "\<And>st. S st \<Longrightarrow> lookup st (sr_kind rec) (sr_id rec) = None \<Longrightarrow> allowed rec"
  shows "keeps holds (mclaim E rec)"
  using assms
  by (auto simp: keeps_def mclaim_def claim_def in_transaction_def Let_def intro!: written split: option.split sum.split if_splits
      elim!: rbindE)

lemma claim_was_free: "mclaim E rec w = (Inr True, w') \<Longrightarrow> lookup (mg_store w) (sr_kind rec) (sr_id rec) = None"
  by (auto simp: mclaim_def claim_def in_transaction_def Let_def split: option.splits if_splits sum.splits prod.splits elim!: rbindE)

lemma keeps_persist_allowed:
  assumes "\<And>job'. wj_id job' = wj_id job \<Longrightarrow> wj_state job' = wj_state job \<Longrightarrow> allowed (job_record job')"
  shows "keeps holds (persist E job)"
  unfolding persist_def Let_def by (intro keeps_steps keeps_mcommit assms) auto

lemma keeps_persist: "writable (wj_id job) \<Longrightarrow> keeps holds (persist E job)"
  by (rule keeps_persist_allowed) (simp add: writable_def)

lemma keeps_persist_known: "known job \<Longrightarrow> wj_id job' = wj_id job \<Longrightarrow> wj_state job' = wj_state job \<Longrightarrow> keeps holds (persist E job')"
  by (rule keeps_persist_allowed) (simp add: known_same)

subsection \<open>Records of jobs\<close>

lemma keeps_retire: "seen KWorkerJob v \<Longrightarrow> keeps holds (retire_superseded E v)"
  unfolding retire_superseded_def Let_def
  by (intro keeps_steps keeps_reading keeps_persist) (auto dest: seen_known intro: known_writable)

lemma keeps_fence: "known job \<Longrightarrow> keeps holds (fence_stale_submission E job)"
  unfolding fence_stale_submission_def
  by (intro keeps_steps keeps_local keeps_persist) (auto simp: worker_job_terminal_def intro!: known_writable)

lemma keeps_housekeeping:
  "keeps holds (retire_superseded_distributed_jobs E)" "keeps holds (fence_stale_submissions E)"
  unfolding retire_superseded_distributed_jobs_def fence_stale_submissions_def
  by (intro keeps_steps keeps_reading keeps_retire keeps_fence; auto intro: listed_seen seen_known)+

lemma keeps_finalize: "keeps holds (finalize_pending_cancellation E jid)"
  unfolding finalize_pending_cancellation_def
  by (intro keeps_steps keeps_reading keeps_local keeps_persist) (auto dest: job_known intro: known_writable)

lemma keeps_budget: "keeps holds (budget_violation E job)"
  unfolding budget_violation_def Let_def by (intro keeps_steps keeps_reading)

lemma submitted_id: "submitted sub job = Some job' \<Longrightarrow> wj_id job' = wj_id job"
  by (auto simp: submitted_def apply_continuation_def split: option.splits if_splits)

lemma keeps_settle: "writable (wj_id job) \<Longrightarrow> keeps holds (settle_submission E sub job)"
  unfolding settle_submission_def Let_def
  by (intro keeps_steps keeps_local keeps_budget keeps_persist) simp_all

lemma keeps_cancel_submitted: "keeps holds (cancel_submitted E worker_id jid external)"
  unfolding cancel_submitted_def
  by (intro keeps_steps keeps_reading keeps_persist) (auto dest: job_known intro: known_writable)

lemma keeps_record_submission: "keeps holds (record_submission E worker_id jid sub)"
  unfolding record_submission_def
  by (intro keeps_steps keeps_reading keeps_settle keeps_cancel_submitted)
    (auto simp: submitted_id dest: job_known intro: known_writable)

subsection \<open>Following a job\<close>

lemma keeps_attempt:
  assumes "keeps holds m" and "\<And>a w w'. holds w \<Longrightarrow> m w = (Inr a, w') \<Longrightarrow> keeps holds (f a)"
  shows "keeps holds (attempt job m f)"
proof (rule keepsI)
  fix w
  assume h: "holds w"
  obtain r w' where m: "m w = (r, w')" by (cases "m w")
  with assms(1) h have "holds w'" by (auto dest: keepsD)
  with m assms(2) [OF h, of _ w'] show "holds (snd (attempt job m f w))"
    by (auto simp: attempt_def split: sum.split dest: keepsD)
qed

lemma keeps_asking: "(\<And>a. keeps holds (f a)) \<Longrightarrow> keeps holds (asking job answer f)"
  by (cases answer) (simp_all add: asking_def keeps_simple)

lemma needs_result: "browser_tool_child_needs_result J job = Inr True \<Longrightarrow> wj_state job = JCompleted"
  by (auto simp: browser_tool_child_needs_result_def split: if_splits)

lemmas keeps_asks = keeps_steps keeps_reading keeps_attempt keeps_asking keeps_budget

lemma keeps_late_result: "keeps holds (late_result E final job)"
  unfolding late_result_def Let_def
  by (intro keeps_asks keeps_persist_known; (drule job_known, assumption)?; simp?)

lemma keeps_job_forgotten: "known job \<Longrightarrow> keeps holds (job_forgotten E job)"
  unfolding job_forgotten_def Let_def
  by (intro keeps_asks keeps_persist) (simp add: known_writable)

lemma status_id: "wj_id (with_status E status a b u job) = wj_id job" "wj_id (judge_status violation now job) = wj_id job"
  by (simp_all add: with_status_def judge_status_def Let_def)

lemma continuation_id: "apply_continuation c job = Some job' \<Longrightarrow> wj_id job' = wj_id job"
  by (auto simp: apply_continuation_def split: option.splits if_splits)

lemma keeps_apply_status:
  assumes "known job"
  shows "keeps holds (apply_status E merged job)"
proof (cases "worker_job_terminal (wj_state job)")
  case False
  with assms have "writable (wj_id job)" by (rule known_writable)
  then show ?thesis
    unfolding apply_status_def Let_def by (intro keeps_asks keeps_persist) (simp add: status_id continuation_id)
qed (simp add: apply_status_def keeps_simple split: prod.split)

lemma keeps_ask_worker: "keeps holds (ask_worker E missing job)"
  unfolding ask_worker_def with_final_result_def
  by (intro keeps_asks keeps_late_result keeps_job_forgotten keeps_apply_status) (auto dest: job_known)

lemma keeps_lose_transport: "keeps holds (lose_transport E jid message)"
  unfolding lose_transport_def
  by (intro keeps_steps keeps_reading keeps_persist) (auto dest: job_known intro: known_writable)

lemma keeps_outcome: "(\<And>m. keeps holds (f m)) \<Longrightarrow> keeps holds g \<Longrightarrow> keeps holds g' \<Longrightarrow>
    keeps holds (case x of Settled \<Rightarrow> g | Lost m \<Rightarrow> f m | Broken \<Rightarrow> g')"
  by (cases x) simp_all

lemma keeps_reconcile: "keeps holds (reconcile_job E job fail_transport)"
  unfolding reconcile_job_def
  by (intro keeps_asks keeps_ask_worker keeps_outcome keeps_lose_transport)

lemma keeps_refresh: "keeps holds (refresh_job E jid)"
  unfolding refresh_job_def
  by (intro keeps_asks keeps_reconcile keeps_fence) (auto dest: job_known)

subsection \<open>Submitting\<close>

lemma worker_now_registered: "worker_now E worker_id w = (Inr m, w') \<Longrightarrow> \<exists>n. get worker_id (me_workers E n) = Inr m"
  by (auto simp: worker_now_def abind_Inr mdraw_def alift_def)

lemma acatch_Inr:
  "acatch m h w = (Inr b, w') \<longleftrightarrow> m w = (Inr b, w') \<or> (\<exists>e w1. m w = (Inl e, w1) \<and> h e w1 = (Inr b, w'))"
  by (auto simp: acatch_def split: prod.split sum.split)

lemma ready_registered:
  "worker_ready E worker_id w = (Inr m, w') \<Longrightarrow> \<exists>n. get worker_id (me_workers E n) = Inr m"
  unfolding worker_ready_def
  by (auto simp: abind_Inr acatch_Inr aret_def athrow_def alift_def split: if_splits dest: worker_now_registered)

lemma keeps_ready: "keeps holds (worker_ready E worker_id)"
  unfolding worker_ready_def by (intro keeps_steps keeps_reading)

lemma existing_known: "existing_job E jid q worker_id w = (Inr (Some job), w') \<Longrightarrow> holds w \<Longrightarrow> known job"
  unfolding existing_job_def
  by (auto simp: atry_Inr abind_Inr aret_def athrow_def alift_def split: if_splits dest: job_known)

lemma keeps_existing: "keeps holds (existing_job E jid q worker_id)" "keeps holds (check_capacity E worker_id)"
  "keeps holds (check_parent E q)"
  unfolding existing_job_def check_capacity_def check_parent_def by (intro keeps_steps keeps_reading)+

lemma keeps_create_job: "keeps holds (create_job E q jid worker_id)"
proof -
  have id: "wj_id (Laso_Manager.new_job now q jid worker_id) = jid" for now
    by (simp add: new_job_def)
  have free: "writable jid" if "S st" "lookup st KWorkerJob jid = None" for st
    using that new_job [of st] by (auto simp: writable_def)
  have may: "allowed (job_record (Laso_Manager.new_job now q jid worker_id))"
    if "S st" "lookup st KWorkerJob jid = None" for st now
    using free [OF that] id by (simp add: writable_def)
  show ?thesis
    unfolding create_job_def Let_def
    by (intro keeps_steps keeps_mclaim keeps_persist)
      (auto simp: job_record_def id intro: may [unfolded job_record_def id] free dest!: claim_was_free)
qed

lemma keeps_answer:
  assumes "\<And>a. answer = Answer a \<Longrightarrow> keeps holds (f a)" and "\<And>t b. keeps holds (g t b)" and "keeps holds h" and "\<And>e. keeps holds (k e)"
  shows "keeps holds (case answer of Answer a \<Rightarrow> f a | TransportError t b \<Rightarrow> g t b | SubmissionCancelled \<Rightarrow> h | Threw e \<Rightarrow> k e)"
  using assms by (cases answer) simp_all

lemma keeps_hand_over: "keeps holds (hand_over E q jid worker_id)"
  unfolding hand_over_def
  by (intro keeps_steps keeps_answer keeps_record_submission keeps_modify) simp

lemma keeps_caught: "keeps holds (caught (hand_over E q jid worker_id))"
  unfolding caught_def by (intro keeps_steps keeps_hand_over)

lemma keeps_fail_job: "keeps holds (fail_job E jid state kind message)"
  unfolding fail_job_def
  by (intro keeps_steps keeps_reading keeps_persist) (auto dest: job_known intro: known_writable)

lemma keeps_transport_failed: "keeps holds (transport_failed E jid message timed_out)"
  unfolding transport_failed_def
  by (intro keeps_steps keeps_reading keeps_persist) (auto dest: job_known intro: known_writable)

lemmas keeps_handing = keeps_steps keeps_reading keeps_finalize keeps_caught keeps_answer keeps_transport_failed keeps_fail_job

lemma keeps_exn: "(\<And>c t. keeps holds (f c t)) \<Longrightarrow> keeps holds g \<Longrightarrow>
    keeps holds (case e of Error c t \<Rightarrow> f c t | _ \<Rightarrow> g)"
  by (cases e) simp_all

lemma keeps_submit_created: "keeps holds (submit_created E q jid worker_id)"
  unfolding submit_created_def by (intro keeps_handing keeps_exn)

lemma keeps_resubmit:
  assumes "get worker_id (me_workers E n) = Inr m"
  shows "keeps holds (resubmit E q m jid worker_id)"
  unfolding resubmit_def
  by (intro keeps_handing keeps_persist) (auto dest!: job_known intro: unrecoverable_writable [OF _ assms])

lemma keeps_unknown: "keeps holds (unknown_after_restart E jid)"
  unfolding unknown_after_restart_def
  by (intro keeps_steps keeps_reading keeps_persist) (auto simp: worker_job_terminal_def dest!: job_known intro: known_writable)

lemma keeps_probe: "keeps holds (probe_worker_jobs E wanted least fail_transport)"
  unfolding probe_worker_jobs_def Let_def by (intro keeps_steps keeps_reading keeps_reconcile)

lemma keeps_submit_new: "keeps holds (submit_new E q metadata jid worker_id)"
  unfolding submit_new_def
  by (intro keeps_handing keeps_probe keeps_housekeeping keeps_existing keeps_create_job keeps_local keeps_submit_created)

lemma keeps_while_active: "keeps holds m \<Longrightarrow> keeps holds (while_active jid m)"
  by (auto simp: keeps_def while_active_def split: prod.split) (metis manager.select_convs(1) manager.update_convs(3) snd_conv manager.surjective)

lemma keeps_repeated: "keeps holds (repeated E asynchronous job)"
  unfolding repeated_def by (intro keeps_steps keeps_unknown)

lemma keeps_submit_locked: "keeps holds (submit_locked E q asynchronous initial jid worker_id)"
  unfolding submit_locked_def
  by (intro keeps_steps keeps_existing keeps_repeated keeps_finalize keeps_ready keeps_submit_created keeps_reconcile
      keeps_submit_new; (drule ready_registered, erule exE, erule keeps_resubmit)?)

lemma keeps_submit_impl: "keeps holds (submit_impl E q asynchronous initial)"
  unfolding submit_impl_def Let_def by (intro keeps_steps keeps_while_active keeps_submit_locked)

lemma keeps_reserve_new: "keeps holds (reserve_new E q jid worker_id)"
  unfolding reserve_new_def
  by (intro keeps_steps keeps_reading keeps_existing keeps_create_job keeps_local keeps_modify) simp

lemma keeps_reserve_existing: "known job \<Longrightarrow> keeps holds (reserve_existing E job)"
  unfolding reserve_existing_def
  by (intro keeps_steps keeps_persist keeps_modify) (auto intro: known_writable)

lemma keeps_launch_failed: "keeps holds (launch_failed_job E jid)"
  unfolding launch_failed_job_def
  by (intro keeps_steps keeps_reading keeps_local keeps_persist) (auto simp: worker_job_terminal_def dest!: job_known intro: known_writable)

lemma keeps_submit_async: "keeps holds (submit_async E q)"
  unfolding submit_async_def Let_def
  by (intro keeps_steps keeps_ready keeps_probe keeps_housekeeping keeps_existing keeps_reserve_new keeps_reserve_existing
      keeps_launch_failed keeps_modify) (auto dest: existing_known)

lemma keeps_background: "keeps holds (background_submission E q jid)"
  unfolding background_submission_def
  by (intro keeps_steps keeps_submit_impl keeps_fail_job keeps_local keeps_modify) simp

lemma keeps_run_thread: "keeps holds (run_thread E i)"
  unfolding run_thread_def by (intro keeps_steps keeps_background keeps_modify) simp

subsection \<open>Cancelling\<close>

lemma keeps_cancel_interaction: "seen KWorkerInteraction v \<Longrightarrow> keeps holds (cancel_interaction E jid reason v)"
  unfolding cancel_interaction_def
  by (intro keeps_steps keeps_mcommit) (auto simp: seen_def alift_def intro: open_interaction)

lemma outcome_id: "wj_id (cancellation_outcome requested pending answer now job) = wj_id job"
  by (simp add: cancellation_outcome_def Let_def)

lemma keeps_cancel_worker_job: "keeps holds (cancel_worker_job levels E jid requested reason)"
proof (induction levels arbitrary: jid)
  case (Suc levels)
  show ?case
    unfolding cancel_worker_job.simps ask_cancellation_def
    by (intro keeps_steps keeps_reading keeps_persist keeps_cancel_interaction keeps_modify Suc)
      (auto simp: outcome_id dest!: job_known intro: known_writable listed_seen)
qed (simp add: keeps_simple)

lemma keeps_cancel_job: "keeps holds (cancel_job E jid requested reason)"
  unfolding cancel_job_def by (intro keeps_steps keeps_cancel_worker_job)

subsection \<open>Interactions\<close>

lemma interaction_seen:
  assumes "get_interaction E iid w = (Inr i, w')" and "holds w" and "wi_state i = IPending" and "wi_id i' = wi_id i"
  shows "allowed (interaction_record i')"
  using assms
  by (auto simp: get_interaction_def abind_Inr alift_def mget_def mdraw_def look_def dest!: get_record_row lookup_row
      intro: open_interaction)

lemma keeps_expire:
  assumes "\<And>i'. wi_id i' = wi_id i \<Longrightarrow> allowed (interaction_record i')"
  shows "keeps holds (expire_interaction E i)"
  unfolding expire_interaction_def Let_def by (intro keeps_steps keeps_mcommit assms) simp

lemma keeps_await: "keeps holds (await_decision E iid)"
  unfolding await_decision_def
  by (intro keeps_steps keeps_reading keeps_expire) (auto simp: interaction_terminal_def intro: interaction_seen)

lemma keeps_resolve: "keeps holds (resolve_interaction E iid state payload actor reason)"
  unfolding resolve_interaction_def Let_def
  by (intro keeps_steps keeps_reading keeps_mcommit) (auto intro: interaction_seen)

lemma interaction_missing:
  assumes "get_interaction E (wi_id i) w = (Inl (Error NotFound t), w')" and "holds w"
  shows "allowed (interaction_record i)"
proof -
  from assms(1)
  have "rbind (get_record (me_fault E (mg_tick w)) KWorkerInteraction (wi_id i) (mg_store w)) (worker_interaction_from_json (me_json E)) =
      throw NotFound t"
    by (auto simp: get_interaction_def abind_def alift_def mget_def mdraw_def look_def rbind_def split: sum.splits prod.splits)
  with assms(2) show ?thesis by (rule new_interaction)
qed

lemma decided_id: "wi_id (decided_by_policy d now i) = wi_id i"
  by (simp add: decided_by_policy_def Let_def split: prod.split policy_decision.split)

lemma keeps_new_interaction:
  assumes "\<And>i. wi_id i = wq_request_id q \<Longrightarrow> allowed (interaction_record i)"
  shows "keeps holds (Laso_Manager.new_interaction E q)"
  unfolding new_interaction_def Let_def
  by (intro keeps_steps keeps_reading keeps_mcommit assms) (simp add: decided_id)

lemma new_interaction_id: "Laso_Manager.new_interaction E q w = (Inr i, w') \<Longrightarrow> wi_id i = wq_request_id q"
  by (auto simp: new_interaction_def Let_def abind_Inr aret_def decided_id)

lemma existing_interaction:
  assumes "atry (abind (get_interaction E rid) (\<lambda>i. if c i then athrow Plugin t else aret (Some i))) aret
      (\<lambda>code text. if code = NotFound then aret None else athrow code text) w = (Inr x, w')" and "holds w"
  shows "x = None \<Longrightarrow> wi_id i' = rid \<Longrightarrow> allowed (interaction_record i')"
    and "x = Some i \<Longrightarrow> wi_state i = IPending \<Longrightarrow> wi_id i' = wi_id i \<Longrightarrow> allowed (interaction_record i')"
proof -
  assume "x = None" and id: "wi_id i' = rid"
  with assms(1) obtain msg w1 where "get_interaction E rid w = (Inl (Error NotFound msg), w1)"
    by (auto simp: atry_Inr abind_def aret_def athrow_def alift_def split: prod.splits sum.splits if_splits)
  with assms(2) id show "allowed (interaction_record i')" by (auto intro: interaction_missing)
next
  assume "x = Some i" and pending: "wi_state i = IPending" "wi_id i' = wi_id i"
  with assms(1) obtain w1 where "get_interaction E rid w = (Inr i, w1)"
    by (auto simp: atry_Inr abind_Inr aret_def athrow_def alift_def split: if_splits)
  with assms(2) pending show "allowed (interaction_record i')" by (auto intro: interaction_seen)
qed

lemma keeps_handle_interaction: "keeps holds (handle_interaction E q)"
proof -
  have known: "keeps holds (abind (case x of Some i \<Rightarrow> aret i | None \<Rightarrow> Laso_Manager.new_interaction E q) (\<lambda>i.
      if interaction_terminal (wi_state i) then alift (interaction_response i)
      else abind (mtime E) (\<lambda>now. abind (if wi_deadline i \<noteq> [] \<and> wi_deadline i \<le> now then expire_interaction E i
             else await_decision E (wq_request_id q)) (\<lambda>i. alift (interaction_response i)))))"
    if "\<And>i'. x = None \<Longrightarrow> wi_id i' = wq_request_id q \<Longrightarrow> allowed (interaction_record i')"
      and "\<And>i i'. x = Some i \<Longrightarrow> wi_state i = IPending \<Longrightarrow> wi_id i' = wi_id i \<Longrightarrow> allowed (interaction_record i')" for x
    by (intro keeps_steps keeps_new_interaction keeps_expire keeps_await)
      (auto simp: interaction_terminal_def aret_def split: option.splits intro: that dest!: new_interaction_id)
  show ?thesis
    unfolding handle_interaction_def
  proof (intro keeps_look keeps_if keeps_simple keeps_abind_result [where m = "alift r" for r])
    fix w
    show "keeps holds (abind (atry (abind (get_interaction E (wq_request_id q)) (\<lambda>i.
                      if wi_worker_job_id i \<noteq> wq_worker_job_id q \<or> wi_type i \<noteq> wq_type q
                      then athrow Plugin ''Worker interaction id was reused with different content'' else aret (Some i)))
                  aret (\<lambda>code text. if code = NotFound then aret None else athrow code text)) (\<lambda>existing.
         abind (case existing of Some i \<Rightarrow> aret i | None \<Rightarrow> Laso_Manager.new_interaction E q) (\<lambda>i.
         if interaction_terminal (wi_state i) then alift (interaction_response i)
         else abind (mtime E) (\<lambda>now. abind (if wi_deadline i \<noteq> [] \<and> wi_deadline i \<le> now then expire_interaction E i
                  else await_decision E (wq_request_id q)) (\<lambda>i. alift (interaction_response i))))))"
      by (rule keeps_abind_result, intro keeps_steps keeps_reading, rule known) (auto intro: existing_interaction)
  qed
qed

subsection \<open>Events\<close>

lemma event_usage_id: "event_usage E payload job = Inr job' \<Longrightarrow> wj_id job' = wj_id job"
  by (auto simp: event_usage_def elim!: rbindE split: if_splits)

lemma event_external_id: "Laso_Manager.event_external_id E payload job = Inr (Some job') \<Longrightarrow> wj_id job' = wj_id job \<and> wj_state job' = wj_state job"
  by (auto simp: event_external_id_def elim!: rbindE split: if_splits)

lemma event_completed_id: "event_completed E payload job = Inr job' \<Longrightarrow> wj_id job' = wj_id job"
  by (auto simp: event_completed_def event_continuation_def Let_def elim!: rbindE split: if_splits option.splits
      dest!: event_usage_id continuation_id)

lemma event_transition_id: "event_transition E payload next now job = Inr job' \<Longrightarrow> wj_id job' = wj_id job"
  by (auto simp: event_transition_def Let_def elim!: rbindE split: if_splits dest!: event_completed_id)

lemma keeps_event_progress: "writable (wj_id job) \<Longrightarrow> keeps holds (event_progress E payload job)"
  unfolding event_progress_def
  by (intro keeps_steps keeps_budget keeps_persist) (auto simp: alift_def elim!: rbindE dest!: event_usage_id)

lemma keeps_job_event: "keeps holds (job_event E e jid)"
  unfolding job_event_def Let_def
  by (intro keeps_steps keeps_reading keeps_budget keeps_persist keeps_event_progress)
    (auto simp: alift_def dest!: event_external_id event_transition_id job_known dest: known_writable)

lemma keeps_receive: "keeps holds (receive_worker_event E e)"
  unfolding receive_worker_event_def by (intro keeps_steps keeps_job_event)

subsection \<open>Histories\<close>

lemma keeps_manager_call: "keeps holds (manager_call E op)"
  by (cases op) (simp_all add: quietly_def submit_job_def stop_manager_def keeps_modify keeps_run_thread keeps_cancel_job
      keeps_receive keeps_resolve keeps_abind keeps_simple keeps_submit_impl keeps_submit_async keeps_refresh
      keeps_handle_interaction)

lemma history_kept: "holds w \<Longrightarrow> holds (fold (manager_step E) ops w)"
  by (induction ops arbitrary: w) (auto simp: manager_step_def intro: keepsD [OF keeps_manager_call])

end

section \<open>A small installation\<close>

text \<open>One worker that recovers its submissions, and no other thread; its adapter accepts and knows nothing more.\<close>

definition some_worker :: worker_metadata where
  "some_worker =
     \<lparr>wm_id = ''codex'', wm_name = ''codex'', wm_version = ''1'', wm_description = [], wm_plugin = [], wm_event_schema = [],
      wm_event_source_id = ''codex'', wm_status = ''healthy'', wm_capabilities = [''code''], wm_local = True, wm_remote = False,
      wm_healthy = True, wm_enabled = True, wm_supports_status = True, wm_supports_recovery = True,
      wm_supports_cancellation = True\<rparr>"

definition some_manager_env :: manager_env where
  "some_manager_env =
     \<lparr>me_json = plain_ops, me_max_active = 4, me_max_per_worker = 2, me_max_artifacts = 8, me_max_wall_time_ms = 0,
      me_max_tokens_per_run = 100, me_max_cost_units_per_run = Finite 0,
      me_policy = Some \<lparr>rules = [], allow_network = False, allow_remote_workers = []\<rparr>,
      me_uuid = (\<lambda>n. CHR ''u'' # decimal n), me_time = (\<lambda>_ _. ''t''), me_fault = (\<lambda>_. None),
      me_workers = (\<lambda>_. \<lparr>entries = [(''codex'', some_worker)]\<rparr>), me_restartable = (\<lambda>_. False),
      me_submit = (\<lambda>_ _ _. TransportError ''none'' False), me_status = (\<lambda>_ _ _. TransportError ''none'' False),
      me_result = (\<lambda>_ _ _. TransportError ''none'' False), me_cancel = (\<lambda>_ _ _. Answer True),
      me_cancel_pending = (\<lambda>_ _ _. Answer True), me_start = (\<lambda>_ _. True), me_launch = (\<lambda>_. True),
      me_add = (\<lambda>a b. case (a, b) of (Finite x, Finite y) \<Rightarrow> Finite (x + y) | _ \<Rightarrow> NaN), me_others = (\<lambda>_. id)\<rparr>"

definition idle_manager :: "store \<Rightarrow> manager" where
  "idle_manager st =
     \<lparr>mg_store = st, mg_async = [], mg_active = [], mg_signals = [], mg_threads = [], mg_stopped = False, mg_sent = [], mg_tick = 0\<rparr>"

lemma some_manager_env_parts [simp]:
  "me_json some_manager_env = plain_ops" "me_others some_manager_env n = id" "me_fault some_manager_env n = None"
  "get worker_id (me_workers some_manager_env n) = Inr m \<Longrightarrow> wm_supports_recovery m"
  by (auto simp: some_manager_env_def get_def some_worker_def split: if_splits)

section \<open>What is final\<close>

definition json_ident :: "json_ops \<Rightarrow> json \<Rightarrow> string option" where
  "json_ident J v = (case jget_at (get_string J) v ''id'' of Inl _ \<Rightarrow> None | Inr i \<Rightarrow> Some i)"

definition stored_job_state :: "json_ops \<Rightarrow> string \<Rightarrow> worker_job_state \<Rightarrow> store \<Rightarrow> bool" where
  "stored_job_state J jid s =
     row_good KWorkerJob jid (json_ident J) (\<lambda>v. jat v ''status'' = Inr (worker_job_state_to_json s))"

definition stored_interaction_state :: "json_ops \<Rightarrow> string \<Rightarrow> worker_interaction_state \<Rightarrow> store \<Rightarrow> bool" where
  "stored_interaction_state J iid s =
     row_good KWorkerInteraction iid (json_ident J) (\<lambda>v. jat v ''state'' = Inr (worker_interaction_state_to_json s))"

lemma json_ident_of: "json_ops_ok J \<Longrightarrow> jat v ''id'' = Inr (JStr i) \<Longrightarrow> json_ident J v = Some i"
  by (simp add: json_ident_def jget_at_jat)

lemma stored_status: "worker_job_from_json J v = Inr job \<Longrightarrow> jat v ''status'' = Inr (worker_job_state_to_json s) \<Longrightarrow> wj_state job = s"
  using job_fields(2) [of J v job] by (simp add: jget_at_jat)

lemma stored_decided:
  assumes "worker_interaction_from_json J v = Inr i" and "jat v ''state'' = Inr (worker_interaction_state_to_json s)" and "json_ops_ok J"
  shows "wi_state i = s"
proof -
  obtain word where word: "worker_interaction_state_to_json s = JStr word"
    by (cases s) (simp_all add: worker_interaction_state_to_json_def enum_to_json_def worker_interaction_state_names_def)
  have "is_object v" using assms(2) by (auto simp: jat_def is_object_def split: json.splits)
  with assms word interaction_fields(2) [OF assms(1)] worker_interaction_words(2) [OF word] show ?thesis
    by (simp add: jvalue_by_jat)
qed

abbreviation final_job :: "manager_env \<Rightarrow> string \<Rightarrow> worker_job_state \<Rightarrow> bool" where
  "final_job E jid s \<equiv> json_ops_ok (me_json E) \<and> worker_job_terminal s \<and>
     (\<forall>n worker_id m. get worker_id (me_workers E n) = Inr m \<longrightarrow> wm_supports_recovery m) \<and>
     (\<forall>n w. stored_job_state (me_json E) jid s (mg_store w) \<longrightarrow> stored_job_state (me_json E) jid s (mg_store (me_others E n w)))"

abbreviation job_fits :: "manager_env \<Rightarrow> string \<Rightarrow> worker_job_state \<Rightarrow> store_record \<Rightarrow> bool" where
  "job_fits E jid s \<equiv> record_good KWorkerJob jid (json_ident (me_json E)) (\<lambda>v. jat v ''status'' = Inr (worker_job_state_to_json s))"

lemma job_record_good:
  assumes "json_ops_ok (me_json E)" and "wj_id job = jid \<Longrightarrow> wj_state job = s"
  shows "job_fits E jid s (job_record job)"
  using assms json_ident_of [OF assms(1) job_lookup(1) [of job]] by (auto simp: record_good_def job_record_def job_lookup)

lemma stored_job_named:
  assumes "stored_job_state J jid s st" and "row \<in> set (st KWorkerJob)" and "worker_job_from_json J (row_body row) = Inr job"
    and "wj_id job = jid"
  shows "wj_state job = s"
proof -
  have "json_ident J (row_body row) = Some jid"
    using job_fields(1) [OF assms(3)] assms(4) by (simp add: json_ident_def)
  with assms(1,2) have "jat (row_body row) ''status'' = Inr (worker_job_state_to_json s)"
    by (simp add: stored_job_state_def row_good_def)
  with assms(3) show ?thesis by (rule stored_status)
qed

interpretation final_jobs: manager_predicate E "\<lambda>st. final_job E jid s \<and> stored_job_state (me_json E) jid s st"
    "\<lambda>rec. final_job E jid s \<longrightarrow> job_fits E jid s rec" for E jid s
proof
  fix st rec row job job'
  show "final_job E jid s \<and> stored_job_state (me_json E) jid s st \<Longrightarrow> final_job E jid s \<longrightarrow> job_fits E jid s rec \<Longrightarrow>
      final_job E jid s \<and> stored_job_state (me_json E) jid s (upsert rec st)"
    unfolding stored_job_state_def by (blast intro: upsert_good)
  show "final_job E jid s \<longrightarrow> job_fits E jid s (job_record job')"
    if "final_job E jid s \<and> stored_job_state (me_json E) jid s st" "row \<in> set (st KWorkerJob)"
      "worker_job_from_json (me_json E) (row_body row) = Inr job"
      "\<not> worker_job_terminal (wj_state job) \<or> wj_state job' = wj_state job" "wj_id job' = wj_id job"
    using that stored_job_named [of "me_json E" jid s st row job] by (intro impI job_record_good) metis+
  show "final_job E jid s \<longrightarrow> job_fits E jid s (job_record job)"
    if "final_job E jid s \<and> stored_job_state (me_json E) jid s st" "lookup st KWorkerJob (wj_id job) = None"
    using that unfolding stored_job_state_def by (intro impI job_record_good) (auto elim!: found_row)
  fix w n st' worker_id m
  show "final_job E jid s \<and> stored_job_state (me_json E) jid s (mg_store w) \<Longrightarrow>
      final_job E jid s \<and> stored_job_state (me_json E) jid s (mg_store (me_others E n w))" by blast
  show "final_job E jid s \<and> stored_job_state (me_json E) jid s st \<Longrightarrow> st' KWorkerJob = st KWorkerJob \<Longrightarrow>
      final_job E jid s \<and> stored_job_state (me_json E) jid s st'"
    unfolding stored_job_state_def by (blast intro: row_good_unrelated)
  show "final_job E jid s \<and> stored_job_state (me_json E) jid s st \<Longrightarrow> get worker_id (me_workers E n) = Inr m \<Longrightarrow>
      \<not> wm_supports_recovery m \<Longrightarrow> final_job E jid s \<longrightarrow> job_fits E jid s (job_record job')" by metis
qed (simp_all only: record_good_def interaction_record_def store_record.simps record_kind.distinct simp_thms HOL.implies_True_equals)

text \<open>
  C10: a worker job that ended stays as it ended, where all workers recover their submissions and the other threads
  of the process keep it too. Neither submissions of the same key, nor late results, status calls, events,
  cancellations or background threads change its stored state, whatever the adapters answer. For a worker that does
  not recover its submissions, a repeated one marks the job unknown without looking at its state again.
\<close>

theorem ended_job_is_final:
  assumes "json_ops_ok (me_json E)" and "worker_job_terminal s"
    and "\<And>n worker_id m. get worker_id (me_workers E n) = Inr m \<Longrightarrow> wm_supports_recovery m"
    and "\<And>n w. stored_job_state (me_json E) jid s (mg_store w) \<Longrightarrow> stored_job_state (me_json E) jid s (mg_store (me_others E n w))"
    and "stored_job_state (me_json E) jid s (mg_store w)"
  shows "stored_job_state (me_json E) jid s (mg_store (fold (manager_step E) ops w))"
proof -
  have "final_job E jid s \<and> stored_job_state (me_json E) jid s (mg_store w)" using assms by blast
  from final_jobs.history_kept [OF this, of ops] show ?thesis by blast
qed

definition ended_job :: worker_job where
  "ended_job = example_job\<lparr>wj_state := JCompleted, wj_external_job_id := ''x''\<rparr>"

lemma ended_job_is_final_witness:
  "stored_job_state plain_ops ''job'' JCompleted (mg_store (fold (manager_step some_manager_env)
     [Refresh ''job'', CancelJob ''job'' JCancelled ''late'', StopManager] (idle_manager (upsert (job_record ended_job) empty_store))))"
proof -
  have "stored_job_state (me_json some_manager_env) ''job'' JCompleted (mg_store (idle_manager (upsert (job_record ended_job) empty_store)))"
    by (simp add: stored_job_state_def row_good_single job_record_def job_lookup idle_manager_def)
      (simp add: ended_job_def example_job_def)
  from ended_job_is_final [OF _ _ _ _ this, of "[Refresh ''job'', CancelJob ''job'' JCancelled ''late'', StopManager]"]
  show ?thesis by (simp add: plain_ops_ok worker_job_terminal_def)
qed

subsection \<open>Interactions\<close>

lemma found_interaction:
  assumes "library_errors J"
  shows "not_missing (worker_interaction_from_json J v)"
proof -
  have basic: "\<And>v. not_missing (get_string J v)"
    using assms by (simp add: library_errors_def not_missing_def)
  have words: "\<And>w. not_missing (parse_interaction_type w)" "\<And>w. not_missing (parse_interaction_state w)"
    by (simp_all add: parse_interaction_type_def parse_interaction_state_def not_missing_def)
  show ?thesis
    unfolding worker_interaction_from_json_def by (intro present_rules basic words)
qed

abbreviation final_interaction :: "manager_env \<Rightarrow> string \<Rightarrow> worker_interaction_state \<Rightarrow> bool" where
  "final_interaction E iid s \<equiv> json_ops_ok (me_json E) \<and> library_errors (me_json E) \<and> s \<noteq> IPending \<and>
     (\<forall>n t. me_fault E n \<noteq> Some (PoolError (Error NotFound t))) \<and>
     (\<forall>n w. stored_interaction_state (me_json E) iid s (mg_store w) \<longrightarrow>
        stored_interaction_state (me_json E) iid s (mg_store (me_others E n w)))"

abbreviation interaction_fits :: "manager_env \<Rightarrow> string \<Rightarrow> worker_interaction_state \<Rightarrow> store_record \<Rightarrow> bool" where
  "interaction_fits E iid s \<equiv> record_good KWorkerInteraction iid (json_ident (me_json E))
     (\<lambda>v. jat v ''state'' = Inr (worker_interaction_state_to_json s))"

lemma interaction_record_good:
  assumes "json_ops_ok (me_json E)" and "wi_id i \<noteq> iid"
  shows "interaction_fits E iid s (interaction_record i)"
  using assms json_ident_of [OF assms(1) interaction_lookup(1) [of i]] by (auto simp: record_good_def interaction_record_def)

lemma lookup_not_missing:
  assumes "rbind (get_record fault kind rid st) f = throw NotFound t" and "\<And>v. not_missing (f v)"
    and "\<And>t. fault \<noteq> Some (PoolError (Error NotFound t))"
  shows "lookup st kind rid = None"
proof (cases fault)
  case (Some f)
  with assms(1,3) show ?thesis
    by (cases f) (auto simp: get_record_def in_transaction_def translate_sql_error_def translate_connection_error_def split: if_splits)
next
  case None
  with assms(1) assms(2) [unfolded not_missing_def] show ?thesis
    by (auto simp: get_record_def in_transaction_def split: option.splits)
qed

lemma stored_interaction_named:
  assumes "stored_interaction_state J iid s st" and "row \<in> set (st KWorkerInteraction)"
    and "worker_interaction_from_json J (row_body row) = Inr i" and "json_ops_ok J" and "wi_id i = iid"
  shows "wi_state i = s"
proof -
  have "json_ident J (row_body row) = Some iid"
    using interaction_fields(1) [OF assms(3)] assms(5) by (simp add: json_ident_def)
  with assms(1,2) have "jat (row_body row) ''state'' = Inr (worker_interaction_state_to_json s)"
    by (simp add: stored_interaction_state_def row_good_def)
  with assms(3) show ?thesis using assms(4) by (rule stored_decided)
qed

interpretation final_interactions: manager_predicate E
    "\<lambda>st. final_interaction E iid s \<and> stored_interaction_state (me_json E) iid s st"
    "\<lambda>rec. final_interaction E iid s \<longrightarrow> interaction_fits E iid s rec" for E iid s
proof
  fix st rec row i i' n and msg :: string
  show "final_interaction E iid s \<and> stored_interaction_state (me_json E) iid s st \<Longrightarrow>
      final_interaction E iid s \<longrightarrow> interaction_fits E iid s rec \<Longrightarrow>
      final_interaction E iid s \<and> stored_interaction_state (me_json E) iid s (upsert rec st)"
    unfolding stored_interaction_state_def by (blast intro: upsert_good)
  show "final_interaction E iid s \<longrightarrow> interaction_fits E iid s (interaction_record i')"
    if "final_interaction E iid s \<and> stored_interaction_state (me_json E) iid s st" "row \<in> set (st KWorkerInteraction)"
      "worker_interaction_from_json (me_json E) (row_body row) = Inr i" "wi_state i = IPending" "wi_id i' = wi_id i"
  proof (intro impI interaction_record_good)
    show "wi_id i' \<noteq> iid"
      using that stored_interaction_named [of "me_json E" iid s st row i] by metis
  qed blast
  show "final_interaction E iid s \<longrightarrow> interaction_fits E iid s (interaction_record i)"
    if "final_interaction E iid s \<and> stored_interaction_state (me_json E) iid s st"
      "rbind (get_record (me_fault E n) KWorkerInteraction (wi_id i) st) (worker_interaction_from_json (me_json E)) = throw NotFound msg"
  proof (intro impI interaction_record_good)
    have "lookup st KWorkerInteraction (wi_id i) = None"
      using that(2) by (rule lookup_not_missing) (use that(1) found_interaction in blast)+
    with that(1) show "wi_id i \<noteq> iid" by (auto simp: stored_interaction_state_def elim!: found_row)
  qed blast
  fix w st'
  show "final_interaction E iid s \<and> stored_interaction_state (me_json E) iid s (mg_store w) \<Longrightarrow>
      final_interaction E iid s \<and> stored_interaction_state (me_json E) iid s (mg_store (me_others E n w))" by blast
  show "final_interaction E iid s \<and> stored_interaction_state (me_json E) iid s st \<Longrightarrow>
      st' KWorkerInteraction = st KWorkerInteraction \<Longrightarrow>
      final_interaction E iid s \<and> stored_interaction_state (me_json E) iid s st'"
    unfolding stored_interaction_state_def by (blast intro: row_good_unrelated)
qed (simp_all only: record_good_def job_record_def store_record.simps record_kind.distinct simp_thms HOL.implies_True_equals)

text \<open>
  C15: What a worker asked for is decided once: when an interaction is stored as approved, denied, answered, cancelled
  or expired, no repeated request, no later decision, no deadline and no cancellation of its job changes
  that, as long as the other threads keep it too.
\<close>

theorem interaction_decided_once:
  assumes "json_ops_ok (me_json E)" and "library_errors (me_json E)" and "s \<noteq> IPending"
    and "\<And>n t. me_fault E n \<noteq> Some (PoolError (Error NotFound t))"
    and "\<And>n w. stored_interaction_state (me_json E) iid s (mg_store w) \<Longrightarrow>
      stored_interaction_state (me_json E) iid s (mg_store (me_others E n w))"
    and "stored_interaction_state (me_json E) iid s (mg_store w)"
  shows "stored_interaction_state (me_json E) iid s (mg_store (fold (manager_step E) ops w))"
proof -
  have "final_interaction E iid s \<and> stored_interaction_state (me_json E) iid s (mg_store w)" using assms by blast
  from final_interactions.history_kept [OF this, of ops] show ?thesis by blast
qed

definition some_interaction :: "worker_interaction_state \<Rightarrow> worker_interaction" where
  "some_interaction s =
     \<lparr>wi_id = ''i1'', wi_worker_job_id = ''job'', wi_worker_id = ''codex'', wi_run_id = ''run'', wi_external_job_id = [],
      wi_session_id = [], wi_type = IPermission, wi_state = s, wi_title = [], wi_summary = [], wi_created_at = [],
      wi_deadline = [], wi_risk = [], wi_category = [], wi_payload = JObj [], wi_response = JObj [], wi_reason = [],
      wi_actor = [], wi_decided_at = []\<rparr>"

lemma interaction_decided_once_witness:
  "stored_interaction_state plain_ops ''i1'' IDenied (mg_store (fold (manager_step some_manager_env)
     [ResolveInteraction ''i1'' IApproved (JObj []) ''bob'' [], StopManager]
     (idle_manager (upsert (interaction_record (some_interaction IDenied)) empty_store))))"
proof -
  have "stored_interaction_state (me_json some_manager_env) ''i1'' IDenied
      (mg_store (idle_manager (upsert (interaction_record (some_interaction IDenied)) empty_store)))"
    by (simp add: stored_interaction_state_def row_good_single interaction_record_def interaction_lookup idle_manager_def)
      (simp add: some_interaction_def)
  moreover have "library_errors plain_ops"
    by (simp add: library_errors_def plain_ops_def split: json.split)
  ultimately show ?thesis
    using interaction_decided_once [of some_manager_env IDenied "''i1''"
        "idle_manager (upsert (interaction_record (some_interaction IDenied)) empty_store)"
        "[ResolveInteraction ''i1'' IApproved (JObj []) ''bob'' [], StopManager]"]
    by (simp add: plain_ops_ok)
qed

section \<open>The token budget\<close>

text \<open>The tokens of the other jobs of a run, as a number that cannot wrap around.\<close>

definition tokens_of :: "worker_job \<Rightarrow> nat" where
  "tokens_of job = (case total_tokens (wj_usage job) of None \<Rightarrow> 0 | Some t \<Rightarrow> unat t)"

definition others_tokens :: "string \<Rightarrow> worker_job list \<Rightarrow> nat" where
  "others_tokens jid jobs = sum_list (map tokens_of (filter (\<lambda>job. wj_id job \<noteq> jid) jobs))"

lemma u64_less: "unat (a :: u64) < 2 ^ 64"
  using unsigned_less [of a] by simp

lemma word_overflow: "(a :: u64) > - 1 - b \<longleftrightarrow> unat a + unat b \<ge> 2 ^ 64"
proof -
  have "unat (- 1 - b) = 2 ^ 64 - 1 - unat b"
    by (subst unat_sub) (simp_all add: unsigned_minus_1_eq_mask mask_eq_exp_minus_1)
  then show ?thesis using u64_less [of b] u64_less [of a] by (simp add: word_less_nat_alt) linarith
qed

lemma prior_usage_sum:
  assumes "mapM (worker_job_from_json (me_json E)) vs = Inr jobs"
  shows "prior_usage E jid vs tokens cost = Inr None \<and> unat tokens + others_tokens jid jobs \<ge> 2 ^ 64 \<or>
    (\<exists>t c. prior_usage E jid vs tokens cost = Inr (Some (t, c)) \<and> unat t = unat tokens + others_tokens jid jobs)"
  using assms
proof (induction vs arbitrary: jobs tokens cost)
  case (Cons v vs)
  then obtain job rest where job: "worker_job_from_json (me_json E) v = Inr job"
    and rest: "mapM (worker_job_from_json (me_json E)) vs = Inr rest" and jobs: "jobs = job # rest"
    by (auto elim!: rbindE)
  let ?more = "case total_tokens (wj_usage job) of None \<Rightarrow> 0 | Some t \<Rightarrow> t"
  have more: "unat ?more = tokens_of job" by (simp add: tokens_of_def split: option.split)
  have sum: "wj_id job \<noteq> jid \<Longrightarrow> others_tokens jid jobs = tokens_of job + others_tokens jid rest"
    and skip: "wj_id job = jid \<Longrightarrow> others_tokens jid jobs = others_tokens jid rest"
    by (simp_all add: others_tokens_def jobs)
  show ?case
  proof (cases "wj_id job = jid")
    case True
    with Cons.IH [OF rest] job skip show ?thesis by simp
  next
    case False
    show ?thesis
    proof (cases "tokens > - 1 - ?more")
      case True
      with False job sum more show ?thesis by (simp add: word_overflow Let_def)
    next
      case fits: False
      then have "unat (tokens + ?more) = unat tokens + tokens_of job"
        using more by (subst unat_add_lem [THEN iffD1]) (simp_all add: word_overflow)
      moreover have "prior_usage E jid (v # vs) tokens cost = prior_usage E jid vs (tokens + ?more)
          (case us_cost_units (wj_usage job) of None \<Rightarrow> cost | Some c \<Rightarrow> me_add E cost c)"
        using False fits job by (simp add: Let_def)
      ultimately show ?thesis
        using Cons.IH [OF rest, of "tokens + ?more"] sum [OF False] by (simp add: add.assoc)
    qed
  qed
qed (simp add: others_tokens_def)

text \<open>
  C18: the token budget of a run is enforced exactly on what it looks at, without wrap-around. It looks at the
  job's own report and at those of the other jobs among the oldest 10000 stored jobs of the run. With numbers
  that are valid in themselves and no cost limit, a job that reported its tokens is stopped if and only if these
  and those of the others exceed the limit together; a job that reported none is not stopped, however much the
  others used, unless their sum does not fit 64 bits.
\<close>

theorem token_budget_exact:
  assumes "usage_violation E (wj_usage job) = Inr []" and "me_max_cost_units_per_run E = Finite 0"
    and "me_max_tokens_per_run E \<noteq> 0"
    and "list_records (me_fault E (mg_tick w)) KWorkerJob (wj_run_id job) 10000 0 (mg_store w) = Inr vs"
    and "mapM (worker_job_from_json (me_json E)) vs = Inr jobs"
  shows "fst (budget_violation E job w) =
    Inr (if (case total_tokens (wj_usage job) of
               Some t \<Rightarrow> others_tokens (wj_id job) jobs + unat t > unat (me_max_tokens_per_run E)
             | None \<Rightarrow> others_tokens (wj_id job) jobs \<ge> 2 ^ 64)
         then ''worker token budget exceeded'' else [])"
proof -
  let ?limit = "me_max_tokens_per_run E"
  let ?over = "\<lambda>tokens. case total_tokens (wj_usage job) of None \<Rightarrow> False | Some t \<Rightarrow> tokens > ?limit \<or> t > ?limit - tokens"
  have read: "mlist E KWorkerJob (wj_run_id job) 10000 0 w = (Inr vs, w\<lparr>mg_tick := Suc (mg_tick w)\<rparr>)"
    using assms(4) by (simp add: mlist_def abind_def mdraw_def look_def alift_def)
  have verdict: "budget_violation E job w = (case prior_usage E (wj_id job) vs 0 (Finite 0) of
      Inl e \<Rightarrow> (Inl e, w\<lparr>mg_tick := Suc (mg_tick w)\<rparr>)
    | Inr None \<Rightarrow> (Inr ''worker token budget exceeded'', w\<lparr>mg_tick := Suc (mg_tick w)\<rparr>)
    | Inr (Some (tokens, cost)) \<Rightarrow>
        (Inr (if ?over tokens then ''worker token budget exceeded'' else []), w\<lparr>mg_tick := Suc (mg_tick w)\<rparr>))"
    using assms(1-3) read
    by (simp add: budget_violation_def Let_def abind_def alift_def aret_def split: sum.split option.split prod.split)
  have compare: "(tokens > ?limit \<or> t > ?limit - tokens) \<longleftrightarrow> unat tokens + unat t > unat ?limit" for tokens t
    by (cases "tokens > ?limit") (auto simp: word_less_nat_alt word_le_nat_alt unat_sub not_less)
  have limit: "unat ?limit < 2 ^ 64" by (rule u64_less)
  from prior_usage_sum [OF assms(5), of "wj_id job" 0 "Finite 0"] show ?thesis
  proof (elim disjE exE conjE)
    assume "prior_usage E (wj_id job) vs 0 (Finite 0) = Inr None"
      and "unat (0 :: u64) + others_tokens (wj_id job) jobs \<ge> 2 ^ 64"
    with verdict limit show ?thesis by (auto split: option.split)
  next
    fix t c
    assume "prior_usage E (wj_id job) vs 0 (Finite 0) = Inr (Some (t, c))"
      and t: "unat t = unat (0 :: u64) + others_tokens (wj_id job) jobs"
    with verdict u64_less [of t] show ?thesis by (simp add: compare split: option.split)
  qed
qed

lemma token_budget_exact_witness:
  "fst (budget_violation some_manager_env (example_job\<lparr>wj_id := ''other'', wj_usage := no_usage\<lparr>us_total_tokens := Some 90\<rparr>\<rparr>)
     (idle_manager (upsert (job_record example_job) empty_store))) = Inr ''worker token budget exceeded''"
proof -
  let ?w = "idle_manager (upsert (job_record example_job) empty_store)"
  let ?job = "example_job\<lparr>wj_id := ''other'', wj_usage := no_usage\<lparr>us_total_tokens := Some 90\<rparr>\<rparr>"
  have ok: "job_ok example_job"
    by (simp add: job_ok_def usage_ok_def continuation_fits_def example_job_def no_usage_def)
  have "list_records None KWorkerJob (wj_run_id ?job) 10000 0 (mg_store ?w) = Inr [worker_job_to_json example_job]"
    by (simp add: list_records_def in_transaction_def idle_manager_def upsert_def empty_store_def Let_def find_row_def job_record_def)
  moreover have "mapM (worker_job_from_json plain_ops) [worker_job_to_json example_job] = Inr [example_job]"
    using worker_job_codec [OF plain_ops_ok ok] by simp
  moreover have "usage_violation some_manager_env (wj_usage ?job) = Inr []"
    by (simp add: usage_violation_def some_manager_env_def no_usage_def max_usage_metric_def json_size_def plain_ops_def jobject_def Let_def)
  ultimately show ?thesis
    using token_budget_exact [of some_manager_env ?job ?w "[worker_job_to_json example_job]" "[example_job]"]
    by (simp add: some_manager_env_def total_tokens_def no_usage_def others_tokens_def tokens_of_def example_job_def)
qed

section \<open>Approvals that nobody gave\<close>

lemma evaluate_unruled:
  assumes "\<forall>r \<in> set (rules policy). \<not> applies r (pc_resource c)" and "pc_network c \<or> pc_remote c \<longrightarrow> allow_network policy"
  shows "pc_worker_node c \<Longrightarrow> \<not> pc_approval_required c \<Longrightarrow> evaluate policy c = (Allow, ''Allowed local operation'')"
    and "pc_approval_required c \<Longrightarrow> fst (evaluate policy c) \<noteq> Allow"
proof -
  have "scan_rules rs res d = scan_rules [] res d" if "\<forall>r \<in> set rs. \<not> applies r res" for rs res d
    using that by (induction rs) (simp_all add: applies_def)
  from this [OF assms(1)] show "pc_worker_node c \<Longrightarrow> \<not> pc_approval_required c \<Longrightarrow> evaluate policy c = (Allow, ''Allowed local operation'')"
    and "pc_approval_required c \<Longrightarrow> fst (evaluate policy c) \<noteq> Allow"
    using assms(2) by (auto simp: evaluate_def Let_def)
qed

lemma new_interaction_stored:
  assumes "new_interaction E q w = (Inr i, w')"
  obtains d now i0 where "interaction_policy E q = Inr d" and "i = decided_by_policy d now i0" and "wi_type i0 = wq_type q"
    and "wi_actor i0 = []" and "lookup (mg_store w') KWorkerInteraction (wq_request_id q) = Some (worker_interaction_to_json i)"
proof -
  have ident: "wi_id (decided_by_policy d now i) = wi_id i" for d now i
    by (auto simp: decided_by_policy_def Let_def split: policy_decision.splits prod.splits)
  have store: "lookup (mg_store w2) KWorkerInteraction (wi_id j) = Some (worker_interaction_to_json j)"
    if "mcommit E [interaction_record j] w1 = (Inr u, w2)" for j w1 w2 u
    using that
    by (auto simp: mcommit_def commit_def in_transaction_def write_records_def Let_def interaction_record_def
        elim!: rbindE dest!: write_record_lookup [where kind = KWorkerInteraction and rid = "wi_id j"] split: option.splits sum.splits prod.splits)
  have "\<exists>d now i0 w1 u. interaction_policy E q = Inr d \<and> decided_by_policy d now i0 = i \<and>
      wi_id i0 = wq_request_id q \<and> wi_type i0 = wq_type q \<and> wi_actor i0 = [] \<and>
      mcommit E [interaction_record i] w1 = (Inr u, w')"
    using assms unfolding new_interaction_def Let_def abind_Inr alift_def aret_def prod.inject sum.inject
    by clarify (intro exI conjI, assumption, rule refl, simp, simp, simp, assumption)
  then obtain d now i0 w1 u where i: "interaction_policy E q = Inr d" "i = decided_by_policy d now i0"
      "wi_id i0 = wq_request_id q" "wi_type i0 = wq_type q" "wi_actor i0 = []"
    and stored: "mcommit E [interaction_record i] w1 = (Inr u, w')" by blast
  from store [OF stored] i show thesis by (intro that) (simp_all add: ident)
qed

text \<open>
  C19: a worker's request for approval that the network switch does not refuse never reaches a human when no
  policy rule speaks about its resource: the context of the policy is built so that the request counts as a
  worker's node and not as one that requires approval. A first request that is answered at all is answered and
  stored as approved, with nobody as the actor, although the policy does not allow the same request once the
  flag is in its place.
\<close>

theorem approval_request_granted_by_default:
  assumes "wq_type q = IApproval" and "me_policy E = Some policy"
    and "jvalue (get_string (me_json E)) (wq_payload q) ''resource'' ''worker.permission'' = Inr resource"
    and "jvalue (get_string (me_json E)) (wq_payload q) ''classification'' ''public'' = Inr classification"
    and "jvalue (get_bool (me_json E)) (wq_payload q) ''network'' False = Inr network"
    and "jvalue (get_bool (me_json E)) (wq_payload q) ''remote'' False = Inr remote"
    and "\<forall>r \<in> set (rules policy). \<not> applies r resource" and "network \<or> remote \<longrightarrow> allow_network policy"
    and "lookup (mg_store w) KWorkerInteraction (wq_request_id q) = None"
    and "handle_interaction E q w = (Inr response, w')"
  shows "wr_state response = IApproved \<and>
    (\<exists>i. lookup (mg_store w') KWorkerInteraction (wq_request_id q) = Some (worker_interaction_to_json i) \<and>
       wi_state i = IApproved \<and> wi_actor i = []) \<and>
    fst (evaluate policy \<lparr>pc_pipeline_id = [], pc_node_id = [], pc_resource = resource, pc_classification = classification,
      pc_network = network, pc_remote = remote, pc_worker_node = False, pc_approval_required = True\<rparr>) \<noteq> Allow"
proof -
  have allowed: "interaction_policy E q = Inr (Allow, ''Allowed local operation'')"
    using assms(1-6) evaluate_unruled(1) [of policy "\<lparr>pc_pipeline_id = [], pc_node_id = [], pc_resource = resource,
      pc_classification = classification, pc_network = network, pc_remote = remote, pc_worker_node = True, pc_approval_required = False\<rparr>"]
      assms(7,8)
    by (simp add: interaction_policy_def Let_def)
  have absent: "get_interaction E (wq_request_id q) v \<noteq> (Inr i, v')" if "mg_store v = mg_store w" for v v' i
    using that assms(9)
    by (auto simp: get_interaction_def mget_def abind_Inr mdraw_def look_def alift_def get_record_def in_transaction_def
        split: option.splits)
  obtain v v' i where fresh: "new_interaction E q v = (Inr i, v')"
    and rest: "(if interaction_terminal (wi_state i) then alift (interaction_response i)
         else abind (mtime E) (\<lambda>now.
           abind (if wi_deadline i \<noteq> [] \<and> wi_deadline i \<le> now then expire_interaction E i
                  else await_decision E (wq_request_id q)) (\<lambda>i. alift (interaction_response i)))) v' = (Inr response, w')"
    using assms(10) absent unfolding handle_interaction_def look_def
    by (auto simp: abind_Inr atry_Inr alift_def aret_def athrow_def split: if_splits option.splits)
  from new_interaction_stored [OF fresh] obtain d now i0 where i: "interaction_policy E q = Inr d" "i = decided_by_policy d now i0"
      "wi_type i0 = wq_type q" "wi_actor i0 = []"
    and stored: "lookup (mg_store v') KWorkerInteraction (wq_request_id q) = Some (worker_interaction_to_json i)" by blast
  have state: "wi_state i = IApproved" "wi_actor i = []"
    using i allowed assms(1) by (simp_all only: allowed sum.inject) (auto simp: decided_by_policy_def)
  then have "w' = v'" "wr_state response = IApproved"
    using rest by (auto simp: interaction_terminal_def interaction_response_def alift_def elim!: rbindE)
  with state stored show ?thesis
    using evaluate_unruled(2) [of policy "\<lparr>pc_pipeline_id = [], pc_node_id = [], pc_resource = resource, pc_classification = classification,
      pc_network = network, pc_remote = remote, pc_worker_node = False, pc_approval_required = True\<rparr>"] assms(7,8) by auto
qed

definition some_request :: worker_interaction_request where
  "some_request = \<lparr>wq_request_id = ''i1'', wq_worker_job_id = ''job'', wq_worker_id = ''codex'', wq_external_job_id = [],
     wq_session_id = [], wq_type = IApproval, wq_title = ''rm -rf'', wq_summary = [], wq_created_at = [], wq_deadline = [],
     wq_risk = [], wq_category = [], wq_payload = jobject [(''resource'', JStr ''shell'')]\<rparr>"

definition silent_env :: manager_env where
  "silent_env = some_manager_env\<lparr>me_json := plain_ops\<lparr>dump := (\<lambda>_. [])\<rparr>\<rparr>"

lemma silent_env_parts [simp]:
  "me_fault silent_env n = None" "me_time silent_env n k = ''t''" "serialize (me_json silent_env) v = Inr []"
  "me_policy silent_env = Some \<lparr>rules = [], allow_network = False, allow_remote_workers = []\<rparr>"
  by (simp_all add: silent_env_def some_manager_env_def serialize_def plain_ops_def)

lemma silent_request [simp]:
  "interaction_policy silent_env some_request = Inr (Allow, ''Allowed local operation'')"
  "check_interaction_request silent_env some_request = Inr ()"
  by (simp_all add: interaction_policy_def check_interaction_request_def silent_env_def some_manager_env_def some_request_def
      jvalue_def jobject_def is_object_def json_size_def evaluate_def plain_ops_def Let_def)

lemma silent_commit:
  "wi_id i \<noteq> [] \<Longrightarrow> mcommit silent_env [interaction_record i] w =
     (Inr (), w\<lparr>mg_store := upsert (interaction_record i) (mg_store w), mg_tick := Suc (mg_tick w)\<rparr>)"
  by (simp add: mcommit_def commit_def in_transaction_def write_records_def write_record_def interaction_record_def Let_def
      split: option.split)

lemma approval_request_granted_by_default_witness:
  "\<exists>response w'. handle_interaction silent_env some_request (idle_manager empty_store) = (Inr response, w') \<and>
     wr_state response = IApproved \<and>
     (\<exists>i. lookup (mg_store w') KWorkerInteraction ''i1'' = Some (worker_interaction_to_json i) \<and>
       wi_state i = IApproved \<and> wi_actor i = [])"
proof -
  have absent: "get_interaction silent_env ''i1'' w = (throw NotFound ''Record not found'', w\<lparr>mg_tick := Suc (mg_tick w)\<rparr>)"
    "mget silent_env KWorkerJob ''job'' w = (throw NotFound ''Record not found'', w\<lparr>mg_tick := Suc (mg_tick w)\<rparr>)"
    if "mg_store w = empty_store" for w
    using that by (simp_all add: get_interaction_def mget_def abind_def mdraw_def look_def alift_def get_record_def in_transaction_def)
  have fields: "wq_request_id some_request = ''i1''" "wq_worker_job_id some_request = ''job''" "wq_type some_request = IApproval"
    by (simp_all add: some_request_def)
  have fresh: "\<exists>i w1. new_interaction silent_env some_request w = (Inr i, w1) \<and> wi_state i = IApproved \<and>
      (\<exists>r. interaction_response i = Inr r)" if "mg_store w = empty_store" for w
    using that fields
    by (simp add: new_interaction_def abind_def atry_def aret_def alift_def mtime_def mdraw_def absent decided_by_policy_def
        silent_commit interaction_response_def jvalue_def jobject_def Let_def)
  have "\<exists>response. fst (handle_interaction silent_env some_request (idle_manager empty_store)) = Inr response"
    using fresh [of "(idle_manager empty_store)\<lparr>mg_tick := Suc 0\<rparr>"]
    by (auto simp: handle_interaction_def look_def idle_manager_def alift_def abind_def atry_def aret_def fields absent
        interaction_terminal_def)
  then obtain response w' where run: "handle_interaction silent_env some_request (idle_manager empty_store) = (Inr response, w')"
    by (metis prod.collapse)
  have q: "wq_type some_request = IApproval"
    "me_policy silent_env = Some \<lparr>rules = [], allow_network = False, allow_remote_workers = []\<rparr>"
    "lookup (mg_store (idle_manager empty_store)) KWorkerInteraction (wq_request_id some_request) = None"
    by (simp_all add: some_request_def idle_manager_def)
  have p: "jvalue (get_string (me_json silent_env)) (wq_payload some_request) ''resource'' ''worker.permission'' = Inr ''shell''"
    "jvalue (get_string (me_json silent_env)) (wq_payload some_request) ''classification'' ''public'' = Inr ''public''"
    "jvalue (get_bool (me_json silent_env)) (wq_payload some_request) ''network'' False = Inr False"
    "jvalue (get_bool (me_json silent_env)) (wq_payload some_request) ''remote'' False = Inr False"
    by (simp_all add: silent_env_def some_manager_env_def some_request_def jvalue_def jobject_def plain_ops_def)
  have id: "wq_request_id some_request = ''i1''" by (simp add: some_request_def)
  from approval_request_granted_by_default [OF q(1,2) p _ _ q(3) run] run show ?thesis unfolding id by auto
qed

end
