(* ===== verification/Laso_Ingress.thy ===== *)
theory Laso_Ingress
  imports Laso_Rows Laso_Time Laso_Pipeline Laso_Action
begin

text \<open>
  The admission of external events of \<^verbatim>\<open>src/application/event_ingress.cpp\<close>: bounds on the calls in flight, the
  checks of an event, its durable acceptance under an exclusive claim of the source's own identifier, and the
  orderly stop. The parser and the schema validator are arguments; so are identifiers, clocks, the failures
  of the database and what other processes write to it between two accesses.
\<close>

section \<open>State\<close>

datatype ingress_status = Accepted | Duplicate | Rejected | Backpressured | Stopped

record ingress_result =
  ir_status :: ingress_status
  ir_event_id :: string
  ir_message :: string

record ingress =
  ig_store :: store
  ig_in_flight :: "(string, nat) omap"
  ig_pending :: nat
  ig_accepting :: bool
  ig_accepted :: u64
  ig_rejected :: u64
  ig_deduplicated :: u64
  ig_backpressured :: u64
  ig_published :: "event list"
  ig_tick :: nat

record ingress_env =
  ie_json :: json_ops
  ie_max_pending :: nat
  ie_max_per_source :: nat
  ie_parse :: "string \<Rightarrow> json option"
  ie_validate :: "nat \<Rightarrow> string \<Rightarrow> json \<Rightarrow> string \<Rightarrow> unit result"
  ie_uuid :: "nat \<Rightarrow> string"
  ie_time :: "nat \<Rightarrow> nat \<Rightarrow> string"
  ie_fault :: "nat \<Rightarrow> fault option"
  ie_others :: "nat \<Rightarrow> store \<Rightarrow> store"

type_synonym 'a ig = "(ingress, 'a) action"

text \<open>The constructor refuses limits of zero.\<close>

definition new_ingress :: "ingress_env \<Rightarrow> store \<Rightarrow> u32 \<Rightarrow> ingress result" where
  "new_ingress E st max_trigger_depth =
     (if max_trigger_depth = 0 \<or> ie_max_pending E = 0 \<or> ie_max_per_source E = 0
      then throw Configuration ''Invalid event ingress limits''
      else Inr \<lparr>ig_store = st, ig_in_flight = [], ig_pending = 0, ig_accepting = True, ig_accepted = 0, ig_rejected = 0,
                ig_deduplicated = 0, ig_backpressured = 0, ig_published = [], ig_tick = 0\<rparr>)"

definition idraw :: "(nat \<Rightarrow> 'a) \<Rightarrow> 'a ig" where
  "idraw f w = (Inr (f (ig_tick w)), w\<lparr>ig_tick := Suc (ig_tick w)\<rparr>)"

definition at_store :: "ingress_env \<Rightarrow> (nat \<Rightarrow> store \<Rightarrow> 'a result \<times> store) \<Rightarrow> 'a ig" where
  "at_store E f w =
     (let n = ig_tick w; (r, st) = f n (ie_others E n (ig_store w))
      in (r, w\<lparr>ig_store := st, ig_tick := Suc n\<rparr>))"

section \<open>The bounds\<close>

definition in_flight :: "ingress \<Rightarrow> string \<Rightarrow> nat" where
  "in_flight w source = (case map_of (ig_in_flight w) source of None \<Rightarrow> 0 | Some n \<Rightarrow> n)"

text \<open>Nothing is returned when the call is admitted. The subscript makes an entry even for a call that is refused.\<close>

definition enter :: "ingress_env \<Rightarrow> string \<Rightarrow> ingress_result option ig" where
  "enter E source =
     look (\<lambda>w.
       if \<not> ig_accepting w
       then aret (Some \<lparr>ir_status = Stopped, ir_event_id = [], ir_message = ''Event ingress is stopped''\<rparr>)
       else if ig_pending w \<ge> ie_max_pending E \<or> in_flight w source \<ge> ie_max_per_source E then
         abind (modify (\<lambda>w. w\<lparr>ig_in_flight := omap_put source (in_flight w source) (ig_in_flight w),
                              ig_backpressured := ig_backpressured w + 1\<rparr>)) (\<lambda>_.
         aret (Some \<lparr>ir_status = Backpressured, ir_event_id = [], ir_message = ''Event ingress capacity is exhausted''\<rparr>))
       else
         abind (modify (\<lambda>w. w\<lparr>ig_in_flight := omap_put source (Suc (in_flight w source)) (ig_in_flight w),
                              ig_pending := Suc (ig_pending w)\<rparr>)) (\<lambda>_. aret None))"

definition leave :: "string \<Rightarrow> ingress \<Rightarrow> ingress" where
  "leave source w =
     w\<lparr>ig_pending := ig_pending w - 1,
       ig_in_flight :=
         (case map_of (ig_in_flight w) source of
            None \<Rightarrow> ig_in_flight w
          | Some n \<Rightarrow> if n - 1 = 0 then omap_erase source (ig_in_flight w) else omap_put source (n - 1) (ig_in_flight w))\<rparr>"

section \<open>The checks of an event\<close>

definition name_char :: "char \<Rightarrow> bool" where
  "name_char c \<longleftrightarrow> is_alnum c \<or> c = CHR ''_'' \<or> c = CHR ''.'' \<or> c = CHR '':'' \<or> c = CHR ''-''"

definition event_name :: "nat \<Rightarrow> string \<Rightarrow> bool" where
  "event_name maximum value \<longleftrightarrow>
     (case value of [] \<Rightarrow> False | c # cs \<Rightarrow> Suc (length cs) \<le> maximum \<and> is_alnum c \<and> list_all name_char cs)"

definition rejected :: "string \<Rightarrow> ingress_result" where
  "rejected message = \<lparr>ir_status = Rejected, ir_event_id = [], ir_message = take 512 message\<rparr>"

record submission =
  sm_source_id :: string
  sm_plugin_name :: string
  sm_component_name :: string
  sm_schema_reference :: string
  sm_event_json :: string

definition zero_depth :: "json \<Rightarrow> bool" where
  "zero_depth v \<longleftrightarrow> v = JUInt 0 \<or> v = JInt 0"

text \<open>The first checks, on the identity and the shape of the document.\<close>

definition read_document :: "ingress_env \<Rightarrow> submission \<Rightarrow> string + json" where
  "read_document E q =
     (if \<not> event_name 256 (sm_source_id q) \<or> \<not> event_name 256 (sm_plugin_name q) \<or> \<not> event_name 256 (sm_component_name q)
      then Inl ''Event source identity is invalid''
      else if length (sm_event_json q) > 1024 * 1024 then Inl ''Event payload exceeds ingress size limit''
      else
        case ie_parse E (sm_event_json q) of
          None \<Rightarrow> Inl ''Event must be a JSON object''
        | Some input \<Rightarrow>
            if \<not> is_object input then Inl ''Event must be a JSON object''
            else if list_ex (jcontains input) [''source_id'', ''source'', ''source_plugin'', ''source_component'']
            then Inl ''Event source identity is assigned by LASO''
            else Inr input)"

record event_fields =
  ef_type :: string
  ef_external_id :: string
  ef_occurred_at :: string
  ef_payload :: json
  ef_metadata :: json
  ef_causation :: string
  ef_root :: string

text \<open>The fields; the left side is the message of a rejection.\<close>

definition read_fields :: "ingress_env \<Rightarrow> string \<Rightarrow> json \<Rightarrow> (string + event_fields) result" where
  "read_fields E now input =
     (let J = ie_json E in
      case jat input ''type'' of
        Inr (JStr type) \<Rightarrow>
          if \<not> event_name 128 type then Inr (Inl ''Event type is invalid'')
          else
            rbind (jvalue (get_string J) input ''external_id'' []) (\<lambda>external_id.
            if length external_id > 256 then Inr (Inl ''External event id exceeds the size limit'')
            else
              rbind (jvalue (get_string J) input ''occurred_at'' now) (\<lambda>occurred_at.
              rbind (parse_utc_timestamp occurred_at) (\<lambda>_.
              rbind (jvalue Inr input ''payload'' (jobject [])) (\<lambda>payload.
              rbind (jvalue Inr input ''metadata'' (jobject [])) (\<lambda>metadata.
              rbind (if is_object metadata then json_size J metadata else Inr 0) (\<lambda>metadata_bytes.
              if \<not> is_object metadata \<or> metadata_bytes > 64 * 1024
              then Inr (Inl ''Event metadata is invalid or too large'')
              else
                rbind (json_size J payload) (\<lambda>payload_bytes.
                if payload_bytes > 1024 * 1024 then Inr (Inl ''Event payload exceeds ingress size limit'')
                else
                  rbind (jvalue (get_string J) input ''causation_id'' []) (\<lambda>causation.
                  rbind (jvalue (get_string J) input ''root_event_id'' []) (\<lambda>root.
                  if length causation > 256 \<or> length root > 256
                  then Inr (Inl ''Event causation metadata exceeds the size limit'')
                  else if jcontains input ''trigger_depth'' \<and>
                    \<not> (case jat input ''trigger_depth'' of Inl _ \<Rightarrow> False | Inr v \<Rightarrow> zero_depth v)
                  then Inr (Inl ''Event trigger depth is assigned by LASO'')
                  else
                    Inr (Inr \<lparr>ef_type = type, ef_external_id = external_id, ef_occurred_at = occurred_at, ef_payload = payload,
                              ef_metadata = metadata, ef_causation = causation, ef_root = root\<rparr>))))))))))
      | _ \<Rightarrow> Inr (Inl ''Event type is required''))"

definition make_event :: "submission \<Rightarrow> event_fields \<Rightarrow> string \<Rightarrow> string \<Rightarrow> event" where
  "make_event q f fresh now =
     (let metadata = jput ''source_component'' (JStr (sm_component_name q))
            (jput ''source_plugin'' (JStr (sm_plugin_name q)) (jput ''source_id'' (JStr (sm_source_id q)) (ef_metadata f)))
      in (new_event fresh now)\<lparr>ev_type := ef_type f, ev_time := ef_occurred_at f, ev_occurred_at := ef_occurred_at f,
           ev_ingested_at := now, ev_source_id := sm_source_id q, ev_source_plugin := sm_plugin_name q,
           ev_source_component := sm_component_name q, ev_external_event_id := ef_external_id f,
           ev_causation_id := ef_causation f, ev_root_event_id := (if ef_root f = [] then fresh else ef_root f),
           ev_payload := ef_payload f, ev_metadata := metadata\<rparr>)"

section \<open>Acceptance\<close>

definition external_claim_id :: "string \<Rightarrow> string \<Rightarrow> string" where
  "external_claim_id source external_id =
     ''external-event:'' @ decimal (length source) @ '':'' @ source @ '':'' @ external_id"

definition event_claim :: "event \<Rightarrow> json" where
  "event_claim e =
     jobject [(''id'', JStr (external_claim_id (ev_source_id e) (ev_external_event_id e))), (''source_id'', JStr (ev_source_id e)),
              (''external_event_id'', JStr (ev_external_event_id e)), (''event_id'', JStr (ev_id e)),
              (''accepted_at'', JStr (ev_ingested_at e))]"

definition ingested_record :: "event \<Rightarrow> store_record" where
  "ingested_record e = \<lparr>sr_kind = KEvent, sr_id = ev_id e, sr_run_id = [], sr_value = event_to_json e\<rparr>"

definition claim_record :: "event \<Rightarrow> store_record" where
  "claim_record e =
     \<lparr>sr_kind = KExternalEventClaim, sr_id = external_claim_id (ev_source_id e) (ev_external_event_id e), sr_run_id = [],
      sr_value = event_claim e\<rparr>"

definition accept :: "event \<Rightarrow> ingress_result ig" where
  "accept e =
     abind (modify (\<lambda>w. w\<lparr>ig_accepted := ig_accepted w + 1, ig_published := ig_published w @ [e]\<rparr>)) (\<lambda>_.
     aret \<lparr>ir_status = Accepted, ir_event_id = ev_id e, ir_message = ''Event accepted''\<rparr>)"

definition store_event :: "ingress_env \<Rightarrow> event \<Rightarrow> ingress_result ig" where
  "store_event E e =
     (if ev_external_event_id e \<noteq> [] then
        abind (at_store E (\<lambda>n. claim (ie_json E) (ie_fault E n) (claim_record e) [ingested_record e])) (\<lambda>won.
        if won then accept e
        else
          abind (at_store E (\<lambda>n st. (get_record (ie_fault E n) KExternalEventClaim (sr_id (claim_record e)) st, st))) (\<lambda>existing.
          abind (modify (\<lambda>w. w\<lparr>ig_deduplicated := ig_deduplicated w + 1\<rparr>)) (\<lambda>_.
          abind (alift (jvalue (get_string (ie_json E)) existing ''event_id'' [])) (\<lambda>event_id.
          aret \<lparr>ir_status = Duplicate, ir_event_id = event_id, ir_message = ''External event was already accepted''\<rparr>))))
      else
        abind (at_store E (\<lambda>n. commit (ie_json E) (ie_uuid E n) (ie_time E n 0) (ie_time E n 1) (ie_fault E n) [ingested_record e])) (\<lambda>_.
        accept e))"

definition process_event :: "ingress_env \<Rightarrow> submission \<Rightarrow> ingress_result ig" where
  "process_event E q =
     (case read_document E q of
        Inl message \<Rightarrow> aret (rejected message)
      | Inr input \<Rightarrow>
          abind (idraw (\<lambda>n. read_fields E (ie_time E n 0) input)) (\<lambda>fields.
          abind (alift fields) (\<lambda>checked.
          case checked of
            Inl message \<Rightarrow> aret (rejected message)
          | Inr f \<Rightarrow>
              abind (idraw (\<lambda>n. if sm_schema_reference q = [] then Inr ()
                                else ie_validate E n (sm_schema_reference q) (ef_payload f) (sm_source_id q))) (\<lambda>valid.
              abind (alift valid) (\<lambda>_.
              abind (idraw (\<lambda>n. make_event q f (ie_uuid E n) (ie_time E n 1))) (\<lambda>e.
              abind (alift (json_size (ie_json E) (ev_metadata e))) (\<lambda>bytes.
              if bytes > 64 * 1024 then aret (rejected ''Event metadata exceeds the size limit'')
              else store_event E e)))))))"

text \<open>What went wrong is counted; only the messages of the validation are shown.\<close>

definition ingestion_failed :: "exn \<Rightarrow> ingress_result ig" where
  "ingestion_failed e =
     abind (modify (\<lambda>w. w\<lparr>ig_rejected := ig_rejected w + 1\<rparr>)) (\<lambda>_.
     aret (case e of
             Error Validation text \<Rightarrow> rejected text
           | JsonTypeError \<Rightarrow> rejected ''Event JSON is invalid''
           | JsonOutOfRange \<Rightarrow> rejected ''Event JSON is invalid''
           | _ \<Rightarrow> rejected ''Event ingestion failed''))"

definition process_submission :: "ingress_env \<Rightarrow> submission \<Rightarrow> ingress_result ig" where
  "process_submission E q = acatch (process_event E q) ingestion_failed"

definition submit_event :: "ingress_env \<Rightarrow> submission \<Rightarrow> ingress_result ig" where
  "submit_event E q =
     abind (enter E (sm_source_id q)) (\<lambda>answer.
     case answer of
       Some r \<Rightarrow> aret r
     | None \<Rightarrow> (\<lambda>w. case process_submission E q w of (r, w') \<Rightarrow> (r, leave (sm_source_id q) w')))"

text \<open>\<^verbatim>\<open>stop\<close> returns when no call is in flight any more (\<open>drained\<close>).\<close>

definition stop_ingress :: "ingress \<Rightarrow> ingress" where
  "stop_ingress w = w\<lparr>ig_accepting := False\<rparr>"

definition drained :: "ingress \<Rightarrow> bool" where
  "drained w \<longleftrightarrow> ig_pending w = 0"

definition ingress_stats :: "ingress \<Rightarrow> json" where
  "ingress_stats w =
     jobject [(''accepting'', JBool (ig_accepting w)), (''pending'', JUInt (ig_pending w)),
              (''accepted'', JUInt (unat (ig_accepted w))), (''rejected'', JUInt (unat (ig_rejected w))),
              (''deduplicated'', JUInt (unat (ig_deduplicated w))), (''backpressured'', JUInt (unat (ig_backpressured w)))]"

section \<open>Calls in flight\<close>

text \<open>
  Threads in any order: a call enters, does its work while it is counted, and leaves. A call that was refused
  has its answer and is gone.
\<close>

datatype ingress_op = Enter submission | Work nat | Leave nat | StopIngress

type_synonym calls = "(submission \<times> bool) list"

fun ingress_step :: "ingress_env \<Rightarrow> ingress_op \<Rightarrow> ingress \<times> calls \<Rightarrow> ingress \<times> calls" where
  "ingress_step E (Enter q) (w, calls) =
     (case enter E (sm_source_id q) w of
        (Inr None, w') \<Rightarrow> (w', calls @ [(q, False)])
      | (_, w') \<Rightarrow> (w', calls))"
| "ingress_step E (Work i) (w, calls) =
     (if i < length calls \<and> \<not> snd (calls ! i)
      then (snd (process_submission E (fst (calls ! i)) w), calls[i := (fst (calls ! i), True)]) else (w, calls))"
| "ingress_step E (Leave i) (w, calls) =
     (if i < length calls \<and> snd (calls ! i)
      then (leave (sm_source_id (fst (calls ! i))) w, take i calls @ drop (Suc i) calls) else (w, calls))"
| "ingress_step E StopIngress (w, calls) = (stop_ingress w, calls)"

lemma submit_event_steps:
  assumes "enter E (sm_source_id q) w = (Inr None, w1)"
  shows "fold (ingress_step E) [Enter q, Work 0, Leave 0] (w, []) = (snd (submit_event E q w), [])"
  using assms by (simp add: submit_event_def abind_def split: prod.split)

definition calls_of :: "string \<Rightarrow> calls \<Rightarrow> nat" where
  "calls_of source calls = length (filter (\<lambda>c. sm_source_id (fst c) = source) calls)"

definition counted :: "ingress_env \<Rightarrow> ingress \<times> calls \<Rightarrow> bool" where
  "counted E wc \<longleftrightarrow>
     (case wc of (w, calls) \<Rightarrow>
        ig_pending w = length calls \<and> (\<forall>source. in_flight w source = calls_of source calls) \<and>
        length calls \<le> ie_max_pending E \<and> (\<forall>source. calls_of source calls \<le> ie_max_per_source E))"

text \<open>The work of a call touches neither the gate nor the counters of the calls in flight.\<close>

abbreviation gate :: "ingress \<Rightarrow> nat \<times> (string, nat) omap \<times> bool" where
  "gate w \<equiv> (ig_pending w, ig_in_flight w, ig_accepting w)"

lemma keeps_gate: "keeps (\<lambda>w. gate w = g) (process_submission E q)"
proof -
  have part: "keeps (\<lambda>w. gate w = g) (idraw f)" "keeps (\<lambda>w. gate w = g) (at_store E h)" "keeps (\<lambda>w. gate w = g) (accept e)" for f h e
    by (auto simp: keeps_def idraw_def at_store_def accept_def abind_def modify_def aret_def Let_def split: prod.split)
  have "keeps (\<lambda>w. gate w = g) (store_event E e)" for e
    unfolding store_event_def by (intro keeps_rules part keeps_modify) simp
  then have "keeps (\<lambda>w. gate w = g) (process_event E q)"
    unfolding process_event_def by (auto split: sum.split intro!: keeps_rules part)
  moreover have "keeps (\<lambda>w. gate w = g) (ingestion_failed e)" for e
    unfolding ingestion_failed_def by (intro keeps_rules keeps_modify) simp
  ultimately show ?thesis
    unfolding process_submission_def by (intro keeps_rules)
qed

lemma process_gate: "gate (snd (process_submission E q w)) = gate w"
  using keepsD [OF keeps_gate [of "gate w" E q], of w] by simp

lemma calls_of_append [simp]: "calls_of source (xs @ ys) = calls_of source xs + calls_of source ys"
  by (simp add: calls_of_def)

lemma calls_of_split:
  assumes "i < length calls"
  shows "calls_of source calls = calls_of source (take i calls) + calls_of source (drop (Suc i) calls) +
    (if sm_source_id (fst (calls ! i)) = source then 1 else 0)"
proof -
  have "calls_of source calls = calls_of source (take i calls @ [calls ! i] @ drop (Suc i) calls)"
    using id_take_nth_drop [OF assms] by simp
  then show ?thesis by (simp only: calls_of_append) (simp add: calls_of_def)
qed

lemma calls_of_update: "i < length calls \<Longrightarrow> calls_of source (calls[i := (fst (calls ! i), b)]) = calls_of source calls"
  using calls_of_split [of i calls source] calls_of_split [of i "calls[i := (fst (calls ! i), b)]" source] by simp

lemma in_flight_put: "in_flight (w\<lparr>ig_in_flight := omap_put s n (ig_in_flight w), ig_pending := p\<rparr>) source =
    (if source = s then n else in_flight w source)"
  by (simp add: in_flight_def map_of_omap_put)

lemma counted_enter:
  assumes "counted E (w, calls)"
  shows "counted E (ingress_step E (Enter q) (w, calls))"
proof -
  let ?s = "sm_source_id q"
  have new: "calls_of source [(q, False)] = (if source = ?s then 1 else 0)" for source
    by (auto simp: calls_of_def)
  from assms have flight: "in_flight w source = calls_of source calls" for source
    by (simp add: counted_def)
  have same: "in_flight (w\<lparr>ig_in_flight := omap_put ?s (calls_of ?s calls) (ig_in_flight w), ig_backpressured := b\<rparr>) source =
      calls_of source calls" for source b
    using flight [of source] by (simp add: in_flight_def map_of_omap_put)
  from assms show ?thesis
    by (auto simp: counted_def enter_def look_def aret_def abind_def modify_def new flight in_flight_put same Suc_le_eq)
qed

lemma counted_leave:
  assumes "counted E (w, calls)" and "i < length calls"
  shows "counted E (leave (sm_source_id (fst (calls ! i))) w, take i calls @ drop (Suc i) calls)"
proof -
  let ?s = "sm_source_id (fst (calls ! i))"
  note split = calls_of_split [OF assms(2)]
  from assms(1) have flight: "in_flight w source = calls_of source calls" for source
    by (simp add: counted_def)
  have "in_flight (leave ?s w) source = calls_of source (take i calls @ drop (Suc i) calls)" for source
    using flight [of source] flight [of ?s] split [of source] split [of ?s]
    by (auto simp: in_flight_def leave_def map_of_omap_put map_of_omap_erase split: option.splits if_splits)
  moreover have "calls_of source (take i calls @ drop (Suc i) calls) \<le> ie_max_per_source E" for source
  proof -
    have "calls_of source calls \<le> ie_max_per_source E" using assms(1) by (simp add: counted_def)
    with split [of source] show ?thesis by simp
  qed
  moreover have "ig_pending (leave ?s w) = length calls - 1" "length calls - 1 \<le> ie_max_pending E"
    using assms by (auto simp: counted_def leave_def)
  ultimately show ?thesis
    using assms(2) by (simp add: counted_def)
qed

lemma counted_step: "counted E wc \<Longrightarrow> counted E (ingress_step E op wc)"
proof (cases wc, cases op)
  fix w calls i
  assume c: "counted E wc" and wc: "wc = (w, calls)"
  {
    fix q
    show "op = Enter q \<Longrightarrow> ?thesis" using c wc counted_enter by blast
  next
    show "op = Work i \<Longrightarrow> ?thesis"
      using c wc process_gate [of E "fst (calls ! i)" w] by (auto simp: counted_def calls_of_update in_flight_def)
  next
    show "op = Leave i \<Longrightarrow> ?thesis" using c wc counted_leave by auto
  next
    show "op = StopIngress \<Longrightarrow> ?thesis" using c wc by (simp add: counted_def stop_ingress_def in_flight_def)
  }
qed

lemma counted_history: "counted E wc \<Longrightarrow> counted E (fold (ingress_step E) ops wc)"
  by (rule fold_step_invariant [where P = "counted E"]) (simp_all add: counted_step)

lemma counted_new: "new_ingress E st max_depth = Inr w \<Longrightarrow> counted E (w, [])"
  by (auto simp: new_ingress_def counted_def in_flight_def calls_of_def split: if_splits)

definition some_ingress_env :: ingress_env where
  "some_ingress_env =
     \<lparr>ie_json = plain_ops, ie_max_pending = 1, ie_max_per_source = 1,
      ie_parse = (\<lambda>_. Some (JObj [(''external_id'', JStr ''x''), (''type'', JStr ''t'')])),
      ie_validate = (\<lambda>_ _ _ _. Inr ()), ie_uuid = (\<lambda>n. CHR ''e'' # decimal n), ie_time = (\<lambda>_ _. ''2026-01-01T00:00:00.000Z''),
      ie_fault = (\<lambda>_. None), ie_others = (\<lambda>_. id)\<rparr>"

definition some_submission :: submission where
  "some_submission =
     \<lparr>sm_source_id = ''s'', sm_plugin_name = ''p'', sm_component_name = ''c'', sm_schema_reference = [], sm_event_json = ''...''\<rparr>"

text \<open>
  C17: The admission of events is bounded under every interleaving of the threads that submit: never more calls
  are in flight than \<^verbatim>\<open>max_pending\<close>, never more of one source than \<^verbatim>\<open>max_per_source\<close>, and the counters are
  exact, so no slot is lost by calls that were refused, rejected or failed.
\<close>

theorem ingress_bounded:
  assumes "new_ingress E st max_depth = Inr w"
  shows "case fold (ingress_step E) ops (w, []) of (w', calls) \<Rightarrow>
    length calls \<le> ie_max_pending E \<and> (\<forall>source. calls_of source calls \<le> ie_max_per_source E) \<and>
    ig_pending w' = length calls \<and> (\<forall>source. in_flight w' source = calls_of source calls)"
  using counted_history [OF counted_new [OF assms], of ops] by (auto simp: counted_def split: prod.split)

lemma ingress_bounded_witness:
  "\<exists>w. new_ingress some_ingress_env empty_store 16 = Inr w \<and>
     length (snd (fold (ingress_step some_ingress_env) [Enter some_submission, Enter some_submission] (w, []))) \<le> 1"
  using ingress_bounded [of some_ingress_env empty_store 16 _ "[Enter some_submission, Enter some_submission]"]
  by (auto simp: new_ingress_def some_ingress_env_def split: prod.splits)

section \<open>Durable acceptance\<close>

definition event_key :: "event \<Rightarrow> string \<times> string" where
  "event_key e = (ev_source_id e, ev_external_event_id e)"

definition keys_kept :: "ingress_env \<Rightarrow> bool" where
  "keys_kept E \<longleftrightarrow>
     (\<forall>n st kind rid. lookup st kind rid \<noteq> None \<longrightarrow> lookup (ie_others E n st) kind rid \<noteq> None)"

text \<open>Every event that was published is stored, the named ones under their claim, and no name occurs twice.\<close>

definition durable :: "ingress \<Rightarrow> bool" where
  "durable w \<longleftrightarrow>
     (\<forall>e \<in> set (ig_published w). lookup (ig_store w) KEvent (ev_id e) \<noteq> None \<and>
        (ev_external_event_id e \<noteq> [] \<longrightarrow>
           lookup (ig_store w) KExternalEventClaim (external_claim_id (ev_source_id e) (ev_external_event_id e)) \<noteq> None)) \<and>
     distinct (map event_key (filter (\<lambda>e. ev_external_event_id e \<noteq> []) (ig_published w)))"

lemma durable_store:
  assumes "durable w" and "\<And>kind rid. lookup (ig_store w) kind rid \<noteq> None \<Longrightarrow> lookup (ig_store w') kind rid \<noteq> None"
    and "ig_published w' = ig_published w"
  shows "durable w'"
  using assms unfolding durable_def by simp

lemma claim_keeps: "lookup st kind rid \<noteq> None \<Longrightarrow> lookup (snd (claim J fault r assoc st)) kind rid \<noteq> None"
  using store_keeps_keys [of st kind rid J "\<lparr>so_fresh = [], so_now = [], so_now2 = [], so_fault = fault, so_clock = \<lambda>_. 0, so_op = Claim r assoc\<rparr>"]
  by (simp add: store_step_def)

lemma commit_keeps: "lookup st kind rid \<noteq> None \<Longrightarrow> lookup (snd (commit J fresh now now2 fault rs st)) kind rid \<noteq> None"
  using store_keeps_keys [of st kind rid J "\<lparr>so_fresh = fresh, so_now = now, so_now2 = now2, so_fault = fault, so_clock = \<lambda>_. 0, so_op = Commit rs\<rparr>"]
  by (simp add: store_step_def)

lemma claim_stores:
  assumes "claim J fault r [r'] st = (Inr True, st')"
  shows "lookup st (sr_kind r) (sr_id r) = None" and "lookup st' (sr_kind r) (sr_id r) \<noteq> None"
    and "lookup st' (sr_kind r') (sr_id r') \<noteq> None"
  using assms
  by (auto simp: claim_def in_transaction_def lookup_upsert elim!: rbindE dest!: insert_associated_Inr
      split: if_splits option.splits sum.splits)

lemma commit_stores:
  assumes "commit J fresh now now2 fault [r] st = (Inr (), st')" and "sr_kind r = KEvent"
  shows "lookup st' KEvent (sr_id r) \<noteq> None"
  using assms
  by (auto simp: commit_def in_transaction_def write_records_def lookup_upsert elim!: rbindE dest!: write_record_Inr
      split: option.splits sum.splits)

lemma durable_at_store:
  assumes "durable w" and "keys_kept E" and "\<And>n st kind rid. lookup st kind rid \<noteq> None \<Longrightarrow> lookup (snd (f n st)) kind rid \<noteq> None"
    and "at_store E f w = (r, w1)"
  shows "durable w1"
  using assms(1)
proof (rule durable_store)
  fix kind rid
  assume "lookup (ig_store w) kind rid \<noteq> None"
  with assms(2) have "lookup (ie_others E (ig_tick w) (ig_store w)) kind rid \<noteq> None"
    unfolding keys_kept_def by blast
  from assms(3) [OF this, of "ig_tick w"] assms(4) show "lookup (ig_store w1) kind rid \<noteq> None"
    by (auto simp: at_store_def Let_def split: prod.splits)
qed (use assms(4) in \<open>auto simp: at_store_def Let_def split: prod.splits\<close>)

lemma durable_accept:
  assumes "durable w" and "lookup (ig_store w) KEvent (ev_id e) \<noteq> None"
    and "ev_external_event_id e \<noteq> [] \<Longrightarrow> event_key e \<notin> event_key ` set (filter (\<lambda>e. ev_external_event_id e \<noteq> []) (ig_published w)) \<and>
      lookup (ig_store w) KExternalEventClaim (external_claim_id (ev_source_id e) (ev_external_event_id e)) \<noteq> None"
  shows "durable (snd (accept e w))"
  using assms by (auto simp: durable_def accept_def abind_def modify_def aret_def)

lemma key_claimed:
  assumes "durable w" and "keys_kept E" and "event_key e \<in> event_key ` set (filter (\<lambda>e. ev_external_event_id e \<noteq> []) (ig_published w))"
  shows "lookup (ie_others E n (ig_store w)) KExternalEventClaim (sr_id (claim_record e)) \<noteq> None"
proof -
  from assms(3) obtain e' where e': "e' \<in> set (ig_published w)" "ev_external_event_id e' \<noteq> []" "event_key e' = event_key e"
    by auto
  then have "sr_id (claim_record e) = external_claim_id (ev_source_id e') (ev_external_event_id e')"
    by (simp add: claim_record_def event_key_def)
  with assms(1,2) e'(1,2) show ?thesis by (auto simp: durable_def keys_kept_def)
qed

lemma durable_claimed:
  assumes "durable w" and "keys_kept E" and "ev_external_event_id e \<noteq> []"
    and "at_store E (\<lambda>n. claim (ie_json E) (ie_fault E n) (claim_record e) [ingested_record e]) w = (Inr True, w1)"
  shows "durable (snd (accept e w1))"
proof (rule durable_accept)
  show "durable w1"
    by (rule durable_at_store [OF assms(1,2) claim_keeps assms(4)])
  from assms(4) obtain st where claim: "claim (ie_json E) (ie_fault E (ig_tick w)) (claim_record e) [ingested_record e]
      (ie_others E (ig_tick w) (ig_store w)) = (Inr True, st)" and w1: "ig_store w1 = st" "ig_published w1 = ig_published w"
    by (auto simp: at_store_def Let_def split: prod.splits)
  note stored = claim_stores [OF claim]
  show "lookup (ig_store w1) KEvent (ev_id e) \<noteq> None"
    using stored(3) w1 by (simp add: ingested_record_def)
  show "event_key e \<notin> event_key ` set (filter (\<lambda>e. ev_external_event_id e \<noteq> []) (ig_published w1)) \<and>
      lookup (ig_store w1) KExternalEventClaim (external_claim_id (ev_source_id e) (ev_external_event_id e)) \<noteq> None"
    using stored(1,2) key_claimed [OF assms(1,2), of e "ig_tick w"] w1 by (auto simp: claim_record_def)
qed

lemma durable_committed:
  assumes "durable w" and "keys_kept E" and "ev_external_event_id e = []"
    and "at_store E (\<lambda>n. commit (ie_json E) (ie_uuid E n) (ie_time E n 0) (ie_time E n 1) (ie_fault E n) [ingested_record e]) w = (Inr u, w1)"
  shows "durable (snd (accept e w1))"
proof (rule durable_accept)
  show "durable w1"
    by (rule durable_at_store [OF assms(1,2) commit_keeps assms(4)])
  show "lookup (ig_store w1) KEvent (ev_id e) \<noteq> None"
    using assms(4) commit_stores [of _ _ _ _ _ "ingested_record e"]
    by (auto simp: at_store_def Let_def ingested_record_def split: prod.splits)
qed (simp add: assms(3))

lemma durable_quiet: "keeps durable (idraw f)" "keeps durable (ingestion_failed e)"
  by (auto simp: keeps_def idraw_def ingestion_failed_def abind_def modify_def aret_def intro: durable_store)

lemma durable_store_event:
  assumes "keys_kept E"
  shows "keeps durable (store_event E e)"
proof (rule keepsI)
  fix w
  assume d: "durable w"
  show "durable (snd (store_event E e w))"
  proof (cases "ev_external_event_id e = []")
    case True
    let ?m = "at_store E (\<lambda>n. commit (ie_json E) (ie_uuid E n) (ie_time E n 0) (ie_time E n 1) (ie_fault E n) [ingested_record e])"
    obtain r w1 where m: "?m w = (r, w1)" by (cases "?m w")
    have "durable w1" by (rule durable_at_store [OF d assms commit_keeps m])
    with m True durable_committed [OF d assms True] show ?thesis
      by (cases r) (auto simp: store_event_def abind_def)
  next
    case False
    let ?m = "at_store E (\<lambda>n. claim (ie_json E) (ie_fault E n) (claim_record e) [ingested_record e])"
    obtain r w1 where m: "?m w = (r, w1)" by (cases "?m w")
    have w1: "durable w1" by (rule durable_at_store [OF d assms claim_keeps m])
    have rest: "keeps durable (abind (at_store E (\<lambda>n st. (get_record (ie_fault E n) KExternalEventClaim (sr_id (claim_record e)) st, st))) (\<lambda>existing.
          abind (modify (\<lambda>w. w\<lparr>ig_deduplicated := ig_deduplicated w + 1\<rparr>)) (\<lambda>_.
          abind (alift (jvalue (get_string (ie_json E)) existing ''event_id'' [])) (\<lambda>event_id.
          aret \<lparr>ir_status = Duplicate, ir_event_id = event_id, ir_message = ''External event was already accepted''\<rparr>))))"
    proof (intro keeps_rules keeps_modify)
      show "keeps durable (at_store E (\<lambda>n st. (get_record (ie_fault E n) KExternalEventClaim (sr_id (claim_record e)) st, st)))"
        by (rule keepsI, rule durable_at_store [OF _ assms _ prod.collapse [symmetric]]) simp_all
    qed (simp add: durable_def)
    show ?thesis
    proof (cases "r = Inr True")
      case True
      with m durable_claimed [OF d assms False] False show ?thesis by (simp add: store_event_def abind_def)
    next
      case other: False
      with m False w1 keepsD [OF rest w1] show ?thesis
        by (cases r) (simp_all add: store_event_def abind_def)
    qed
  qed
qed

lemma durable_process:
  assumes "keys_kept E"
  shows "keeps durable (process_submission E q)"
proof -
  have "keeps durable (process_event E q)"
    unfolding process_event_def by (auto split: sum.split intro!: keeps_rules durable_quiet durable_store_event assms)
  then show ?thesis
    unfolding process_submission_def by (intro keeps_rules durable_quiet)
qed

lemma durable_step:
  assumes "keys_kept E" and "durable (fst wc)"
  shows "durable (fst (ingress_step E op wc))"
proof (cases wc)
  case (Pair w calls)
  have enter: "durable (snd (enter E source w))" for source
    using assms(2) Pair by (auto simp: enter_def look_def aret_def abind_def modify_def intro: durable_store)
  have leave: "durable (leave source w)" "durable (stop_ingress w)" for source
    using assms(2) Pair by (auto simp: leave_def stop_ingress_def intro: durable_store)
  show ?thesis
  proof (cases op)
    case (Enter q)
    with Pair enter [of "sm_source_id q"] show ?thesis by (auto split: prod.split sum.split option.split)
  qed (use Pair assms(2) leave keepsD [OF durable_process [OF assms(1)]] in auto)
qed

text \<open>
  C16: An external event is published only when it is stored, and once: in every interleaving of submissions,
  with other processes accepting events as well, each published event has its row, an event with an
  identifier of its source has its claim, and no identifier of a source is published twice.
\<close>

theorem external_events_published_once:
  assumes "keys_kept E" and "new_ingress E st max_depth = Inr w"
  shows "let w' = fst (fold (ingress_step E) ops (w, [])) in
    (\<forall>e \<in> set (ig_published w'). lookup (ig_store w') KEvent (ev_id e) \<noteq> None) \<and>
    distinct (map (\<lambda>e. (ev_source_id e, ev_external_event_id e)) (filter (\<lambda>e. ev_external_event_id e \<noteq> []) (ig_published w')))"
proof -
  have "durable (fst (w, []))"
    using assms(2) by (auto simp: new_ingress_def durable_def split: if_splits)
  from fold_step_invariant [where P = "\<lambda>wc. durable (fst wc)" and f = "ingress_step E", OF this durable_step [OF assms(1)]]
  show ?thesis by (auto simp: durable_def event_key_def [abs_def] Let_def)
qed

lemma external_events_published_once_witness:
  "\<exists>w. new_ingress some_ingress_env empty_store 16 = Inr w \<and>
     distinct (map (\<lambda>e. (ev_source_id e, ev_external_event_id e)) (filter (\<lambda>e. ev_external_event_id e \<noteq> [])
       (ig_published (fst (fold (ingress_step some_ingress_env) [Enter some_submission, Work 0, Leave 0, Enter some_submission, Work 0] (w, []))))))"
  using external_events_published_once [of some_ingress_env empty_store 16 _
      "[Enter some_submission, Work 0, Leave 0, Enter some_submission, Work 0]"]
  by (auto simp: new_ingress_def keys_kept_def some_ingress_env_def Let_def)

section \<open>Claims of different events\<close>

lemma decimal_inj: "decimal m = decimal n \<Longrightarrow> m = n"
  using digits_value_decimal by metis

lemma split_at:
  assumes "c \<notin> set xs" and "c \<notin> set xs'" and "xs @ c # ys = xs' @ c # ys'"
  shows "xs = xs' \<and> ys = ys'"
  using assms
proof (induction xs arbitrary: xs')
  case Nil
  then show ?case by (cases xs') auto
next
  case (Cons x xs)
  then show ?case by (cases xs') auto
qed

text \<open>
  Events of different sources or with different identifiers never share a claim, whatever characters
  the identifiers contain: the length of the source stands before it.
\<close>

lemma event_claims_do_not_collide:
  "external_claim_id source external = external_claim_id source' external' \<longleftrightarrow> source = source' \<and> external = external'"
proof
  assume eq: "external_claim_id source external = external_claim_id source' external'"
  have colon: "CHR '':'' \<notin> set (decimal n)" for n
    using decimal_digits [of n] by (auto simp: list_all_iff is_digit_def less_eq_char_def)
  have "decimal (length source) @ CHR '':'' # source @ '':'' @ external = decimal (length source') @ CHR '':'' # source' @ '':'' @ external'"
    using eq by (simp add: external_claim_id_def)
  then have "decimal (length source) = decimal (length source')" "source @ '':'' @ external = source' @ '':'' @ external'"
    using split_at [OF colon colon] by blast+
  then show "source = source' \<and> external = external'"
    using decimal_inj by auto
qed simp

end
