(* ===== verification/Laso_Nodes.thy ===== *)
theory Laso_Nodes
  imports Laso_Runtime_Invariant Laso_Graph Laso_Manager
begin

text \<open>
  The context a node executes in (\<^verbatim>\<open>include/laso/core/async.hpp\<close>, \<^verbatim>\<open>src/runtime/executor.cpp\<close>) and the nodes
  themselves (\<^verbatim>\<open>include/laso/nodes/node.hpp\<close>, \<^verbatim>\<open>src/nodes/nodes.cpp\<close>). The state of an executor is the runtime it
  belongs to and the local variables of its coroutine. Wherever the coroutine does not hold the mutex of the
  runtime, the other calls, loops and executors of the process act: \<open>xe_others\<close> are the operations they
  complete at a given tick. Functions, tools, model providers, extension nodes and the worker manager are
  called through arguments, as is the clock that decides whether a deadline has passed.
\<close>

section \<open>State\<close>

record node_result =
  nr_message :: message
  nr_condition :: string

text \<open>Whose stop token a context carries: that of an active run, of a branch of it, or of claimed node work.\<close>

datatype stop_source = OfRun string | OfBranch string | OfWork string

text \<open>
  \<open>cx_continuations\<close> stands for the two continuation callbacks: absent, or with the provider continuations of
  the run's context snapshot when it has one. \<open>cx_reports_job\<close> says that \<^verbatim>\<open>worker_job_started\<close> is set.
\<close>

record execution_context =
  cx_run_id :: string
  cx_pipeline_id :: string
  cx_node_id :: string
  cx_stop :: stop_source
  cx_attempt :: u32
  cx_visit :: u32
  cx_work_id :: string
  cx_work_attempt_id :: string
  cx_work_lease :: "lease_record option"
  cx_reports_job :: bool
  cx_session_id :: string
  cx_session_context :: "session_context option"
  cx_continuations :: "json option option"

record model_request =
  mq_model :: string
  mq_prompt :: string
  mq_input :: json
  mq_options :: json
  mq_continuation :: "opaque_continuation option"
  mq_session_context :: "session_context option"

record model_response =
  mo_output :: json
  mo_model :: string
  mo_provider :: string
  mo_continuation :: "opaque_continuation option"

text \<open>What the branches of one parallel group share.\<close>

record parallel_state =
  ps_outputs :: "message option list"
  ps_completed :: nat
  ps_steps :: u32
  ps_failed :: bool
  ps_error :: string
  ps_code :: error_code
  ps_stop :: bool

text \<open>
  \<open>xs_executed\<close> lists the attempts at nodes: those of the run itself, with the run as it was and whether an approval was
  found; and those in a branch, with the branch's run as it arrived at the node and as it was at the attempt, and the
  number of the attempt.
\<close>

datatype executed = OnPath node_definition run bool | InBranch node_definition run run nat

record execution =
  xs_world :: runtime
  xs_run :: run
  xs_recorded :: bool
  xs_attempt :: node_execution
  xs_candidates :: "(string, opaque_continuation) omap"
  xs_parallel :: parallel_state
  xs_executed :: "executed list"

text \<open>What an external part staged through its context, and what it returned or threw.\<close>

type_synonym 'a reply = "opaque_continuation list \<times> 'a result"

record execution_env =
  xe_runtime :: runtime_env
  xe_deps :: runtime_deps
  xe_others :: "nat \<Rightarrow> runtime_op list"
  xe_stopped :: "nat \<Rightarrow> bool"
  xe_expired :: "nat \<Rightarrow> bool"
  xe_waits :: "nat \<Rightarrow> nat"
  xe_patience :: nat
  xe_details :: "nat \<Rightarrow> json"
  xe_duration :: "nat \<Rightarrow> dbl"
  xe_function :: "nat \<Rightarrow> string \<Rightarrow> execution_context \<Rightarrow> json \<Rightarrow> json reply"
  xe_tool :: "nat \<Rightarrow> tool_metadata \<Rightarrow> execution_context \<Rightarrow> json \<Rightarrow> json reply"
  xe_generate :: "nat \<Rightarrow> provider_metadata \<Rightarrow> execution_context \<Rightarrow> model_request \<Rightarrow> model_response reply"
  xe_extension :: "nat \<Rightarrow> string \<Rightarrow> execution_context \<Rightarrow> message \<Rightarrow> node_result reply"
  xe_remaining_ns :: "nat \<Rightarrow> int"
  xe_deadline :: "nat \<Rightarrow> string"
  xe_submit :: "nat \<Rightarrow> worker_request \<Rightarrow> worker_job result"
  xe_refresh :: "nat \<Rightarrow> string \<Rightarrow> worker_job result"
  xe_candidate :: "nat \<Rightarrow> string \<Rightarrow> opaque_continuation option result"
  xe_browser_result :: "nat \<Rightarrow> string \<Rightarrow> string \<Rightarrow> bool result"
  xe_cancel_job :: "nat \<Rightarrow> string \<Rightarrow> worker_job_state \<Rightarrow> string \<Rightarrow> unit result"
  xe_stage_workspace :: "nat \<Rightarrow> json \<Rightarrow> string \<Rightarrow> string \<Rightarrow> string \<Rightarrow> string result"
  xe_result_manifest :: "nat \<Rightarrow> string \<Rightarrow> node_work \<Rightarrow> lease_record \<Rightarrow> json result"
  xe_input_manifest :: "nat \<Rightarrow> json \<Rightarrow> string \<Rightarrow> string \<Rightarrow> json result"
  xe_check_manifest :: "nat \<Rightarrow> json \<Rightarrow> unit result"
  xe_verify_object :: "nat \<Rightarrow> string \<Rightarrow> string \<Rightarrow> u64 \<Rightarrow> unit result"
  xe_has_artifacts :: bool
  xe_order :: "nat \<Rightarrow> nat"

abbreviation xe_json :: "execution_env \<Rightarrow> json_ops" where
  "xe_json X \<equiv> re_json (xe_runtime X)"

type_synonym 'a ex = "(execution, 'a) action"

section \<open>Executors and the runtime\<close>

definition on_world :: "'a rt \<Rightarrow> 'a ex" where
  "on_world m s = (let (r, w) = m (xs_world s) in (r, s\<lparr>xs_world := w\<rparr>))"

definition xdraw :: "(nat \<Rightarrow> 'a) \<Rightarrow> 'a ex" where
  "xdraw f = on_world (draw f)"

text \<open>An answer of an external part: it is read at a tick, and may be an exception.\<close>

definition ask :: "(nat \<Rightarrow> 'a result) \<Rightarrow> 'a ex" where
  "ask f = abind (xdraw f) alift"

text \<open>The mutex is free: the operations of the other coroutines of the process.\<close>

definition meanwhile :: "execution_env \<Rightarrow> unit ex" where
  "meanwhile X =
     modify (\<lambda>s. let w = xs_world s
                 in s\<lparr>xs_world := (fold (runtime_step (xe_runtime X)) (xe_others X (rt_tick w)) w)\<lparr>rt_tick := Suc (rt_tick w)\<rparr>\<rparr>)"

definition calling :: "execution_env \<Rightarrow> 'a rt \<Rightarrow> 'a ex" where
  "calling X m = abind (meanwhile X) (\<lambda>_. on_world m)"

text \<open>The token of an entry that is gone keeps its last state, which is not visible any more.\<close>

definition stop_requested :: "execution_env \<Rightarrow> stop_source \<Rightarrow> execution \<Rightarrow> bool" where
  "stop_requested X src s =
     (let w = xs_world s; gone = xe_stopped X (rt_tick w);
          of_run = (\<lambda>rid. case map_of (rt_active w) rid of None \<Rightarrow> gone | Some a \<Rightarrow> ac_stop a)
      in case src of
           OfRun rid \<Rightarrow> of_run rid
         | OfBranch rid \<Rightarrow> of_run rid \<or> ps_stop (xs_parallel s)
         | OfWork wid \<Rightarrow> (case map_of (rt_nodes w) wid of None \<Rightarrow> gone | Some a \<Rightarrow> an_stop a) \<or> ps_stop (xs_parallel s))"

definition check_context :: "execution_env \<Rightarrow> execution_context \<Rightarrow> unit ex" where
  "check_context X c =
     abind (meanwhile X) (\<lambda>_. look (\<lambda>s.
       if stop_requested X (cx_stop c) s then athrow Cancellation ''Execution cancelled''
       else
         abind (xdraw (xe_expired X)) (\<lambda>late.
         if late then athrow Timeout ''Execution deadline exceeded'' else aret ())))"

primrec polls :: "nat \<Rightarrow> unit ex \<Rightarrow> unit ex" where
  "polls 0 m = aret ()"
| "polls (Suc n) m = abind m (\<lambda>_. polls n m)"

text \<open>
  A delay and the wait for a slot of a limiter poll the context; the clock and the other holders of slots
  decide how often, and the last check comes before the return.
\<close>

definition delay :: "execution_env \<Rightarrow> execution_context \<Rightarrow> unit ex" where
  "delay X c = abind (xdraw (xe_waits X)) (\<lambda>n. polls (Suc n) (check_context X c))"

definition acquire_permit :: "execution_env \<Rightarrow> execution_context \<Rightarrow> unit ex" where
  "acquire_permit X c = abind (xdraw (xe_waits X)) (\<lambda>n. polls (Suc n) (check_context X c))"

section \<open>Continuations of providers\<close>

definition usable_continuation :: "json_ops \<Rightarrow> string \<Rightarrow> json \<Rightarrow> opaque_continuation result" where
  "usable_continuation J provider_id v =
     rbind (jvalue (get_string J) v ''provider_version'' []) (\<lambda>version.
     rbind (jvalue (get_string J) v ''state'' []) (\<lambda>state.
       if version = [] \<or> state = [] \<or> length state > 64 * 1024
       then throw Storage ''Stored provider continuation is invalid''
       else Inr \<lparr>oc_provider_id = provider_id, oc_provider_version = version, oc_state = state\<rparr>))"

definition checked_continuation :: "json_ops \<Rightarrow> execution_context \<Rightarrow> string \<Rightarrow> string \<Rightarrow> json \<Rightarrow> opaque_continuation result" where
  "checked_continuation J c provider_id scope v =
     (let text = (\<lambda>k. jvalue (get_string J) v k []); invalid = throw Storage ''Stored provider continuation is invalid'' in
      rbind (text ''scope'') (\<lambda>s. if s \<noteq> scope then invalid else
      rbind (text ''session_id'') (\<lambda>i. if i \<noteq> cx_session_id c then invalid else
      rbind (text ''provider_id'') (\<lambda>p. if p \<noteq> provider_id then invalid else
      rbind (if scope = ''candidate'' then text ''run_id'' else Inr (cx_run_id c)) (\<lambda>r.
      if r \<noteq> cx_run_id c then invalid else usable_continuation J provider_id v)))))"

definition read_continuation :: "execution_env \<Rightarrow> execution_context \<Rightarrow> string \<Rightarrow> string \<Rightarrow> string \<Rightarrow> opaque_continuation option ex" where
  "read_continuation X c provider_id rid scope =
     atry (abind (calling X (db_get (xe_runtime X) KSessionContinuation rid)) (\<lambda>v.
           alift (checked_continuation (xe_json X) c provider_id scope v)))
       (\<lambda>k. aret (Some k))
       (\<lambda>code text. if code = NotFound then aret None else athrow code text)"

text \<open>The elements a range-based loop over a JSON value visits.\<close>

definition jelements :: "json \<Rightarrow> json list" where
  "jelements j = (case j of JArr vs \<Rightarrow> vs | JObj m \<Rightarrow> map snd m | JNull \<Rightarrow> [] | v \<Rightarrow> [v])"

fun find_continuation :: "json_ops \<Rightarrow> string \<Rightarrow> json list \<Rightarrow> opaque_continuation option result" where
  "find_continuation J provider_id [] = Inr None"
| "find_continuation J provider_id (v # vs) =
     rbind (jvalue (get_string J) v ''provider_id'' []) (\<lambda>p.
       if p = provider_id then rbind (usable_continuation J provider_id v) (\<lambda>k. Inr (Some k))
       else find_continuation J provider_id vs)"

definition load_provider_continuation :: "execution_env \<Rightarrow> execution_context \<Rightarrow> json option \<Rightarrow> string \<Rightarrow> opaque_continuation option ex" where
  "load_provider_continuation X c snapshot provider_id =
     abind (read_continuation X c provider_id (run_continuation_candidate_id (cx_run_id c) provider_id) ''candidate'') (\<lambda>candidate.
     case candidate of
       Some k \<Rightarrow> aret (Some k)
     | None \<Rightarrow>
         (case snapshot of
            Some values \<Rightarrow> alift (find_continuation (xe_json X) provider_id (jelements values))
          | None \<Rightarrow> read_continuation X c provider_id (session_continuation_id (cx_session_id c) provider_id) ''current''))"

definition stageable :: "opaque_continuation \<Rightarrow> bool" where
  "stageable k \<longleftrightarrow>
     oc_provider_id k \<noteq> [] \<and> length (oc_provider_id k) \<le> 256 \<and> oc_provider_version k \<noteq> [] \<and>
     length (oc_provider_version k) \<le> 128 \<and> oc_state k \<noteq> [] \<and> length (oc_state k) \<le> 64 * 1024"

definition stage_provider_continuation :: "opaque_continuation \<Rightarrow> unit ex" where
  "stage_provider_continuation k =
     (if \<not> stageable k then athrow Provider ''Provider returned invalid continuation state''
      else modify (\<lambda>s. s\<lparr>xs_candidates := omap_put (oc_provider_id k) k (xs_candidates s)\<rparr>))"

text \<open>An external part holds the context while it works, and the others act.\<close>

definition external :: "execution_env \<Rightarrow> execution_context \<Rightarrow> (nat \<Rightarrow> 'a reply) \<Rightarrow> 'a ex" where
  "external X c f =
     abind (meanwhile X) (\<lambda>_.
     abind (xdraw f) (\<lambda>(staged, answer).
     abind (awhen (cx_continuations c \<noteq> None) (afor (filter stageable staged) stage_provider_continuation)) (\<lambda>_.
     alift answer)))"

section \<open>Nodes\<close>

definition provenance :: "string \<Rightarrow> string \<Rightarrow> string \<Rightarrow> provenance_record" where
  "provenance node parent now =
     \<lparr>p_node = node, p_tool = [], p_model = [], p_provider = [], p_artifact = [], p_parent_message = parent,
      p_validation = [], p_time = now, p_worker = []\<rparr>"

definition add_provenance :: "provenance_record \<Rightarrow> message \<Rightarrow> message" where
  "add_provenance p m = m\<lparr>m_provenance := m_provenance m @ [p]\<rparr>"

definition routed :: "message \<Rightarrow> string \<Rightarrow> node_result" where
  "routed m condition = \<lparr>nr_message = m, nr_condition = condition\<rparr>"

definition passthrough :: "execution_env \<Rightarrow> execution_context \<Rightarrow> message \<Rightarrow> node_result ex" where
  "passthrough X c m = abind (check_context X c) (\<lambda>_. aret (routed m []))"

definition loop_node :: "execution_env \<Rightarrow> execution_context \<Rightarrow> u32 \<Rightarrow> message \<Rightarrow> node_result ex" where
  "loop_node X c maximum m =
     abind (check_context X c) (\<lambda>_. aret (routed m (if cx_visit c \<le> maximum then ''repeat'' else ''done'')))"

definition function_node :: "execution_env \<Rightarrow> execution_context \<Rightarrow> string \<Rightarrow> message \<Rightarrow> node_result ex" where
  "function_node X c binding m =
     abind (check_context X c) (\<lambda>_.
     abind (external X c (\<lambda>n. xe_function X n binding c (m_payload m))) (\<lambda>output.
     abind (check_context X c) (\<lambda>_. aret (routed (m\<lparr>m_payload := output\<rparr>) []))))"

definition tool_node :: "execution_env \<Rightarrow> execution_context \<Rightarrow> tool_metadata \<Rightarrow> message \<Rightarrow> node_result ex" where
  "tool_node X c tool m =
     abind (acquire_permit X c) (\<lambda>_.
     abind (external X c (\<lambda>n. xe_tool X n tool c (m_payload m))) (\<lambda>output.
     abind (check_context X c) (\<lambda>_.
     abind (on_world (draw_time (xe_runtime X))) (\<lambda>now.
     aret (routed (add_provenance ((provenance (cx_node_id c) (m_id m) now)\<lparr>p_tool := tm_name tool\<rparr>)
                     (m\<lparr>m_payload := output\<rparr>)) [])))))"

text \<open>The payload decides between the two branches of a router, and of a validator that has no schema.\<close>

definition accepts :: "json_ops \<Rightarrow> node_definition \<Rightarrow> json \<Rightarrow> bool" where
  "accepts J d payload \<longleftrightarrow>
     is_object payload \<and> (case jat payload (n_field d) of Inl _ \<Rightarrow> False | Inr v \<Rightarrow> same J v (n_value d))"

definition router_node :: "execution_env \<Rightarrow> execution_context \<Rightarrow> bool \<Rightarrow> node_definition \<Rightarrow> message \<Rightarrow> node_result ex" where
  "router_node X c validator d m =
     abind (check_context X c) (\<lambda>_.
     let verdict = (if accepts (xe_json X) d (m_payload m) then ''accepted'' else ''rejected'') in
     if validator then
       abind (on_world (draw_time (xe_runtime X))) (\<lambda>now.
       aret (routed (add_provenance ((provenance (cx_node_id c) (m_id m) now)\<lparr>p_validation := verdict\<rparr>) m) verdict))
     else aret (routed m verdict))"

definition validate_schema :: "execution_env \<Rightarrow> string \<Rightarrow> json \<Rightarrow> string \<Rightarrow> string \<Rightarrow> unit ex" where
  "validate_schema X schema payload subject direction =
     ask (\<lambda>n. re_validate (xe_runtime X) n schema payload subject direction)"

definition validator_node :: "execution_env \<Rightarrow> execution_context \<Rightarrow> node_definition \<Rightarrow> message \<Rightarrow> node_result ex" where
  "validator_node X c d m =
     (if n_schema d = [] then router_node X c True d m
      else
        abind (check_context X c) (\<lambda>_.
        abind (validate_schema X (n_schema d) (m_payload m) (cx_node_id c) ''validator'') (\<lambda>_.
        abind (on_world (draw_time (xe_runtime X))) (\<lambda>now.
        aret (routed (add_provenance ((provenance (cx_node_id c) (m_id m) now)\<lparr>p_validation := ''validated''\<rparr>) m) ''accepted'')))))"

subsection \<open>Agents\<close>

text \<open>The continuation of the previous turn, for a provider that keeps one.\<close>

definition agent_continuation :: "execution_env \<Rightarrow> execution_context \<Rightarrow> provider_metadata \<Rightarrow> opaque_continuation option ex" where
  "agent_continuation X c p =
     (if cx_session_id c = [] then aret None
      else if pm_continuation_mode p = Unsupported then athrow Provider ''Provider does not support session continuation''
      else if pm_continuation_mode p \<noteq> Opaque then aret None
      else case cx_continuations c of
             None \<Rightarrow> athrow Provider ''Session continuation context is unavailable''
           | Some snapshot \<Rightarrow>
               abind (load_provider_continuation X c snapshot (pm_name p)) (\<lambda>found.
               case found of
                 None \<Rightarrow> aret None
               | Some k \<Rightarrow>
                   if oc_provider_id k \<noteq> pm_name p \<or> oc_provider_version k \<noteq> pm_version p
                   then athrow Provider ''Stored provider continuation is incompatible'' else aret (Some k)))"

definition keep_agent_continuation :: "execution_context \<Rightarrow> provider_metadata \<Rightarrow> opaque_continuation option \<Rightarrow> unit ex" where
  "keep_agent_continuation c p returned =
     (if cx_session_id c = [] then aret ()
      else if pm_continuation_mode p = Opaque then
        (case returned of
           None \<Rightarrow> athrow Provider ''Provider returned invalid continuation state''
         | Some k \<Rightarrow>
             if oc_state k = [] \<or> length (oc_state k) > 64 * 1024 \<or> oc_provider_id k \<noteq> pm_name p \<or>
                oc_provider_version k \<noteq> pm_version p
             then athrow Provider ''Provider returned invalid continuation state''
             else stage_provider_continuation k)
      else if returned \<noteq> None then athrow Provider ''Stateless provider returned unexpected continuation state''
      else aret ())"

definition agent_node :: "execution_env \<Rightarrow> execution_context \<Rightarrow> provider_metadata \<Rightarrow> model_binding \<Rightarrow> string \<Rightarrow> message \<Rightarrow> node_result ex" where
  "agent_node X c p binding prompt m =
     abind (acquire_permit X c) (\<lambda>_.
     if cx_session_context c \<noteq> None \<and> ''session-context'' \<notin> set (pm_capabilities p)
     then athrow Provider ''Provider does not support the session context representation''
     else
       abind (agent_continuation X c p) (\<lambda>continuation.
       let request = \<lparr>mq_model = mb_model binding, mq_prompt = prompt, mq_input = m_payload m, mq_options = mb_options binding,
                      mq_continuation = continuation, mq_session_context = cx_session_context c\<rparr> in
       abind (external X c (\<lambda>n. xe_generate X n p c request)) (\<lambda>response.
       abind (check_context X c) (\<lambda>_.
       abind (keep_agent_continuation c p (mo_continuation response)) (\<lambda>_.
       abind (on_world (draw_time (xe_runtime X))) (\<lambda>now.
       aret (routed (add_provenance ((provenance (cx_node_id c) (m_id m) now)\<lparr>p_model := mo_model response,
                        p_provider := mo_provider response, p_validation := ''untrusted''\<rparr>)
                       (m\<lparr>m_payload := mo_output response\<rparr>)) [])))))))"

subsection \<open>Workers\<close>

definition jremove :: "string \<Rightarrow> json \<Rightarrow> json result" where
  "jremove k j = (case j of JObj m \<Rightarrow> Inr (JObj (omap_erase k m)) | _ \<Rightarrow> Inl JsonTypeError)"

text \<open>The marker of a required tool comes from the pipeline and never from the message.\<close>

definition dispatch_metadata :: "execution_context \<Rightarrow> node_definition \<Rightarrow> json \<Rightarrow> json result" where
  "dispatch_metadata c d metadata =
     rbind (jremove ''required_tool'' metadata) (\<lambda>j.
     Inr (jputs ((if n_required_tool d = [] then [] else [(''required_tool'', JStr (n_required_tool d))]) @
                 (if cx_work_id c = [] then [] else [(''node_work_id'', JStr (cx_work_id c))]) @
                 (if cx_work_attempt_id c = [] then [] else [(''node_work_attempt_id'', JStr (cx_work_attempt_id c))])) j))"

definition job_key :: "execution_context \<Rightarrow> string" where
  "job_key c =
     cx_run_id c @ '':'' @ cx_node_id c @ '':'' @ decimal (unat (cx_attempt c)) @
     (if cx_work_attempt_id c = [] then [] else '':'' @ cx_work_attempt_id c)"

definition node_request :: "execution_context \<Rightarrow> node_definition \<Rightarrow> string \<Rightarrow> u64 \<Rightarrow> string \<Rightarrow> opaque_continuation option \<Rightarrow> json \<Rightarrow> json \<Rightarrow> worker_request" where
  "node_request c d worker_id timeout_ms deadline continuation payload metadata =
     (let durable = cx_session_id c \<noteq> [] in
      \<lparr>wr_job_id = [], wr_worker_id = worker_id, wr_capability = n_capability d, wr_task_type = n_task_type d,
       wr_instructions = n_instructions d, wr_idempotency_key = job_key c, wr_deadline = deadline, wr_run_id = cx_run_id c,
       wr_node_id = cx_node_id c, wr_durable_session_id = (if durable then cx_session_id c else []),
       wr_parent_worker_job_id = [], wr_parent_tool_call_id = [], wr_parent_tool_turn_id = [],
       wr_parent_provider_session_id = [], wr_attempt = cx_attempt c, wr_timeout_ms = timeout_ms, wr_input = payload,
       wr_output_schema = (if n_output_schema d = [] then jobject [] else jobject [(''reference'', JStr (n_output_schema d))]),
       wr_metadata = metadata, wr_artifact_ids = [], wr_durable_session = durable, wr_continuation = continuation,
       wr_session_context = (if durable then cx_session_context c else None)\<rparr>)"

definition worker_continuation :: "execution_env \<Rightarrow> execution_context \<Rightarrow> string \<Rightarrow> worker_metadata \<Rightarrow> opaque_continuation option ex" where
  "worker_continuation X c worker_id meta =
     (if cx_session_id c = [] then aret None
      else case cx_continuations c of
             None \<Rightarrow> athrow Provider ''Worker session continuation context is unavailable''
           | Some snapshot \<Rightarrow>
               abind (load_provider_continuation X c snapshot worker_id) (\<lambda>found.
               case found of
                 None \<Rightarrow> aret None
               | Some k \<Rightarrow>
                   if oc_provider_id k \<noteq> worker_id \<or> oc_provider_version k \<noteq> wm_version meta
                   then athrow Provider ''Stored worker continuation is incompatible'' else aret (Some k)))"

definition keep_worker_continuation :: "execution_env \<Rightarrow> execution_context \<Rightarrow> string \<Rightarrow> worker_metadata \<Rightarrow> string \<Rightarrow> unit ex" where
  "keep_worker_continuation X c worker_id meta jid =
     (if cx_session_id c = [] then aret ()
      else
        abind (ask (\<lambda>n. xe_candidate X n jid)) (\<lambda>candidate.
        case candidate of
          None \<Rightarrow> athrow Provider ''Worker returned invalid session continuation state''
        | Some k \<Rightarrow>
            if oc_provider_id k \<noteq> worker_id \<or> oc_provider_version k \<noteq> wm_version meta \<or> oc_state k = [] \<or>
               length (oc_state k) > 64 * 1024
            then athrow Provider ''Worker returned invalid session continuation state''
            else stage_provider_continuation k))"

definition worker_metadata_of :: "execution_context \<Rightarrow> worker_job \<Rightarrow> json \<Rightarrow> json" where
  "worker_metadata_of c job j =
     jputs ([(''worker_id'', JStr (wj_worker_id job)), (''worker_job_id'', JStr (wj_id job))] @
            (if cx_session_id c = []
             then [(''external_job_id'', JStr (wj_external_job_id job)), (''worker_result_metadata'', wj_result_metadata job)]
             else []) @
            [(''worker_usage'', worker_usage_to_json (wj_usage job)),
             (''worker_failure_kind'', worker_failure_kind_to_json (wj_failure_kind job))] @
            (if wj_artifacts job = [] then [] else [(''worker_artifacts'', JArr (wj_artifacts job))])) j"

definition worker_completed :: "execution_env \<Rightarrow> execution_context \<Rightarrow> node_definition \<Rightarrow> string \<Rightarrow> worker_metadata \<Rightarrow> message \<Rightarrow> worker_job \<Rightarrow> node_result ex" where
  "worker_completed X c d worker_id meta m job =
     abind (if n_required_tool d = ''laso.browser_status'' then ask (\<lambda>n. xe_browser_result X n (wj_id job) (cx_run_id c)) else aret True) (\<lambda>returned.
     if \<not> returned
     then athrow Execution ''Required LASO browser status tool result was not returned to this Codex turn''
     else
       abind (keep_worker_continuation X c worker_id meta (wj_id job)) (\<lambda>_.
       abind (on_world (draw_time (xe_runtime X))) (\<lambda>now.
       aret (routed (add_provenance ((provenance (cx_node_id c) (m_id m) now)\<lparr>p_worker := wj_worker_id job\<rparr>)
               (m\<lparr>m_payload := wj_result job, m_metadata := worker_metadata_of c job (m_metadata m)\<rparr>)) []))))"

text \<open>\<^verbatim>\<open>worker_job_started\<close>: a branch stores the job's identifier with its attempt.\<close>

definition persist_branch :: "execution_env \<Rightarrow> execution_context \<Rightarrow> store_record list \<Rightarrow> unit ex" where
  "persist_branch X c records =
     calling X (case cx_work_lease c of
                  Some l \<Rightarrow> db_commit_owned (xe_runtime X) records (''node:'' @ cx_work_id c) (le_owner_instance l) (le_fencing_token l)
                | None \<Rightarrow> db_commit (xe_runtime X) records)"

definition worker_job_started :: "execution_env \<Rightarrow> execution_context \<Rightarrow> string \<Rightarrow> unit ex" where
  "worker_job_started X c jid =
     awhen (cx_reports_job c)
       (abind (modify (\<lambda>s. s\<lparr>xs_attempt := (xs_attempt s)\<lparr>x_worker_job_id := jid\<rparr>\<rparr>)) (\<lambda>_.
        look (\<lambda>s. persist_branch X c [attempt_record (cx_run_id c) (xs_attempt s)])))"

text \<open>A job that is given up because of a cancellation or the deadline is cancelled at the worker.\<close>

definition give_up_job :: "execution_env \<Rightarrow> string \<Rightarrow> error_code \<Rightarrow> string \<Rightarrow> 'a ex" where
  "give_up_job X jid code text =
     abind (awhen (code = Cancellation \<or> code = Timeout)
              (acatch (ask (\<lambda>n. xe_cancel_job X n jid (if code = Timeout then JTimedOut else JCancelled) text)) (\<lambda>_. aret ()))) (\<lambda>_.
     athrow code text)"

text \<open>
  The wait for the job; every part is guarded with the job as it was read last. The deadline of the context is
  finite: after \<open>xe_patience\<close> polls the check that follows the last of them finds it expired.
\<close>

definition job_ended :: "execution_env \<Rightarrow> execution_context \<Rightarrow> node_definition \<Rightarrow> string \<Rightarrow> worker_metadata \<Rightarrow> message \<Rightarrow> worker_job \<Rightarrow> node_result option ex" where
  "job_ended X c d worker_id meta m job =
     (case wj_state job of
        JCompleted \<Rightarrow> abind (worker_completed X c d worker_id meta m job) (\<lambda>r. aret (Some r))
      | JFailed \<Rightarrow> athrow Execution (if wj_error job = [] then ''Worker job failed'' else wj_error job)
      | JCancelled \<Rightarrow> athrow Cancellation ''Worker job was cancelled''
      | JTimedOut \<Rightarrow> athrow Timeout ''Worker job exceeded its deadline''
      | JUnknown \<Rightarrow> athrow Execution ''Worker job recovery state is unknown''
      | _ \<Rightarrow>
          abind (check_context X c) (\<lambda>_.
          abind (delay X c) (\<lambda>_. aret None)))"

primrec await_worker :: "execution_env \<Rightarrow> execution_context \<Rightarrow> node_definition \<Rightarrow> string \<Rightarrow> worker_metadata \<Rightarrow> message \<Rightarrow> nat \<Rightarrow> string \<Rightarrow> node_result ex" where
  "await_worker X c d worker_id meta m 0 jid = give_up_job X jid Timeout ''Execution deadline exceeded''"
| "await_worker X c d worker_id meta m (Suc k) jid =
     abind (meanwhile X) (\<lambda>_.
     atry (ask (\<lambda>n. xe_refresh X n jid))
       (\<lambda>job.
          abind (atry (job_ended X c d worker_id meta m job) aret (give_up_job X (wj_id job))) (\<lambda>ended.
          case ended of Some r \<Rightarrow> aret r | None \<Rightarrow> await_worker X c d worker_id meta m k (wj_id job)))
       (give_up_job X jid))"

definition run_job :: "execution_env \<Rightarrow> execution_context \<Rightarrow> node_definition \<Rightarrow> string \<Rightarrow> worker_metadata \<Rightarrow> message \<Rightarrow> worker_request \<Rightarrow> string \<Rightarrow> node_result ex" where
  "run_job X c d worker_id meta m request jid =
     atry (abind (check_context X c) (\<lambda>_. ask (\<lambda>n. xe_submit X n request)))
       (\<lambda>job.
          abind (atry (worker_job_started X c (wj_id job)) aret (give_up_job X (wj_id job))) (\<lambda>_.
          await_worker X c d worker_id meta m (xe_patience X) (wj_id job)))
       (give_up_job X jid)"

definition worker_node :: "execution_env \<Rightarrow> execution_context \<Rightarrow> node_definition \<Rightarrow> string \<Rightarrow> message \<Rightarrow> node_result ex" where
  "worker_node X c d worker_id m =
     abind (check_context X c) (\<lambda>_.
     case d_workers (xe_deps X) of
       None \<Rightarrow> athrow Execution ''Worker manager is unavailable''
     | Some workers \<Rightarrow>
         abind (alift (get worker_id workers)) (\<lambda>meta.
         if cx_session_id c \<noteq> [] \<and> ''session-continuation'' \<notin> set (wm_capabilities meta)
         then athrow Provider ''Worker does not support durable session continuation''
         else if cx_session_id c \<noteq> [] \<and> cx_session_context c \<noteq> None \<and> ''session-context'' \<notin> set (wm_capabilities meta)
         then athrow Provider ''Worker does not support session context generations''
         else
           abind (xdraw (\<lambda>n. (xe_remaining_ns X n, xe_deadline X n))) (\<lambda>(remaining, deadline).
           if remaining \<le> 0 then athrow Timeout ''Worker job exceeded its deadline''
           else
             abind (worker_continuation X c worker_id meta) (\<lambda>continuation.
             abind (alift (dispatch_metadata c d (m_metadata m))) (\<lambda>metadata.
             let request = node_request c d worker_id (of_int (max (remaining div 1000000) 1)) deadline continuation
                   (m_payload m) metadata in
             abind (alift (job_id_for (wr_idempotency_key request))) (run_job X c d worker_id meta m request))))))"

subsection \<open>All nodes\<close>

definition execute_node :: "execution_env \<Rightarrow> execution_context \<Rightarrow> node_definition \<Rightarrow> node_object \<Rightarrow> message \<Rightarrow> node_result ex" where
  "execute_node X c d node m =
     (case node of
        InputNode \<Rightarrow> passthrough X c m
      | OutputNode \<Rightarrow> passthrough X c m
      | ApprovalNode \<Rightarrow> passthrough X c m
      | ParallelNode \<Rightarrow> passthrough X c m
      | JoinNode \<Rightarrow> passthrough X c m
      | SubpipelineNode \<Rightarrow> passthrough X c m
      | LoopNode maximum \<Rightarrow> loop_node X c maximum m
      | RouterNode n \<Rightarrow> router_node X c False n m
      | ValidatorNode n \<Rightarrow> validator_node X c n m
      | FunctionNode binding \<Rightarrow> function_node X c binding m
      | ToolNode tool \<Rightarrow> tool_node X c tool m
      | WorkerNode worker_id \<Rightarrow> worker_node X c d worker_id m
      | AgentNode p binding \<Rightarrow> agent_node X c p binding (n_prompt d) m
      | ExtensionNode type \<Rightarrow> external X c (\<lambda>n. xe_extension X n type c m))"

end
