(* ===== verification/Laso_Execution.thy ===== *)
theory Laso_Execution
  imports Laso_Nodes
begin

text \<open>
  The executors of \<^verbatim>\<open>src/runtime/execution.cpp\<close>: a run from its start to the state it ends or waits in, the branches
  of a parallel node, and the node work another instance has left. A coroutine's local variables are the
  fields of \<open>execution\<close>; an exception leaves them as they were when it was thrown, which the handlers see.
  An action named \<open>locked_\<close> runs under the mutex of the runtime; all others let the rest of the process act
  before every access to the runtime and every check of the context.
\<close>

section \<open>Checkpoints of the local run\<close>

text \<open>
  As \<open>checkpoint\<close> and \<open>transition\<close>, on the run of the coroutine: the merged flag and the new state stay in it when
  the commit fails. (The time of the update does too in the source; the next checkpoint overwrites it.)
\<close>

definition locked_checkpoint :: "execution_env \<Rightarrow> string \<Rightarrow> store_record list \<Rightarrow> unit ex" where
  "locked_checkpoint X type records =
     look (\<lambda>s. let E = xe_runtime X; r = xs_run s in
       abind (on_world (settle_continuations E r records)) (\<lambda>records.
       abind (on_world (merge_cancellation E r)) (\<lambda>r.
       abind (modify (\<lambda>s. s\<lparr>xs_run := r\<rparr>)) (\<lambda>_.
       abind (on_world (store_checkpoint E type records r)) (\<lambda>r.
       modify (\<lambda>s. s\<lparr>xs_run := r\<rparr>))))))"

definition locked_transition :: "execution_env \<Rightarrow> run_state \<Rightarrow> string \<Rightarrow> store_record list \<Rightarrow> unit ex" where
  "locked_transition X state type records =
     look (\<lambda>s. if \<not> valid_transition (r_state (xs_run s)) state then athrow Execution ''Invalid run state transition''
       else
         abind (modify (\<lambda>s. s\<lparr>xs_run := (xs_run s)\<lparr>r_state := state\<rparr>\<rparr>)) (\<lambda>_.
         locked_checkpoint X type records))"

definition x_checkpoint :: "execution_env \<Rightarrow> string \<Rightarrow> store_record list \<Rightarrow> unit ex" where
  "x_checkpoint X type records = abind (meanwhile X) (\<lambda>_. locked_checkpoint X type records)"

definition x_transition :: "execution_env \<Rightarrow> run_state \<Rightarrow> string \<Rightarrow> store_record list \<Rightarrow> unit ex" where
  "x_transition X state type records = abind (meanwhile X) (\<lambda>_. locked_transition X state type records)"

definition change_run :: "(run \<Rightarrow> run) \<Rightarrow> unit ex" where
  "change_run f = modify (\<lambda>s. s\<lparr>xs_run := f (xs_run s)\<rparr>)"

definition change_attempt :: "(node_execution \<Rightarrow> node_execution) \<Rightarrow> unit ex" where
  "change_attempt f = modify (\<lambda>s. s\<lparr>xs_attempt := f (xs_attempt s)\<rparr>)"

definition own_attempt :: "execution \<Rightarrow> store_record" where
  "own_attempt s = attempt_record (r_id (xs_run s)) (xs_attempt s)"

definition message_record :: "string \<Rightarrow> message \<Rightarrow> store_record" where
  "message_record run_id m = \<lparr>sr_kind = KMessage, sr_id = m_id m, sr_run_id = run_id, sr_value = message_to_json m\<rparr>"

section \<open>Walks to the join\<close>

text \<open>
  The nodes of a branch before its join, in the order of the source's stack; \<open>f\<close> may end the walk. A node
  that is missing is the exception of \<^verbatim>\<open>std::map::at\<close>.
\<close>

function walk_branch ::
  "pipeline_definition \<Rightarrow> (node_definition \<Rightarrow> 's \<Rightarrow> 's option) \<Rightarrow> string list \<Rightarrow> string list \<Rightarrow> 's \<Rightarrow> 's option result" where
  "walk_branch p f [] visited s = Inr (Some s)"
| "walk_branch p f (nid # pending) visited s =
     (if nid \<in> set visited then walk_branch p f pending visited s
      else case map_of (pl_nodes p) nid of
        None \<Rightarrow> Inl InvalidArgument
      | Some d \<Rightarrow>
          if n_type d = ''join'' then walk_branch p f pending (nid # visited) s
          else case f d s of
            None \<Rightarrow> Inr None
          | Some s' \<Rightarrow>
              walk_branch p f (rev (map e_to (filter (\<lambda>e. e_from e = nid) (pl_edges p))) @ pending) (nid # visited) s')"
  by pat_completeness auto
termination
proof (relation "(\<lambda>(p, f, pending, visited, s). card (fst ` set (pl_nodes p) - set visited)) <*mlex*> measure (\<lambda>(p, f, pending, visited, s). length pending)")
  show "wf ((\<lambda>(p, f, pending, visited, s). card (fst ` set (pl_nodes p) - set visited)) <*mlex*> measure (\<lambda>(p, f, pending, visited, s). length pending))"
    by (rule wf_mlex) simp
qed (auto simp: mlex_prod_def dest!: map_of_SomeD intro!: psubset_card_mono disjI1, force+)

definition requirement :: "node_definition \<Rightarrow> (string \<times> string) option \<Rightarrow> (string \<times> string) option option" where
  "requirement d found =
     (if n_type d \<noteq> ''worker'' then Some found
      else if found \<noteq> None \<and> found \<noteq> Some (n_binding d, n_capability d) then None
      else Some (Some (n_binding d, n_capability d)))"

definition worker_requirement :: "pipeline_definition \<Rightarrow> execution_token \<Rightarrow> (string \<times> string) option option result" where
  "worker_requirement p token = walk_branch p requirement [tk_node_id token] [] None"

definition distributable :: "pipeline_definition \<Rightarrow> execution_token \<Rightarrow> bool result" where
  "distributable p token =
     rbind (walk_branch p (\<lambda>d _. if n_type d \<in> {''function'', ''validator'', ''router'', ''worker''} then Some () else None)
              [tk_node_id token] [] ()) (\<lambda>r. Inr (r \<noteq> None))"

fun all_distributable :: "pipeline_definition \<Rightarrow> execution_token list \<Rightarrow> bool result" where
  "all_distributable p [] = Inr True"
| "all_distributable p (t # ts) = rbind (distributable p t) (\<lambda>b. if b then all_distributable p ts else Inr False)"

section \<open>Failures\<close>

definition bounded_text :: "json \<Rightarrow> string \<Rightarrow> nat \<Rightarrow> string" where
  "bounded_text details k maximum = (case jat details k of Inr (JStr s) \<Rightarrow> take maximum s | _ \<Rightarrow> [])"

definition validation_detail :: "error_code \<Rightarrow> string \<Rightarrow> json \<Rightarrow> string" where
  "validation_detail code text details =
     (if code \<noteq> Validation \<or> \<not> is_object details then []
      else
        let schema = bounded_text details ''schema'' 512;
            part = (\<lambda>name value. if value = [] then [] else '', '' @ name @ ''='' @ value)
        in text @ (if schema \<noteq> [] then '' (schema='' @ schema else '' ('') @
           part ''direction'' (bounded_text details ''direction'' 32) @
           part ''instance_path'' (bounded_text details ''instance_path'' 1024) @
           part ''schema_path'' (bounded_text details ''schema_path'' 1024) @
           part ''message'' (bounded_text details ''message'' 512) @ '')'')"

definition failed_state :: "error_code \<Rightarrow> node_state" where
  "failed_state code = (if code = Timeout then NTimedOut else if code = Cancellation then NCancelled else NFailed)"

definition failed_error :: "error_code \<Rightarrow> string \<Rightarrow> string" where
  "failed_error code detail =
     (if code = Timeout then ''Node deadline exceeded''
      else if code = Cancellation then ''Node cancelled''
      else if detail = [] then ''Node execution failed'' else detail)"

definition finish_attempt :: "execution_env \<Rightarrow> unit ex" where
  "finish_attempt X =
     abind (xdraw (\<lambda>n. (re_time (xe_runtime X) n 0, xe_duration X n))) (\<lambda>(now, duration).
     change_attempt (\<lambda>x. x\<lparr>x_finished_at := now, x_duration_ms := duration\<rparr>))"

section \<open>What a node needs before it runs\<close>

text \<open>The lookups that bound the deadline of an attempt; \<open>missing\<close> is what an unknown model is.\<close>

definition deadline_bindings :: "runtime_deps \<Rightarrow> node_definition \<Rightarrow> exn \<Rightarrow> unit result" where
  "deadline_bindings deps d missing =
     (if n_type d = ''tool'' then rbind (get (n_binding d) (d_tools deps)) (\<lambda>_. Inr ())
      else if n_type d = ''agent'' then
        (case map_of (d_models deps) (n_binding d) of
           None \<Rightarrow> Inl missing
         | Some b \<Rightarrow> rbind (get (mb_provider b) (d_providers deps)) (\<lambda>_. Inr ()))
      else Inr ())"

definition node_of :: "pipeline_definition \<Rightarrow> string \<Rightarrow> node_definition ex" where
  "node_of p nid = alift (case map_of (pl_nodes p) nid of None \<Rightarrow> Inl InvalidArgument | Some d \<Rightarrow> Inr d)"

definition child_request :: "pipeline_definition \<Rightarrow> run \<Rightarrow> node_definition \<Rightarrow> json \<Rightarrow> run_request" where
  "child_request child r d origin =
     \<lparr>rq_pipeline = child, rq_input = m_payload (r_message r), rq_actor = r_actor r, rq_parent_id = r_id r,
      rq_parent_node_id = n_id d, rq_subpipeline_depth = r_subpipeline_depth r + 1, rq_parent_message_id = m_id (r_message r),
      rq_origin = origin, rq_message_metadata = jobject [], rq_session_id = [], rq_session_turn_id = [],
      rq_session_owner = [], rq_session_fencing_token = 0\<rparr>"

text \<open>The nesting limit and the version that was resolved when the parent was created.\<close>

definition launch_child :: "execution_env \<Rightarrow> pipeline_definition \<Rightarrow> node_definition \<Rightarrow> json \<Rightarrow> (string \<times> pipeline_definition) ex" where
  "launch_child X p d origin =
     look (\<lambda>s. let r = xs_run s in
       if r_subpipeline_depth r \<ge> rc_max_subpipeline_depth (re_config (xe_runtime X))
       then athrow Execution ''Subpipeline nesting limit exceeded''
       else
         let resolved = (case map_of (pl_resolved_subpipelines p) (n_id d) of None \<Rightarrow> n_binding d | Some v \<Rightarrow> v) in
         abind (ask (\<lambda>n. re_resolve (xe_runtime X) n resolved)) (\<lambda>child.
         abind (calling X (start_run (xe_runtime X) (child_request child r d origin))) (\<lambda>child_id.
         aret (child_id, child))))"

definition child_attempt :: "string \<Rightarrow> string \<Rightarrow> u32 \<Rightarrow> unit ex" where
  "child_attempt child_id pipeline_id version =
     change_attempt (\<lambda>x. x\<lparr>x_child_run_id := child_id, x_child_pipeline_id := pipeline_id, x_child_pipeline_version := version\<rparr>)"

text \<open>The checks of a result that the main path and the branches share.\<close>

definition check_output :: "execution_env \<Rightarrow> pipeline_definition \<Rightarrow> node_definition \<Rightarrow> execution_context \<Rightarrow> node_result \<Rightarrow> unit ex" where
  "check_output X p d c result =
     abind (check_context X c) (\<lambda>_.
     abind (validate_schema X (n_output_schema d) (m_payload (nr_message result)) (n_id d) ''output'') (\<lambda>_.
     awhen (n_type d = ''output'')
       (validate_schema X (pl_output_schema p) (m_payload (nr_message result)) (pl_name p) ''pipeline_output'')))"

text \<open>The result becomes the message of the run, under an identity of its own.\<close>

definition adopt_message :: "execution_env \<Rightarrow> node_definition \<Rightarrow> message \<Rightarrow> unit ex" where
  "adopt_message X d m =
     abind (on_world (draw_uuid (xe_runtime X))) (\<lambda>fresh.
     abind (on_world (draw_time (xe_runtime X))) (\<lambda>now.
     abind (on_world (draw_time (xe_runtime X))) (\<lambda>later.
     change_run (\<lambda>r. r\<lparr>r_message := add_provenance (provenance (n_id d) (m_id (r_message r)) later)
       (m\<lparr>m_id := fresh, m_run_id := r_id r, m_pipeline_id := r_pipeline_id r, m_node_id := n_id d, m_time := now\<rparr>)\<rparr>))))"

definition count_visit :: "node_definition \<Rightarrow> unit ex" where
  "count_visit d =
     change_run (\<lambda>r. r\<lparr>r_node_visits := omap_put (n_id d)
       ((case map_of (r_node_visits r) (n_id d) of None \<Rightarrow> 0 | Some n \<Rightarrow> n) + 1) (r_node_visits r)\<rparr>)"

section \<open>Branches\<close>

text \<open>
  A branch advances in steps between which its siblings act: to the next node, to the next attempt, through
  the node's own execution, the polls of a child run, and the recording of the result. \<open>Ended\<close> is a branch
  that has reported to the shared state. The phases of an attempt carry the branch's run as it arrived at the
  node, from which the visit is counted, and the number of the attempt.
\<close>

datatype branch_phase =
    Arriving | Attempting run nat | Executing run nat | Polling run nat string nat | Finishing run nat node_result | Ended

record branch =
  br_phase :: branch_phase
  br_run :: run
  br_attempt :: node_execution

record branch_job =
  bj_stop :: stop_source
  bj_lease :: "lease_record option"
  bj_work_id :: string
  bj_attempt_id :: string

definition next_visit :: "run \<Rightarrow> node_definition \<Rightarrow> u32" where
  "next_visit r d = (case map_of (r_node_visits r) (n_id d) of None \<Rightarrow> 0 | Some n \<Rightarrow> n) + 1"

definition branch_context :: "branch_job \<Rightarrow> run \<Rightarrow> node_definition \<Rightarrow> u32 \<Rightarrow> u32 \<Rightarrow> execution_context" where
  "branch_context b r d visit_number attempt_number =
     \<lparr>cx_run_id = r_id r, cx_pipeline_id = r_pipeline_id r, cx_node_id = n_id d, cx_stop = bj_stop b,
      cx_attempt = attempt_number, cx_visit = visit_number,
      cx_work_id = bj_work_id b, cx_work_attempt_id = bj_attempt_id b, cx_work_lease = bj_lease b, cx_reports_job = True,
      cx_session_id = r_session_id r, cx_session_context = None, cx_continuations = None\<rparr>"

definition change_parallel :: "(parallel_state \<Rightarrow> parallel_state) \<Rightarrow> unit ex" where
  "change_parallel f = modify (\<lambda>s. s\<lparr>xs_parallel := f (xs_parallel s)\<rparr>)"

definition arrive_at_join :: "branch_job \<Rightarrow> unit ex" where
  "arrive_at_join b =
     look (\<lambda>s. let r = xs_run s; ps = xs_parallel s;
         index = (if bj_work_id b = [] \<and> r_frames r \<noteq> [] then unat (bf_index (last (r_frames r))) else 0)
       in if index \<ge> length (ps_outputs ps) \<or> ps_outputs ps ! index \<noteq> None
          then athrow Execution ''Parallel branch arrived twice''
          else change_parallel (\<lambda>ps. ps\<lparr>ps_outputs := (ps_outputs ps)[index := Some (r_message r)],
                                        ps_completed := Suc (ps_completed ps)\<rparr>))"

definition take_step :: "pipeline_definition \<Rightarrow> unit ex" where
  "take_step p =
     look (\<lambda>s. if ps_steps (xs_parallel s) \<ge> pl_max_steps p then athrow Execution ''Pipeline step limit exceeded''
       else change_parallel (\<lambda>ps. ps\<lparr>ps_steps := ps_steps ps + 1\<rparr>))"

definition branch_arrives :: "execution_env \<Rightarrow> pipeline_definition \<Rightarrow> branch_job \<Rightarrow> branch_phase ex" where
  "branch_arrives X p b =
     look (\<lambda>s. abind (node_of p (r_active_node (xs_run s))) (\<lambda>d.
       if n_type d = ''join'' then abind (arrive_at_join b) (\<lambda>_. aret Ended)
       else
         abind (take_step p) (\<lambda>_.
         abind (check_context X (branch_context b (xs_run s) d 1 1)) (\<lambda>_.
         abind (alift (permission (xe_json X) (xe_deps X) d (xs_run s))) (\<lambda>(decision, reason).
         if decision = Deny then athrow Policy ''Operation denied by policy''
         else if decision = RequireApproval \<or> n_type d = ''approval''
         then athrow Policy ''Approval is not supported inside a concurrent branch''
         else abind (alift (make_node (xe_deps X) d)) (\<lambda>_. aret (Attempting (xs_run s) 1)))))))"

definition branch_begins :: "execution_env \<Rightarrow> pipeline_definition \<Rightarrow> branch_job \<Rightarrow> run \<Rightarrow> nat \<Rightarrow> branch_phase ex" where
  "branch_begins X p b a k =
     look (\<lambda>s. abind (node_of p (r_active_node (xs_run s))) (\<lambda>d.
       if k > unat (rp_max_attempts (n_retry d)) then athrow Execution ''Parallel branch did not complete''
       else
         abind (alift (deadline_bindings (xe_deps X) d (Error Provider ''Logical model not configured''))) (\<lambda>_.
         abind (on_world (draw_attempt (xe_runtime X))) (\<lambda>x.
         abind (change_attempt (\<lambda>_. x\<lparr>x_run_id := r_id (xs_run s), x_node_id := n_id d,
                  x_id := (if k = 1 \<and> bj_attempt_id b \<noteq> [] then bj_attempt_id b else x_id x), x_attempt := of_nat k\<rparr>)) (\<lambda>_.
         abind (look (\<lambda>s. persist_branch X (branch_context b (xs_run s) d (next_visit a d) (of_nat k)) [own_attempt s])) (\<lambda>_.
         aret (Executing a k)))))))"

text \<open>What the attempt does before its result is recorded.\<close>

definition branch_executes :: "execution_env \<Rightarrow> pipeline_definition \<Rightarrow> branch_job \<Rightarrow> node_definition \<Rightarrow> run \<Rightarrow> nat \<Rightarrow> branch_phase ex" where
  "branch_executes X p b d a k =
     look (\<lambda>s. let c = branch_context b (xs_run s) d (next_visit a d) (of_nat k); m = r_message (xs_run s) in
       abind (modify (\<lambda>s. s\<lparr>xs_executed := xs_executed s @ [InBranch d a (xs_run s) k]\<rparr>)) (\<lambda>_.
       if n_type d = ''subpipeline'' then
         abind (validate_schema X (n_input_schema d) (m_payload m) (n_id d) ''input'') (\<lambda>_.
         abind (launch_child X p d (jobject [])) (\<lambda>(child_id, child).
         abind (child_attempt child_id (pl_name child) (pl_version child)) (\<lambda>_.
         aret (Polling a k child_id (xe_patience X)))))
       else
         abind (acquire_permit X c) (\<lambda>_.
         abind (acquire_permit X c) (\<lambda>_.
         abind (validate_schema X (n_input_schema d) (m_payload m) (n_id d) ''input'') (\<lambda>_.
         abind (alift (make_node (xe_deps X) d)) (\<lambda>node.
         abind (execute_node X c d node m) (\<lambda>result. aret (Finishing a k result))))))))"

text \<open>The deadline is finite, so the check before some poll finds it expired.\<close>

definition branch_polls :: "execution_env \<Rightarrow> branch_job \<Rightarrow> node_definition \<Rightarrow> run \<Rightarrow> nat \<Rightarrow> string \<Rightarrow> nat \<Rightarrow> branch_phase ex" where
  "branch_polls X b d a k child_id n =
     look (\<lambda>s. let c = branch_context b (xs_run s) d (next_visit a d) (of_nat k) in
       if n = 0 then athrow Timeout ''Execution deadline exceeded''
       else
         abind (check_context X c) (\<lambda>_.
         abind (calling X (get_run (xe_runtime X) child_id)) (\<lambda>child.
         if terminal (r_state child) then
           (if r_state child \<noteq> RCompleted then athrow Execution ''Subpipeline did not complete successfully''
            else aret (Finishing a k (routed (r_message child) [])))
         else abind (delay X c) (\<lambda>_. aret (Polling a k child_id (n - 1))))))"

text \<open>One edge leaves a node of a branch; the message is the node's result already when that is found out.\<close>

definition branch_route :: "pipeline_definition \<Rightarrow> node_definition \<Rightarrow> string \<Rightarrow> unit ex" where
  "branch_route p d condition =
     (case matching p d condition of
        [e] \<Rightarrow>
          look (\<lambda>s. let count = (case map_of (r_edge_visits (xs_run s)) (edge_key e) of None \<Rightarrow> 0 | Some n \<Rightarrow> n) + 1 in
            abind (awhen (e_max_iterations e \<noteq> 0)
                     (change_run (\<lambda>r. r\<lparr>r_edge_visits := omap_put (edge_key e) count (r_edge_visits r)\<rparr>))) (\<lambda>_.
            if e_max_iterations e \<noteq> 0 \<and> count > e_max_iterations e then athrow Execution ''Edge iteration limit exceeded''
            else change_run (\<lambda>r. r\<lparr>r_active_node := e_to e\<rparr>)))
      | _ \<Rightarrow> athrow Execution ''Parallel branch has ambiguous routing'')"

definition branch_finishes :: "execution_env \<Rightarrow> pipeline_definition \<Rightarrow> branch_job \<Rightarrow> node_definition \<Rightarrow> run \<Rightarrow> nat \<Rightarrow> node_result \<Rightarrow> branch_phase ex" where
  "branch_finishes X p b d a k result =
     look (\<lambda>s. let c = branch_context b (xs_run s) d (next_visit a d) (of_nat k) in
       abind (check_output X p d c result) (\<lambda>_.
       abind (change_attempt (\<lambda>x. x\<lparr>x_state := NCompleted\<rparr>)) (\<lambda>_.
       abind (finish_attempt X) (\<lambda>_.
       abind (count_visit d) (\<lambda>_.
       abind (adopt_message X d (nr_message result)) (\<lambda>_.
       abind (look (\<lambda>s. persist_branch X c [own_attempt s, message_record (r_id (xs_run s)) (r_message (xs_run s))])) (\<lambda>_.
       abind (branch_route p d (nr_condition result)) (\<lambda>_. aret Arriving))))))))"

text \<open>An error of the attempt is recorded; unless it was a cancellation or the last attempt, the node is tried again.\<close>

definition branch_retries :: "execution_env \<Rightarrow> branch_job \<Rightarrow> node_definition \<Rightarrow> run \<Rightarrow> nat \<Rightarrow> error_code \<Rightarrow> string \<Rightarrow> branch_phase ex" where
  "branch_retries X b d a k code text =
     look (\<lambda>s. let c = branch_context b (xs_run s) d (next_visit a d) (of_nat k) in
       abind (xdraw (xe_details X)) (\<lambda>details.
       abind (change_attempt (\<lambda>x. x\<lparr>x_state := failed_state code,
                x_error := failed_error code (validation_detail code text details)\<rparr>)) (\<lambda>_.
       abind (finish_attempt X) (\<lambda>_.
       abind (look (\<lambda>s. persist_branch X c [own_attempt s])) (\<lambda>_.
       if code = Cancellation \<or> k = unat (rp_max_attempts (n_retry d)) then athrow code text
       else abind (delay X c) (\<lambda>_. aret (Attempting a (Suc k))))))))"

definition attempting :: "execution_env \<Rightarrow> pipeline_definition \<Rightarrow> branch_job \<Rightarrow> run \<Rightarrow> nat \<Rightarrow> (node_definition \<Rightarrow> branch_phase ex) \<Rightarrow> branch_phase ex" where
  "attempting X p b a k m =
     look (\<lambda>s. abind (node_of p (r_active_node (xs_run s))) (\<lambda>d. atry (m d) aret (branch_retries X b d a k)))"

definition branch_step :: "execution_env \<Rightarrow> pipeline_definition \<Rightarrow> branch_job \<Rightarrow> branch_phase \<Rightarrow> branch_phase ex" where
  "branch_step X p b phase =
     (case phase of
        Arriving \<Rightarrow> branch_arrives X p b
      | Attempting a k \<Rightarrow> branch_begins X p b a k
      | Executing a k \<Rightarrow> attempting X p b a k (\<lambda>d. branch_executes X p b d a k)
      | Polling a k child_id n \<Rightarrow> attempting X p b a k (\<lambda>d. branch_polls X b d a k child_id n)
      | Finishing a k result \<Rightarrow> attempting X p b a k (\<lambda>d. branch_finishes X p b d a k result)
      | Ended \<Rightarrow> aret Ended)"

text \<open>The first failure is the failure of the group, and stops the other branches.\<close>

definition branch_failed :: "exn \<Rightarrow> unit ex" where
  "branch_failed e =
     change_parallel (\<lambda>ps.
       (if ps_failed ps then ps
        else case e of
               Error code text \<Rightarrow> ps\<lparr>ps_failed := True, ps_error := text, ps_code := code\<rparr>
             | _ \<Rightarrow> ps\<lparr>ps_failed := True, ps_error := ''Parallel branch failed''\<rparr>)
       \<lparr>ps_completed := Suc (ps_completed ps), ps_stop := True\<rparr>)"

definition guarded_step :: "execution_env \<Rightarrow> pipeline_definition \<Rightarrow> branch_job \<Rightarrow> branch_phase \<Rightarrow> branch_phase ex" where
  "guarded_step X p b phase =
     acatch (branch_step X p b phase) (\<lambda>e. abind (branch_failed e) (\<lambda>_. aret Ended))"

text \<open>The step of one branch: its local variables are loaded, and kept afterwards.\<close>

definition on_branch :: "branch \<Rightarrow> branch_phase ex \<Rightarrow> branch ex" where
  "on_branch br m s =
     (let run = xs_run s; attempt = xs_attempt s;
          (r, s') = m (s\<lparr>xs_run := br_run br, xs_attempt := br_attempt br\<rparr>);
          phase = (case r of Inl _ \<Rightarrow> Ended | Inr ph \<Rightarrow> ph)
      in (Inr \<lparr>br_phase = phase, br_run = xs_run s', br_attempt = xs_attempt s'\<rparr>, s'\<lparr>xs_run := run, xs_attempt := attempt\<rparr>))"

definition unfinished :: "branch list \<Rightarrow> nat list" where
  "unfinished brs = filter (\<lambda>i. br_phase (brs ! i) \<noteq> Ended) [0..<length brs]"

text \<open>The executor's threads decide which branch goes on; \<open>False\<close> is the end of the fuel.\<close>

primrec run_branches :: "execution_env \<Rightarrow> pipeline_definition \<Rightarrow> branch_job \<Rightarrow> nat \<Rightarrow> branch list \<Rightarrow> bool ex" where
  "run_branches X p b 0 brs = aret (unfinished brs = [])"
| "run_branches X p b (Suc fuel) brs =
     (if unfinished brs = [] then aret True
      else
        abind (xdraw (xe_order X)) (\<lambda>n.
        let i = unfinished brs ! (n mod length (unfinished brs)) in
        abind (on_branch (brs ! i) (guarded_step X p b (br_phase (brs ! i)))) (\<lambda>br.
        run_branches X p b fuel (brs[i := br]))))"

text \<open>Enough for every branch: each step of the pipeline allows the attempts of one node, each with its polls.\<close>

definition attempts_bound :: "pipeline_definition \<Rightarrow> nat" where
  "attempts_bound p = fold max (map (unat \<circ> rp_max_attempts \<circ> n_retry \<circ> snd) (pl_nodes p)) 0"

definition node_fuel :: "execution_env \<Rightarrow> pipeline_definition \<Rightarrow> nat" where
  "node_fuel X p = Suc (attempts_bound p) * (xe_patience X + 4) + 2"

definition branch_fuel :: "execution_env \<Rightarrow> pipeline_definition \<Rightarrow> nat \<Rightarrow> nat" where
  "branch_fuel X p width = Suc (unat (pl_max_steps p)) * node_fuel X p + width"

definition new_parallel :: "nat \<Rightarrow> u32 \<Rightarrow> parallel_state" where
  "new_parallel width steps =
     \<lparr>ps_outputs = replicate width None, ps_completed = 0, ps_steps = steps, ps_failed = False, ps_error = [],
      ps_code = Execution, ps_stop = False\<rparr>"

definition branch_of :: "execution_env \<Rightarrow> pipeline_definition \<Rightarrow> u32 \<Rightarrow> string \<Rightarrow> execution_token \<Rightarrow> branch ex" where
  "branch_of X p subpipeline_depth session_id token =
     abind (on_world (draw (\<lambda>n. new_run (re_uuid (xe_runtime X) n 0) (re_time (xe_runtime X) n 0) (tk_message token)))) (\<lambda>r.
     abind (on_world (draw_attempt (xe_runtime X))) (\<lambda>x.
     aret \<lparr>br_phase = Arriving,
           br_run = r\<lparr>r_id := m_run_id (tk_message token), r_pipeline_id := m_pipeline_id (tk_message token),
             r_definition := pl_source p, r_active_node := tk_node_id token, r_frames := tk_frames token,
             r_actor := ''parallel'', r_subpipeline_depth := subpipeline_depth, r_session_id := session_id\<rparr>,
           br_attempt = x\<rparr>))"

section \<open>Node work of another instance\<close>

fun remove_ephemeral_workspace_paths :: "json \<Rightarrow> json" where
  "remove_ephemeral_workspace_paths (JArr vs) = JArr (map remove_ephemeral_workspace_paths vs)"
| "remove_ephemeral_workspace_paths (JObj m) =
     JObj (map (\<lambda>(k, v). (k, remove_ephemeral_workspace_paths v))
       (filter (\<lambda>(k, v). k \<notin> {''project_dir'', ''workspace_path'', ''cwd''}) m))"
| "remove_ephemeral_workspace_paths v = v"

definition end_work :: "execution_env \<Rightarrow> node_work \<Rightarrow> lease_record \<Rightarrow> (node_work \<Rightarrow> node_work) \<Rightarrow> unit ex" where
  "end_work X work lease f =
     abind (on_world (draw_time (xe_runtime X))) (\<lambda>now.
     let k = (f work)\<lparr>w_updated_at := now\<rparr> in
     calling X (commit_node_owned (xe_runtime X) [work_record k] k lease))"

definition work_cancelled :: "node_work \<Rightarrow> node_work" where
  "work_cancelled k = k\<lparr>w_state := WCancelled, w_error := ''Parent run cancellation requested''\<rparr>"

definition work_failed :: "lease_record \<Rightarrow> node_work_state \<Rightarrow> string \<Rightarrow> node_work \<Rightarrow> node_work" where
  "work_failed lease state text k =
     k\<lparr>w_state := state, w_error := text, w_owner_instance_id := le_owner_instance lease, w_fencing_token := le_fencing_token lease\<rparr>"

definition wants_worker :: "node_work \<Rightarrow> bool" where
  "wants_worker k \<longleftrightarrow> w_required_worker_id k \<noteq> [] \<or> w_required_capability k \<noteq> []"

text \<open>A worker's branch gets a workspace of its own; paths of another machine are dropped.\<close>

definition stage_token :: "execution_env \<Rightarrow> node_work \<Rightarrow> (execution_token \<times> string option) ex" where
  "stage_token X work =
     (let token = w_token work; m = tk_message token;
          with = (\<lambda>metadata. token\<lparr>tk_message := m\<lparr>m_metadata := metadata\<rparr>\<rparr>) in
      if \<not> wants_worker work then aret (token, None)
      else
        abind (alift (jremove ''project_dir'' (m_metadata m))) (\<lambda>metadata.
        case jat metadata ''workspace_manifest'' of
          Inl _ \<Rightarrow> aret (with metadata, None)
        | Inr manifest \<Rightarrow>
            abind (ask (\<lambda>n. xe_stage_workspace X n manifest (w_run_id work) (w_id work) (w_attempt_id work))) (\<lambda>path.
            aret (with (jput ''project_dir'' (JStr path) (jerase ''workspace_manifest'' metadata)), Some path))))"

definition work_result :: "execution_env \<Rightarrow> node_work \<Rightarrow> lease_record \<Rightarrow> string option \<Rightarrow> message \<Rightarrow> message ex" where
  "work_result X work lease staged m =
     abind (case staged of
              None \<Rightarrow> aret (m_metadata m)
            | Some path \<Rightarrow>
                abind (ask (\<lambda>n. xe_result_manifest X n path work lease)) (\<lambda>manifest.
                alift (jassign ''workspace_result_manifest'' manifest (m_metadata m)))) (\<lambda>metadata.
     aret (m\<lparr>m_metadata := (if wants_worker work then remove_ephemeral_workspace_paths metadata else metadata)\<rparr>))"

definition work_completed :: "execution_env \<Rightarrow> node_work \<Rightarrow> lease_record \<Rightarrow> string option \<Rightarrow> node_work \<Rightarrow> unit ex" where
  "work_completed X work lease staged completed =
     look (\<lambda>s. let ps = xs_parallel s in
       if ps_failed ps then athrow (ps_code ps) (ps_error ps)
       else case hd (ps_outputs ps) of
              None \<Rightarrow> athrow Execution ''Distributed node work produced no output''
            | Some m \<Rightarrow>
                abind (work_result X work lease staged m) (\<lambda>m.
                end_work X completed lease (\<lambda>k.
                  k\<lparr>w_result := Some m, w_steps := ps_steps ps, w_state := WCompleted, w_owner_instance_id := le_owner_instance lease,
                    w_fencing_token := le_fencing_token lease, w_error := []\<rparr>)))"

definition perform_work :: "execution_env \<Rightarrow> node_work \<Rightarrow> lease_record \<Rightarrow> unit ex" where
  "perform_work X work lease =
     (let E = xe_runtime X in
      abind (calling X (get_run E (w_run_id work))) (\<lambda>r.
      if r_cancellation_requested r \<or> terminal (r_state r)
      then abind (calling X (get_node_work E (w_id work))) (\<lambda>k. end_work X k lease work_cancelled)
      else
        abind (alift (re_parse E (r_definition r))) (\<lambda>p.
        let p = p\<lparr>pl_resolved_subpipelines := r_resolved_subpipelines r\<rparr> in
        abind (change_parallel (\<lambda>_. new_parallel 1 (w_steps work))) (\<lambda>_.
        abind (stage_token X work) (\<lambda>(token, staged).
        abind (branch_of X p (r_subpipeline_depth r) (r_session_id r) token) (\<lambda>br.
        abind (run_branches X p \<lparr>bj_stop = OfWork (w_id work), bj_lease = Some lease, bj_work_id = w_id work,
                 bj_attempt_id = w_attempt_id work\<rparr> (branch_fuel X p 1) [br]) (\<lambda>_.
        abind (calling X (get_node_work E (w_id work))) (\<lambda>completed.
        abind (calling X (get_run E (w_run_id work))) (\<lambda>current.
        if r_cancellation_requested current \<or> terminal (r_state current) then end_work X completed lease work_cancelled
        else work_completed X work lease staged completed)))))))))"

text \<open>A failure of the database leaves the work to its next owner; a lost fence is expected.\<close>

definition work_failure :: "execution_env \<Rightarrow> node_work \<Rightarrow> lease_record \<Rightarrow> exn \<Rightarrow> unit ex" where
  "work_failure X work lease e =
     (let record = (\<lambda>state text. ignoring
            (abind (calling X (get_node_work (xe_runtime X) (w_id work))) (\<lambda>k.
             end_work X k lease (work_failed lease state text))))
      in case e of
           Error code text \<Rightarrow>
             if code = Storage then aret ()
             else record (if code = Cancellation then WCancelled else WFailed) text
         | _ \<Rightarrow> record WFailed ''Distributed node work failed'')"

definition execute_distributed_work :: "execution_env \<Rightarrow> node_work \<Rightarrow> lease_record \<Rightarrow> unit ex" where
  "execute_distributed_work X work lease = acatch (perform_work X work lease) (work_failure X work lease)"

section \<open>Parallel nodes\<close>

definition new_work :: "execution_env \<Rightarrow> pipeline_definition \<Rightarrow> string \<Rightarrow> string \<Rightarrow> nat \<times> execution_token \<Rightarrow> store_record list \<Rightarrow> store_record list ex" where
  "new_work X p grp join_id it records =
     (case it of (i, token) \<Rightarrow>
        look (\<lambda>s. let r = xs_run s; wid = grp @ '':'' @ decimal i; metadata = m_metadata (tk_message token) in
          abind (on_world (draw (\<lambda>n. new_node_work (re_uuid (xe_runtime X) n 0) (re_time (xe_runtime X) n 0) token))) (\<lambda>k.
          abind (if xe_has_artifacts X \<and> jcontains metadata ''workspace_manifest''
                 then abind (alift (jat metadata ''workspace_manifest'')) (\<lambda>manifest.
                      abind (ask (\<lambda>n. xe_input_manifest X n manifest (r_id r) wid)) (\<lambda>manifest'.
                      aret (jput ''workspace_manifest'' manifest' metadata)))
                 else aret metadata) (\<lambda>metadata'.
          let token' = token\<lparr>tk_message := (tk_message token)\<lparr>m_metadata := metadata'\<rparr>\<rparr> in
          abind (alift (worker_requirement p token')) (\<lambda>required.
          case required of
            None \<Rightarrow> athrow Execution ''Distributed branch requires incompatible worker capabilities''
          | Some need \<Rightarrow>
              aret (records @ [work_record (k\<lparr>w_id := wid, w_run_id := r_id r, w_group_id := grp, w_node_id := tk_node_id token,
                w_join := join_id, w_index := of_nat i, w_token := token', w_steps := r_steps r,
                w_required_worker_id := (case need of None \<Rightarrow> [] | Some (w, _) \<Rightarrow> w),
                w_required_capability := (case need of None \<Rightarrow> [] | Some (_, c) \<Rightarrow> c)\<rparr>)]))))))"

definition distribute_branches :: "execution_env \<Rightarrow> pipeline_definition \<Rightarrow> execution_token list \<Rightarrow> bool ex" where
  "distribute_branches X p tokens =
     abind (on_world (draw_uuid (xe_runtime X))) (\<lambda>grp. look (\<lambda>s.
     abind (node_of p (r_active_node (xs_run s))) (\<lambda>d.
     abind (afold (new_work X p grp (n_join d)) (enumerate 0 tokens) []) (\<lambda>records.
     abind (change_run (\<lambda>r. r\<lparr>r_pending_parallel_group := grp, r_pending_parallel_join := n_join d, r_state := RPaused\<rparr>)) (\<lambda>_.
     abind (x_checkpoint X ''parallel.waiting'' records) (\<lambda>_. aret True))))))"

definition collect_output :: "message option \<Rightarrow> unit ex" where
  "collect_output output =
     (case output of
        None \<Rightarrow> athrow Execution ''Parallel branch output missing''
      | Some m \<Rightarrow>
          change_run (\<lambda>r. r\<lparr>r_message := (r_message r)\<lparr>
            m_payload := JArr (jelements (m_payload (r_message r)) @ [m_payload m]),
            m_provenance := m_provenance (r_message r) @ m_provenance m\<rparr>\<rparr>))"

definition run_group :: "execution_env \<Rightarrow> pipeline_definition \<Rightarrow> execution_token list \<Rightarrow> bool ex" where
  "run_group X p tokens =
     look (\<lambda>s. let r = xs_run s in
       abind (change_parallel (\<lambda>_. new_parallel (length tokens) (r_steps r))) (\<lambda>_.
       abind (afold (\<lambda>token brs. abind (branch_of X p (r_subpipeline_depth r) (r_session_id r) token) (\<lambda>br. aret (brs @ [br])))
                tokens []) (\<lambda>brs.
       abind (afor tokens (\<lambda>_. on_world (spawn (LocalBranch (r_id r))))) (\<lambda>_.
       abind (run_branches X p \<lparr>bj_stop = OfBranch (r_id r), bj_lease = None, bj_work_id = [], bj_attempt_id = []\<rparr>
                (branch_fuel X p (length tokens)) brs) (\<lambda>_. look (\<lambda>s. let ps = xs_parallel s in
       abind (change_run (\<lambda>r. r\<lparr>r_steps := ps_steps ps\<rparr>)) (\<lambda>_.
       if ps_failed ps then athrow (ps_code ps) (ps_error ps)
       else
         abind (change_run (\<lambda>r. r\<lparr>r_message := (r_message r)\<lparr>m_payload := JArr []\<rparr>\<rparr>)) (\<lambda>_.
         abind (afor (ps_outputs ps) collect_output) (\<lambda>_.
         abind (change_run (\<lambda>r. r\<lparr>r_frames := []\<rparr>)) (\<lambda>_.
         abind (node_of p (r_active_node r)) (\<lambda>d.
         abind (change_run (\<lambda>r. r\<lparr>r_active_node := n_join d, r_prepared_join := n_join d\<rparr>)) (\<lambda>_.
         aret False))))))))))))"

text \<open>All ready tokens are taken. \<open>True\<close>: the branches were left to any instance, and the run waits.\<close>

definition execute_parallel :: "execution_env \<Rightarrow> pipeline_definition \<Rightarrow> bool ex" where
  "execute_parallel X p =
     look (\<lambda>s. let tokens = r_ready (xs_run s) in
       abind (change_run (\<lambda>r. r\<lparr>r_ready := []\<rparr>)) (\<lambda>_.
       abind (if re_coordinated (xe_runtime X) then alift (all_distributable p tokens) else aret False) (\<lambda>all.
       if all then distribute_branches X p tokens else run_group X p tokens)))"

text \<open>The results of distributed branches, when the run is taken up again.\<close>

fun group_works :: "runtime_env \<Rightarrow> string \<Rightarrow> json list \<Rightarrow> node_work list rt" where
  "group_works E grp [] = aret []"
| "group_works E grp (v # vs) =
     abind (decode_node_work E v) (\<lambda>k.
     abind (group_works E grp vs) (\<lambda>ks. aret (if w_group_id k = grp then k # ks else ks)))"

definition work_done :: "node_work \<Rightarrow> unit result" where
  "work_done k =
     (if w_state k \<noteq> WCompleted \<or> w_result k = None
      then throw Execution (if w_error k = [] then ''Distributed parallel branch failed'' else w_error k) else Inr ())"

text \<open>A manifest that names objects has to come from the attempt that is recorded.\<close>

definition check_result_manifest :: "execution_env \<Rightarrow> node_work \<Rightarrow> json \<Rightarrow> unit ex" where
  "check_result_manifest X k manifest =
     (let J = xe_json X; mismatch = throw Conflict ''Workspace artifact provenance does not match its fence'' in
      abind (ask (\<lambda>n. xe_check_manifest X n manifest)) (\<lambda>_.
      abind (alift (jvalue (get_unsigned J) manifest ''version'' 1)) (\<lambda>version.
      if version \<noteq> 2 then aret ()
      else if \<not> xe_has_artifacts X then athrow Storage ''Object-backed workspace requires an artifact store''
      else
        abind (alift (jvalue Inr manifest ''provenance'' (jobject []))) (\<lambda>origin.
        abind (alift (if \<not> is_object origin then mismatch
          else rbind (jvalue (get_string J) origin ''run_id'' []) (\<lambda>i. if i \<noteq> w_run_id k then mismatch
          else rbind (jvalue (get_string J) origin ''node_work_id'' []) (\<lambda>i. if i \<noteq> w_id k then mismatch
          else rbind (jvalue (get_string J) origin ''attempt_id'' []) (\<lambda>i. if i \<noteq> w_attempt_id k then mismatch
          else rbind (jvalue (get_uint64 J) origin ''fencing_token'' 0) (\<lambda>f. if f \<noteq> w_fencing_token k then mismatch
          else Inr ())))))) (\<lambda>_.
        abind (alift (jat manifest ''files'')) (\<lambda>files.
        afor (jelements files) (\<lambda>entry.
          abind (alift (jget_at (get_string J) entry ''object_id'')) (\<lambda>object_id.
          abind (alift (jget_at (get_string J) entry ''sha256'')) (\<lambda>sha256.
          abind (alift (jget_at (get_uint64 J) entry ''size'')) (\<lambda>bytes.
          ask (\<lambda>n. xe_verify_object X n object_id sha256 bytes)))))))))))"

definition absorb_work :: "execution_env \<Rightarrow> node_work \<Rightarrow> json list \<Rightarrow> json list ex" where
  "absorb_work X k manifests =
     (let m = the (w_result k) in
      abind (collect_output (Some m)) (\<lambda>_.
      abind (case jat (m_metadata m) ''workspace_result_manifest'' of
               Inl _ \<Rightarrow> aret manifests
             | Inr manifest \<Rightarrow>
                 abind (check_result_manifest X k manifest) (\<lambda>_.
                 aret (manifests @ [jobject [(''work_id'', JStr (w_id k)), (''attempt_id'', JStr (w_attempt_id k)),
                                             (''manifest'', manifest)]]))) (\<lambda>manifests.
      abind (change_run (\<lambda>r. r\<lparr>r_steps := max (r_steps r) (w_steps k)\<rparr>)) (\<lambda>_. aret manifests))))"

definition reconcile_distributed_parallel :: "execution_env \<Rightarrow> unit ex" where
  "reconcile_distributed_parallel X =
     look (\<lambda>s. let r = xs_run s; E = xe_runtime X in
       if r_pending_parallel_group r = [] then aret ()
       else
         abind (on_world (db_list E KNodeWork (r_id r) 10000 0)) (\<lambda>records.
         abind (on_world (group_works E (r_pending_parallel_group r) records)) (\<lambda>works.
         if works = [] then athrow Execution ''Distributed parallel work is missing''
         else
           let works = sort_key w_index works in
           abind (alift (forM works work_done)) (\<lambda>_.
           abind (change_run (\<lambda>r. r\<lparr>r_message := (r_message r)\<lparr>m_payload := JArr []\<rparr>, r_steps := 0\<rparr>)) (\<lambda>_.
           abind (afold (absorb_work X) works []) (\<lambda>manifests.
           abind (if manifests = [] then aret ()
                  else look (\<lambda>s. abind (alift (jassign ''workspace_result_manifests'' (JArr manifests)
                                                (m_metadata (r_message (xs_run s))))) (\<lambda>metadata.
                       change_run (\<lambda>r. r\<lparr>r_message := (r_message r)\<lparr>m_metadata := metadata\<rparr>\<rparr>)))) (\<lambda>_.
           change_run (\<lambda>r. r\<lparr>r_frames := [], r_active_node := r_pending_parallel_join r,
             r_prepared_join := r_pending_parallel_join r, r_pending_parallel_group := [], r_pending_parallel_join := []\<rparr>))))))))"

section \<open>The context of a session\<close>

definition stored_snapshot :: "execution_env \<Rightarrow> string \<Rightarrow> run_context_snapshot option ex" where
  "stored_snapshot X rid =
     atry (abind (calling X (db_get (xe_runtime X) KRunContextSnapshot rid)) (\<lambda>v.
           ask (\<lambda>n. context_snapshot_from_json (xe_json X) (re_time (xe_runtime X) n 0) v)))
       (\<lambda>snapshot. aret (Some snapshot))
       (\<lambda>code text. if code = NotFound then aret None else athrow code text)"

text \<open>The turns after the generation, each the successor of the one before; the serialized size is bounded.\<close>

definition check_turn :: "json_ops \<Rightarrow> string \<Rightarrow> json \<Rightarrow> u64 \<times> nat \<Rightarrow> (u64 \<times> nat) result" where
  "check_turn J session_id turn sb =
     (case sb of (sequence, bytes) \<Rightarrow>
        let invalid = throw Storage ''Session context history tail is invalid'' in
        rbind (jvalue (get_string J) turn ''session_id'' []) (\<lambda>i. if i \<noteq> session_id then invalid else
        rbind (jvalue (get_uint64 J) turn ''sequence'' 0) (\<lambda>n. if n \<noteq> sequence + 1 then invalid else
        rbind (json_size J turn) (\<lambda>more.
        if bytes + more > 1024 * 1024 then throw Capacity ''Session context history tail exceeds the size limit''
        else Inr (sequence + 1, bytes + more)))))"

definition recent_turns :: "execution_env \<Rightarrow> string \<Rightarrow> u64 \<Rightarrow> u64 \<Rightarrow> json ex" where
  "recent_turns X session_id through previous_turn =
     (if through \<ge> previous_turn then aret (JArr [])
      else if previous_turn - through > 1000 then athrow Capacity ''Session context has too many uncompressed turns''
      else
        abind (calling X (at_database (xe_runtime X) (\<lambda>n w.
                 (session_turns_between (re_fault (xe_runtime X) n) session_id through previous_turn 1000 (rt_db w), w)))) (\<lambda>turns.
        if length turns \<noteq> unat (previous_turn - through) then athrow Storage ''Session context history tail is incomplete''
        else abind (alift (foldM (check_turn (xe_json X) session_id) turns (through, 0))) (\<lambda>_. aret (JArr turns))))"

definition generation_context :: "execution_env \<Rightarrow> string \<Rightarrow> run_context_snapshot \<Rightarrow> session_context option ex" where
  "generation_context X session_id snapshot =
     (if cs_context_generation_id snapshot = [] then aret None
      else
        abind (calling X (db_get (xe_runtime X) KSessionContextGeneration (cs_context_generation_id snapshot))) (\<lambda>v.
        abind (ask (\<lambda>n. context_generation_from_json (xe_json X) (re_uuid (xe_runtime X) n 0) (re_time (xe_runtime X) n 0) v)) (\<lambda>g.
        if cg_session_id g \<noteq> session_id \<or> cg_generation g \<noteq> cs_context_generation snapshot \<or>
           cg_through_turn_sequence g \<noteq> cs_context_through_turn_sequence snapshot
        then athrow Storage ''Stored context generation reference is invalid''
        else
          abind (recent_turns X session_id (cg_through_turn_sequence g) (cs_turn_sequence snapshot - 1)) (\<lambda>turns.
          aret (Some \<lparr>sx_generation_id = cg_id g, sx_representation_kind = cg_representation_kind g,
                      sx_representation_version = cg_representation_version g, sx_generation = cg_generation g,
                      sx_through_turn_sequence = cg_through_turn_sequence g, sx_payload = cg_payload g,
                      sx_recent_turns = turns\<rparr>)))))"

definition session_part :: "execution_env \<Rightarrow> run \<Rightarrow> execution_context \<Rightarrow> execution_context ex" where
  "session_part X r c =
     (if r_session_id r = [] then aret c
      else
        let c = c\<lparr>cx_session_id := r_session_id r\<rparr> in
        abind (stored_snapshot X (r_id r)) (\<lambda>snapshot.
        case snapshot of
          None \<Rightarrow> aret (c\<lparr>cx_continuations := Some None\<rparr>)
        | Some snap \<Rightarrow>
            if cs_run_id snap \<noteq> r_id r \<or> cs_session_id snap \<noteq> r_session_id r \<or> cs_session_turn_id snap \<noteq> r_session_turn_id r
            then athrow Storage ''Stored run context snapshot is invalid''
            else
              abind (generation_context X (r_session_id r) snap) (\<lambda>sc.
              aret (c\<lparr>cx_session_context := sc, cx_continuations := Some (Some (cs_provider_continuations snap))\<rparr>))))"

section \<open>One attempt of a node\<close>

datatype attempt_outcome = Parked | Produced node_result

text \<open>A run that waits for its child is taken up again when the child has ended.\<close>

definition park_for_child :: "execution_env \<Rightarrow> attempt_outcome ex" where
  "park_for_child X =
     abind (change_attempt (\<lambda>x. x\<lparr>x_state := NWaitingApproval\<rparr>)) (\<lambda>_.
     abind (look (\<lambda>s. x_checkpoint X ''subpipeline.waiting'' [own_attempt s])) (\<lambda>_.
     abind (x_transition X RPaused ''subpipeline.waiting'' []) (\<lambda>_. aret Parked)))"

primrec await_child :: "execution_env \<Rightarrow> execution_context \<Rightarrow> nat \<Rightarrow> attempt_outcome ex" where
  "await_child X c 0 = athrow Timeout ''Execution deadline exceeded''"
| "await_child X c (Suc k) =
     abind (check_context X c) (\<lambda>_. look (\<lambda>s.
     abind (calling X (get_run (xe_runtime X) (r_child_id (xs_run s)))) (\<lambda>child.
     if terminal (r_state child) then
       (if r_state child \<noteq> RCompleted then athrow Execution ''Subpipeline did not complete successfully''
        else aret (Produced (routed (r_message child) [])))
     else if r_state child = RWaitingApproval \<or> r_state child = RPaused then park_for_child X
     else abind (delay X c) (\<lambda>_. await_child X c k))))"

text \<open>The child an earlier attempt has started: its result, that it still runs, or none.\<close>

definition earlier_child :: "execution_env \<Rightarrow> (bool \<times> message option) ex" where
  "earlier_child X =
     look (\<lambda>s. let cid = r_child_id (xs_run s) in
       if cid = [] then aret (False, None)
       else
         abind (calling X (get_run (xe_runtime X) cid)) (\<lambda>child.
         if terminal (r_state child) \<and> r_state child \<noteq> RCompleted
         then abind (change_run (\<lambda>r. r\<lparr>r_child_id := []\<rparr>)) (\<lambda>_. aret (False, None))
         else
           abind (child_attempt (r_id child) (r_pipeline_id child) (r_pipeline_version child)) (\<lambda>_.
           aret (r_state child \<noteq> RCompleted, if r_state child = RCompleted then Some (r_message child) else None))))"

definition child_origin :: "run \<Rightarrow> json" where
  "child_origin r =
     jobject [(''initiation_type'', JStr (r_initiation_type r)), (''trigger_depth'', JUInt (unat (r_trigger_depth r))),
              (''root_event_id'', JStr (r_root_event_id r)), (''trigger_id'', JStr (r_trigger_id r)),
              (''event_id'', JStr (r_event_id r))]"

definition new_child :: "execution_env \<Rightarrow> pipeline_definition \<Rightarrow> node_definition \<Rightarrow> unit ex" where
  "new_child X p d =
     look (\<lambda>s. abind (launch_child X p d (child_origin (xs_run s))) (\<lambda>(child_id, child).
       abind (change_run (\<lambda>r. r\<lparr>r_child_id := child_id, r_child_pipeline_id := pl_name child,
                r_child_pipeline_version := pl_version child, r_child_runs := r_child_runs r @ [child_id]\<rparr>)) (\<lambda>_.
       abind (child_attempt child_id (pl_name child) (pl_version child)) (\<lambda>_.
       look (\<lambda>s. x_checkpoint X ''subpipeline.started'' [own_attempt s])))))"

definition run_subpipeline :: "execution_env \<Rightarrow> pipeline_definition \<Rightarrow> node_definition \<Rightarrow> execution_context \<Rightarrow> attempt_outcome ex" where
  "run_subpipeline X p d c =
     look (\<lambda>s. abind (validate_schema X (n_input_schema d) (m_payload (r_message (xs_run s))) (n_id d) ''input'') (\<lambda>_.
       abind (earlier_child X) (\<lambda>(active, result).
       case result of
         Some m \<Rightarrow> aret (Produced (routed m []))
       | None \<Rightarrow>
           abind (awhen (\<not> active) (new_child X p d)) (\<lambda>_.
           if re_coordinated (xe_runtime X) then park_for_child X else await_child X c (xe_patience X)))))"

definition run_node :: "execution_env \<Rightarrow> node_definition \<Rightarrow> node_object \<Rightarrow> execution_context \<Rightarrow> attempt_outcome ex" where
  "run_node X d node c =
     abind (acquire_permit X c) (\<lambda>_.
     abind (acquire_permit X c) (\<lambda>_. look (\<lambda>s. let m = r_message (xs_run s) in
     abind (validate_schema X (n_input_schema d) (m_payload m) (n_id d) ''input'') (\<lambda>_.
     abind (execute_node X c d node m) (\<lambda>result. aret (Produced result))))))"

definition run_attempt :: "execution_env \<Rightarrow> pipeline_definition \<Rightarrow> node_definition \<Rightarrow> node_object \<Rightarrow> execution_context \<Rightarrow> bool \<Rightarrow> attempt_outcome ex" where
  "run_attempt X p d node c approval =
     abind (modify (\<lambda>s. s\<lparr>xs_executed := xs_executed s @ [OnPath d (xs_run s) approval]\<rparr>)) (\<lambda>_.
     abind (if n_type d = ''subpipeline'' then run_subpipeline X p d c else run_node X d node c) (\<lambda>outcome.
     case outcome of
       Parked \<Rightarrow> aret Parked
     | Produced result \<Rightarrow>
         abind (check_output X p d c result) (\<lambda>_.
         abind (alift (json_size (xe_json X) (m_payload (nr_message result)))) (\<lambda>bytes.
         if bytes > 1024 * 1024 then athrow Execution ''Node result exceeds 1 MiB'' else aret (Produced result)))))"

datatype tried = Tried attempt_outcome | Failure error_code string

text \<open>The handlers of an attempt: the code, and what of the error is kept with the attempt.\<close>

definition note_failure :: "execution_env \<Rightarrow> node_definition \<Rightarrow> exn \<Rightarrow> tried ex" where
  "note_failure X d e =
     (case e of
        Error code text \<Rightarrow>
          abind (xdraw (xe_details X)) (\<lambda>details.
          abind (if n_type d = ''worker'' then
                   abind (alift (jvalue (get_string (xe_json X)) details ''worker_job_id'' [])) (\<lambda>job.
                   abind (alift (jvalue (get_string (xe_json X)) details ''worker_id'' [])) (\<lambda>worker.
                   abind (alift (jvalue (get_string (xe_json X)) details ''external_job_id'' [])) (\<lambda>external_id.
                   change_attempt (\<lambda>x. x\<lparr>x_worker_job_id := job, x_worker_id := worker, x_external_job_id := external_id\<rparr>))))
                 else aret ()) (\<lambda>_.
          let detail = (if code = Validation \<or> n_type d = ''subpipeline'' then validation_detail code text details else [])
          in aret (Failure code (if detail = [] \<and> (n_type d = ''worker'' \<or> n_type d = ''subpipeline'') then text else detail))))
      | _ \<Rightarrow> aret (Failure Execution []))"

definition guarded_attempt :: "execution_env \<Rightarrow> pipeline_definition \<Rightarrow> node_definition \<Rightarrow> node_object \<Rightarrow> execution_context \<Rightarrow> bool \<Rightarrow> tried ex" where
  "guarded_attempt X p d node c approval =
     acatch (abind (run_attempt X p d node c approval) (\<lambda>outcome. aret (Tried outcome))) (note_failure X d)"

definition waiting_event :: "node_definition \<Rightarrow> string \<Rightarrow> string" where
  "waiting_event d ending = (if n_type d = ''tool'' then ''tool.'' else if n_type d = ''worker'' then ''worker.'' else ''model.'') @ ending"

text \<open>Before and after the node: its attempt is recorded, and the run shows what it waits for.\<close>

definition begin_attempt :: "execution_env \<Rightarrow> node_definition \<Rightarrow> u32 \<Rightarrow> unit ex" where
  "begin_attempt X d attempt_number =
     abind (alift (deadline_bindings (xe_deps X) d InvalidArgument)) (\<lambda>_.
     abind (awhen (n_type d = ''worker'') (x_transition X RWaitingWorker ''worker.submitting'' [])) (\<lambda>_.
     abind (on_world (draw_attempt (xe_runtime X))) (\<lambda>x. look (\<lambda>s.
     abind (change_attempt (\<lambda>_. x\<lparr>x_run_id := r_id (xs_run s), x_node_id := n_id d, x_attempt := attempt_number\<rparr>)) (\<lambda>_.
     abind (look (\<lambda>s. x_checkpoint X ''node.started'' [own_attempt s])) (\<lambda>_.
     abind (modify (\<lambda>s. s\<lparr>xs_recorded := True\<rparr>)) (\<lambda>_.
     abind (awhen (n_type d = ''tool'') (x_transition X RWaitingTool ''tool.called'' [])) (\<lambda>_.
     awhen (n_type d = ''agent'') (x_transition X RWaitingModel ''model.called'' [])))))))))"

definition end_waiting :: "execution_env \<Rightarrow> node_definition \<Rightarrow> string \<Rightarrow> unit ex" where
  "end_waiting X d ending =
     look (\<lambda>s. awhen (r_state (xs_run s) \<in> {RWaitingTool, RWaitingModel, RWaitingWorker})
       (x_transition X RRunning (waiting_event d ending) []))"

definition fail_attempt :: "execution_env \<Rightarrow> error_code \<Rightarrow> string \<Rightarrow> unit ex" where
  "fail_attempt X code detail =
     abind (change_attempt (\<lambda>x. x\<lparr>x_state := failed_state code, x_error := failed_error code detail\<rparr>)) (\<lambda>_.
     look (\<lambda>s. x_checkpoint X ''node.failed'' [own_attempt s]))"

text \<open>The result of the node in the run.\<close>

definition worker_fields :: "execution_env \<Rightarrow> node_definition \<Rightarrow> node_result \<Rightarrow> unit ex" where
  "worker_fields X d result =
     awhen (n_type d = ''worker'')
       (let text = (\<lambda>k. alift (jvalue (get_string (xe_json X)) (m_metadata (nr_message result)) k [])) in
        abind (text ''worker_job_id'') (\<lambda>job.
        abind (text ''worker_id'') (\<lambda>worker.
        abind (text ''external_job_id'') (\<lambda>external_id.
        abind (change_attempt (\<lambda>x. x\<lparr>x_worker_job_id := job, x_worker_id := worker, x_external_job_id := external_id\<rparr>)) (\<lambda>_.
        change_run (\<lambda>r. r\<lparr>r_worker_job_id := job\<rparr>))))))"

definition trim_provenance :: "unit ex" where
  "trim_provenance =
     change_run (\<lambda>r. let m = r_message r in
       r\<lparr>r_message := m\<lparr>m_provenance := drop (length (m_provenance m) - 256) (m_provenance m)\<rparr>\<rparr>)"

definition candidate_record :: "run \<Rightarrow> string \<times> opaque_continuation \<Rightarrow> store_record" where
  "candidate_record r pk =
     (case pk of (provider_id, k) \<Rightarrow>
        \<lparr>sr_kind = KSessionContinuation, sr_id = run_continuation_candidate_id (r_id r) provider_id, sr_run_id = r_id r,
         sr_value = jobject [(''scope'', JStr ''candidate''), (''session_id'', JStr (r_session_id r)), (''run_id'', JStr (r_id r)),
           (''turn_id'', JStr (r_session_turn_id r)), (''provider_id'', JStr provider_id),
           (''provider_version'', JStr (oc_provider_version k)), (''state'', JStr (oc_state k))]\<rparr>)"

definition take_candidates :: "node_definition \<Rightarrow> store_record list ex" where
  "take_candidates d =
     look (\<lambda>s. if r_session_id (xs_run s) \<noteq> [] \<and> (n_type d = ''agent'' \<or> n_type d = ''worker'') then
         abind (modify (\<lambda>s. s\<lparr>xs_candidates := []\<rparr>)) (\<lambda>_. aret (map (candidate_record (xs_run s)) (xs_candidates s)))
       else aret [])"

definition record_result :: "execution_env \<Rightarrow> node_definition \<Rightarrow> node_result \<Rightarrow> store_record list ex" where
  "record_result X d result =
     abind (change_attempt (\<lambda>x. x\<lparr>x_state := NCompleted\<rparr>)) (\<lambda>_.
     abind (worker_fields X d result) (\<lambda>_.
     abind (change_run (\<lambda>r. r\<lparr>r_steps := r_steps r + 1\<rparr>)) (\<lambda>_.
     abind (count_visit d) (\<lambda>_.
     abind (adopt_message X d (nr_message result)) (\<lambda>_.
     abind trim_provenance (\<lambda>_.
     abind (take_candidates d) (\<lambda>candidates.
     abind (awhen (n_type d = ''subpipeline'') (change_run (\<lambda>r. r\<lparr>r_child_id := []\<rparr>))) (\<lambda>_.
     look (\<lambda>s. aret ([own_attempt s, message_record (r_id (xs_run s)) (r_message (xs_run s))] @ candidates))))))))))"

section \<open>Routing the result\<close>

definition advance_run :: "execution_env \<Rightarrow> pipeline_definition \<Rightarrow> node_definition \<Rightarrow> string \<Rightarrow> bool ex" where
  "advance_run X p d condition =
     abind (on_world (draw_uuid (xe_runtime X))) (\<lambda>grp. look (\<lambda>s.
     case advance grp (xs_run s) p d condition of
       (res, r) \<Rightarrow> abind (change_run (\<lambda>_. r)) (\<lambda>_. alift res)))"

definition approval_branch :: "pipeline_definition \<Rightarrow> node_definition \<Rightarrow> bool result" where
  "approval_branch p d =
     foldM (\<lambda>e found. if e_from e \<noteq> n_id d then Inr found
              else case map_of (pl_nodes p) (e_to e) of
                     None \<Rightarrow> Inl InvalidArgument
                   | Some t \<Rightarrow> Inr (found \<or> n_type t = ''approval'')) (pl_edges p) False"

datatype routing = Waits | Goes bool "store_record list"

text \<open>The message record of the batch follows the message of the joined branches.\<close>

definition renew_message :: "run \<Rightarrow> store_record list \<Rightarrow> store_record list" where
  "renew_message r records =
     map (\<lambda>rec. if sr_kind rec = KMessage \<and> sr_id rec = m_id (r_message r)
                then rec\<lparr>sr_value := message_to_json (r_message r)\<rparr> else rec) records"

definition route_result :: "execution_env \<Rightarrow> pipeline_definition \<Rightarrow> node_definition \<Rightarrow> string \<Rightarrow> store_record list \<Rightarrow> routing ex" where
  "route_result X p d condition records =
     (if n_type d \<noteq> ''parallel'' then abind (advance_run X p d condition) (\<lambda>go. aret (Goes go records))
      else
        abind (alift (approval_branch p d)) (\<lambda>sequential.
        abind (advance_run X p d condition) (\<lambda>go.
        if sequential then
          look (\<lambda>s. case next_ready (xs_run s) of (go, r) \<Rightarrow> abind (change_run (\<lambda>_. r)) (\<lambda>_. aret (Goes go records)))
        else
          abind (execute_parallel X p) (\<lambda>waits.
          if waits then abind (x_checkpoint X ''node.completed'' records) (\<lambda>_. aret Waits)
          else look (\<lambda>s. aret (Goes go (renew_message (xs_run s) records)))))))"

text \<open>Whether the loop of the executor goes on; a result is kept even when it cannot be routed.\<close>

definition complete_node :: "execution_env \<Rightarrow> pipeline_definition \<Rightarrow> node_definition \<Rightarrow> node_result \<Rightarrow> bool ex" where
  "complete_node X p d result =
     abind (record_result X d result) (\<lambda>records.
     abind (acatch (route_result X p d (nr_condition result) records)
              (\<lambda>e. abind (x_checkpoint X ''node.completed'' records) (\<lambda>_. alift (Inl e)))) (\<lambda>routing.
     case routing of
       Waits \<Rightarrow> aret False
     | Goes go records \<Rightarrow>
         if \<not> go then abind (x_transition X RCompleted ''run.completed'' records) (\<lambda>_. aret False)
         else abind (x_checkpoint X ''node.completed'' records) (\<lambda>_. aret True)))"

text \<open>The attempts of a node, counted by those that are left.\<close>

primrec attempts :: "execution_env \<Rightarrow> pipeline_definition \<Rightarrow> node_definition \<Rightarrow> node_object \<Rightarrow> execution_context \<Rightarrow> bool \<Rightarrow> nat \<Rightarrow> bool ex" where
  "attempts X p d node c approval 0 = athrow Execution ''Node did not complete''"
| "attempts X p d node c approval (Suc left) =
     (let number = rp_max_attempts (n_retry d) - of_nat left; c = c\<lparr>cx_attempt := number\<rparr> in
      abind (begin_attempt X d number) (\<lambda>_.
      abind (guarded_attempt X p d node c approval) (\<lambda>tried.
      if tried = Tried Parked then aret False
      else
        abind (finish_attempt X) (\<lambda>_.
        case tried of
          Failure code detail \<Rightarrow>
            abind (end_waiting X d ''failed'') (\<lambda>_.
            abind (fail_attempt X code detail) (\<lambda>_.
            if code = Cancellation \<or> code = Timeout \<or> left = 0 then athrow code (failed_error code detail)
            else
              abind (x_transition X RRetrying ''node.retrying'' []) (\<lambda>_.
              abind (delay X c) (\<lambda>_.
              abind (x_transition X RRunning ''run.running'' []) (\<lambda>_.
              attempts X p d node c approval left)))))
        | Tried outcome \<Rightarrow>
            abind (end_waiting X d ''completed'') (\<lambda>_.
            case outcome of Parked \<Rightarrow> aret False | Produced result \<Rightarrow> complete_node X p d result)))))"

section \<open>The executor of a run\<close>

definition run_context :: "run \<Rightarrow> execution_context" where
  "run_context r =
     \<lparr>cx_run_id = r_id r, cx_pipeline_id = r_pipeline_id r, cx_node_id = r_active_node r, cx_stop = OfRun (r_id r),
      cx_attempt = 1, cx_visit = 1, cx_work_id = [], cx_work_attempt_id = [], cx_work_lease = None, cx_reports_job = False,
      cx_session_id = [], cx_session_context = None, cx_continuations = None\<rparr>"

definition show_bindings :: "execution_env \<Rightarrow> node_definition \<Rightarrow> unit ex" where
  "show_bindings X d =
     (let deps = xe_deps X in
      abind (change_run (\<lambda>r. r\<lparr>r_provider := [], r_model := [], r_tool := [], r_plugin := []\<rparr>)) (\<lambda>_.
      if n_type d = ''agent'' \<and> map_of (d_models deps) (n_binding d) \<noteq> None then
        let b = the (map_of (d_models deps) (n_binding d)) in
        change_run (\<lambda>r. r\<lparr>r_provider := mb_provider b, r_model := mb_model b\<rparr>)
      else if n_type d = ''tool'' then
        abind (change_run (\<lambda>r. r\<lparr>r_tool := n_binding d\<rparr>)) (\<lambda>_.
        abind (alift (get (n_binding d) (d_tools deps))) (\<lambda>m.
        change_run (\<lambda>r. r\<lparr>r_plugin := tm_plugin m\<rparr>)))
      else if n_type d = ''worker'' then
        (case d_workers deps of
           None \<Rightarrow> aret ()
         | Some workers \<Rightarrow>
             abind (alift (resolve_worker workers (n_binding d) (n_capability d))) (\<lambda>w.
             change_run (\<lambda>r. r\<lparr>r_worker := w\<rparr>)))
      else aret ()))"

definition join_ready :: "execution_env \<Rightarrow> node_definition \<Rightarrow> bool ex" where
  "join_ready X d =
     look (\<lambda>s. case prepare_join (xs_run s) d of
       (res, r, events) \<Rightarrow>
         abind (change_run (\<lambda>_. r)) (\<lambda>_.
         abind (afor events (\<lambda>e. x_checkpoint X e [])) (\<lambda>_. alift res)))"

text \<open>As \<open>wait_approval\<close>, on the run of the coroutine, under the mutex.\<close>

definition park_for_approval :: "execution_env \<Rightarrow> node_definition \<Rightarrow> string \<Rightarrow> unit ex" where
  "park_for_approval X d reason =
     abind (on_world (draw_approval (xe_runtime X))) (\<lambda>a.
     abind (on_world (draw_attempt (xe_runtime X))) (\<lambda>x.
     abind (change_run (\<lambda>r. r\<lparr>r_node_visits := snd (omap_emplace (n_id d) 0 (r_node_visits r))\<rparr>)) (\<lambda>_.
     look (\<lambda>s. let r = xs_run s in
       locked_transition X RWaitingApproval ''approval.requested''
         [approval_record (r_id r) (a\<lparr>ap_run_id := r_id r, ap_node_id := n_id d, ap_reason := reason,
            ap_action := n_type d @ '':'' @ n_binding d, ap_visit := the (map_of (r_node_visits r) (n_id d))\<rparr>),
          attempt_record (r_id r) (x\<lparr>x_run_id := r_id r, x_node_id := n_id d, x_state := NWaitingApproval\<rparr>)]))))"

text \<open>The check under the mutex, where nobody else acts.\<close>

definition locked_check :: "execution_env \<Rightarrow> execution_context \<Rightarrow> unit ex" where
  "locked_check X c =
     look (\<lambda>s. if stop_requested X (cx_stop c) s then athrow Cancellation ''Execution cancelled''
       else
         abind (xdraw (xe_expired X)) (\<lambda>late.
         if late then athrow Timeout ''Execution deadline exceeded'' else aret ()))"

definition execute_step :: "execution_env \<Rightarrow> pipeline_definition \<Rightarrow> node_definition \<Rightarrow> execution_context \<Rightarrow> bool ex" where
  "execute_step X p d c =
     look (\<lambda>s. let r = xs_run s in
       if r_steps r \<ge> pl_max_steps p then athrow Execution ''Pipeline step limit exceeded''
       else
         let c = c\<lparr>cx_visit := (case map_of (r_node_visits r) (n_id d) of None \<Rightarrow> 0 | Some n \<Rightarrow> n) + 1\<rparr> in
         abind (alift (permission (xe_json X) (xe_deps X) d r)) (\<lambda>(decision, reason).
         if decision = Deny then athrow Policy ''Operation denied by policy''
         else
           let asks = (n_type d = ''approval'' \<or> decision = RequireApproval) in
           abind (if asks then calling X (approved (xe_runtime X) r) else aret False) (\<lambda>approval.
           if asks \<and> \<not> approval then
             abind (meanwhile X) (\<lambda>_.
             abind (locked_check X c) (\<lambda>_.
             abind (park_for_approval X d (if n_type d = ''approval'' then n_reason d else reason)) (\<lambda>_. aret False)))
           else
             abind (alift (make_node (xe_deps X) d)) (\<lambda>node.
             attempts X p d node c approval (unat (rp_max_attempts (n_retry d)))))))"

text \<open>One round of the loop; \<open>False\<close> is the return of the coroutine.\<close>

definition execute_round :: "execution_env \<Rightarrow> pipeline_definition \<Rightarrow> bool ex" where
  "execute_round X p =
     abind (modify (\<lambda>s. s\<lparr>xs_recorded := False\<rparr>)) (\<lambda>_. look (\<lambda>s. let r = xs_run s in
     abind (session_part X r (run_context r)) (\<lambda>c.
     abind (check_context X c) (\<lambda>_.
     abind (node_of p (r_active_node r)) (\<lambda>d.
     abind (show_bindings X d) (\<lambda>_.
     abind (join_ready X d) (\<lambda>ready.
     if \<not> ready then aret True else execute_step X p d c)))))))"

primrec execute_loop :: "execution_env \<Rightarrow> pipeline_definition \<Rightarrow> nat \<Rightarrow> bool ex" where
  "execute_loop X p 0 = aret False"
| "execute_loop X p (Suc fuel) = abind (execute_round X p) (\<lambda>go. if go then execute_loop X p fuel else aret True)"

text \<open>Under the mutex; \<open>False\<close> when there is nothing to execute.\<close>

definition begin_execution :: "execution_env \<Rightarrow> bool ex" where
  "begin_execution X =
     abind (meanwhile X) (\<lambda>_. look (\<lambda>s.
     abind (on_world (get_run (xe_runtime X) (r_id (xs_run s)))) (\<lambda>current.
     if terminal (r_state current) then aret False
     else
       abind (change_run (\<lambda>_. current)) (\<lambda>_.
       if r_cancellation_requested current
       then abind (locked_transition X RCancelled ''run.cancelled'' []) (\<lambda>_. aret False)
       else
         abind (locked_transition X RStarting ''run.starting'' []) (\<lambda>_.
         abind (locked_transition X RRunning ''run.started'' []) (\<lambda>_.
         abind (reconcile_distributed_parallel X) (\<lambda>_. aret True)))))))"

definition cancel_child :: "execution_env \<Rightarrow> unit ex" where
  "cancel_child X =
     look (\<lambda>s. let cid = r_child_id (xs_run s) in
       awhen (cid \<noteq> [])
         (abind (on_world (get_run (xe_runtime X) cid)) (\<lambda>child.
          awhen (\<not> terminal (r_state child)) (on_world (cancel (xe_runtime X) (r_id child))))))"

definition failed_run :: "exn \<Rightarrow> run_state \<times> string \<times> string" where
  "failed_run e =
     (case e of
        Error Timeout _ \<Rightarrow> (RTimedOut, ''run.timed_out'', ''Execution deadline exceeded'')
      | Error Cancellation _ \<Rightarrow> (RCancelled, ''run.cancelled'', ''Execution cancelled'')
      | Error _ _ \<Rightarrow> (RFailed, ''run.failed'', ''Pipeline execution failed'')
      | _ \<Rightarrow> (RFailed, ''run.failed'', ''Unexpected pipeline failure''))"

definition execution_failed :: "execution_env \<Rightarrow> exn \<Rightarrow> unit ex" where
  "execution_failed X e =
     (case failed_run e of (state, type, text) \<Rightarrow>
        abind (meanwhile X) (\<lambda>_. look (\<lambda>s.
        abind (awhen (\<not> xs_recorded s)
                 (abind (xdraw (\<lambda>n. (new_attempt (re_uuid (xe_runtime X) n 0) (re_time (xe_runtime X) n 0), re_time (xe_runtime X) n 1))) (\<lambda>(x, now).
                  locked_checkpoint X ''node.failed'' [attempt_record (r_id (xs_run s))
                    (x\<lparr>x_run_id := r_id (xs_run s), x_node_id := r_active_node (xs_run s),
                       x_state := (case e of Error code _ \<Rightarrow> failed_state code | _ \<Rightarrow> NFailed),
                       x_finished_at := now, x_error := ''Node preparation failed''\<rparr>)]))) (\<lambda>_.
        abind (cancel_child X) (\<lambda>_.
        abind (change_run (\<lambda>r. r\<lparr>r_error := text\<rparr>)) (\<lambda>_.
        look (\<lambda>s. awhen (\<not> terminal (r_state (xs_run s))) (locked_transition X state type []))))))))"

text \<open>The coroutine of a run. \<open>False\<close> says only that the fuel has not been enough.\<close>

definition execute :: "execution_env \<Rightarrow> nat \<Rightarrow> bool ex" where
  "execute X fuel =
     look (\<lambda>s. let r = xs_run s in
       abind (alift (re_parse (xe_runtime X) (r_definition r))) (\<lambda>p.
       let p = p\<lparr>pl_resolved_subpipelines := r_resolved_subpipelines r\<rparr> in
       acatch (abind (begin_execution X) (\<lambda>go. if go then execute_loop X p fuel else aret True))
         (\<lambda>e. abind (execution_failed X e) (\<lambda>_. aret True))))"

definition start_execution :: "runtime \<Rightarrow> run \<Rightarrow> execution" where
  "start_execution w r =
     \<lparr>xs_world = w, xs_run = r, xs_recorded = False, xs_attempt = new_attempt [] [], xs_candidates = [],
      xs_parallel = new_parallel 0 0, xs_executed = []\<rparr>"

end
