(* ===== verification/Laso_Execution_Invariant.thy ===== *)
theory Laso_Execution_Invariant
  imports Laso_Execution Laso_Runtime_Records
begin

text \<open>
  What executors keep. The locale \<open>execution_frame\<close> asks of a predicate of the runtime that the operations of
  the rest of the process and the calls an executor makes keep it; then every node keeps it, with every
  predicate of what the branches of a group share. Its extension \<open>execution_world\<close> leaves the latter open and has whole
  executions, with every predicate of the local run and of the list of executed nodes that the parts respect. The predicates of
  the process and of the stored records of the runtime are instances.
\<close>

definition exec_inv ::
  "(runtime \<Rightarrow> bool) \<Rightarrow> (run \<Rightarrow> bool) \<Rightarrow> (executed list \<Rightarrow> bool) \<Rightarrow> (parallel_state \<Rightarrow> bool) \<Rightarrow>
   execution \<Rightarrow> bool" where
  "exec_inv W R L G s \<longleftrightarrow> W (xs_world s) \<and> R (xs_run s) \<and> L (xs_executed s) \<and> G (xs_parallel s)"

text \<open>The policy lets the node run, and what needs an approval has one.\<close>

definition gated :: "execution_env \<Rightarrow> node_definition \<Rightarrow> run \<Rightarrow> bool \<Rightarrow> bool" where
  "gated X d r approval \<longleftrightarrow>
     (case permission (xe_json X) (xe_deps X) d r of
        Inl _ \<Rightarrow> False
      | Inr (decision, _) \<Rightarrow> decision \<noteq> Deny \<and> (n_type d = ''approval'' \<or> decision = RequireApproval \<longrightarrow> approval))"

lemma permission_view: "r_message r' = r_message r \<Longrightarrow> r_pipeline_id r' = r_pipeline_id r \<Longrightarrow> permission J deps d r' = permission J deps d r"
  by (simp add: permission_def)

text \<open>
  When an attempt is in order: on the run's own path the policy permits the node on the run as it is; in a branch it
  permitted the node on the run as it arrived there, and the first attempt is made on the run as it arrived.
\<close>

fun permitted_entry :: "execution_env \<Rightarrow> executed \<Rightarrow> bool" where
  "permitted_entry X (OnPath d r approval) = gated X d r approval"
| "permitted_entry X (InBranch d a r k) =
     (gated X d a False \<and> r_active_node r = r_active_node a \<and> r_pipeline_id r = r_pipeline_id a \<and> (k = 1 \<longrightarrow> gated X d r False))"

definition log_closed :: "execution_env \<Rightarrow> (executed list \<Rightarrow> bool) \<Rightarrow> bool" where
  "log_closed X L \<longleftrightarrow> (\<forall>e cs. permitted_entry X e \<longrightarrow> L cs \<longrightarrow> L (cs @ [e]))"

lemma log_closed_simps [simp]: "log_closed X (\<lambda>_. True)" "log_closed X (list_all (permitted_entry X))"
  by (simp_all add: log_closed_def)

text \<open>What holds of a branch in each phase of an attempt: the node it stands at was permitted when it arrived.\<close>

definition at_node :: "execution_env \<Rightarrow> pipeline_definition \<Rightarrow> run \<Rightarrow> nat \<Rightarrow> run \<Rightarrow> bool" where
  "at_node X p a k r \<longleftrightarrow>
     0 < k \<and> r_active_node r = r_active_node a \<and> r_pipeline_id r = r_pipeline_id a \<and>
     (\<exists>d. map_of (pl_nodes p) (r_active_node r) = Some d \<and> gated X d a False)"

fun branch_ready :: "execution_env \<Rightarrow> pipeline_definition \<Rightarrow> branch_phase \<Rightarrow> run \<Rightarrow> bool" where
  "branch_ready X p (Attempting a k) r = (at_node X p a k r \<and> (k = 1 \<longrightarrow> r_message r = r_message a))"
| "branch_ready X p (Executing a k) r = (at_node X p a k r \<and> (k = 1 \<longrightarrow> r_message r = r_message a))"
| "branch_ready X p (Polling a k child_id n) r = at_node X p a k r"
| "branch_ready X p (Finishing a k result) r = at_node X p a k r"
| "branch_ready X p _ r = True"

lemma aret_Inr: "aret x s = (Inr y, s') \<longleftrightarrow> y = x \<and> s' = s"
  by (auto simp: aret_def)

lemma node_of_Inr: "node_of p nid s = (Inr d, s') \<longleftrightarrow> map_of (pl_nodes p) nid = Some d \<and> s' = s"
  by (auto simp: node_of_def alift_def split: option.splits)

lemma branch_arrives_result:
  assumes "branch_arrives X p b s = (Inr ph, s')"
  shows "ph = Ended \<or> ph = Attempting (xs_run s) 1 \<and>
    (\<exists>d. map_of (pl_nodes p) (r_active_node (xs_run s)) = Some d \<and> gated X d (xs_run s) False)"
  using assms unfolding branch_arrives_def look_def
  by (auto simp: abind_Inr node_of_Inr alift_def aret_def athrow_def gated_def split: if_splits)

lemma attempting_result:
  assumes "attempting X p b a k m s = (Inr ph, s')" and "\<And>d s1 ph s2. m d s1 = (Inr ph, s2) \<Longrightarrow> Q ph" and "Q (Attempting a (Suc k))"
  shows "Q ph"
proof -
  have retry: "ph' = Attempting a (Suc k)" if "branch_retries X b d a k code t s1 = (Inr ph', s2)" for d code t s1 s2 ph'
    using that unfolding branch_retries_def look_def
    by (auto simp: abind_Inr aret_def athrow_def alift_def Let_def split: if_splits)
  from assms(1) have "(\<exists>d s1 s2. m d s1 = (Inr ph, s2)) \<or> (\<exists>d code t s1 s2. branch_retries X b d a k code t s1 = (Inr ph, s2))"
    unfolding attempting_def look_def abind_Inr atry_Inr aret_Inr by blast
  with assms(2,3) retry show ?thesis by blast
qed

lemma branch_phase_results:
  "branch_begins X p b a k s = (Inr ph, s') \<Longrightarrow> ph = Executing a k"
  "branch_executes X p b d a k s = (Inr ph, s') \<Longrightarrow> (\<exists>child_id n. ph = Polling a k child_id n) \<or> (\<exists>result. ph = Finishing a k result)"
  "branch_polls X b d a k child_id n s = (Inr ph, s') \<Longrightarrow> (\<exists>child_id n. ph = Polling a k child_id n) \<or> (\<exists>result. ph = Finishing a k result)"
  "branch_finishes X p b d a k result s = (Inr ph, s') \<Longrightarrow> ph = Arriving"
  unfolding branch_begins_def branch_executes_def branch_polls_def branch_finishes_def look_def Let_def
  by (auto simp: abind_Inr aret_def athrow_def alift_def split: if_splits)

lemma branch_of_arriving: "branch_of X p levels session_id token s = (Inr br, s') \<Longrightarrow> br_phase br = Arriving"
  by (auto simp: branch_of_def abind_Inr aret_def)

lemma branches_arriving:
  "afold (\<lambda>token brs. abind (branch_of X p levels session_id token) (\<lambda>br. aret (brs @ [br]))) tokens brs s = (Inr brs', s') \<Longrightarrow>
   list_all (\<lambda>br. br_phase br = Arriving) brs \<Longrightarrow> list_all (\<lambda>br. br_phase br = Arriving) brs'"
proof (induction tokens arbitrary: brs s)
  case (Cons token tokens)
  from Cons.prems(1) obtain br s1 where br: "branch_of X p levels session_id token s = (Inr br, s1)"
    and rest: "afold (\<lambda>token brs. abind (branch_of X p levels session_id token) (\<lambda>br. aret (brs @ [br]))) tokens (brs @ [br]) s1 = (Inr brs', s')"
    by (auto simp: abind_Inr aret_Inr)
  from Cons.IH [OF rest] Cons.prems(2) branch_of_arriving [OF br] show ?case by simp
qed (simp add: aret_def)

text \<open>Predicates of the local run that do not see the fields an attempt changes.\<close>

definition steady :: "(run \<Rightarrow> bool) \<Rightarrow> bool" where
  "steady R \<longleftrightarrow>
     (\<forall>r. R r \<longrightarrow>
       (\<forall>b. R (r\<lparr>r_cancellation_requested := b\<rparr>)) \<and> (\<forall>t. R (r\<lparr>r_updated_at := t\<rparr>)) \<and> (\<forall>st. R (r\<lparr>r_state := st\<rparr>)) \<and>
       (\<forall>v. R (r\<lparr>r_node_visits := v\<rparr>)) \<and> (\<forall>c. R (r\<lparr>r_child_id := c\<rparr>)) \<and> (\<forall>t. R (r\<lparr>r_error := t\<rparr>)) \<and>
       (\<forall>a b c d. R (r\<lparr>r_child_id := a, r_child_pipeline_id := b, r_child_pipeline_version := c, r_child_runs := d\<rparr>)))"

lemma steadyD:
  assumes "steady R" and "R r"
  shows "R (r\<lparr>r_cancellation_requested := b\<rparr>)" and "R (r\<lparr>r_updated_at := t\<rparr>)" and "R (r\<lparr>r_state := st\<rparr>)"
    and "R (r\<lparr>r_node_visits := v\<rparr>)" and "R (r\<lparr>r_child_id := a\<rparr>)" and "R (r\<lparr>r_error := t\<rparr>)"
    and "R (r\<lparr>r_child_id := a, r_child_pipeline_id := b', r_child_pipeline_version := c, r_child_runs := d\<rparr>)"
  using assms unfolding steady_def by blast+

text \<open>What a checkpoint does to the run it stores.\<close>

lemma merged_run: "merge_cancellation E r w = (Inr r', w') \<Longrightarrow> \<exists>b. r' = r\<lparr>r_cancellation_requested := b\<rparr>"
  by (auto simp: merge_cancellation_def atry_Inr aret_def athrow_def alift_def split: if_splits)
    (metis run.surjective run.update_convs(35))

lemma stored_run: "store_checkpoint E type records r w = (Inr r', w') \<Longrightarrow> \<exists>t. r' = r\<lparr>r_updated_at := t\<rparr>"
  by (auto simp: store_checkpoint_def abind_Inr aret_def Let_def)

text \<open>On the runtime, a checkpoint of the local run is the checkpoint of the service.\<close>

lemma locked_checkpoint_world:
  "xs_world (snd (locked_checkpoint X type records s)) = snd (checkpoint (xe_runtime X) (xs_run s) type records (xs_world s))"
  by (auto simp: locked_checkpoint_def checkpoint_def look_def abind_def on_world_def modify_def Let_def
      split: prod.split sum.split)

lemma locked_checkpoint_run:
  assumes "steady R" and "R (xs_run s)"
  shows "R (xs_run (snd (locked_checkpoint X type records s)))"
proof -
  note unfolded = locked_checkpoint_def look_def abind_def on_world_def modify_def Let_def
  obtain x w1 where 1: "settle_continuations (xe_runtime X) (xs_run s) records (xs_world s) = (x, w1)" by fastforce
  show ?thesis
  proof (cases x)
    case (Inr recs)
    obtain y w2 where 2: "merge_cancellation (xe_runtime X) (xs_run s) w1 = (y, w2)" by fastforce
    show ?thesis
    proof (cases y)
      case merged: (Inr r1)
      obtain z w3 where 3: "store_checkpoint (xe_runtime X) type recs r1 w2 = (z, w3)" by fastforce
      have r1: "R r1" using merged_run 2 merged steadyD(1) [OF assms] by blast
      then show ?thesis
      proof (cases z)
        case stored: (Inr r2)
        then have "R r2" using stored_run 3 steadyD(2) [OF assms(1) r1] by blast
        with 1 2 3 Inr merged stored show ?thesis by (simp add: unfolded)
      qed (use 1 2 3 Inr merged in \<open>simp add: unfolded\<close>)
    qed (use 1 2 Inr assms(2) in \<open>simp add: unfolded\<close>)
  qed (use 1 assms(2) in \<open>simp add: unfolded\<close>)
qed

lemma locked_checkpoint_executed:
  "xs_executed (snd (locked_checkpoint X type records s)) = xs_executed s \<and>
   xs_parallel (snd (locked_checkpoint X type records s)) = xs_parallel s"
  by (auto simp: locked_checkpoint_def look_def abind_def on_world_def modify_def Let_def split: prod.split sum.split)

locale execution_frame =
  fixes X :: execution_env and W :: "runtime \<Rightarrow> bool" and allowed :: "store_record \<Rightarrow> bool" and C :: "run \<Rightarrow> bool"
    and G :: "parallel_state \<Rightarrow> bool"
  assumes others_kept: "W w \<Longrightarrow> W (fold (runtime_step (xe_runtime X)) (xe_others X n) w)"
    and tick_kept: "W w \<Longrightarrow> W (w\<lparr>rt_tick := m\<rparr>)"
    and database_kept:
      "W w \<Longrightarrow> re_others (xe_runtime X) n (rt_db w, rt_coord w) = (db, co) \<Longrightarrow> W (w\<lparr>rt_db := db, rt_coord := co, rt_tick := m\<rparr>)"
    and commit_kept: "list_all allowed records \<Longrightarrow> keeps W (db_commit (xe_runtime X) records)"
    and owned_kept: "list_all allowed records \<Longrightarrow> keeps W (db_commit_owned (xe_runtime X) records key owner fence)"
    and start_kept: "keeps W (start_run (xe_runtime X) q)"
    and cancel_kept: "keeps W (cancel (xe_runtime X) rid)"
    and checkpoint_kept: "C r \<Longrightarrow> list_all allowed records \<Longrightarrow> keeps W (checkpoint (xe_runtime X) r type records)"
    and other_allowed: "sr_kind rec \<notin> {KRun, KApproval} \<Longrightarrow> allowed rec"
    and approval_allowed: "ap_id a = re_uuid (xe_runtime X) n 0 \<Longrightarrow> allowed (approval_record k a)"
    and same_id: "C r \<Longrightarrow> r_id r' = r_id r \<Longrightarrow> C r'"
    and spawn_kept: "W w \<Longrightarrow> W (w\<lparr>rt_spawned := rt_spawned w @ [LocalBranch rid]\<rparr>)"
    and open_checkpointed: "W w \<Longrightarrow> get_run (xe_runtime X) rid w = (Inr r, w') \<Longrightarrow> \<not> terminal (r_state r) \<Longrightarrow> C r"
begin

abbreviation kept :: "(run \<Rightarrow> bool) \<Rightarrow> (executed list \<Rightarrow> bool) \<Rightarrow> 'a ex \<Rightarrow> bool" where
  "kept R L m \<equiv> keeps (exec_inv W R L G) m"

section \<open>Calls of the runtime\<close>

lemma world_draw: "keeps W (draw f)"
  by (auto simp: keeps_def draw_def tick_kept)

lemma world_database: "(\<And>n. keeps W (f n)) \<Longrightarrow> keeps W (at_database (xe_runtime X) f)"
  by (auto simp: keeps_def at_database_def Let_def split: prod.split intro: database_kept)

lemma world_reading: "keeps W (at_database (xe_runtime X) (\<lambda>n w. (f n w, w)))"
  by (rule world_database) (simp add: keeps_def)

lemma world_calls:
  "keeps W (db_get (xe_runtime X) kind rid)" "keeps W (db_list (xe_runtime X) kind run_id limit offset)"
  "keeps W (draw_uuid (xe_runtime X))" "keeps W (draw_time (xe_runtime X))" "keeps W (draw_attempt (xe_runtime X))"
  "keeps W (draw_approval (xe_runtime X))"
  unfolding db_get_def db_list_def draw_uuid_def draw_time_def draw_attempt_def draw_approval_def
  by (rule world_reading world_draw)+

lemma world_records:
  "keeps W (get_run (xe_runtime X) rid)" "keeps W (decode_node_work (xe_runtime X) v)" "keeps W (get_node_work (xe_runtime X) rid)"
  unfolding get_run_def decode_node_work_def get_node_work_def
  by (intro keeps_rules world_calls world_draw)+

lemma world_list_every: "keeps W (list_every (xe_runtime X) kind run_id)"
proof -
  have "keeps W (list_from (xe_runtime X) kind run_id offset)" for offset
  proof (induction offset rule: measure_induct_rule [of "\<lambda>offset. 100010000 - offset"])
    case (less offset)
    show ?case by (subst list_from.simps) (intro keeps_rules world_calls less, auto)
  qed
  then show ?thesis unfolding list_every_def .
qed

lemma world_approved: "keeps W (approved (xe_runtime X) r)"
  unfolding approved_def by (intro keeps_rules world_list_every)

lemma world_group_works: "keeps W (group_works (xe_runtime X) grp vs)"
  by (induction vs) (auto intro!: keeps_rules world_records)

lemmas world_parts = world_draw world_reading world_calls world_records world_list_every world_approved world_group_works
  start_kept cancel_kept

lemma kept_on_world: "keeps W m \<Longrightarrow> kept R L (on_world m)"
  by (auto simp: keeps_def exec_inv_def on_world_def Let_def split: prod.split)

lemma kept_meanwhile: "kept R L (meanwhile X)"
  by (auto simp: keeps_def exec_inv_def meanwhile_def modify_def Let_def intro: tick_kept others_kept)

lemma kept_calling: "keeps W m \<Longrightarrow> kept R L (calling X m)"
  unfolding calling_def by (intro keeps_rules kept_meanwhile kept_on_world)

lemma kept_draw: "kept R L (xdraw f)" "kept R L (ask g)"
  unfolding xdraw_def ask_def by (intro keeps_rules kept_on_world world_draw)+

lemma kept_attempt: "kept R L (change_attempt f)"
  by (simp add: keeps_def change_attempt_def modify_def exec_inv_def)

lemma kept_local:
  "(\<And>s. xs_world (f s) = xs_world s \<and> xs_run (f s) = xs_run s \<and> xs_executed (f s) = xs_executed s \<and> xs_parallel (f s) = xs_parallel s) \<Longrightarrow>
   kept R L (modify f)"
  by (simp add: keeps_def modify_def exec_inv_def)

lemma kept_run: "(\<And>r. R r \<Longrightarrow> R (f r)) \<Longrightarrow> kept R L (change_run f)"
  by (simp add: keeps_def change_run_def modify_def exec_inv_def)

lemma kept_sum: "(\<And>a. x = Inl a \<Longrightarrow> kept R L (f a)) \<Longrightarrow> (\<And>b. x = Inr b \<Longrightarrow> kept R L (g b)) \<Longrightarrow> kept R L (case x of Inl a \<Rightarrow> f a | Inr b \<Rightarrow> g b)"
  by (cases x) simp_all

lemmas kept_parts = keeps_rules kept_sum kept_meanwhile kept_draw kept_attempt

section \<open>Nodes\<close>

lemma kept_check: "kept R L (check_context X c)" "kept R L (locked_check X c)"
  unfolding check_context_def locked_check_def by (intro kept_parts)+

lemma kept_polls: "kept R L m \<Longrightarrow> kept R L (polls n m)"
  by (induction n) (auto intro: keeps_rules)

lemma kept_waits: "kept R L (delay X c)" "kept R L (acquire_permit X c)"
  unfolding delay_def acquire_permit_def by (intro kept_parts kept_polls kept_check)+

lemma kept_stage: "kept R L (stage_provider_continuation k)"
  unfolding stage_provider_continuation_def by (intro kept_parts kept_local) simp

lemma kept_external: "kept R L (external X c f)"
  unfolding external_def by (intro kept_parts kept_stage)

lemma kept_continuation: "kept R L (load_provider_continuation X c snapshot provider_id)"
  unfolding load_provider_continuation_def read_continuation_def by (intro kept_parts kept_calling world_parts)

lemma kept_persist: "list_all allowed records \<Longrightarrow> kept R L (persist_branch X c records)"
  unfolding persist_branch_def by (intro kept_calling keeps_option owned_kept commit_kept)

lemma attempt_allowed: "allowed (attempt_record k x)" "allowed (message_record k m)" "allowed (work_record w)"
  "allowed (candidate_record r pk)"
  by (rule other_allowed, simp add: attempt_record_def message_record_def work_record_def candidate_record_def split: prod.split)+

lemma kept_job_started: "kept R L (worker_job_started X c jid)"
  unfolding worker_job_started_def by (intro kept_parts kept_persist kept_local) (simp_all add: attempt_allowed)

lemma kept_schema: "kept R L (validate_schema X schema payload subject direction)"
  unfolding validate_schema_def by (rule kept_draw)

lemmas kept_node_parts = kept_parts kept_check kept_waits kept_stage kept_external kept_continuation kept_job_started kept_schema
  kept_on_world [OF world_calls(3)] kept_on_world [OF world_calls(4)]

lemma kept_simple_nodes:
  "kept R L (passthrough X c m)" "kept R L (loop_node X c n m)" "kept R L (function_node X c binding m)"
  "kept R L (tool_node X c tool m)" "kept R L (router_node X c v d m)" "kept R L (validator_node X c d m)"
proof -
  show router: "kept R L (router_node X c v d m)" for v
    unfolding router_node_def Let_def by (intro kept_node_parts)
  show "kept R L (validator_node X c d m)"
    unfolding validator_node_def by (intro kept_node_parts router)
qed (unfold passthrough_def loop_node_def function_node_def tool_node_def; intro kept_node_parts)+

lemma kept_agent: "kept R L (agent_node X c p binding prompt m)"
  unfolding agent_node_def agent_continuation_def keep_agent_continuation_def Let_def by (intro kept_node_parts)

lemma kept_give_up: "kept R L (give_up_job X jid code text)"
  unfolding give_up_job_def by (intro kept_node_parts)

lemma kept_completed: "kept R L (worker_completed X c d worker_id meta m job)"
  unfolding worker_completed_def keep_worker_continuation_def by (intro kept_node_parts)

lemma kept_job_ended: "kept R L (job_ended X c d worker_id meta m job)"
  unfolding job_ended_def by (auto split: worker_job_state.split intro!: kept_node_parts kept_completed)

lemma kept_await_worker: "kept R L (await_worker X c d worker_id meta m k jid)"
proof (induction k arbitrary: jid)
  case (Suc k)
  show ?case
    unfolding await_worker.simps by (intro kept_node_parts kept_give_up kept_job_ended Suc)
qed (simp add: kept_give_up)

lemma kept_worker: "kept R L (worker_node X c d worker_id m)"
  unfolding worker_node_def worker_continuation_def run_job_def Let_def
  by (intro kept_node_parts kept_give_up kept_await_worker)

lemma kept_execute_node: "kept R L (execute_node X c d node m)"
  unfolding execute_node_def
  by (cases node) (simp_all add: kept_simple_nodes kept_agent kept_worker kept_external)

section \<open>Branches\<close>

abbreviation any_run :: "run \<Rightarrow> bool" where
  "any_run \<equiv> \<lambda>_. True"

lemma kept_any_run: "kept any_run L (change_run f)"
  by (rule kept_run) simp

lemma kept_finish: "kept R L (finish_attempt X)"
  unfolding finish_attempt_def by (intro kept_parts)

lemma kept_output: "kept R L (check_output X p d c result)"
  unfolding check_output_def by (intro kept_node_parts)

lemma kept_node_of: "kept R L (node_of p nid)"
  unfolding node_of_def by (rule keeps_rules)

lemma kept_launch: "kept R L (launch_child X p d origin)"
  unfolding launch_child_def Let_def by (intro kept_parts kept_calling world_parts)

lemmas kept_branch_parts = kept_node_parts kept_any_run kept_finish kept_output kept_node_of kept_launch kept_execute_node

lemma kept_spawned: "kept R L (on_world (spawn (LocalBranch rid)))"
  by (rule kept_on_world) (auto simp: keeps_def spawn_def modify_def intro: spawn_kept)

lemma kept_branch_begins: "kept R L (branch_begins X p b a k)"
  unfolding branch_begins_def
  by (intro kept_branch_parts kept_persist kept_on_world world_parts) (simp add: own_attempt_def attempt_allowed)

lemma kept_branch_polls: "kept R L (branch_polls X b d a k child_id n)"
  unfolding branch_polls_def Let_def by (intro kept_branch_parts kept_calling world_parts)

lemma kept_branch_executes:
  assumes "\<And>r cs. R r \<Longrightarrow> L cs \<Longrightarrow> L (cs @ [InBranch d a r k])"
  shows "kept R L (branch_executes X p b d a k)"
proof -
  have "kept R L (modify (\<lambda>s. s\<lparr>xs_executed := xs_executed s @ [InBranch d a (xs_run s) k]\<rparr>))"
    by (rule keeps_modify) (simp add: exec_inv_def assms)
  then show ?thesis
    unfolding branch_executes_def child_attempt_def Let_def by (intro kept_branch_parts)
qed

lemma kept_branch_route: "kept any_run L (branch_route p d condition)"
  unfolding branch_route_def Let_def by (auto split: list.split intro!: kept_branch_parts)

lemma kept_branch_finishes: "kept any_run L (branch_finishes X p b d a k result)"
  unfolding branch_finishes_def count_visit_def adopt_message_def Let_def
  by (intro kept_branch_parts kept_persist kept_branch_route) (simp add: own_attempt_def attempt_allowed)

lemma kept_branch_retries: "kept R L (branch_retries X b d a k code text)"
  unfolding branch_retries_def Let_def
  by (intro kept_branch_parts kept_persist) (simp add: own_attempt_def attempt_allowed)

end

text \<open>Without an eye on what the branches of a group share.\<close>

locale execution_world = execution_frame +
  assumes any_parallel: "G ps"
begin

lemma kept_parallel: "kept R L (change_parallel f)"
  by (simp add: keeps_def change_parallel_def modify_def exec_inv_def any_parallel)

lemma kept_branch_arrives: "kept R L (branch_arrives X p b)"
  unfolding branch_arrives_def arrive_at_join_def take_step_def Let_def by (intro kept_branch_parts kept_parallel)

text \<open>The steps of a branch that leave its run as it is.\<close>

lemma ready_step:
  assumes "\<And>s :: execution. branch_ready X p ph (xs_run s) \<Longrightarrow> kept (\<lambda>r. r = xs_run s) L m"
    and "\<And>(s :: execution) ph' s'. branch_ready X p ph (xs_run s) \<Longrightarrow> m s = (Inr ph', s') \<Longrightarrow> branch_ready X p ph' (xs_run s)"
  shows "valid (exec_inv W (branch_ready X p ph) L G) m (\<lambda>ph'. exec_inv W (branch_ready X p ph') L G) (exec_inv W any_run L G)"
proof (rule validI)
  fix s res s'
  assume s: "exec_inv W (branch_ready X p ph) L G s"
  then have ready: "branch_ready X p ph (xs_run s)" and now: "exec_inv W (\<lambda>r. r = xs_run s) L G s" by (simp_all add: exec_inv_def)
  have after: "exec_inv W (\<lambda>r. r = xs_run s) L G s'" if "m s = (res, s')" for res s'
    using keepsD [OF assms(1) [OF ready] now] that by simp
  show "exec_inv W (branch_ready X p ph') L G s'" if "m s = (Inr ph', s')" for ph' s'
    using after [OF that] assms(2) [OF ready that] by (simp add: exec_inv_def)
  show "exec_inv W any_run L G s'" if "m s = (Inl e, s')" for e s'
    using after [OF that] by (simp add: exec_inv_def)
qed

lemma valid_kept_then: "keeps P m \<Longrightarrow> (\<And>x. valid P (f x) Q Y) \<Longrightarrow> (\<And>s. P s \<Longrightarrow> Y s) \<Longrightarrow> valid P (abind m f) Q Y"
  by (rule valid_abind [where Q = "\<lambda>_. P"], rule valid_weaken [where P = P and Q = "\<lambda>_. P" and X = P]) (simp_all add: keeps_valid)

text \<open>A result that cannot be routed leaves the branch at its node.\<close>

lemma finishing_stays:
  fixes r0 :: run
  defines "R \<equiv> \<lambda>r. r_active_node r = r_active_node r0 \<and> r_pipeline_id r = r_pipeline_id r0"
  shows "valid (exec_inv W R L G) (branch_finishes X p b d a k result) (\<lambda>_. exec_inv W any_run L G) (exec_inv W R L G)"
proof -
  have route: "valid (exec_inv W R L G) (branch_route p d c) (\<lambda>_. exec_inv W any_run L G) (exec_inv W R L G)" for c
    by (auto simp: valid_def branch_route_def look_def abind_def awhen_def change_run_def modify_def athrow_def alift_def aret_def
        exec_inv_def R_def Let_def split: list.split)
  have ending: "valid (exec_inv W R L G) (abind (branch_route p d c) (\<lambda>_. aret Arriving)) (\<lambda>_. exec_inv W any_run L G) (exec_inv W R L G)" for c
    by (rule valid_abind [OF route]) (simp add: valid_def aret_def)
  have changes: "kept R L (count_visit d)" "kept R L (adopt_message X d m)" for m
    unfolding count_visit_def adopt_message_def Let_def by (intro kept_node_parts kept_run; simp add: R_def)+
  show ?thesis
    unfolding branch_finishes_def Let_def
    by (rule valid_look, rule valid_weaken [where P = "exec_inv W R L G" and Q = "\<lambda>_. exec_inv W any_run L G" and X = "exec_inv W R L G"])
      (auto intro!: valid_kept_then kept_branch_parts changes kept_persist ending
        simp: own_attempt_def attempt_allowed)
qed

lemma branch_steps_ready:
  assumes "log_closed X L"
  shows "valid (exec_inv W (branch_ready X p ph) L G) (branch_step X p b ph) (\<lambda>ph'. exec_inv W (branch_ready X p ph') L G)
    (exec_inv W any_run L G)"
proof (cases ph)
  case Arriving
  show ?thesis
    unfolding Arriving branch_step_def branch_phase.case
    by (rule ready_step) (auto intro: kept_branch_arrives dest!: branch_arrives_result simp: at_node_def)
next
  case (Attempting a k)
  show ?thesis
    unfolding Attempting branch_step_def branch_phase.case
    by (rule ready_step) (auto intro: kept_branch_begins dest!: branch_phase_results(1))
next
  case (Executing a k)
  show ?thesis
    unfolding Executing branch_step_def branch_phase.case
  proof (rule ready_step)
    fix s :: execution
    assume ready: "branch_ready X p (Executing a k) (xs_run s)"
    then obtain d where d: "map_of (pl_nodes p) (r_active_node (xs_run s)) = Some d" "gated X d a False" by (auto simp: at_node_def)
    have "gated X d (xs_run s) False" if "k = 1"
      using ready that d(2) permission_view [of "xs_run s" a] by (simp add: gated_def at_node_def)
    with ready d have entry: "permitted_entry X (InBranch d a (xs_run s) k)" by (simp add: at_node_def)
    show "kept (\<lambda>r. r = xs_run s) L (attempting X p b a k (\<lambda>d. branch_executes X p b d a k))"
    proof (unfold attempting_def, rule keeps_look, rule keeps_abind_result [OF kept_node_of])
      fix s1 d' s2 s3
      assume "exec_inv W (\<lambda>r. r = xs_run s) L G s1" "node_of p (r_active_node (xs_run s1)) s2 = (Inr d', s3)"
      with d have "d' = d" by (simp add: exec_inv_def node_of_Inr)
      then show "kept (\<lambda>r. r = xs_run s) L (atry (branch_executes X p b d' a k) aret (branch_retries X b d' a k))"
        using entry assms by (intro keeps_rules kept_branch_executes kept_branch_retries) (auto simp: log_closed_def)
    qed
    show "branch_ready X p ph' (xs_run s)" if "attempting X p b a k (\<lambda>d. branch_executes X p b d a k) s = (Inr ph', s')" for ph' s'
      using that by (rule attempting_result) (use ready in \<open>auto simp: at_node_def dest!: branch_phase_results(2)\<close>)
  qed
next
  case (Polling a k child_id n)
  show ?thesis
    unfolding Polling branch_step_def branch_phase.case
  proof (rule ready_step)
    fix s :: execution
    assume ready: "branch_ready X p (Polling a k child_id n) (xs_run s)"
    show "kept (\<lambda>r. r = xs_run s) L (attempting X p b a k (\<lambda>d. branch_polls X b d a k child_id n))"
      unfolding attempting_def by (intro kept_branch_parts kept_branch_polls kept_branch_retries)
    show "branch_ready X p ph' (xs_run s)" if "attempting X p b a k (\<lambda>d. branch_polls X b d a k child_id n) s = (Inr ph', s')" for ph' s'
      using that by (rule attempting_result) (use ready in \<open>auto simp: at_node_def dest!: branch_phase_results(3)\<close>)
  qed
next
  case (Finishing a k result)
  show ?thesis
    unfolding Finishing branch_step_def branch_phase.case
  proof (rule validI)
    fix s :: execution
    assume s: "exec_inv W (branch_ready X p (Finishing a k result)) L G s"
    let ?R = "\<lambda>r. r_active_node r = r_active_node (xs_run s) \<and> r_pipeline_id r = r_pipeline_id (xs_run s)"
    let ?m = "attempting X p b a k (\<lambda>d. branch_finishes X p b d a k result)"
    have stays: "valid (exec_inv W ?R L G) ?m (\<lambda>ph' s'. exec_inv W any_run L G s' \<and> (ph' \<noteq> Arriving \<longrightarrow> ?R (xs_run s')))
        (exec_inv W any_run L G)"
    proof -
      have retry: "valid (exec_inv W ?R L G) (branch_retries X b d a k code t)
          (\<lambda>ph' s'. exec_inv W any_run L G s' \<and> (ph' \<noteq> Arriving \<longrightarrow> ?R (xs_run s'))) (exec_inv W any_run L G)" for d code t
        by (rule valid_weaken [OF kept_branch_retries [of ?R L, unfolded keeps_valid]]) (auto simp: exec_inv_def)
      have finish: "valid (exec_inv W ?R L G) (branch_finishes X p b d a k result)
          (\<lambda>ph' s'. exec_inv W any_run L G s' \<and> ph' = Arriving) (exec_inv W ?R L G)" for d
        by (rule validI) (use finishing_stays [of "xs_run s" L p b d a k result] in
            \<open>auto dest: branch_phase_results(4) validD(1) validD(2)\<close>)
      have "valid (exec_inv W ?R L G) (atry (branch_finishes X p b d a k result) aret (branch_retries X b d a k))
          (\<lambda>ph' s'. exec_inv W any_run L G s' \<and> (ph' \<noteq> Arriving \<longrightarrow> ?R (xs_run s'))) (exec_inv W any_run L G)" for d
        by (rule valid_atry [OF finish _ retry]) (auto simp: valid_def aret_def exec_inv_def)
      then have body: "valid (exec_inv W ?R L G) (abind (node_of p nid) (\<lambda>d. atry (branch_finishes X p b d a k result) aret (branch_retries X b d a k)))
          (\<lambda>ph' s'. exec_inv W any_run L G s' \<and> (ph' \<noteq> Arriving \<longrightarrow> ?R (xs_run s'))) (exec_inv W any_run L G)" for nid
        by (rule valid_kept_then [OF kept_node_of]) (simp add: exec_inv_def)
      show ?thesis
        unfolding attempting_def by (rule valid_look, rule valid_weaken [OF body]) simp_all
    qed
    have now: "exec_inv W ?R L G s" and ready: "at_node X p a k (xs_run s)" using s by (simp_all add: exec_inv_def)
    show "exec_inv W (branch_ready X p ph') L G s'" if m: "?m s = (Inr ph', s')" for ph' s'
    proof -
      have "ph' = Arriving \<or> ph' = Attempting a (Suc k)"
        using m by (rule attempting_result) (auto dest: branch_phase_results(4))
      with validD(1) [OF stays now m] ready show ?thesis by (auto simp: exec_inv_def at_node_def)
    qed
    show "exec_inv W any_run L G s'" if "?m s = (Inl e, s')" for e s'
      using validD(2) [OF stays now that] .
  qed
next
  case Ended
  show ?thesis
    unfolding Ended branch_step_def branch_phase.case by (simp add: valid_def aret_def)
qed

lemma guarded_step_ready:
  assumes "log_closed X L" and "branch_ready X p ph (xs_run s)" and "exec_inv W any_run L G s"
  obtains ph' s' where "guarded_step X p b ph s = (Inr ph', s')" and "exec_inv W any_run L G s'" and "branch_ready X p ph' (xs_run s')"
proof -
  have s: "exec_inv W (branch_ready X p ph) L G s" using assms(2,3) by (simp add: exec_inv_def)
  obtain res s1 where step: "branch_step X p b ph s = (res, s1)" by fastforce
  show thesis
  proof (cases res)
    case (Inl e)
    have "exec_inv W any_run L G s1" using validD(2) [OF branch_steps_ready [OF assms(1)] s] step Inl by blast
    with step Inl have "\<exists>s2. guarded_step X p b ph s = (Inr Ended, s2) \<and> exec_inv W any_run L G s2"
      by (simp add: guarded_step_def acatch_def branch_failed_def change_parallel_def modify_def abind_def aret_def
          exec_inv_def any_parallel)
    then show thesis by (auto intro: that)
  next
    case (Inr ph')
    then have "exec_inv W (branch_ready X p ph') L G s1"
      using validD(1) [OF branch_steps_ready [OF assms(1)] s] step by blast
    with step Inr show thesis by (intro that [of ph' s1]) (auto simp: guarded_step_def acatch_def exec_inv_def)
  qed
qed

lemma on_branch_ready:
  assumes "log_closed X L" and "branch_ready X p (br_phase br) (br_run br)" and "exec_inv W R L G s"
    and "on_branch br (guarded_step X p b (br_phase br)) s = (res, s')"
  shows "exec_inv W R L G s'" and "\<exists>br'. res = Inr br' \<and> branch_ready X p (br_phase br') (br_run br')"
proof -
  let ?s = "s\<lparr>xs_run := br_run br, xs_attempt := br_attempt br\<rparr>"
  have "branch_ready X p (br_phase br) (xs_run ?s)" "exec_inv W any_run L G ?s" using assms(2,3) by (simp_all add: exec_inv_def)
  from guarded_step_ready [OF assms(1) this, of b] obtain ph' s1 where
    "guarded_step X p b (br_phase br) ?s = (Inr ph', s1)" "exec_inv W any_run L G s1" "branch_ready X p ph' (xs_run s1)" by blast
  with assms(3,4) show "exec_inv W R L G s'" and "\<exists>br'. res = Inr br' \<and> branch_ready X p (br_phase br') (br_run br')"
    by (auto simp: on_branch_def exec_inv_def Let_def)
qed

lemma kept_run_branches:
  assumes "log_closed X L" and "list_all (\<lambda>br. branch_ready X p (br_phase br) (br_run br)) brs"
  shows "kept R L (run_branches X p b fuel brs)"
  using assms(2)
proof (induction fuel arbitrary: brs)
  case (Suc fuel)
  show ?case
  proof (cases "unfinished brs = []")
    case False
    show ?thesis
      unfolding run_branches.simps Let_def if_not_P [OF False]
    proof (rule keeps_abind [OF kept_draw(1)])
      fix n
      let ?i = "unfinished brs ! (n mod length (unfinished brs))"
      have "?i \<in> set (unfinished brs)" using False by (intro nth_mem) simp
      then have i: "?i < length brs" by (simp add: unfinished_def)
      with Suc.prems have ready: "branch_ready X p (br_phase (brs ! ?i)) (br_run (brs ! ?i))" by (simp add: list_all_length)
      note step = on_branch_ready [OF assms(1) ready, of R _ b]
      show "kept R L (abind (on_branch (brs ! ?i) (guarded_step X p b (br_phase (brs ! ?i)))) (\<lambda>br. run_branches X p b fuel (brs[?i := br])))"
      proof (rule keeps_abind_result)
        show "kept R L (on_branch (brs ! ?i) (guarded_step X p b (br_phase (brs ! ?i))))"
          by (rule keepsI, rule step(1)) (assumption, rule prod.collapse [symmetric])
        show "kept R L (run_branches X p b fuel (brs[?i := br]))"
          if "exec_inv W R L G s" "on_branch (brs ! ?i) (guarded_step X p b (br_phase (brs ! ?i))) s = (Inr br, s')" for br s s'
          using step(2) [OF that] Suc.prems
          by (intro Suc.IH) (auto simp: list_all_iff dest!: set_update_subset_insert [THEN subsetD])
      qed
    qed
  qed (simp add: keeps_rules)
qed (simp add: keeps_rules)

lemma kept_branch_of: "kept R L (branch_of X p levels session_id token)"
  unfolding branch_of_def by (intro kept_parts kept_on_world world_parts)

section \<open>Node work\<close>

lemma kept_end_work: "kept R L (end_work X work lease f)"
  unfolding end_work_def commit_node_owned_def Let_def
  by (intro kept_node_parts kept_calling owned_kept) (simp add: attempt_allowed)

lemma kept_one_branch:
  assumes "log_closed X L" and "\<And>br. kept R L (f br)"
  shows "kept R L (abind (branch_of X p levels session_id token) (\<lambda>br. abind (run_branches X p b fuel [br]) (\<lambda>_. f br)))"
proof (rule keeps_abind_result [OF kept_branch_of])
  show "kept R L (abind (run_branches X p b fuel [br]) (\<lambda>_. f br))"
    if "branch_of X p levels session_id token s = (Inr br, s')" for br s s'
    by (rule keeps_abind [OF kept_run_branches]) (use assms branch_of_arriving [OF that] in simp_all)
qed

lemma kept_distributed_work:
  assumes "log_closed X L"
  shows "kept R L (execute_distributed_work X work lease)"
proof -
  have "kept R L (perform_work X work lease)"
    unfolding perform_work_def stage_token_def work_completed_def work_result_def Let_def
    by (intro kept_one_branch kept_node_parts kept_parallel kept_calling world_parts kept_end_work assms)
  moreover have "kept R L (work_failure X work lease e)" for e
    unfolding work_failure_def Let_def
    by (auto split: exn.split intro!: kept_parts kept_calling world_parts kept_end_work)
  ultimately show ?thesis
    unfolding execute_distributed_work_def by (intro kept_parts)
qed

section \<open>Attempts\<close>

lemma kept_locked_checkpoint:
  assumes "steady R" and "\<And>r. R r \<Longrightarrow> C r" and "list_all allowed records"
  shows "kept R L (locked_checkpoint X type records)"
proof (rule keepsI)
  fix s
  assume "exec_inv W R L G s"
  then show "exec_inv W R L G (snd (locked_checkpoint X type records s))"
    using keepsD [OF checkpoint_kept [OF assms(2,3), of "xs_run s" type], of "xs_world s"]
      locked_checkpoint_run [OF assms(1), of s X type records]
    by (simp add: exec_inv_def locked_checkpoint_world locked_checkpoint_executed)
qed

lemma kept_locked_transition:
  assumes "steady R" and "\<And>r. R r \<Longrightarrow> C r" and "list_all allowed records"
  shows "kept R L (locked_transition X state type records)"
proof -
  have "kept R L (modify (\<lambda>s. s\<lparr>xs_run := (xs_run s)\<lparr>r_state := state\<rparr>\<rparr>))"
    by (rule keeps_modify) (simp add: exec_inv_def steadyD(3) [OF assms(1)])
  then show ?thesis
    unfolding locked_transition_def by (intro kept_parts kept_locked_checkpoint assms)
qed

lemma kept_checkpoint:
  assumes "steady R" and "\<And>r. R r \<Longrightarrow> C r" and "list_all allowed records"
  shows "kept R L (x_checkpoint X type records)" and "kept R L (x_transition X state type records)"
  unfolding x_checkpoint_def x_transition_def
  subgoal by (intro keeps_abind kept_meanwhile kept_locked_checkpoint [OF assms])
  subgoal
    apply (rule keeps_abind)
     apply (rule kept_meanwhile)
    apply (rule kept_locked_transition)
      apply (rule assms)
     apply (rule assms, assumption)
    apply (rule assms)
    done
  done

lemma own_allowed: "list_all allowed [own_attempt s]"
  by (simp add: own_attempt_def attempt_allowed)

lemma kept_session_part: "kept R L (session_part X r c)"
  unfolding session_part_def stored_snapshot_def generation_context_def recent_turns_def Let_def
  by (intro kept_parts kept_calling world_parts)

lemma kept_subpipeline:
  assumes "steady R" and "\<And>r. R r \<Longrightarrow> C r"
  shows "kept R L (run_subpipeline X p d c)"
proof -
  note store = kept_checkpoint [OF assms]
  have park: "kept R L (park_for_child X)"
    unfolding park_for_child_def by (intro kept_parts store) (simp_all add: own_attempt_def attempt_allowed)
  have await: "kept R L (await_child X c k)" for k
    by (induction k) (auto intro!: kept_parts kept_check kept_waits kept_calling world_parts park)
  have earlier: "kept R L (earlier_child X)"
    unfolding earlier_child_def child_attempt_def Let_def
    by (intro kept_parts kept_calling world_parts kept_run) (rule steadyD(5) [OF assms(1)])
  have "kept R L (new_child X p d)"
    unfolding new_child_def child_attempt_def
    by (intro kept_parts kept_launch store own_allowed kept_run) (rule steadyD(7) [OF assms(1)])
  then show ?thesis
    unfolding run_subpipeline_def by (intro kept_parts kept_schema await earlier park)
qed

lemma kept_note_failure: "kept R L (note_failure X d e)"
  unfolding note_failure_def Let_def by (auto split: exn.split intro!: kept_parts)

lemma kept_guarded_attempt:
  assumes "steady R" and "\<And>r. R r \<Longrightarrow> C r" and "\<And>r cs. R r \<Longrightarrow> L cs \<Longrightarrow> L (cs @ [OnPath d r approval])"
  shows "kept R L (guarded_attempt X p d node c approval)"
proof -
  have entry: "kept R L (modify (\<lambda>s. s\<lparr>xs_executed := xs_executed s @ [OnPath d (xs_run s) approval]\<rparr>))"
    by (rule keeps_modify) (simp add: exec_inv_def assms(3))
  have "kept R L (run_node X d node c)"
    unfolding run_node_def Let_def by (intro kept_node_parts kept_execute_node)
  then have "kept R L (run_attempt X p d node c approval)"
    unfolding run_attempt_def
    by (intro keeps_abind [OF entry]) (auto split: attempt_outcome.split intro!: kept_parts kept_subpipeline kept_output assms)
  then show ?thesis
    unfolding guarded_attempt_def by (intro kept_parts kept_note_failure)
qed

lemma kept_begin_attempt:
  assumes "steady R" and "\<And>r. R r \<Longrightarrow> C r"
  shows "kept R L (begin_attempt X d n)" and "kept R L (end_waiting X d ending)" and "kept R L (fail_attempt X code detail)"
proof -
  note store = kept_checkpoint [OF assms]
  show "kept R L (begin_attempt X d n)"
    unfolding begin_attempt_def
    by (intro kept_parts store own_allowed kept_local kept_on_world world_parts) simp_all
  show "kept R L (end_waiting X d ending)" "kept R L (fail_attempt X code detail)"
    unfolding end_waiting_def fail_attempt_def by (intro kept_parts store own_allowed; simp)+
qed

end

section \<open>Routing keeps the identity\<close>

lemma push_edges_id: "push_edges n grp width i es r = (res, r') \<Longrightarrow> r_id r' = r_id r"
  by (induction n grp width i es r rule: push_edges.induct) (auto simp: Let_def split: if_splits)

lemma next_ready_id: "next_ready r = (b, r') \<Longrightarrow> r_id r' = r_id r"
  by (auto simp: next_ready.simps split: list.splits)

lemma advance_id: "advance grp r p n c = (res, r') \<Longrightarrow> r_id r' = r_id r"
  by (auto simp: advance_def Let_def split: if_splits prod.splits sum.splits dest!: push_edges_id next_ready_id)

lemma prepare_join_id: "prepare_join r n = (res, r', events) \<Longrightarrow> r_id r' = r_id r"
  by (auto simp: prepare_join_def Let_def split: if_splits prod.splits bool.splits dest!: next_ready_id)

section \<open>Completing a node\<close>

lemma abind_aret: "abind (aret a) f = f a"
  by (simp add: abind_def aret_def fun_eq_iff)

lemma required_Inr: "(case x of None \<Rightarrow> athrow c t | Some y \<Rightarrow> aret (f y)) w = (Inr a, w') \<longleftrightarrow> (\<exists>y. x = Some y \<and> a = f y \<and> w = w')"
  by (auto simp: athrow_def alift_def aret_def split: option.split)

lemma new_work_records: "new_work X p grp j it records s = (Inr recs, s') \<Longrightarrow> \<exists>k. recs = records @ [work_record k]"
  by (cases it) (auto simp: new_work_def Let_def look_def abind_Inr required_Inr)

context execution_world
begin

lemma same_steady: "steady C"
  unfolding steady_def by (auto intro: same_id)

lemma kept_C: "(\<And>r. r_id (f r) = r_id r) \<Longrightarrow> kept C L (change_run f)"
  by (rule kept_run) (auto intro: same_id)

lemma kept_change_to:
  assumes "\<And>s. r_id (f s) = r_id (xs_run s)" and "\<And>s. kept C L (g s)"
  shows "kept C L (look (\<lambda>s. abind (change_run (\<lambda>_. f s)) (\<lambda>_. g s)))"
proof (rule keepsI)
  fix s :: execution
  assume "exec_inv W C L G s"
  then have "exec_inv W C L G (s\<lparr>xs_run := f s\<rparr>)"
    using same_id [OF _ assms(1)] by (simp add: exec_inv_def)
  from keepsD [OF assms(2) this] show "exec_inv W C L G (snd (look (\<lambda>s. abind (change_run (\<lambda>_. f s)) (\<lambda>_. g s)) s))"
    by (simp add: look_def abind_def change_run_def modify_def)
qed

lemmas stored_checkpoint = kept_checkpoint [OF same_steady]
lemmas stored_locked = kept_locked_checkpoint [OF same_steady] kept_locked_transition [OF same_steady]

lemma kept_advance: "kept C L (advance_run X p d condition)"
proof -
  have "advance_run X p d condition =
      abind (on_world (draw_uuid (xe_runtime X))) (\<lambda>grp. look (\<lambda>s.
        abind (change_run (\<lambda>_. snd (advance grp (xs_run s) p d condition))) (\<lambda>_. alift (fst (advance grp (xs_run s) p d condition)))))"
    by (simp add: advance_run_def case_prod_beta)
  then show ?thesis
    by (auto intro!: keeps_abind keeps_simple kept_on_world world_parts kept_change_to advance_id [OF prod.collapse [symmetric]])
qed

lemma kept_join: "kept C L (join_ready X d)"
proof -
  have "join_ready X d = look (\<lambda>s. abind (change_run (\<lambda>_. fst (snd (prepare_join (xs_run s) d)))) (\<lambda>_.
      abind (afor (snd (snd (prepare_join (xs_run s) d))) (\<lambda>e. x_checkpoint X e [])) (\<lambda>_. alift (fst (prepare_join (xs_run s) d)))))"
    by (simp add: join_ready_def case_prod_beta)
  moreover have "r_id (fst (snd (prepare_join r d))) = r_id r" for r
    by (rule prepare_join_id [of _ _ "fst (prepare_join r d)" _ "snd (snd (prepare_join r d))"]) simp
  ultimately show ?thesis
    by (simp only:) (rule kept_change_to; (intro keeps_abind keeps_afor keeps_simple stored_checkpoint)?; simp)
qed

lemma kept_next_ready: "kept C L (look (\<lambda>s. case next_ready (xs_run s) of (go, r) \<Rightarrow> abind (change_run (\<lambda>_. r)) (\<lambda>_. aret (f go))))"
  using kept_change_to [of "\<lambda>s. snd (next_ready (xs_run s))" L "\<lambda>s. aret (f (fst (next_ready (xs_run s))))"]
  by (simp add: case_prod_beta keeps_rules next_ready_id [OF prod.collapse [symmetric]])

lemma kept_collect: "kept C L (collect_output m)"
  unfolding collect_output_def by (intro kept_parts kept_C) simp

lemma kept_group:
  assumes "log_closed X L" and "kept R L m" and "kept R L spawns"
  shows "kept R L (abind (afold (\<lambda>token brs. abind (branch_of X p levels session_id token) (\<lambda>br. aret (brs @ [br]))) tokens []) (\<lambda>brs.
    abind spawns (\<lambda>_. abind (run_branches X p b fuel brs) (\<lambda>_. m))))"
proof (rule keeps_abind_result)
  show "kept R L (afold (\<lambda>token brs. abind (branch_of X p levels session_id token) (\<lambda>br. aret (brs @ [br]))) tokens [])"
    by (intro kept_parts kept_branch_of)
  show "kept R L (abind spawns (\<lambda>_. abind (run_branches X p b fuel brs) (\<lambda>_. m)))"
    if "afold (\<lambda>token brs. abind (branch_of X p levels session_id token) (\<lambda>br. aret (brs @ [br]))) tokens [] s = (Inr brs, s')" for brs s s'
  proof (intro keeps_abind kept_run_branches assms)
    have "list_all (\<lambda>br. br_phase br = Arriving) brs" using branches_arriving [OF that] by simp
    then show "list_all (\<lambda>br. branch_ready X p (br_phase br) (br_run br)) brs" by (auto simp: list_all_iff)
  qed
qed

lemma kept_run_group:
  assumes "log_closed X L"
  shows "kept C L (run_group X p tokens)"
  unfolding run_group_def Let_def
  by (intro kept_group kept_parts kept_parallel kept_spawned kept_collect kept_node_of kept_C assms) simp_all

lemma kept_distribute: "kept C L (distribute_branches X p tokens)"
proof -
  let ?ok = "\<lambda>records. list_all allowed records"
  have new: "kept C L (abind (new_work X p grp j it records) f)" if "?ok records" "\<And>recs. ?ok recs \<Longrightarrow> kept C L (f recs)" for grp j it records f
  proof (rule keeps_abind_result)
    show "kept C L (new_work X p grp j it records)"
      unfolding new_work_def Let_def by (intro kept_parts kept_on_world world_parts)
    show "kept C L (f recs)" if "new_work X p grp j it records s = (Inr recs, s')" for recs s s'
      using new_work_records [OF that] \<open>?ok records\<close> \<open>\<And>recs. ?ok recs \<Longrightarrow> kept C L (f recs)\<close> by (auto simp: attempt_allowed)
  qed
  have all: "kept C L (abind (afold (new_work X p grp j) its records) f)" if "?ok records" "\<And>recs. ?ok recs \<Longrightarrow> kept C L (f recs)" for grp j its records f
    using that
  proof (induction its arbitrary: records)
    case (Cons it its)
    have "abind (afold (new_work X p grp j) (it # its) records) f =
        abind (new_work X p grp j it records) (\<lambda>recs. abind (afold (new_work X p grp j) its recs) f)"
      by (auto simp: abind_def fun_eq_iff split: prod.split sum.split)
    with Cons show ?case by (auto intro!: new)
  qed (simp add: abind_aret)
  show ?thesis
    unfolding distribute_branches_def
    by (intro keeps_abind keeps_look kept_on_world world_parts kept_node_of all kept_C stored_checkpoint keeps_simple) simp_all
qed

lemma kept_execute_parallel: "log_closed X L \<Longrightarrow> kept C L (execute_parallel X p)"
  unfolding execute_parallel_def Let_def
  by (intro kept_parts kept_C kept_distribute kept_run_group) simp_all

lemma kept_record_result:
  shows "kept C L (record_result X d result)"
  unfolding record_result_def worker_fields_def count_visit_def adopt_message_def trim_provenance_def take_candidates_def Let_def
  by (intro kept_node_parts kept_C kept_local) simp_all

lemma record_result_allowed: "record_result X d result s = (Inr records, s') \<Longrightarrow> list_all allowed records"
  by (auto simp: record_result_def take_candidates_def look_def abind_Inr aret_def own_attempt_def attempt_allowed list_all_iff
      split: if_splits)

lemma renewed_allowed: "list_all allowed records \<Longrightarrow> list_all allowed (renew_message r records)"
  by (auto simp: renew_message_def list_all_iff intro: other_allowed)

lemma kept_route:
  assumes "list_all allowed records" and "log_closed X L"
  shows "kept C L (route_result X p d condition records)"
  unfolding route_result_def
  by (intro keeps_if keeps_abind kept_advance kept_next_ready kept_execute_parallel stored_checkpoint keeps_simple keeps_look assms)

lemma routed_allowed:
  assumes "route_result X p d condition records s = (Inr (Goes go recs), s')" and "list_all allowed records"
  shows "list_all allowed recs"
  using assms
  by (auto simp: route_result_def look_def abind_Inr aret_def case_prod_beta intro: renewed_allowed split: if_splits)

lemma kept_complete:
  assumes closed: "log_closed X L"
  shows "kept C L (complete_node X p d result)"
proof -
  have finish: "kept C L (case routing of Waits \<Rightarrow> aret False | Goes go recs \<Rightarrow>
      if \<not> go then abind (x_transition X RCompleted ''run.completed'' recs) (\<lambda>_. aret False)
      else abind (x_checkpoint X ''node.completed'' recs) (\<lambda>_. aret True))"
    if "\<And>go recs. routing = Goes go recs \<Longrightarrow> list_all allowed recs" for routing
    using that by (cases routing) (auto intro!: keeps_rules stored_checkpoint)
  have "kept C L (abind (acatch (route_result X p d (nr_condition result) records)
      (\<lambda>e. abind (x_checkpoint X ''node.completed'' records) (\<lambda>_. alift (Inl e)))) (\<lambda>routing.
      case routing of Waits \<Rightarrow> aret False | Goes go recs \<Rightarrow>
      if \<not> go then abind (x_transition X RCompleted ''run.completed'' recs) (\<lambda>_. aret False)
      else abind (x_checkpoint X ''node.completed'' recs) (\<lambda>_. aret True)))" if "list_all allowed records" for records
  proof (rule keeps_abind_result)
    show "kept C L (acatch (route_result X p d (nr_condition result) records)
        (\<lambda>e. abind (x_checkpoint X ''node.completed'' records) (\<lambda>_. alift (Inl e))))"
      by (intro keeps_rules kept_route stored_checkpoint that closed)
  next
    fix routing s s'
    assume "acatch (route_result X p d (nr_condition result) records)
        (\<lambda>e. abind (x_checkpoint X ''node.completed'' records) (\<lambda>_. alift (Inl e))) s = (Inr routing, s')"
    then have "\<exists>s1 s2. route_result X p d (nr_condition result) records s1 = (Inr routing, s2)"
      by (auto simp: acatch_def abind_Inr alift_def split: prod.splits sum.splits)
    then show "kept C L (case routing of Waits \<Rightarrow> aret False | Goes go recs \<Rightarrow>
        if \<not> go then abind (x_transition X RCompleted ''run.completed'' recs) (\<lambda>_. aret False)
        else abind (x_checkpoint X ''node.completed'' recs) (\<lambda>_. aret True))"
      using routed_allowed that by (intro finish) blast
  qed
  then show ?thesis
    unfolding complete_node_def
    by (intro keeps_abind_result [OF kept_record_result]) (blast dest: record_result_allowed)
qed

section \<open>Whole executions\<close>

text \<open>An action that may rely on \<open>P\<close> and leaves \<open>Q\<close>, however it ends.\<close>

abbreviation leads :: "(execution \<Rightarrow> bool) \<Rightarrow> 'a ex \<Rightarrow> (execution \<Rightarrow> bool) \<Rightarrow> bool" where
  "leads P m Q \<equiv> valid P m (\<lambda>_. Q) Q"

lemma leads_kept: "keeps P m \<Longrightarrow> (\<And>s. P s \<Longrightarrow> Q s) \<Longrightarrow> leads P m Q"
  by (rule valid_weaken [where P = P and Q = "\<lambda>_. P" and X = P]) (simp_all add: keeps_valid)

lemma leads_abind: "keeps P m \<Longrightarrow> (\<And>s. P s \<Longrightarrow> Q s) \<Longrightarrow> (\<And>a. leads P (f a) Q) \<Longrightarrow> leads P (abind m f) Q"
  by (rule valid_abind [where Q = "\<lambda>_. P"], rule valid_weaken [where P = P and Q = "\<lambda>_. P" and X = P]) (simp_all add: keeps_valid)

lemma leads_before: "keeps Q m \<Longrightarrow> (\<And>s. P s \<Longrightarrow> Q s) \<Longrightarrow> leads P m Q"
  by (rule valid_weaken [where P = Q and Q = "\<lambda>_. Q" and X = Q]) (simp_all add: keeps_valid)

lemma attempts_lead:
  assumes "steady R" and "\<And>r. R r \<Longrightarrow> C r" and "\<And>r cs. R r \<Longrightarrow> L cs \<Longrightarrow> L (cs @ [OnPath d r approval])" and "log_closed X L"
  shows "leads (exec_inv W R L G) (attempts X p d node c approval left) (exec_inv W C L G)"
proof (induction left arbitrary: c)
  have weaker: "exec_inv W R L G s \<Longrightarrow> exec_inv W C L G s" for s
    using assms(2) by (simp add: exec_inv_def)
  case 0
  show ?case
    unfolding attempts.simps by (rule leads_kept) (simp_all add: keeps_rules weaker)
next
  have weaker: "exec_inv W R L G s \<Longrightarrow> exec_inv W C L G s" for s
    using assms(2) by (simp add: exec_inv_def)
  case (Suc left)
  note parts = leads_abind kept_begin_attempt [OF assms(1,2)] kept_guarded_attempt [where R = R and L = L and d = d and approval = approval, OF assms(1-3)] kept_finish weaker
    kept_checkpoint [OF assms(1,2)] kept_waits
  have works: "leads (exec_inv W R L G) (case outcome of Parked \<Rightarrow> aret False | Produced result \<Rightarrow> complete_node X p d result)
      (exec_inv W C L G)" for outcome
    by (cases outcome) (auto intro!: leads_before keeps_simple kept_complete [OF assms(4)] weaker)
  show ?case
    unfolding attempts.simps Let_def
    by (auto intro!: parts leads_kept [OF keeps_simple(1)] leads_kept [OF keeps_simple(3)] works Suc split: tried.split)
qed

end

context execution_world
begin

lemma kept_approval: "kept C L (park_for_approval X d reason)"
proof -
  have drawn: "kept C L (abind (on_world (draw_approval (xe_runtime X))) f)"
    if "\<And>a n. ap_id a = re_uuid (xe_runtime X) n 0 \<Longrightarrow> kept C L (f a)" for f :: "approval \<Rightarrow> unit ex"
  proof (rule keeps_abind_result)
    show "kept C L (f a)" if "on_world (draw_approval (xe_runtime X)) s = (Inr a, s')" for a s s'
      by (rule \<open>\<And>a n. ap_id a = re_uuid (xe_runtime X) n 0 \<Longrightarrow> kept C L (f a)\<close> [where n = "rt_tick (xs_world s)"])
        (use that in \<open>auto simp: on_world_def draw_approval_def draw_def new_approval_def\<close>)
  qed (intro kept_on_world world_parts)
  show ?thesis
    unfolding park_for_approval_def Let_def
    by (intro drawn keeps_abind keeps_look kept_on_world world_parts kept_C stored_locked) (auto simp: attempt_allowed intro: approval_allowed)
qed

lemma kept_execute_step:
  assumes closed: "log_closed X L"
  shows "kept C L (execute_step X p d c)"
proof (rule keepsI)
  fix s :: execution
  assume inv: "exec_inv W C L G s"
  let ?r = "xs_run s"
  let ?R = "\<lambda>r. C r \<and> r_message r = r_message ?r \<and> r_pipeline_id r = r_pipeline_id ?r"
  have steady: "steady ?R"
    unfolding steady_def by (auto intro: same_id)
  have inv': "exec_inv W ?R L G s"
    using inv by (simp add: exec_inv_def)
  have weaker: "exec_inv W ?R L G s \<Longrightarrow> exec_inv W C L G s" for s
    by (simp add: exec_inv_def)
  have tries: "leads (exec_inv W ?R L G) (attempts X p d node c' approval k) (exec_inv W C L G)"
    if "gated X d ?r approval" for node c' approval k
  proof (rule attempts_lead [OF steady])
    fix r cs
    assume "?R r" "L cs"
    then show "L (cs @ [OnPath d r approval])"
      using closed that permission_view [of r ?r] by (simp add: log_closed_def gated_def)
  qed (simp_all add: closed)
  have asks: "leads (exec_inv W ?R L G) (if asks then calling X (approved (xe_runtime X) ?r) else aret False) (exec_inv W ?R L G)" for asks
    by (intro leads_kept keeps_rules kept_calling world_parts)
  have parks: "leads (exec_inv W ?R L G) (abind (meanwhile X) (\<lambda>_. abind (locked_check X c') (\<lambda>_.
      abind (park_for_approval X d reason) (\<lambda>_. aret False)))) (exec_inv W C L G)" for c' reason
    by (rule leads_before) (intro keeps_rules kept_meanwhile kept_check kept_approval, rule weaker)
  have "leads (\<lambda>s'. s' = s \<and> exec_inv W ?R L G s') (execute_step X p d c) (exec_inv W C L G)"
  proof (rule valid_weaken [where P = "\<lambda>s'. s' = s \<and> exec_inv W ?R L G s'" and Q = "\<lambda>_. exec_inv W C L G" and X = "exec_inv W C L G"])
    have go: "leads (exec_inv W ?R L G) (abind (if asks then calling X (approved (xe_runtime X) ?r) else aret False) (\<lambda>approval.
        if asks \<and> \<not> approval then abind (meanwhile X) (\<lambda>_. abind (locked_check X c') (\<lambda>_. abind (park_for_approval X d reason) (\<lambda>_. aret False)))
        else abind (alift (make_node (xe_deps X) d)) (\<lambda>node. attempts X p d node c' approval k))) (exec_inv W C L G)"
      if "\<And>approval. (asks \<longrightarrow> approval) \<Longrightarrow> gated X d ?r approval" for asks c' reason k
    proof (rule leads_abind)
      show "leads (exec_inv W ?R L G) (if asks \<and> \<not> approval then abind (meanwhile X) (\<lambda>_. abind (locked_check X c') (\<lambda>_.
          abind (park_for_approval X d reason) (\<lambda>_. aret False)))
        else abind (alift (make_node (xe_deps X) d)) (\<lambda>node. attempts X p d node c' approval k)) (exec_inv W C L G)" for approval
        using that [of approval] by (auto intro!: parks leads_abind keeps_simple tries weaker)
    qed (auto intro!: keeps_rules kept_calling world_parts weaker)
    show "leads (\<lambda>s'. s' = s \<and> exec_inv W ?R L G s') (execute_step X p d c) (exec_inv W C L G)"
    proof (cases "r_steps ?r \<ge> pl_max_steps p")
      case True
      then show ?thesis using weaker by (auto simp: valid_def execute_step_def look_def athrow_def alift_def Let_def)
    next
      case False
      show ?thesis
      proof (cases "permission (xe_json X) (xe_deps X) d ?r")
        case (Inl e)
        with False weaker show ?thesis by (auto simp: valid_def execute_step_def look_def abind_def alift_def Let_def)
      next
        case (Inr dr)
        obtain decision reason where dr: "dr = (decision, reason)" by (cases dr)
        show ?thesis
        proof (cases "decision = Deny")
          case True
          with False Inr dr weaker show ?thesis
            by (auto simp: valid_def execute_step_def look_def abind_def alift_def athrow_def Let_def)
        next
          case allowed: False
          let ?asks = "n_type d = ''approval'' \<or> decision = RequireApproval"
          have "gated X d ?r approval" if "?asks \<longrightarrow> approval" for approval
            using that Inr dr allowed by (auto simp: gated_def)
          from go [of ?asks, OF this] False Inr dr allowed show ?thesis
            by (auto simp: valid_def execute_step_def look_def abind_def alift_def Let_def)
        qed
      qed
    qed
  qed simp_all
  from this inv' show "exec_inv W C L G (snd (execute_step X p d c s))"
    unfolding valid_def by (cases "execute_step X p d c s") (auto split: sum.splits)
qed

lemma kept_bindings: "kept C L (show_bindings X d)"
  unfolding show_bindings_def Let_def by (intro kept_parts kept_C) simp_all

lemma kept_round:
  assumes "log_closed X L"
  shows "kept C L (execute_round X p)"
  unfolding execute_round_def Let_def
  by (intro kept_parts kept_session_part kept_check kept_node_of kept_bindings kept_join kept_execute_step assms kept_local) simp_all

lemma kept_loop:
  assumes "log_closed X L"
  shows "kept C L (execute_loop X p fuel)"
  by (induction fuel) (auto intro!: keeps_rules kept_round assms)

lemma kept_reconcile: "kept C L (reconcile_distributed_parallel X)"
  unfolding reconcile_distributed_parallel_def absorb_work_def check_result_manifest_def Let_def
  by (intro kept_parts kept_on_world world_parts kept_collect kept_C) simp_all

lemma kept_begin: "kept C L (begin_execution X)"
proof -
  have reads: "kept C L (abind (on_world (get_run (xe_runtime X) rid)) f)"
    if "\<And>r. terminal (r_state r) \<or> C r \<Longrightarrow> kept C L (f r)" for rid and f :: "run \<Rightarrow> bool ex"
  proof (rule keeps_abind_result)
    show "kept C L (f r)" if "exec_inv W C L G s" "on_world (get_run (xe_runtime X) rid) s = (Inr r, s')" for r s s'
      by (rule \<open>\<And>r. terminal (r_state r) \<or> C r \<Longrightarrow> kept C L (f r)\<close>)
        (use that open_checkpointed [of "xs_world s" rid r] in \<open>auto simp: on_world_def exec_inv_def Let_def split: prod.splits\<close>)
  qed (intro kept_on_world world_parts)
  show ?thesis
    unfolding begin_execution_def
    by (rule keeps_abind [OF kept_meanwhile], rule keeps_look, rule reads)
      (auto intro!: keeps_rules kept_run stored_locked kept_reconcile)
qed

lemma kept_failed: "kept C L (execution_failed X e)"
proof -
  have "kept C L (cancel_child X)"
    unfolding cancel_child_def Let_def by (intro kept_parts kept_on_world world_parts)
  then show ?thesis
    unfolding execution_failed_def
    by (intro kept_parts stored_locked kept_C) (simp_all add: attempt_allowed)
qed

lemma kept_execute:
  assumes "log_closed X L"
  shows "kept C L (execute X fuel)"
  unfolding execute_def Let_def
  by (intro kept_parts kept_begin kept_loop kept_failed assms)

text \<open>The executions of runs and of node work, as they act on the runtime.\<close>

lemma run_executed: "W w \<Longrightarrow> C r \<Longrightarrow> W (xs_world (snd (execute X fuel (start_execution w r))))"
  using keepsD [OF kept_execute [of "\<lambda>_. True" fuel], of "start_execution w r"] by (simp add: exec_inv_def start_execution_def any_parallel)

lemma work_executed: "W w \<Longrightarrow> W (xs_world (snd (execute_distributed_work X work lease (start_execution w r))))"
  using keepsD [OF kept_distributed_work [of "\<lambda>_. True" "\<lambda>_. True" work lease], of "start_execution w r"]
  by (simp add: exec_inv_def start_execution_def any_parallel)

end

section \<open>Predicates of the process\<close>

locale local_executor = local_predicate "xe_runtime X" P for X :: execution_env and P

sublocale local_executor \<subseteq> executor: execution_world X P "\<lambda>_. True" "\<lambda>_. True" "\<lambda>_. True"
proof
  show "P w \<Longrightarrow> P (fold (runtime_step (xe_runtime X)) (xe_others X n) w)" for w n
    by (rule history_kept)
qed (simp_all add: ignores keeps_call keeps_start_run keeps_cancel keeps_checkpoint add_loop)

section \<open>Predicates of the stored records\<close>

locale stored_executor = stored_predicate "xe_runtime X" S allowed ckpt for X :: execution_env and S allowed ckpt +
  assumes others: "S st \<Longrightarrow> list_all (permitted ckpt allowed) (xe_others X n)"

sublocale stored_executor \<subseteq> executor: execution_world X holds allowed "\<lambda>r. \<forall>r'. r_id r' = r_id r \<longrightarrow> ckpt r'" "\<lambda>_. True"
proof
  show "holds w \<Longrightarrow> holds (fold (runtime_step (xe_runtime X)) (xe_others X n) w)" for w n
    by (rule history_kept) (rule others)
  show "holds w \<Longrightarrow> re_others (xe_runtime X) n (rt_db w, rt_coord w) = (db, co) \<Longrightarrow> holds (w\<lparr>rt_db := db, rt_coord := co, rt_tick := m\<rparr>)"
    for w n db co m
    using alone [of "stored w"] by (simp add: solitary_def)
  show "holds w \<Longrightarrow> get_run (xe_runtime X) rid w = (Inr r, w') \<Longrightarrow> \<not> terminal (r_state r) \<Longrightarrow> \<forall>r'. r_id r' = r_id r \<longrightarrow> ckpt r'"
    for w rid r w'
    using get_run_row [of rid w r w'] open_checkpoint [of "stored w" _ r] by blast
qed (auto intro: keeps_commit keeps_start_run keeps_cancel keeps_checkpoint other new_approval)

end
