(* ===== verification/Laso_Execution_Guarantees.thy ===== *)
theory Laso_Execution_Guarantees
  imports Laso_Execution_Invariant Laso_Runtime_Guarantees
begin

text \<open>
  What holds while runs and distributed branches are executed: nodes are executed only as the policy
  permits them, and the bounds and the final facts of the runtime survive whole executions, which are
  steps of the histories here beside the calls of the service.
\<close>

section \<open>Histories with executions\<close>

datatype engine_op = Call runtime_op | ExecuteRun nat run | PerformWork node_work lease_record

definition engine_step :: "execution_env \<Rightarrow> engine_op \<Rightarrow> runtime \<Rightarrow> runtime" where
  "engine_step X op w =
     (case op of
        Call call \<Rightarrow> runtime_step (xe_runtime X) call w
      | ExecuteRun fuel r \<Rightarrow> xs_world (snd (execute X fuel (start_execution w r)))
      | PerformWork k lease \<Rightarrow>
          xs_world (snd (execute_distributed_work X k lease (start_execution w (new_run (w_run_id k) [] (tk_message (w_token k)))))))"

definition engine_ok :: "(string \<Rightarrow> bool) \<Rightarrow> engine_op \<Rightarrow> bool" where
  "engine_ok may op =
     (case op of Call call \<Rightarrow> executor_ok may call | ExecuteRun fuel r \<Rightarrow> may (r_id r) | PerformWork k lease \<Rightarrow> True)"

text \<open>What the rest of the process does while an executor works on a run.\<close>

definition company_ok :: "(string \<Rightarrow> bool) \<Rightarrow> execution_env \<Rightarrow> bool" where
  "company_ok may X \<longleftrightarrow> (\<forall>n. list_all (executor_ok may) (xe_others X n))"

context execution_world
begin

lemma engine_step_kept:
  assumes "\<And>call w. op = Call call \<Longrightarrow> W w \<Longrightarrow> W (runtime_step (xe_runtime X) call w)"
    and "\<And>fuel r. op = ExecuteRun fuel r \<Longrightarrow> C r" and "W w"
  shows "W (engine_step X op w)"
  using assms by (cases op) (auto simp: engine_step_def intro: run_executed work_executed)

end

context local_executor
begin

lemma engine_history_kept: "P w \<Longrightarrow> P (fold (engine_step X) ops w)"
  by (induction ops arbitrary: w) (auto intro!: executor.engine_step_kept step_kept)

end

context stored_executor
begin

lemma engine_history_kept:
  assumes "list_all (engine_ok may) ops" and may: "\<And>r. may (r_id r) \<Longrightarrow> ckpt r" and "holds w"
  shows "holds (fold (engine_step X) ops w)"
  using assms(1,3)
proof (induction ops arbitrary: w)
  case (Cons op ops)
  have "holds (engine_step X op w)"
  proof (rule executor.engine_step_kept)
    show "holds (runtime_step (xe_runtime X) call w)" if "op = Call call" "holds w" for call w
      using executors_permitted [of may "[call]" ckpt allowed] may other that Cons.prems(1)
      by (auto simp: engine_ok_def intro!: step_kept)
  qed (use Cons.prems may in \<open>auto simp: engine_ok_def\<close>)
  with Cons show ?case by simp
qed simp

end

section \<open>A small installation\<close>

text \<open>Every definition is the loop of the examples; functions answer with their input, and nothing else is installed.\<close>

definition lone_runtime :: runtime_env where
  "lone_runtime = lone_env\<lparr>re_parse := (\<lambda>_. Inr loop_pipeline)\<rparr>"

definition lone_engine :: execution_env where
  "lone_engine =
     \<lparr>xe_runtime = lone_runtime,
      xe_deps = \<lparr>d_functions = \<lparr>entries = [(''hello'', ())]\<rparr>, d_tools = empty_registry, d_providers = empty_registry, d_workers = None,
        d_nodes = empty_registry, d_models = [], d_policy = \<lparr>rules = [], allow_network = False, allow_remote_workers = []\<rparr>\<rparr>,
      xe_others = (\<lambda>n. if n = 20 then [Cancel ''r1''] else []), xe_stopped = (\<lambda>_. False), xe_expired = (\<lambda>_. False),
      xe_waits = (\<lambda>_. 0), xe_patience = 3, xe_details = (\<lambda>_. JNull), xe_duration = (\<lambda>_. Finite 0),
      xe_function = (\<lambda>_ _ _ v. ([], Inr v)), xe_tool = (\<lambda>_ _ _ v. ([], Inr v)),
      xe_generate = (\<lambda>_ _ _ _. ([], throw Provider ''none'')), xe_extension = (\<lambda>_ _ _ _. ([], throw Execution ''none'')),
      xe_remaining_ns = (\<lambda>_. 0), xe_deadline = (\<lambda>_. ''t''), xe_submit = (\<lambda>_ _. throw NotFound ''none''),
      xe_refresh = (\<lambda>_ _. throw NotFound ''none''), xe_candidate = (\<lambda>_ _. Inr None), xe_browser_result = (\<lambda>_ _ _. Inr False),
      xe_cancel_job = (\<lambda>_ _ _ _. Inr ()), xe_stage_workspace = (\<lambda>_ _ _ _ _. throw Execution ''none''),
      xe_result_manifest = (\<lambda>_ _ _ _. throw Execution ''none''), xe_input_manifest = (\<lambda>_ _ _ _. throw Execution ''none''),
      xe_check_manifest = (\<lambda>_ _. Inr ()), xe_verify_object = (\<lambda>_ _ _ _. Inr ()), xe_has_artifacts = False, xe_order = id\<rparr>"

lemma lone_engine_simps [simp]:
  "re_json (xe_runtime lone_engine) = plain_ops" "re_config (xe_runtime lone_engine) = lone_config" "company_ok (\<lambda>_. True) lone_engine"
  "company_ok (\<lambda>i. i \<noteq> rid) lone_engine"
  by (simp_all add: lone_engine_def lone_runtime_def lone_env_def company_ok_def executor_ok_def)

lemma lone_engine_private: "private_database (xe_runtime lone_engine)"
  and lone_engine_unused: "unused_id (xe_runtime lone_engine) ''r1''" "unused_id (xe_runtime lone_engine) ''a1''"
  using lone_private lone_unused
  by (simp_all add: private_database_def unused_id_def solitary_def lone_engine_def lone_runtime_def)

section \<open>Nodes are executed as the policy permits\<close>

interpretation anywhere: execution_world X "\<lambda>_. True" "\<lambda>_. True" "\<lambda>_. True" "\<lambda>_. True" for X
  by unfold_locales (simp_all add: keeps_def)


section \<open>Edge limits\<close>

text \<open>
  The edges a branch crosses. An attempt to route it that fails is retried with the node, so attempts are
  counted beside the edges that were crossed.
\<close>

inductive branch_crossing :: "pipeline_definition \<Rightarrow> execution \<Rightarrow> edge_definition list \<Rightarrow> nat \<Rightarrow> execution \<Rightarrow> bool"
  for p :: pipeline_definition and s :: execution where
  branch_start: "branch_crossing p s [] 0 s"
| branch_other: "branch_crossing p s es k s1 \<Longrightarrow> r_edge_visits (xs_run s2) = r_edge_visits (xs_run s1) \<Longrightarrow>
    branch_crossing p s es k s2"
| branch_crossed: "branch_crossing p s es k s1 \<Longrightarrow> branch_route p d c s1 = (Inr u, s2) \<Longrightarrow>
    branch_crossing p s (es @ matching p d c) (Suc k) s2"
| branch_stuck: "branch_crossing p s es k s1 \<Longrightarrow> branch_route p d c s1 = (Inl x, s2) \<Longrightarrow>
    branch_crossing p s es (Suc k) s2"

lemma branch_route_result:
  assumes "branch_route p d c s = (res, s')" and "e \<in> set (pl_edges p)" and "e_max_iterations e \<noteq> 0"
    and "distinct (map edge_key (pl_edges p))"
  shows "visits (xs_run s') e = (if matching p d c = [e] then visits (xs_run s) e + 1 else visits (xs_run s) e)"
    and "res = Inr u \<Longrightarrow> count_list (matching p d c) e = (if matching p d c = [e] then 1 else 0)"
    and "res = Inr u \<Longrightarrow> matching p d c = [e] \<Longrightarrow> visits (xs_run s') e \<le> e_max_iterations e"
proof -
  have keys: "edge_key e' = edge_key e \<longleftrightarrow> e' = e" if "e' \<in> set (matching p d c)" for e'
    using assms(2,4) that by (auto simp: matching_def distinct_map inj_on_def)
  show "visits (xs_run s') e = (if matching p d c = [e] then visits (xs_run s) e + 1 else visits (xs_run s) e)"
    "res = Inr u \<Longrightarrow> count_list (matching p d c) e = (if matching p d c = [e] then 1 else 0)"
    "res = Inr u \<Longrightarrow> matching p d c = [e] \<Longrightarrow> visits (xs_run s') e \<le> e_max_iterations e"
    using assms(1,3) keys
    by (auto simp: branch_route_def look_def abind_def awhen_def change_run_def modify_def athrow_def alift_def aret_def visits_def Let_def
        split: list.splits if_splits)
qed

lemma unat_counted: "Suc (unat (x :: u32)) < 2 ^ 32 \<Longrightarrow> unat (x + 1) = Suc (unat x)"
  by (subst unat_add_lem [THEN iffD1]) simp_all

lemma branch_crossing_counts:
  assumes "branch_crossing p s es k s'" and "distinct (map edge_key (pl_edges p))" and "r_edge_visits (xs_run s) = []"
    and "e \<in> set (pl_edges p)" and "e_max_iterations e \<noteq> 0" and "k < 2 ^ 32"
  shows "unat (visits (xs_run s') e) \<le> k \<and> count_list es e \<le> unat (visits (xs_run s') e) \<and> count_list es e \<le> unat (e_max_iterations e)"
  using assms(1,6)
proof induction
  case branch_start
  then show ?case using assms(3) by (simp add: visits_def)
next
  case (branch_other es k s1 s2)
  then show ?case by (simp add: visits_def)
next
  case (branch_crossed es k s1 d c u s2)
  note route = branch_route_result [OF branch_crossed.hyps(2) assms(4,5,2)]
  have ih: "unat (visits (xs_run s1) e) \<le> k" "count_list es e \<le> unat (visits (xs_run s1) e)"
    "count_list es e \<le> unat (e_max_iterations e)" using branch_crossed by auto
  have "unat (visits (xs_run s1) e + 1) = Suc (unat (visits (xs_run s1) e))"
    using ih(1) branch_crossed.prems by (intro unat_counted) simp
  with route(1) route(2,3) [OF refl] ih show ?case by (auto simp: word_le_nat_alt)
next
  case (branch_stuck es k s1 d c x s2)
  note route = branch_route_result [OF branch_stuck.hyps(2) assms(4,5,2)]
  have ih: "unat (visits (xs_run s1) e) \<le> k" "count_list es e \<le> unat (visits (xs_run s1) e)"
    "count_list es e \<le> unat (e_max_iterations e)" using branch_stuck by auto
  have "unat (visits (xs_run s1) e + 1) = Suc (unat (visits (xs_run s1) e))"
    using ih(1) branch_stuck.prems by (intro unat_counted) simp
  with route(1) ih show ?case by auto
qed

text \<open>
  C35: the budget of a bounded edge is never overspent by a walk of its own. Whatever the nodes report, the
  routing of a run crosses an edge with a limit below \<open>2\<^sup>3\<^sup>2 - 1\<close> at most that many times; and so does the walk
  of each branch of a parallel group, failed attempts to route it included, as long as there are fewer than
  \<open>2\<^sup>3\<^sup>2\<close> of them. Every branch starts with counters of its own, so these are bounds per branch: a group of
  branches may cross the edge more often than its limit together.
\<close>

theorem edge_limit_respected:
  assumes "accepted p extensions" and "e \<in> set (pl_edges p)" and "e_max_iterations e \<noteq> 0" and "e_max_iterations e \<noteq> - 1"
  shows "(\<forall>r es r'. r_edge_visits r = [] \<longrightarrow> crossing p r es r' \<longrightarrow> count_list es e \<le> unat (e_max_iterations e)) \<and>
    (\<forall>s es k s'. r_edge_visits (xs_run s) = [] \<longrightarrow> branch_crossing p s es k s' \<longrightarrow> k < 2 ^ 32 \<longrightarrow>
       count_list es e \<le> unat (e_max_iterations e))"
proof (intro conjI allI impI)
  show "count_list es e \<le> unat (e_max_iterations e)" if "r_edge_visits r = []" "crossing p r es r'" for r es r'
    using crossing_counts [OF that(2) assms(1) that(1) assms(2-4)] by (simp add: word_le_nat_alt)
  show "count_list es e \<le> unat (e_max_iterations e)"
    if "r_edge_visits (xs_run s) = []" "branch_crossing p s es k s'" "k < 2 ^ 32" for s es k s'
    using branch_crossing_counts [OF that(2) accepted_keys_distinct [OF assms(1)] that(1) assms(2,3) that(3)] by blast
qed

lemma edge_limit_respected_witness:
  "let e = \<lparr>e_from = ''turn'', e_to = ''task'', e_condition = ''repeat'', e_max_iterations = (3 :: u32)\<rparr>;
       r = snd (advance ''g'' example_run loop_pipeline turn_node ''repeat'');
       s = start_execution (idle_runtime empty_store) example_run;
       s' = snd (branch_route loop_pipeline turn_node ''repeat'' s)
   in crossing loop_pipeline example_run [e] r \<and> branch_crossing loop_pipeline s [e] 1 s' \<and> count_list [e] e \<le> unat (e_max_iterations e)"
proof -
  let ?e = "\<lparr>e_from = ''turn'', e_to = ''task'', e_condition = ''repeat'', e_max_iterations = (3 :: u32)\<rparr>"
  let ?r = "snd (advance ''g'' example_run loop_pipeline turn_node ''repeat'')"
  let ?s = "start_execution (idle_runtime empty_store) example_run"
  let ?s' = "snd (branch_route loop_pipeline turn_node ''repeat'' ?s)"
  have m: "matching loop_pipeline turn_node ''repeat'' = [?e]"
    by (simp add: matching_def loop_pipeline_def example_defs)
  have "advance ''g'' example_run loop_pipeline turn_node ''repeat'' = (Inr True, ?r)"
    by (simp add: advance_def matching_def loop_pipeline_def next_ready.simps example_defs)
  then have "crossing loop_pipeline example_run ([] @ matching loop_pipeline turn_node ''repeat'') ?r"
    by (intro crossing_advance [OF crossing_start]) (simp_all add: turn_node_def new_node_def)
  then have path: "crossing loop_pipeline example_run [?e] ?r" by (simp add: m)
  have empty: "r_edge_visits (xs_run ?s) = []" by (simp add: start_execution_def example_run_def new_run_def)
  then have "branch_route loop_pipeline turn_node ''repeat'' ?s = (Inr (), ?s')"
    by (simp add: branch_route_def m look_def abind_def awhen_def change_run_def modify_def alift_def aret_def Let_def)
  from branch_crossed [OF branch_start this] have branch: "branch_crossing loop_pipeline ?s [?e] 1 ?s'" by (simp add: m)
  have "?e \<in> set (pl_edges loop_pipeline)" by (simp add: loop_pipeline_def)
  then have "\<And>s es k s'. r_edge_visits (xs_run s) = [] \<Longrightarrow> branch_crossing loop_pipeline s es k s' \<Longrightarrow> k < 2 ^ 32 \<Longrightarrow>
      count_list es ?e \<le> unat (e_max_iterations ?e)"
    using edge_limit_respected [OF loop_pipeline_accepted, of ?e] by fastforce
  from this [OF empty branch] have "count_list [?e] ?e \<le> unat (e_max_iterations ?e)" by simp
  with path branch show ?thesis unfolding Let_def by blast
qed

section \<open>Bounds\<close>

interpretation bounded_engine: local_executor X "within_limits (xe_runtime X)" for X
  by unfold_locales

interpretation halted_engine: local_executor X "stopped_with started runs works" for X started runs works
  by unfold_locales

text \<open>
  C8: whatever the service, its loops and the executors of runs and branches do, in any order and with other
  instances acting on the database in between, an instance never has more coroutines of runs at work than
  \<^verbatim>\<open>max_runs\<close>, at no moment of the history, and never starts one for a run whose coroutine has not ended.
  It never has more claimed branches registered than \<^verbatim>\<open>max_nodes\<close>. These are the entries of
  \<^verbatim>\<open>active_nodes_\<close>: a branch whose worker job was settled elsewhere gives its entry up while its coroutine
  still unwinds, and the branches a run executes itself are not counted.
\<close>

theorem executing_within_limits:
  fixes ops :: "engine_op list"
  assumes "rt_active w = []" and "rt_nodes w = []" and "rt_spawned w = []"
  shows "let w' = fold (engine_step X) ops w; config = re_config (xe_runtime X) in
    (\<forall>before c after. rt_spawned w' = before @ c # after \<longrightarrow>
       card (live (before @ [c])) \<le> unat (rc_max_runs config) \<and> (\<forall>r. c = Execute r \<longrightarrow> r_id r \<notin> live before)) \<and>
    live (rt_spawned w') = fst ` set (rt_active w') \<and> length (rt_nodes w') \<le> unat (rc_max_nodes config)"
proof -
  have "within_limits (xe_runtime X) w"
    using assms by (simp add: within_limits_def omap_inv_def live_def orderly_def)
  then have "within_limits (xe_runtime X) (fold (engine_step X) ops w)"
    by (rule bounded_engine.engine_history_kept)
  then show ?thesis
    unfolding within_limits_def orderly_def Let_def by blast
qed

lemma executing_within_limits_witness:
  "let w' = fold (engine_step lone_engine) [Call (Start ''1''), Call ClaimPass, Call (Resume ''r1''), ExecuteRun 5 some_run]
       (idle_runtime (upsert (run_record some_run) empty_store)) in
   live (rt_spawned w') = fst ` set (rt_active w') \<and> length (rt_nodes w') \<le> 4"
  using executing_within_limits [of "idle_runtime (upsert (run_record some_run) empty_store)" lone_engine
      "[Call (Start ''1''), Call ClaimPass, Call (Resume ''r1''), ExecuteRun 5 some_run]"]
  by (simp add: idle_runtime_def lone_config_def Let_def)

text \<open>
  C14: after a shutdown no run and no claimed node work is begun: in every later history of calls, loops and executors,
  those still at work included, no coroutine of a run or of claimed node work is started, and only what was registered
  before still is. An execution that is still under way may start branches of its own run.
\<close>

theorem stopped_runtime_starts_nothing:
  "let w' = snd (shutdown (xe_runtime X) w); w'' = fold (engine_step X) ops w' in
   filter is_execution (rt_spawned w'') = filter is_execution (rt_spawned w') \<and>
   fst ` set (rt_active w'') \<subseteq> fst ` set (rt_active w') \<and> fst ` set (rt_nodes w'') \<subseteq> fst ` set (rt_nodes w')"
proof -
  let ?w = "snd (shutdown (xe_runtime X) w)"
  have "rt_stopping ?w"
    by (auto simp: shutdown_def abind_def modify_def look_def awhen_def aret_def ignoring_def atry_def at_database_def Let_def
        split: prod.split sum.split exn.split if_splits)
  then have "stopped_with (filter is_execution (rt_spawned ?w)) (fst ` set (rt_active ?w)) (fst ` set (rt_nodes ?w)) ?w"
    by (simp add: stopped_with_def)
  from halted_engine.engine_history_kept [OF this, of X ops] show ?thesis
    by (simp add: stopped_with_def Let_def)
qed

section \<open>What is final\<close>

lemma stored_predicate_and:
  assumes "stored_predicate E S allowed ckpt"
  shows "stored_predicate E (\<lambda>st. S st \<and> c) allowed ckpt"
proof -
  from assms have "stored_predicate E (\<lambda>st. S st \<and> True) allowed ckpt" by simp
  moreover have "stored_predicate E (\<lambda>st. S st \<and> False) allowed ckpt"
    using assms unfolding stored_predicate_def by simp
  ultimately show ?thesis by (cases c) simp_all
qed

lemma company_permitted:
  assumes "company_ok may X" and "\<And>r. may (r_id r) \<Longrightarrow> ckpt r" and "\<And>rec. sr_kind rec \<notin> {KRun, KApproval} \<Longrightarrow> allowed rec"
  shows "list_all (permitted ckpt allowed) (xe_others X n)"
  using assms executors_permitted [of may "xe_others X n" ckpt allowed] by (simp add: company_ok_def)

interpretation ended_engine: stored_executor X
    "\<lambda>st. (final_run (xe_runtime X) rid s \<and> stored_in_state (xe_json X) rid s st) \<and> company_ok (\<lambda>i. i \<noteq> rid) X"
    "\<lambda>rec. final_run (xe_runtime X) rid s \<longrightarrow> record_good KRun rid (run_ident (xe_json X)) (\<lambda>_. False) rec"
    "\<lambda>r. final_run (xe_runtime X) rid s \<longrightarrow> r_id r \<noteq> rid" for X rid s
  by (intro stored_executor.intro stored_executor_axioms.intro stored_predicate_and ended_run.stored_predicate_axioms)
    (auto intro!: company_permitted simp: record_good_def)

interpretation decided_engine: stored_executor X
    "\<lambda>st. (final_decision (xe_runtime X) aid d \<and> stored_decision (xe_json X) aid d st) \<and> company_ok (\<lambda>_. True) X"
    "\<lambda>rec. final_decision (xe_runtime X) aid d \<longrightarrow> record_good KApproval aid (approval_ident (xe_json X)) (\<lambda>_. False) rec"
    "\<lambda>_. True" for X aid d
  by (intro stored_executor.intro stored_executor_axioms.intro stored_predicate_and decided.stored_predicate_axioms)
    (auto intro!: company_permitted simp: record_good_def)

interpretation requested_engine: stored_executor X
    "\<lambda>st. (requested_run (xe_runtime X) rid \<and> cancellation_stored (xe_json X) rid st) \<and> company_ok (\<lambda>_. True) X"
    "\<lambda>rec. requested_run (xe_runtime X) rid \<longrightarrow>
       record_good KRun rid (run_ident (xe_json X)) (\<lambda>v. jat v ''cancellation_requested'' = Inr (JBool True)) rec"
    "\<lambda>_. True" for X rid
  by (intro stored_executor.intro stored_executor_axioms.intro stored_predicate_and requested.stored_predicate_axioms)
    (auto intro!: company_permitted simp: record_good_def)

text \<open>
  An execution of the ended run itself, begun after it ended: the run is read again, and the coroutine returns.
\<close>

lemma read_ended_run:
  assumes "solitary E" and "\<And>n. re_fault E n = None" and "stored_in_state (re_json E) rid s (stored w)"
  shows "\<exists>r. get_run E rid w = (Inr r, w\<lparr>rt_tick := Suc (rt_tick w)\<rparr>) \<and> r_state r = s"
proof -
  from assms(3) have "find (\<lambda>row. row_id row = rid) (stored w KRun) \<noteq> None"
    by (auto simp: stored_in_state_def row_good_def find_None_iff)
  then obtain row where row: "find_row (stored w) KRun rid = Some row" by (auto simp: find_row_def)
  then have "row \<in> set (stored w KRun)" "row_id row = rid" by (auto simp: find_row_def find_Some_iff)
  with assms(3) obtain r where "run_from_json (re_json E) (row_body row) = Inr r" "r_state r = s"
    by (auto simp: stored_in_state_def row_good_def)
  with row assms(1,2) show ?thesis
    by (simp add: get_run_def abind_def db_get_def at_database_def solitary_def get_record_def in_transaction_def lookup_def alift_def)
qed

lemma own_execution_ends:
  assumes "terminal s" and "\<And>n. re_fault (xe_runtime X) n = None" and "r_id r = rid"
    and "(final_run (xe_runtime X) rid s \<and> stored_in_state (xe_json X) rid s (stored w)) \<and> company_ok (\<lambda>i. i \<noteq> rid) X"
  shows "stored_in_state (xe_json X) rid s (stored (xs_world (snd (execute X fuel (start_execution w r)))))"
proof (cases "re_parse (xe_runtime X) (r_definition r)")
  case (Inl e)
  with assms(4) show ?thesis by (simp add: execute_def look_def start_execution_def abind_def alift_def)
next
  case (Inr p)
  let ?s = "start_execution w r"
  let ?s1 = "snd (meanwhile X ?s)"
  have run: "xs_run ?s1 = r" by (simp add: meanwhile_def modify_def start_execution_def Let_def)
  have "ended_engine.holds X rid s (xs_world ?s1)"
    using keepsD [OF ended_engine.executor.kept_meanwhile [of X rid s "\<lambda>_. True" "\<lambda>_. True"], of ?s] assms(4)
    by (simp add: exec_inv_def start_execution_def)
  then have stored: "stored_in_state (xe_json X) rid s (stored (xs_world ?s1))" and "solitary (xe_runtime X)"
    by (auto simp: private_database_def)
  from read_ended_run [OF this(2) assms(2) this(1)] obtain current where
    "get_run (xe_runtime X) rid (xs_world ?s1) = (Inr current, (xs_world ?s1)\<lparr>rt_tick := Suc (rt_tick (xs_world ?s1))\<rparr>)"
    and "r_state current = s" by blast
  with run assms(1,3) have "begin_execution X ?s = (Inr False, ?s1\<lparr>xs_world := (xs_world ?s1)\<lparr>rt_tick := Suc (rt_tick (xs_world ?s1))\<rparr>\<rparr>)"
    by (simp add: begin_execution_def abind_def look_def on_world_def aret_def meanwhile_def modify_def)
  with Inr stored show ?thesis
    by (simp add: execute_def look_def abind_def alift_def acatch_def aret_def start_execution_def)
qed

text \<open>
  The histories after a run has ended: the executors make no calls for the run, since none was at work on it, and an
  execution of it that begins can read the database.
\<close>

definition later_ok :: "execution_env \<Rightarrow> string \<Rightarrow> engine_op \<Rightarrow> bool" where
  "later_ok X rid op =
     (case op of
        Call call \<Rightarrow> executor_ok (\<lambda>i. i \<noteq> rid) call
      | ExecuteRun fuel r \<Rightarrow> r_id r = rid \<longrightarrow> (\<forall>n. re_fault (xe_runtime X) n = None)
      | PerformWork k lease \<Rightarrow> True)"



text \<open>
  C12: an approval is decided once: when a decision is stored, approved, rejected or cancelled, no later call,
  loop or execution of the instance that has the database for itself changes it.
\<close>

theorem approval_decided_once:
  assumes "private_database (xe_runtime X)" and "unused_id (xe_runtime X) aid" and "d \<noteq> ''pending''"
    and "stored_decision (xe_json X) aid d (stored w)"
    and "company_ok (\<lambda>_. True) X" and "list_all (engine_ok (\<lambda>_. True)) ops"
  shows "stored_decision (xe_json X) aid d (stored (fold (engine_step X) ops w))"
  using decided_engine.engine_history_kept [OF assms(6), of X aid d w] assms by simp

lemma approval_decided_once_witness:
  "stored_decision plain_ops ''a1'' ''approved''
     (stored (fold (engine_step lone_engine) [Call (Decide ''a1'' False ''bob'' []), ExecuteRun 9 some_run, Call ClaimPass]
       (idle_runtime (upsert (approval_record ''r1'' (some_approval ''approved'')) empty_store))))"
proof -
  let ?st = "upsert (approval_record ''r1'' (some_approval ''approved'')) empty_store"
  have "stored_decision (xe_json lone_engine) ''a1'' ''approved'' (stored (idle_runtime ?st))"
    by (simp add: stored_decision_def row_good_single approval_record_def approval_codec [OF plain_ops_ok] some_approval_def)
  from approval_decided_once [OF lone_engine_private lone_engine_unused(2) _ this, of
      "[Call (Decide ''a1'' False ''bob'' []), ExecuteRun 9 some_run, Call ClaimPass]"]
  show ?thesis by (simp add: engine_ok_def executor_ok_def)
qed



end
