(* ===== verification/Laso_Execution_Returns.thy ===== *)
theory Laso_Execution_Returns
  imports Laso_Execution_Guarantees
begin

text \<open>
  Executions come to an end. The branches of a group share a number of steps; each step allows the attempts of
  one node, and each attempt the polls of a child run, so the fuel of \<open>run_branches\<close> is enough and every
  branch reports once. The loop of a run either takes a step, of which the pipeline allows finitely many, or a
  token that is ready.
\<close>

section \<open>Actions that keep a predicate and return something good\<close>

abbreviation yields :: "('w \<Rightarrow> bool) \<Rightarrow> ('w, 'a) action \<Rightarrow> ('a \<Rightarrow> bool) \<Rightarrow> bool" where
  "yields P m Q \<equiv> valid P m (\<lambda>a w. P w \<and> Q a) P"

lemma yields_abind: "keeps P m \<Longrightarrow> (\<And>a. yields P (f a) Q) \<Longrightarrow> yields P (abind m f) Q"
  by (rule valid_abind [where Q = "\<lambda>_. P"]) (simp_all add: keeps_valid)

lemma yields_after: "yields P m R \<Longrightarrow> (\<And>a. R a \<Longrightarrow> yields P (f a) Q) \<Longrightarrow> yields P (abind m f) Q"
  by (rule valid_abind, assumption) (auto simp: valid_def split: prod.splits sum.splits)

lemma yields_look: "(\<And>w. yields P (f w) Q) \<Longrightarrow> yields P (look f) Q"
  by (simp add: valid_def look_def)

lemma yields_atry: "yields P m Q \<Longrightarrow> (\<And>c t. yields P (h c t) Q) \<Longrightarrow> yields P (atry m aret h) Q"
  by (rule valid_atry, assumption) (auto simp: valid_def aret_def)

lemma yields_simple: "Q a \<Longrightarrow> yields P (aret a) Q" "yields P (athrow c t) Q"
  by (auto simp: valid_def aret_def athrow_def alift_def)

lemma yields_prod: "(\<And>a b. x = (a, b) \<Longrightarrow> yields P (f a b) Q) \<Longrightarrow> yields P (case x of (a, b) \<Rightarrow> f a b) Q"
  by (cases x) simp

lemmas yields_rules = yields_look valid_if yields_abind yields_simple yields_prod

section \<open>The branches of a group\<close>

definition polls_per_attempt :: "execution_env \<Rightarrow> nat" where
  "polls_per_attempt X = xe_patience X + 4"

text \<open>What a branch still does before it takes the next step of the pipeline.\<close>

fun phase_cost :: "execution_env \<Rightarrow> pipeline_definition \<Rightarrow> branch_phase \<Rightarrow> nat" where
  "phase_cost X p Ended = 0"
| "phase_cost X p Arriving = 1"
| "phase_cost X p (Attempting v k) = 1 + (Suc (attempts_bound p) - k) * polls_per_attempt X"
| "phase_cost X p (Executing v k) = 1 + (attempts_bound p - k) * polls_per_attempt X + xe_patience X + 3"
| "phase_cost X p (Polling v k child_id n) = 1 + (attempts_bound p - k) * polls_per_attempt X + n + 2"
| "phase_cost X p (Finishing v k result) = 1 + (attempts_bound p - k) * polls_per_attempt X + 1"

fun phase_ok :: "execution_env \<Rightarrow> pipeline_definition \<Rightarrow> branch_phase \<Rightarrow> bool" where
  "phase_ok X p (Executing v k) \<longleftrightarrow> k \<le> attempts_bound p"
| "phase_ok X p (Polling v k child_id n) \<longleftrightarrow> k \<le> attempts_bound p \<and> n \<le> xe_patience X"
| "phase_ok X p (Finishing v k result) \<longleftrightarrow> k \<le> attempts_bound p"
| "phase_ok X p _ \<longleftrightarrow> True"

abbreviation counts :: "u32 \<Rightarrow> nat \<Rightarrow> execution \<Rightarrow> bool" where
  "counts n c \<equiv> exec_inv (\<lambda>_. True) (\<lambda>_. True) (\<lambda>_. True) (\<lambda>ps. ps_steps ps = n \<and> ps_completed ps = c)"

lemma countsD: "counts n c s \<longleftrightarrow> ps_steps (xs_parallel s) = n \<and> ps_completed (xs_parallel s) = c"
  by (simp add: exec_inv_def)

interpretation shared: execution_frame X "\<lambda>_. True" "\<lambda>_. True" "\<lambda>_. True" G for X G
  by unfold_locales (simp_all add: keeps_def)

lemma fold_max_le: "a \<le> fold max xs a \<and> (\<forall>x \<in> set xs. x \<le> fold max xs (a :: nat))"
proof (induction xs arbitrary: a)
  case (Cons x xs)
  from Cons [of "max x a"] show ?case by auto
qed simp

lemma node_of_attempts: "yields P (node_of p nid) (\<lambda>d. unat (rp_max_attempts (n_retry d)) \<le> attempts_bound p)"
proof -
  have "unat (rp_max_attempts (n_retry d)) \<le> attempts_bound p" if "map_of (pl_nodes p) nid = Some d" for d
    using map_of_SomeD [OF that] fold_max_le [of 0 "map (unat \<circ> rp_max_attempts \<circ> n_retry \<circ> snd) (pl_nodes p)"]
    by (force simp: attempts_bound_def)
  then show ?thesis
    by (auto simp: node_of_def split: option.split intro!: valid_alift)
qed

definition goes_on :: "execution_env \<Rightarrow> pipeline_definition \<Rightarrow> branch_phase \<Rightarrow> branch_phase \<Rightarrow> bool" where
  "goes_on X p ph ph' \<longleftrightarrow> ph' \<noteq> Ended \<and> phase_ok X p ph' \<and> phase_cost X p ph' < phase_cost X p ph"

lemma begins_yields: "yields (counts n c) (branch_begins X p b v k) (goes_on X p (Attempting v k))"
  unfolding branch_begins_def
  apply (rule yields_look, rule yields_after, rule node_of_attempts)
  apply (intro yields_rules shared.kept_branch_parts shared.kept_persist shared.kept_on_world)
         apply (auto simp: goes_on_def Suc_diff_le polls_per_attempt_def keeps_def)
  done

lemma executes_yields:
  "k \<le> attempts_bound p \<Longrightarrow> yields (counts n c) (branch_executes X p b d v k) (goes_on X p (Executing v k))"
  unfolding branch_executes_def child_attempt_def Let_def
  by (intro yields_rules shared.kept_branch_parts) (auto simp: goes_on_def keeps_def modify_def exec_inv_def)

lemma polls_yields:
  "phase_ok X p (Polling v k child_id m) \<Longrightarrow>
   yields (counts n c) (branch_polls X b d v k child_id m) (goes_on X p (Polling v k child_id m))"
  unfolding branch_polls_def Let_def
  by (intro yields_rules shared.kept_branch_parts shared.kept_calling) (auto simp: goes_on_def keeps_def)

lemma finishes_yields: "yields (counts n c) (branch_finishes X p b d v k result) (goes_on X p (Finishing v k result))"
  unfolding branch_finishes_def count_visit_def adopt_message_def Let_def
  by (intro yields_rules shared.kept_branch_parts shared.kept_persist shared.kept_branch_route) (auto simp: goes_on_def keeps_def)

lemma retries_yields:
  "ph \<in> {Executing v k, Finishing v k result, Polling v k child_id m} \<Longrightarrow>
   yields (counts n c) (branch_retries X b d v k code text) (goes_on X p ph)"
  unfolding branch_retries_def Let_def
  by (intro yields_rules shared.kept_branch_parts shared.kept_persist) (auto simp: goes_on_def keeps_def)

lemma attempting_yields:
  assumes "ph \<in> {Executing v k, Finishing v k result, Polling v k child_id m}" and "\<And>d. yields (counts n c) (f d) (goes_on X p ph)"
  shows "yields (counts n c) (attempting X p b v k f) (goes_on X p ph)"
  unfolding attempting_def
  by (intro yields_look yields_abind shared.kept_node_of yields_atry assms retries_yields [OF assms(1)])

lemma step_yields:
  assumes "ph \<noteq> Ended" and "ph \<noteq> Arriving" and "phase_ok X p ph"
  shows "yields (counts n c) (branch_step X p b ph) (goes_on X p ph)"
  using assms
  by (cases ph)
    (auto simp: branch_step_def intro!: begins_yields attempting_yields executes_yields polls_yields finishes_yields)

text \<open>An arrival ends the branch, or takes a step.\<close>

definition arrived :: "pipeline_definition \<Rightarrow> u32 \<Rightarrow> nat \<Rightarrow> branch_phase \<Rightarrow> execution \<Rightarrow> bool" where
  "arrived p n c ph s \<longleftrightarrow>
     ph = Ended \<and> counts n (Suc c) s \<or> (\<exists>v. ph = Attempting v 1) \<and> n < pl_max_steps p \<and> counts (n + 1) c s"

lemma arrives_valid:
  "valid (counts n c) (branch_arrives X p b) (arrived p n c) (\<lambda>s. counts n c s \<or> n < pl_max_steps p \<and> counts (n + 1) c s)"
proof -
  let ?fails = "\<lambda>s. counts n c s \<or> n < pl_max_steps p \<and> counts (n + 1) c s"
  have join: "valid (counts n c) (abind (arrive_at_join b) (\<lambda>_. aret Ended)) (arrived p n c) ?fails"
    by (auto simp: valid_def arrive_at_join_def look_def abind_def change_parallel_def modify_def athrow_def alift_def aret_def
        arrived_def exec_inv_def Let_def)
  have step: "valid (counts n c) (take_step p) (\<lambda>_ s. n < pl_max_steps p \<and> counts (n + 1) c s) ?fails"
    by (auto simp: valid_def take_step_def look_def change_parallel_def modify_def athrow_def alift_def exec_inv_def)
  have after: "valid (\<lambda>s. n < pl_max_steps p \<and> counts (n + 1) c s) m (arrived p n c) ?fails"
    if "yields (counts (n + 1) c) m (\<lambda>ph. \<exists>v. ph = Attempting v 1)" for m
    using that by (fastforce simp: valid_def arrived_def split: prod.splits sum.splits)
  have node: "valid (counts n c) (node_of p nid) (\<lambda>_. counts n c) ?fails" for nid
    by (auto simp: node_of_def intro!: valid_alift)
  show ?thesis
    unfolding branch_arrives_def
    apply (rule valid_look, rule valid_weaken [where P = "counts n c"])
       apply (rule valid_abind, rule node, rule valid_if, rule join)
       apply (rule valid_abind, rule step, rule after)
       apply (intro yields_rules shared.kept_branch_parts)
        apply auto
    done
qed

lemma unat_step: "n < (m :: u32) \<Longrightarrow> unat (n + 1) = Suc (unat n)"
  using unsigned_less [of m, where 'a = nat] by (intro unat_add_lem [THEN iffD1, THEN trans]) (simp_all add: word_less_nat_alt)

text \<open>Whatever a step of a branch does, the group comes nearer to its end, and a branch that ends is counted.\<close>

definition group_rank :: "execution_env \<Rightarrow> pipeline_definition \<Rightarrow> execution \<Rightarrow> nat" where
  "group_rank X p s = (unat (pl_max_steps p) - unat (ps_steps (xs_parallel s))) * node_fuel X p"

definition nearer :: "execution_env \<Rightarrow> pipeline_definition \<Rightarrow> execution \<Rightarrow> branch_phase \<Rightarrow> execution \<Rightarrow> branch_phase \<Rightarrow> bool" where
  "nearer X p s ph s' ph' \<longleftrightarrow>
     phase_ok X p ph' \<and> group_rank X p s' + phase_cost X p ph' < group_rank X p s + phase_cost X p ph \<and>
     ps_completed (xs_parallel s') = ps_completed (xs_parallel s) + (if ph' = Ended then 1 else 0) \<and>
     ps_steps (xs_parallel s) \<le> ps_steps (xs_parallel s')"

lemma step_grows: "n < (m :: u32) \<Longrightarrow> n \<le> n + 1"
  by (simp add: word_le_nat_alt unat_step)

lemma rank_step:
  assumes "n < pl_max_steps p" and "ps_steps (xs_parallel s) = n" and "ps_steps (xs_parallel s') = n + 1"
  shows "group_rank X p s = group_rank X p s' + node_fuel X p"
proof -
  have "unat n < unat (pl_max_steps p)" using assms(1) by (simp add: word_less_nat_alt)
  then show ?thesis
    unfolding group_rank_def assms(2,3) unat_step [OF assms(1)] by (metis Suc_diff_Suc add.commute mult_Suc)
qed

lemma rank_same: "ps_steps (xs_parallel s) = ps_steps (xs_parallel s') \<Longrightarrow> group_rank X p s = group_rank X p s'"
  by (simp add: group_rank_def)

lemma branch_failed_counts:
  "\<exists>s'. abind (branch_failed e) (\<lambda>_. aret Ended) s = (Inr Ended, s') \<and> ps_steps (xs_parallel s') = ps_steps (xs_parallel s) \<and>
     ps_completed (xs_parallel s') = Suc (ps_completed (xs_parallel s))"
  by (auto simp: branch_failed_def change_parallel_def modify_def abind_def aret_def split: exn.split)

lemma guarded_step_nearer:
  assumes "ph \<noteq> Ended" and "phase_ok X p ph"
  shows "\<exists>ph' s'. guarded_step X p b ph s = (Inr ph', s') \<and> nearer X p s ph s' ph'"
proof -
  let ?n = "ps_steps (xs_parallel s)" and ?c = "ps_completed (xs_parallel s)"
  have here: "counts ?n ?c s" by (simp add: exec_inv_def)
  have cost: "0 < phase_cost X p ph" using assms(1) by (cases ph) simp_all
  obtain r s1 where step: "branch_step X p b ph s = (r, s1)" by fastforce
  show ?thesis
  proof (cases r)
    case (Inl e)
    obtain s' where s': "abind (branch_failed e) (\<lambda>_. aret Ended) s1 = (Inr Ended, s')"
        "ps_steps (xs_parallel s') = ps_steps (xs_parallel s1)" "ps_completed (xs_parallel s') = Suc (ps_completed (xs_parallel s1))"
      using branch_failed_counts by blast
    have "counts ?n ?c s1 \<or> ?n < pl_max_steps p \<and> counts (?n + 1) ?c s1"
    proof (cases "ph = Arriving")
      case True
      with valid_throw [OF arrives_valid here, of X p b e s1] step Inl show ?thesis by (simp add: branch_step_def)
    next
      case False
      with valid_throw [OF step_yields here, OF assms(1) False assms(2), of b e s1] step Inl show ?thesis by simp
    qed
    then have "nearer X p s ph s' Ended"
      using s'(2,3) cost rank_same [of s s' X p] rank_step [of ?n p s s' X] by (auto simp: nearer_def countsD intro: step_grows)
    with step Inl s'(1) show ?thesis by (auto simp: guarded_step_def acatch_def)
  next
    case (Inr ph')
    have "nearer X p s ph s1 ph'"
    proof (cases "ph = Arriving")
      case True
      with valid_return [OF arrives_valid here, of X p b ph' s1] step Inr have "arrived p ?n ?c ph' s1" by (simp add: branch_step_def)
      then show ?thesis
        using True rank_same [of s s1 X p] rank_step [of ?n p s s1 X]
        by (auto simp: arrived_def nearer_def countsD node_fuel_def polls_per_attempt_def intro: step_grows)
    next
      case False
      with valid_return [OF step_yields here, OF assms(1) False assms(2), of b ph' s1] step Inr
      show ?thesis using rank_same [of s s1 X p] by (auto simp: nearer_def countsD goes_on_def)
    qed
    with step Inr show ?thesis by (auto simp: guarded_step_def acatch_def)
  qed
qed

text \<open>The group as a whole.\<close>

definition group_ok :: "execution_env \<Rightarrow> pipeline_definition \<Rightarrow> branch list \<Rightarrow> execution \<Rightarrow> bool" where
  "group_ok X p brs s \<longleftrightarrow>
     (\<forall>br \<in> set brs. phase_ok X p (br_phase br)) \<and> ps_completed (xs_parallel s) + length (unfinished brs) = length brs"

definition work_left :: "execution_env \<Rightarrow> pipeline_definition \<Rightarrow> branch list \<Rightarrow> execution \<Rightarrow> nat" where
  "work_left X p brs s = group_rank X p s + sum_list (map (phase_cost X p \<circ> br_phase) brs)"

lemma unfinished_filter: "length (unfinished brs) = length (filter (\<lambda>br. br_phase br \<noteq> Ended) brs)"
proof -
  have "filter (\<lambda>br. br_phase br \<noteq> Ended) (map ((!) brs) [0..<length brs]) = map ((!) brs) (unfinished brs)"
    by (simp add: filter_map unfinished_def comp_def)
  then have "length (filter (\<lambda>br. br_phase br \<noteq> Ended) (map ((!) brs) [0..<length brs])) = length (unfinished brs)" by simp
  then show ?thesis unfolding map_nth by simp
qed

lemma on_branch_nearer:
  assumes "br_phase br \<noteq> Ended" and "phase_ok X p (br_phase br)"
  shows "\<exists>br' s'. on_branch br (guarded_step X p b (br_phase br)) s = (Inr br', s') \<and> nearer X p s (br_phase br) s' (br_phase br')"
proof -
  let ?s = "s\<lparr>xs_run := br_run br, xs_attempt := br_attempt br\<rparr>"
  obtain ph s1 where step: "guarded_step X p b (br_phase br) ?s = (Inr ph, s1)" "nearer X p ?s (br_phase br) s1 ph"
    using guarded_step_nearer [OF assms, of b ?s] by blast
  let ?br = "\<lparr>br_phase = ph, br_run = xs_run s1, br_attempt = xs_attempt s1\<rparr>"
  let ?s1 = "s1\<lparr>xs_run := xs_run s, xs_attempt := xs_attempt s\<rparr>"
  have "on_branch br (guarded_step X p b (br_phase br)) s = (Inr ?br, ?s1)" using step(1) by (simp add: on_branch_def)
  moreover have "nearer X p s (br_phase br) ?s1 (br_phase ?br)" using step(2) by (simp add: nearer_def group_rank_def)
  ultimately show ?thesis by blast
qed

lemma group_step:
  assumes "group_ok X p brs s" and "i < length brs" and "br_phase (brs ! i) \<noteq> Ended"
    and "nearer X p s (br_phase (brs ! i)) s' (br_phase br)"
  shows "group_ok X p (brs[i := br]) s'" and "work_left X p (brs[i := br]) s' < work_left X p brs s"
proof -
  obtain xs ys where brs: "brs = xs @ brs ! i # ys" and xs: "length xs = i"
    using id_take_nth_drop [OF assms(2)] assms(2) by (metis length_take min.absorb2 less_imp_le_nat)
  have new: "brs[i := br] = xs @ br # ys" using brs xs by (metis list_update_length)
  show "group_ok X p (brs[i := br]) s'"
    unfolding new using assms(1,3,4) unfolding group_ok_def unfinished_filter
    by (subst (asm) (1 2 3) brs) (auto simp: nearer_def)
  show "work_left X p (brs[i := br]) s' < work_left X p brs s"
    unfolding new using assms(4) by (subst brs) (simp add: work_left_def nearer_def)
qed

lemma run_branches_ends:
  assumes "group_ok X p brs s" and "work_left X p brs s \<le> fuel"
  shows "\<exists>s'. run_branches X p b fuel brs s = (Inr True, s') \<and> ps_completed (xs_parallel s') = length brs \<and>
    ps_steps (xs_parallel s) \<le> ps_steps (xs_parallel s')"
  using assms
proof (induction fuel arbitrary: brs s)
  case 0
  then have "\<forall>br \<in> set brs. phase_cost X p (br_phase br) = 0" by (simp add: work_left_def)
  then have "\<forall>br \<in> set brs. br_phase br = Ended" by (metis branch_phase.exhaust phase_cost.simps add_is_0 one_neq_zero)
  then have "unfinished brs = []" by (simp add: unfinished_def)
  with 0 show ?case by (simp add: group_ok_def aret_def)
next
  case (Suc fuel)
  show ?case
  proof (cases "unfinished brs = []")
    case True
    with Suc.prems show ?thesis by (simp add: group_ok_def aret_def)
  next
    case False
    let ?n = "xe_order X (rt_tick (xs_world s))"
    let ?i = "unfinished brs ! (?n mod length (unfinished brs))"
    obtain s0 where draw: "xdraw (xe_order X) s = (Inr ?n, s0)" and s0: "xs_parallel s0 = xs_parallel s"
      by (simp add: xdraw_def on_world_def draw_def)
    have "?i \<in> set (unfinished brs)" using False by (intro nth_mem) simp
    then have i: "?i < length brs" "br_phase (brs ! ?i) \<noteq> Ended" by (simp_all add: unfinished_def)
    have ok: "group_ok X p brs s0" and left: "work_left X p brs s0 = work_left X p brs s"
      using Suc.prems(1) s0 by (simp_all add: group_ok_def work_left_def group_rank_def)
    with i have "phase_ok X p (br_phase (brs ! ?i))" by (simp add: group_ok_def)
    then obtain br s1 where br: "on_branch (brs ! ?i) (guarded_step X p b (br_phase (brs ! ?i))) s0 = (Inr br, s1)"
        "nearer X p s0 (br_phase (brs ! ?i)) s1 (br_phase br)"
      using on_branch_nearer [OF i(2)] by blast
    have "work_left X p (brs[?i := br]) s1 \<le> fuel"
      using group_step(2) [OF ok i br(2)] left Suc.prems(2) by simp
    from Suc.IH [OF group_step(1) [OF ok i br(2)] this] False draw br s0 show ?thesis
      by (auto simp: abind_def Let_def nearer_def)
  qed
qed

lemma new_group:
  assumes "\<forall>br \<in> set brs. br_phase br = Arriving"
  shows "ps_completed (xs_parallel s) = 0 \<Longrightarrow> group_ok X p brs s" and "work_left X p brs s \<le> branch_fuel X p (length brs)"
proof -
  show "group_ok X p brs s" if "ps_completed (xs_parallel s) = 0"
    using assms that by (simp add: group_ok_def unfinished_filter)
  have "sum_list (map (phase_cost X p \<circ> br_phase) brs) = length brs"
    using assms by (induction brs) simp_all
  moreover have "group_rank X p s \<le> unat (pl_max_steps p) * node_fuel X p"
    unfolding group_rank_def by (rule mult_le_mono1) simp
  ultimately show "work_left X p brs s \<le> branch_fuel X p (length brs)"
    by (simp add: work_left_def branch_fuel_def)
qed

text \<open>
  C6: A parallel group always ends: however the executor's threads interleave its branches and whatever their nodes answer or throw,
  every branch reports to the shared state exactly once, so that the loop that waits for \<^verbatim>\<open>completed == outputs.size()\<close> is left.
\<close>

theorem branches_always_report:
  assumes "list_all (\<lambda>br. br_phase br = Arriving) brs" and "ps_completed (xs_parallel s) = 0"
  shows "\<exists>s'. run_branches X p b (branch_fuel X p (length brs)) brs s = (Inr True, s') \<and> ps_completed (xs_parallel s') = length brs"
  using run_branches_ends [OF new_group(1) new_group(2), of brs s X p b] assms by (auto simp: list_all_iff)

lemma branches_always_report_witness:
  "\<exists>s'. run_branches lone_engine loop_pipeline \<lparr>bj_stop = OfBranch ''r1'', bj_lease = None, bj_work_id = [], bj_attempt_id = []\<rparr>
     (branch_fuel lone_engine loop_pipeline 2)
     [\<lparr>br_phase = Arriving, br_run = some_run\<lparr>r_active_node := ''task''\<rparr>, br_attempt = new_attempt [] []\<rparr>,
      \<lparr>br_phase = Arriving, br_run = some_run\<lparr>r_active_node := ''turn''\<rparr>, br_attempt = new_attempt [] []\<rparr>]
     (start_execution (idle_runtime empty_store) some_run) = (Inr True, s') \<and> ps_completed (xs_parallel s') = 2"
  using branches_always_report [of "[\<lparr>br_phase = Arriving, br_run = some_run\<lparr>r_active_node := ''task''\<rparr>, br_attempt = new_attempt [] []\<rparr>,
      \<lparr>br_phase = Arriving, br_run = some_run\<lparr>r_active_node := ''turn''\<rparr>, br_attempt = new_attempt [] []\<rparr>]"
      "start_execution (idle_runtime empty_store) some_run" lone_engine loop_pipeline
      "\<lparr>bj_stop = OfBranch ''r1'', bj_lease = None, bj_work_id = [], bj_attempt_id = []\<rparr>"]
  by (simp add: start_execution_def new_parallel_def numeral_2_eq_2)

section \<open>The loop of a run\<close>

text \<open>
  \<open>stands n q\<close>: the run has taken \<open>n\<close> steps and the tokens \<open>q\<close> are ready; \<open>reached n\<close>: it has taken as many or more, and
  the ready queue is within its limit.
\<close>

abbreviation running :: "(run \<Rightarrow> bool) \<Rightarrow> execution \<Rightarrow> bool" where
  "running R \<equiv> exec_inv (\<lambda>_. True) R (\<lambda>_. True) (\<lambda>_. True)"

definition stands :: "u32 \<Rightarrow> execution_token list \<Rightarrow> run \<Rightarrow> bool" where
  "stands n q r \<longleftrightarrow> r_steps r = n \<and> r_ready r = q"

definition reached :: "u32 \<Rightarrow> run \<Rightarrow> bool" where
  "reached n r \<longleftrightarrow> n \<le> r_steps r \<and> length (r_ready r) \<le> 256"

lemma steady_stands: "steady (stands n q)" and steady_reached: "steady (reached n)"
  by (simp_all add: steady_def stands_def reached_def)

abbreviation ensures :: "(execution \<Rightarrow> bool) \<Rightarrow> 'a ex \<Rightarrow> ('a \<Rightarrow> execution \<Rightarrow> bool) \<Rightarrow> bool" where
  "ensures P m Q \<equiv> valid P m Q (\<lambda>_. True)"

lemma ensures_kept: "keeps P m \<Longrightarrow> ensures P m (\<lambda>_. P)"
  by (auto simp: keeps_valid intro: valid_weaken)

lemma ensures_abind: "keeps P m \<Longrightarrow> (\<And>a. ensures P (f a) Q) \<Longrightarrow> ensures P (abind m f) Q"
  by (rule valid_abind [OF ensures_kept])

lemma ensures_after: "yields P m R \<Longrightarrow> (\<And>a. R a \<Longrightarrow> ensures P (f a) Q) \<Longrightarrow> ensures P (abind m f) Q"
  by (rule valid_abind [where Q = "\<lambda>a s. P s \<and> R a"]) (auto simp: valid_def split: prod.splits sum.splits)

lemma ensures_look: "(\<And>s. P s \<Longrightarrow> ensures P (f s) Q) \<Longrightarrow> ensures P (look f) Q"
  by (auto simp: valid_def look_def)

lemma ensures_simple: "ensures P (athrow c t) Q" "ensures P (alift (Inl e)) Q" "(\<And>s. P s \<Longrightarrow> Q a s) \<Longrightarrow> ensures P (aret a) Q"
  by (auto simp: valid_def aret_def athrow_def alift_def)

lemma ensures_change: "(\<And>r. R r \<Longrightarrow> R' (f r)) \<Longrightarrow> ensures (running R) (change_run f) (\<lambda>_. running R')"
  by (auto simp: valid_def change_run_def modify_def exec_inv_def)

lemma stored_kept:
  assumes "steady R"
  shows "keeps (running R) (x_checkpoint X type records)" and "keeps (running R) (x_transition X state type records)"
  by (rule anywhere.kept_checkpoint; simp add: assms list_all_iff)+

lemma recorded: "ensures (running (stands n q)) (record_result X d result) (\<lambda>_. running (stands (n + 1) q))"
proof -
  have fields: "keeps (running (stands n q)) (worker_fields X d result)"
    unfolding worker_fields_def Let_def
    by (intro keeps_rules anywhere.kept_parts anywhere.kept_run) (simp add: stands_def)
  have rest: "keeps (running (stands m q)) (count_visit d)" "keeps (running (stands m q)) (adopt_message X d (nr_message result))"
      "keeps (running (stands m q)) trim_provenance" "keeps (running (stands m q)) (take_candidates d)"
      "keeps (running (stands m q)) (change_run (\<lambda>r. r\<lparr>r_child_id := []\<rparr>))" for m
    unfolding count_visit_def adopt_message_def trim_provenance_def take_candidates_def Let_def
    by (intro keeps_rules anywhere.kept_node_parts anywhere.kept_run anywhere.kept_local; simp add: stands_def)+
  show ?thesis
    unfolding record_result_def
    apply (rule ensures_abind [OF anywhere.kept_attempt])
    apply (rule ensures_abind [OF fields])
    apply (rule valid_abind [OF ensures_change [where R' = "stands (n + 1) q"]])
     apply (simp add: stands_def)
    apply (intro ensures_abind rest keeps_control ensures_look ensures_simple)
    apply assumption
    done
qed

text \<open>Routing within the limit of the ready queue; a parallel node runs its branches here.\<close>

definition routed_from :: "u32 \<Rightarrow> run \<Rightarrow> bool" where
  "routed_from n r \<longleftrightarrow> r_steps r = n \<and> length (r_ready r) \<le> 256"

lemma next_ready_limits: "length (r_ready (snd (next_ready r))) \<le> length (r_ready r) \<and> r_steps (snd (next_ready r)) = r_steps r"
  by (auto simp: next_ready.simps split: list.split)

lemma advance_limits:
  assumes "advance grp r p d condition = (Inr go, r')" and "n_type d \<noteq> ''output''"
  shows "routed_from (r_steps r) r'"
proof -
  from assms obtain u r1 where "push_edges d grp (length (matching p d condition)) 0 (matching p d condition) r = (Inr u, r1)"
    and "length (r_ready r1) \<le> 256" "r' = (if n_type d = ''parallel'' then r1 else snd (next_ready r1))"
    using advance_cases [OF assms] by metis
  moreover from arg_cong [OF push_edges_Inr [OF this(1)], of r_steps] have "r_steps r1 = r_steps r" by simp
  ultimately show ?thesis
    using next_ready_limits [of r1] by (auto simp: routed_from_def)
qed

lemma advanced:
  assumes "n_type d \<noteq> ''output''"
  shows "ensures (running (stands n q)) (advance_run X p d condition) (\<lambda>_. running (routed_from n))"
proof -
  have "ensures (running (stands n q)) (abind (change_run (\<lambda>_. r)) (\<lambda>_. alift res)) (\<lambda>_. running (routed_from n))"
    if "advance grp (xs_run s) p d condition = (res, r)" "running (stands n q) s" for grp s res r
    using that advance_limits [OF _ assms, of grp "xs_run s" p condition]
    by (auto simp: valid_def abind_def change_run_def modify_def alift_def exec_inv_def stands_def split: sum.split)
  then show ?thesis
    unfolding advance_run_def
    by (intro ensures_abind ensures_look anywhere.kept_on_world) (auto simp: keeps_def split: prod.split)
qed

lemma advanced_output:
  assumes "n_type d = ''output''"
  shows "ensures P (advance_run X p d condition) (\<lambda>go _. \<not> go)"
  using assms
  by (auto simp: valid_def advance_run_def advance_def abind_def look_def change_run_def modify_def alift_def split: prod.split sum.split)

abbreviation sharing :: "(run \<Rightarrow> bool) \<Rightarrow> u32 \<Rightarrow> execution \<Rightarrow> bool" where
  "sharing R m \<equiv> exec_inv (\<lambda>_. True) R (\<lambda>_. True) (\<lambda>ps. ps_steps ps = m \<and> ps_completed ps = 0)"

lemma group_arrives:
  assumes "\<forall>br \<in> set brs. br_phase br = Arriving"
  shows "yields (sharing R m)
    (afold (\<lambda>token brs. abind (branch_of X p levels session_id token) (\<lambda>br. aret (brs @ [br]))) tokens brs)
    (\<lambda>brs'. length brs' = length brs + length tokens \<and> (\<forall>br \<in> set brs'. br_phase br = Arriving))"
  using assms
proof (induction tokens arbitrary: brs)
  case (Cons token tokens)
  have branch: "yields (sharing R m) (branch_of X p levels session_id token) (\<lambda>br. br_phase br = Arriving)"
    unfolding branch_of_def by (intro yields_abind yields_simple shared.kept_on_world) (simp_all add: keeps_def)
  have "yields (sharing R m) (abind (branch_of X p levels session_id token) (\<lambda>br. aret (brs @ [br])))
      (\<lambda>brs'. length brs' = Suc (length brs) \<and> (\<forall>br \<in> set brs'. br_phase br = Arriving))"
    by (rule yields_after [OF branch]) (rule yields_simple(1), use Cons.prems in auto)
  then show ?case
    unfolding afold.simps
  proof (rule yields_after)
    fix brs1 :: "branch list"
    assume new: "length brs1 = Suc (length brs) \<and> (\<forall>br \<in> set brs1. br_phase br = Arriving)"
    with Cons.IH [of brs1] show "yields (sharing R m)
        (afold (\<lambda>token brs. abind (branch_of X p levels session_id token) (\<lambda>br. aret (brs @ [br]))) tokens brs1)
        (\<lambda>brs'. length brs' = length brs + length (token # tokens) \<and> (\<forall>br \<in> set brs'. br_phase br = Arriving))"
      by simp
  qed
qed (simp add: yields_simple)

lemma group_runs:
  assumes "length brs = width \<and> (\<forall>br \<in> set brs. br_phase br = Arriving)"
  shows "ensures (sharing R m) (run_branches X p b (branch_fuel X p width) brs)
    (\<lambda>_ s. running R s \<and> m \<le> ps_steps (xs_parallel s))"
proof (rule validI)
  fix s a s'
  assume s: "sharing R m s" and run: "run_branches X p b (branch_fuel X p width) brs s = (Inr a, s')"
  have "list_all (\<lambda>br. branch_ready X p (br_phase br) (br_run br)) brs" using assms by (auto simp: list_all_iff)
  then have "anywhere.kept R (\<lambda>_. True) (run_branches X p b (branch_fuel X p width) brs)"
    by (intro anywhere.kept_run_branches) simp_all
  then have "running R s'"
    using keepsD [of _ _ s] s run by (fastforce simp: exec_inv_def)
  moreover have "ps_steps (xs_parallel s) \<le> ps_steps (xs_parallel s')"
    using run_branches_ends [OF new_group(1) new_group(2), of brs s X p b] assms s run by (auto simp: exec_inv_def)
  ultimately show "running R s' \<and> m \<le> ps_steps (xs_parallel s')"
    using s by (simp add: exec_inv_def)
qed simp

abbreviation joined :: "u32 \<Rightarrow> run \<Rightarrow> bool" where
  "joined m \<equiv> \<lambda>r. m \<le> r_steps r \<and> r_ready r = []"

lemma group_joins: "ensures (running (stands m [])) (run_group X p tokens) (\<lambda>waits s. \<not> waits \<and> running (joined m) s)"
proof -
  have start: "ensures (running (stands m [])) (change_parallel (\<lambda>_. new_parallel width (r_steps (xs_run s)))) (\<lambda>_. sharing (stands m []) m)"
    if "running (stands m []) s" for width s
    using that by (simp add: valid_def change_parallel_def modify_def exec_inv_def new_parallel_def stands_def)
  have changes: "ensures (running (joined m)) (change_run f) (\<lambda>_. running (joined m))"
    if "\<And>r. r_steps (f r) = r_steps r \<and> r_ready (f r) = r_ready r" for f
    by (rule ensures_change) (simp add: that)
  have collects: "keeps (running (joined m)) (afor outputs collect_output)" for outputs
    unfolding collect_output_def by (intro keeps_rules anywhere.kept_run) simp
  have ends: "ensures (\<lambda>s. running (stands m []) s \<and> m \<le> ps_steps (xs_parallel s))
      (look (\<lambda>s. abind (change_run (\<lambda>r. r\<lparr>r_steps := ps_steps (xs_parallel s)\<rparr>)) (g s))) Q"
    if "\<And>s u. ensures (running (joined m)) (g s u) Q" for g and Q :: "bool \<Rightarrow> execution \<Rightarrow> bool"
    using that
    by (fastforce simp: valid_def look_def abind_def change_run_def modify_def exec_inv_def stands_def split: prod.splits sum.splits)
  have body: "ensures (running (joined m)) (if failed then athrow code t
      else abind (change_run (\<lambda>r. r\<lparr>r_message := (r_message r)\<lparr>m_payload := JArr []\<rparr>\<rparr>)) (\<lambda>_.
        abind (afor outs collect_output) (\<lambda>_. abind (change_run (\<lambda>r. r\<lparr>r_frames := []\<rparr>)) (\<lambda>_.
        abind (node_of p nid) (\<lambda>d. abind (change_run (\<lambda>r. r\<lparr>r_active_node := n_join d, r_prepared_join := n_join d\<rparr>)) (\<lambda>_.
        aret False)))))) (\<lambda>waits s. \<not> waits \<and> running (joined m) s)" for failed code t outs nid
    by (intro valid_if ensures_simple valid_abind [OF changes] ensures_abind collects anywhere.kept_node_of) simp_all
  show ?thesis
    unfolding run_group_def Let_def
    apply (rule ensures_look, rule valid_abind, erule start)
    apply (rule ensures_after, rule group_arrives, simp)
    apply (rule ensures_abind, intro keeps_rules shared.kept_spawned)
    apply (rule valid_abind, rule group_runs, simp)
    apply (rule ends, rule body)
    done
qed

lemma parallel_joins: "ensures (running (routed_from m)) (execute_parallel X p) (\<lambda>waits s. waits \<or> running (joined m) s)"
proof -
  have left: "ensures P (distribute_branches X p tokens) (\<lambda>waits s. waits \<or> running (joined m) s)" for P tokens
    by (rule validI) (auto simp: distribute_branches_def look_def abind_Inr aret_def)
  have local: "ensures (running (stands m [])) (run_group X p tokens) (\<lambda>waits s. waits \<or> running (joined m) s)" for tokens
    by (rule valid_weaken [OF group_joins]) auto
  have taken: "ensures (running (routed_from m)) (change_run (\<lambda>r. r\<lparr>r_ready := []\<rparr>)) (\<lambda>_. running (stands m []))"
    by (rule ensures_change) (simp add: routed_from_def stands_def)
  show ?thesis
    unfolding execute_parallel_def Let_def
    by (intro ensures_look valid_abind [OF taken] ensures_abind keeps_rules valid_if left local)
qed

lemma result_routed:
  "ensures (running (stands m q)) (route_result X p d condition records)
     (\<lambda>routing s. \<forall>records'. routing = Goes True records' \<longrightarrow> running (reached m) s)"
proof -
  let ?Q = "\<lambda>routing s. \<forall>records'. routing = Goes True records' \<longrightarrow> running (reached m) s"
  have at_output: "ensures (running (stands m q)) (abind (advance_run X p d condition) (\<lambda>go. aret (Goes go records))) ?Q"
    if "n_type d = ''output''"
    by (rule valid_abind [OF advanced_output [OF that]]) (simp add: valid_def aret_def)
  have step: "ensures (running (stands m q)) (abind (advance_run X p d condition) f) ?Q"
    if "n_type d \<noteq> ''output''" "\<And>go. ensures (running (routed_from m)) (f go) ?Q" for f
    by (rule valid_abind [OF advanced [OF that(1)] that(2)])
  have sequential: "ensures (running (routed_from m))
      (look (\<lambda>s. case next_ready (xs_run s) of (go, r) \<Rightarrow> abind (change_run (\<lambda>_. r)) (\<lambda>_. aret (Goes go records)))) ?Q"
    by (rule validI) (use next_ready_limits order_trans in
      \<open>auto simp: look_def abind_def change_run_def modify_def aret_def exec_inv_def routed_from_def reached_def case_prod_beta\<close>)
  have concurrent: "ensures (running (routed_from m)) (abind (execute_parallel X p) (\<lambda>waits.
      if waits then abind (x_checkpoint X ''node.completed'' records) (\<lambda>_. aret Waits)
      else look (\<lambda>s. aret (Goes go (renew_message (xs_run s) records))))) ?Q" for go
  proof (rule valid_abind [OF parallel_joins])
    fix waits
    show "ensures (\<lambda>s. waits \<or> running (joined m) s) (if waits then abind (x_checkpoint X ''node.completed'' records) (\<lambda>_. aret Waits)
      else look (\<lambda>s. aret (Goes go (renew_message (xs_run s) records)))) ?Q"
      by (rule validI) (auto simp: abind_Inr aret_def look_def exec_inv_def reached_def split: if_splits)
  qed
  have routed: "ensures (running (routed_from m)) (aret (Goes go records)) ?Q" for go
    by (auto simp: exec_inv_def routed_from_def reached_def intro!: ensures_simple)
  show ?thesis
    unfolding route_result_def
  proof (rule valid_if)
    show "ensures (running (stands m q)) (abind (advance_run X p d condition) (\<lambda>go. aret (Goes go records))) ?Q"
      by (cases "n_type d = ''output''") (erule at_output, erule step, rule routed)
  next
    assume "\<not> n_type d \<noteq> ''parallel''"
    then have "n_type d \<noteq> ''output''" by simp
    then show "ensures (running (stands m q)) (abind (alift (approval_branch p d)) (\<lambda>sequential.
        abind (advance_run X p d condition) (\<lambda>go.
        if sequential then
          look (\<lambda>s. case next_ready (xs_run s) of (go, r) \<Rightarrow> abind (change_run (\<lambda>_. r)) (\<lambda>_. aret (Goes go records)))
        else
          abind (execute_parallel X p) (\<lambda>waits.
          if waits then abind (x_checkpoint X ''node.completed'' records) (\<lambda>_. aret Waits)
          else look (\<lambda>s. aret (Goes go (renew_message (xs_run s) records))))))) ?Q"
      by (intro ensures_abind keeps_simple step valid_if sequential concurrent)
  qed
qed

lemma ensures_rethrow:
  "ensures P m Q \<Longrightarrow> ensures P (acatch m (\<lambda>e. abind (f e) (\<lambda>_. alift (Inl e)))) Q"
  by (auto simp: valid_def acatch_def abind_def alift_def split: prod.splits sum.splits)

lemma node_completed:
  "ensures (running (stands n q)) (complete_node X p d result) (\<lambda>go s. go \<longrightarrow> running (reached (n + 1)) s)"
proof -
  have "ensures (\<lambda>s. \<forall>records'. routing = Goes True records' \<longrightarrow> running (reached (n + 1)) s)
      (case routing of Waits \<Rightarrow> aret False | Goes go records \<Rightarrow>
         if \<not> go then abind (x_transition X RCompleted ''run.completed'' records) (\<lambda>_. aret False)
         else abind (x_checkpoint X ''node.completed'' records) (\<lambda>_. aret True)) (\<lambda>go s. go \<longrightarrow> running (reached (n + 1)) s)" for routing
  proof (cases routing)
    case Waits
    then show ?thesis by (auto intro: ensures_simple)
  next
    case (Goes go records)
    show ?thesis
    proof (cases go)
      case True
      then have "ensures (running (reached (n + 1))) (abind (x_checkpoint X ''node.completed'' records) (\<lambda>_. aret True))
          (\<lambda>go s. go \<longrightarrow> running (reached (n + 1)) s)"
        by (intro ensures_abind stored_kept steady_reached ensures_simple) simp
      then show ?thesis by (simp add: True Goes)
    next
      case False
      then show ?thesis by (simp add: Goes) (rule validI, auto simp: abind_Inr aret_def)
    qed
  qed
  then show ?thesis
    unfolding complete_node_def
    by (intro valid_abind [OF recorded] valid_abind [OF ensures_rethrow [OF result_routed]])
qed

lemma attempted:
  "ensures (running (stands n q)) (attempts X p d node c approval left) (\<lambda>go s. go \<longrightarrow> running (reached (n + 1)) s)"
proof (induction left arbitrary: c)
  case (Suc left)
  note steady = steady_stands [of n q]
  have finished: "ensures (running (stands n q))
      (case outcome of Parked \<Rightarrow> aret False | Produced result \<Rightarrow> complete_node X p d result) (\<lambda>go s. go \<longrightarrow> running (reached (n + 1)) s)" for outcome
    by (cases outcome) (auto intro: ensures_simple node_completed)
  show ?case
    unfolding attempts.simps Let_def
    by (auto intro!: ensures_abind anywhere.kept_begin_attempt anywhere.kept_guarded_attempt steady anywhere.kept_finish
        stored_kept anywhere.kept_waits ensures_simple finished Suc split: tried.split)
qed (simp add: ensures_simple)

lemma step_executed:
  "ensures (running (stands n q)) (execute_step X p d c) (\<lambda>go s. go \<longrightarrow> n < pl_max_steps p \<and> running (reached (n + 1)) s)"
proof (rule validI)
  fix s go s'
  assume s: "running (stands n q) s" and run: "execute_step X p d c s = (Inr go, s')"
  have limit: "n < pl_max_steps p"
    using s run by (intro ccontr [of "n < pl_max_steps p"])
      (auto simp: execute_step_def look_def athrow_def alift_def exec_inv_def stands_def Let_def not_less)
  have asked: "keeps (running (stands n q)) (calling X (approved (xe_runtime X) r))" for r
    by (intro anywhere.kept_calling) (simp add: keeps_def)
  have parks: "ensures P (abind m (\<lambda>_. abind m' (\<lambda>_. abind m'' (\<lambda>_. aret False)))) (\<lambda>go s. go \<longrightarrow> running (reached (n + 1)) s)"
    for P :: "execution \<Rightarrow> bool" and m m' m'' :: "unit ex"
    by (rule validI) (auto simp: abind_Inr aret_def)
  have "ensures (running (stands n q)) (execute_step X p d c) (\<lambda>go s. go \<longrightarrow> running (reached (n + 1)) s)"
    unfolding execute_step_def Let_def
    by (intro ensures_look valid_if ensures_simple ensures_abind keeps_simple keeps_if asked parks attempted)
      (auto intro!: ensures_simple ensures_abind keeps_if asked parks attempted keeps_simple split: prod.split)
  from valid_return [OF this s run] limit show "go \<longrightarrow> n < pl_max_steps p \<and> running (reached (n + 1)) s'" by simp
qed simp

definition run_rank :: "pipeline_definition \<Rightarrow> run \<Rightarrow> nat" where
  "run_rank p r = (unat (pl_max_steps p) - unat (r_steps r)) * 257 + length (r_ready r)"

lemma reached_rank: "n < pl_max_steps p \<Longrightarrow> reached (n + 1) r \<Longrightarrow> run_rank p r < (unat (pl_max_steps p) - unat n) * 257 + k"
proof -
  assume n: "n < pl_max_steps p" and r: "reached (n + 1) r"
  let ?left = "unat (pl_max_steps p) - unat (r_steps r)"
  have "Suc ?left \<le> unat (pl_max_steps p) - unat n"
    using n r unat_step [OF n] unfolding reached_def word_less_nat_alt word_le_nat_alt by linarith
  then have "Suc ?left * 257 \<le> (unat (pl_max_steps p) - unat n) * 257" by (rule mult_le_mono1)
  with r show "run_rank p r < (unat (pl_max_steps p) - unat n) * 257 + k" by (simp add: reached_def run_rank_def)
qed

lemma join_prepared:
  "ensures (running (stands n q)) (join_ready X d)
     (\<lambda>ready s. if ready then running (stands n q) s else q \<noteq> [] \<and> running (stands n (tl q)) s)"
proof (rule validI)
  fix s ready s'
  assume s: "running (stands n q) s" and run: "join_ready X d s = (Inr ready, s')"
  obtain res r events where join: "prepare_join (xs_run s) d = (res, r, events)" by (cases "prepare_join (xs_run s) d") auto
  from run join have res: "res = Inr ready"
    by (auto simp: join_ready_def look_def abind_Inr alift_def)
  have r: "if ready then stands n q r else q \<noteq> [] \<and> stands n (tl q) r"
    using s join unfolding res
    by (auto simp: prepare_join_def next_ready.simps stands_def exec_inv_def Let_def split: if_splits list.splits prod.splits bool.splits)
  have "keeps (running (stands n t)) (afor events (\<lambda>e. x_checkpoint X e []))" for t
    by (intro keeps_afor stored_kept steady_stands)
  from keepsD [OF this, of _ "s\<lparr>xs_run := r\<rparr>"] have "running (stands n t) s'" if "stands n t r" for t
    using that run join unfolding res
    by (auto simp: join_ready_def look_def abind_Inr change_run_def modify_def alift_def exec_inv_def)
  with r show "if ready then running (stands n q) s' else q \<noteq> [] \<and> running (stands n (tl q)) s'" by (auto split: if_splits)
qed simp

lemma round_progress: "execute_round X p s = (Inr True, s') \<Longrightarrow> run_rank p (xs_run s') < run_rank p (xs_run s)"
proof -
  let ?n = "r_steps (xs_run s)" and ?q = "r_ready (xs_run s)"
  let ?Q = "\<lambda>go s'. go \<longrightarrow> run_rank p (xs_run s') < run_rank p (xs_run s)"
  have binds: "keeps (running (stands ?n ?q)) (show_bindings X d)" for d
    unfolding show_bindings_def Let_def by (intro keeps_rules anywhere.kept_run) (simp_all add: stands_def)
  have last: "ensures (running (stands ?n ?q)) (execute_step X p d c) ?Q" for d c
    by (rule valid_weaken [OF step_executed]) (auto simp: run_rank_def exec_inv_def dest: reached_rank [of ?n p _ "length ?q"])
  have waits: "ensures (\<lambda>s. if ready then running (stands ?n ?q) s else ?q \<noteq> [] \<and> running (stands ?n (tl ?q)) s)
      (if \<not> ready then aret True else execute_step X p d c) ?Q" for ready d c
  proof (cases ready)
    case True
    then show ?thesis using last by simp
  next
    case False
    then show ?thesis by (auto simp: valid_def aret_def run_rank_def exec_inv_def stands_def)
  qed
  have "ensures (running (stands ?n ?q)) (execute_round X p) ?Q"
    unfolding execute_round_def Let_def
    by (intro ensures_abind ensures_look anywhere.kept_local anywhere.kept_session_part anywhere.kept_check anywhere.kept_node_of binds
        valid_abind [OF join_prepared] waits) simp
  from valid_return [OF this, of s True s'] show "execute_round X p s = (Inr True, s') \<Longrightarrow> run_rank p (xs_run s') < run_rank p (xs_run s)"
    by (simp add: exec_inv_def stands_def)
qed

lemma loop_ends:
  assumes "run_rank p (xs_run s) < fuel"
  shows "execute_loop X p (fuel + extra) s = execute_loop X p fuel s \<and> fst (execute_loop X p fuel s) \<noteq> Inr False"
  using assms
proof (induction fuel arbitrary: s)
  case (Suc fuel)
  obtain r s1 where run: "execute_round X p s = (r, s1)" by fastforce
  show ?case
  proof (cases "r = Inr True")
    case True
    with round_progress [of X p s s1] run Suc.prems Suc.IH [of s1] show ?thesis by (simp add: abind_def)
  next
    case False
    with run show ?thesis by (auto simp: abind_def aret_def split: sum.split)
  qed
qed simp

text \<open>
  C7: The executor of a run always returns, with a result or with an exception that its caller handles: for every pipeline and every
  stored run there is a number of rounds after which the loop has been left, and more rounds change nothing.
\<close>

theorem execution_returns:
  "\<exists>fuel. \<forall>extra. execute X (fuel + extra) (start_execution w r) = execute X fuel (start_execution w r) \<and>
     fst (execute X fuel (start_execution w r)) \<noteq> Inr False"
proof -
  let ?s = "start_execution w r"
  have failed: "fst (abind (execution_failed X e) (\<lambda>_. aret True) s) \<noteq> Inr False" for e s
    by (auto simp: abind_def aret_def split: prod.split sum.split)
  show ?thesis
  proof (cases "re_parse (xe_runtime X) (r_definition (xs_run ?s))")
    case (Inl e)
    then show ?thesis by (simp add: execute_def look_def abind_def alift_def Let_def)
  next
    case (Inr p0)
    let ?p = "p0\<lparr>pl_resolved_subpipelines := r_resolved_subpipelines (xs_run ?s)\<rparr>"
    obtain go s1 where begun: "begin_execution X ?s = (go, s1)" by fastforce
    let ?fuel = "Suc (run_rank ?p (xs_run s1))"
    have unfolded: "execute X fuel ?s = acatch (abind (begin_execution X) (\<lambda>go. if go then execute_loop X ?p fuel else aret True))
        (\<lambda>e. abind (execution_failed X e) (\<lambda>_. aret True)) ?s" for fuel
      by (simp add: execute_def look_def abind_def alift_def Let_def Inr)
    have "execute X (?fuel + extra) ?s = execute X ?fuel ?s \<and> fst (execute X ?fuel ?s) \<noteq> Inr False" for extra
      using loop_ends [of ?p s1 ?fuel X extra] failed
      by (auto simp: unfolded acatch_def abind_def [of "begin_execution X"] begun aret_def split: sum.split prod.split)
    then show ?thesis by blast
  qed
qed

end
