(* ===== verification/Spec2Isabelle.thy ===== *)
theory Spec2Isabelle
  imports Laso_Codec Laso_Registry Laso_Policy Laso_Pipeline Laso_Graph Laso_Coordination Laso_Time Laso_Cron
    Laso_Worker Laso_Storage Laso_Schedule Laso_Scheduler Laso_Scheduler_Guarantees Laso_Session_Guarantees
    Laso_Reducer Laso_Runtime_Guarantees Laso_Manager_Guarantees
    Laso_Ingress Laso_Execution_Returns
begin

text \<open>
  \<^bold>\<open>A verification of LASO's core.\<close> LASO is a local orchestration service for agent pipelines, written in
  C++ (\<^verbatim>\<open>src/include/laso\<close>, \<^verbatim>\<open>src/src\<close>). A pipeline is a graph of nodes. A run walks the graph, fans out at
  parallel nodes and waits at joins; policies decide what a node may touch; runs, events, schedules and
  jobs are records of a PostgreSQL store; several processes share the store and own runs through fenced
  leases; a scheduler launches runs from cron expressions, intervals and events. This development models
  the parts that decide what happens, function by function, and proves what makes them correct.

  \<^bold>\<open>How the program is modelled.\<close> A class or struct is a record with the source's fields, an enum a
  datatype, \<^verbatim>\<open>std::map\<close> an ordered association list (locale \<open>ordered_map\<close>), \<^verbatim>\<open>unsigned\<close> and
  \<^verbatim>\<open>std::uint64_t\<close> are words and wrap, wall times are integers with the 64-bit range checked where the code
  computes with them. An exception is the left side of a sum; code that changes state before it throws
  returns the state as well. One transaction, or one call under a component's lock, is one atomic step;
  histories are lists of steps of any number of processes in any order. A transaction that reports a failure is
  taken as rolled back: a COMMIT whose outcome the client does not learn is not modelled. The checks of
  \<^verbatim>\<open>write_records\<close> and its writes are one step too, although the source reads without locking the row; so nothing is
  claimed here about node work, jobs and pipelines that rests on the store refusing a concurrent write. A stored body is
  the JSON value: printing and parsing it are the identity. What is outside the repository
  is an argument: the JSON library's conversions and serializer (\<open>json_ops\<close>, with \<open>json_ops_ok\<close>
  for what is documented: a value converts back to the type it was built from), the readings of clocks,
  \<^verbatim>\<open>uuid()\<close>, the random source, the failures of database and pool, the launch callback of the scheduler.
  No hypothesis is made about them beyond those a theorem names.

  \<^bold>\<open>Theories.\<close>
  \<^item> \<open>Laso_Prelude\<close>: exceptions as values, the result plumbing, ordered maps and their interface.
  \<^item> \<open>Laso_Json\<close>: JSON values and the access the program uses.
  \<^item> \<open>Laso_Types\<close> (\<^verbatim>\<open>core/types.hpp\<close>, \<^verbatim>\<open>core/types.cpp\<close>): the data, the run and node work state machines, UUIDs.
  \<^item> \<open>Laso_Codec\<close>: every \<^verbatim>\<open>to_json\<close> and \<^verbatim>\<open>from_json\<close> of the core types; round trips.
  \<^item> \<open>Laso_Registry\<close> (\<^verbatim>\<open>core/registry.hpp\<close>): batches are all or nothing, bindings are stable.
  \<^item> \<open>Laso_Policy\<close> (\<^verbatim>\<open>policies/policy.hpp\<close>): the decision, exactly.
  \<^item> \<open>Laso_Pipeline\<close> (\<^verbatim>\<open>pipeline/parser.cpp\<close>): references, and \<^verbatim>\<open>validate_pipeline\<close> with its two searches.
  \<^item> \<open>Laso_Graph\<close> (\<^verbatim>\<open>runtime/graph.cpp\<close>, \<^verbatim>\<open>workers/manager.cpp\<close> for resolving a worker): permissions, the ready
    queue, the join barrier, routing.
  \<^item> \<open>Laso_Coordination\<close> (\<^verbatim>\<open>storage/coordination.cpp\<close>): leases and instances; the locale \<open>fenced\<close> states what
    a fenced resource promises and is interpreted on the lease table.
  \<^item> \<open>Laso_Time\<close>, \<open>Laso_Cron\<close> (\<^verbatim>\<open>scheduler/scheduler.cpp\<close>): the calendar, timestamps, cron fields and the
    search for the next occurrence.
  \<^item> \<open>Laso_Worker\<close> (\<^verbatim>\<open>workers/worker.hpp\<close>, \<^verbatim>\<open>workers/worker.cpp\<close>): jobs, their state machine, usage, interactions.
  \<^item> \<open>Laso_Storage\<close> (\<^verbatim>\<open>storage/storage.hpp\<close>, \<^verbatim>\<open>storage/postgres.cpp\<close>): the record store; the locale
    \<open>exclusive_claims\<close> states what a claim promises and is interpreted on it.
  \<^item> \<open>Laso_Action\<close>, \<open>Laso_Rows\<close>: programs that throw and change a state, with rules for what they keep; the rows of
    the store as the invariants of its clients see them.
  \<^item> \<open>Laso_Session\<close>, \<open>Laso_Session_Invariant\<close>, \<open>Laso_Session_Guarantees\<close> (\<^verbatim>\<open>storage/postgres.cpp\<close>, and
    \<^verbatim>\<open>application/service.cpp\<close> for a new session and the identity of a turn): agent sessions, the transactions
    that submit, dispatch, bind, complete and close; the invariant of their tables, carried through histories by
    the locale \<open>evolving_system\<close>; what sessions promise.
  \<^item> \<open>Laso_Schedule\<close>, \<open>Laso_Scheduler\<close>, \<open>Laso_Scheduler_Guarantees\<close> (\<^verbatim>\<open>scheduler/scheduler.hpp\<close>,
    \<^verbatim>\<open>scheduler/scheduler.cpp\<close>): definitions of schedules and triggers, the durable scheduler as actions on a
    world, and its guarantees, proved once for every predicate that a hierarchy of locales
    (\<open>stored_and_launched\<close>, \<open>writing_actions\<close>, \<open>settling_actions\<close>, \<open>launching_actions\<close>) describes.
  \<^item> \<open>Laso_Reducer\<close> (\<^verbatim>\<open>context/reducer.cpp\<close>): the reference reducer of a session's context.
  \<^item> \<open>Laso_Runtime\<close>, \<open>Laso_Runtime_Loops\<close> (\<^verbatim>\<open>runtime/runtime.hpp\<close>, \<^verbatim>\<open>runtime/runtime.cpp\<close>): the service that admits, checkpoints,
    resumes, cancels and decides runs, and its claim, lease and session loops, as actions of one instance; other
    instances act on the database at every access. \<open>Laso_Runtime_Invariant\<close> (locale \<open>local_predicate\<close>),
    \<open>Laso_Runtime_Records\<close> (locale \<open>stored_predicate\<close>) and \<open>Laso_Runtime_Guarantees\<close> show what it keeps.
  \<^item> \<open>Laso_Nodes\<close> (\<^verbatim>\<open>nodes/nodes.cpp\<close>, \<^verbatim>\<open>nodes/node.hpp\<close>, \<^verbatim>\<open>core/async.hpp\<close>, \<^verbatim>\<open>runtime/executor.cpp\<close>): what a coroutine holds
    (\<open>execution\<close>) and what surrounds it (\<open>execution_env\<close>: the answers of functions, tools, models, worker jobs and clocks, and what
    the rest of the process does whenever the mutex is free), the checks of an execution context, and every kind of node.
  \<^item> \<open>Laso_Execution\<close> (\<^verbatim>\<open>runtime/execution.cpp\<close>): the executors of a run, of the branches of a parallel node and of
    distributed node work. \<open>Laso_Execution_Invariant\<close> carries predicates of the runtime, of the local run and of the list of executed
    nodes through them (locales \<open>execution_frame\<close> and its extension \<open>execution_world\<close>; \<open>local_executor\<close> and \<open>stored_executor\<close> are
    sublocales of the latter); \<open>Laso_Execution_Guarantees\<close> has the histories in which whole executions are steps, and what holds in
    them; \<open>Laso_Execution_Returns\<close> shows that branches and executions end.
  \<^item> \<open>Laso_Manager\<close>, \<open>Laso_Manager_Guarantees\<close> (\<^verbatim>\<open>workers/manager.hpp\<close>, \<^verbatim>\<open>workers/manager.cpp\<close>): the worker manager; adapters,
    clocks and the other threads of the process are arguments; the locale \<open>manager_predicate\<close> carries a predicate
    of the stored jobs and interactions through every operation.
  \<^item> \<open>Laso_Ingress\<close> (\<^verbatim>\<open>application/event_ingress.cpp\<close>): the admission of external events by many threads at once.

  \<^bold>\<open>What is shown.\<close> Data: every codec of runs and worker jobs reads back what it wrote, state machines only move
  forward, identifiers have the form of version 4 UUIDs. Graphs: validation always returns; it accepts
  exactly the graphs whose unbounded edges have no cycle, and then every node is reachable and every walk
  within the edge limits is bounded; routing never gets stuck, a join fires exactly when the last branch
  arrives. Sharing: fencing tokens are consecutive under every interleaving, an outdated lease is rejected for
  good, by the lease operations and by owned commits; a claim is won once; a commit updates exactly its keys.
  Sessions: the event log is gapless and only grows, one turn is worked on at a time and the oldest first, an input
  is accepted once, finished turns and closed sessions are final, context generations form a chain, and context records
  never change once they are stored.
  Scheduling: cron fields mean what they say and the next occurrence is the first match; only due work is
  launched, settled work never again, trigger chains are bounded, a stopped scheduler stays quiet.
  Runs: a node is attempted only as the policy permitted it, on the path of a run and in its branches, with the approval it needs;
  an instance never has more coroutines of runs at work than it may, none twice for a run, and begins neither runs nor claimed work
  after its shutdown; on an instance that has the database for itself a run that ended, a decision and a requested cancellation stay
  as stored, through calls, loops and whole executions; a parallel group and the executor of a run always come to an end; a walk
  crosses a bounded edge no more often than its limit. Workers: a job that ended (where submissions can be recovered) and a decided
  request are final, the token budget is exact on the jobs it looks at. Events: admission stays within its bounds and an external event is published once. Where
  the code does something else than it seems to mean, a theorem shows what it does: a failed launch stops its
  schedule, an exhausted connection pool launches twice, impossible dates are accepted, a worker's request for approval is granted by default.

  \<^bold>\<open>Fuel and bounds.\<close> The two depth-first searches of the validator carry fuel, one more than the number of
  nodes, and \<open>validate_pipeline_returns\<close> shows that it is enough. The cron search and the loop past missed
  occurrences have the source's own limits (five years of minutes, 10000 steps). All other loops run over
  lists. The store is unbounded; the size limits of the code are tests of the model. The cancellation of a run or
  a job with its descendants carries a depth: a descendant is stored after its ancestors, so the number of stored
  records is enough. The executor of a run carries fuel for its rounds (\<open>execute\<close>), its branches the fuel \<open>branch_fuel\<close>: the steps the
  pipeline allows, each with the attempts of a node and the polls of a child. \<open>xe_patience\<close> is the number of polls after which
  the deadline of the context has passed, whatever the clock says, and the number of polls a limiter may take; how many coroutines
  hold a limiter at once is not modelled. \<open>branches_always_report\<close> and \<open>execution_returns\<close> show that the fuel of the branches is enough and
  that for every run some fuel is; all other statements about executions hold for every fuel.

  \<^bold>\<open>Not modelled.\<close> The thread pool, the workspaces on disk and their upload, the worker processes,
  the service facade, HTTP API, command line, plugin loading, configuration, artifact transfer and model
  providers: coroutines over sockets, processes and files around the decisions modelled here. Of the store,
  schema migration, operator audit and diagnostics are left out; of the scheduler, the transient timers kept for
  compatibility; of the worker manager, the tool calls of browser workers; of the nodes, the built-in functions.
\<close>

section \<open>Across components\<close>

lemma outdated_commit:
  assumes "uint fencing_token < lease_token db resource_key"
  shows "fst (commit_owned J fresh now now2 fault t records resource_key owner fencing_token db st) \<noteq> Inr ()"
    and "snd (commit_owned J fresh now now2 fault t records resource_key owner fencing_token db st) = st"
  using assms
  by (auto simp: commit_owned_def in_transaction_def lease_token_def split: option.splits)

text \<open>
  C26: a process that lost its run writes nothing more. Once a later lease of the run has been granted,
  every commit under the earlier lease, with any records and at any time, is refused and leaves the
  store untouched, whatever the processes do to the leases in the meantime.
\<close>

theorem fenced_off_process_commits_nothing:
  assumes "coord_ok db" and "granted ts call db = Some lease"
    and "later \<in> set (grants ts calls (perform ts call db))" and "le_resource_key later = le_resource_key lease"
  shows "let r = commit_owned J fresh now now2 fault t records (le_resource_key lease) (le_owner_instance lease)
      (le_fencing_token lease) (fold (perform ts) calls (perform ts call db)) st
    in fst r \<noteq> Inr () \<and> snd r = st"
  using outdated_commit [OF outdated_token(1) [OF assms]] by (simp add: Let_def)

lemma fenced_off_process_commits_nothing_witness:
  "snd (commit_owned plain_ops ''f'' ''t'' ''u'' None (\<lambda>_. 5500) [example_record KRun ''r'' ''done''] ''run'' ''B'' 2
       (fold (perform (\<lambda>_. [])) [call_at 7000 ''A'' (Acquire ''run'' 9)]
          (perform (\<lambda>_. []) (call_at 5000 ''B'' (Acquire ''run'' 1)) example_db)) empty_store) = empty_store"
proof -
  let ?ts = "\<lambda>_ :: int. [] :: string"
  let ?b = "call_at 5000 ''B'' (Acquire ''run'' 1)" and ?a = "call_at 7000 ''A'' (Acquire ''run'' 9)"
  let ?lease = "\<lparr>le_resource_key = ''run'', le_owner_instance = ''B'', le_fencing_token = 2, le_acquired_at = [],
        le_heartbeat_at = [], le_expires_at = [], le_active = True\<rparr>"
  let ?later = "?lease\<lparr>le_owner_instance := ''A'', le_fencing_token := 3\<rparr>"
  have "granted ?ts ?b example_db = Some ?lease"
    by (simp add: coord_example_defs less_char_def)
  moreover have "?later \<in> set (grants ?ts [?a] (perform ?ts ?b example_db))"
    by (simp add: coord_example_defs less_char_def)
  ultimately show ?thesis
    using fenced_off_process_commits_nothing [OF example_db_ok, of ?ts ?b ?lease ?later "[?a]"]
    by (simp add: Let_def)
qed

lemma outdated_lease_refused:
  assumes "uint token < lease_token (se_leases env) resource" and "token \<noteq> 0"
  shows "\<exists>e. check_lease stale resource owner token env = Inl e"
  using assms by (auto simp: check_lease_def lease_token_def split: option.splits)

lemma refused_transaction:
  assumes "\<exists>e. body = Inl e"
  shows "\<exists>e. guarded g st (in_transaction what fault st body) = (Inl e, st)"
  using assms by (auto simp: guarded_def in_transaction_def split: option.split sum.split)

text \<open>
  A process that lost a session dispatches nothing more. Once a later lease of the session has been
  granted, claiming a turn and binding a run under the earlier lease are refused, at any time and
  whatever the processes do to the leases in the meantime, and leave all tables untouched.
\<close>

lemma fenced_off_dispatcher_changes_nothing:
  assumes "coord_ok db" and "granted ts call db = Some lease"
    and "later \<in> set (grants ts calls (perform ts call db))" and "le_resource_key later = le_resource_key lease"
    and "le_resource_key lease = ''session:'' @ sid" and "se_leases env = fold (perform ts) calls (perform ts call db)"
  shows "(\<exists>e. claim_next_session_turn J env sid (le_owner_instance lease) (le_fencing_token lease) expires event sdb = (Inl e, sdb)) \<and>
    (\<exists>e. bind_session_turn_run J env sid tid run run_event (le_owner_instance lease) (le_fencing_token lease) event sdb = (Inl e, sdb))"
proof -
  have "1 \<le> uint (le_fencing_token lease)"
    using assms(2) lease_token_range [OF assms(1)] by (cases rule: perform_cases [OF assms(1), of ts call]) simp_all
  then have nonzero: "le_fencing_token lease \<noteq> 0" by auto
  have "uint (le_fencing_token lease) < lease_token (se_leases env) (''session:'' @ sid)"
    using outdated_token(1) [OF assms(1-4)] assms(5,6) by simp
  from outdated_lease_refused [OF this nonzero] have
    "\<exists>e. check_lease ''Session dispatch lease is stale'' (''session:'' @ sid) (le_owner_instance lease) (le_fencing_token lease) env = Inl e" .
  then show ?thesis
    unfolding claim_next_session_turn_def bind_session_turn_run_def
    by (intro conjI refused_transaction) auto
qed

lemma fenced_off_dispatcher_changes_nothing_example:
  "\<exists>env e. se_leases env = fold (perform (\<lambda>_. [])) [call_at 7000 ''A'' (Acquire ''session:s'' 9)]
       (perform (\<lambda>_. []) (call_at 5000 ''B'' (Acquire ''session:s'' 1)) example_db) \<and>
     claim_next_session_turn quiet_ops env ''s'' ''B'' 1 ''soon'' (example_event ''e'') submitted_db = (Inl e, submitted_db)"
proof -
  let ?ts = "\<lambda>_ :: int. [] :: string"
  let ?b = "call_at 5000 ''B'' (Acquire ''session:s'' 1)" and ?a = "call_at 7000 ''A'' (Acquire ''session:s'' 9)"
  let ?lease = "\<lparr>le_resource_key = ''session:s'', le_owner_instance = ''B'', le_fencing_token = 1, le_acquired_at = [],
        le_heartbeat_at = [], le_expires_at = [], le_active = True\<rparr>"
  let ?later = "?lease\<lparr>le_owner_instance := ''A'', le_fencing_token := 2\<rparr>"
  let ?env = "example_env\<lparr>se_leases := fold (perform ?ts) [?a] (perform ?ts ?b example_db)\<rparr>"
  have "granted ?ts ?b example_db = Some ?lease"
    by (simp add: coord_example_defs less_char_def)
  moreover have "?later \<in> set (grants ?ts [?a] (perform ?ts ?b example_db))"
    by (simp add: coord_example_defs less_char_def)
  ultimately have "\<exists>e. claim_next_session_turn quiet_ops ?env ''s'' (le_owner_instance ?lease) (le_fencing_token ?lease) ''soon''
      (example_event ''e'') submitted_db = (Inl e, submitted_db)"
    using fenced_off_dispatcher_changes_nothing [OF example_db_ok, of ?ts ?b ?lease ?later "[?a]" "''s''" ?env] by simp
  then obtain e where "claim_next_session_turn quiet_ops ?env ''s'' ''B'' 1 ''soon'' (example_event ''e'') submitted_db = (Inl e, submitted_db)"
    by auto
  moreover have "se_leases ?env = fold (perform ?ts) [?a] (perform ?ts ?b example_db)" by simp
  ultimately show ?thesis by blast
qed

end
